(* ===== verification/NutPrelude.thy ===== *)
theory NutPrelude
  imports Main "HOL-Library.Word" "HOL-Library.List_Lexorder" "HOL-Library.Char_ord"
begin

text \<open>
  Shared vocabulary of the development: C strings, the byte classes of \<open>ctype.h\<close>,
  the comparison functions of \<open>strings.h\<close>, number scanning and printing, and the
  generic list lemmas that the component theories rely on.

  A C string is modelled by the list of its bytes before the terminating NUL. Only the
  sign of \<open>strcmp\<close>-like results is specified by C, so the models return
  \<open>-1\<close>, \<open>0\<close> or \<open>1\<close>. The \<open>ctype.h\<close> functions are those of the C locale.
\<close>

named_theorems nut_wf \<open>well-formedness is kept by an operation\<close>
named_theorems nut_eval \<open>equations that evaluate an operation on one of its branches\<close>

type_synonym cstring = "char list"

section \<open>Bytes\<close>

definition code_of :: "char \<Rightarrow> nat" where
  "code_of c = of_char c"

text \<open>The value of a plain \<open>char\<close> promoted to \<open>int\<close>, where \<open>char\<close> is signed.\<close>

definition schar :: "char \<Rightarrow> int" where
  "schar c = (let n = int (code_of c) in if n < 128 then n else n - 256)"

definition isspace :: "int \<Rightarrow> bool" where
  "isspace ch \<longleftrightarrow> (9 \<le> ch \<and> ch \<le> 13) \<or> ch = 32"

definition isdigit :: "char \<Rightarrow> bool" where
  "isdigit c \<longleftrightarrow> 48 \<le> code_of c \<and> code_of c \<le> 57"

text \<open>\<open>tolower\<close>, read off as a byte value: all comparisons below are on these values.\<close>

definition tolower :: "char \<Rightarrow> nat" where
  "tolower c = (if 65 \<le> code_of c \<and> code_of c \<le> 90 then code_of c + 32 else code_of c)"

definition fold_case :: "cstring \<Rightarrow> nat list" where
  "fold_case s = map tolower s"

section \<open>Comparison of strings\<close>

fun strcasecmp :: "cstring \<Rightarrow> cstring \<Rightarrow> int" where
  "strcasecmp [] [] = 0"
| "strcasecmp [] (d # ds) = - 1"
| "strcasecmp (c # cs) [] = 1"
| "strcasecmp (c # cs) (d # ds) =
     (if tolower c < tolower d then - 1
      else if tolower d < tolower c then 1
      else strcasecmp cs ds)"

definition strncasecmp :: "cstring \<Rightarrow> cstring \<Rightarrow> nat \<Rightarrow> int" where
  "strncasecmp s t n = strcasecmp (take n s) (take n t)"

definition strcmp_eq :: "cstring \<Rightarrow> cstring \<Rightarrow> bool" where
  "strcmp_eq s t \<longleftrightarrow> s = t"

text \<open>\<open>!strcasecmp(s, t)\<close>, the test the code uses everywhere.\<close>

definition same_nocase :: "cstring \<Rightarrow> cstring \<Rightarrow> bool" where
  "same_nocase s t \<longleftrightarrow> strcasecmp s t = 0"

lemma strcasecmp_eq_0: "strcasecmp s t = 0 \<longleftrightarrow> fold_case s = fold_case t"
  by (induction s t rule: strcasecmp.induct) (auto simp: fold_case_def)

lemma strcasecmp_less_0: "strcasecmp s t < 0 \<longleftrightarrow> fold_case s < fold_case t"
  by (induction s t rule: strcasecmp.induct) (auto simp: fold_case_def)

lemma strcasecmp_greater_0: "0 < strcasecmp s t \<longleftrightarrow> fold_case t < fold_case s"
  by (induction s t rule: strcasecmp.induct) (auto simp: fold_case_def)

lemma strcasecmp_refl [simp]: "strcasecmp s s = 0"
  by (simp add: strcasecmp_eq_0)

lemma same_nocase_iff: "same_nocase s t \<longleftrightarrow> fold_case s = fold_case t"
  by (simp add: same_nocase_def strcasecmp_eq_0)

lemma same_nocase_refl [simp]: "same_nocase s s"
  by (simp add: same_nocase_def)

lemma same_nocase_sym: "same_nocase s t \<longleftrightarrow> same_nocase t s"
  by (auto simp: same_nocase_iff)

lemma same_nocase_trans: "same_nocase s t \<Longrightarrow> same_nocase t u \<Longrightarrow> same_nocase s u"
  by (simp add: same_nocase_iff)

lemmas strcasecmp_sign = strcasecmp_eq_0 strcasecmp_less_0 strcasecmp_greater_0

text \<open>
  The contract that ordered containers need of a three-way comparison: its sign is the
  sign of a comparison of keys in a linear order.
\<close>

locale three_way =
  fixes cmp :: "'a \<Rightarrow> 'a \<Rightarrow> int" and key :: "'a \<Rightarrow> 'k::linorder"
  assumes cmp_less: "cmp x y < 0 \<longleftrightarrow> key x < key y"
    and cmp_greater: "0 < cmp x y \<longleftrightarrow> key y < key x"
begin

lemma cmp_zero: "cmp x y = 0 \<longleftrightarrow> key x = key y"
  using cmp_less [of x y] cmp_greater [of x y]
  by (cases "key x" "key y" rule: linorder_cases) auto

lemma cmp_antisym: "cmp x y < 0 \<longleftrightarrow> 0 < cmp y x"
  by (simp add: cmp_less cmp_greater)

lemma cmp_trans: "cmp x y < 0 \<Longrightarrow> cmp y z < 0 \<Longrightarrow> cmp x z < 0"
  by (simp add: cmp_less)

lemma cmp_cong: "cmp x y = 0 \<Longrightarrow> (cmp x z < 0 \<longleftrightarrow> cmp y z < 0) \<and> (0 < cmp x z \<longleftrightarrow> 0 < cmp y z)"
  by (simp add: cmp_less cmp_greater cmp_zero)

end

text \<open>
  The contract of a store whose keys are compared by \<open>same\<close>: a write is seen under
  every spelling of its key and nowhere else. \<open>store\<close> says what a write leaves behind,
  given what was there.
\<close>

locale keyed_store =
  fixes vfind :: "'s \<Rightarrow> 'k \<Rightarrow> 'v option" and vput :: "'s \<Rightarrow> 'k \<Rightarrow> 'x \<Rightarrow> 's"
    and vinv :: "'s \<Rightarrow> bool" and same :: "'k \<Rightarrow> 'k \<Rightarrow> bool"
    and store :: "'k \<Rightarrow> 'x \<Rightarrow> 'v option \<Rightarrow> 'v"
  assumes same_sym: "same j k \<Longrightarrow> same k j"
    and same_trans: "same i j \<Longrightarrow> same j k \<Longrightarrow> same i k"
    and put_inv: "vinv s \<Longrightarrow> vinv (vput s k x)"
    and find_put: "vinv s \<Longrightarrow>
      vfind (vput s k x) j = (if same k j then Some (store k x (vfind s k)) else vfind s j)"
begin

definition puts :: "('k \<times> 'x) list \<Rightarrow> 's \<Rightarrow> 's" where
  "puts kxs s = foldl (\<lambda>s kx. vput s (fst kx) (snd kx)) s kxs"

lemma puts_inv: "vinv s \<Longrightarrow> vinv (puts kxs s)"
  by (induction kxs arbitrary: s) (auto simp: puts_def put_inv)

lemma find_puts_other:
  "vinv s \<Longrightarrow> \<forall>kx \<in> set kxs. \<not> same (fst kx) j \<Longrightarrow> vfind (puts kxs s) j = vfind s j"
  by (induction kxs arbitrary: s) (auto simp: puts_def find_put put_inv)

lemma find_puts_some:
  "vinv s \<Longrightarrow> vfind s j \<noteq> None \<Longrightarrow> vfind (puts kxs s) j \<noteq> None"
  by (induction kxs arbitrary: s) (auto simp: puts_def find_put put_inv)

lemma find_puts_last:
  "vinv s \<Longrightarrow> same k j \<Longrightarrow>
     vfind (puts (kxs @ [(k, x)]) s) j = Some (store k x (vfind (puts kxs s) k))"
  using find_put [OF puts_inv, of s kxs k x j] by (simp add: puts_def)

end

section \<open>Lists\<close>

lemma list_all2_update_left:
  "list_all2 P xs ys \<Longrightarrow> P x (ys ! i) \<Longrightarrow> list_all2 P (xs[i := x]) ys"
  by (auto simp: list_all2_conv_all_nth) (metis nth_list_update_eq nth_list_update_neq)

interpretation nocase: three_way strcasecmp fold_case
  by unfold_locales (simp_all add: strcasecmp_less_0 strcasecmp_greater_0)

end
