(* ===== verification/HidParser.thy ===== *)
theory HidParser
  imports NutPrelude "HOL-Library.Word" "HOL-Library.Monad_Syntax"
begin

unbundle bit_operations_syntax

text \<open>
  The parser of HID report descriptors, \<open>src/drivers/hidparser.c\<close> with the types of
  \<open>src/drivers/hidtypes.h\<close>: the bytes with which a USB device describes its reports become a
  list of items, each with its path of usages, its report, and its place in the report; then
  the extraction of a value from a report and its insertion.

  Integers are words of the width of the C type (\<open>uint8_t\<close>, \<open>uint16_t\<close>, \<open>uint32_t\<close>);
  \<open>long\<close> has 64 bits. A computation that reads or writes behind an array, follows a null
  pointer or shifts by more than the type allows has the value \<open>None\<close>, and so has one that does
  not end. Log messages are left out; memory is always there.
\<close>

section \<open>Types\<close>

type_synonym uint8 = "8 word"
type_synonym uint16 = "16 word"
type_synonym uint32 = "32 word"

definition PATH_SIZE :: nat where "PATH_SIZE = 10"
definition USAGE_TAB_SIZE :: nat where "USAGE_TAB_SIZE = 50"
definition MAX_REPORT :: nat where "MAX_REPORT = 500"

type_synonym HIDNode_t = uint32

record HIDPath_t =
  PathSize :: uint8
  PathNode :: "HIDNode_t list"

record HIDData_t =
  Path :: HIDPath_t
  ReportID :: uint8
  Offset :: uint8
  DataSize :: uint8
  DataType :: uint8
  Attribute :: uint8
  Unit :: int
  UnitExp :: uint8
  LogMin :: int
  LogMax :: int
  assumed_LogMax :: bool
  PhyMin :: int
  PhyMax :: int
  have_PhyMin :: bool
  have_PhyMax :: bool
  mapping_handled :: bool

text \<open>The entries of \<open>OffsetTab\<close> hold an identifier, a type and an offset.\<close>

record HIDParser_t =
  ReportDesc :: "uint8 list"
  Pos :: uint16
  Item :: uint8
  ItemValue :: uint32
  Data :: HIDData_t
  OffsetTab :: "(uint8 \<times> uint8 \<times> uint8) list"
  ReportCount :: uint8
  LocalCount :: uint8
  UPage :: uint16
  UsageTab :: "HIDNode_t list"
  UsageSize :: nat

text \<open>An item of the descriptor: the upper six bits of its first byte.\<close>

definition ITEM_MASK :: uint8 where "ITEM_MASK = 0xFC"
definition SIZE_MASK :: uint8 where "SIZE_MASK = 0x03"

definition ITEM_COLLECTION :: uint8 where "ITEM_COLLECTION = 0xA0"
definition ITEM_END_COLLECTION :: uint8 where "ITEM_END_COLLECTION = 0xC0"
definition ITEM_FEATURE :: uint8 where "ITEM_FEATURE = 0xB0"
definition ITEM_INPUT :: uint8 where "ITEM_INPUT = 0x80"
definition ITEM_OUTPUT :: uint8 where "ITEM_OUTPUT = 0x90"
definition ITEM_UPAGE :: uint8 where "ITEM_UPAGE = 0x04"
definition ITEM_LOG_MIN :: uint8 where "ITEM_LOG_MIN = 0x14"
definition ITEM_LOG_MAX :: uint8 where "ITEM_LOG_MAX = 0x24"
definition ITEM_PHY_MIN :: uint8 where "ITEM_PHY_MIN = 0x34"
definition ITEM_PHY_MAX :: uint8 where "ITEM_PHY_MAX = 0x44"
definition ITEM_UNIT_EXP :: uint8 where "ITEM_UNIT_EXP = 0x54"
definition ITEM_UNIT :: uint8 where "ITEM_UNIT = 0x64"
definition ITEM_REP_SIZE :: uint8 where "ITEM_REP_SIZE = 0x74"
definition ITEM_REP_ID :: uint8 where "ITEM_REP_ID = 0x84"
definition ITEM_REP_COUNT :: uint8 where "ITEM_REP_COUNT = 0x94"
definition ITEM_USAGE :: uint8 where "ITEM_USAGE = 0x08"
definition ITEM_LONG :: uint8 where "ITEM_LONG = 0xFC"

lemmas hid_items = ITEM_COLLECTION_def ITEM_END_COLLECTION_def ITEM_FEATURE_def ITEM_INPUT_def
  ITEM_OUTPUT_def ITEM_UPAGE_def ITEM_LOG_MIN_def ITEM_LOG_MAX_def ITEM_PHY_MIN_def ITEM_PHY_MAX_def
  ITEM_UNIT_EXP_def ITEM_UNIT_def ITEM_REP_SIZE_def ITEM_REP_ID_def ITEM_REP_COUNT_def ITEM_USAGE_def
  ITEM_LONG_def

definition ItemSize :: "nat list" where "ItemSize = [0, 1, 2, 4]"

section \<open>Arrays\<close>

definition read_at :: "'a list \<Rightarrow> nat \<Rightarrow> 'a option" where
  "read_at xs i = (if i < length xs then Some (xs ! i) else None)"

definition write_at :: "'a list \<Rightarrow> nat \<Rightarrow> 'a \<Rightarrow> 'a list option" where
  "write_at xs i v = (if i < length xs then Some (xs[i := v]) else None)"

section \<open>The steps of the parser\<close>

function (sequential) hibit_low :: "nat \<Rightarrow> nat \<Rightarrow> nat" where
  "hibit_low x res = (if x > 0 then hibit_low (x div 2) (res + 1) else res)"
  by pat_completeness auto
termination by (relation "measure fst") auto

function (sequential) hibit_loop :: "nat \<Rightarrow> nat \<Rightarrow> nat" where
  "hibit_loop x res = (if x > 0xff then hibit_loop (x div 256) (res + 8) else hibit_low x res)"
  by pat_completeness auto
termination by (relation "measure fst") auto

declare hibit_low.simps [simp del] hibit_loop.simps [simp del]

definition hibit :: "nat \<Rightarrow> nat" where
  "hibit x = hibit_loop x 0"

definition ResetLocalState :: "HIDParser_t \<Rightarrow> HIDParser_t" where
  "ResetLocalState p = p\<lparr>UsageSize := 0, UsageTab := map (\<lambda>_. 0) (UsageTab p)\<rparr>"

text \<open>
  The place of the offset of a report in the table, and the table with the entry that was
  made for it. An entry with the identifier 0 counts as free.
\<close>

fun GetReportOffset :: "uint8 \<Rightarrow> uint8 \<Rightarrow> (uint8 \<times> uint8 \<times> uint8) list \<Rightarrow>
    (nat \<times> (uint8 \<times> uint8 \<times> uint8) list) option" where
  "GetReportOffset rid ty [] = None"
| "GetReportOffset rid ty (e # tab) =
     (let e1 = (if fst e = 0 then (rid, ty, 0) else e) in
      if fst e1 \<noteq> rid \<or> fst (snd e1) \<noteq> ty
      then map_option (\<lambda>(k, tab1). (Suc k, e1 # tab1)) (GetReportOffset rid ty tab)
      else Some (0, e1 # tab))"

definition FormatValue :: "uint32 \<Rightarrow> nat \<Rightarrow> int" where
  "FormatValue v n =
     (if n = 1 then sint (ucast v :: uint8)
      else if n = 2 then sint (ucast v :: uint16)
      else if n = 4 then sint v
      else uint v)"

fun item_value :: "uint8 list \<Rightarrow> nat \<Rightarrow> nat \<Rightarrow> nat \<Rightarrow> uint32 \<Rightarrow> uint32 option" where
  "item_value desc pos 0 i v = Some v"
| "item_value desc pos (Suc n) i v =
     do {
       b \<leftarrow> read_at desc (pos + i);
       item_value desc pos n (Suc i) (v + push_bit (8 * i) (ucast b))
     }"

text \<open>The usages move down by one place, from the place \<open>j\<close> on.\<close>

fun unstack :: "nat \<Rightarrow> nat \<Rightarrow> HIDNode_t list \<Rightarrow> HIDNode_t list option" where
  "unstack 0 j tab = Some tab"
| "unstack (Suc n) j tab =
     do {
       v \<leftarrow> (if j + 1 < length tab then read_at tab (j + 1) else Some 0);
       tab1 \<leftarrow> write_at tab j v;
       unstack n (Suc j) tab1
     }"

definition drop_usage :: "HIDParser_t \<Rightarrow> HIDParser_t option" where
  "drop_usage p =
     (if UsageSize p > 0
      then do {
        tab \<leftarrow> unstack (UsageSize p) 0 (UsageTab p);
        Some (p\<lparr>UsageTab := tab, UsageSize := UsageSize p - 1\<rparr>)
      }
      else Some p)"

definition push_node :: "HIDNode_t \<Rightarrow> HIDParser_t \<Rightarrow> HIDParser_t option" where
  "push_node v p =
     do {
       ns \<leftarrow> write_at (PathNode (Path (Data p))) (unat (PathSize (Path (Data p)))) v;
       Some (p\<lparr>Data := (Data p)\<lparr>Path := \<lparr>PathSize = PathSize (Path (Data p)) + 1, PathNode = ns\<rparr>\<rparr>\<rparr>)
     }"

definition set_path_size :: "uint8 \<Rightarrow> HIDParser_t \<Rightarrow> HIDParser_t" where
  "set_path_size n p = p\<lparr>Data := (Data p)\<lparr>Path := (Path (Data p))\<lparr>PathSize := n\<rparr>\<rparr>\<rparr>"

definition path_full :: "HIDParser_t \<Rightarrow> bool" where
  "path_full p \<longleftrightarrow> unat (PathSize (Path (Data p))) \<ge> PATH_SIZE"

text \<open>How a step ends: go on, return an object with its kind, or return -1.\<close>

datatype step_result = Go HIDParser_t | Object int HIDData_t HIDParser_t | Abort HIDParser_t

text \<open>The next item, unless the current one still has to be repeated.\<close>

definition fetch_item :: "HIDParser_t \<Rightarrow> (HIDParser_t + HIDParser_t) option" where
  "fetch_item p =
     (if LocalCount p \<noteq> 0 then Some (Inr p)
      else do {
        b \<leftarrow> read_at (ReportDesc p) (unat (Pos p));
        n \<leftarrow> read_at ItemSize (unat (b AND SIZE_MASK));
        let p1 = p\<lparr>Item := b, Pos := Pos p + 1, ItemValue := 0\<rparr>;
        if n > length (ReportDesc p) - unat (Pos p1) then Some (Inl p1)
        else do {
          v \<leftarrow> item_value (ReportDesc p) (unat (Pos p1)) n 0 0;
          Some (Inr (p1\<lparr>ItemValue := v, Pos := Pos p1 + of_nat n\<rparr>))
        }
      })"

definition item_usage :: "HIDParser_t \<Rightarrow> step_result option" where
  "item_usage p =
     (if UsageSize p \<ge> length (UsageTab p) then Some (Abort p)
      else do {
        tab \<leftarrow> write_at (UsageTab p) (UsageSize p)
          (if unat (Item p AND SIZE_MASK) > 2 then ItemValue p
           else push_bit 16 (ucast (UPage p)) OR (ItemValue p AND 0xFFFF));
        Some (Go (p\<lparr>UsageTab := tab, UsageSize := UsageSize p + 1\<rparr>))
      })"

definition item_collection :: "HIDParser_t \<Rightarrow> step_result option" where
  "item_collection p =
     (if path_full p then Some (Abort p)
      else do {
        u \<leftarrow> read_at (UsageTab p) 0;
        p1 \<leftarrow> push_node u p;
        p2 \<leftarrow> drop_usage p1;
        if ItemValue p \<ge> 0x80
        then (if path_full p2 then Some (Abort p2)
          else do {
            p3 \<leftarrow> push_node (0x00ff0000 OR (ItemValue p AND 0x7F)) p2;
            Some (Go (ResetLocalState p3))
          })
        else Some (Go (ResetLocalState p2))
      })"

definition item_end_collection :: "HIDParser_t \<Rightarrow> step_result option" where
  "item_end_collection p =
     (if PathSize (Path (Data p)) = 0 then Some (Abort p)
      else let n = PathSize (Path (Data p)) - 1; p1 = set_path_size n p in
        if n > 0
        then do {
          u \<leftarrow> read_at (PathNode (Path (Data p1))) (unat n);
          Some (Go (ResetLocalState (if u AND 0xffff0000 = 0x00ff0000 then set_path_size (n - 1) p1 else p1)))
        }
        else Some (Go (ResetLocalState p1)))"

text \<open>A field of a report: a feature, input or output item.\<close>

definition item_main :: "HIDParser_t \<Rightarrow> step_result option" where
  "item_main p =
     do {
       u \<leftarrow> read_at (UsageTab p) 0;
       let found = (if u \<noteq> 0 then 1 else 0);
       let p1 = (if LocalCount p = 0 then p\<lparr>LocalCount := ReportCount p\<rparr> else p);
       if path_full p1 then Some (Abort p1)
       else do {
         p2 \<leftarrow> push_node u p1;
         p3 \<leftarrow> drop_usage p2;
         let ty = Item p AND ITEM_MASK;
         (k, tab) \<leftarrow> GetReportOffset (ReportID (Data p3)) ty (OffsetTab p3);
         e \<leftarrow> read_at tab k;
         let d = (Data p3)\<lparr>DataType := ty, Attribute := ucast (ItemValue p), Offset := snd (snd e)\<rparr>;
         (k2, tab2) \<leftarrow> GetReportOffset (ReportID d) ty tab;
         e2 \<leftarrow> read_at tab2 k2;
         tab3 \<leftarrow> write_at tab2 k2 (fst e2, fst (snd e2), snd (snd e2) + DataSize d);
         let p4 = set_path_size (PathSize (Path d) - 1) (p3\<lparr>Data := d, OffsetTab := tab3, LocalCount := LocalCount p3 - 1\<rparr>);
         Some (Object found d (if LocalCount p4 = 0 then ResetLocalState p4 else p4))
       }
     }"

definition set_data :: "(HIDData_t \<Rightarrow> HIDData_t) \<Rightarrow> HIDParser_t \<Rightarrow> step_result option" where
  "set_data f p = Some (Go (p\<lparr>Data := f (Data p)\<rparr>))"

definition item_unit_exp :: "uint32 \<Rightarrow> HIDData_t \<Rightarrow> HIDData_t" where
  "item_unit_exp v d =
     (let x = (ucast v :: uint8) in d\<lparr>UnitExp := (if sint x > 7 then x OR 0xF0 else x)\<rparr>)"

definition item_log_max :: "uint32 \<Rightarrow> nat \<Rightarrow> HIDData_t \<Rightarrow> HIDData_t" where
  "item_log_max v n d =
     (let d1 = d\<lparr>LogMax := FormatValue v n\<rparr> in
      if LogMax d1 < LogMin d1 then d1\<lparr>assumed_LogMax := True, LogMax := uint v\<rparr> else d1)"

definition do_item :: "HIDParser_t \<Rightarrow> step_result option" where
  "do_item p =
     (let tag = Item p AND ITEM_MASK; v = ItemValue p; n = ItemSize ! unat (Item p AND SIZE_MASK) in
      if tag = ITEM_UPAGE then Some (Go (p\<lparr>UPage := ucast v\<rparr>))
      else if tag = ITEM_USAGE then item_usage p
      else if tag = ITEM_COLLECTION then item_collection p
      else if tag = ITEM_END_COLLECTION then item_end_collection p
      else if tag = ITEM_FEATURE \<or> tag = ITEM_INPUT \<or> tag = ITEM_OUTPUT then item_main p
      else if tag = ITEM_REP_ID then set_data (\<lambda>d. d\<lparr>ReportID := ucast v\<rparr>) p
      else if tag = ITEM_REP_SIZE then set_data (\<lambda>d. d\<lparr>DataSize := ucast v\<rparr>) p
      else if tag = ITEM_REP_COUNT then Some (Go (p\<lparr>ReportCount := ucast v\<rparr>))
      else if tag = ITEM_UNIT_EXP then set_data (item_unit_exp v) p
      else if tag = ITEM_UNIT then set_data (\<lambda>d. d\<lparr>Unit := uint v\<rparr>) p
      else if tag = ITEM_LOG_MIN then set_data (\<lambda>d. d\<lparr>LogMin := FormatValue v n\<rparr>) p
      else if tag = ITEM_LOG_MAX then set_data (item_log_max v n) p
      else if tag = ITEM_PHY_MIN then set_data (\<lambda>d. d\<lparr>PhyMin := FormatValue v n, have_PhyMin := True\<rparr>) p
      else if tag = ITEM_PHY_MAX then set_data (\<lambda>d. d\<lparr>PhyMax := FormatValue v n, have_PhyMax := True\<rparr>) p
      else if tag = ITEM_LONG then Some (Go (p\<lparr>Pos := Pos p + ucast (ucast v :: uint8)\<rparr>))
      else Some (Go p))"

definition hid_step :: "HIDParser_t \<Rightarrow> step_result option" where
  "hid_step p =
     do {
       f \<leftarrow> fetch_item p;
       case f of Inl p1 \<Rightarrow> Some (Abort p1) | Inr p1 \<Rightarrow> do_item p1
     }"

text \<open>The result \<open>None\<close> of the inner option stands for the value -1.\<close>

partial_function (option) HIDParse :: "HIDParser_t \<Rightarrow> ((int \<times> HIDData_t) option \<times> HIDParser_t) option" where
  "HIDParse p =
     (if unat (Pos p) < length (ReportDesc p)
      then Option.bind (hid_step p) (\<lambda>s. case s of
          Go p1 \<Rightarrow> HIDParse p1
        | Object found d p1 \<Rightarrow> Some (Some (found, d), p1)
        | Abort p1 \<Rightarrow> Some (None, p1))
      else Some (None, p))"

declare HIDParse.simps [code]

section \<open>The whole descriptor\<close>

record HIDDesc_t =
  item :: "HIDData_t list"
  replen :: "nat list"

definition blank_data :: HIDData_t where
  "blank_data = \<lparr>Path = \<lparr>PathSize = 0, PathNode = replicate PATH_SIZE 0\<rparr>, ReportID = 0, Offset = 0,
     DataSize = 0, DataType = 0, Attribute = 0, Unit = 0, UnitExp = 0, LogMin = 0, LogMax = 0,
     assumed_LogMax = False, PhyMin = 0, PhyMax = 0, have_PhyMin = False, have_PhyMax = False,
     mapping_handled = False\<rparr>"

definition new_parser :: "uint8 list \<Rightarrow> HIDParser_t" where
  "new_parser desc = \<lparr>ReportDesc = desc, Pos = 0, Item = 0, ItemValue = 0, Data = blank_data,
     OffsetTab = replicate MAX_REPORT (0, 0, 0), ReportCount = 0, LocalCount = 0, UPage = 0,
     UsageTab = replicate (max (length desc) USAGE_TAB_SIZE) 0, UsageSize = 0\<rparr>"

text \<open>
  The entry of an object that continues the previous one is overwritten by the next, but its
  bits count for the length of the report.
\<close>

definition add_object :: "int \<Rightarrow> HIDData_t \<Rightarrow> HIDDesc_t \<Rightarrow> HIDDesc_t" where
  "add_object found d h =
     (let max = (unat (Offset d) + unat (DataSize d) + 7) div 8; rid = unat (ReportID d) in
      h\<lparr>replen := (if max > replen h ! rid then (replen h)[rid := max] else replen h),
        item := item h @ (if found = 1 then [d] else [])\<rparr>)"

partial_function (option) parse_loop :: "HIDParser_t \<Rightarrow> HIDDesc_t \<Rightarrow> HIDDesc_t option" where
  "parse_loop p h =
     (if length (item h) < MAX_REPORT
      then Option.bind (HIDParse p) (\<lambda>r. case r of
          (None, p1) \<Rightarrow> Some h
        | (Some (found, d), p1) \<Rightarrow> parse_loop p1 (add_object found d h))
      else Some h)"

declare parse_loop.simps [code]

text \<open>A descriptor without any item gives a null pointer: \<open>Some None\<close>.\<close>

definition Parse_ReportDesc :: "uint8 list \<Rightarrow> HIDDesc_t option option" where
  "Parse_ReportDesc desc =
     do {
       h \<leftarrow> parse_loop (new_parser desc) \<lparr>item = [], replen = replicate 256 0\<rparr>;
       Some (if item h = [] then None else Some h)
     }"

section \<open>Looking up items\<close>

text \<open>
  \<open>memcmp\<close> compares as many nodes as the wanted path has; the arrays of both sides have
  \<open>PATH_SIZE\<close> places.
\<close>

fun FindObject_with_Path :: "HIDData_t list \<Rightarrow> HIDPath_t \<Rightarrow> uint8 \<Rightarrow> HIDData_t option" where
  "FindObject_with_Path [] path ty = None"
| "FindObject_with_Path (d # ds) path ty =
     (if DataType d \<noteq> ty then FindObject_with_Path ds path ty
      else if take (unat (PathSize path)) (PathNode (Path d)) \<noteq> take (unat (PathSize path)) (PathNode path)
      then FindObject_with_Path ds path ty
      else Some d)"

definition FindObject :: "HIDData_t list \<Rightarrow> HIDData_t \<Rightarrow> int \<times> HIDData_t" where
  "FindObject ds d =
     (case FindObject_with_Path ds (Path d) (DataType d) of None \<Rightarrow> (0, d) | Some x \<Rightarrow> (1, x))"

fun FindObject_with_ID :: "HIDData_t list \<Rightarrow> uint8 \<Rightarrow> uint8 \<Rightarrow> uint8 \<Rightarrow> HIDData_t option" where
  "FindObject_with_ID [] rid off ty = None"
| "FindObject_with_ID (d # ds) rid off ty =
     (if ReportID d \<noteq> rid then FindObject_with_ID ds rid off ty
      else if DataType d \<noteq> ty then FindObject_with_ID ds rid off ty
      else if Offset d \<noteq> off then FindObject_with_ID ds rid off ty
      else Some d)"

fun FindObject_with_ID_Node :: "HIDData_t list \<Rightarrow> uint8 \<Rightarrow> HIDNode_t \<Rightarrow> HIDData_t option" where
  "FindObject_with_ID_Node [] rid node = None"
| "FindObject_with_ID_Node (d # ds) rid node =
     (if ReportID d \<noteq> rid then FindObject_with_ID_Node ds rid node
      else if PathSize (Path d) = 0 \<or> PathNode (Path d) ! unat (PathSize (Path d) - 1) \<noteq> node
      then FindObject_with_ID_Node ds rid node
      else Some d)"

section \<open>Values in a report\<close>

definition bit_at :: "uint8 list \<Rightarrow> nat \<Rightarrow> bool option" where
  "bit_at buf b = do { x \<leftarrow> read_at buf (b div 8); Some (x AND push_bit (b mod 8) 1 \<noteq> 0) }"

text \<open>\<open>1L << w\<close>, which is undefined from 63 on.\<close>

definition shift_one :: "nat \<Rightarrow> 64 word option" where
  "shift_one w = (if w < 63 then Some (push_bit w 1) else None)"

fun read_bits :: "uint8 list \<Rightarrow> nat \<Rightarrow> nat \<Rightarrow> nat \<Rightarrow> 64 word \<Rightarrow> 64 word option" where
  "read_bits buf 0 weight b v = Some v"
| "read_bits buf (Suc n) weight b v =
     do {
       s \<leftarrow> bit_at buf b;
       v1 \<leftarrow> (if s then map_option (\<lambda>x. v + x) (shift_one weight) else Some v);
       read_bits buf n (Suc weight) (Suc b) v1
     }"

definition magnitude :: "int \<Rightarrow> nat" where
  "magnitude l = nat (if l \<ge> 0 then l else - (l + 1))"

definition GetValue :: "uint8 list \<Rightarrow> HIDData_t \<Rightarrow> int option" where
  "GetValue buf d =
     do {
       value \<leftarrow> read_bits buf (unat (DataSize d)) 0 (unat (Offset d) + 8) 0;
       signbit \<leftarrow> shift_one (hibit (max (magnitude (LogMax d)) (magnitude (LogMin d))));
       let mask = (signbit - 1) OR (if LogMin d < 0 then signbit else 0);
       let v1 = value AND mask;
       let v2 = (if LogMin d < 0 \<and> v1 AND signbit \<noteq> 0 then v1 OR NOT mask else v1);
       Some (if sint v2 < LogMin d then LogMin d else if sint v2 > LogMax d then LogMax d else sint v2)
     }"

fun write_bits :: "nat \<Rightarrow> nat \<Rightarrow> nat \<Rightarrow> 64 word \<Rightarrow> uint8 list \<Rightarrow> uint8 list option" where
  "write_bits 0 weight b v buf = Some buf"
| "write_bits (Suc n) weight b v buf =
     do {
       m \<leftarrow> shift_one weight;
       x \<leftarrow> read_at buf (b div 8);
       buf1 \<leftarrow> write_at buf (b div 8)
         (if v AND m \<noteq> 0 then x OR push_bit (b mod 8) 1 else x AND NOT (push_bit (b mod 8) 1));
       write_bits n (Suc weight) (Suc b) v buf1
     }"

definition SetValue :: "HIDData_t \<Rightarrow> uint8 list \<Rightarrow> int \<Rightarrow> uint8 list option" where
  "SetValue d buf value = write_bits (unat (DataSize d)) 0 (unat (Offset d) + 8) (word_of_int value) buf"

end
