(* ===== verification/CLib.thy ===== *)
theory CLib
  imports NutPrelude
begin

text \<open>
  The parts of the C library and of \<open>src/common/common.c\<close> that the components share:
  \<open>strtol\<close>, \<open>strtoul\<close> and \<open>atoi\<close> on a platform with 64-bit \<open>long\<close> and 32-bit
  \<open>int\<close>, \<open>%d\<close>, the truncation of \<open>snprintf\<close>, \<open>snprintfcat\<close>, and the clock arithmetic
  of \<open>difftimespec\<close> and \<open>difftimeval\<close>.
\<close>

section \<open>Number scanning\<close>

definition digit_val :: "char \<Rightarrow> nat option" where
  "digit_val c =
     (let n = code_of c in
      if 48 \<le> n \<and> n \<le> 57 then Some (n - 48)
      else if 97 \<le> n \<and> n \<le> 122 then Some (n - 87)
      else if 65 \<le> n \<and> n \<le> 90 then Some (n - 55)
      else None)"

definition digit_in :: "nat \<Rightarrow> char \<Rightarrow> bool" where
  "digit_in base c \<longleftrightarrow> (case digit_val c of None \<Rightarrow> False | Some d \<Rightarrow> d < base)"

definition digits_value :: "nat \<Rightarrow> cstring \<Rightarrow> nat" where
  "digits_value base ds = foldl (\<lambda>v c. v * base + (case digit_val c of None \<Rightarrow> 0 | Some d \<Rightarrow> d)) 0 ds"

text \<open>\<open>0x\<close> is a prefix only in front of a hexadecimal digit.\<close>

definition hex_prefix :: "cstring \<Rightarrow> bool" where
  "hex_prefix s \<longleftrightarrow>
     (case s of z # x # d # _ \<Rightarrow> code_of z = 48 \<and> tolower x = 120 \<and> digit_in 16 d | _ \<Rightarrow> False)"

definition scan_base :: "nat \<Rightarrow> cstring \<Rightarrow> nat" where
  "scan_base base s =
     (if base = 0 then (if hex_prefix s then 16 else if s \<noteq> [] \<and> code_of (hd s) = 48 then 8 else 10)
      else base)"

text \<open>
  The scan behind the whole family: \<open>None\<close> when there is nothing to convert, otherwise
  the sign, the magnitude, and what \<open>endptr\<close> points at.
\<close>

definition scan_number :: "nat \<Rightarrow> cstring \<Rightarrow> (bool \<times> nat \<times> cstring) option" where
  "scan_number base s =
     (let s1 = dropWhile (\<lambda>c. isspace (schar c)) s;
          signed = (s1 \<noteq> [] \<and> (hd s1 = CHR ''-'' \<or> hd s1 = CHR ''+''));
          neg = (s1 \<noteq> [] \<and> hd s1 = CHR ''-'');
          s2 = (if signed then tl s1 else s1);
          b = scan_base base s2;
          s3 = (if b = 16 \<and> hex_prefix s2 then drop 2 s2 else s2);
          ds = takeWhile (digit_in b) s3
      in if ds = [] then None else Some (neg, digits_value b ds, dropWhile (digit_in b) s3))"

definition LONG_MAX :: int where "LONG_MAX = 2 ^ 63 - 1"
definition LONG_MIN :: int where "LONG_MIN = - (2 ^ 63)"
definition ULONG_MAX :: int where "ULONG_MAX = 2 ^ 64 - 1"
definition INT_MAX :: int where "INT_MAX = 2 ^ 31 - 1"
definition INT_MIN :: int where "INT_MIN = - (2 ^ 31)"
definition UINT_MAX :: int where "UINT_MAX = 2 ^ 32 - 1"
definition SHRT_MAX :: int where "SHRT_MAX = 2 ^ 15 - 1"
definition SHRT_MIN :: int where "SHRT_MIN = - (2 ^ 15)"
definition USHRT_MAX :: int where "USHRT_MAX = 2 ^ 16 - 1"

datatype errno = OK | EINVAL | ERANGE

definition base_ok :: "int \<Rightarrow> bool" where
  "base_ok base \<longleftrightarrow> base = 0 \<or> (2 \<le> base \<and> base \<le> 36)"

text \<open>Value, \<open>endptr\<close> and \<open>errno\<close> (\<open>OK\<close> where it is left at 0).\<close>

definition strtol :: "cstring \<Rightarrow> int \<Rightarrow> int \<times> cstring \<times> errno" where
  "strtol s base =
     (if \<not> base_ok base then (0, s, EINVAL)
      else case scan_number (nat base) s of
        None \<Rightarrow> (0, s, OK)
      | Some (neg, n, rest) \<Rightarrow>
          let v = (if neg then - int n else int n) in
          if v > LONG_MAX then (LONG_MAX, rest, ERANGE)
          else if v < LONG_MIN then (LONG_MIN, rest, ERANGE)
          else (v, rest, OK))"

definition strtoul :: "cstring \<Rightarrow> int \<Rightarrow> int \<times> cstring \<times> errno" where
  "strtoul s base =
     (if \<not> base_ok base then (0, s, EINVAL)
      else case scan_number (nat base) s of
        None \<Rightarrow> (0, s, OK)
      | Some (neg, n, rest) \<Rightarrow>
          if int n > ULONG_MAX then (ULONG_MAX, rest, ERANGE)
          else ((if neg then (- int n) mod 2 ^ 64 else int n), rest, OK))"

text \<open>Conversion to a 32-bit \<open>int\<close>: what \<open>atoi\<close> does with the \<open>long\<close> it scanned.\<close>

definition to_int32 :: "int \<Rightarrow> int" where
  "to_int32 v = (v + 2 ^ 31) mod 2 ^ 32 - 2 ^ 31"

definition atoi :: "cstring \<Rightarrow> int" where
  "atoi s = to_int32 (fst (strtol s 10))"

section \<open>Printing\<close>

definition digit_char :: "nat \<Rightarrow> char" where
  "digit_char d = char_of (48 + d)"

fun nat_dec :: "nat \<Rightarrow> cstring" where
  "nat_dec n = (if n < 10 then [digit_char n] else nat_dec (n div 10) @ [digit_char (n mod 10)])"

declare nat_dec.simps [simp del]

definition int_dec :: "int \<Rightarrow> cstring" where
  "int_dec i = (if i < 0 then CHR ''-'' # nat_dec (nat (- i)) else nat_dec (nat i))"

text \<open>The size of most local buffers, and of what one \<open>read\<close> of a socket returns.\<close>

definition SMALLBUF :: nat where "SMALLBUF = 512"

text \<open>A formatted text, cut to a buffer of \<open>n\<close> bytes.\<close>

definition snprintf :: "nat \<Rightarrow> cstring \<Rightarrow> cstring" where
  "snprintf n s = take (n - 1) s"

text \<open>
  \<open>snprintfcat(dst, n, ...)\<close>: \<open>vsnprintfcat\<close> lowers the size by one before it computes
  the room that is left, so it appends up to a total of \<open>n - 2\<close> bytes, and nothing to a
  buffer that is already full.
\<close>

definition snprintfcat :: "cstring \<Rightarrow> nat \<Rightarrow> cstring \<Rightarrow> cstring" where
  "snprintfcat dst n s =
     (let len = length dst; size1 = n - 1 in
      if len > size1 then dst else dst @ take (size1 - len - 1) s)"

section \<open>Time\<close>

record timespec =
  tv_sec :: int
  tv_nsec :: int

text \<open>The result, a \<open>double\<close> number of seconds in C, in nanoseconds.\<close>

definition difftimespec :: "timespec \<Rightarrow> timespec \<Rightarrow> int" where
  "difftimespec x y =
     (let y1 = (if tv_nsec x < tv_nsec y
                then let numsec = (tv_nsec y - tv_nsec x) div 1000000000 + 1
                     in y\<lparr>tv_nsec := tv_nsec y - 1000000000 * numsec, tv_sec := tv_sec y + numsec\<rparr>
                else y);
          y2 = (if tv_nsec x - tv_nsec y1 > 1000000
                then let numsec = (tv_nsec x - tv_nsec y1) div 1000000000
                     in y1\<lparr>tv_nsec := tv_nsec y1 + 1000000000 * numsec, tv_sec := tv_sec y1 - numsec\<rparr>
                else y1)
      in (tv_nsec x - tv_nsec y2) + 1000000000 * (tv_sec x - tv_sec y2))"

definition total_nsec :: "timespec \<Rightarrow> int" where
  "total_nsec t = tv_nsec t + 1000000000 * tv_sec t"

lemma difftimespec_total: "difftimespec x y = total_nsec x - total_nsec y"
  by (simp add: difftimespec_def total_nsec_def Let_def algebra_simps)

text \<open>\<open>difftime\<close> on \<open>time_t\<close> values: whole seconds.\<close>

definition difftime :: "int \<Rightarrow> int \<Rightarrow> int" where
  "difftime finish start = finish - start"

section \<open>Numbers survive printing and scanning\<close>

lemma code_of_digit_char: "d < 10 \<Longrightarrow> code_of (digit_char d) = 48 + d"
  by (simp add: code_of_def digit_char_def)

lemma digit_val_digit_char: "d < 10 \<Longrightarrow> digit_val (digit_char d) = Some d"
  by (simp add: digit_val_def code_of_digit_char)

lemma digit_in_digit_char: "d < 10 \<Longrightarrow> digit_in 10 (digit_char d)"
  by (simp add: digit_in_def digit_val_digit_char)

lemma nat_dec_digits: "list_all (digit_in 10) (nat_dec n)"
proof (induction n rule: nat_dec.induct)
  case (1 n)
  then show ?case
    by (subst nat_dec.simps) (auto simp: digit_in_digit_char)
qed

lemma nat_dec_nonempty: "nat_dec n \<noteq> []"
  by (subst nat_dec.simps) simp

lemma nat_dec_value: "digits_value 10 (nat_dec n) = n"
proof (induction n rule: nat_dec.induct)
  case (1 n)
  show ?case
  proof (cases "n < 10")
    case True
    then show ?thesis
      by (subst nat_dec.simps) (simp add: digits_value_def digit_val_digit_char)
  next
    case False
    with 1 have "digits_value 10 (nat_dec (n div 10)) = n div 10" by simp
    with False show ?thesis
      by (subst nat_dec.simps) (simp add: digits_value_def digit_val_digit_char)
  qed
qed

lemma digit_no_space:
  assumes "digit_in 10 c"
  shows "\<not> isspace (schar c)" "c \<noteq> CHR ''-''" "c \<noteq> CHR ''+''" "isdigit c"
proof -
  have "48 \<le> code_of c \<and> code_of c \<le> 57"
    using assms by (auto simp: digit_in_def digit_val_def Let_def split: if_splits)
  then show "\<not> isspace (schar c)" "c \<noteq> CHR ''-''" "c \<noteq> CHR ''+''" "isdigit c"
    by (auto simp: isspace_def schar_def isdigit_def code_of_def Let_def)
qed

lemma scan_number_nat_dec:
  "scan_number 10 (nat_dec n) = Some (False, n, [])"
proof -
  obtain c s where s: "nat_dec n = c # s" using nat_dec_nonempty by (meson neq_Nil_conv)
  have all: "list_all (digit_in 10) (c # s)" using nat_dec_digits [of n] by (simp add: s)
  then have whole: "takeWhile (digit_in 10) s = s" "dropWhile (digit_in 10) s = []"
    by (simp_all add: takeWhile_eq_all_conv dropWhile_eq_Nil_conv list_all_iff)
  show ?thesis
    using all digit_no_space [of c] nat_dec_value [of n]
    by (simp add: scan_number_def s scan_base_def whole Let_def)
qed

lemma scan_number_neg_dec:
  "scan_number 10 (CHR ''-'' # nat_dec n) = Some (True, n, [])"
proof -
  have minus: "\<not> isspace (schar CHR ''-'')" by (simp add: isspace_def schar_def code_of_def)
  have whole: "takeWhile (digit_in 10) (nat_dec n) = nat_dec n"
    "dropWhile (digit_in 10) (nat_dec n) = []"
    using nat_dec_digits [of n]
    by (simp_all add: takeWhile_eq_all_conv dropWhile_eq_Nil_conv list_all_iff)
  show ?thesis
    by (simp add: scan_number_def scan_base_def whole minus nat_dec_nonempty nat_dec_value Let_def)
qed

lemma strtol_int_dec:
  assumes "LONG_MIN \<le> i" and "i \<le> LONG_MAX"
  shows "strtol (int_dec i) 10 = (i, [], OK)"
  using assms
  by (auto simp: strtol_def base_ok_def int_dec_def scan_number_nat_dec scan_number_neg_dec Let_def)

lemma to_int32_id: "INT_MIN \<le> i \<Longrightarrow> i \<le> INT_MAX \<Longrightarrow> to_int32 i = i"
  by (simp add: to_int32_def INT_MIN_def INT_MAX_def)

lemma atoi_int_dec:
  assumes "INT_MIN \<le> i" and "i \<le> INT_MAX"
  shows "atoi (int_dec i) = i"
proof -
  have "LONG_MIN \<le> i" "i \<le> LONG_MAX"
    using assms by (simp_all add: INT_MIN_def INT_MAX_def LONG_MIN_def LONG_MAX_def)
  then show ?thesis using assms by (simp add: atoi_def strtol_int_dec to_int32_id)
qed

lemma snprintf_length: "0 < n \<Longrightarrow> length (snprintf n s) < n"
  by (simp add: snprintf_def)

lemma snprintf_fits: "length s < n \<Longrightarrow> snprintf n s = s"
  by (simp add: snprintf_def)

lemma snprintfcat_length: "length dst < n \<Longrightarrow> length (snprintfcat dst n s) < n"
  by (auto simp: snprintfcat_def Let_def)

lemma snprintfcat_fits: "length dst + length s + 1 < n \<Longrightarrow> snprintfcat dst n s = dst @ s"
  by (auto simp: snprintfcat_def Let_def)

lemma snprintfcat_full: "length dst + 1 \<ge> n - 1 \<Longrightarrow> snprintfcat dst n s = dst"
  by (simp add: snprintfcat_def Let_def)

end
