(* ===== verification/HidLib.thy ===== *)
theory HidLib
  imports HidParser CLib
begin

text \<open>
  Access to the items of a HID device, \<open>src/drivers/libhid.c\<close>: the buffer of reports, reading
  and writing of an item through it, events, and the translation between the names of paths and
  their usages.

  The clock, the answers of the device (\<open>comm_driver->get_report\<close>, \<open>set_report\<close>,
  \<open>get_interrupt\<close>) and the settings \<open>interrupt_only\<close>, \<open>max_report_size\<close>, \<open>interrupt_size\<close> are
  arguments. An access outside of an array has the value \<open>None\<close>, as in the parser. The conversions
  between logical and physical values, in floating point, are not modelled.
\<close>

section \<open>The buffer of reports\<close>

text \<open>Arrays of 256 places, by identifier.\<close>

record reportbuf_t =
  rb_ts :: "int list"
  rb_len :: "nat list"
  rb_cap :: "nat list"
  rb_data :: "uint8 list option list"

definition MAX_REPORT_ALLOC :: nat where "MAX_REPORT_ALLOC = 256"
definition USB_CTRL_CHARBUFSIZE_MAX :: nat where "USB_CTRL_CHARBUFSIZE_MAX = 65535"

definition empty_reportbuf :: reportbuf_t where
  "empty_reportbuf = \<lparr>rb_ts = replicate 256 0, rb_len = replicate 256 0, rb_cap = replicate 256 0, rb_data = replicate 256 None\<rparr>"

definition alloc_report :: "bool \<Rightarrow> HIDDesc_t \<Rightarrow> HIDData_t \<Rightarrow> reportbuf_t \<Rightarrow> reportbuf_t" where
  "alloc_report max_report_size h d rb =
     (let rid = unat (ReportID d) in
      if rb_data rb ! rid \<noteq> None then rb
      else let rb1 = rb\<lparr>rb_len := (rb_len rb)[rid := replen h ! rid + 1]\<rparr> in
        if rb_len rb1 ! rid < 1 then rb1
        else let cap = (if max_report_size then MAX_REPORT_ALLOC else rb_len rb1 ! rid) in
          rb1\<lparr>rb_cap := (rb_cap rb1)[rid := cap], rb_data := (rb_data rb1)[rid := Some (replicate cap 0)]\<rparr>)"

definition new_report_buffer :: "bool \<Rightarrow> HIDDesc_t \<Rightarrow> reportbuf_t" where
  "new_report_buffer max_report_size h = fold (alloc_report max_report_size h) (item h) empty_reportbuf"

text \<open>What a driver call writes to the front of a buffer.\<close>

definition fill :: "uint8 list \<Rightarrow> uint8 list \<Rightarrow> uint8 list option" where
  "fill bs buf = (if length bs \<le> length buf then Some (bs @ drop (length bs) buf) else None)"

text \<open>
  \<open>get_report\<close> is asked for a number of bytes of a report; it returns a count or an error and
  the bytes that it wrote. \<open>now\<close> and \<open>later\<close> are the readings of the clock before and after.
\<close>

definition refresh_report_buffer ::
    "bool \<Rightarrow> (uint8 \<Rightarrow> nat \<Rightarrow> int \<times> uint8 list) \<Rightarrow> int \<Rightarrow> int \<Rightarrow> reportbuf_t \<Rightarrow> HIDData_t \<Rightarrow> int \<Rightarrow>
     (int \<times> reportbuf_t) option" where
  "refresh_report_buffer interrupt_only get_report now later rb d age =
     (let rid = unat (ReportID d) in
      if interrupt_only \<or> rb_ts rb ! rid + age > now then Some (0, rb)
      else let r0 = rb_cap rb ! rid;
               r = (if r0 > USB_CTRL_CHARBUFSIZE_MAX then min (USB_CTRL_CHARBUFSIZE_MAX - 1) r0 else r0);
               (ret, bs) = get_report (ReportID d) r
        in do {
          data \<leftarrow> (case rb_data rb ! rid of None \<Rightarrow> (if bs = [] then Some None else None)
                    | Some buf \<Rightarrow> map_option Some (fill bs buf));
          let rb1 = rb\<lparr>rb_data := (rb_data rb)[rid := data]\<rparr>;
          Some (if ret \<le> 0 then (- 1, rb1) else (0, rb1\<lparr>rb_ts := (rb_ts rb1)[rid := later]\<rparr>))
        })"

text \<open>The logical value of an item: \<open>None\<close> in the result stands for an error.\<close>

definition get_item_buffered ::
    "bool \<Rightarrow> (uint8 \<Rightarrow> nat \<Rightarrow> int \<times> uint8 list) \<Rightarrow> int \<Rightarrow> int \<Rightarrow> reportbuf_t \<Rightarrow> HIDData_t \<Rightarrow> int \<Rightarrow>
     (int option \<times> reportbuf_t) option" where
  "get_item_buffered interrupt_only get_report now later rb d age =
     do {
       (r, rb1) \<leftarrow> refresh_report_buffer interrupt_only get_report now later rb d age;
       if r < 0 then Some (None, rb1)
       else do {
         buf \<leftarrow> rb_data rb1 ! unat (ReportID d);
         v \<leftarrow> GetValue buf d;
         Some (Some v, rb1)
       }
     }"

text \<open>The result holds the bytes that were handed to the device.\<close>

definition set_item_buffered ::
    "(uint8 \<Rightarrow> uint8 list \<Rightarrow> int) \<Rightarrow> reportbuf_t \<Rightarrow> HIDData_t \<Rightarrow> int \<Rightarrow> (int \<times> uint8 list \<times> reportbuf_t) option" where
  "set_item_buffered set_report rb d v =
     (let rid = unat (ReportID d); r0 = rb_len rb ! rid in
      do {
        buf \<leftarrow> rb_data rb ! rid;
        buf1 \<leftarrow> SetValue d buf v;
        let rb1 = rb\<lparr>rb_data := (rb_data rb)[rid := Some buf1]\<rparr>;
        let r = (if r0 > USB_CTRL_CHARBUFSIZE_MAX then USB_CTRL_CHARBUFSIZE_MAX - 1 else r0);
        if r > length buf1 then None
        else let sent = take r buf1 in
          Some (if set_report (ReportID d) sent \<le> 0 then (- 1, sent, rb1)
                else (0, sent, rb1\<lparr>rb_ts := (rb_ts rb1)[rid := 0]\<rparr>))
      })"

text \<open>A report that arrived by itself: as much of it as the descriptor states.\<close>

definition file_report_buffer :: "int \<Rightarrow> reportbuf_t \<Rightarrow> uint8 list \<Rightarrow> reportbuf_t option" where
  "file_report_buffer now rb buf =
     do {
       b \<leftarrow> read_at buf 0;
       let rid = unat b;
       let bs = take (min (length buf) (rb_len rb ! rid)) buf;
       data \<leftarrow> (case rb_data rb ! rid of None \<Rightarrow> (if bs = [] then Some None else None)
                 | Some old \<Rightarrow> map_option Some (fill bs old));
       Some (rb\<lparr>rb_data := (rb_data rb)[rid := data], rb_ts := (rb_ts rb)[rid := now]\<rparr>)
     }"

text \<open>\<open>HIDSetDataValue\<close>, from the logical value on: constants are refused, and a success expires every report;
  -1 stands for every error code.\<close>

definition ATTR_DATA_CST :: uint8 where "ATTR_DATA_CST = 0x01"

definition set_logical ::
    "(uint8 \<Rightarrow> uint8 list \<Rightarrow> int) \<Rightarrow> reportbuf_t \<Rightarrow> HIDData_t \<Rightarrow> int \<Rightarrow> (int \<times> reportbuf_t) option" where
  "set_logical set_report rb d v =
     (if Attribute d = ATTR_DATA_CST then Some (0, rb)
      else do {
        (r, sent, rb1) \<leftarrow> set_item_buffered set_report rb d v;
        Some (if r < 0 then (- 1, rb1) else (1, rb1\<lparr>rb_ts := map (\<lambda>_. 0) (rb_ts rb1)\<rparr>))
      })"

section \<open>Events\<close>

text \<open>The items of the report \<open>rid\<close> that are inputs, up to \<open>eventsize\<close>, of which \<open>n\<close> are there.\<close>

fun event_items :: "uint8 \<Rightarrow> nat \<Rightarrow> nat \<Rightarrow> HIDData_t list \<Rightarrow> HIDData_t list" where
  "event_items rid eventsize n [] = []"
| "event_items rid eventsize n (d # ds) =
     (if ReportID d \<noteq> rid then event_items rid eventsize n ds
      else if DataType d \<noteq> ITEM_INPUT then event_items rid eventsize n ds
      else if n \<ge> eventsize then []
      else d # event_items rid eventsize (Suc n) ds)"

text \<open>\<open>got\<close> is what \<open>get_interrupt\<close> returns: a code that is not positive, or the bytes it stored.\<close>

definition HIDGetEvents ::
    "nat \<Rightarrow> (nat \<Rightarrow> int + uint8 list) \<Rightarrow> int \<Rightarrow> nat \<Rightarrow> HIDData_t list \<Rightarrow> reportbuf_t \<Rightarrow> (int \<times> HIDData_t list \<times> reportbuf_t) option" where
  "HIDGetEvents interrupt_size get_interrupt now eventsize items rb =
     (let r = (if interrupt_size > 0 \<and> interrupt_size < SMALLBUF then interrupt_size else SMALLBUF) in
      case get_interrupt r of
        Inl code \<Rightarrow> Some (code, [], rb)
      | Inr buf \<Rightarrow>
          if length buf > SMALLBUF then None
          else do {
            rb1 \<leftarrow> file_report_buffer now rb buf;
            b \<leftarrow> read_at buf 0;
            let evs = event_items b eventsize 0 items;
            Some (int (length evs), evs, rb1)
          })"

section \<open>Units\<close>

definition HIDUnits :: "(int \<times> uint8) list" where
  "HIDUnits = [(0x00000000, 0), (0x00F0D121, 7), (0x00100001, 0), (0x0000D121, 7), (0x0000D121, 7),
     (0x00001001, 0), (0x00010001, 0), (0x00000000, 0), (0x0000F001, 0), (0x00101001, 0)]"

fun unit_expo :: "(int \<times> uint8) list \<Rightarrow> HIDData_t \<Rightarrow> uint8" where
  "unit_expo [] d = UnitExp d"
| "unit_expo (u # us) d = (if fst u = Unit d then UnitExp d - snd u else unit_expo us d)"

definition get_unit_expo :: "HIDData_t \<Rightarrow> int" where
  "get_unit_expo d = sint (unit_expo HIDUnits d)"

definition HIDDataType :: "HIDData_t \<Rightarrow> cstring" where
  "HIDDataType d =
     (if DataType d = ITEM_FEATURE then ''Feature''
      else if DataType d = ITEM_INPUT then ''Input''
      else if DataType d = ITEM_OUTPUT then ''Output''
      else ''Unknown'')"

section \<open>Names of paths\<close>

type_synonym usage_lkp_t = "cstring \<times> HIDNode_t"

fun table_usage :: "cstring \<Rightarrow> usage_lkp_t list \<Rightarrow> int option" where
  "table_usage name [] = None"
| "table_usage name (e # tab) =
     (if strcasecmp (fst e) name \<noteq> 0 then table_usage name tab else Some (uint (snd e)))"

fun hid_lookup_usage :: "cstring \<Rightarrow> usage_lkp_t list list \<Rightarrow> int" where
  "hid_lookup_usage name [] = - 1"
| "hid_lookup_usage name (tab # utab) =
     (case table_usage name tab of None \<Rightarrow> hid_lookup_usage name utab | Some u \<Rightarrow> u)"

fun table_path :: "HIDNode_t \<Rightarrow> usage_lkp_t list \<Rightarrow> cstring option" where
  "table_path usage [] = None"
| "table_path usage (e # tab) = (if snd e \<noteq> usage then table_path usage tab else Some (fst e))"

fun hid_lookup_path :: "HIDNode_t \<Rightarrow> usage_lkp_t list list \<Rightarrow> cstring option" where
  "hid_lookup_path usage [] = None"
| "hid_lookup_path usage (tab # utab) =
     (case table_path usage tab of None \<Rightarrow> hid_lookup_path usage utab | Some p \<Rightarrow> Some p)"

text \<open>The usages of the Power Device and Battery System pages.\<close>

definition hid_usage_lkp :: "usage_lkp_t list" where
  "hid_usage_lkp =
    [(''Undefined'', 0x00840000), (''iName'', 0x00840001), (''PresentStatus'', 0x00840002),
     (''ChangedStatus'', 0x00840003), (''UPS'', 0x00840004), (''PowerSupply'', 0x00840005),
     (''BatterySystem'', 0x00840010), (''BatterySystemID'', 0x00840011), (''Battery'', 0x00840012),
     (''BatteryID'', 0x00840013), (''Charger'', 0x00840014), (''ChargerID'', 0x00840015),
     (''PowerConverter'', 0x00840016), (''OutletSystem'', 0x00840018), (''OutletSystemID'', 0x00840019),
     (''Input'', 0x0084001a), (''InputID'', 0x0084001b), (''Output'', 0x0084001c),
     (''OutputID'', 0x0084001d), (''Flow'', 0x0084001e), (''FlowID'', 0x0084001f), (''Outlet'', 0x00840020),
     (''OutletID'', 0x00840021), (''Gang'', 0x00840022), (''GangID'', 0x00840023),
     (''PowerSummary'', 0x00840024), (''PowerSummaryID'', 0x00840025), (''Voltage'', 0x00840030),
     (''Current'', 0x00840031), (''Frequency'', 0x00840032), (''ApparentPower'', 0x00840033),
     (''ActivePower'', 0x00840034), (''PercentLoad'', 0x00840035), (''Temperature'', 0x00840036),
     (''Humidity'', 0x00840037), (''BadCount'', 0x00840038), (''ConfigVoltage'', 0x00840040),
     (''ConfigCurrent'', 0x00840041), (''ConfigFrequency'', 0x00840042),
     (''ConfigApparentPower'', 0x00840043), (''ConfigActivePower'', 0x00840044),
     (''ConfigPercentLoad'', 0x00840045), (''ConfigTemperature'', 0x00840046),
     (''ConfigHumidity'', 0x00840047), (''SwitchOnControl'', 0x00840050),
     (''SwitchOffControl'', 0x00840051), (''ToggleControl'', 0x00840052),
     (''LowVoltageTransfer'', 0x00840053), (''HighVoltageTransfer'', 0x00840054),
     (''DelayBeforeReboot'', 0x00840055), (''DelayBeforeStartup'', 0x00840056),
     (''DelayBeforeShutdown'', 0x00840057), (''Test'', 0x00840058), (''ModuleReset'', 0x00840059),
     (''AudibleAlarmControl'', 0x0084005a), (''Present'', 0x00840060), (''Good'', 0x00840061),
     (''InternalFailure'', 0x00840062), (''VoltageOutOfRange'', 0x00840063),
     (''FrequencyOutOfRange'', 0x00840064), (''Overload'', 0x00840065), (''OverCharged'', 0x00840066),
     (''OverTemperature'', 0x00840067), (''ShutdownRequested'', 0x00840068),
     (''ShutdownImminent'', 0x00840069), (''SwitchOn/Off'', 0x0084006b), (''Switchable'', 0x0084006c),
     (''Used'', 0x0084006d), (''Boost'', 0x0084006e), (''Buck'', 0x0084006f), (''Initialized'', 0x00840070),
     (''Tested'', 0x00840071), (''AwaitingPower'', 0x00840072), (''CommunicationLost'', 0x00840073),
     (''iManufacturer'', 0x008400fd), (''iProduct'', 0x008400fe), (''iSerialNumber'', 0x008400ff),
     (''Undefined'', 0x00850000), (''SMBBatteryMode'', 0x00850001), (''SMBBatteryStatus'', 0x00850002),
     (''SMBAlarmWarning'', 0x00850003), (''SMBChargerMode'', 0x00850004),
     (''SMBChargerStatus'', 0x00850005), (''SMBChargerSpecInfo'', 0x00850006),
     (''SMBSelectorState'', 0x00850007), (''SMBSelectorPresets'', 0x00850008),
     (''SMBSelectorInfo'', 0x00850009), (''OptionalMfgFunction1'', 0x00850010),
     (''OptionalMfgFunction2'', 0x00850011), (''OptionalMfgFunction3'', 0x00850012),
     (''OptionalMfgFunction4'', 0x00850013), (''OptionalMfgFunction5'', 0x00850014),
     (''ConnectionToSMBus'', 0x00850015), (''OutputConnection'', 0x00850016),
     (''ChargerConnection'', 0x00850017), (''BatteryInsertion'', 0x00850018), (''Usenext'', 0x00850019),
     (''OKToUse'', 0x0085001a), (''BatterySupported'', 0x0085001b), (''SelectorRevision'', 0x0085001c),
     (''ChargingIndicator'', 0x0085001d), (''ManufacturerAccess'', 0x00850028),
     (''RemainingCapacityLimit'', 0x00850029), (''RemainingTimeLimit'', 0x0085002a),
     (''AtRate'', 0x0085002b), (''CapacityMode'', 0x0085002c), (''BroadcastToCharger'', 0x0085002d),
     (''PrimaryBattery'', 0x0085002e), (''ChargeController'', 0x0085002f),
     (''TerminateCharge'', 0x00850040), (''TerminateDischarge'', 0x00850041),
     (''BelowRemainingCapacityLimit'', 0x00850042), (''RemainingTimeLimitExpired'', 0x00850043),
     (''Charging'', 0x00850044), (''Discharging'', 0x00850045), (''FullyCharged'', 0x00850046),
     (''FullyDischarged'', 0x00850047), (''ConditioningFlag'', 0x00850048), (''AtRateOK'', 0x00850049),
     (''SMBErrorCode'', 0x0085004a), (''NeedReplacement'', 0x0085004b), (''AtRateTimeToFull'', 0x00850060),
     (''AtRateTimeToEmpty'', 0x00850061), (''AverageCurrent'', 0x00850062), (''Maxerror'', 0x00850063),
     (''RelativeStateOfCharge'', 0x00850064), (''AbsoluteStateOfCharge'', 0x00850065),
     (''RemainingCapacity'', 0x00850066), (''FullChargeCapacity'', 0x00850067),
     (''RunTimeToEmpty'', 0x00850068), (''AverageTimeToEmpty'', 0x00850069),
     (''AverageTimeToFull'', 0x0085006a), (''CycleCount'', 0x0085006b),
     (''BattPackModelLevel'', 0x00850080), (''InternalChargeController'', 0x00850081),
     (''PrimaryBatterySupport'', 0x00850082), (''DesignCapacity'', 0x00850083),
     (''SpecificationInfo'', 0x00850084), (''ManufacturerDate'', 0x00850085),
     (''SerialNumber'', 0x00850086), (''iManufacturerName'', 0x00850087), (''iDevicename'', 0x00850088),
     (''iDeviceChemistry'', 0x00850089), (''ManufacturerData'', 0x0085008a), (''Rechargeable'', 0x0085008b),
     (''WarningCapacityLimit'', 0x0085008c), (''CapacityGranularity1'', 0x0085008d),
     (''CapacityGranularity2'', 0x0085008e), (''iOEMInformation'', 0x0085008f),
     (''InhibitCharge'', 0x008500c0), (''EnablePolling'', 0x008500c1), (''ResetToZero'', 0x008500c2),
     (''ACPresent'', 0x008500d0), (''BatteryPresent'', 0x008500d1), (''PowerFail'', 0x008500d2),
     (''AlarmInhibited'', 0x008500d3), (''ThermistorUnderRange'', 0x008500d4),
     (''ThermistorHot'', 0x008500d5), (''ThermistorCold'', 0x008500d6),
     (''ThermistorOverRange'', 0x008500d7), (''VoltageOutOfRange'', 0x008500d8),
     (''CurrentOutOfRange'', 0x008500d9), (''CurrentNotRegulated'', 0x008500da),
     (''VoltageNotRegulated'', 0x008500db), (''MasterMode'', 0x008500dc),
     (''ChargerSelectorSupport'', 0x008500f0), (''ChargerSpec'', 0x008500f1), (''Level2'', 0x008500f2),
     (''Level3'', 0x008500f3)]"

text \<open>The tokens that \<open>strtok_r\<close> finds between dots.\<close>

fun dot_tokens :: "cstring \<Rightarrow> cstring \<Rightarrow> cstring list" where
  "dot_tokens cur [] = (if cur = [] then [] else [cur])"
| "dot_tokens cur (c # cs) =
     (if c = CHR ''.'' then (if cur = [] then dot_tokens [] cs else cur # dot_tokens [] cs)
      else dot_tokens (cur @ [c]) cs)"

definition all_of :: "cstring \<Rightarrow> cstring \<Rightarrow> bool" where
  "all_of s chars \<longleftrightarrow> length s = length (takeWhile (\<lambda>c. c \<in> set chars) s)"

text \<open>The node that a token stands for, if it can be read.\<close>

definition token_node :: "cstring \<Rightarrow> usage_lkp_t list list \<Rightarrow> HIDNode_t option" where
  "token_node token utab =
     (let usage = hid_lookup_usage token utab in
      if usage \<noteq> - 1 then Some (word_of_int usage)
      else if all_of token ''1234567890abcdefABCDEF''
      then (let l = fst (strtol token 16) in if l < 0 \<or> l > UINT_MAX then None else Some (word_of_int l))
      else if all_of token ''[1234567890]''
      then (let l = atoi (tl token) in if l < 0 \<or> l > UINT_MAX then None else Some (0x00ff0000 + word_of_int l))
      else None)"

text \<open>A token that cannot be read is left out; a node behind the array is written all the same.\<close>

fun token_path :: "usage_lkp_t list list \<Rightarrow> cstring list \<Rightarrow> nat \<Rightarrow> HIDNode_t list \<Rightarrow> (nat \<times> HIDNode_t list) option" where
  "token_path utab [] i ns = Some (i, ns)"
| "token_path utab (t # ts) i ns =
     (case token_node t utab of
        None \<Rightarrow> token_path utab ts i ns
      | Some v \<Rightarrow> Option.bind (write_at ns i v) (token_path utab ts (Suc i)))"

text \<open>\<open>ns\<close> is what the array of the path held before.\<close>

definition string_to_path :: "cstring \<Rightarrow> usage_lkp_t list list \<Rightarrow> HIDNode_t list \<Rightarrow> (nat \<times> HIDPath_t) option" where
  "string_to_path s utab ns =
     map_option (\<lambda>(i, ns1). (i, \<lparr>PathSize = of_nat i, PathNode = ns1\<rparr>))
       (token_path utab (dot_tokens [] (snprintf SMALLBUF s)) 0 ns)"

definition hex_lower :: "nat \<Rightarrow> char" where
  "hex_lower d = (if d < 10 then char_of (48 + d) else char_of (87 + d))"

fun hex_digits :: "nat \<Rightarrow> nat \<Rightarrow> cstring" where
  "hex_digits 0 n = []"
| "hex_digits (Suc k) n = hex_digits k (n div 16) @ [hex_lower (n mod 16)]"

definition node_text :: "usage_lkp_t list list option \<Rightarrow> HIDNode_t \<Rightarrow> cstring" where
  "node_text utab v =
     (case Option.bind utab (hid_lookup_path v) of
        Some p \<Rightarrow> p
      | None \<Rightarrow>
          if v AND 0xffff0000 = 0x00ff0000 then ''['' @ nat_dec (unat (v AND 0x0000ffff)) @ '']''
          else hex_digits 8 (unat v))"

fun add_nodes :: "nat \<Rightarrow> usage_lkp_t list list option \<Rightarrow> nat \<Rightarrow> HIDNode_t list \<Rightarrow> cstring \<Rightarrow> cstring" where
  "add_nodes n utab i [] s = s"
| "add_nodes n utab i (v # vs) s =
     (let s1 = (if i > 0 then snprintfcat s n ''.'' else s)
      in add_nodes n utab (Suc i) vs (snprintfcat s1 n (node_text utab v)))"

definition path_to_string :: "nat \<Rightarrow> HIDPath_t \<Rightarrow> usage_lkp_t list list option \<Rightarrow> cstring \<times> nat" where
  "path_to_string n path utab =
     (add_nodes n utab 0 (take (unat (PathSize path)) (PathNode path)) [], unat (PathSize path))"

definition HIDGetDataItem :: "HIDData_t \<Rightarrow> usage_lkp_t list list option \<Rightarrow> cstring" where
  "HIDGetDataItem d utab = fst (path_to_string 128 (Path d) utab)"

definition HIDGetItemData ::
    "bool \<Rightarrow> cstring \<Rightarrow> usage_lkp_t list list \<Rightarrow> HIDNode_t list \<Rightarrow> HIDData_t list \<Rightarrow> HIDData_t option option" where
  "HIDGetItemData interrupt_only hidpath utab ns items =
     map_option (\<lambda>(r, path).
       if r = 0 then None
       else FindObject_with_Path items path (if interrupt_only then ITEM_INPUT else ITEM_FEATURE))
     (string_to_path hidpath utab ns)"

end
