(* ===== verification/HidPath.thy ===== *)
theory HidPath
  imports HidLib
begin

text \<open>
  The names of paths: what \<open>path_to_string\<close> writes, \<open>string_to_path\<close> reads back, for usages
  with a name of their own, indexed collections and usages without a name.
\<close>

section \<open>Hexadecimal numbers\<close>

lemma hex_lower_chars:
  "list_all (\<lambda>d. hex_lower d \<in> set ''1234567890abcdefABCDEF'' \<and> digit_val (hex_lower d) = Some d \<and>
     hex_lower d \<notin> set ''.-+[xX'' \<and> \<not> isspace (schar (hex_lower d)) \<and> tolower (hex_lower d) \<noteq> 120) [0..<16]"
  by code_simp

lemma hex_lower_digit:
  assumes "d < 16"
  shows "digit_val (hex_lower d) = Some d" "digit_in 16 (hex_lower d)" "tolower (hex_lower d) \<noteq> 120"
    "hex_lower d \<in> set ''1234567890abcdefABCDEF''" "hex_lower d \<noteq> CHR ''.''" "\<not> isspace (schar (hex_lower d))"
    "hex_lower d \<noteq> CHR ''-''" "hex_lower d \<noteq> CHR ''+''" "hex_lower d \<noteq> CHR ''[''"
proof -
  have "d \<in> set [0..<16]" using assms by simp
  then have h: "hex_lower d \<in> set ''1234567890abcdefABCDEF'' \<and> digit_val (hex_lower d) = Some d \<and>
      hex_lower d \<notin> set ''.-+[xX'' \<and> \<not> isspace (schar (hex_lower d)) \<and> tolower (hex_lower d) \<noteq> 120"
    using hex_lower_chars unfolding list_all_iff by blast
  then show "digit_val (hex_lower d) = Some d" "tolower (hex_lower d) \<noteq> 120"
    "hex_lower d \<in> set ''1234567890abcdefABCDEF''" "\<not> isspace (schar (hex_lower d))" by blast+
  then show "digit_in 16 (hex_lower d)" using assms by (simp add: digit_in_def)
  show "hex_lower d \<noteq> CHR ''.''" "hex_lower d \<noteq> CHR ''-''" "hex_lower d \<noteq> CHR ''+''" "hex_lower d \<noteq> CHR ''[''"
    using h by auto
qed

lemma hex_digits_set: "set (hex_digits k n) \<subseteq> hex_lower ` {..<16}"
  by (induction k n rule: hex_digits.induct) auto

lemma hex_digits_length [simp]: "length (hex_digits k n) = k"
  by (induction k n rule: hex_digits.induct) simp_all

lemma hex_digits_value: "n < 16 ^ k \<Longrightarrow> digits_value 16 (hex_digits k n) = n"
proof (induction k n rule: hex_digits.induct)
  case (2 k n)
  have "n div 16 < 16 ^ k" using 2(2) by (simp add: less_mult_imp_div_less mult.commute)
  then have "digits_value 16 (hex_digits k (n div 16)) = n div 16" by (rule "2.IH")
  then show ?case by (simp add: digits_value_def hex_lower_digit(1))
qed (simp add: digits_value_def)

lemma strtol_hex:
  assumes n: "n < 2 ^ 32"
  shows "strtol (hex_digits 8 n) 16 = (int n, [], OK)"
proof -
  let ?s = "hex_digits 8 n"
  have all: "\<forall>c\<in>set ?s. digit_in 16 c \<and> tolower c \<noteq> 120 \<and> \<not> isspace (schar c) \<and> c \<noteq> CHR ''-'' \<and> c \<noteq> CHR ''+''"
    using hex_digits_set [of 8 n] hex_lower_digit by (fastforce simp: subset_iff image_iff)
  obtain a t where t: "?s = a # t" using hex_digits_length [of 8 n] by (cases ?s) (auto simp del: hex_digits_length)
  obtain b r where "t = b # r" using hex_digits_length [of 8 n, unfolded t] by (cases t) auto
  then have s: "?s = a # b # r" using t by simp
  have "\<not> hex_prefix ?s" using all unfolding s by (auto simp: hex_prefix_def split: list.splits)
  moreover have "takeWhile (digit_in 16) ?s = ?s" "dropWhile (digit_in 16) ?s = []" using all
    by (simp_all add: takeWhile_eq_all_conv dropWhile_eq_Nil_conv)
  moreover have tw: "takeWhile (digit_in 16) r = r" "dropWhile (digit_in 16) r = []" using all
    by (simp_all add: takeWhile_eq_all_conv dropWhile_eq_Nil_conv s)
  moreover have "dropWhile (\<lambda>c. isspace (schar c)) ?s = ?s" using all unfolding s by simp
  ultimately have "scan_number 16 ?s = Some (False, n, [])"
    using all hex_digits_value [of n 8] n unfolding s by (simp add: scan_number_def scan_base_def Let_def tw)
  then show ?thesis using n by (simp add: strtol_def base_ok_def LONG_MAX_def LONG_MIN_def)
qed

section \<open>Decimal indices\<close>

lemma atoi_bracket:
  assumes n: "n < 2 ^ 31"
  shows "atoi (nat_dec n @ '']'') = int n"
proof -
  obtain c s where s: "nat_dec n = c # s" using nat_dec_nonempty by (meson neq_Nil_conv)
  have all: "\<forall>x\<in>set (nat_dec n). digit_in 10 x" using nat_dec_digits [of n] by (simp add: list_all_iff)
  have stop: "\<not> digit_in 10 (CHR '']'')" by (simp add: digit_in_def digit_val_def code_of_def)
  have "takeWhile (digit_in 10) (nat_dec n @ '']'') = nat_dec n" "dropWhile (digit_in 10) (nat_dec n @ '']'') = '']''"
    using all stop by (simp_all add: takeWhile_append2 dropWhile_append2)
  moreover have "dropWhile (\<lambda>c. isspace (schar c)) (nat_dec n @ '']'') = nat_dec n @ '']''"
    "hd (nat_dec n @ '']'') \<noteq> CHR ''-''" "hd (nat_dec n @ '']'') \<noteq> CHR ''+''"
    using digit_no_space [of c] all s by auto
  ultimately have "scan_number 10 (nat_dec n @ '']'') = Some (False, n, '']'')"
    using nat_dec_value [of n] nat_dec_nonempty by (simp add: scan_number_def scan_base_def Let_def)
  then show ?thesis using n by (simp add: atoi_def strtol_def base_ok_def LONG_MAX_def LONG_MIN_def to_int32_def)
qed

lemma all_of_iff: "all_of s chars \<longleftrightarrow> set s \<subseteq> set chars"
proof -
  have "length s = length (takeWhile P s) \<longleftrightarrow> (\<forall>x\<in>set s. P x)" for P :: "char \<Rightarrow> bool"
    by (metis length_takeWhile_le takeWhile_eq_all_conv takeWhile_eq_take take_all_iff order_refl)
  then show ?thesis by (auto simp: all_of_def)
qed

lemma digits_in_set: "digit_in 10 c \<Longrightarrow> c \<in> set ''1234567890''"
proof -
  assume "digit_in 10 c"
  then have "48 \<le> code_of c \<and> code_of c \<le> 57" by (auto simp: digit_in_def digit_val_def Let_def split: if_splits)
  then obtain d where "code_of c = 48 + d" "code_of c \<le> 57" using le_Suc_ex by blast
  then have d: "d < 10" "code_of c = 48 + d" by simp_all
  have "c = char_of (code_of c)" by (simp add: code_of_def)
  then have c: "c = char_of (48 + d)" using d(2) by simp
  have "list_all (\<lambda>d. char_of (48 + d :: nat) \<in> set ''1234567890'') [0..<10]" by code_simp
  then show ?thesis unfolding c list_all_iff using d(1) by (simp del: set_simps)
qed

section \<open>One node\<close>

text \<open>
  The table gives a usage back for its name; the text of a usage without a name is no name of
  another one.
\<close>

definition node_named :: "usage_lkp_t list list \<Rightarrow> HIDNode_t \<Rightarrow> bool" where
  "node_named utab v \<longleftrightarrow> (case hid_lookup_path v utab of
       Some p \<Rightarrow> p \<noteq> [] \<and> CHR ''.'' \<notin> set p \<and> hid_lookup_usage p utab = uint v
     | None \<Rightarrow> hid_lookup_usage (node_text (Some utab) v) utab = - 1)"

lemma index_node:
  assumes "v AND 0xffff0000 = (0x00ff0000 :: uint32)"
  shows "0x00ff0000 + word_of_int (int (unat (v AND 0x0000ffff))) = v"
proof -
  have "(v AND 0xffff0000) + (v AND 0x0000ffff) = (v AND 0xffff0000) OR (v AND 0x0000ffff)"
  proof (rule disjunctive_add_eq_or)
    have "(v AND 0xffff0000) AND (v AND 0x0000ffff) = v AND (0xffff0000 AND 0x0000ffff)"
      by (simp only: and.assoc and.left_commute and.left_idem)
    then show "(v AND 0xffff0000) AND (v AND 0x0000ffff) = 0" by simp
  qed
  also have "\<dots> = v AND (0xffff0000 OR 0x0000ffff)" by (simp only: bit.conj_disj_distrib)
  also have "(0xffff0000 OR 0x0000ffff :: uint32) = - 1" by simp
  finally show ?thesis using assms by simp
qed

lemma below_UINT_MAX: "n < 2 ^ 32 \<Longrightarrow> int n \<le> UINT_MAX"
  by (simp add: UINT_MAX_def)

lemma nat_dec_chars: "set (nat_dec n) \<subseteq> set ''1234567890''"
proof
  fix c assume "c \<in> set (nat_dec n)"
  then have "digit_in 10 c" using nat_dec_digits [of n] unfolding list_all_iff by blast
  then show "c \<in> set ''1234567890''" by (rule digits_in_set)
qed

lemma nat_dec_no_dot: "CHR ''.'' \<notin> set (nat_dec n)"
proof
  assume "CHR ''.'' \<in> set (nat_dec n)"
  then have "digit_in 10 (CHR ''.'')" using nat_dec_digits [of n] unfolding list_all_iff by blast
  then show False by (simp add: digit_in_def digit_val_def code_of_def)
qed

lemma token_node_index:
  "hid_lookup_usage t utab = - 1 \<Longrightarrow> \<not> all_of t ''1234567890abcdefABCDEF'' \<Longrightarrow> all_of t ''[1234567890]'' \<Longrightarrow>
   atoi (tl t) = l \<Longrightarrow> 0 \<le> l \<Longrightarrow> l \<le> UINT_MAX \<Longrightarrow> token_node t utab = Some (0x00ff0000 + word_of_int l)"
  by (simp add: token_node_def)

lemma token_node_raw:
  "hid_lookup_usage t utab = - 1 \<Longrightarrow> all_of t ''1234567890abcdefABCDEF'' \<Longrightarrow> strtol t 16 = (l, e) \<Longrightarrow>
   0 \<le> l \<Longrightarrow> l \<le> UINT_MAX \<Longrightarrow> token_node t utab = Some (word_of_int l)"
  by (simp add: token_node_def)

lemma node_text_read:
  assumes named: "node_named utab v"
  shows "token_node (node_text (Some utab) v) utab = Some v" "node_text (Some utab) v \<noteq> []"
    "CHR ''.'' \<notin> set (node_text (Some utab) v)"
proof -
  have "token_node (node_text (Some utab) v) utab = Some v \<and> node_text (Some utab) v \<noteq> [] \<and>
    CHR ''.'' \<notin> set (node_text (Some utab) v)"
  proof (cases "hid_lookup_path v utab")
    case (Some p)
    have "uint v \<noteq> - 1" by (metis uint_ge_0 neg_0_le_iff_le not_one_le_zero)
    then show ?thesis using named Some by (simp add: node_named_def node_text_def token_node_def Let_def)
  next
    case None
    then have none: "hid_lookup_usage (node_text (Some utab) v) utab = - 1" using named by (simp add: node_named_def)
    show ?thesis
    proof (cases "v AND 0xffff0000 = 0x00ff0000")
      case True
      let ?n = "unat (v AND 0x0000ffff)"
      have t: "node_text (Some utab) v = CHR ''['' # nat_dec ?n @ '']''" using None True by (simp add: node_text_def)
      have n: "?n < 2 ^ 31"
      proof -
        have "v AND 0x0000ffff \<le> 0x0000ffff" by (rule word_and_le1)
        then show ?thesis by (simp add: word_le_nat_alt)
      qed
      have h: "\<not> all_of (CHR ''['' # nat_dec ?n @ '']'') ''1234567890abcdefABCDEF''" by (simp add: all_of_iff)
      have b: "all_of (CHR ''['' # nat_dec ?n @ '']'') ''[1234567890]''"
      proof -
        have "set ''1234567890'' \<subseteq> set ''[1234567890]''" by simp
        then have "set (nat_dec ?n) \<subseteq> set ''[1234567890]''" using nat_dec_chars [of ?n] by (rule order_trans [rotated])
        then show ?thesis unfolding all_of_iff by simp
      qed
      have u: "int ?n \<le> UINT_MAX" by (rule below_UINT_MAX, rule less_trans [OF n]) simp
      have a: "atoi (tl (CHR ''['' # nat_dec ?n @ '']'')) = int ?n" unfolding list.sel by (rule atoi_bracket [OF n])
      have "token_node (node_text (Some utab) v) utab = Some v"
        unfolding t token_node_index [OF none [unfolded t] h b a of_nat_0_le_iff u] index_node [OF True] by (rule refl)
      then show ?thesis unfolding t using nat_dec_no_dot [of ?n] by simp
    next
      case False
      have t: "node_text (Some utab) v = hex_digits 8 (unat v)" using None False by (simp add: node_text_def)
      have n: "unat v < 2 ^ 32" using unsigned_less [of v, where 'a = nat] by simp
      have chars: "\<forall>c\<in>set (hex_digits 8 (unat v)). c \<in> set ''1234567890abcdefABCDEF'' \<and> c \<noteq> CHR ''.''"
      proof
        fix c assume "c \<in> set (hex_digits 8 (unat v))"
        then obtain d where "d < 16" "c = hex_lower d" using hex_digits_set [of 8 "unat v"] by (meson imageE lessThan_iff subsetD)
        then show "c \<in> set ''1234567890abcdefABCDEF'' \<and> c \<noteq> CHR ''.''" using hex_lower_digit(4,5) by simp
      qed
      then have "all_of (hex_digits 8 (unat v)) ''1234567890abcdefABCDEF''" unfolding all_of_iff by blast
      moreover have "int (unat v) \<le> UINT_MAX" by (rule below_UINT_MAX [OF n])
      ultimately have "token_node (node_text (Some utab) v) utab = Some v"
        unfolding t by (subst token_node_raw [OF none [unfolded t] _ strtol_hex [OF n]]) simp_all
      moreover have "hex_digits 8 (unat v) \<noteq> []" using hex_digits_length [of 8 "unat v"] by (metis list.size(3) zero_neq_numeral)
      ultimately show ?thesis unfolding t using chars by blast
    qed
  qed
  then show "token_node (node_text (Some utab) v) utab = Some v" "node_text (Some utab) v \<noteq> []"
    "CHR ''.'' \<notin> set (node_text (Some utab) v)" by blast+
qed

section \<open>Whole paths\<close>

fun dotted :: "nat \<Rightarrow> cstring list \<Rightarrow> cstring" where
  "dotted i [] = []"
| "dotted i (t # ts) = (if i > 0 then ''.'' else []) @ t @ dotted (Suc i) ts"

lemma add_nodes_dotted:
  "length s + length (dotted i (map (node_text utab) vs)) + 1 < n \<Longrightarrow>
   add_nodes n utab i vs s = s @ dotted i (map (node_text utab) vs)"
proof (induction vs arbitrary: i s)
  case (Cons v vs)
  then show ?case by (cases "i > 0") (simp_all add: snprintfcat_fits Let_def)
qed simp

lemma dot_tokens_word: "CHR ''.'' \<notin> set t \<Longrightarrow> dot_tokens cur (t @ r) = dot_tokens (cur @ t) r"
  by (induction t arbitrary: cur) auto

lemma dot_tokens_more:
  "cur \<noteq> [] \<Longrightarrow> \<forall>t\<in>set ts. t \<noteq> [] \<and> CHR ''.'' \<notin> set t \<Longrightarrow> dot_tokens cur (dotted (Suc i) ts) = cur # ts"
  by (induction ts arbitrary: cur i) (simp_all add: dot_tokens_word)

lemma dot_tokens_dotted:
  "\<forall>t\<in>set ts. t \<noteq> [] \<and> CHR ''.'' \<notin> set t \<Longrightarrow> dot_tokens [] (dotted 0 ts) = ts"
  by (cases ts) (simp_all add: dot_tokens_word dot_tokens_more)

lemma token_path_nodes:
  "\<forall>v\<in>set vs. node_named utab v \<Longrightarrow> i + length vs \<le> length ns \<Longrightarrow>
   token_path utab (map (node_text (Some utab)) vs) i ns = Some (i + length vs, take i ns @ vs @ drop (i + length vs) ns)"
proof (induction vs arbitrary: i ns)
  case (Cons v vs)
  then show ?case
    by (simp add: node_text_read(1) write_at_def take_Suc_conv_app_nth)
qed simp

lemma find_same_prefix:
  "PathSize p = PathSize q \<Longrightarrow> take (unat (PathSize q)) (PathNode p) = take (unat (PathSize q)) (PathNode q) \<Longrightarrow>
   FindObject_with_Path ds p ty = FindObject_with_Path ds q ty"
  by (induction ds) auto

lemma hex_digits_numeral:
  "hex_digits (numeral k) n = hex_digits (pred_numeral k) (n div 16) @ [hex_lower (n mod 16)]"
  unfolding numeral_eq_Suc [of k] by (rule hex_digits.simps(2))

section \<open>Tables of usages\<close>

text \<open>
  A name of a table fits between two dots and has a letter that occurs in no number. A usage is
  shadowed when its name is read as another usage, because that one comes first in the tables.
\<close>

definition names_ok :: "usage_lkp_t list list \<Rightarrow> bool" where
  "names_ok utab \<longleftrightarrow>
     list_all (\<lambda>e. fst e \<noteq> [] \<and> CHR ''.'' \<notin> set (fst e) \<and> list_ex (\<lambda>c. 103 \<le> tolower c) (fst e)) (concat utab)"

definition shadowed :: "usage_lkp_t list list \<Rightarrow> HIDNode_t list" where
  "shadowed utab =
     filter (\<lambda>v. case hid_lookup_path v utab of None \<Rightarrow> False | Some p \<Rightarrow> hid_lookup_usage p utab \<noteq> uint v)
       (map snd (concat utab))"

lemma table_path_mem: "table_path v tab = Some p \<Longrightarrow> (p, v) \<in> set tab"
  by (induction tab) (auto split: if_splits)

lemma lookup_path_mem: "hid_lookup_path v utab = Some p \<Longrightarrow> (p, v) \<in> set (concat utab)"
  by (induction utab) (auto split: option.splits dest: table_path_mem)

lemma table_usage_mem: "table_usage t tab = Some i \<Longrightarrow> \<exists>(p, u)\<in>set tab. strcasecmp p t = 0"
  by (induction tab) (auto split: if_splits)

lemma lookup_usage_mem: "hid_lookup_usage t utab \<noteq> - 1 \<Longrightarrow> \<exists>(p, u)\<in>set (concat utab). strcasecmp p t = 0"
proof (induction utab)
  case (Cons tab utab)
  show ?case
  proof (cases "table_usage t tab")
    case None
    then show ?thesis using Cons by auto
  next
    case (Some i)
    then show ?thesis using table_usage_mem [OF Some] by auto
  qed
qed simp

lemma number_chars: "list_all (\<lambda>c. tolower c < 103) ''1234567890abcdefABCDEF[]''"
  by (simp add: tolower_def code_of_def)

lemma number_no_name:
  assumes "names_ok utab" and "set t \<subseteq> set ''1234567890abcdefABCDEF[]''"
  shows "hid_lookup_usage t utab = - 1"
proof (rule ccontr)
  assume "hid_lookup_usage t utab \<noteq> - 1"
  then obtain p u where p: "(p, u) \<in> set (concat utab)" "strcasecmp p t = 0" using lookup_usage_mem by fast
  then have "fold_case p = fold_case t" by (simp add: strcasecmp_eq_0)
  then have same: "tolower ` set p = tolower ` set t" unfolding fold_case_def by (metis list.set_map)
  have "\<forall>c\<in>set t. tolower c < 103" using assms(2) number_chars unfolding list_all_iff by blast
  then have "\<forall>n\<in>tolower ` set p. n < 103" unfolding same by blast
  moreover obtain c where "c \<in> set p" "103 \<le> tolower c"
    using assms(1) p(1) unfolding names_ok_def list_all_iff list_ex_iff by fastforce
  ultimately show False by force
qed

lemma unnamed_text:
  assumes "hid_lookup_path v utab = None"
  shows "set (node_text (Some utab) v) \<subseteq> set ''1234567890abcdefABCDEF[]''"
proof (cases "v AND 0xffff0000 = 0x00ff0000")
  case True
  have "set ''1234567890'' \<subseteq> set ''1234567890abcdefABCDEF[]''" by simp
  then have "set (nat_dec (unat (v AND 0x0000ffff))) \<subseteq> set ''1234567890abcdefABCDEF[]''"
    using nat_dec_chars by (rule order_trans [rotated])
  then show ?thesis using assms True by (simp add: node_text_def)
next
  case False
  have "hex_lower ` {..<16} \<subseteq> set ''1234567890abcdefABCDEF''" using hex_lower_digit(4) by blast
  moreover have "set ''1234567890abcdefABCDEF'' \<subseteq> set ''1234567890abcdefABCDEF[]''" by simp
  ultimately have "set (hex_digits 8 (unat v)) \<subseteq> set ''1234567890abcdefABCDEF[]''" using hex_digits_set by (meson order_trans)
  then show ?thesis using assms False by (simp add: node_text_def)
qed

lemma unshadowed_named:
  assumes "names_ok utab" and "v \<notin> set (shadowed utab)"
  shows "node_named utab v"
proof (cases "hid_lookup_path v utab")
  case None
  then show ?thesis using number_no_name [OF assms(1) unnamed_text [OF None]] by (simp add: node_named_def)
next
  case (Some p)
  have mem: "(p, v) \<in> set (concat utab)" using Some by (rule lookup_path_mem)
  then have "v \<in> set (map snd (concat utab))" by force
  then have "hid_lookup_usage p utab = uint v" using assms(2) Some unfolding shadowed_def by simp
  moreover have "p \<noteq> [] \<and> CHR ''.'' \<notin> set p" using assms(1) mem unfolding names_ok_def list_all_iff by fastforce
  ultimately show ?thesis using Some by (simp add: node_named_def)
qed

section \<open>The table of the Power Device class\<close>

text \<open>Names as numbers, which compare fast.\<close>

definition name_no :: "cstring \<Rightarrow> nat" where
  "name_no p = foldr (\<lambda>c n. tolower c + 256 * n) p 0"

lemma name_no_same: "fold_case p = fold_case q \<Longrightarrow> name_no p = name_no q"
  by (simp add: name_no_def fold_case_def flip: foldr_map [of "\<lambda>x n. x + 256 * n" tolower, unfolded comp_def])

definition late_usages :: "HIDNode_t list" where
  "late_usages = [0x00850000, 0x008500D8]"

lemma standard_names: "names_ok [hid_usage_lkp]"
  by (simp add: names_ok_def hid_usage_lkp_def tolower_def code_of_def)

lemma standard_distinct: "distinct (map (\<lambda>e. name_no (fst e)) (filter (\<lambda>e. snd e \<notin> set late_usages) hid_usage_lkp))"
  by (simp add: hid_usage_lkp_def late_usages_def name_no_def tolower_def code_of_def)

lemma standard_late:
  "hid_lookup_usage ''Undefined'' [hid_usage_lkp] = 0x00840000"
  "hid_lookup_usage ''VoltageOutOfRange'' [hid_usage_lkp] = 0x00840063"
  "hid_lookup_path 0x00850000 [hid_usage_lkp] = Some ''Undefined''"
  "hid_lookup_path 0x008500D8 [hid_usage_lkp] = Some ''VoltageOutOfRange''"
  by code_simp+


lemma standard_late_entries:
  "filter (\<lambda>e. snd e \<in> set late_usages) hid_usage_lkp = [(''Undefined'', 0x00850000), (''VoltageOutOfRange'', 0x008500D8)]"
  by (simp add: hid_usage_lkp_def late_usages_def)

lemma table_usage_first: "table_usage t tab = Some i \<Longrightarrow> \<exists>e\<in>set tab. strcasecmp (fst e) t = 0 \<and> i = uint (snd e)"
  by (induction tab) (auto split: if_splits)

lemma table_usage_found: "(p, u) \<in> set tab \<Longrightarrow> table_usage p tab \<noteq> None"
  by (induction tab) auto

lemma table_usage_cong: "strcasecmp p t = 0 \<Longrightarrow> table_usage p tab = table_usage t tab"
  by (induction tab) (simp_all add: strcasecmp_eq_0)

lemma distinct_map_eq: "distinct (map f xs) \<Longrightarrow> x \<in> set xs \<Longrightarrow> y \<in> set xs \<Longrightarrow> f x = f y \<Longrightarrow> x = y"
  by (auto simp: distinct_map inj_on_def)

lemma standard_read:
  assumes "(p, u) \<in> set hid_usage_lkp" and "u \<notin> set late_usages"
  shows "hid_lookup_usage p [hid_usage_lkp] = uint u"
proof -
  obtain i where i: "table_usage p hid_usage_lkp = Some i" using table_usage_found [OF assms(1)] by blast
  then obtain q v where q: "(q, v) \<in> set hid_usage_lkp" "strcasecmp q p = 0" "i = uint v"
    using table_usage_first by fastforce
  have read: "hid_lookup_usage q [hid_usage_lkp] = uint v"
    using i q(3) table_usage_cong [OF q(2)] by simp
  have "v \<notin> set late_usages"
  proof
    assume "v \<in> set late_usages"
    then have "(q, v) \<in> set (filter (\<lambda>e. snd e \<in> set late_usages) hid_usage_lkp)" using q(1) by simp
    then have "(q, v) = (''Undefined'', 0x00850000) \<or> (q, v) = (''VoltageOutOfRange'', 0x008500D8)"
      unfolding standard_late_entries by simp
    then show False using read standard_late(1,2) by auto
  qed
  moreover have "name_no q = name_no p" using q(2) by (intro name_no_same) (simp add: strcasecmp_eq_0)
  ultimately have "(q, v) = (p, u)"
    using distinct_map_eq [OF standard_distinct, of "(q, v)" "(p, u)"] q(1) assms by simp
  then show ?thesis using read by simp
qed

lemma standard_shadowed: "set (shadowed [hid_usage_lkp]) = set late_usages"
proof -
  have "v \<in> set late_usages" if "v \<in> set (shadowed [hid_usage_lkp])" for v
  proof -
    have "case hid_lookup_path v [hid_usage_lkp] of None \<Rightarrow> False | Some p \<Rightarrow> hid_lookup_usage p [hid_usage_lkp] \<noteq> uint v"
      using that unfolding shadowed_def by (simp only: set_filter mem_Collect_eq)
    moreover obtain p where p: "hid_lookup_path v [hid_usage_lkp] = Some p"
      using calculation by (cases "hid_lookup_path v [hid_usage_lkp]") (simp_all only: option.case)
    ultimately have "hid_lookup_usage p [hid_usage_lkp] \<noteq> uint v" by (simp only: p option.case simp_thms)
    then show ?thesis using lookup_path_mem [OF p] standard_read [of p v] by auto
  qed
  moreover have "v \<in> set (shadowed [hid_usage_lkp])" if "v \<in> set late_usages" for v
  proof -
    have v: "v = 0x00850000 \<or> v = 0x008500D8" using that by (simp add: late_usages_def)
    have "\<exists>p. hid_lookup_path v [hid_usage_lkp] = Some p \<and> hid_lookup_usage p [hid_usage_lkp] \<noteq> uint v"
      by (rule disjE [OF v])
        (simp_all add: standard_late del: hid_lookup_path.simps hid_lookup_usage.simps)
    then obtain p where "hid_lookup_path v [hid_usage_lkp] = Some p" "hid_lookup_usage p [hid_usage_lkp] \<noteq> uint v" by blast
    then show ?thesis using lookup_path_mem by (force simp: shadowed_def simp del: hid_lookup_path.simps hid_lookup_usage.simps)
  qed
  ultimately show ?thesis by blast
qed



text \<open>\<open>UPS.Flow.[1].ConfigVoltage.ff860024\<close> in the standard table.\<close>

definition sample_path :: HIDPath_t where
  "sample_path = \<lparr>PathSize = 5, PathNode = [0x00840004, 0x0084001E, 0x00ff0001, 0x00840040, 0xff860024] @ replicate 5 0\<rparr>"

lemma sample_texts:
  "map (node_text (Some [hid_usage_lkp])) [0x00840004, 0x0084001E, 0x00ff0001, 0x00840040, 0xff860024] =
   [''UPS'', ''Flow'', ''[1]'', ''ConfigVoltage'', ''ff860024'']"
proof -
  have digits: "hex_digits 8 (unat (0xff860024 :: uint32)) = map hex_lower [15, 15, 8, 6, 0, 0, 2, 4]"
    by (simp add: hex_digits_numeral)
  have chars: "map hex_lower [15, 15, 8, 6, 0, 0, 2, 4] = ''ff860024''" by code_simp
  have none: "hid_lookup_path 0xff860024 [hid_usage_lkp] = None" by code_simp
  have "(0xff860024 :: uint32) AND 0xffff0000 \<noteq> 0x00ff0000" by code_simp
  then have "node_text (Some [hid_usage_lkp]) 0xff860024 = ''ff860024''"
    by (simp only: node_text_def digits chars none option.simps Option.bind.bind_lunit if_False)
  moreover have "map (node_text (Some [hid_usage_lkp])) [0x00840004, 0x0084001E, 0x00ff0001, 0x00840040] =
      [''UPS'', ''Flow'', ''[1]'', ''ConfigVoltage'']" by code_simp
  ultimately show ?thesis by (simp only: list.map list.inject simp_thms)
qed


text \<open>
  The table of usages has a name twice: the usage \<open>VoltageOutOfRange\<close> of the Battery System page
  is written with the name that is read as the usage of the Power Device page.
\<close>

lemma battery_voltage_name:
  "hid_lookup_path 0x008500D8 [hid_usage_lkp] = Some ''VoltageOutOfRange''"
  "hid_lookup_usage ''VoltageOutOfRange'' [hid_usage_lkp] = 0x00840063"
  by code_simp+

text \<open>
  The size of the path of an item is not compared: the nodes of an earlier, deeper path remain in
  the array, so a path of three usages finds an item whose own path has two.
\<close>

lemma shorter_path_matches:
  "map_option (map_option (\<lambda>h. map_option (\<lambda>d. PathSize (Path d))
      (FindObject_with_Path (item h) \<lparr>PathSize = 3, PathNode = [0x00840004, 0x00840041, 0x00840040] @ replicate 7 0\<rparr> ITEM_FEATURE)))
    (Parse_ReportDesc [0x05, 0x84, 0x95, 1, 0x75, 8, 0x85, 1, 0x09, 0x04, 0xA1, 1, 0x09, 0x24, 0xA1, 0,
       0x09, 0x40, 0xB1, 2, 0xC0, 0x09, 0x41, 0xB1, 2, 0xC0]) = Some (Some (Some 2))"
  by code_simp

text \<open>A component that nobody knows is left out: the rest of the name is looked up all the same.\<close>

lemma unknown_component_skipped:
  "string_to_path ''UPS.Typo.Voltage'' [[(''UPS'', 0x00840004), (''Voltage'', 0x00840030)]] (replicate 10 0) =
   string_to_path ''UPS.Voltage'' [[(''UPS'', 0x00840004), (''Voltage'', 0x00840030)]] (replicate 10 0)"
  by code_simp

end
