(* ===== verification/HidSafe.thy ===== *)
theory HidSafe
  imports HidParser
begin

text \<open>
  What the parser of report descriptors does with arbitrary bytes: it ends, it stays within
  its arrays, and the bits of every item it reports lie within the length it states for the
  report. The table of reports is the weak spot: it suffices for descriptors up to 834 bytes.
\<close>

section \<open>Well-formed parsers\<close>

definition hid_wf :: "HIDParser_t \<Rightarrow> bool" where
  "hid_wf p \<longleftrightarrow>
     length (OffsetTab p) = MAX_REPORT \<and>
     length (PathNode (Path (Data p))) = PATH_SIZE \<and>
     unat (PathSize (Path (Data p))) \<le> PATH_SIZE \<and>
     USAGE_TAB_SIZE \<le> length (UsageTab p) \<and>
     UsageSize p \<le> length (UsageTab p)"

definition main_tag :: "uint8 \<Rightarrow> bool" where
  "main_tag t \<longleftrightarrow> t = ITEM_FEATURE \<or> t = ITEM_INPUT \<or> t = ITEM_OUTPUT"

text \<open>What every step but a field leaves alone.\<close>

definition same_reports :: "HIDParser_t \<Rightarrow> HIDParser_t \<Rightarrow> bool" where
  "same_reports p q \<longleftrightarrow>
     OffsetTab q = OffsetTab p \<and> LocalCount q = LocalCount p \<and> ReportDesc q = ReportDesc p"

lemma new_parser_wf [nut_wf]: "hid_wf (new_parser desc)"
  by (simp add: hid_wf_def new_parser_def blank_data_def PATH_SIZE_def)

lemma reset_wf [nut_wf]: "hid_wf p \<Longrightarrow> hid_wf (ResetLocalState p)"
  by (simp add: hid_wf_def ResetLocalState_def)

lemma reset_frame [simp]:
  "OffsetTab (ResetLocalState p) = OffsetTab p" "LocalCount (ResetLocalState p) = LocalCount p"
  "ReportDesc (ResetLocalState p) = ReportDesc p" "Data (ResetLocalState p) = Data p"
  "Pos (ResetLocalState p) = Pos p" "Item (ResetLocalState p) = Item p"
  by (simp_all add: ResetLocalState_def)

lemma unat_less_inc: "unat (n :: uint8) < PATH_SIZE \<Longrightarrow> unat (n + 1) = unat n + 1"
  by (simp add: PATH_SIZE_def unat_word_ariths)

lemma push_node_eq:
  "hid_wf p \<Longrightarrow> \<not> path_full p \<Longrightarrow> push_node v p = Some (p\<lparr>Data := (Data p)\<lparr>Path := \<lparr>PathSize = PathSize (Path (Data p)) + 1,
     PathNode = (PathNode (Path (Data p)))[unat (PathSize (Path (Data p))) := v]\<rparr>\<rparr>\<rparr>)"
  by (simp add: push_node_def write_at_def hid_wf_def path_full_def)

lemma push_node_wf:
  assumes "hid_wf p" "\<not> path_full p"
  shows "\<exists>q. push_node v p = Some q \<and> hid_wf q \<and> same_reports p q \<and> Pos q = Pos p \<and> Item q = Item p \<and>
    ItemValue q = ItemValue p \<and> ReportID (Data q) = ReportID (Data p) \<and>
    unat (PathSize (Path (Data q))) = unat (PathSize (Path (Data p))) + 1"
  using assms by (simp add: push_node_eq) (simp add: hid_wf_def same_reports_def path_full_def not_le unat_less_inc)

lemma unstack_ok: "n + j \<le> length tab \<Longrightarrow> \<exists>tab'. unstack n j tab = Some tab' \<and> length tab' = length tab"
proof (induction n arbitrary: j tab)
  case (Suc n)
  then show ?case
    using Suc.IH [of "Suc j" "tab[j := (if j + 1 < length tab then tab ! (j + 1) else 0)]"]
    by (auto simp: read_at_def write_at_def)
qed simp

lemma drop_usage_wf:
  assumes "hid_wf p"
  shows "\<exists>q. drop_usage p = Some q \<and> hid_wf q \<and> same_reports p q \<and> Pos q = Pos p \<and> Item q = Item p \<and>
    ItemValue q = ItemValue p \<and> Data q = Data p"
proof (cases "UsageSize p > 0")
  case True
  obtain tab where t: "unstack (UsageSize p) 0 (UsageTab p) = Some tab" "length tab = length (UsageTab p)"
    using unstack_ok [of "UsageSize p" 0 "UsageTab p"] assms by (auto simp: hid_wf_def)
  then show ?thesis using assms True by (auto simp: drop_usage_def hid_wf_def same_reports_def)
next
  case False
  then show ?thesis using assms by (simp add: drop_usage_def same_reports_def)
qed

lemma same_reports_refl [simp]: "same_reports p p"
  by (simp add: same_reports_def)

lemma same_reports_trans: "same_reports p q \<Longrightarrow> same_reports q r \<Longrightarrow> same_reports p r"
  by (simp add: same_reports_def)

lemma set_path_size_frame [simp]:
  "OffsetTab (set_path_size n p) = OffsetTab p" "LocalCount (set_path_size n p) = LocalCount p"
  "ReportDesc (set_path_size n p) = ReportDesc p" "Pos (set_path_size n p) = Pos p"
  "Item (set_path_size n p) = Item p" "ReportID (Data (set_path_size n p)) = ReportID (Data p)"
  "PathNode (Path (Data (set_path_size n p))) = PathNode (Path (Data p))"
  "PathSize (Path (Data (set_path_size n p))) = n"
  by (simp_all add: set_path_size_def)

lemma set_path_size_wf: "hid_wf p \<Longrightarrow> unat n \<le> PATH_SIZE \<Longrightarrow> hid_wf (set_path_size n p)"
  by (simp add: hid_wf_def) (simp add: set_path_size_def)

lemma unat_dec: "(n :: uint8) \<noteq> 0 \<Longrightarrow> unat (n - 1) = unat n - 1"
  by (metis unat_gt_0 unat_minus_one)

section \<open>Steps that are no fields\<close>

text \<open>A step ends well when it can be made and goes on with the reports as they were.\<close>

definition keeps_reports :: "HIDParser_t \<Rightarrow> step_result option \<Rightarrow> bool" where
  "keeps_reports p r \<longleftrightarrow>
     (\<exists>q. r = Some (Abort q)) \<or>
     (\<exists>q. r = Some (Go q) \<and> hid_wf q \<and> same_reports p q \<and> Pos q = Pos p \<and>
        ReportID (Data q) = ReportID (Data p))"

lemma keeps_reports_abort: "keeps_reports p (Some (Abort q))"
  by (simp add: keeps_reports_def)

lemma keeps_reports_go:
  "hid_wf q \<Longrightarrow> same_reports p q \<Longrightarrow> Pos q = Pos p \<Longrightarrow> ReportID (Data q) = ReportID (Data p) \<Longrightarrow>
   keeps_reports p (Some (Go q))"
  by (simp add: keeps_reports_def)

lemma item_usage_keeps: "hid_wf p \<Longrightarrow> keeps_reports p (item_usage p)"
  by (auto simp: item_usage_def write_at_def hid_wf_def same_reports_def keeps_reports_def)

lemma reset_same_reports: "same_reports p q \<Longrightarrow> same_reports p (ResetLocalState q)"
  by (simp add: same_reports_def)

lemma first_usage: "hid_wf p \<Longrightarrow> read_at (UsageTab p) 0 = Some (UsageTab p ! 0)"
  by (auto simp: read_at_def hid_wf_def USAGE_TAB_SIZE_def)

lemma item_collection_keeps:
  assumes "hid_wf p"
  shows "keeps_reports p (item_collection p)"
proof (cases "path_full p")
  case True
  then show ?thesis by (simp add: item_collection_def keeps_reports_abort)
next
  case False
  obtain q where q: "push_node (UsageTab p ! 0) p = Some q" "hid_wf q" "same_reports p q" "Pos q = Pos p"
      "ReportID (Data q) = ReportID (Data p)"
    using push_node_wf [OF assms False] by blast
  obtain r where r: "drop_usage q = Some r" "hid_wf r" "same_reports q r" "Pos r = Pos q" "Data r = Data q"
      "ItemValue r = ItemValue q"
    using drop_usage_wf [OF q(2)] by blast
  have pr: "same_reports p r" by (rule same_reports_trans [OF q(3) r(3)])
  have start: "item_collection p = (if ItemValue p \<ge> 0x80
      then (if path_full r then Some (Abort r)
            else do { s \<leftarrow> push_node (0x00ff0000 OR (ItemValue p AND 0x7F)) r; Some (Go (ResetLocalState s)) })
      else Some (Go (ResetLocalState r)))"
    using False first_usage [OF assms] q(1) r(1) by (simp add: item_collection_def)
  show ?thesis
  proof (cases "ItemValue p \<ge> 0x80 \<and> \<not> path_full r")
    case True
    then obtain s where s: "push_node (0x00ff0000 OR (ItemValue p AND 0x7F)) r = Some s" "hid_wf s"
        "same_reports r s" "Pos s = Pos r" "ReportID (Data s) = ReportID (Data r)"
      using push_node_wf [OF r(2)] by blast
    then show ?thesis using True q r same_reports_trans [OF pr s(3)]
      by (simp add: start keeps_reports_go reset_wf reset_same_reports)
  next
    case False
    then show ?thesis using q r pr
      by (auto simp: start keeps_reports_abort intro!: keeps_reports_go reset_wf reset_same_reports)
  qed
qed

lemma item_end_collection_keeps:
  assumes "hid_wf p"
  shows "keeps_reports p (item_end_collection p)"
proof (cases "PathSize (Path (Data p)) = 0")
  case True
  then show ?thesis by (simp add: item_end_collection_def keeps_reports_abort)
next
  case False
  let ?n = "PathSize (Path (Data p)) - 1"
  have n: "unat ?n < PATH_SIZE" using assms False unat_dec [OF False]
    by (auto simp: hid_wf_def unat_gt_0 [symmetric] simp del: unat_gt_0)
  have wf: "hid_wf (set_path_size ?n p)" using assms n by (simp add: set_path_size_wf)
  have wf2: "hid_wf (set_path_size (?n - 1) (set_path_size ?n p))" if "?n \<noteq> 0"
    using wf n unat_dec [OF that] by (simp add: set_path_size_wf)
  have len: "length (PathNode (Path (Data p))) = PATH_SIZE" using assms by (simp add: hid_wf_def)
  have same: "same_reports p (set_path_size k (set_path_size l p))" "same_reports p (set_path_size k p)" for k l
    by (simp_all add: same_reports_def)
  show ?thesis
    using False n wf wf2 same len
    by (auto simp: item_end_collection_def Let_def read_at_def word_gt_0
        intro!: keeps_reports_go reset_wf reset_same_reports)
qed

section \<open>The table of reports\<close>

text \<open>Entries in use come first, each for a report of its own.\<close>

definition report_key :: "uint8 \<times> uint8 \<times> uint8 \<Rightarrow> uint8 \<times> uint8" where
  "report_key e = (fst e, fst (snd e))"

definition in_use :: "(uint8 \<times> uint8 \<times> uint8) list \<Rightarrow> (uint8 \<times> uint8 \<times> uint8) list" where
  "in_use tab = filter (\<lambda>e. fst e \<noteq> 0) tab"

definition offsets_ok :: "(uint8 \<times> uint8 \<times> uint8) list \<Rightarrow> bool" where
  "offsets_ok tab \<longleftrightarrow>
     (\<exists>free. tab = in_use tab @ free \<and> distinct (map report_key (in_use tab)) \<and>
        (\<forall>e\<in>set (in_use tab). main_tag (fst (snd e))))"

lemma GetReportOffset_known:
  "(rid, ty) \<in> set (map report_key used) \<Longrightarrow> (\<forall>e\<in>set used. fst e \<noteq> 0) \<Longrightarrow>
   \<exists>k < length used. GetReportOffset rid ty (used @ free) = Some (k, used @ free) \<and> report_key (used ! k) = (rid, ty)"
proof (induction used)
  case (Cons e used)
  show ?case
  proof (cases "report_key e = (rid, ty)")
    case True
    then show ?thesis using Cons.prems by (auto simp: report_key_def intro!: exI [of _ 0])
  next
    case False
    then obtain k where "k < length used" "GetReportOffset rid ty (used @ free) = Some (k, used @ free)"
        "report_key (used ! k) = (rid, ty)"
      using Cons by auto
    then show ?thesis using Cons.prems False by (intro exI [of _ "Suc k"]) (auto simp: report_key_def)
  qed
qed simp

lemma GetReportOffset_fresh:
  "(rid, ty) \<notin> set (map report_key used) \<Longrightarrow> (\<forall>e\<in>set used. fst e \<noteq> 0) \<Longrightarrow> fst f = 0 \<Longrightarrow>
   GetReportOffset rid ty (used @ f # free) = Some (length used, used @ (rid, ty, 0) # free)"
  by (induction used) (auto simp: report_key_def)

lemma GetReportOffset_full:
  "(rid, ty) \<notin> set (map report_key used) \<Longrightarrow> (\<forall>e\<in>set used. fst e \<noteq> 0) \<Longrightarrow> GetReportOffset rid ty used = None"
  by (induction used) (auto simp: report_key_def)

lemma in_use_append [simp]: "in_use (xs @ ys) = in_use xs @ in_use ys"
  by (simp add: in_use_def)

lemma in_use_all [simp]: "\<forall>e\<in>set used. fst e \<noteq> 0 \<Longrightarrow> in_use used = used"
  by (simp add: in_use_def)

text \<open>
  What a field does to the table: it finds its entry, reads the offset there and adds its
  size. The report gets an entry of its own unless its identifier is 0.
\<close>

definition add_bits :: "uint8 \<Rightarrow> nat \<Rightarrow> (uint8 \<times> uint8 \<times> uint8) list \<Rightarrow> (uint8 \<times> uint8 \<times> uint8) list" where
  "add_bits n k tab = tab[k := (fst (tab ! k), fst (snd (tab ! k)), snd (snd (tab ! k)) + n)]"

lemma add_bits_keys:
  "k < length used \<Longrightarrow> map report_key (add_bits n k used) = map report_key used"
  by (simp add: add_bits_def report_key_def map_update list_update_same_conv)

lemma table_parts:
  assumes "offsets_ok tab"
  obtains free where "tab = in_use tab @ free" "\<forall>e\<in>set free. fst e = 0" "\<forall>e\<in>set (in_use tab). fst e \<noteq> 0"
    "distinct (map report_key (in_use tab))" "\<forall>e\<in>set (in_use tab). main_tag (fst (snd e))"
proof -
  obtain free where f: "tab = in_use tab @ free" "distinct (map report_key (in_use tab))"
      "\<forall>e\<in>set (in_use tab). main_tag (fst (snd e))"
    using assms unfolding offsets_ok_def by blast
  have "in_use tab = in_use (in_use tab) @ in_use free" using f(1) by (metis in_use_append)
  then have "in_use free = []" by (simp add: in_use_def)
  then have "\<forall>e\<in>set free. fst e = 0" by (simp add: in_use_def filter_empty_conv)
  then show thesis using that [OF f(1)] f by (auto simp: in_use_def)
qed

lemma GetReportOffset_again:
  "(rid, ty) \<notin> set (map report_key used) \<Longrightarrow> (\<forall>e\<in>set used. fst e \<noteq> 0) \<Longrightarrow>
   GetReportOffset rid ty (used @ (rid, ty, 0) # free) = Some (length used, used @ (rid, ty, 0) # free)"
  by (induction used) (auto simp: report_key_def)

lemma add_bits_used: "k < length used \<Longrightarrow> add_bits n k (used @ free) = add_bits n k used @ free"
  by (simp add: add_bits_def nth_append list_update_append)

lemma add_bits_last: "add_bits n (length used) (used @ (rid, ty, x) # free) = used @ (rid, ty, x + n) # free"
  by (simp add: add_bits_def)

lemma keys_nonzero: "(\<forall>e\<in>set xs. fst e \<noteq> 0) \<longleftrightarrow> 0 \<notin> fst ` set (map report_key xs)"
  by (auto simp: report_key_def image_iff)

lemma keys_types: "(\<forall>e\<in>set xs. main_tag (fst (snd e))) \<longleftrightarrow> (\<forall>t\<in>snd ` set (map report_key xs). main_tag t)"
  by (auto simp: report_key_def image_iff)

lemma in_use_free: "\<forall>e\<in>set free. fst e = 0 \<Longrightarrow> in_use free = []"
  by (simp add: in_use_def)

lemma offsets_okI:
  assumes "\<forall>e\<in>set used. fst e \<noteq> 0" "distinct (map report_key used)" "\<forall>e\<in>set used. main_tag (fst (snd e))"
    "\<forall>e\<in>set free. fst e = 0"
  shows "offsets_ok (used @ free)" "in_use (used @ free) = used"
  using assms by (auto simp: offsets_ok_def in_use_free)

lemma table_field_known:
  assumes ok: "offsets_ok tab" and kn: "(rid, ty) \<in> set (map report_key (in_use tab))"
  obtains k where "GetReportOffset rid ty tab = Some (k, tab)" "k < length tab" "offsets_ok (add_bits n k tab)"
    "map report_key (in_use (add_bits n k tab)) = map report_key (in_use tab)"
proof -
  obtain free where f: "tab = in_use tab @ free" "\<forall>e\<in>set free. fst e = 0" "\<forall>e\<in>set (in_use tab). fst e \<noteq> 0"
    "distinct (map report_key (in_use tab))" "\<forall>e\<in>set (in_use tab). main_tag (fst (snd e))"
    using table_parts [OF ok] by blast
  obtain k where k: "k < length (in_use tab)" "GetReportOffset rid ty tab = Some (k, tab)"
    using GetReportOffset_known [OF kn f(3), of free] f(1) by metis
  let ?u = "add_bits n k (in_use tab)"
  have keys: "map report_key ?u = map report_key (in_use tab)" by (rule add_bits_keys [OF k(1)])
  have eq: "add_bits n k tab = ?u @ free" using add_bits_used [OF k(1), of n free] f(1) by simp
  have nz: "\<forall>e\<in>set ?u. fst e \<noteq> 0" using f(3) unfolding keys_nonzero keys .
  have ty: "\<forall>e\<in>set ?u. main_tag (fst (snd e))" using f(5) unfolding keys_types keys .
  have "offsets_ok (?u @ free)" "in_use (?u @ free) = ?u"
    using offsets_okI [OF nz _ ty f(2)] f(4) keys by simp_all
  moreover have "k < length tab" using k(1) f(1) by (metis length_append trans_less_add1)
  ultimately show thesis using that k(2) eq keys by simp
qed

lemma table_field_fresh:
  assumes ok: "offsets_ok tab" and new: "(rid, ty) \<notin> set (map report_key (in_use tab))"
    and room: "length (in_use tab) < length tab" and ty: "main_tag ty"
  obtains k tab1 where "GetReportOffset rid ty tab = Some (k, tab1)" "k < length tab1" "length tab1 = length tab"
    "GetReportOffset rid ty tab1 = Some (k, tab1)" "offsets_ok (add_bits n k tab1)"
    "map report_key (in_use (add_bits n k tab1)) =
      map report_key (in_use tab) @ (if rid = 0 then [] else [(rid, ty)])"
proof -
  obtain free where f: "tab = in_use tab @ free" "\<forall>e\<in>set free. fst e = 0" "\<forall>e\<in>set (in_use tab). fst e \<noteq> 0"
    "distinct (map report_key (in_use tab))" "\<forall>e\<in>set (in_use tab). main_tag (fst (snd e))"
    using table_parts [OF ok] by blast
  define used where "used = in_use tab"
  obtain e rest where fr: "free = e # rest" using room f(1) by (cases free) (auto simp flip: used_def)
  let ?t = "used @ (rid, ty, 0) # rest"
  have one: "GetReportOffset rid ty tab = Some (length used, ?t)"
    using GetReportOffset_fresh [OF new f(3), of e rest] f(1,2) fr by (simp add: used_def)
  have two: "GetReportOffset rid ty ?t = Some (length used, ?t)"
    using GetReportOffset_again [OF new f(3)] by (simp add: used_def)
  let ?u = "used @ (if rid = 0 then [] else [(rid, ty, n)])"
  let ?f = "(if rid = 0 then [(rid, ty, n)] else []) @ rest"
  have up: "add_bits n (length used) ?t = ?u @ ?f"
    by (simp add: add_bits_last)
  have nz: "\<forall>e\<in>set ?u. fst e \<noteq> 0" and tys: "\<forall>e\<in>set ?u. main_tag (fst (snd e))" and di: "distinct (map report_key ?u)"
    using f new ty by (auto simp: used_def report_key_def)
  have "\<forall>e\<in>set ?f. fst e = 0" using f(2) fr by auto
  then have fin: "offsets_ok (add_bits n (length used) ?t)" "in_use (add_bits n (length used) ?t) = ?u"
    unfolding up using offsets_okI [OF nz di tys] by blast+
  have len: "length ?t = length tab" using f(1) fr by (metis used_def length_append length_Cons)
  show thesis by (rule that [OF one _ len two fin(1)]) (use fin(2) in \<open>auto simp: used_def report_key_def\<close>)
qed

text \<open>
  How many reports a descriptor can have filled in after \<open>n\<close> bytes: a field takes a byte, a
  new identifier takes two, and each identifier has three types.
\<close>

definition budget :: "nat \<Rightarrow> uint8 \<Rightarrow> (uint8 \<times> uint8 \<times> uint8) list \<Rightarrow> bool" where
  "budget n rid tab \<longleftrightarrow>
     (\<exists>ids. finite ids \<and> rid \<in> insert 0 ids \<and> fst ` set (map report_key (in_use tab)) \<subseteq> ids \<and>
        2 * card ids + length (in_use tab) \<le> n)"

lemma budget_mono: "budget n rid tab \<Longrightarrow> n \<le> m \<Longrightarrow> budget m rid tab"
  unfolding budget_def by (meson order_trans)

lemma budget_room:
  assumes "budget n rid tab" "offsets_ok tab" "n < 834" "length tab = MAX_REPORT"
  shows "length (in_use tab) < length tab"
proof -
  obtain ids where ids: "finite ids" "fst ` set (map report_key (in_use tab)) \<subseteq> ids"
      "2 * card ids + length (in_use tab) \<le> n"
    using assms(1) unfolding budget_def by blast
  have d: "distinct (map report_key (in_use tab))" "\<forall>e\<in>set (in_use tab). main_tag (fst (snd e))"
    using assms(2) unfolding offsets_ok_def by blast+
  let ?ty = "{ITEM_FEATURE, ITEM_INPUT, ITEM_OUTPUT}"
  have "set (map report_key (in_use tab)) \<subseteq> ids \<times> ?ty"
  proof
    fix x assume x: "x \<in> set (map report_key (in_use tab))"
    then have "fst x \<in> ids" using ids(2) by blast
    moreover have "main_tag (snd x)" using x d(2) unfolding keys_types by blast
    ultimately show "x \<in> ids \<times> ?ty" by (cases x) (auto simp: main_tag_def)
  qed
  then have "card (set (map report_key (in_use tab))) \<le> card (ids \<times> ?ty)"
    using ids(1) by (intro card_mono) auto
  then have "length (in_use tab) \<le> 3 * card ids"
    using distinct_card [OF d(1)] by (simp add: card_cartesian_product hid_items)
  then have "length (in_use tab) < 500" using ids(3) assms(3) by linarith
  then show ?thesis using assms(4) by (simp add: MAX_REPORT_def)
qed

lemma table_field:
  assumes ok: "offsets_ok tab" and room: "budget m rid tab" "m < 834" "length tab = MAX_REPORT" and ty: "main_tag ty"
  obtains k tab1 where "GetReportOffset rid ty tab = Some (k, tab1)" "k < length tab1" "length tab1 = length tab"
    "GetReportOffset rid ty tab1 = Some (k, tab1)" "offsets_ok (add_bits n k tab1)"
    "rid = 0 \<or> (rid, ty) \<in> set (map report_key (in_use (add_bits n k tab1)))"
    "rid = 0 \<or> (rid, ty) \<in> set (map report_key (in_use tab)) \<Longrightarrow> budget m rid (add_bits n k tab1)"
    "budget (m + 1) rid (add_bits n k tab1)"
proof (cases "(rid, ty) \<in> set (map report_key (in_use tab))")
  case True
  obtain k where k: "GetReportOffset rid ty tab = Some (k, tab)" "k < length tab" "offsets_ok (add_bits n k tab)"
    "map report_key (in_use (add_bits n k tab)) = map report_key (in_use tab)"
    using table_field_known [OF ok True, of n] by blast
  have "budget m rid (add_bits n k tab)"
    using room(1) k(4) map_eq_imp_length_eq [OF k(4)] unfolding budget_def by simp
  then show thesis using that [OF k(1,2) _ k(1) k(3)] True k(4) budget_mono [of m rid _ "m + 1"] by simp
next
  case False
  have "length (in_use tab) < length tab" by (rule budget_room [OF room(1) ok room(2,3)])
  then obtain k tab1 where k: "GetReportOffset rid ty tab = Some (k, tab1)" "k < length tab1" "length tab1 = length tab"
    "GetReportOffset rid ty tab1 = Some (k, tab1)" "offsets_ok (add_bits n k tab1)"
    "map report_key (in_use (add_bits n k tab1)) =
      map report_key (in_use tab) @ (if rid = 0 then [] else [(rid, ty)])"
    using table_field_fresh [OF ok False _ ty, of n] by blast
  have len: "length (in_use (add_bits n k tab1)) = length (in_use tab) + (if rid = 0 then 0 else 1)"
    using arg_cong [OF k(6), of length] by simp
  have b: "budget (m + (if rid = 0 then 0 else 1)) rid (add_bits n k tab1)"
    using room(1) len unfolding budget_def k(6) by (auto simp del: set_map)
  show thesis
    by (rule that [OF k(1-5)]) (use b k(6) False budget_mono [OF b, of "m + 1"] in \<open>auto simp del: set_map\<close>)
qed

section \<open>Fields\<close>

definition reports_ok :: "nat \<Rightarrow> HIDParser_t \<Rightarrow> bool" where
  "reports_ok n p \<longleftrightarrow> hid_wf p \<and> offsets_ok (OffsetTab p) \<and> budget n (ReportID (Data p)) (OffsetTab p)"

definition known_report :: "HIDParser_t \<Rightarrow> bool" where
  "known_report p \<longleftrightarrow> ReportID (Data p) = 0 \<or>
     (ReportID (Data p), Item p AND ITEM_MASK) \<in> set (map report_key (in_use (OffsetTab p)))"

lemma set_path_back:
  "hid_wf p \<Longrightarrow> hid_wf (set_path_size (PathSize (Path (Data p)) - 1) p)" if "PathSize (Path (Data p)) \<noteq> 0"
proof -
  assume w: "hid_wf p"
  have "unat (PathSize (Path (Data p)) - 1) \<le> PATH_SIZE" using w unat_dec [OF that] by (auto simp: hid_wf_def)
  then show ?thesis by (rule set_path_size_wf [OF w])
qed

lemma item_main_keeps:
  assumes ok: "reports_ok n p" and n: "n < 834" and tag: "main_tag (Item p AND ITEM_MASK)"
  shows "(\<exists>q. item_main p = Some (Abort q)) \<or>
    (\<exists>found d q. item_main p = Some (Object found d q) \<and> reports_ok (n + 1) q \<and>
       (known_report p \<longrightarrow> reports_ok n q) \<and> known_report q \<and> Item q = Item p \<and> Pos q = Pos p \<and>
       ReportDesc q = ReportDesc p \<and>
       LocalCount q = (if LocalCount p = 0 then ReportCount p else LocalCount p) - 1 \<and>
       (found = 0 \<or> found = 1) \<and> ReportID d = ReportID (Data p) \<and> DataType d = Item p AND ITEM_MASK)"
proof (cases "path_full p")
  case True
  then have "path_full (if LocalCount p = 0 then p\<lparr>LocalCount := ReportCount p\<rparr> else p)" by (simp add: path_full_def)
  then show ?thesis using True first_usage [of p] ok by (simp add: item_main_def Let_def reports_ok_def)
next
  case False
  define p1 where "p1 = (if LocalCount p = 0 then p\<lparr>LocalCount := ReportCount p\<rparr> else p)"
  have p1: "hid_wf p1" "\<not> path_full p1" "OffsetTab p1 = OffsetTab p" "Data p1 = Data p" "Item p1 = Item p"
      "Pos p1 = Pos p" "ReportDesc p1 = ReportDesc p" "ItemValue p1 = ItemValue p"
      "LocalCount p1 = (if LocalCount p = 0 then ReportCount p else LocalCount p)"
    using ok False by (auto simp: p1_def reports_ok_def path_full_def) (auto simp: hid_wf_def)
  obtain p2 where p2: "push_node (UsageTab p ! 0) p1 = Some p2" "hid_wf p2" "same_reports p1 p2" "Pos p2 = Pos p1"
      "Item p2 = Item p1" "ReportID (Data p2) = ReportID (Data p1)"
      "unat (PathSize (Path (Data p2))) = unat (PathSize (Path (Data p1))) + 1"
    using push_node_wf [OF p1(1,2)] by blast
  obtain p3 where p3: "drop_usage p2 = Some p3" "hid_wf p3" "same_reports p2 p3" "Pos p3 = Pos p2"
      "Item p3 = Item p2" "Data p3 = Data p2"
    using drop_usage_wf [OF p2(2)] by blast
  note fr = same_reports_trans [OF p2(3) p3(3), unfolded same_reports_def]
  let ?rid = "ReportID (Data p)" and ?ty = "Item p AND ITEM_MASK"
  obtain k tab where k: "GetReportOffset ?rid ?ty (OffsetTab p) = Some (k, tab)" "k < length tab"
      "length tab = length (OffsetTab p)" "GetReportOffset ?rid ?ty tab = Some (k, tab)"
      "offsets_ok (add_bits (DataSize (Data p3)) k tab)"
      "?rid = 0 \<or> (?rid, ?ty) \<in> set (map report_key (in_use (add_bits (DataSize (Data p3)) k tab)))"
      "known_report p \<Longrightarrow> budget n ?rid (add_bits (DataSize (Data p3)) k tab)"
      "budget (n + 1) ?rid (add_bits (DataSize (Data p3)) k tab)"
    using table_field [of "OffsetTab p" n ?rid ?ty "DataSize (Data p3)"] ok n tag
    unfolding reports_ok_def hid_wf_def known_report_def by blast
  define d where "d = (Data p3)\<lparr>DataType := ?ty, Attribute := ucast (ItemValue p), Offset := snd (snd (tab ! k))\<rparr>"
  define p4 where "p4 = set_path_size (PathSize (Path d) - 1)
    (p3\<lparr>Data := d, OffsetTab := add_bits (DataSize (Data p3)) k tab, LocalCount := LocalCount p3 - 1\<rparr>)"
  have main: "item_main p = Some (Object (if UsageTab p ! 0 \<noteq> 0 then 1 else 0) d
      (if LocalCount p4 = 0 then ResetLocalState p4 else p4))"
    using ok False p1 p2 p3 k fr first_usage [of p]
    by (simp add: item_main_def Let_def reports_ok_def p1_def [symmetric] path_full_def read_at_def write_at_def
        d_def p4_def add_bits_def)
  have size: "PathSize (Path d) \<noteq> 0" using p2(7) p3(6) by (auto simp: d_def)
  have wf4: "hid_wf p4"
    unfolding p4_def using p3(2) size k(2,3) ok
    by (intro set_path_size_wf) (auto simp: hid_wf_def reports_ok_def d_def add_bits_def unat_dec)
  have p4: "OffsetTab p4 = add_bits (DataSize (Data p3)) k tab" "Item p4 = Item p" "Pos p4 = Pos p"
      "ReportDesc p4 = ReportDesc p" "LocalCount p4 = (if LocalCount p = 0 then ReportCount p else LocalCount p) - 1"
      "ReportID (Data p4) = ?rid" "ReportID d = ?rid" "DataType d = ?ty"
    using p1 p2(4-6) p3(4-6) fr by (simp_all add: p4_def d_def)
  define q where "q = (if LocalCount p4 = 0 then ResetLocalState p4 else p4)"
  have q: "hid_wf q" "OffsetTab q = OffsetTab p4" "Item q = Item p4" "Pos q = Pos p4" "ReportDesc q = ReportDesc p4"
      "LocalCount q = LocalCount p4" "Data q = Data p4"
    using wf4 by (simp_all add: q_def reset_wf)
  show ?thesis
    unfolding main q_def [symmetric] using k(5-8) p4 q
    by (auto simp: reports_ok_def known_report_def simp del: set_map)
qed

section \<open>Whole steps\<close>

lemma item_value_ok:
  "pos + n + i \<le> length desc \<Longrightarrow> \<exists>v. item_value desc pos n i v0 = Some v"
proof (induction n arbitrary: i v0)
  case (Suc n)
  then show ?case using Suc.IH [of "Suc i"] by (simp add: read_at_def)
qed simp

lemma size_index: "unat (b AND SIZE_MASK :: uint8) < 4"
proof -
  have "b AND SIZE_MASK \<le> SIZE_MASK" by (rule word_and_le1)
  then show ?thesis by (simp add: SIZE_MASK_def word_le_nat_alt)
qed

lemma item_size_bound: "unat (b AND SIZE_MASK :: uint8) < length ItemSize" "ItemSize ! unat (b AND SIZE_MASK) \<le> 4"
proof -
  consider "unat (b AND SIZE_MASK) = 0" | "unat (b AND SIZE_MASK) = 1" | "unat (b AND SIZE_MASK) = 2" |
    "unat (b AND SIZE_MASK) = 3"
    using size_index [of b] by linarith
  then show "ItemSize ! unat (b AND SIZE_MASK) \<le> 4" by cases (simp_all add: ItemSize_def)
qed (use size_index [of b] in \<open>simp add: ItemSize_def\<close>)

lemma unat_add_small: "unat (p :: uint16) + n < 65536 \<Longrightarrow> unat (p + of_nat n) = unat p + n"
  by (simp add: unat_word_ariths unat_of_nat)

lemma fetch_item_ok:
  assumes more: "unat (Pos p) < length (ReportDesc p)" "length (ReportDesc p) < 65280" and none: "LocalCount p = 0"
  shows "(\<exists>q. fetch_item p = Some (Inl q)) \<or>
    (\<exists>q. fetch_item p = Some (Inr q) \<and>
      unat (Pos q) = unat (Pos p) + 1 + ItemSize ! unat (Item q AND SIZE_MASK) \<and>
      unat (Pos q) \<le> length (ReportDesc p) \<and>
      (ItemSize ! unat (Item q AND SIZE_MASK) = 0 \<longrightarrow> ItemValue q = 0) \<and> ReportDesc q = ReportDesc p \<and>
      LocalCount q = 0 \<and> Data q = Data p \<and> OffsetTab q = OffsetTab p \<and> hid_wf q = hid_wf p)"
proof -
  let ?b = "ReportDesc p ! unat (Pos p)"
  let ?n = "ItemSize ! unat (?b AND SIZE_MASK)"
  have pos: "unat (Pos p + 1) = unat (Pos p) + 1" using unat_add_small [of "Pos p" 1] more by simp
  have start: "fetch_item p = (let p1 = p\<lparr>Item := ?b, Pos := Pos p + 1, ItemValue := 0\<rparr> in
      if ?n > length (ReportDesc p) - (unat (Pos p) + 1) then Some (Inl p1)
      else do { v \<leftarrow> item_value (ReportDesc p) (unat (Pos p) + 1) ?n 0 0;
                Some (Inr (p1\<lparr>ItemValue := v, Pos := Pos p + 1 + of_nat ?n\<rparr>)) })"
    using more none pos item_size_bound(1) [of ?b] by (simp add: fetch_item_def read_at_def Let_def)
  show ?thesis
  proof (cases "?n > length (ReportDesc p) - (unat (Pos p) + 1)")
    case False
    then obtain v where v: "item_value (ReportDesc p) (unat (Pos p) + 1) ?n 0 0 = Some v"
      using item_value_ok [of "unat (Pos p) + 1" ?n 0] more(1) by fastforce
    have "unat (Pos p + 1 + of_nat ?n) = unat (Pos p) + 1 + ?n"
      using unat_add_small [of "Pos p + 1" ?n] pos False more by simp
    moreover have "?n = 0 \<Longrightarrow> v = 0" using v by simp
    ultimately show ?thesis using v False none more(1) by (simp add: start Let_def hid_wf_def)
  qed (simp add: start Let_def)
qed

text \<open>The state between two fields: bounded by the bytes that were read.\<close>

definition hid_inv :: "HIDParser_t \<Rightarrow> bool" where
  "hid_inv p \<longleftrightarrow> reports_ok (unat (Pos p)) p \<and> length (ReportDesc p) \<le> 834 \<and>
     (LocalCount p \<noteq> 0 \<longrightarrow> known_report p \<and> main_tag (Item p AND ITEM_MASK))"

lemma reports_ok_mono: "reports_ok n p \<Longrightarrow> n \<le> m \<Longrightarrow> reports_ok m p"
  unfolding reports_ok_def using budget_mono by blast

definition item_good :: "nat \<Rightarrow> HIDParser_t \<Rightarrow> step_result option \<Rightarrow> bool" where
  "item_good n p r \<longleftrightarrow>
     (\<exists>q. r = Some (Abort q)) \<or>
     (\<exists>q. r = Some (Go q) \<and> reports_ok n q \<and> LocalCount q = LocalCount p \<and>
        ReportDesc q = ReportDesc p \<and> unat (Pos p) \<le> unat (Pos q))"

lemma item_good_if:
  "(P \<Longrightarrow> item_good n p x) \<Longrightarrow> (\<not> P \<Longrightarrow> item_good n p y) \<Longrightarrow> item_good n p (if P then x else y)"
  by simp

lemma keeps_reports_good: "keeps_reports p r \<Longrightarrow> reports_ok n p \<Longrightarrow> n \<le> m \<Longrightarrow> item_good m p r"
  by (auto simp: keeps_reports_def reports_ok_def same_reports_def item_good_def intro: budget_mono)

lemma set_data_good:
  assumes "reports_ok n p" "n \<le> m" "\<And>d. Path (f d) = Path d" "\<And>d. ReportID (f d) = ReportID d"
  shows "item_good m p (set_data f p)"
  using assms(1,2) budget_mono [OF _ assms(2)]
  by (simp add: set_data_def item_good_def reports_ok_def hid_wf_def assms(3,4))

lemma budget_id:
  assumes "budget n rid tab"
  shows "budget (n + 2) rid1 tab" "budget n 0 tab"
proof -
  obtain ids where ids: "finite ids" "fst ` set (map report_key (in_use tab)) \<subseteq> ids"
      "2 * card ids + length (in_use tab) \<le> n"
    using assms unfolding budget_def by blast
  show "budget n 0 tab" using ids unfolding budget_def by blast
  have "card (insert rid1 ids) \<le> Suc (card ids)" by (rule card_insert_le_m1) (simp_all add: card_insert_if ids(1))
  then show "budget (n + 2) rid1 tab"
    unfolding budget_def using ids by (intro exI [of _ "insert rid1 ids"]) auto
qed

text \<open>An item that is no field leaves the reports as they are, or states a new identifier.\<close>

lemma other_item_good:
  assumes ok: "reports_ok n p" and tag: "\<not> main_tag (Item p AND ITEM_MASK)"
    and zero: "ItemSize ! unat (Item p AND SIZE_MASK) = 0 \<Longrightarrow> ItemValue p = 0"
    and pos: "unat (Pos p) < 65280"
  shows "item_good (n + 1 + ItemSize ! unat (Item p AND SIZE_MASK)) p (do_item p)"
proof -
  let ?m = "n + 1 + ItemSize ! unat (Item p AND SIZE_MASK)"
  have wf: "hid_wf p" using ok by (simp add: reports_ok_def)
  have same: "item_good ?m p (Some (Go q))" if "hid_wf q" "OffsetTab q = OffsetTab p" "Data q = Data p"
      "LocalCount q = LocalCount p" "ReportDesc q = ReportDesc p" "unat (Pos p) \<le> unat (Pos q)" for q
    using that ok by (auto simp: item_good_def reports_ok_def intro: budget_mono)
  have long: "unat (Pos p) \<le> unat (Pos p + ucast (b :: uint8))" for b
  proof -
    have b: "unat b < 256" using unsigned_less [of b] by simp
    moreover have "unat (ucast b :: uint16) = unat b" using b by (simp add: unsigned_ucast_eq take_bit_nat_eq_self)
    ultimately show ?thesis using pos by (simp add: unat_word_ariths)
  qed
  have rid: "item_good ?m p (set_data (\<lambda>d. d\<lparr>ReportID := ucast (ItemValue p)\<rparr>) p)"
  proof (cases "ItemSize ! unat (Item p AND SIZE_MASK) = 0")
    case True
    then show ?thesis using ok zero wf
      by (auto simp: set_data_def item_good_def reports_ok_def hid_wf_def intro: budget_mono budget_id)
  next
    case False
    have "budget ?m (ucast (ItemValue p)) (OffsetTab p)"
      by (rule budget_mono [OF budget_id(1)]) (use ok False in \<open>auto simp: reports_ok_def\<close>)
    then show ?thesis using ok wf by (auto simp: set_data_def item_good_def reports_ok_def hid_wf_def)
  qed
  have plain: "item_good ?m p (Some (Go p))" "item_good ?m p (Some (Go (p\<lparr>UPage := x\<rparr>)))"
    "item_good ?m p (Some (Go (p\<lparr>ReportCount := y\<rparr>)))"
    "item_good ?m p (Some (Go (p\<lparr>Pos := Pos p + ucast (b :: uint8)\<rparr>)))" for x y b
    by (rule same; use wf long in \<open>simp add: hid_wf_def\<close>)+
  note keep = keeps_reports_good [OF item_usage_keeps [OF wf] ok] keeps_reports_good [OF item_collection_keeps [OF wf] ok]
    keeps_reports_good [OF item_end_collection_keeps [OF wf] ok]
  show ?thesis
    unfolding do_item_def Let_def
    by (intro item_good_if;
        (rule rid plain | (rule set_data_good [OF ok]; simp add: item_unit_exp_def item_log_max_def Let_def)
         | (rule keep; simp) | (use tag in \<open>simp add: main_tag_def\<close>)))
qed

lemma hid_step_good:
  assumes inv: "hid_inv p" and more: "unat (Pos p) < length (ReportDesc p)"
  shows "(\<exists>q. hid_step p = Some (Abort q)) \<or>
    (\<exists>q. hid_step p = Some (Go q) \<and> hid_inv q \<and> ReportDesc q = ReportDesc p \<and> unat (Pos p) < unat (Pos q)) \<or>
    (\<exists>found d q. hid_step p = Some (Object found d q) \<and> hid_inv q \<and> ReportDesc q = ReportDesc p \<and>
       (unat (Pos p) < unat (Pos q) \<or> Pos q = Pos p \<and> unat (LocalCount q) < unat (LocalCount p)) \<and>
       (found = 0 \<or> found = 1))"
proof -
  have ok: "reports_ok (unat (Pos p)) p" and len: "length (ReportDesc p) \<le> 834" using inv by (simp_all add: hid_inv_def)
  have n: "unat (Pos p) < 834" using more len by simp
  show ?thesis
  proof (cases "LocalCount p = 0")
    case False
    then have kn: "known_report p" "main_tag (Item p AND ITEM_MASK)" using inv by (simp_all add: hid_inv_def)
    have step: "hid_step p = do_item p" using False by (simp add: hid_step_def fetch_item_def)
    have main: "do_item p = item_main p" using kn(2) by (auto simp: do_item_def Let_def main_tag_def hid_items)
    from item_main_keeps [OF ok n kn(2)] kn show ?thesis
      unfolding step main using False len unat_dec [OF False] unat_gt_0 [of "LocalCount p"]
      by (auto simp: hid_inv_def)
  next
    case True
    have "length (ReportDesc p) < 65280" using len by simp
    then consider "\<exists>q. fetch_item p = Some (Inl q)"
      | q where "fetch_item p = Some (Inr q)"
          "unat (Pos q) = unat (Pos p) + 1 + ItemSize ! unat (Item q AND SIZE_MASK)"
          "unat (Pos q) \<le> length (ReportDesc p)" "ItemSize ! unat (Item q AND SIZE_MASK) = 0 \<longrightarrow> ItemValue q = 0"
          "ReportDesc q = ReportDesc p" "LocalCount q = 0" "reports_ok (unat (Pos p)) q"
      using fetch_item_ok [OF more _ True] ok unfolding reports_ok_def by metis
    then show ?thesis
    proof cases
      case 1
      then show ?thesis by (auto simp: hid_step_def)
    next
      case (2 q)
      have step: "hid_step p = do_item q" using 2(1) by (simp add: hid_step_def)
      show ?thesis
      proof (cases "main_tag (Item q AND ITEM_MASK)")
        case True
        then have main: "do_item q = item_main q" by (auto simp: do_item_def Let_def main_tag_def hid_items)
        have after: "reports_ok (unat (Pos p) + 1) r \<Longrightarrow> reports_ok (unat (Pos q)) r" for r
          using reports_ok_mono 2(2) by auto
        from item_main_keeps [OF 2(7) n True] show ?thesis
          unfolding step main using True 2(2,5) len after by (auto simp: hid_inv_def)
      next
        case False
        have "unat (Pos q) < 65280" using 2(3) len by simp
        from other_item_good [OF 2(7) False _ this] 2(2,4) have "item_good (unat (Pos q)) q (do_item q)" by simp
        then show ?thesis
          unfolding step item_good_def hid_inv_def using 2(2,5,6) len reports_ok_mono by fastforce
      qed
    qed
  qed
qed

section \<open>The parser ends\<close>

lemma HIDParse_ends:
  "hid_inv p \<Longrightarrow> \<exists>r q. HIDParse p = Some (r, q) \<and>
    (r \<noteq> None \<longrightarrow> hid_inv q \<and> ReportDesc q = ReportDesc p \<and> (fst (the r) = 0 \<or> fst (the r) = 1) \<and>
      (unat (Pos p) < unat (Pos q) \<or> Pos q = Pos p \<and> unat (LocalCount q) < unat (LocalCount p)))"
proof (induction "length (ReportDesc p) - unat (Pos p)" arbitrary: p rule: less_induct)
  case less
  show ?case
  proof (cases "unat (Pos p) < length (ReportDesc p)")
    case False
    then show ?thesis by (subst HIDParse.simps) simp
  next
    case True
    from hid_step_good [OF less.prems True] show ?thesis
    proof (elim disjE exE conjE)
      fix q assume q: "hid_step p = Some (Go q)" "hid_inv q" "ReportDesc q = ReportDesc p" "unat (Pos p) < unat (Pos q)"
      then obtain r q1 where "HIDParse q = Some (r, q1)"
          "r \<noteq> None \<longrightarrow> hid_inv q1 \<and> ReportDesc q1 = ReportDesc q \<and> (fst (the r) = 0 \<or> fst (the r) = 1) \<and>
            (unat (Pos q) < unat (Pos q1) \<or> Pos q1 = Pos q \<and> unat (LocalCount q1) < unat (LocalCount q))"
        using less.hyps [of q] True by (metis diff_less_mono2)
      then show ?thesis using q True by (subst HIDParse.simps) auto
    qed (use True in \<open>subst HIDParse.simps, simp\<close>)+
  qed
qed

lemma parse_loop_ends:
  "hid_inv p \<Longrightarrow> \<exists>h1. parse_loop p h = Some h1"
proof (induction "(length (ReportDesc p) - unat (Pos p)) * 256 + unat (LocalCount p)" arbitrary: p h rule: less_induct)
  case less
  show ?case
  proof (cases "unat (Pos p) < length (ReportDesc p)")
    case False
    then have "HIDParse p = Some (None, p)" by (subst HIDParse.simps) simp
    then show ?thesis by (subst parse_loop.simps) simp
  next
  case True
  obtain r q where r: "HIDParse p = Some (r, q)"
    "r \<noteq> None \<longrightarrow> hid_inv q \<and> ReportDesc q = ReportDesc p \<and> (fst (the r) = 0 \<or> fst (the r) = 1) \<and>
      (unat (Pos p) < unat (Pos q) \<or> Pos q = Pos p \<and> unat (LocalCount q) < unat (LocalCount p))"
    using HIDParse_ends [OF less.prems] by blast
  show ?thesis
  proof (cases r)
    case None
    then show ?thesis using r(1) by (subst parse_loop.simps) simp
  next
    case (Some fd)
    have "(length (ReportDesc q) - unat (Pos q)) * 256 + unat (LocalCount q)
        < (length (ReportDesc p) - unat (Pos p)) * 256 + unat (LocalCount p)"
    proof -
      have "unat (LocalCount q) < 256" using unsigned_less [of "LocalCount q", where 'a = nat] by simp
      then show ?thesis using r(2) Some True by auto
    qed
    then have "\<exists>h1. parse_loop q h2 = Some h1" for h2 using less.hyps Some r(2) by simp
    then show ?thesis using r(1) Some by (subst parse_loop.simps) (auto split: prod.splits)
  qed
  qed
qed

lemma new_parser_inv: "length desc \<le> 834 \<Longrightarrow> hid_inv (new_parser desc)"
proof -
  have "in_use (replicate MAX_REPORT (0, 0, 0)) = []" by (simp add: in_use_def)
  then have "reports_ok 0 (new_parser desc)"
    unfolding reports_ok_def offsets_ok_def budget_def
    by (auto simp: new_parser_wf) (auto simp: new_parser_def blank_data_def intro!: exI [of _ "{}"])
  then show "length desc \<le> 834 \<Longrightarrow> hid_inv (new_parser desc)" by (simp add: hid_inv_def) (simp add: new_parser_def)
qed

text \<open>
  Property C21: whatever a device sends as its report descriptor, as long as it has at most 834
  bytes, the parser ends without reading or writing outside of the descriptor, the usage stack,
  the path, or the table of report offsets.
\<close>

theorem descriptor_parsed_safely:
  assumes "length desc \<le> 834"
  shows "\<exists>r. Parse_ReportDesc desc = Some r"
proof -
  obtain h where "parse_loop (new_parser desc) \<lparr>item = [], replen = replicate 256 0\<rparr> = Some h"
    using parse_loop_ends [OF new_parser_inv [OF assms]] by blast
  then show ?thesis by (simp add: Parse_ReportDesc_def)
qed

theorem descriptor_parsed_safely_witness:
  "\<exists>r. Parse_ReportDesc [0x05, 0x84, 0xA1, 1, 0xC0, 0xC0, 0xFE] = Some r"
  by (rule descriptor_parsed_safely) simp

end
