(* ===== verification/HidValue.thy ===== *)
theory HidValue
  imports HidParser
begin

text \<open>
  Values in a report: what is written into a field is read back from it, also negative
  numbers, and nothing else in the report changes.
\<close>

section \<open>The number of bits\<close>

lemma hibit_low_bounds:
  "r \<le> hibit_low x r \<and> x < 2 ^ (hibit_low x r - r) \<and> (\<forall>n. x < 2 ^ n \<longrightarrow> hibit_low x r \<le> r + n)"
proof (induction x r rule: hibit_low.induct)
  case (1 x r)
  show ?case
  proof (cases "x > 0")
    case True
    have eq: "hibit_low x r = hibit_low (x div 2) (r + 1)" using True by (subst hibit_low.simps) simp
    let ?h = "hibit_low (x div 2) (r + 1)"
    have IH: "r + 1 \<le> ?h" "x div 2 < 2 ^ (?h - (r + 1))" "\<And>n. x div 2 < 2 ^ n \<Longrightarrow> ?h \<le> r + 1 + n"
      using "1.IH" [OF True] by blast+
    have "x < 2 * 2 ^ (?h - (r + 1))" using IH(2) by linarith
    also have "\<dots> = 2 ^ (?h - r)" using IH(1) by (metis Suc_diff_le Suc_eq_plus1 diff_Suc_Suc power_Suc)
    finally have "x < 2 ^ (?h - r)" .
    moreover have "?h \<le> r + n" if "x < 2 ^ n" for n
    proof (cases n)
      case 0
      then show ?thesis using that True by simp
    next
      case (Suc k)
      then have "x div 2 < 2 ^ k" using that by simp
      then show ?thesis using IH(3) Suc by fastforce
    qed
    ultimately show ?thesis using IH(1) eq by simp
  next
    case False
    then show ?thesis by (subst (1 2 3) hibit_low.simps) simp
  qed
qed

lemma hibit_loop_bounds:
  "r \<le> hibit_loop x r \<and> x < 2 ^ (hibit_loop x r - r) \<and> (\<forall>n. x < 2 ^ n \<longrightarrow> hibit_loop x r \<le> r + n)"
proof (induction x r rule: hibit_loop.induct)
  case (1 x r)
  show ?case
  proof (cases "x > 0xff")
    case True
    have eq: "hibit_loop x r = hibit_loop (x div 256) (r + 8)" using True by (subst hibit_loop.simps) simp
    let ?h = "hibit_loop (x div 256) (r + 8)"
    have IH: "r + 8 \<le> ?h" "x div 256 < 2 ^ (?h - (r + 8))" "\<And>n. x div 256 < 2 ^ n \<Longrightarrow> ?h \<le> r + 8 + n"
      using "1.IH" [OF True] by blast+
    have "x < 2 ^ 8 * 2 ^ (?h - (r + 8))" using IH(2) by simp
    also have "\<dots> = 2 ^ (8 + (?h - (r + 8)))" by (simp only: power_add)
    also have "8 + (?h - (r + 8)) = ?h - r" using IH(1) by simp
    finally have "x < 2 ^ (?h - r)" .
    moreover have "?h \<le> r + n" if "x < 2 ^ n" for n
    proof -
      have n: "8 \<le> n"
      proof (rule ccontr)
        assume "\<not> 8 \<le> n"
        then have "(2::nat) ^ n \<le> 2 ^ 8" by (intro power_increasing) auto
        then have "n < 8 \<Longrightarrow> (2::nat) ^ n \<le> 2 ^ 7" by (intro power_increasing) auto
        then show False using that True \<open>\<not> 8 \<le> n\<close> by simp
      qed
      then have "(2::nat) ^ n = 2 ^ 8 * 2 ^ (n - 8)" by (metis le_add_diff_inverse n power_add)
      then have "x div 256 < 2 ^ (n - 8)" using that by (simp add: less_mult_imp_div_less mult.commute)
      then show ?thesis using IH(3) [of "n - 8"] n by simp
    qed
    ultimately show ?thesis using IH(1) eq by simp
  next
    case False
    then have "hibit_loop x r = hibit_low x r" by (subst hibit_loop.simps) simp
    then show ?thesis using hibit_low_bounds [of r x] by simp
  qed
qed

lemma hibit_bounds: "x < 2 ^ hibit x" "x < 2 ^ n \<Longrightarrow> hibit x \<le> n"
  using hibit_loop_bounds [of 0 x] by (auto simp: hibit_def)

section \<open>Single bits\<close>

lemma and_bit_iff: "(x AND push_bit k 1 \<noteq> 0) = bit x k" for x :: "'a :: len word"
  by (simp add: and_exp_eq_0_iff_not_bit)

lemma bit_at_eq: "bit_at buf b = (if b div 8 < length buf then Some (bit (buf ! (b div 8)) (b mod 8)) else None)"
  by (simp add: bit_at_def read_at_def and_exp_eq_0_iff_not_bit)

lemma same_place: "j div 8 = b div 8 \<Longrightarrow> j mod 8 = b mod 8 \<Longrightarrow> j = (b :: nat)"
  by (metis div_mult_mod_eq)

lemma bit_at_write:
  assumes "b div 8 < length buf"
  shows "bit_at (buf[b div 8 := (if s then buf ! (b div 8) OR push_bit (b mod 8) 1
      else buf ! (b div 8) AND NOT (push_bit (b mod 8) 1))]) j = (if j = b then Some s else bit_at buf j)"
proof (cases "j div 8 = b div 8")
  case True
  have "j mod 8 < 8" "b mod 8 < 8" by simp_all
  then show ?thesis using assms True same_place [OF True]
    by (auto simp: bit_at_eq bit_simps nth_list_update)
next
  case False
  then show ?thesis using assms by (auto simp: bit_at_eq nth_list_update)
qed

section \<open>Fields\<close>

lemma shift_one_bit: "w < 63 \<Longrightarrow> shift_one w = Some (push_bit w 1)"
  by (simp add: shift_one_def)

lemma read_bits_of:
  assumes "\<And>i. i < n \<Longrightarrow> bit_at buf (b + i) = Some (bit V (w + i))" "w + n \<le> 63"
  shows "read_bits buf n w b (take_bit w V) = Some (take_bit (w + n) V)"
  using assms
proof (induction n arbitrary: w b)
  case (Suc n)
  have v: "take_bit w V + (if bit V w then push_bit w 1 else 0) = take_bit (Suc w) V"
  proof -
    have "take_bit w V + (if bit V w then push_bit w 1 else 0) = take_bit w V OR (if bit V w then push_bit w 1 else 0)"
      by (rule disjunctive_add_eq_or, rule bit_word_eqI) (auto simp: bit_simps)
    also have "\<dots> = take_bit (Suc w) V" by (rule bit_word_eqI) (auto simp: bit_simps less_Suc_eq)
    finally show ?thesis .
  qed
  have "bit_at buf b = Some (bit V w)" using Suc.prems(1) [of 0] by simp
  moreover have "bit_at buf (Suc b + i) = Some (bit V (Suc w + i))" if "i < n" for i
    using Suc.prems(1) [of "Suc i"] that by simp
  then have "read_bits buf n (Suc w) (Suc b) (take_bit (Suc w) V) = Some (take_bit (Suc w + n) V)"
    using Suc.prems(2) by (intro Suc.IH) auto
  ultimately show ?case using v Suc.prems(2)
    by (cases "bit V w") (simp_all add: shift_one_def)
qed simp

lemma read_bits_total:
  "b + n \<le> 8 * length buf \<Longrightarrow> w + n \<le> 63 \<Longrightarrow> \<exists>x. read_bits buf n w b v = Some x"
proof (induction n arbitrary: w b v)
  case (Suc n)
  have "b div 8 < length buf" using Suc.prems(1) by (simp add: less_mult_imp_div_less)
  moreover have "\<exists>x. read_bits buf n (Suc w) (Suc b) v1 = Some x" for v1 using Suc.prems by (intro Suc.IH) auto
  ultimately show ?case using Suc.prems(2) by (simp add: bit_at_eq shift_one_def)
qed simp

lemma write_bits_ok:
  assumes "b + n \<le> 8 * length buf" "w + n \<le> 63"
  shows "\<exists>buf1. write_bits n w b V buf = Some buf1 \<and> length buf1 = length buf \<and>
    (\<forall>j. bit_at buf1 j = (if b \<le> j \<and> j < b + n then Some (bit V (w + (j - b))) else bit_at buf j))"
  using assms
proof (induction n arbitrary: w b buf)
  case (Suc n)
  have pos: "b div 8 < length buf" using Suc.prems(1) by (simp add: less_mult_imp_div_less)
  define buf0 where "buf0 = buf[b div 8 := (if bit V w then buf ! (b div 8) OR push_bit (b mod 8) 1
      else buf ! (b div 8) AND NOT (push_bit (b mod 8) 1))]"
  have at: "bit_at buf0 j = (if j = b then Some (bit V w) else bit_at buf j)" for j
    unfolding buf0_def by (rule bit_at_write [OF pos])
  obtain buf1 where b1: "write_bits n (Suc w) (Suc b) V buf0 = Some buf1" "length buf1 = length buf0"
    "\<And>j. bit_at buf1 j = (if Suc b \<le> j \<and> j < Suc b + n then Some (bit V (Suc w + (j - Suc b))) else bit_at buf0 j)"
    using Suc.IH [of "Suc b" buf0 "Suc w"] Suc.prems by (auto simp: buf0_def)
  have "write_bits (Suc n) w b V buf = Some buf1"
    using b1(1) pos Suc.prems(2)
    by (simp add: shift_one_def read_at_def write_at_def buf0_def and_exp_eq_0_iff_not_bit)
  moreover have "bit_at buf1 j = (if b \<le> j \<and> j < b + Suc n then Some (bit V (w + (j - b))) else bit_at buf j)" for j
  proof (cases "Suc b \<le> j")
    case True
    then have "Suc w + (j - Suc b) = w + (j - b)" by simp
    then show ?thesis unfolding b1(3) at using True by (simp del: add_Suc)
  qed (auto simp: b1(3) at)
  ultimately show ?case using b1(2) by (simp add: buf0_def)
qed auto

lemma bits_agree:
  assumes "\<And>i. i < n \<Longrightarrow> bit_at buf1 (b + i) = bit_at buf (b + i)"
  shows "read_bits buf1 n w b v = read_bits buf n w b v"
  using assms
proof (induction n arbitrary: w b v)
  case (Suc n)
  have "bit_at buf1 b = bit_at buf b" using Suc.prems [of 0] by simp
  moreover have "read_bits buf1 n (Suc w) (Suc b) = read_bits buf n (Suc w) (Suc b)"
    using Suc.prems [of "Suc _"] by (intro ext Suc.IH) simp
  ultimately show ?case by simp
qed simp

section \<open>Sign\<close>

definition field_bits :: "HIDData_t \<Rightarrow> nat" where
  "field_bits d = hibit (max (magnitude (LogMax d)) (magnitude (LogMin d)))"

definition logs_ok :: "HIDData_t \<Rightarrow> bool" where
  "logs_ok d \<longleftrightarrow> - (2 ^ 31) \<le> LogMin d \<and> LogMin d < 2 ^ 32 \<and> - (2 ^ 31) \<le> LogMax d \<and> LogMax d < 2 ^ 32"

lemma magnitude_bound: "- (2 ^ 31) \<le> l \<Longrightarrow> l < 2 ^ 32 \<Longrightarrow> magnitude l < 2 ^ 32"
  by (auto simp: magnitude_def)

lemma field_bits_bound:
  assumes "logs_ok d"
  shows "field_bits d \<le> 32"
proof -
  have "magnitude (LogMax d) < 2 ^ 32" "magnitude (LogMin d) < 2 ^ 32"
    using assms magnitude_bound unfolding logs_ok_def by blast+
  then show ?thesis unfolding field_bits_def by (intro hibit_bounds(2)) (simp only: max_less_iff_conj)
qed

lemma magnitude_covers:
  assumes "magnitude l < 2 ^ h"
  shows "l < 2 ^ h" "- (2 ^ h) \<le> l"
proof -
  have "int (magnitude l) < 2 ^ h" using assms by (metis of_nat_less_iff of_nat_numeral of_nat_power)
  then show "l < 2 ^ h" "- (2 ^ h) \<le> l" by (auto simp: magnitude_def split: if_splits)
qed

lemma field_bits_covers:
  assumes "LogMin d \<le> v" "v \<le> LogMax d"
  shows "v < 2 ^ field_bits d" "- (2 ^ field_bits d) \<le> v"
proof -
  have m: "max (magnitude (LogMax d)) (magnitude (LogMin d)) < 2 ^ field_bits d"
    unfolding field_bits_def by (rule hibit_bounds(1))
  show "v < 2 ^ field_bits d" using magnitude_covers(1) [of "LogMax d"] m assms(2) by (meson le_less_trans max_less_iff_conj)
  show "- (2 ^ field_bits d) \<le> v" using magnitude_covers(2) [of "LogMin d"] m assms(1) by (meson order_trans max_less_iff_conj)
qed

lemma mask_parts: "(push_bit h 1 - 1) OR (if neg then push_bit h 1 else 0) = mask (if neg then Suc h else h)"
  for h :: nat
  by (rule bit_eqI) (auto simp: bit_simps less_Suc_eq simp flip: mask_eq_exp_minus_1)

lemma sign_extended:
  fixes V :: "64 word"
  assumes "(if neg then Suc h else h) \<le> n" "n \<le> 63"
  shows "(let v1 = take_bit n V AND mask (if neg then Suc h else h) in
     if neg \<and> v1 AND push_bit h 1 \<noteq> 0 then v1 OR NOT (mask (if neg then Suc h else h)) else v1) =
     (if neg then signed_take_bit h V else take_bit h V)"
  using assms
  by (auto simp: Let_def and_exp_eq_0_iff_not_bit bit_simps min_def less_Suc_eq intro!: bit_word_eqI split: if_splits)

text \<open>What is read from a report depends on the bits of the field alone.\<close>

lemma GetValue_of_bits:
  assumes bits: "\<And>i. i < unat (DataSize d) \<Longrightarrow> bit_at buf (unat (Offset d) + 8 + i) = Some (bit (word_of_int v :: 64 word) i)"
    and wide: "if LogMin d < 0 then field_bits d < unat (DataSize d) else v < 2 ^ unat (DataSize d)"
    and narrow: "unat (DataSize d) \<le> 63"
    and logs: "logs_ok d" and range: "LogMin d \<le> v" "v \<le> LogMax d"
  shows "GetValue buf d = Some v"
proof -
  define V :: "64 word" where "V = word_of_int v"
  define h n neg where "h = field_bits d" and "n = unat (DataSize d)" and "neg \<longleftrightarrow> LogMin d < 0"
  have h: "h \<le> 32" "v < 2 ^ h" "- (2 ^ h) \<le> v"
    using field_bits_bound [OF logs] field_bits_covers [OF range] by (simp_all add: h_def)
  have "(2::int) ^ h \<le> 2 ^ 32" using h(1) by (intro power_increasing) auto
  then have "signed_take_bit 63 v = v" using h(2,3) by (intro signed_take_bit_int_eq_self) simp_all
  then have sint: "sint V = v" by (simp add: V_def signed_of_int)
  have rd: "read_bits buf n 0 (unat (Offset d) + 8) 0 = Some (take_bit n V)"
    using read_bits_of [of n buf "unat (Offset d) + 8" V 0] bits narrow by (simp add: V_def n_def)
  have mask: "(push_bit h 1 - 1) OR (if neg then push_bit h 1 else 0) = (mask (if neg then Suc h else h) :: 64 word)"
    by (rule mask_parts)
  have sh: "shift_one (hibit (max (magnitude (LogMax d)) (magnitude (LogMin d)))) = Some (push_bit h 1)"
    using h(1) shift_one_bit by (simp add: h_def field_bits_def)
  have start: "GetValue buf d = Some (let v2 = (let v1 = take_bit n V AND mask (if neg then Suc h else h) in
       if neg \<and> v1 AND push_bit h 1 \<noteq> 0 then v1 OR NOT (mask (if neg then Suc h else h)) else v1)
     in if sint v2 < LogMin d then LogMin d else if sint v2 > LogMax d then LogMax d else sint v2)"
    by (simp only: GetValue_def rd [unfolded n_def] sh bind.bind_lunit Let_def mask [unfolded neg_def] neg_def n_def)
  have "sint (let v1 = take_bit n V AND mask (if neg then Suc h else h) in
       if neg \<and> v1 AND push_bit h 1 \<noteq> 0 then v1 OR NOT (mask (if neg then Suc h else h)) else v1) = v"
  proof (cases neg)
    case True
    then have "Suc h \<le> n" using wide by (simp add: neg_def h_def n_def)
    moreover have "signed_take_bit h V = V"
    proof -
      have kept: "signed_take_bit h v = v" by (rule signed_take_bit_int_eq_self) (use h in simp_all)
      have "bit v (min h i) = bit v i" for i
        using arg_cong [OF kept, of "\<lambda>x. bit x i"] by (simp add: bit_signed_take_bit_iff min.commute)
      then show ?thesis by (intro bit_word_eqI) (auto simp: V_def bit_simps min_def split: if_splits)
    qed
    ultimately show ?thesis using sign_extended [of neg h n V] True narrow sint by (simp add: n_def)
  next
    case False
    have small: "bit v i \<Longrightarrow> i < m" if "v < 2 ^ m" for m i
    proof -
      have "take_bit m v = v" by (rule take_bit_int_eq_self) (use False range(1) that in \<open>auto simp: neg_def\<close>)
      then show "bit v i \<Longrightarrow> i < m" by (metis bit_take_bit_iff)
    qed
    have "v < 2 ^ n" using wide False by (simp add: neg_def n_def)
    then have "take_bit n V AND mask h = V"
      using small [of n] small [OF h(2)] by (intro bit_word_eqI) (auto simp: V_def bit_simps)
    then show ?thesis using False sint by (simp add: Let_def)
  qed
  then show ?thesis using range by (simp add: start Let_def)
qed

lemma SetValue_bits:
  assumes "unat (Offset d) + 8 + unat (DataSize d) \<le> 8 * length buf" "unat (DataSize d) \<le> 63"
  obtains buf1 where "SetValue d buf v = Some buf1" "length buf1 = length buf"
    "\<And>i. i < unat (DataSize d) \<Longrightarrow> bit_at buf1 (unat (Offset d) + 8 + i) = Some (bit (word_of_int v :: 64 word) i)"
    "\<And>j. j < unat (Offset d) + 8 \<or> unat (Offset d) + 8 + unat (DataSize d) \<le> j \<Longrightarrow> bit_at buf1 j = bit_at buf j"
proof -
  obtain buf1 where b: "SetValue d buf v = Some buf1" "length buf1 = length buf"
    "\<forall>j. bit_at buf1 j = (if unat (Offset d) + 8 \<le> j \<and> j < unat (Offset d) + 8 + unat (DataSize d)
      then Some (bit (word_of_int v :: 64 word) (0 + (j - (unat (Offset d) + 8)))) else bit_at buf j)"
    using write_bits_ok [of "unat (Offset d) + 8" "unat (DataSize d)" buf 0 "word_of_int v"] assms
    unfolding SetValue_def by auto
  show thesis by (rule that [OF b(1,2)]) (use b(3) in auto)
qed

text \<open>
  A value within the limits of an item that is written into a report is read back
  from it, negative numbers included, when the field is wide enough for the limits; no bit
  outside of the field changes.
\<close>

lemma value_kept:
  assumes room: "unat (Offset d) + 8 + unat (DataSize d) \<le> 8 * length buf"
    and wide: "if LogMin d < 0 then field_bits d < unat (DataSize d) else v < 2 ^ unat (DataSize d)"
    and narrow: "unat (DataSize d) \<le> 63"
    and logs: "logs_ok d" and range: "LogMin d \<le> v" "v \<le> LogMax d"
  shows "\<exists>buf1. SetValue d buf v = Some buf1 \<and> GetValue buf1 d = Some v \<and> length buf1 = length buf \<and>
    (\<forall>j. j < unat (Offset d) + 8 \<or> unat (Offset d) + 8 + unat (DataSize d) \<le> j \<longrightarrow> bit_at buf1 j = bit_at buf j)"
proof -
  obtain buf1 where b: "SetValue d buf v = Some buf1" "length buf1 = length buf"
    "\<And>i. i < unat (DataSize d) \<Longrightarrow> bit_at buf1 (unat (Offset d) + 8 + i) = Some (bit (word_of_int v :: 64 word) i)"
    "\<And>j. j < unat (Offset d) + 8 \<or> unat (Offset d) + 8 + unat (DataSize d) \<le> j \<Longrightarrow> bit_at buf1 j = bit_at buf j"
    using SetValue_bits [OF room narrow] by metis
  then show ?thesis using GetValue_of_bits [OF b(3) wide narrow logs range] by blast
qed

text \<open>A value of another field of the report is what it was.\<close>

lemma other_value_kept:
  assumes "SetValue d buf v = Some buf1" "unat (Offset d) + 8 + unat (DataSize d) \<le> 8 * length buf" "unat (DataSize d) \<le> 63"
    and "unat (Offset e) + unat (DataSize e) \<le> unat (Offset d) \<or> unat (Offset d) + unat (DataSize d) \<le> unat (Offset e)"
  shows "GetValue buf1 e = GetValue buf e"
proof -
  obtain buf2 where b: "SetValue d buf v = Some buf2"
    "\<And>j. j < unat (Offset d) + 8 \<or> unat (Offset d) + 8 + unat (DataSize d) \<le> j \<Longrightarrow> bit_at buf2 j = bit_at buf j"
    using SetValue_bits [OF assms(2,3)] by metis
  have "bit_at buf1 (unat (Offset e) + 8 + i) = bit_at buf (unat (Offset e) + 8 + i)" if "i < unat (DataSize e)" for i
  proof -
    have "unat (Offset e) + 8 + i < unat (Offset d) + 8 \<or> unat (Offset d) + 8 + unat (DataSize d) \<le> unat (Offset e) + 8 + i"
      using assms(4) that by linarith
    then show ?thesis using b(2) b(1) assms(1) by auto
  qed
  then have "read_bits buf1 (unat (DataSize e)) 0 (unat (Offset e) + 8) 0 = read_bits buf (unat (DataSize e)) 0 (unat (Offset e) + 8) 0"
    by (rule bits_agree)
  then show ?thesis by (simp only: GetValue_def)
qed

end
