(* ===== verification/HidSpec.thy ===== *)
theory HidSpec
  imports HidSafe HidValue
begin

text \<open>
  What a parsed report descriptor means: every item lies within the length stated for its
  report, so its value can be read from and written to a buffer of that length; a device that
  describes its fields gets exactly these fields, one behind the other.
\<close>

section \<open>Limits of the values\<close>

definition step_logs :: "step_result \<Rightarrow> bool" where
  "step_logs s \<longleftrightarrow> (case s of Go q \<Rightarrow> logs_ok (Data q) | Object found d q \<Rightarrow> logs_ok d \<and> logs_ok (Data q) | Abort q \<Rightarrow> True)"

lemma sint_range: "- (2 ^ 31) \<le> sint (x :: 32 word)" "sint x < 2 ^ 31"
  using sint_ge [of x] sint_lt [of x] by simp_all

lemma uint_pos: "0 \<le> uint (x :: 32 word)" "- y \<le> uint x" if "0 \<le> y"
proof -
  show "0 \<le> uint x" by simp
  then show "- y \<le> uint x" using that by linarith
qed

lemma FormatValue_range: "- (2 ^ 31) \<le> FormatValue v n" "FormatValue v n < 2 ^ 32"
  using sint_range [of v] sint_ge [of "ucast v :: 8 word"] sint_lt [of "ucast v :: 8 word"]
    sint_ge [of "ucast v :: 16 word"] sint_lt [of "ucast v :: 16 word"] uint_bounded [of v] uint_pos(2) [of "2 ^ 31" v]
  by (auto simp: FormatValue_def)

lemma logs_ok_frame [simp]:
  "logs_ok (d\<lparr>Path := x\<rparr>) = logs_ok d" "logs_ok (d\<lparr>ReportID := r\<rparr>) = logs_ok d" "logs_ok (d\<lparr>Offset := r\<rparr>) = logs_ok d"
  "logs_ok (d\<lparr>DataSize := r\<rparr>) = logs_ok d" "logs_ok (d\<lparr>DataType := r\<rparr>) = logs_ok d" "logs_ok (d\<lparr>Attribute := r\<rparr>) = logs_ok d"
  "logs_ok (d\<lparr>Unit := i\<rparr>) = logs_ok d" "logs_ok (d\<lparr>UnitExp := r\<rparr>) = logs_ok d" "logs_ok (d\<lparr>PhyMin := i\<rparr>) = logs_ok d"
  "logs_ok (d\<lparr>PhyMax := i\<rparr>) = logs_ok d" "logs_ok (d\<lparr>have_PhyMin := b\<rparr>) = logs_ok d" "logs_ok (d\<lparr>have_PhyMax := b\<rparr>) = logs_ok d"
  by (simp_all add: logs_ok_def)

lemma push_node_logs: "push_node v p = Some q \<Longrightarrow> logs_ok (Data q) = logs_ok (Data p)"
  by (auto simp: push_node_def split: Option.bind_splits)

lemma drop_usage_data: "drop_usage p = Some q \<Longrightarrow> Data q = Data p"
  by (auto simp: drop_usage_def split: Option.bind_splits if_splits)

lemma set_path_logs [simp]: "logs_ok (Data (set_path_size n p)) = logs_ok (Data p)"
  by (simp add: set_path_size_def)

lemma logs_main: "item_main p = Some s \<Longrightarrow> logs_ok (Data p) \<Longrightarrow> step_logs s"
  by (auto simp: item_main_def Let_def step_logs_def dest!: push_node_logs drop_usage_data
      split: Option.bind_splits if_splits prod.splits)

lemma logs_collection: "item_collection p = Some s \<Longrightarrow> logs_ok (Data p) \<Longrightarrow> step_logs s"
  by (auto simp: item_collection_def step_logs_def dest!: push_node_logs drop_usage_data
      split: Option.bind_splits if_splits)

lemma logs_end_collection: "item_end_collection p = Some s \<Longrightarrow> logs_ok (Data p) \<Longrightarrow> step_logs s"
  by (auto simp: item_end_collection_def Let_def step_logs_def split: Option.bind_splits if_splits)

lemma logs_usage: "item_usage p = Some s \<Longrightarrow> logs_ok (Data p) \<Longrightarrow> step_logs s"
  by (auto simp: item_usage_def step_logs_def split: Option.bind_splits if_splits)

lemma logs_data: "set_data f p = Some s \<Longrightarrow> logs_ok (f (Data p)) \<Longrightarrow> step_logs s"
  by (auto simp: set_data_def step_logs_def)

lemma logs_log_max: "logs_ok d \<Longrightarrow> logs_ok (item_log_max v n d)"
  using FormatValue_range [of v n] uint_bounded [of v] uint_pos(2) [of "2 ^ 31" v] by (auto simp: item_log_max_def Let_def logs_ok_def)

lemma logs_log_min: "logs_ok d \<Longrightarrow> logs_ok (d\<lparr>LogMin := FormatValue v n\<rparr>)"
  using FormatValue_range [of v n] by (auto simp: logs_ok_def)

definition all_logs :: "step_result option \<Rightarrow> bool" where
  "all_logs r \<longleftrightarrow> (\<forall>s. r = Some s \<longrightarrow> step_logs s)"

lemma all_logs_if: "(P \<Longrightarrow> all_logs x) \<Longrightarrow> (\<not> P \<Longrightarrow> all_logs y) \<Longrightarrow> all_logs (if P then x else y)"
  by simp

lemma logs_item:
  assumes ok: "logs_ok (Data p)"
  shows "all_logs (do_item p)"
proof -
  have go: "all_logs (Some (Go q))" if "Data q = Data p" for q
    using that ok by (simp add: all_logs_def step_logs_def)
  have dat: "all_logs (set_data f p)" if "logs_ok (f (Data p))" for f
    using that logs_data by (auto simp: all_logs_def)
  show ?thesis
    unfolding do_item_def Let_def
    by (intro all_logs_if;
        ((rule go; simp) | (rule dat; simp add: ok logs_log_max logs_log_min item_unit_exp_def Let_def)
         | (use ok logs_main logs_collection logs_end_collection logs_usage in \<open>auto simp: all_logs_def\<close>)))
qed

lemma logs_step: "hid_step p = Some s \<Longrightarrow> logs_ok (Data p) \<Longrightarrow> step_logs s"
proof -
  assume s: "hid_step p = Some s" and ok: "logs_ok (Data p)"
  obtain f where f: "fetch_item p = Some f" "(case f of Inl q \<Rightarrow> Some (Abort q) | Inr q \<Rightarrow> do_item q) = Some s"
    using s by (auto simp: hid_step_def split: Option.bind_splits)
  show ?thesis
  proof (cases f)
    case (Inl q)
    then show ?thesis using f(2) by (auto simp: step_logs_def)
  next
    case (Inr q)
    have "Data q = Data p" using f(1) Inr
      by (auto simp: fetch_item_def Let_def split: Option.bind_splits if_splits)
    then show ?thesis using logs_item [of q] ok f(2) Inr by (simp add: all_logs_def)
  qed
qed

lemma logs_HIDParse: "HIDParse p = Some y \<Longrightarrow> logs_ok (Data p) \<Longrightarrow>
    (\<forall>fd. fst y = Some fd \<longrightarrow> logs_ok (snd fd) \<and> logs_ok (Data (snd y)))"
proof (induction p y rule: HIDParse.raw_induct [rotated, consumes 1, case_names 1])
  case (1 parse p y)
  show ?case
  proof (cases "unat (Pos p) < length (ReportDesc p)")
    case True
    then obtain s where s: "hid_step p = Some s" "(case s of Go p1 \<Rightarrow> parse p1
        | Object found d p1 \<Rightarrow> Some (Some (found, d), p1) | Abort p1 \<Rightarrow> Some (None, p1)) = Some y"
      using 1(2) by (auto split: Option.bind_splits)
    have "step_logs s" by (rule logs_step [OF s(1) \<open>logs_ok (Data p)\<close>])
    then show ?thesis using s(2) 1(1) by (cases s) (auto simp: step_logs_def)
  next
    case False
    then show ?thesis using 1(2) by auto
  qed
qed

section \<open>The length of a report\<close>

definition desc_fits :: "HIDDesc_t \<Rightarrow> bool" where
  "desc_fits h \<longleftrightarrow> length (replen h) = 256 \<and> length (item h) \<le> MAX_REPORT \<and> (\<forall>n\<in>set (replen h). n \<le> 64) \<and>
     (\<forall>d\<in>set (item h). unat (Offset d) + unat (DataSize d) \<le> 8 * replen h ! unat (ReportID d) \<and> logs_ok d)"

lemma uint8_less: "unat (x :: uint8) < 256"
  using unsigned_less [of x, where 'a = nat] by simp

lemma add_object_fits:
  assumes "desc_fits h" "logs_ok d" "length (item h) < MAX_REPORT"
  shows "desc_fits (add_object found d h)"
proof -
  let ?max = "(unat (Offset d) + unat (DataSize d) + 7) div 8"
  define rl where "rl = (if ?max > replen h ! unat (ReportID d) then (replen h)[unat (ReportID d) := ?max] else replen h)"
  have len: "length (replen h) = 256" using assms(1) by (simp add: desc_fits_def)
  have more: "replen h ! unat i \<le> rl ! unat i" for i :: uint8
    using len uint8_less [of i] unfolding rl_def by (cases "unat i = unat (ReportID d)") (auto simp: nth_list_update)
  have "unat (Offset d) + unat (DataSize d) \<le> 8 * rl ! unat (ReportID d)"
    using len uint8_less [of "ReportID d"] unfolding rl_def by (auto simp: not_less)
  moreover have "unat (Offset e) + unat (DataSize e) \<le> 8 * rl ! unat (ReportID e) \<and> logs_ok e" if "e \<in> set (item h)" for e
    using that assms(1) more [of "ReportID e"] unfolding desc_fits_def by (meson mult_le_mono2 order_trans)
  moreover have "\<forall>n\<in>set rl. n \<le> 64"
  proof -
    have m: "?max \<le> 64" using uint8_less [of "Offset d"] uint8_less [of "DataSize d"] by linarith
    have "set ((replen h)[unat (ReportID d) := ?max]) \<subseteq> insert ?max (set (replen h))" by (rule set_update_subset_insert)
    then show ?thesis using assms(1) m unfolding rl_def desc_fits_def by (auto dest!: subsetD)
  qed
  moreover have "replen (add_object found d h) = rl" "length rl = 256"
    "item (add_object found d h) = item h @ (if found = 1 then [d] else [])"
    using len by (simp_all add: add_object_def Let_def rl_def)
  ultimately show ?thesis using assms by (auto simp: desc_fits_def)
qed

lemma parse_loop_fits: "parse_loop p h = Some h1 \<Longrightarrow> logs_ok (Data p) \<Longrightarrow> desc_fits h \<Longrightarrow> desc_fits h1"
proof (induction p h h1 rule: parse_loop.raw_induct [rotated, consumes 1, case_names 1])
  case (1 parse p h h1)
  show ?case
  proof (cases "length (item h) < MAX_REPORT")
    case True
    then obtain r q where r: "HIDParse p = Some (r, q)"
        "(case (r, q) of (None, p1) \<Rightarrow> Some h | (Some (found, d), p1) \<Rightarrow> parse p1 (add_object found d h)) = Some h1"
      using 1(2) by (auto split: Option.bind_splits)
    show ?thesis
    proof (cases r)
      case None
      then show ?thesis using r(2) \<open>desc_fits h\<close> by simp
    next
      case (Some fd)
      then have "logs_ok (snd fd)" "logs_ok (Data q)" using logs_HIDParse [OF r(1) \<open>logs_ok (Data p)\<close>] by simp_all
      then show ?thesis using r(2) Some 1(1) add_object_fits [OF \<open>desc_fits h\<close> _ True] by (cases fd) auto
    qed
  next
    case False
    then show ?thesis using 1(2) \<open>desc_fits h\<close> by simp
  qed
qed

lemma parsed_fits:
  assumes "Parse_ReportDesc desc = Some (Some h)"
  shows "desc_fits h"
proof -
  have "logs_ok (Data (new_parser desc))" by (simp add: new_parser_def blank_data_def logs_ok_def)
  then show ?thesis
    using assms parse_loop_fits [of "new_parser desc" "\<lparr>item = [], replen = replicate 256 0\<rparr>"]
    by (auto simp: Parse_ReportDesc_def desc_fits_def split: Option.bind_splits if_splits)
qed

text \<open>
  The value of an item of at most 63 bits can be read from a report of the length that the
  parser states, and lies within the limits of the item; it can be written there, too.
\<close>

lemma item_in_report:
  assumes h: "desc_fits h" and d: "d \<in> set (item h)"
    and buf: "replen h ! unat (ReportID d) < length buf" and narrow: "unat (DataSize d) \<le> 63"
  shows "\<exists>v. GetValue buf d = Some v \<and> (LogMin d \<le> LogMax d \<longrightarrow> LogMin d \<le> v \<and> v \<le> LogMax d)"
    and "\<exists>buf1. SetValue d buf x = Some buf1 \<and> length buf1 = length buf"
    and "unat (Offset d) + 8 + unat (DataSize d) \<le> 8 * length buf"
proof -
  have fit: "unat (Offset d) + unat (DataSize d) \<le> 8 * replen h ! unat (ReportID d)" and logs: "logs_ok d"
    using h d by (auto simp: desc_fits_def)
  show room: "unat (Offset d) + 8 + unat (DataSize d) \<le> 8 * length buf" using fit buf by linarith
  obtain x0 where "read_bits buf (unat (DataSize d)) 0 (unat (Offset d) + 8) 0 = Some x0"
    using read_bits_total [of "unat (Offset d) + 8" "unat (DataSize d)" buf 0 0] room narrow by auto
  moreover have "shift_one (field_bits d) = Some (push_bit (field_bits d) 1)"
    using field_bits_bound [OF logs] by (simp add: shift_one_def)
  ultimately show "\<exists>v. GetValue buf d = Some v \<and> (LogMin d \<le> LogMax d \<longrightarrow> LogMin d \<le> v \<and> v \<le> LogMax d)"
    by (simp add: GetValue_def Let_def flip: field_bits_def)
  show "\<exists>buf1. SetValue d buf x = Some buf1 \<and> length buf1 = length buf"
    using SetValue_bits [OF room narrow, of x] by metis
qed

end
