(* ===== verification/HidDescribe.thy ===== *)
theory HidDescribe
  imports HidSpec
begin

text \<open>
  Descriptors that state their fields one by one are parsed into exactly these fields: each
  with its path and its report, behind the earlier fields of the same report and type.
\<close>

section \<open>Offsets as a map\<close>

definition offsets :: "(uint8 \<times> uint8 \<times> uint8) list \<Rightarrow> uint8 \<times> uint8 \<Rightarrow> uint8 option" where
  "offsets tab = map_of (map (\<lambda>e. (report_key e, snd (snd e))) (in_use tab))"

lemma map_of_list_update:
  "k < length xs \<Longrightarrow> distinct (map fst xs) \<Longrightarrow> map_of (xs[k := (fst (xs ! k), v)]) = (map_of xs)(fst (xs ! k) \<mapsto> v)"
proof (induction xs arbitrary: k)
  case (Cons x xs)
  show ?case
  proof (cases k)
    case 0
    then show ?thesis by (cases x) (auto simp: fun_eq_iff)
  next
    case (Suc j)
    then have "fst (xs ! j) \<noteq> fst x" using Cons.prems by (auto simp: image_iff) (metis nth_mem)
    then show ?thesis using Suc Cons by (cases x) (auto simp: fun_upd_twist)
  qed
qed simp

lemma offsets_known:
  assumes ok: "offsets_ok tab" and x: "offsets tab (rid, ty) = Some x"
  obtains k where "GetReportOffset rid ty tab = Some (k, tab)" "k < length tab" "snd (snd (tab ! k)) = x"
    "offsets_ok (add_bits n k tab)" "offsets (add_bits n k tab) = (offsets tab)((rid, ty) \<mapsto> x + n)"
    "length (in_use (add_bits n k tab)) = length (in_use tab)"
proof -
  obtain free where f: "tab = in_use tab @ free" "\<forall>e\<in>set free. fst e = 0" "\<forall>e\<in>set (in_use tab). fst e \<noteq> 0"
    "distinct (map report_key (in_use tab))" "\<forall>e\<in>set (in_use tab). main_tag (fst (snd e))"
    using table_parts [OF ok] by blast
  define used where "used = in_use tab"
  let ?xs = "map (\<lambda>e. (report_key e, snd (snd e))) used"
  have kn: "(rid, ty) \<in> set (map report_key used)"
    using x unfolding offsets_def used_def by (force dest!: map_of_SomeD)
  obtain k where k: "k < length used" "GetReportOffset rid ty tab = Some (k, tab)" "report_key (used ! k) = (rid, ty)"
    using GetReportOffset_known [of rid ty used free] kn f(1,3) unfolding used_def by metis
  have dis: "distinct (map fst ?xs)" using f(4) by (simp add: used_def comp_def)
  have at: "?xs ! k = ((rid, ty), snd (snd (used ! k)))" using k(1,3) by simp
  have "map_of ?xs (rid, ty) = Some (snd (snd (used ! k)))"
  proof (rule map_of_is_SomeI [OF dis])
    have "?xs ! k \<in> set ?xs" using k(1) by (intro nth_mem) simp
    then show "((rid, ty), snd (snd (used ! k))) \<in> set ?xs" unfolding at .
  qed
  then have xk: "snd (snd (used ! k)) = x" using x by (simp add: offsets_def used_def)
  have tk: "tab ! k = used ! k" using f(1) k(1) by (metis nth_append used_def)
  let ?u = "add_bits n k used"
  have keys: "map report_key ?u = map report_key used" by (rule add_bits_keys [OF k(1)])
  have nz: "\<forall>e\<in>set ?u. fst e \<noteq> 0" using f(3) unfolding used_def [symmetric] keys_nonzero keys .
  have ty: "\<forall>e\<in>set ?u. main_tag (fst (snd e))" using f(5) unfolding used_def [symmetric] keys_types keys .
  have eq: "add_bits n k tab = ?u @ free" using add_bits_used [OF k(1), of n free] f(1) by (simp add: used_def)
  have fin: "offsets_ok (add_bits n k tab)" "in_use (add_bits n k tab) = ?u"
    unfolding eq using offsets_okI [OF nz _ ty f(2)] f(4) keys by (simp_all add: used_def)
  have "map (\<lambda>e. (report_key e, snd (snd e))) ?u = ?xs[k := (fst (?xs ! k), x + n)]"
    using k(1) xk by (simp add: add_bits_def map_update report_key_def)
  then have "offsets (add_bits n k tab) = (map_of ?xs)(fst (?xs ! k) \<mapsto> x + n)"
    using map_of_list_update [OF _ dis, of k] k(1) fin(2) by (simp add: offsets_def)
  moreover have "k < length tab" using k(1) f(1) by (metis length_append trans_less_add1 used_def)
  moreover have "length ?u = length (in_use tab)" by (simp add: add_bits_def used_def)
  ultimately show thesis using that [OF k(2) _ _ fin(1)] xk tk k(1) at fin(2) by (simp add: offsets_def used_def)
qed

lemma add_last: "m k = None \<Longrightarrow> [k \<mapsto> n] ++ m = m(k \<mapsto> n)"
  by (rule ext) (auto simp: map_add_def split: option.splits)

lemma offsets_fresh:
  assumes ok: "offsets_ok tab" and x: "offsets tab (rid, ty) = None" and rid: "rid \<noteq> 0"
    and room: "length (in_use tab) < length tab" and ty: "main_tag ty"
  obtains k tab1 where "GetReportOffset rid ty tab = Some (k, tab1)" "k < length tab1" "length tab1 = length tab"
    "snd (snd (tab1 ! k)) = 0" "GetReportOffset rid ty tab1 = Some (k, tab1)" "offsets_ok (add_bits n k tab1)"
    "offsets (add_bits n k tab1) = (offsets tab)((rid, ty) \<mapsto> n)"
    "length (in_use (add_bits n k tab1)) = length (in_use tab) + 1"
proof -
  obtain free where f: "tab = in_use tab @ free" "\<forall>e\<in>set free. fst e = 0" "\<forall>e\<in>set (in_use tab). fst e \<noteq> 0"
    "distinct (map report_key (in_use tab))" "\<forall>e\<in>set (in_use tab). main_tag (fst (snd e))"
    using table_parts [OF ok] by blast
  define used where "used = in_use tab"
  have new: "(rid, ty) \<notin> set (map report_key used)"
    using x by (auto simp: offsets_def used_def map_of_eq_None_iff image_image)
  obtain e rest where fr: "free = e # rest" using room f(1) by (cases free) (auto simp flip: used_def)
  let ?t = "used @ (rid, ty, 0) # rest"
  have one: "GetReportOffset rid ty tab = Some (length used, ?t)"
    using GetReportOffset_fresh [OF new, of e rest] f fr by (simp add: used_def)
  have two: "GetReportOffset rid ty ?t = Some (length used, ?t)"
    using GetReportOffset_again [OF new] f by (simp add: used_def)
  let ?u = "used @ [(rid, ty, n)]"
  have up: "add_bits n (length used) ?t = ?u @ rest" by (simp add: add_bits_last)
  have "\<forall>e\<in>set ?u. fst e \<noteq> 0" "\<forall>e\<in>set ?u. main_tag (fst (snd e))" "distinct (map report_key ?u)"
    "\<forall>e\<in>set rest. fst e = 0"
    using f new ty rid fr by (auto simp: used_def report_key_def)
  then have fin: "offsets_ok (add_bits n (length used) ?t)" "in_use (add_bits n (length used) ?t) = ?u"
    unfolding up using offsets_okI [of ?u rest] by blast+
  have "offsets (add_bits n (length used) ?t) = (offsets tab)((rid, ty) \<mapsto> n)"
    using add_last [of "map_of (map (\<lambda>e. (report_key e, snd (snd e))) used)" "(rid, ty)" n] x
    unfolding offsets_def fin(2) used_def [symmetric] by (simp add: report_key_def)
  moreover have "length ?t = length tab" using f(1) fr by (metis used_def length_append length_Cons)
  ultimately show thesis using that [OF one _ _ _ two fin(1)] fin(2) by (simp add: used_def)
qed

section \<open>A descriptor field by field\<close>

record hid_field =
  f_page :: uint8
  f_usage :: uint8
  f_report :: uint8
  f_bits :: uint8
  f_type :: uint8
  f_attr :: uint8

definition field_bytes :: "hid_field \<Rightarrow> uint8 list" where
  "field_bytes f = [0x05, f_page f, 0x09, f_usage f, 0x85, f_report f, 0x75, f_bits f, f_type f OR 1, f_attr f]"

definition describe :: "uint8 \<Rightarrow> hid_field list \<Rightarrow> uint8 list" where
  "describe u fs = [0x95, 1, 0x05, 0x84, 0x09, u, 0xA1, 1] @ concat (map field_bytes fs) @ [0xC0]"

definition usage_node :: "uint8 \<Rightarrow> uint8 \<Rightarrow> HIDNode_t" where
  "usage_node page usage = push_bit 16 (ucast page) OR ucast usage"

definition field_ok :: "hid_field \<Rightarrow> bool" where
  "field_ok f \<longleftrightarrow> main_tag (f_type f) \<and> f_report f \<noteq> 0 \<and> usage_node (f_page f) (f_usage f) \<noteq> 0"

definition field_item :: "HIDNode_t \<Rightarrow> hid_field \<Rightarrow> uint8 \<Rightarrow> HIDData_t" where
  "field_item root f off = blank_data\<lparr>
     Path := \<lparr>PathSize = 2, PathNode = root # usage_node (f_page f) (f_usage f) # replicate 8 0\<rparr>,
     ReportID := f_report f, Offset := off, DataSize := f_bits f, DataType := f_type f, Attribute := f_attr f\<rparr>"

text \<open>The items of the fields, from the bits that each report and type has so far.\<close>

fun field_items :: "HIDNode_t \<Rightarrow> (uint8 \<times> uint8 \<Rightarrow> uint8) \<Rightarrow> hid_field list \<Rightarrow> HIDData_t list" where
  "field_items root off [] = []"
| "field_items root off (f # fs) =
     field_item root f (off (f_report f, f_type f)) #
     field_items root (off((f_report f, f_type f) := off (f_report f, f_type f) + f_bits f)) fs"

lemma two_bytes:
  assumes more: "drop (unat (Pos p)) (ReportDesc p) = b # v # rest" and one: "b AND SIZE_MASK = 1"
    and len: "length (ReportDesc p) < 65280" and cnt: "LocalCount p = 0"
  shows "hid_step p = do_item (p\<lparr>Item := b, Pos := Pos p + 2, ItemValue := ucast v\<rparr>)"
    "unat (Pos p + 2) = unat (Pos p) + 2" "drop (unat (Pos p + 2)) (ReportDesc p) = rest"
    "unat (Pos p) < length (ReportDesc p)"
proof -
  have bound: "unat (Pos p) + 2 \<le> length (ReportDesc p)" using arg_cong [OF more, of length] by simp
  have pos1: "unat (Pos p + 1) = unat (Pos p) + 1" and pos2: "unat (Pos p + 2) = unat (Pos p) + 2"
    using unat_add_small [of "Pos p" 1] unat_add_small [of "Pos p" 2] bound len by simp_all
  have b: "ReportDesc p ! unat (Pos p) = b" "ReportDesc p ! Suc (unat (Pos p)) = v"
    using more bound by (metis nth_drop add_0_right nth_Cons_0 le_add2 add_leD1, metis nth_drop add_Suc_right add_0_right nth_Cons_0 nth_Cons_Suc add_leD1)
  show "unat (Pos p + 2) = unat (Pos p) + 2" by (rule pos2)
  show "drop (unat (Pos p + 2)) (ReportDesc p) = rest"
    using arg_cong [OF more, of "drop 2"] pos2 by (simp add: add.commute)
  show "unat (Pos p) < length (ReportDesc p)" using bound by simp
  have "fetch_item p = Some (Inr (p\<lparr>Item := b, Pos := Pos p + 2, ItemValue := ucast v\<rparr>))"
    using cnt bound one b pos1
    by (simp add: fetch_item_def read_at_def Let_def ItemSize_def add.commute)
  then show "hid_step p = do_item (p\<lparr>Item := b, Pos := Pos p + 2, ItemValue := ucast v\<rparr>)"
    by (simp add: hid_step_def)
qed

lemma HIDParse_go: "unat (Pos p) < length (ReportDesc p) \<Longrightarrow> hid_step p = Some (Go q) \<Longrightarrow> HIDParse p = HIDParse q"
  by (subst HIDParse.simps) simp

lemma usage_word:
  "push_bit 16 (ucast (ucast (ucast page :: uint32) :: uint16)) OR (ucast usage AND 0xFFFF) = usage_node page usage"
proof -
  have m: "(0xFFFF :: uint32) = mask 16" by (simp add: mask_eq_exp_minus_1)
  show ?thesis unfolding m usage_node_def
    by (rule bit_word_eqI) (auto simp: bit_simps dest: bit_imp_le_length)
qed

lemma byte_through: "ucast (ucast x :: uint32) = x" for x :: uint8
  by (rule bit_word_eqI) (auto simp: bit_simps dest: bit_imp_le_length)

text \<open>A parser between two fields of the collection \<open>root\<close>.\<close>

definition between_fields :: "HIDNode_t \<Rightarrow> HIDParser_t \<Rightarrow> bool" where
  "between_fields root p \<longleftrightarrow>
     LocalCount p = 0 \<and> ReportCount p = 1 \<and> UsageSize p = 0 \<and> length (ReportDesc p) < 65280 \<and>
     (\<exists>n. UsageTab p = 0 # 0 # replicate n 0) \<and> length (OffsetTab p) = MAX_REPORT \<and> offsets_ok (OffsetTab p) \<and>
     (\<exists>x r off s t a. Data p = blank_data\<lparr>Path := \<lparr>PathSize = 1, PathNode = root # x # replicate 8 0\<rparr>,
        ReportID := r, Offset := off, DataSize := s, DataType := t, Attribute := a\<rparr>)"

text \<open>The four items in front of a field set the usage, the report and the size.\<close>

lemma field_prefix:
  assumes st: "between_fields root p"
    and more: "drop (unat (Pos p)) (ReportDesc p) = field_bytes f @ rest"
  shows "\<exists>q. HIDParse p = HIDParse q \<and>
    drop (unat (Pos q)) (ReportDesc q) = [f_type f OR 1, f_attr f] @ rest \<and>
    ReportDesc q = ReportDesc p \<and> LocalCount q = 0 \<and> ReportCount q = 1 \<and> OffsetTab q = OffsetTab p \<and>
    UsageTab q = usage_node (f_page f) (f_usage f) # tl (UsageTab p) \<and> UsageSize q = 1 \<and>
    Data q = (Data p)\<lparr>ReportID := f_report f, DataSize := f_bits f\<rparr>"
proof -
  have base: "length (ReportDesc p) < 65280" "LocalCount p = 0" "UsageSize p = 0" "ReportCount p = 1"
    using st by (simp_all add: between_fields_def)
  obtain n where tab: "UsageTab p = 0 # 0 # replicate n 0" using st by (auto simp: between_fields_def)
  define p1 where "p1 = p\<lparr>Item := 0x05, Pos := Pos p + 2, ItemValue := ucast (f_page f), UPage := ucast (ucast (f_page f) :: uint32)\<rparr>"
  have d1: "drop (unat (Pos p)) (ReportDesc p) = 0x05 # f_page f # drop 2 (field_bytes f) @ rest"
    using more by (simp add: field_bytes_def)
  note s1 = two_bytes [OF d1 _ base(1,2)]
  have h1: "HIDParse p = HIDParse p1"
    by (rule HIDParse_go) (use s1 in \<open>simp_all add: SIZE_MASK_def do_item_def hid_items ITEM_MASK_def Let_def p1_def\<close>)
  have d2: "drop (unat (Pos p1)) (ReportDesc p1) = 0x09 # f_usage f # drop 4 (field_bytes f) @ rest"
    using s1 by (simp add: SIZE_MASK_def p1_def field_bytes_def)
  have b1: "length (ReportDesc p1) < 65280" "LocalCount p1 = 0" using base by (simp_all add: p1_def)
  note s2 = two_bytes [OF d2 _ b1]
  define p2 where "p2 = p1\<lparr>Item := 0x09, Pos := Pos p1 + 2, ItemValue := ucast (f_usage f),
    UsageTab := usage_node (f_page f) (f_usage f) # tl (UsageTab p), UsageSize := 1\<rparr>"
  have h2: "HIDParse p1 = HIDParse p2"
    by (rule HIDParse_go)
      (use s2 tab base usage_word [of "f_page f" "f_usage f"] in \<open>simp_all add: SIZE_MASK_def do_item_def hid_items ITEM_MASK_def Let_def p2_def
        item_usage_def write_at_def p1_def\<close>)
  have d3: "drop (unat (Pos p2)) (ReportDesc p2) = 0x85 # f_report f # drop 6 (field_bytes f) @ rest"
    using s2 by (simp add: SIZE_MASK_def p2_def field_bytes_def)
  have b2: "length (ReportDesc p2) < 65280" "LocalCount p2 = 0" using b1 by (simp_all add: p2_def)
  note s3 = two_bytes [OF d3 _ b2]
  define p3 where "p3 = p2\<lparr>Item := 0x85, Pos := Pos p2 + 2, ItemValue := ucast (f_report f),
    Data := (Data p)\<lparr>ReportID := f_report f\<rparr>\<rparr>"
  have h3: "HIDParse p2 = HIDParse p3"
    by (rule HIDParse_go)
      (use s3 in \<open>simp_all add: SIZE_MASK_def do_item_def hid_items ITEM_MASK_def Let_def byte_through set_data_def p3_def p2_def p1_def\<close>)
  have d4: "drop (unat (Pos p3)) (ReportDesc p3) = 0x75 # f_bits f # drop 8 (field_bytes f) @ rest"
    using s3 by (simp add: SIZE_MASK_def p3_def field_bytes_def)
  have b3: "length (ReportDesc p3) < 65280" "LocalCount p3 = 0" using b2 by (simp_all add: p3_def)
  note s4 = two_bytes [OF d4 _ b3]
  define p4 where "p4 = p3\<lparr>Item := 0x75, Pos := Pos p3 + 2, ItemValue := ucast (f_bits f),
    Data := (Data p)\<lparr>ReportID := f_report f, DataSize := f_bits f\<rparr>\<rparr>"
  have h4: "HIDParse p3 = HIDParse p4"
    by (rule HIDParse_go)
      (use s4 in \<open>simp_all add: SIZE_MASK_def do_item_def hid_items ITEM_MASK_def Let_def byte_through set_data_def p4_def p3_def\<close>)
  have d5: "drop (unat (Pos p4)) (ReportDesc p4) = [f_type f OR 1, f_attr f] @ rest"
    using s4 by (simp add: SIZE_MASK_def p4_def field_bytes_def)
  show ?thesis
    by (rule exI [of _ p4]) (use h1 h2 h3 h4 d5 base in \<open>simp add: p4_def p3_def p2_def p1_def\<close>)
qed

lemma main_tag_byte:
  "main_tag t \<Longrightarrow> (t OR 1) AND ITEM_MASK = t" "main_tag t \<Longrightarrow> (t OR 1) AND SIZE_MASK = 1"
  by (auto simp: main_tag_def hid_items ITEM_MASK_def SIZE_MASK_def)

lemma main_tag_item: "main_tag (Item p AND ITEM_MASK) \<Longrightarrow> do_item p = item_main p"
  by (auto simp: do_item_def Let_def main_tag_def hid_items)

text \<open>The table after a field: the bits of its report and type grow by its size.\<close>

lemma table_step:
  assumes ok: "offsets_ok tab" and room: "length (in_use tab) < length tab" and rid: "rid \<noteq> 0" and ty: "main_tag ty"
    and off: "case_option 0 id (offsets tab (rid, ty)) = off"
  obtains k tab1 where "GetReportOffset rid ty tab = Some (k, tab1)" "k < length tab1" "length tab1 = length tab"
    "snd (snd (tab1 ! k)) = off" "GetReportOffset rid ty tab1 = Some (k, tab1)" "offsets_ok (add_bits n k tab1)"
    "offsets (add_bits n k tab1) = (offsets tab)((rid, ty) \<mapsto> off + n)"
    "length (in_use (add_bits n k tab1)) \<le> length (in_use tab) + 1"
proof (cases "offsets tab (rid, ty)")
  case None
  obtain k tab1 where k: "GetReportOffset rid ty tab = Some (k, tab1)" "k < length tab1" "length tab1 = length tab"
    "snd (snd (tab1 ! k)) = 0" "GetReportOffset rid ty tab1 = Some (k, tab1)" "offsets_ok (add_bits n k tab1)"
    "offsets (add_bits n k tab1) = (offsets tab)((rid, ty) \<mapsto> n)"
    "length (in_use (add_bits n k tab1)) = length (in_use tab) + 1"
    using offsets_fresh [OF ok None rid room ty, of n] by blast
  have "off = 0" using off None by simp
  then show thesis using that [OF k(1-3) _ k(5,6)] k by simp
next
  case (Some x)
  obtain k where k: "GetReportOffset rid ty tab = Some (k, tab)" "k < length tab" "snd (snd (tab ! k)) = x"
    "offsets_ok (add_bits n k tab)" "offsets (add_bits n k tab) = (offsets tab)((rid, ty) \<mapsto> x + n)"
    "length (in_use (add_bits n k tab)) = length (in_use tab)"
    using offsets_known [OF ok Some, of n] by blast
  have "off = x" using off Some by simp
  then show thesis using that [OF k(1,2) _ _ k(1,4)] k by simp
qed

lemma field_main:
  assumes st: "between_fields root p" and f: "field_ok f"
    and q: "drop (unat (Pos q)) (ReportDesc q) = [f_type f OR 1, f_attr f] @ rest" "ReportDesc q = ReportDesc p"
      "LocalCount q = 0" "ReportCount q = 1" "OffsetTab q = OffsetTab p"
      "UsageTab q = usage_node (f_page f) (f_usage f) # tl (UsageTab p)" "UsageSize q = 1"
      "Data q = (Data p)\<lparr>ReportID := f_report f, DataSize := f_bits f\<rparr>"
    and room: "length (in_use (OffsetTab p)) < MAX_REPORT"
    and off: "case_option 0 id (offsets (OffsetTab p) (f_report f, f_type f)) = off"
  shows "\<exists>r. HIDParse q = Some (Some (1, field_item root f off), r) \<and> between_fields root r \<and>
    ReportDesc r = ReportDesc p \<and> drop (unat (Pos r)) (ReportDesc r) = rest \<and>
    offsets (OffsetTab r) = (offsets (OffsetTab p))((f_report f, f_type f) \<mapsto> off + f_bits f) \<and>
    length (in_use (OffsetTab r)) \<le> length (in_use (OffsetTab p)) + 1"
proof -
  have tag: "main_tag (f_type f)" and rid: "f_report f \<noteq> 0" and node: "usage_node (f_page f) (f_usage f) \<noteq> 0"
    using f by (simp_all add: field_ok_def)
  obtain n where tab: "UsageTab p = 0 # 0 # replicate n 0" using st by (auto simp: between_fields_def)
  obtain x r0 o0 s0 t0 a0 where dat: "Data p = blank_data\<lparr>Path := \<lparr>PathSize = 1, PathNode = root # x # replicate 8 0\<rparr>,
        ReportID := r0, Offset := o0, DataSize := s0, DataType := t0, Attribute := a0\<rparr>"
    using st by (auto simp: between_fields_def)
  have ok: "offsets_ok (OffsetTab p)" and lens: "length (OffsetTab p) = MAX_REPORT" "length (ReportDesc p) < 65280"
    using st by (simp_all add: between_fields_def)
  obtain k tab1 where k: "GetReportOffset (f_report f) (f_type f) (OffsetTab p) = Some (k, tab1)" "k < length tab1"
      "length tab1 = length (OffsetTab p)"
      "snd (snd (tab1 ! k)) = off" "GetReportOffset (f_report f) (f_type f) tab1 = Some (k, tab1)"
      "offsets_ok (add_bits (f_bits f) k tab1)"
      "offsets (add_bits (f_bits f) k tab1) = (offsets (OffsetTab p))((f_report f, f_type f) \<mapsto> off + f_bits f)"
      "length (in_use (add_bits (f_bits f) k tab1)) \<le> length (in_use (OffsetTab p)) + 1"
    using table_step [OF ok _ rid tag off, of "f_bits f"] room lens(1) by auto
  define q1 where "q1 = q\<lparr>Item := f_type f OR 1, Pos := Pos q + 2, ItemValue := ucast (f_attr f)\<rparr>"
  have d: "drop (unat (Pos q)) (ReportDesc q) = (f_type f OR 1) # f_attr f # rest" using q(1) by simp
  have len: "length (ReportDesc q) < 65280" using lens q(2) by simp
  note s = two_bytes [OF d main_tag_byte(2) [OF tag] len q(3)]
  have step: "hid_step q = item_main q1"
    using s(1) main_tag_item [of q1] tag by (simp add: q1_def main_tag_byte)
  define r where "r = q1\<lparr>LocalCount := 0, UsageTab := 0 # 0 # replicate n 0, UsageSize := 0,
    OffsetTab := add_bits (f_bits f) k tab1,
    Data := (field_item root f off)\<lparr>Path := \<lparr>PathSize = 1, PathNode = root # usage_node (f_page f) (f_usage f) # replicate 8 0\<rparr>\<rparr>\<rparr>"
  have main: "item_main q1 = Some (Object 1 (field_item root f off) r)"
    using q(3-8) k(1-5) tag node main_tag_byte(1) [OF tag]
    by (simp add: item_main_def q1_def r_def tab dat read_at_def write_at_def path_full_def PATH_SIZE_def Let_def push_node_def
        drop_usage_def set_path_size_def ResetLocalState_def field_item_def blank_data_def byte_through add_bits_def
        numeral_2_eq_2 [symmetric] map_replicate_const)
  have "HIDParse q = Some (Some (1, field_item root f off), r)"
    using s(4) step main by (subst HIDParse.simps) simp
  moreover have "between_fields root r"
    using q k lens by (simp add: between_fields_def r_def q1_def field_item_def blank_data_def add_bits_def)
  moreover have "ReportDesc r = ReportDesc p" "drop (unat (Pos r)) (ReportDesc r) = rest"
    using q(2) s(3) by (simp_all add: r_def q1_def)
  ultimately show ?thesis using k(7,8) by (auto simp: r_def)
qed

lemma field_step:
  assumes st: "between_fields root p" and f: "field_ok f"
    and more: "drop (unat (Pos p)) (ReportDesc p) = field_bytes f @ rest"
    and room: "length (in_use (OffsetTab p)) < MAX_REPORT"
    and off: "case_option 0 id (offsets (OffsetTab p) (f_report f, f_type f)) = off"
  shows "\<exists>r. HIDParse p = Some (Some (1, field_item root f off), r) \<and> between_fields root r \<and>
    drop (unat (Pos r)) (ReportDesc r) = rest \<and>
    offsets (OffsetTab r) = (offsets (OffsetTab p))((f_report f, f_type f) \<mapsto> off + f_bits f) \<and>
    length (in_use (OffsetTab r)) \<le> length (in_use (OffsetTab p)) + 1"
proof -
  obtain q where q: "HIDParse p = HIDParse q"
    "drop (unat (Pos q)) (ReportDesc q) = [f_type f OR 1, f_attr f] @ rest" "ReportDesc q = ReportDesc p"
    "LocalCount q = 0" "ReportCount q = 1" "OffsetTab q = OffsetTab p"
    "UsageTab q = usage_node (f_page f) (f_usage f) # tl (UsageTab p)" "UsageSize q = 1"
    "Data q = (Data p)\<lparr>ReportID := f_report f, DataSize := f_bits f\<rparr>"
    using field_prefix [OF st more] by (elim exE conjE)
  from field_main [OF st f q(2-9) room off] show ?thesis unfolding q(1) by (elim exE conjE) (intro exI conjI)
qed

text \<open>The end of the collection is the end of the descriptor.\<close>

lemma last_step:
  assumes st: "between_fields root p" and more: "drop (unat (Pos p)) (ReportDesc p) = [0xC0]"
  shows "\<exists>q. HIDParse p = Some (None, q)"
proof -
  have cnt: "LocalCount p = 0" and len: "length (ReportDesc p) < 65280" using st by (simp_all add: between_fields_def)
  have size: "PathSize (Path (Data p)) = 1" using st by (auto simp: between_fields_def)
  have bound: "unat (Pos p) + 1 = length (ReportDesc p)" using arg_cong [OF more, of length] by simp
  have pos: "unat (Pos p + 1) = unat (Pos p) + 1" using unat_add_small [of "Pos p" 1] bound len by simp
  have b: "ReportDesc p ! unat (Pos p) = 0xC0" using more bound by (metis nth_drop add_0_right nth_Cons_0 le_add1)
  define q where "q = ResetLocalState (set_path_size 0 (p\<lparr>Item := 0xC0, ItemValue := 0, Pos := Pos p + 1\<rparr>))"
  have "hid_step p = Some (Go q)"
    using cnt bound b pos size
    by (simp add: hid_step_def fetch_item_def read_at_def Let_def ItemSize_def SIZE_MASK_def do_item_def hid_items
        ITEM_MASK_def item_end_collection_def q_def)
  then have "HIDParse p = HIDParse q" using bound by (intro HIDParse_go) auto
  moreover have "HIDParse q = Some (None, q)" using pos bound by (subst HIDParse.simps) (simp add: q_def)
  ultimately show ?thesis by simp
qed

lemma fields_parsed:
  "between_fields root p \<Longrightarrow> drop (unat (Pos p)) (ReportDesc p) = concat (map field_bytes fs) @ [0xC0] \<Longrightarrow>
   (\<forall>f\<in>set fs. field_ok f) \<Longrightarrow> length (item h) + length fs \<le> MAX_REPORT \<Longrightarrow>
   length (in_use (OffsetTab p)) \<le> length (item h) \<Longrightarrow>
   \<exists>h1. parse_loop p h = Some h1 \<and>
     item h1 = item h @ field_items root (\<lambda>k. case_option 0 id (offsets (OffsetTab p) k)) fs"
proof (induction fs arbitrary: p h)
  case Nil
  then show ?case using last_step [of root p]
    by (cases "length (item h) < MAX_REPORT") (auto simp: parse_loop.simps)
next
  case (Cons f fs)
  let ?off = "case_option 0 id (offsets (OffsetTab p) (f_report f, f_type f))"
  obtain r where r: "HIDParse p = Some (Some (1, field_item root f ?off), r)" "between_fields root r"
    "drop (unat (Pos r)) (ReportDesc r) = concat (map field_bytes fs) @ [0xC0]"
    "offsets (OffsetTab r) = (offsets (OffsetTab p))((f_report f, f_type f) \<mapsto> ?off + f_bits f)"
    "length (in_use (OffsetTab r)) \<le> length (in_use (OffsetTab p)) + 1"
    using field_step [of root p f "concat (map field_bytes fs) @ [0xC0]" ?off] Cons.prems by auto
  let ?h = "add_object 1 (field_item root f ?off) h"
  have item: "item ?h = item h @ [field_item root f ?off]" by (simp add: add_object_def Let_def)
  obtain h1 where h1: "parse_loop r ?h = Some h1"
    "item h1 = item ?h @ field_items root (\<lambda>k. case_option 0 id (offsets (OffsetTab r) k)) fs"
    using Cons.IH [of r ?h] r Cons.prems item by auto
  have "(\<lambda>k. case_option 0 id (offsets (OffsetTab r) k)) =
      (\<lambda>k. case_option 0 id (offsets (OffsetTab p) k))((f_report f, f_type f) := ?off + f_bits f)"
    by (auto simp: r(4) fun_eq_iff)
  moreover have "parse_loop p h = Some h1" using h1(1) r(1) Cons.prems(4) by (subst parse_loop.simps) simp
  ultimately show ?case using h1(2) item by simp
qed

text \<open>The four items in front of the fields open a collection.\<close>

lemma collection_opened:
  assumes desc: "desc = [0x95, 1, 0x05, 0x84, 0x09, u, 0xA1, 1] @ rest" and len: "length desc < 65280"
  shows "\<exists>p. HIDParse (new_parser desc) = HIDParse p \<and> between_fields (usage_node 0x84 u) p \<and>
    drop (unat (Pos p)) (ReportDesc p) = rest \<and> in_use (OffsetTab p) = []"
proof -
  have ten: "replicate 10 x = x # x # replicate 8 x" for x :: uint32 by (simp add: numeral_eq_Suc)
  have le: "\<not> (0x80 :: uint32) \<le> 1" by (simp add: word_le_nat_alt)
  define p0 where "p0 = new_parser desc"
  define n where "n = max (length desc) USAGE_TAB_SIZE - 2"
  have "max (length desc) USAGE_TAB_SIZE = Suc (Suc n)" by (simp add: n_def USAGE_TAB_SIZE_def)
  then have tab: "UsageTab p0 = 0 # 0 # replicate n 0" by (simp add: p0_def new_parser_def)
  have p0: "ReportDesc p0 = desc" "Pos p0 = 0" "LocalCount p0 = 0" "UsageSize p0 = 0" "Data p0 = blank_data"
    "OffsetTab p0 = replicate MAX_REPORT (0, 0, 0)" by (simp_all add: p0_def new_parser_def)
  have d1: "drop (unat (Pos p0)) (ReportDesc p0) = 0x95 # 1 # [0x05, 0x84, 0x09, u, 0xA1, 1] @ rest"
    using p0 desc by simp
  have b1: "length (ReportDesc p0) < 65280" "LocalCount p0 = 0" using p0 len by simp_all
  note s1 = two_bytes [OF d1 _ b1]
  define p1 where "p1 = p0\<lparr>Item := 0x95, Pos := Pos p0 + 2, ItemValue := 1, ReportCount := 1\<rparr>"
  have h1: "HIDParse p0 = HIDParse p1"
    by (rule HIDParse_go) (use s1 in \<open>simp_all add: SIZE_MASK_def do_item_def hid_items ITEM_MASK_def Let_def p1_def\<close>)
  have d2: "drop (unat (Pos p1)) (ReportDesc p1) = 0x05 # 0x84 # [0x09, u, 0xA1, 1] @ rest"
    using s1 by (simp add: SIZE_MASK_def p1_def)
  have b2: "length (ReportDesc p1) < 65280" "LocalCount p1 = 0" using b1 by (simp_all add: p1_def)
  note s2 = two_bytes [OF d2 _ b2]
  define p2 where "p2 = p1\<lparr>Item := 0x05, Pos := Pos p1 + 2, ItemValue := 0x84, UPage := 0x84\<rparr>"
  have h2: "HIDParse p1 = HIDParse p2"
    by (rule HIDParse_go)
      (use s2 in \<open>simp_all add: SIZE_MASK_def do_item_def hid_items ITEM_MASK_def Let_def p2_def p1_def\<close>)
  have d3: "drop (unat (Pos p2)) (ReportDesc p2) = 0x09 # u # [0xA1, 1] @ rest"
    using s2 by (simp add: SIZE_MASK_def p2_def)
  have b3: "length (ReportDesc p2) < 65280" "LocalCount p2 = 0" using b2 by (simp_all add: p2_def)
  note s3 = two_bytes [OF d3 _ b3]
  define p3 where "p3 = p2\<lparr>Item := 0x09, Pos := Pos p2 + 2, ItemValue := ucast u,
    UsageTab := usage_node 0x84 u # 0 # replicate n 0, UsageSize := 1\<rparr>"
  have h3: "HIDParse p2 = HIDParse p3"
    by (rule HIDParse_go)
      (use s3 tab p0 usage_word [of "0x84" u] in \<open>simp_all add: SIZE_MASK_def do_item_def hid_items ITEM_MASK_def Let_def
        item_usage_def write_at_def p3_def p2_def p1_def\<close>)
  have d4: "drop (unat (Pos p3)) (ReportDesc p3) = 0xA1 # 1 # rest"
    using s3 by (simp add: SIZE_MASK_def p3_def)
  have b4: "length (ReportDesc p3) < 65280" "LocalCount p3 = 0" using b3 by (simp_all add: p3_def)
  note s4 = two_bytes [OF d4 _ b4]
  define p4 where "p4 = p3\<lparr>Item := 0xA1, Pos := Pos p3 + 2, ItemValue := 1,
    UsageTab := 0 # 0 # replicate n 0, UsageSize := 0,
    Data := blank_data\<lparr>Path := \<lparr>PathSize = 1, PathNode = usage_node 0x84 u # 0 # replicate 8 0\<rparr>\<rparr>\<rparr>"
  have h4: "HIDParse p3 = HIDParse p4"
    by (rule HIDParse_go)
      (use s4 p0 in \<open>simp_all add: SIZE_MASK_def do_item_def hid_items ITEM_MASK_def Let_def item_collection_def
        read_at_def write_at_def path_full_def PATH_SIZE_def push_node_def drop_usage_def ResetLocalState_def
        p4_def p3_def p2_def p1_def blank_data_def map_replicate_const ten le\<close>)
  have "between_fields (usage_node 0x84 u) p4"
    unfolding between_fields_def
  proof (intro conjI)
    have "in_use (replicate MAX_REPORT (0, 0, 0)) = []" by (simp add: in_use_def)
    then show "offsets_ok (OffsetTab p4)" by (auto simp: offsets_ok_def p4_def p3_def p2_def p1_def p0)
    show "\<exists>x r off s t a. Data p4 = blank_data\<lparr>Path := \<lparr>PathSize = 1, PathNode = usage_node 0x84 u # x # replicate 8 0\<rparr>,
        ReportID := r, Offset := off, DataSize := s, DataType := t, Attribute := a\<rparr>"
      by (intro exI [of _ 0]) (simp add: p4_def, simp add: blank_data_def)
  qed (use b4 p0 in \<open>simp_all add: p4_def p3_def p2_def p1_def\<close>)
  moreover have "drop (unat (Pos p4)) (ReportDesc p4) = rest" using s4 by (simp add: SIZE_MASK_def p4_def)
  moreover have "in_use (OffsetTab p4) = []" by (simp add: p4_def p3_def p2_def p1_def p0 in_use_def)
  ultimately show ?thesis using h1 h2 h3 h4 unfolding p0_def [symmetric] by (intro exI [of _ p4]) simp
qed

lemma parse_loop_cong: "HIDParse p = HIDParse q \<Longrightarrow> parse_loop p h = parse_loop q h"
  by (subst (1 2) parse_loop.simps) simp

lemma described_fields:
  assumes fs: "fs \<noteq> []" "length fs \<le> MAX_REPORT" and ok: "\<forall>f\<in>set fs. field_ok f"
  shows "\<exists>h. Parse_ReportDesc (describe u fs) = Some (Some h) \<and> item h = field_items (usage_node 0x84 u) (\<lambda>_. 0) fs"
proof -
  have "length (concat (map field_bytes fs)) = 10 * length fs"
    by (induction fs) (simp_all add: field_bytes_def)
  then have len: "length (describe u fs) < 65280" using fs(2) by (simp add: describe_def MAX_REPORT_def)
  obtain p where p: "HIDParse (new_parser (describe u fs)) = HIDParse p" "between_fields (usage_node 0x84 u) p"
    "drop (unat (Pos p)) (ReportDesc p) = concat (map field_bytes fs) @ [0xC0]" "in_use (OffsetTab p) = []"
    using collection_opened [OF describe_def [of u fs] len] by blast
  have off: "(\<lambda>k. case_option 0 id (offsets (OffsetTab p) k)) = (\<lambda>_. 0)" by (simp add: offsets_def p(4))
  let ?h = "\<lparr>item = [], replen = replicate 256 0\<rparr>"
  obtain h1 where "parse_loop p ?h = Some h1" "item h1 = field_items (usage_node 0x84 u) (\<lambda>_. 0) fs"
    using fields_parsed [OF p(2,3) ok, of ?h] fs(2) p(4) off by auto
  moreover have "field_items (usage_node 0x84 u) (\<lambda>_. 0) fs \<noteq> []" using fs(1) by (cases fs) simp_all
  ultimately show ?thesis using parse_loop_cong [OF p(1), of ?h] by (simp add: Parse_ReportDesc_def)
qed

text \<open>Where a field lies: behind the earlier fields of its report and type.\<close>

definition field_offset :: "hid_field list \<Rightarrow> nat \<Rightarrow> uint8" where
  "field_offset fs k =
     sum_list (map f_bits (filter (\<lambda>f. f_report f = f_report (fs ! k) \<and> f_type f = f_type (fs ! k)) (take k fs)))"

definition field_node :: "hid_field \<Rightarrow> HIDNode_t" where
  "field_node f = usage_node (f_page f) (f_usage f)"

lemma field_found:
  "k < length fs \<Longrightarrow> \<forall>j<k. f_type (fs ! j) = f_type (fs ! k) \<longrightarrow> field_node (fs ! j) \<noteq> field_node (fs ! k) \<Longrightarrow>
   PathSize path = 2 \<Longrightarrow> take 2 (PathNode path) = [root, field_node (fs ! k)] \<Longrightarrow>
   FindObject_with_Path (field_items root off fs) path (f_type (fs ! k)) =
     Some (field_item root (fs ! k) (off (f_report (fs ! k), f_type (fs ! k)) + field_offset fs k))"
proof (induction fs arbitrary: off k)
  case (Cons f fs)
  show ?case
  proof (cases k)
    case 0
    then show ?thesis using Cons.prems
      by (simp add: field_item_def blank_data_def field_node_def field_offset_def)
  next
    case (Suc j)
    have "f_type f = f_type (fs ! j) \<longrightarrow> field_node f \<noteq> field_node (fs ! j)" using Cons.prems(2) Suc by force
    then have skip: "FindObject_with_Path (field_items root off (f # fs)) path (f_type (fs ! j)) =
        FindObject_with_Path (field_items root (off((f_report f, f_type f) := off (f_report f, f_type f) + f_bits f)) fs)
          path (f_type (fs ! j))"
      using Cons.prems(3,4) Suc by (auto simp: field_item_def blank_data_def field_node_def)
    have "\<forall>i<j. f_type (fs ! i) = f_type (fs ! j) \<longrightarrow> field_node (fs ! i) \<noteq> field_node (fs ! j)"
      using Cons.prems(2) Suc by (metis Suc_less_eq nth_Cons_Suc)
    then have IH: "FindObject_with_Path (field_items root (off((f_report f, f_type f) := off (f_report f, f_type f) + f_bits f)) fs)
          path (f_type (fs ! j)) =
        Some (field_item root (fs ! j) ((off((f_report f, f_type f) := off (f_report f, f_type f) + f_bits f))
          (f_report (fs ! j), f_type (fs ! j)) + field_offset fs j))"
      using Cons.prems Suc by (intro Cons.IH) simp_all
    have "(off((f_report f, f_type f) := off (f_report f, f_type f) + f_bits f)) (f_report (fs ! j), f_type (fs ! j))
        + field_offset fs j = off (f_report (fs ! j), f_type (fs ! j)) + field_offset (f # fs) (Suc j)"
      by (auto simp: field_offset_def add.assoc)
    then show ?thesis unfolding Suc nth_Cons_Suc skip IH by simp
  qed
qed simp

text \<open>
  Property C22: a device that describes up to 500 fields in one collection, one item after the
  other, gets exactly these fields: looking up the path of a usage gives the first field with
  that usage and type, with its report, size and attribute, behind all earlier fields of its
  report and type (as far as an offset of eight bits reaches).
\<close>

theorem described_field_found:
  assumes fs: "length fs \<le> MAX_REPORT" "\<forall>f\<in>set fs. field_ok f" and k: "k < length fs"
    and first: "\<forall>j<k. f_type (fs ! j) = f_type (fs ! k) \<longrightarrow> field_node (fs ! j) \<noteq> field_node (fs ! k)"
    and path: "PathSize path = 2" "take 2 (PathNode path) = [usage_node 0x84 u, field_node (fs ! k)]"
  shows "\<exists>h. Parse_ReportDesc (describe u fs) = Some (Some h) \<and> length (item h) = length fs \<and>
    FindObject_with_Path (item h) path (f_type (fs ! k)) =
      Some (field_item (usage_node 0x84 u) (fs ! k) (field_offset fs k))"
proof -
  have "fs \<noteq> []" using k by auto
  then obtain h where h: "Parse_ReportDesc (describe u fs) = Some (Some h)"
      "item h = field_items (usage_node 0x84 u) (\<lambda>_. 0) fs"
    using described_fields [OF _ fs] by blast
  have "length (field_items root off fs) = length fs" for root off by (induction fs arbitrary: off) simp_all
  then show ?thesis using field_found [OF k first path, of "\<lambda>_. 0"] h by simp
qed

theorem described_field_found_witness:
  "\<exists>h. Parse_ReportDesc (describe 4
      [\<lparr>f_page = 0x84, f_usage = 0x30, f_report = 1, f_bits = 16, f_type = ITEM_FEATURE, f_attr = 2\<rparr>,
       \<lparr>f_page = 0x84, f_usage = 0x36, f_report = 2, f_bits = 4, f_type = ITEM_FEATURE, f_attr = 2\<rparr>,
       \<lparr>f_page = 0x85, f_usage = 0x66, f_report = 1, f_bits = 8, f_type = ITEM_FEATURE, f_attr = 3\<rparr>]) = Some (Some h) \<and>
     map_option (\<lambda>d. (ReportID d, Offset d, DataSize d, Attribute d))
       (FindObject_with_Path (item h) \<lparr>PathSize = 2, PathNode = [0x00840004, 0x00850066]\<rparr> ITEM_FEATURE) = Some (1, 16, 8, 3)"
proof -
  let ?fs = "[\<lparr>f_page = 0x84, f_usage = 0x30, f_report = 1, f_bits = 16, f_type = ITEM_FEATURE, f_attr = 2\<rparr>,
       \<lparr>f_page = 0x84, f_usage = 0x36, f_report = 2, f_bits = 4, f_type = ITEM_FEATURE, f_attr = 2\<rparr>,
       \<lparr>f_page = 0x85, f_usage = 0x66, f_report = 1, f_bits = 8, f_type = ITEM_FEATURE, f_attr = 3\<rparr>]"
  let ?p = "\<lparr>PathSize = 2, PathNode = [0x00840004, 0x00850066]\<rparr>"
  have "\<forall>f\<in>set ?fs. field_ok f" by (simp add: field_ok_def main_tag_def usage_node_def hid_items)
  moreover have "\<forall>j<2. f_type (?fs ! j) = f_type (?fs ! 2) \<longrightarrow> field_node (?fs ! j) \<noteq> field_node (?fs ! 2)"
  proof (intro allI impI)
    fix j :: nat assume "j < 2"
    then consider "j = 0" | "j = 1" by linarith
    then show "field_node (?fs ! j) \<noteq> field_node (?fs ! 2)" by cases (simp_all add: field_node_def usage_node_def)
  qed
  ultimately have "\<exists>h. Parse_ReportDesc (describe 4 ?fs) = Some (Some h) \<and> length (item h) = length ?fs \<and>
      FindObject_with_Path (item h) ?p (f_type (?fs ! 2)) = Some (field_item (usage_node 0x84 4) (?fs ! 2) (field_offset ?fs 2))"
    by (intro described_field_found) (simp_all add: MAX_REPORT_def field_node_def usage_node_def)
  moreover have "field_offset ?fs 2 = 16" by (simp add: field_offset_def)
  ultimately show ?thesis
    by (elim exE conjE, intro exI conjI) (assumption, simp add: field_item_def blank_data_def)
qed

end
