(* ===== verification/HidLibSpec.thy ===== *)
theory HidLibSpec
  imports HidLib HidDescribe
begin

text \<open>
  What the access to a HID device promises: after any sequence of reads, writes and events no
  access leaves the buffers, a value that was written is read back, events are the input items
  of the report that arrived, and the name of a path leads back to the path.
\<close>

section \<open>Buffers fit their reports\<close>

definition slot_ok :: "HIDDesc_t \<Rightarrow> nat \<Rightarrow> nat \<Rightarrow> nat \<Rightarrow> uint8 list option \<Rightarrow> bool" where
  "slot_ok h i len cap data \<longleftrightarrow> (case data of
       None \<Rightarrow> len = 0 \<and> cap = 0
     | Some buf \<Rightarrow> length buf = cap \<and> len = replen h ! i + 1 \<and> len \<le> cap \<and> cap \<le> 256)"

definition rb_wf :: "HIDDesc_t \<Rightarrow> reportbuf_t \<Rightarrow> bool" where
  "rb_wf h rb \<longleftrightarrow>
     length (rb_ts rb) = 256 \<and> length (rb_len rb) = 256 \<and> length (rb_cap rb) = 256 \<and> length (rb_data rb) = 256 \<and>
     (\<forall>i<256. slot_ok h i (rb_len rb ! i) (rb_cap rb ! i) (rb_data rb ! i))"

text \<open>The buffers of the reports of all items are there.\<close>

definition covers :: "reportbuf_t \<Rightarrow> HIDData_t list \<Rightarrow> bool" where
  "covers rb ds \<longleftrightarrow> (\<forall>d\<in>set ds. rb_data rb ! unat (ReportID d) \<noteq> None)"

lemma replen_bound: "desc_fits h \<Longrightarrow> i < 256 \<Longrightarrow> replen h ! i \<le> 64"
  unfolding desc_fits_def by (metis nth_mem)

lemma alloc_report_wf:
  assumes h: "desc_fits h" and rb: "rb_wf h rb"
  shows "rb_wf h (alloc_report mx h d rb) \<and> rb_data (alloc_report mx h d rb) ! unat (ReportID d) \<noteq> None \<and>
    (\<forall>i. rb_data rb ! i \<noteq> None \<longrightarrow> rb_data (alloc_report mx h d rb) ! i \<noteq> None)"
proof (cases "rb_data rb ! unat (ReportID d) = None")
  case False
  then show ?thesis using rb by (simp add: alloc_report_def Let_def)
next
  case True
  let ?i = "unat (ReportID d)"
  let ?n = "replen h ! ?i + 1" and ?cap = "if mx then MAX_REPORT_ALLOC else replen h ! ?i + 1"
  have i: "?i < 256" by (rule uint8_less)
  have lens: "length (rb_ts rb) = 256" "length (rb_len rb) = 256" "length (rb_cap rb) = 256" "length (rb_data rb) = 256"
    using rb by (simp_all add: rb_wf_def)
  have eq: "alloc_report mx h d rb = rb\<lparr>rb_len := (rb_len rb)[?i := ?n], rb_cap := (rb_cap rb)[?i := ?cap],
      rb_data := (rb_data rb)[?i := Some (replicate ?cap 0)]\<rparr>"
    using True i lens by (simp add: alloc_report_def Let_def)
  have new: "slot_ok h ?i ?n ?cap (Some (replicate ?cap 0))"
    using replen_bound [OF h i] by (simp add: slot_ok_def MAX_REPORT_ALLOC_def)
  have "slot_ok h k ((rb_len rb)[?i := ?n] ! k) ((rb_cap rb)[?i := ?cap] ! k) ((rb_data rb)[?i := Some (replicate ?cap 0)] ! k)"
    if "k < 256" for k
    using that rb new i lens by (cases "k = ?i") (simp_all add: rb_wf_def)
  then have "rb_wf h (alloc_report mx h d rb)" unfolding eq using lens by (simp add: rb_wf_def)
  moreover have "rb_data (alloc_report mx h d rb) ! k \<noteq> None" if "rb_data rb ! k \<noteq> None" for k
    unfolding eq using that True by (cases "k = ?i") simp_all
  moreover have "rb_data (alloc_report mx h d rb) ! ?i \<noteq> None" unfolding eq using i lens by simp
  ultimately show ?thesis by blast
qed

lemma new_report_buffer_wf:
  assumes h: "desc_fits h"
  shows "rb_wf h (new_report_buffer mx h)" "covers (new_report_buffer mx h) (item h)"
proof -
  have "rb_wf h rb \<Longrightarrow> rb_wf h (fold (alloc_report mx h) ds rb) \<and> covers (fold (alloc_report mx h) ds rb) ds \<and>
      (\<forall>i. rb_data rb ! i \<noteq> None \<longrightarrow> rb_data (fold (alloc_report mx h) ds rb) ! i \<noteq> None)" for ds rb
  proof (induction ds arbitrary: rb)
    case (Cons d ds)
    note a = alloc_report_wf [OF h Cons.prems, of mx d]
    show ?case using Cons.IH [of "alloc_report mx h d rb"] a by (auto simp: covers_def)
  qed (simp add: covers_def)
  moreover have "rb_wf h empty_reportbuf" by (simp add: rb_wf_def empty_reportbuf_def slot_ok_def)
  ultimately show "rb_wf h (new_report_buffer mx h)" "covers (new_report_buffer mx h) (item h)"
    by (auto simp: new_report_buffer_def)
qed

text \<open>The contracts of the device: no call stores more bytes than it was asked for.\<close>

definition report_source :: "(uint8 \<Rightarrow> nat \<Rightarrow> int \<times> uint8 list) \<Rightarrow> bool" where
  "report_source get_report \<longleftrightarrow> (\<forall>rid r. length (snd (get_report rid r)) \<le> r)"

definition interrupt_source :: "(nat \<Rightarrow> int + uint8 list) \<Rightarrow> bool" where
  "interrupt_source get_interrupt \<longleftrightarrow> (\<forall>r bs. get_interrupt r = Inr bs \<longrightarrow> bs \<noteq> [] \<and> length bs \<le> r)"

lemma fill_some: "length bs \<le> length buf \<Longrightarrow> fill bs buf = Some (bs @ drop (length bs) buf)"
  by (simp add: fill_def)

text \<open>Replacing the bytes of a report by as many others, and any time stamps, keep the buffers.\<close>

lemma rb_wf_update:
  assumes rb: "rb_wf h rb" and old: "rb_data rb ! i = Some buf" "length buf1 = length buf" "i < 256"
  shows "rb_wf h (rb\<lparr>rb_data := (rb_data rb)[i := Some buf1]\<rparr>)"
proof -
  have "slot_ok h k (rb_len rb ! k) (rb_cap rb ! k) ((rb_data rb)[i := Some buf1] ! k)" if "k < 256" for k
  proof -
    have "slot_ok h k (rb_len rb ! k) (rb_cap rb ! k) (rb_data rb ! k)" "length (rb_data rb) = 256"
      using rb that by (simp_all add: rb_wf_def)
    then show ?thesis using old by (cases "k = i") (simp_all add: slot_ok_def)
  qed
  then show ?thesis using rb by (simp add: rb_wf_def)
qed

lemma rb_wf_ts: "rb_wf h rb \<Longrightarrow> length ts = 256 \<Longrightarrow> rb_wf h (rb\<lparr>rb_ts := ts\<rparr>)"
  by (simp add: rb_wf_def)

lemma covers_update:
  assumes "covers rb ds"
  shows "covers (rb\<lparr>rb_data := (rb_data rb)[i := Some buf1]\<rparr>) ds"
proof -
  have "rb_data rb ! k \<noteq> None \<Longrightarrow> (rb_data rb)[i := Some buf1] ! k \<noteq> None" for k
    by (cases "k = i"; cases "k < length (rb_data rb)") (simp_all add: list_update_beyond)
  then show ?thesis using assms by (simp add: covers_def)
qed

lemma covers_ts [simp]: "covers (rb\<lparr>rb_ts := ts\<rparr>) ds = covers rb ds"
  by (simp add: covers_def)

lemma rb_wf_slot:
  assumes "rb_wf h rb" "rb_data rb ! i = Some buf" "i < 256"
  shows "length buf = rb_cap rb ! i" "rb_len rb ! i = replen h ! i + 1" "rb_len rb ! i \<le> length buf" "length buf \<le> 256"
proof -
  have "slot_ok h i (rb_len rb ! i) (rb_cap rb ! i) (rb_data rb ! i)" using assms(1,3) unfolding rb_wf_def by blast
  then show "length buf = rb_cap rb ! i" "rb_len rb ! i = replen h ! i + 1" "rb_len rb ! i \<le> length buf" "length buf \<le> 256"
    using assms(2) by (simp_all add: slot_ok_def)
qed

lemma rb_wf_lengths: "rb_wf h rb \<Longrightarrow> length (rb_ts rb) = 256" "rb_wf h rb \<Longrightarrow> length (rb_data rb) = 256"
  by (simp_all add: rb_wf_def)

text \<open>Both buffers of a well-formed state and the coverage of the items.\<close>

definition rb_ok :: "HIDDesc_t \<Rightarrow> reportbuf_t \<Rightarrow> bool" where
  "rb_ok h rb \<longleftrightarrow> rb_wf h rb \<and> covers rb (item h)"

lemma rb_ok_update:
  "rb_ok h rb \<Longrightarrow> rb_data rb ! i = Some buf \<Longrightarrow> length buf1 = length buf \<Longrightarrow> i < 256 \<Longrightarrow>
   rb_ok h (rb\<lparr>rb_data := (rb_data rb)[i := Some buf1]\<rparr>)"
  by (simp add: rb_ok_def rb_wf_update covers_update)

lemma rb_ok_ts: "rb_ok h rb \<Longrightarrow> length ts = 256 \<Longrightarrow> rb_ok h (rb\<lparr>rb_ts := ts\<rparr>)"
  by (simp add: rb_ok_def rb_wf_ts)

lemma refresh_ok:
  assumes rb: "rb_ok h rb" and src: "report_source get_report" and buf: "rb_data rb ! unat (ReportID d) = Some buf"
  obtains r rb1 buf1 where "refresh_report_buffer io get_report now later rb d age = Some (r, rb1)" "r = 0 \<or> r = - 1"
    "rb_ok h rb1" "rb_data rb1 ! unat (ReportID d) = Some buf1" "length buf1 = length buf"
proof (cases "io \<or> rb_ts rb ! unat (ReportID d) + age > now")
  case True
  then show thesis using that [of 0 rb buf] rb buf by (simp add: refresh_report_buffer_def)
next
  case False
  let ?i = "unat (ReportID d)"
  have wf: "rb_wf h rb" and i: "?i < 256" using rb uint8_less by (simp_all add: rb_ok_def)
  note slot = rb_wf_slot [OF wf buf i]
  have cap: "\<not> rb_cap rb ! ?i > USB_CTRL_CHARBUFSIZE_MAX" using slot by (simp add: USB_CTRL_CHARBUFSIZE_MAX_def)
  obtain ret bs where g: "get_report (ReportID d) (rb_cap rb ! ?i) = (ret, bs)" by (meson surj_pair)
  then have "length bs \<le> length buf" using src slot(1) unfolding report_source_def by (metis snd_conv)
  then have f: "fill bs buf = Some (bs @ drop (length bs) buf)" and len: "length (bs @ drop (length bs) buf) = length buf"
    by (simp_all add: fill_some)
  define rb1 where "rb1 = rb\<lparr>rb_data := (rb_data rb)[?i := Some (bs @ drop (length bs) buf)]\<rparr>"
  have ok: "rb_ok h rb1" unfolding rb1_def by (rule rb_ok_update [OF rb buf len i])
  have at: "rb_data rb1 ! ?i = Some (bs @ drop (length bs) buf)" using i rb_wf_lengths(2) [OF wf] by (simp add: rb1_def)
  have ts: "rb_ok h (rb1\<lparr>rb_ts := (rb_ts rb1)[?i := later]\<rparr>)"
    by (rule rb_ok_ts [OF ok]) (use rb_wf_lengths(1) [OF wf] in \<open>simp add: rb1_def\<close>)
  have "refresh_report_buffer io get_report now later rb d age =
      Some (if ret \<le> 0 then (- 1, rb1) else (0, rb1\<lparr>rb_ts := (rb_ts rb1)[?i := later]\<rparr>))"
    using False cap g f buf by (simp add: refresh_report_buffer_def Let_def rb1_def)
  then show thesis using that [OF _ _ _ _ len] ok at ts by (cases "ret \<le> 0") simp_all
qed

section \<open>All accesses\<close>

definition item_of :: "HIDDesc_t \<Rightarrow> HIDData_t \<Rightarrow> bool" where
  "item_of h d \<longleftrightarrow> d \<in> set (item h) \<and> unat (DataSize d) \<le> 63"

lemma item_buffer:
  assumes "rb_ok h rb" "item_of h d"
  obtains buf where "rb_data rb ! unat (ReportID d) = Some buf" "replen h ! unat (ReportID d) < length buf"
    "length buf \<le> 256" "rb_len rb ! unat (ReportID d) \<le> length buf"
proof -
  obtain buf where b: "rb_data rb ! unat (ReportID d) = Some buf"
    using assms by (auto simp: rb_ok_def covers_def item_of_def)
  have "rb_wf h rb" using assms(1) by (simp add: rb_ok_def)
  note s = rb_wf_slot [OF this b uint8_less]
  show thesis by (rule that [OF b]) (use s in simp_all)
qed

lemma get_item_ok:
  assumes h: "desc_fits h" and rb: "rb_ok h rb" and d: "item_of h d" and src: "report_source get_report"
  obtains v rb1 where "get_item_buffered io get_report now later rb d age = Some (v, rb1)" "rb_ok h rb1"
    "\<forall>x. v = Some x \<longrightarrow> LogMin d \<le> LogMax d \<longrightarrow> LogMin d \<le> x \<and> x \<le> LogMax d"
proof -
  obtain buf where b: "rb_data rb ! unat (ReportID d) = Some buf" "replen h ! unat (ReportID d) < length buf"
    using item_buffer [OF rb d] by metis
  obtain r rb1 buf1 where r: "refresh_report_buffer io get_report now later rb d age = Some (r, rb1)" "r = 0 \<or> r = - 1"
    "rb_ok h rb1" "rb_data rb1 ! unat (ReportID d) = Some buf1" "length buf1 = length buf"
    using refresh_ok [OF rb src b(1)] by metis
  obtain v where v: "GetValue buf1 d = Some v" "LogMin d \<le> LogMax d \<longrightarrow> LogMin d \<le> v \<and> v \<le> LogMax d"
    using item_in_report(1) [OF h, of d buf1] d b(2) r(5) by (auto simp: item_of_def)
  show thesis
  proof (cases "r < 0")
    case True
    then show thesis using that [of None rb1] r(1,3) by (simp add: get_item_buffered_def)
  next
    case False
    then show thesis using that [of "Some v" rb1] r(1,3,4) v by (simp add: get_item_buffered_def)
  qed
qed

lemma set_item_ok:
  assumes h: "desc_fits h" and rb: "rb_ok h rb" and d: "item_of h d"
  obtains buf buf1 r rb1 where "rb_data rb ! unat (ReportID d) = Some buf" "SetValue d buf v = Some buf1"
    "length buf1 = length buf" "r = (if set_report (ReportID d) (take (rb_len rb ! unat (ReportID d)) buf1) \<le> 0 then - 1 else 0)" "rb_ok h rb1" "rb_data rb1 ! unat (ReportID d) = Some buf1"
    "set_item_buffered set_report rb d v = Some (r, take (rb_len rb ! unat (ReportID d)) buf1, rb1)"
proof -
  let ?i = "unat (ReportID d)"
  have i: "?i < 256" and wf: "rb_wf h rb" using rb uint8_less by (simp_all add: rb_ok_def)
  obtain buf where b: "rb_data rb ! ?i = Some buf" "replen h ! ?i < length buf" "length buf \<le> 256" "rb_len rb ! ?i \<le> length buf"
    using item_buffer [OF rb d] by metis
  obtain buf1 where b1: "SetValue d buf v = Some buf1" "length buf1 = length buf"
    using item_in_report(2) [OF h, of d buf v] d b(2) by (auto simp: item_of_def)
  define rb1 where "rb1 = rb\<lparr>rb_data := (rb_data rb)[?i := Some buf1]\<rparr>"
  have ok: "rb_ok h rb1" unfolding rb1_def by (rule rb_ok_update [OF rb b(1) b1(2) i])
  have at: "rb_data rb1 ! ?i = Some buf1" using i rb_wf_lengths(2) [OF wf] by (simp add: rb1_def)
  have ts: "rb_ok h (rb1\<lparr>rb_ts := (rb_ts rb1)[?i := 0]\<rparr>)"
    by (rule rb_ok_ts [OF ok]) (use rb_wf_lengths(1) [OF wf] in \<open>simp add: rb1_def\<close>)
  let ?sent = "take (rb_len rb ! ?i) buf1"
  have "set_item_buffered set_report rb d v =
      Some (if set_report (ReportID d) ?sent \<le> 0 then (- 1, ?sent, rb1) else (0, ?sent, rb1\<lparr>rb_ts := (rb_ts rb1)[?i := 0]\<rparr>))"
    using b b1 by (simp add: set_item_buffered_def Let_def USB_CTRL_CHARBUFSIZE_MAX_def rb1_def)
  then show thesis
    using that [OF b(1) b1] ok at ts by (cases "set_report (ReportID d) ?sent \<le> 0") simp_all
qed

lemma set_logical_ok:
  assumes h: "desc_fits h" and rb: "rb_ok h rb" and d: "item_of h d"
  obtains r rb1 where "set_logical set_report rb d v = Some (r, rb1)" "rb_ok h rb1"
proof (cases "Attribute d = ATTR_DATA_CST")
  case True
  then show thesis using that rb by (simp add: set_logical_def)
next
  case False
  obtain r sent rb1 where r: "set_item_buffered set_report rb d v = Some (r, sent, rb1)" "rb_ok h rb1"
    using set_item_ok [OF h rb d, of v set_report] by metis
  have "rb_ok h (rb1\<lparr>rb_ts := map (\<lambda>_. 0) (rb_ts rb1)\<rparr>)"
    by (rule rb_ok_ts [OF r(2)]) (use r(2) in \<open>simp add: rb_ok_def rb_wf_def\<close>)
  then show thesis using that False r by (cases "r < 0") (simp_all add: set_logical_def)
qed

lemma file_report_ok:
  assumes rb: "rb_ok h rb" and bs: "bs \<noteq> []"
  obtains rb1 where "file_report_buffer now rb bs = Some rb1" "rb_ok h rb1"
proof -
  obtain b rest where br: "bs = b # rest" using bs by (cases bs) auto
  let ?i = "unat b"
  have i: "?i < 256" and wf: "rb_wf h rb" using rb uint8_less by (simp_all add: rb_ok_def)
  have tslen: "length ((rb_ts rb)[?i := now]) = 256" using wf by (simp add: rb_wf_def)
  have rd: "read_at bs 0 = Some b" by (simp add: br read_at_def)
  let ?bs = "take (min (length bs) (rb_len rb ! ?i)) bs"
  show thesis
  proof (cases "rb_data rb ! ?i")
    case None
    have "slot_ok h ?i (rb_len rb ! ?i) (rb_cap rb ! ?i) None" using wf i None unfolding rb_wf_def by metis
    then have len: "rb_len rb ! ?i = 0" by (simp add: slot_ok_def)
    have "(rb_data rb)[?i := None] = rb_data rb" using None by (metis list_update_id)
    then have "file_report_buffer now rb bs = Some (rb\<lparr>rb_ts := (rb_ts rb)[?i := now]\<rparr>)"
      using None len rd by (simp add: file_report_buffer_def Let_def)
    then show thesis using that rb_ok_ts [OF rb tslen] by simp
  next
    case (Some buf)
    note slot = rb_wf_slot [OF wf Some i]
    have f: "fill ?bs buf = Some (?bs @ drop (length ?bs) buf)" "length (?bs @ drop (length ?bs) buf) = length buf"
      using slot by (simp_all add: fill_some)
    have "rb_ok h (rb\<lparr>rb_data := (rb_data rb)[?i := Some (?bs @ drop (length ?bs) buf)], rb_ts := (rb_ts rb)[?i := now]\<rparr>)"
      using rb_ok_ts [OF rb_ok_update [OF rb Some f(2) i] tslen] by simp
    moreover have "file_report_buffer now rb bs =
        Some (rb\<lparr>rb_data := (rb_data rb)[?i := Some (?bs @ drop (length ?bs) buf)], rb_ts := (rb_ts rb)[?i := now]\<rparr>)"
      using Some f(1) rd by (simp add: file_report_buffer_def Let_def)
    ultimately show thesis using that by simp
  qed
qed

text \<open>Events are the first input items of the report that arrived.\<close>

lemma event_items_eq:
  "event_items rid m n ds = take (m - n) (filter (\<lambda>d. ReportID d = rid \<and> DataType d = ITEM_INPUT) ds)"
  by (induction ds arbitrary: n) (auto simp: take_Cons' Suc_diff_le)

lemma events_ok:
  assumes rb: "rb_ok h rb" and src: "interrupt_source get_interrupt"
  obtains code evs rb1 where "HIDGetEvents isz get_interrupt now n items rb = Some (code, evs, rb1)" "rb_ok h rb1"
    "set evs \<subseteq> {d \<in> set items. DataType d = ITEM_INPUT}" "length evs \<le> n"
proof -
  define r where "r = (if isz > 0 \<and> isz < SMALLBUF then isz else SMALLBUF)"
  have r: "r \<le> SMALLBUF" by (simp add: r_def)
  show thesis
  proof (cases "get_interrupt r")
    case (Inl code)
    then show thesis using that [of code "[]" rb] rb by (simp add: HIDGetEvents_def Let_def flip: r_def)
  next
    case (Inr bs)
    then have bs: "bs \<noteq> []" "length bs \<le> r" using src by (auto simp: interrupt_source_def)
    obtain rb1 where f: "file_report_buffer now rb bs = Some rb1" "rb_ok h rb1" using file_report_ok [OF rb bs(1)] by metis
    have "read_at bs 0 = Some (hd bs)" using bs(1) by (cases bs) (simp_all add: read_at_def)
    then have "HIDGetEvents isz get_interrupt now n items rb =
        Some (int (length (event_items (hd bs) n 0 items)), event_items (hd bs) n 0 items, rb1)"
      using f(1) Inr bs(2) r by (simp add: HIDGetEvents_def Let_def flip: r_def)
    moreover have "set (event_items (hd bs) n 0 items) \<subseteq> {d \<in> set items. DataType d = ITEM_INPUT}"
      "length (event_items (hd bs) n 0 items) \<le> n"
      by (auto simp: event_items_eq dest: in_set_takeD)
    ultimately show thesis using that f(2) by blast
  qed
qed

section \<open>A device in use\<close>

text \<open>
  The states of the buffers of a device with the parsed descriptor \<open>h\<close>, whatever it answers
  and whenever the driver asks.
\<close>

inductive rb_reaches :: "HIDDesc_t \<Rightarrow> reportbuf_t \<Rightarrow> bool" for h where
  opened: "rb_reaches h (new_report_buffer mx h)"
| get: "rb_reaches h rb \<Longrightarrow> item_of h d \<Longrightarrow> report_source src \<Longrightarrow>
    get_item_buffered io src now later rb d age = Some (v, rb1) \<Longrightarrow> rb_reaches h rb1"
| put: "rb_reaches h rb \<Longrightarrow> item_of h d \<Longrightarrow> set_logical sink rb d v = Some (r, rb1) \<Longrightarrow> rb_reaches h rb1"
| event: "rb_reaches h rb \<Longrightarrow> interrupt_source intr \<Longrightarrow>
    HIDGetEvents isz intr now n (item h) rb = Some (code, evs, rb1) \<Longrightarrow> rb_reaches h rb1"

lemma rb_reaches_ok:
  assumes "rb_reaches h rb" and h: "desc_fits h"
  shows "rb_ok h rb"
  using assms(1)
proof (induction rule: rb_reaches.induct)
  case (opened mx)
  then show ?case using new_report_buffer_wf [OF h] by (simp add: rb_ok_def)
next
  case (get rb d src io now later age v rb1)
  then show ?case using get_item_ok [OF h get.IH get.hyps(2,3), of io now later age] by auto
next
  case (put rb d sink v r rb1)
  then show ?case using set_logical_ok [OF h put.IH put.hyps(2), of sink v] by auto
next
  case (event rb intr isz now n code evs rb1)
  then show ?case using events_ok [OF event.IH event.hyps(2), of isz now n "item h"] by auto
qed

text \<open>
  Property C23: whatever the descriptor of a device says and whatever was read, written and
  received before, reading an item of at most 63 bits stays within the report's buffer and
  gives a value within its limits (or the error of the device), writing one stays within the
  buffer, and so do events.
\<close>

theorem hid_access_safe:
  assumes parsed: "Parse_ReportDesc desc = Some (Some h)" and run: "rb_reaches h rb" and d: "item_of h d"
    and src: "report_source src" "interrupt_source intr"
  shows "(\<exists>v rb1. get_item_buffered io src now later rb d age = Some (v, rb1) \<and>
      (\<forall>x. v = Some x \<longrightarrow> LogMin d \<le> LogMax d \<longrightarrow> LogMin d \<le> x \<and> x \<le> LogMax d)) \<and>
    (\<exists>r rb1. set_logical sink rb d x = Some (r, rb1)) \<and>
    (\<exists>code evs rb1. HIDGetEvents isz intr now n (item h) rb = Some (code, evs, rb1) \<and> length evs \<le> n)"
proof -
  have h: "desc_fits h" by (rule parsed_fits [OF parsed])
  have rb: "rb_ok h rb" by (rule rb_reaches_ok [OF run h])
  obtain v rb1 where "get_item_buffered io src now later rb d age = Some (v, rb1)"
    "\<forall>x. v = Some x \<longrightarrow> LogMin d \<le> LogMax d \<longrightarrow> LogMin d \<le> x \<and> x \<le> LogMax d"
    by (rule get_item_ok [OF h rb d src(1), of io now later age])
  moreover obtain r rb2 where "set_logical sink rb d x = Some (r, rb2)"
    by (rule set_logical_ok [OF h rb d, of sink x])
  moreover obtain code evs rb3 where "HIDGetEvents isz intr now n (item h) rb = Some (code, evs, rb3)" "length evs \<le> n"
    by (rule events_ok [OF rb src(2), of isz now n "item h"])
  ultimately show ?thesis by blast
qed

text \<open>
  Property C24: a logical value within the limits of an item that the device accepted is the
  value that the next reading gives, when the device answers with the bytes it was sent; the
  items of the report that do not share bits with it are sent and read unchanged.
\<close>

theorem written_item_read_back:
  assumes parsed: "Parse_ReportDesc desc = Some (Some h)" and run: "rb_reaches h rb" and d: "item_of h d"
    and wide: "if LogMin d < 0 then field_bits d < unat (DataSize d) else v < 2 ^ unat (DataSize d)"
    and range: "LogMin d \<le> v" "v \<le> LogMax d"
    and accepted: "set_item_buffered sink rb d v = Some (0, sent, rb1)"
    and echo: "\<forall>r. src (ReportID d) r = (int (length sent), sent)"
  shows "\<exists>rb2. get_item_buffered io src now later rb1 d age = Some (Some v, rb2) \<and>
    (\<forall>e. ReportID e = ReportID d \<longrightarrow>
       unat (Offset e) + unat (DataSize e) \<le> unat (Offset d) \<or> unat (Offset d) + unat (DataSize d) \<le> unat (Offset e) \<longrightarrow>
       map_option (\<lambda>buf. GetValue buf e) (rb_data rb2 ! unat (ReportID d)) =
       map_option (\<lambda>buf. GetValue buf e) (rb_data rb ! unat (ReportID d)))"
proof -
  let ?i = "unat (ReportID d)"
  have h: "desc_fits h" by (rule parsed_fits [OF parsed])
  have rb: "rb_ok h rb" by (rule rb_reaches_ok [OF run h])
  obtain buf buf1 rb0 where b: "rb_data rb ! ?i = Some buf" "SetValue d buf v = Some buf1" "length buf1 = length buf"
      "rb_ok h rb1" "rb_data rb1 ! ?i = Some buf1" "sent = take (rb_len rb ! ?i) buf1"
    using set_item_ok [OF h rb d, of v sink] accepted by (smt (verit) Pair_inject option.inject)
  obtain bf where bf: "rb_data rb ! ?i = Some bf" "replen h ! ?i < length bf" "length bf \<le> 256" "rb_len rb ! ?i \<le> length bf"
    using item_buffer [OF rb d] by metis
  have buf: "replen h ! ?i < length buf" "rb_len rb ! ?i \<le> length buf" using bf b(1) by simp_all
  have logs: "logs_ok d" and mem: "d \<in> set (item h)" and narrow: "unat (DataSize d) \<le> 63"
    using h d by (auto simp: desc_fits_def item_of_def)
  note room = item_in_report(3) [OF h mem buf(1) narrow]
  have v: "GetValue buf1 d = Some v" using value_kept [OF room wide narrow logs range] b(2) by auto
  have wf: "rb_wf h rb1" "rb_wf h rb" using b(4) rb by (simp_all add: rb_ok_def)
  have len: "rb_len rb ! ?i = replen h ! ?i + 1" using rb_wf_slot(2) [OF wf(2) b(1) uint8_less] .
  have "0 < length sent" using b(6) len buf b(3) by simp
  moreover have "fill sent buf1 = Some buf1" using b(3,6) buf(2) by (simp add: fill_def)
  ultimately have "\<exists>rb2. refresh_report_buffer io src now later rb1 d age = Some (0, rb2) \<and> rb_data rb2 ! ?i = Some buf1"
    using echo b(5) rb_wf_lengths(2) [OF wf(1)] uint8_less [of "ReportID d"]
    by (auto simp: refresh_report_buffer_def Let_def)
  then obtain rb2 where r: "refresh_report_buffer io src now later rb1 d age = Some (0, rb2)" "rb_data rb2 ! ?i = Some buf1"
    by blast
  have "GetValue buf1 e = GetValue buf e"
    if "unat (Offset e) + unat (DataSize e) \<le> unat (Offset d) \<or> unat (Offset d) + unat (DataSize d) \<le> unat (Offset e)" for e
    by (rule other_value_kept [OF b(2) room narrow that])
  then show ?thesis using r v b(1) by (simp add: get_item_buffered_def)
qed

text \<open>A descriptor with one field of eight bits for values from -100 to 100.\<close>

definition sample_desc :: "uint8 list" where
  "sample_desc = [0x05, 0x84, 0x09, 0x04, 0xA1, 0x01, 0x85, 0x01, 0x09, 0x40, 0x75, 0x08, 0x95, 0x01,
     0x15, 0x9C, 0x25, 0x64, 0xB1, 0x02, 0xC0]"

lemma sample_parsed:
  "map_option (map_option (\<lambda>h. (map (\<lambda>d. (ReportID d, Offset d, DataSize d, LogMin d, LogMax d)) (item h), replen h ! 1)))
     (Parse_ReportDesc sample_desc) = Some (Some ([(1, 0, 8, - 100, 100)], 1))"
  by code_simp

lemma sample_item:
  obtains h d where "Parse_ReportDesc sample_desc = Some (Some h)" "item_of h d" "item h = [d]" "ReportID d = 1" "Offset d = 0"
    "DataSize d = 8" "LogMin d = - 100" "LogMax d = 100"
proof -
  obtain h where h: "Parse_ReportDesc sample_desc = Some (Some h)"
      "map (\<lambda>d. (ReportID d, Offset d, DataSize d, LogMin d, LogMax d)) (item h) = [(1, 0, 8, - 100, 100)]"
    using sample_parsed by auto
  then obtain d where "item h = [d]" "ReportID d = 1" "Offset d = 0" "DataSize d = 8" "LogMin d = - 100" "LogMax d = 100"
    by auto
  then show thesis using that [OF h(1)] by (simp add: item_of_def)
qed

theorem hid_access_safe_witness:
  "\<exists>h d. Parse_ReportDesc sample_desc = Some (Some h) \<and> item h = [d] \<and>
     (\<exists>v rb1. get_item_buffered False (\<lambda>rid r. (int r, replicate r 0xff)) 10 10 (new_report_buffer True h) d 2 = Some (v, rb1))"
proof -
  obtain h d where s: "Parse_ReportDesc sample_desc = Some (Some h)" "item_of h d" "item h = [d]"
    by (rule sample_item)
  have "report_source (\<lambda>rid r. (int r, replicate r 0xff))" "interrupt_source (\<lambda>r. Inl 0)"
    by (simp_all add: report_source_def interrupt_source_def)
  from hid_access_safe [OF s(1) rb_reaches.opened s(2) this] s(1,3) show ?thesis by blast
qed

theorem written_item_read_back_witness:
  "\<exists>h d sent rb1 rb2. Parse_ReportDesc sample_desc = Some (Some h) \<and> item h = [d] \<and>
     set_item_buffered (\<lambda>_ _. 1) (new_report_buffer False h) d (- 77) = Some (0, sent, rb1) \<and>
     get_item_buffered False (\<lambda>_ _. (int (length sent), sent)) 10 10 rb1 d 2 = Some (Some (- 77), rb2)"
proof -
  obtain h d where s: "Parse_ReportDesc sample_desc = Some (Some h)" "item_of h d" "item h = [d]" "DataSize d = 8"
      "LogMin d = - 100" "LogMax d = 100"
    by (rule sample_item)
  have bits: "field_bits d = 7" using s(5,6)
    by (simp add: field_bits_def magnitude_def hibit_def hibit_loop.simps hibit_low.simps)
  have h: "desc_fits h" by (rule parsed_fits [OF s(1)])
  have "rb_ok h (new_report_buffer False h)" using new_report_buffer_wf [OF h] by (simp add: rb_ok_def)
  then obtain sent rb1 where w: "set_item_buffered (\<lambda>_ _. 1) (new_report_buffer False h) d (- 77) = Some (0, sent, rb1)"
    using set_item_ok [OF h _ s(2), of "new_report_buffer False h" "- 77" "\<lambda>_ _. 1"] by (metis not_one_le_zero)
  have wide: "if LogMin d < 0 then field_bits d < unat (DataSize d) else - 77 < 2 ^ unat (DataSize d)"
    using s(4,5) bits by simp
  have "\<exists>rb2. get_item_buffered False (\<lambda>_ _. (int (length sent), sent)) 10 10 rb1 d 2 = Some (Some (- 77), rb2)"
    using written_item_read_back [OF s(1) rb_reaches.opened s(2) wide _ _ w, of "\<lambda>_ _. (int (length sent), sent)" False 10 10 2]
      s(5,6) by auto
  then show ?thesis using s(1,3) w by blast
qed

end
