(* ===== verification/Parseconf.thy ===== *)
theory Parseconf
  imports NutPrelude
begin

text \<open>
  Model of \<open>src/common/parseconf.c\<close> and \<open>src/include/parseconf.h\<close>: the
  character-driven tokenizer behind every configuration file and both NUT text
  protocols, and \<open>pconf_encode\<close>, its inverse.

  The context record keeps the fields of \<open>PCONF_CTX_t\<close>, including the buffer sizes
  that drive the \<open>realloc\<close> calls, so that the memory safety of the word and argument
  buffers can be stated. Memory allocation is assumed to succeed (\<open>pconf_fatal\<close> exits
  the program otherwise); messages to \<open>stderr\<close> and the \<open>errhandler\<close> pointer are left out.
  A \<open>FILE *\<close> is the list of the bytes not yet read.
\<close>

section \<open>Context\<close>

datatype pconf_state =
    STATE_FINDWORDSTART
  | STATE_FINDEOL
  | STATE_QUOTECOLLECT
  | STATE_QC_LITERAL
  | STATE_COLLECT
  | STATE_COLLECTLITERAL
  | STATE_ENDOFLINE
  | STATE_PARSEERR

definition PCONF_CTX_t_MAGIC :: int where "PCONF_CTX_t_MAGIC = 0x00726630"
definition PCONF_ERR_LEN :: nat where "PCONF_ERR_LEN = 256"
definition PCONF_DEFAULT_ARG_LIMIT :: nat where "PCONF_DEFAULT_ARG_LIMIT = 32"
definition PCONF_DEFAULT_WORDLEN_LIMIT :: nat where "PCONF_DEFAULT_WORDLEN_LIMIT = 512"

record PCONF_CTX_t =
  ctx_f :: "cstring option"
  ctx_state :: pconf_state
  ctx_ch :: int
  arglist :: "cstring list"
  argsize :: "nat list"
  numargs :: nat
  maxargs :: nat
  wordbuf :: cstring
  wordptr :: nat
  wordbufsize :: nat
  linenum :: nat
  ctx_error :: int
  ctx_errmsg :: cstring
  ctx_magic :: int
  arg_limit :: nat
  wordlen_limit :: nat

text \<open>What the callers read: the first \<open>numargs\<close> entries of \<open>arglist\<close>.\<close>

definition ctx_args :: "PCONF_CTX_t \<Rightarrow> cstring list" where
  "ctx_args ctx = take (numargs ctx) (arglist ctx)"

section \<open>The character machine\<close>

definition add_arg_word :: "PCONF_CTX_t \<Rightarrow> PCONF_CTX_t" where
  "add_arg_word ctx =
     (let argpos = numargs ctx;
          ctx1 = ctx\<lparr>numargs := argpos + 1\<rparr>;
          ctx2 = (if numargs ctx1 > maxargs ctx1
                  then ctx1\<lparr>maxargs := numargs ctx1,
                            arglist := take argpos (arglist ctx1) @ [[]],
                            argsize := take argpos (argsize ctx1) @ [0]\<rparr>
                  else ctx1);
          wbuflen = length (wordbuf ctx2);
          ctx3 = (if wbuflen \<ge> argsize ctx2 ! argpos
                  then ctx2\<lparr>argsize := (argsize ctx2)[argpos := wbuflen + 1]\<rparr>
                  else ctx2)
      in ctx3\<lparr>arglist := (arglist ctx3)[argpos := wordbuf ctx3]\<rparr>)"

definition addchar :: "PCONF_CTX_t \<Rightarrow> PCONF_CTX_t" where
  "addchar ctx =
     (let wbuflen = length (wordbuf ctx) in
      if ctx_ch ctx < 0x20 \<or> ctx_ch ctx > 0x7f then ctx
      else if wordlen_limit ctx \<noteq> 0 \<and> wbuflen \<ge> wordlen_limit ctx then ctx
      else
        let ctx1 = (if wbuflen \<ge> wordbufsize ctx - 1
                    then ctx\<lparr>wordbufsize := wordbufsize ctx + 8, wordptr := wbuflen\<rparr>
                    else ctx)
        in ctx1\<lparr>wordbuf := take (wordptr ctx1) (wordbuf ctx1) @ [char_of (nat (ctx_ch ctx1))],
                wordptr := wordptr ctx1 + 1\<rparr>)"

definition endofword :: "PCONF_CTX_t \<Rightarrow> PCONF_CTX_t" where
  "endofword ctx =
     (if arg_limit ctx \<noteq> 0 \<and> numargs ctx \<ge> arg_limit ctx
      then ctx\<lparr>wordptr := 0, wordbuf := []\<rparr>
      else (add_arg_word ctx)\<lparr>wordptr := 0, wordbuf := []\<rparr>)"

definition findwordstart :: "PCONF_CTX_t \<Rightarrow> pconf_state \<times> PCONF_CTX_t" where
  "findwordstart ctx =
     (if ctx_ch ctx = 10 then (STATE_ENDOFLINE, ctx)
      else if ctx_ch ctx = 35 then (STATE_FINDEOL, ctx)
      else if isspace (ctx_ch ctx) then (STATE_FINDWORDSTART, ctx)
      else if ctx_ch ctx = 92 then (STATE_COLLECTLITERAL, ctx)
      else if ctx_ch ctx = 34 then (STATE_QUOTECOLLECT, ctx)
      else
        let ctx1 = addchar ctx in
        if ctx_ch ctx1 = 61 then (STATE_FINDWORDSTART, endofword ctx1)
        else (STATE_COLLECT, ctx1))"

definition findeol :: "PCONF_CTX_t \<Rightarrow> pconf_state \<times> PCONF_CTX_t" where
  "findeol ctx = (if ctx_ch ctx = 10 then (STATE_ENDOFLINE, ctx) else (STATE_FINDEOL, ctx))"

definition quotecollect :: "PCONF_CTX_t \<Rightarrow> pconf_state \<times> PCONF_CTX_t" where
  "quotecollect ctx =
     (if ctx_ch ctx = 34 then (STATE_FINDWORDSTART, endofword ctx)
      else if ctx_ch ctx = 92 then (STATE_QC_LITERAL, ctx)
      else (STATE_QUOTECOLLECT, addchar ctx))"

definition qc_literal :: "PCONF_CTX_t \<Rightarrow> pconf_state \<times> PCONF_CTX_t" where
  "qc_literal ctx =
     (if ctx_ch ctx = 10 then (STATE_QUOTECOLLECT, ctx) else (STATE_QUOTECOLLECT, addchar ctx))"

definition collect :: "PCONF_CTX_t \<Rightarrow> pconf_state \<times> PCONF_CTX_t" where
  "collect ctx =
     (if ctx_ch ctx = 35 then (STATE_FINDEOL, endofword ctx)
      else if ctx_ch ctx = 10 then (STATE_ENDOFLINE, endofword ctx)
      else if isspace (ctx_ch ctx) then (STATE_FINDWORDSTART, endofword ctx)
      else if ctx_ch ctx = 61
        then (STATE_FINDWORDSTART, snd (findwordstart (endofword ctx)))
      else if ctx_ch ctx = 92 then (STATE_COLLECTLITERAL, ctx)
      else (STATE_COLLECT, addchar ctx))"

definition collectliteral :: "PCONF_CTX_t \<Rightarrow> pconf_state \<times> PCONF_CTX_t" where
  "collectliteral ctx =
     (if ctx_ch ctx = 10 then (STATE_COLLECT, ctx) else (STATE_COLLECT, addchar ctx))"

definition parse_char :: "PCONF_CTX_t \<Rightarrow> PCONF_CTX_t" where
  "parse_char ctx =
     (let run = (\<lambda>g. case g ctx of (st, ctx1) \<Rightarrow> ctx1\<lparr>ctx_state := st\<rparr>) in
      case ctx_state ctx of
        STATE_FINDWORDSTART \<Rightarrow> run findwordstart
      | STATE_FINDEOL \<Rightarrow> run findeol
      | STATE_QUOTECOLLECT \<Rightarrow> run quotecollect
      | STATE_QC_LITERAL \<Rightarrow> run qc_literal
      | STATE_COLLECT \<Rightarrow> run collect
      | STATE_COLLECTLITERAL \<Rightarrow> run collectliteral
      | _ \<Rightarrow> ctx)"

definition at_line_end :: "PCONF_CTX_t \<Rightarrow> bool" where
  "at_line_end ctx \<longleftrightarrow> ctx_state ctx = STATE_PARSEERR \<or> ctx_state ctx = STATE_ENDOFLINE"

section \<open>Entry points\<close>

definition pconf_init :: "PCONF_CTX_t \<Rightarrow> PCONF_CTX_t" where
  "pconf_init ctx =
     ctx\<lparr>ctx_f := None, ctx_state := STATE_FINDWORDSTART, numargs := 0, maxargs := 0,
         arg_limit := PCONF_DEFAULT_ARG_LIMIT, wordlen_limit := PCONF_DEFAULT_WORDLEN_LIMIT,
         linenum := 0, ctx_error := 0, arglist := [], argsize := [], wordbufsize := 16,
         wordbuf := [], wordptr := 0, ctx_magic := PCONF_CTX_t_MAGIC\<rparr>"

definition check_magic :: "PCONF_CTX_t \<Rightarrow> bool \<times> PCONF_CTX_t" where
  "check_magic ctx =
     (if ctx_magic ctx \<noteq> PCONF_CTX_t_MAGIC
      then (False, ctx\<lparr>ctx_errmsg := ''Invalid ctx buffer''\<rparr>)
      else (True, ctx))"

text \<open>
  \<open>fopen\<close> is the contents of the file, or the text of \<open>strerror(errno)\<close> when the
  call fails.
\<close>

definition pconf_file_begin ::
  "PCONF_CTX_t \<Rightarrow> cstring \<Rightarrow> cstring + cstring \<Rightarrow> int \<times> PCONF_CTX_t" where
  "pconf_file_begin ctx fn fopen =
     (case check_magic ctx of
        (False, ctx1) \<Rightarrow> (0, ctx1)
      | (True, ctx1) \<Rightarrow>
         (case fopen of
            Inl err \<Rightarrow>
              (0, ctx1\<lparr>ctx_f := None,
                       ctx_errmsg := take (PCONF_ERR_LEN - 1)
                                       (''Can'' @ [CHR 39] @ ''t open '' @ fn @ '': '' @ err)\<rparr>)
          | Inr bytes \<Rightarrow> (1, ctx1\<lparr>ctx_f := Some bytes\<rparr>)))"

definition pconf_parse_error :: "PCONF_CTX_t \<Rightarrow> int \<times> PCONF_CTX_t" where
  "pconf_parse_error ctx =
     (case check_magic ctx of
        (False, ctx1) \<Rightarrow> (0, ctx1)
      | (True, ctx1) \<Rightarrow>
          if ctx_error ctx1 = 1 then (1, ctx1\<lparr>ctx_error := 0\<rparr>) else (0, ctx1))"

text \<open>\<open>free(ctx->wordbuf)\<close> leaves a dangling pointer behind: the buffer has no room left.\<close>

definition free_storage :: "PCONF_CTX_t \<Rightarrow> PCONF_CTX_t" where
  "free_storage ctx =
     ctx\<lparr>wordbuf := [], arglist := [], argsize := [], numargs := 0, maxargs := 0\<rparr>"

definition pconf_finish :: "PCONF_CTX_t \<Rightarrow> PCONF_CTX_t" where
  "pconf_finish ctx =
     (case check_magic ctx of
        (False, ctx1) \<Rightarrow> ctx1
      | (True, ctx1) \<Rightarrow> (free_storage ctx1)\<lparr>ctx_magic := 0\<rparr>)"

definition start_line :: "PCONF_CTX_t \<Rightarrow> PCONF_CTX_t" where
  "start_line ctx =
     ctx\<lparr>linenum := linenum ctx + 1, numargs := 0, ctx_state := STATE_FINDWORDSTART\<rparr>"

text \<open>
  The \<open>fgetc\<close> loop of \<open>pconf_file_next\<close>: whether it left through one of its returns,
  the context, and the bytes still unread. Bytes from \<open>fgetc\<close> are unsigned.
\<close>

fun file_loop :: "PCONF_CTX_t \<Rightarrow> cstring \<Rightarrow> bool \<times> PCONF_CTX_t \<times> cstring" where
  "file_loop ctx [] = (False, ctx\<lparr>ctx_ch := - 1\<rparr>, [])"
| "file_loop ctx (c # cs) =
     (let ctx1 = parse_char (ctx\<lparr>ctx_ch := int (code_of c)\<rparr>) in
      if at_line_end ctx1 then (True, ctx1, cs) else file_loop ctx1 cs)"

text \<open>\<open>None\<close>: the code dereferences a \<open>NULL\<close> stream.\<close>

definition pconf_file_next :: "PCONF_CTX_t \<Rightarrow> (int \<times> PCONF_CTX_t) option" where
  "pconf_file_next ctx =
     (case check_magic ctx of
        (False, ctx1) \<Rightarrow> Some (0, ctx1)
      | (True, ctx1) \<Rightarrow>
         (case ctx_f ctx1 of
            None \<Rightarrow> None
          | Some bytes \<Rightarrow>
             (case file_loop (start_line ctx1) bytes of
                (stopped, ctx2, rest) \<Rightarrow>
                  let ctx3 = ctx2\<lparr>ctx_f := Some rest\<rparr> in
                  if stopped then Some (1, ctx3)
                  else if numargs ctx3 \<noteq> 0
                    then Some (1, if wordptr ctx3 \<noteq> 0 then endofword ctx3 else ctx3)
                  else Some (0, ctx3))))"

fun line_loop :: "PCONF_CTX_t \<Rightarrow> cstring \<Rightarrow> bool \<times> PCONF_CTX_t" where
  "line_loop ctx [] = (False, ctx)"
| "line_loop ctx (c # cs) =
     (let ctx1 = parse_char (ctx\<lparr>ctx_ch := schar c\<rparr>) in
      if at_line_end ctx1 then (True, ctx1) else line_loop ctx1 cs)"

definition pconf_line :: "PCONF_CTX_t \<Rightarrow> cstring \<Rightarrow> int \<times> PCONF_CTX_t" where
  "pconf_line ctx line =
     (case check_magic ctx of
        (False, ctx1) \<Rightarrow> (0, ctx1)
      | (True, ctx1) \<Rightarrow>
         (case line_loop (start_line ctx1) line of
            (True, ctx2) \<Rightarrow> (1, ctx2)
          | (False, ctx2) \<Rightarrow> (1, if wordptr ctx2 \<noteq> 0 then endofword ctx2 else ctx2)))"

definition pconf_char :: "PCONF_CTX_t \<Rightarrow> char \<Rightarrow> int \<times> PCONF_CTX_t" where
  "pconf_char ctx c =
     (case check_magic ctx of
        (False, ctx1) \<Rightarrow> (- 1, ctx1)
      | (True, ctx1) \<Rightarrow>
          let ctx2 = (if at_line_end ctx1
                      then ctx1\<lparr>numargs := 0, ctx_state := STATE_FINDWORDSTART\<rparr>
                      else ctx1);
              ctx3 = parse_char (ctx2\<lparr>ctx_ch := schar c\<rparr>)
          in if ctx_state ctx3 = STATE_ENDOFLINE then (1, ctx3)
             else if ctx_state ctx3 = STATE_PARSEERR then (- 1, ctx3)
             else (0, ctx3))"

section \<open>Encoding\<close>

text \<open>\<open>#\<close>, backslash and double quote.\<close>

definition PCONF_ESCAPE :: cstring where
  "PCONF_ESCAPE = [CHR 35, CHR 92, CHR 34]"

text \<open>\<open>a - b\<close> on \<open>size_t\<close> (64 bits), for \<open>a\<close> and \<open>b\<close> in range.\<close>

definition size_sub :: "nat \<Rightarrow> nat \<Rightarrow> nat" where
  "size_sub a b = (if b \<le> a then a - b else 2 ^ 64 + a - b)"

fun pconf_encode_loop :: "nat \<Rightarrow> cstring \<Rightarrow> cstring \<Rightarrow> cstring" where
  "pconf_encode_loop maxlen dest [] = dest"
| "pconf_encode_loop maxlen dest (c # cs) =
     (if c \<in> set PCONF_ESCAPE then
        if length dest \<ge> size_sub maxlen 1 then dest
        else
          let dest1 = dest @ [CHR 92] in
          if length dest1 \<ge> maxlen then dest1
          else pconf_encode_loop maxlen (dest1 @ [c]) cs
      else if length dest \<ge> maxlen then dest
      else pconf_encode_loop maxlen (dest @ [c]) cs)"

text \<open>
  The bytes stored in \<open>dest\<close>, which holds \<open>destsize\<close> bytes and is zeroed first: it is
  a C string when fewer than \<open>destsize\<close> bytes were stored.
\<close>

definition pconf_encode :: "cstring \<Rightarrow> cstring \<Rightarrow> nat \<Rightarrow> cstring" where
  "pconf_encode src dest destsize =
     (if destsize < 1 then dest else pconf_encode_loop (destsize - 1) [] src)"

end
