(* ===== verification/ParseconfSpec.thy ===== *)
theory ParseconfSpec
  imports Parseconf
begin

text \<open>
  What the tokenizer of \<^const>\<open>parse_char\<close> promises: a buffer-free lexer as its
  specification with a refinement proof, the memory-safety invariant of the context, the
  agreement of the three ways of feeding characters, and the round trip through
  \<^const>\<open>pconf_encode\<close>.
\<close>

section \<open>Specification: a lexer without buffers\<close>

type_synonym lexer = "pconf_state \<times> cstring \<times> cstring list"

text \<open>\<open>wl\<close> and \<open>al\<close> are the word length and argument limits, 0 for none.\<close>

definition push :: "nat \<Rightarrow> int \<Rightarrow> cstring \<Rightarrow> cstring" where
  "push wl ch w =
     (if 0x20 \<le> ch \<and> ch \<le> 0x7f \<and> (wl = 0 \<or> length w < wl) then w @ [char_of (nat ch)] else w)"

definition commit :: "nat \<Rightarrow> cstring \<Rightarrow> cstring list \<Rightarrow> cstring list" where
  "commit al w ws = (if al \<noteq> 0 \<and> al \<le> length ws then ws else ws @ [w])"

definition lex_start :: "nat \<Rightarrow> nat \<Rightarrow> int \<Rightarrow> cstring \<Rightarrow> cstring list \<Rightarrow> lexer" where
  "lex_start al wl ch w ws =
     (if ch = 10 then (STATE_ENDOFLINE, w, ws)
      else if ch = 35 then (STATE_FINDEOL, w, ws)
      else if isspace ch then (STATE_FINDWORDSTART, w, ws)
      else if ch = 92 then (STATE_COLLECTLITERAL, w, ws)
      else if ch = 34 then (STATE_QUOTECOLLECT, w, ws)
      else if ch = 61 then (STATE_FINDWORDSTART, [], commit al (push wl ch w) ws)
      else (STATE_COLLECT, push wl ch w, ws))"

fun lex_step :: "nat \<Rightarrow> nat \<Rightarrow> int \<Rightarrow> lexer \<Rightarrow> lexer" where
  "lex_step al wl ch (STATE_FINDWORDSTART, w, ws) = lex_start al wl ch w ws"
| "lex_step al wl ch (STATE_FINDEOL, w, ws) =
     (if ch = 10 then (STATE_ENDOFLINE, w, ws) else (STATE_FINDEOL, w, ws))"
| "lex_step al wl ch (STATE_QUOTECOLLECT, w, ws) =
     (if ch = 34 then (STATE_FINDWORDSTART, [], commit al w ws)
      else if ch = 92 then (STATE_QC_LITERAL, w, ws)
      else (STATE_QUOTECOLLECT, push wl ch w, ws))"
| "lex_step al wl ch (STATE_QC_LITERAL, w, ws) =
     (STATE_QUOTECOLLECT, if ch = 10 then w else push wl ch w, ws)"
| "lex_step al wl ch (STATE_COLLECT, w, ws) =
     (if ch = 35 then (STATE_FINDEOL, [], commit al w ws)
      else if ch = 10 then (STATE_ENDOFLINE, [], commit al w ws)
      else if isspace ch then (STATE_FINDWORDSTART, [], commit al w ws)
      else if ch = 61
        then (STATE_FINDWORDSTART, [], commit al (push wl ch []) (commit al w ws))
      else if ch = 92 then (STATE_COLLECTLITERAL, w, ws)
      else (STATE_COLLECT, push wl ch w, ws))"
| "lex_step al wl ch (STATE_COLLECTLITERAL, w, ws) =
     (STATE_COLLECT, if ch = 10 then w else push wl ch w, ws)"
| "lex_step al wl ch (STATE_ENDOFLINE, w, ws) = (STATE_ENDOFLINE, w, ws)"
| "lex_step al wl ch (STATE_PARSEERR, w, ws) = (STATE_PARSEERR, w, ws)"

definition lex_of :: "PCONF_CTX_t \<Rightarrow> lexer" where
  "lex_of ctx = (ctx_state ctx, wordbuf ctx, ctx_args ctx)"

fun lex_run :: "nat \<Rightarrow> nat \<Rightarrow> cstring \<Rightarrow> lexer \<Rightarrow> lexer" where
  "lex_run al wl [] l = l"
| "lex_run al wl (c # cs) l = lex_run al wl cs (lex_step al wl (schar c) l)"

text \<open>The words of a whole line, as \<^const>\<open>pconf_line\<close> leaves them.\<close>

definition lex_line :: "nat \<Rightarrow> nat \<Rightarrow> cstring \<Rightarrow> cstring list" where
  "lex_line al wl line =
     (case lex_run al wl line (STATE_FINDWORDSTART, [], []) of
        (st, w, ws) \<Rightarrow>
          if st \<noteq> STATE_ENDOFLINE \<and> st \<noteq> STATE_PARSEERR \<and> w \<noteq> [] then commit al w ws else ws)"

section \<open>Well-formed contexts\<close>

definition pconf_wf :: "PCONF_CTX_t \<Rightarrow> bool" where
  "pconf_wf ctx \<longleftrightarrow>
     ctx_magic ctx = PCONF_CTX_t_MAGIC \<and>
     wordptr ctx = length (wordbuf ctx) \<and>
     length (wordbuf ctx) < wordbufsize ctx \<and>
     length (arglist ctx) = maxargs ctx \<and>
     length (argsize ctx) = maxargs ctx \<and>
     numargs ctx \<le> maxargs ctx \<and>
     list_all2 (\<lambda>w n. length w < n) (arglist ctx) (argsize ctx) \<and>
     (wordlen_limit ctx \<noteq> 0 \<longrightarrow> length (wordbuf ctx) \<le> wordlen_limit ctx) \<and>
     (arg_limit ctx \<noteq> 0 \<longrightarrow> maxargs ctx \<le> arg_limit ctx)"

definition same_limits :: "PCONF_CTX_t \<Rightarrow> PCONF_CTX_t \<Rightarrow> bool" where
  "same_limits c d \<longleftrightarrow> arg_limit c = arg_limit d \<and> wordlen_limit c = wordlen_limit d"

text \<open>A byte that the tokenizer stores as it is.\<close>

definition printable :: "char \<Rightarrow> bool" where
  "printable c \<longleftrightarrow> 0x20 \<le> code_of c \<and> code_of c \<le> 0x7f"

text \<open>The whole encoding of a string, for a buffer that is large enough.\<close>

definition enc_char :: "char \<Rightarrow> cstring" where
  "enc_char c = (if c \<in> set PCONF_ESCAPE then [CHR 92, c] else [c])"

definition enc_full :: "cstring \<Rightarrow> cstring" where
  "enc_full s = concat (map enc_char s)"

definition quoted :: "cstring \<Rightarrow> cstring" where
  "quoted s = [CHR 34] @ enc_full s @ [CHR 34]"

section \<open>Refinement\<close>

lemma pconf_wf_ch [simp]: "pconf_wf (ctx\<lparr>ctx_ch := c\<rparr>) = pconf_wf ctx"
  and pconf_wf_state [simp]: "pconf_wf (ctx\<lparr>ctx_state := st\<rparr>) = pconf_wf ctx"
  and pconf_wf_f [simp]: "pconf_wf (ctx\<lparr>ctx_f := fl\<rparr>) = pconf_wf ctx"
  by (simp_all add: pconf_wf_def)

lemma pconf_wf_restart [simp]:
  "pconf_wf ctx \<Longrightarrow> pconf_wf (ctx\<lparr>numargs := 0, ctx_state := st\<rparr>)"
  by (simp add: pconf_wf_def)

lemma start_line_wf [nut_wf]: "pconf_wf ctx \<Longrightarrow> pconf_wf (start_line ctx)"
  by (simp add: pconf_wf_def start_line_def)

lemma ctx_args_upd [simp]:
  "ctx_args (ctx\<lparr>ctx_ch := c\<rparr>) = ctx_args ctx" "ctx_args (ctx\<lparr>ctx_state := st\<rparr>) = ctx_args ctx"
  "ctx_args (ctx\<lparr>ctx_f := fl\<rparr>) = ctx_args ctx"
  by (simp_all add: ctx_args_def)

lemma isspace_codes [simp]:
  "\<not> isspace 35" "\<not> isspace 92" "\<not> isspace 34" "\<not> isspace 61" "isspace 32" "isspace 10"
  by (simp_all add: isspace_def)

lemma lex_of_ch [simp]: "lex_of (ctx\<lparr>ctx_ch := c\<rparr>) = lex_of ctx"
  and lex_of_f [simp]: "lex_of (ctx\<lparr>ctx_f := fl\<rparr>) = lex_of ctx"
  by (simp_all add: lex_of_def ctx_args_def)

text \<open>The frame of \<open>addchar\<close> and \<open>endofword\<close>: what they leave alone.\<close>

lemma addchar_frame [simp]:
  "ctx_state (addchar ctx) = ctx_state ctx" "ctx_ch (addchar ctx) = ctx_ch ctx"
  "arglist (addchar ctx) = arglist ctx" "numargs (addchar ctx) = numargs ctx"
  "ctx_args (addchar ctx) = ctx_args ctx" "arg_limit (addchar ctx) = arg_limit ctx"
  "wordlen_limit (addchar ctx) = wordlen_limit ctx" "ctx_f (addchar ctx) = ctx_f ctx"
  by (simp_all add: addchar_def Let_def ctx_args_def)

lemma addchar_wf [nut_wf]: "pconf_wf ctx \<Longrightarrow> pconf_wf (addchar ctx)"
  by (auto simp: pconf_wf_def addchar_def Let_def)

lemma addchar_word:
  "pconf_wf ctx \<Longrightarrow> wordbuf (addchar ctx) = push (wordlen_limit ctx) (ctx_ch ctx) (wordbuf ctx)"
  by (auto simp: pconf_wf_def addchar_def push_def Let_def)

lemma add_arg_word_frame [simp]:
  "ctx_state (add_arg_word ctx) = ctx_state ctx" "ctx_ch (add_arg_word ctx) = ctx_ch ctx"
  "arg_limit (add_arg_word ctx) = arg_limit ctx" "numargs (add_arg_word ctx) = numargs ctx + 1"
  "wordlen_limit (add_arg_word ctx) = wordlen_limit ctx" "ctx_f (add_arg_word ctx) = ctx_f ctx"
  by (simp_all add: add_arg_word_def Let_def)

lemma add_arg_word_args:
  "pconf_wf ctx \<Longrightarrow> ctx_args (add_arg_word ctx) = ctx_args ctx @ [wordbuf ctx]"
  by (auto simp: pconf_wf_def add_arg_word_def ctx_args_def Let_def take_Suc_conv_app_nth
      list_update_append)

lemma endofword_frame [simp]:
  "ctx_state (endofword ctx) = ctx_state ctx" "ctx_ch (endofword ctx) = ctx_ch ctx"
  "arg_limit (endofword ctx) = arg_limit ctx" "wordlen_limit (endofword ctx) = wordlen_limit ctx"
  "wordbuf (endofword ctx) = []" "wordptr (endofword ctx) = 0" "ctx_f (endofword ctx) = ctx_f ctx"
  by (simp_all add: endofword_def)

lemma add_arg_word_wf:
  assumes wf: "pconf_wf ctx" and room: "arg_limit ctx \<noteq> 0 \<Longrightarrow> numargs ctx < arg_limit ctx"
  shows "pconf_wf (add_arg_word ctx)"
proof (cases "numargs ctx < maxargs ctx")
  case True
  with wf show ?thesis
    by (auto simp: pconf_wf_def add_arg_word_def Let_def
        intro!: list_all2_update_cong intro: list_all2_update_left)
next
  case False
  with wf have [simp]: "numargs ctx = maxargs ctx" by (simp add: pconf_wf_def)
  from wf room show ?thesis
    by (auto simp: pconf_wf_def add_arg_word_def Let_def nth_append list_update_append
        intro!: list_all2_appendI)
qed

lemma endofword_wf [nut_wf]: "pconf_wf ctx \<Longrightarrow> pconf_wf (endofword ctx)"
  using add_arg_word_wf [of ctx] by (auto simp: endofword_def pconf_wf_def)

lemma endofword_args:
  "pconf_wf ctx \<Longrightarrow> ctx_args (endofword ctx) = commit (arg_limit ctx) (wordbuf ctx) (ctx_args ctx)"
  using add_arg_word_args [of ctx]
  by (auto simp: endofword_def commit_def ctx_args_def pconf_wf_def)

lemmas word_refine = addchar_word endofword_args addchar_wf endofword_wf

lemma findwordstart_refines:
  assumes "pconf_wf ctx"
  shows "lex_of ((snd (findwordstart ctx))\<lparr>ctx_state := fst (findwordstart ctx)\<rparr>)
       = lex_start (arg_limit ctx) (wordlen_limit ctx) (ctx_ch ctx) (wordbuf ctx) (ctx_args ctx)"
    and "pconf_wf (snd (findwordstart ctx))"
  using assms
  by (auto simp: findwordstart_def lex_start_def lex_of_def word_refine Let_def)

lemma parse_char_cases:
  "parse_char ctx =
     (case ctx_state ctx of
        STATE_FINDWORDSTART \<Rightarrow> (snd (findwordstart ctx))\<lparr>ctx_state := fst (findwordstart ctx)\<rparr>
      | STATE_FINDEOL \<Rightarrow> (snd (findeol ctx))\<lparr>ctx_state := fst (findeol ctx)\<rparr>
      | STATE_QUOTECOLLECT \<Rightarrow> (snd (quotecollect ctx))\<lparr>ctx_state := fst (quotecollect ctx)\<rparr>
      | STATE_QC_LITERAL \<Rightarrow> (snd (qc_literal ctx))\<lparr>ctx_state := fst (qc_literal ctx)\<rparr>
      | STATE_COLLECT \<Rightarrow> (snd (collect ctx))\<lparr>ctx_state := fst (collect ctx)\<rparr>
      | STATE_COLLECTLITERAL \<Rightarrow> (snd (collectliteral ctx))\<lparr>ctx_state := fst (collectliteral ctx)\<rparr>
      | _ \<Rightarrow> ctx)"
  by (simp add: parse_char_def case_prod_beta split: pconf_state.splits)

lemma parse_char_refines_gen:
  assumes "pconf_wf ctx"
  shows "lex_of (parse_char ctx)
       = lex_step (arg_limit ctx) (wordlen_limit ctx) (ctx_ch ctx) (lex_of ctx)"
    and "pconf_wf (parse_char ctx)"
proof -
  have after: "pconf_wf (endofword ctx)" using assms by (rule endofword_wf)
  have "lex_of (parse_char ctx)
       = lex_step (arg_limit ctx) (wordlen_limit ctx) (ctx_ch ctx) (lex_of ctx)
     \<and> pconf_wf (parse_char ctx)"
    using assms findwordstart_refines [OF assms] findwordstart_refines [OF after]
    by (cases "ctx_state ctx")
      (auto simp: parse_char_cases lex_of_def findeol_def quotecollect_def qc_literal_def
        collect_def collectliteral_def word_refine lex_start_def findwordstart_def)
  then show "lex_of (parse_char ctx)
       = lex_step (arg_limit ctx) (wordlen_limit ctx) (ctx_ch ctx) (lex_of ctx)"
    and "pconf_wf (parse_char ctx)" by simp_all
qed

lemma parse_char_frame [simp]:
  "arg_limit (parse_char ctx) = arg_limit ctx" "wordlen_limit (parse_char ctx) = wordlen_limit ctx"
  "ctx_f (parse_char ctx) = ctx_f ctx"
  by (auto simp: parse_char_cases findwordstart_def findeol_def quotecollect_def qc_literal_def
      collect_def collectliteral_def Let_def split: pconf_state.splits)

lemma start_line_frame [simp]:
  "arg_limit (start_line ctx) = arg_limit ctx" "wordlen_limit (start_line ctx) = wordlen_limit ctx"
  "ctx_f (start_line ctx) = ctx_f ctx" "numargs (start_line ctx) = 0"
  "wordbuf (start_line ctx) = wordbuf ctx"
  by (simp_all add: start_line_def)

text \<open>
  Property C2: one character. The buffered machine of \<open>parse_char\<close> implements the
  buffer-free lexer, and keeps the context well formed: the word never outgrows
  \<open>wordbuf\<close>, no argument outgrows its \<open>argsize\<close>, and both limits are respected.
\<close>
theorem parse_char_refines_lexer:
  assumes "pconf_wf ctx"
  shows "lex_of (parse_char ctx)
           = lex_step (arg_limit ctx) (wordlen_limit ctx) (ctx_ch ctx) (lex_of ctx)
         \<and> pconf_wf (parse_char ctx)"
  using parse_char_refines_gen [OF assms] by blast

definition blank_ctx :: PCONF_CTX_t where
  "blank_ctx = pconf_init
     \<lparr>ctx_f = None, ctx_state = STATE_PARSEERR, ctx_ch = 0, arglist = [], argsize = [],
      numargs = 0, maxargs = 0, wordbuf = [], wordptr = 0, wordbufsize = 0, linenum = 0,
      ctx_error = 0, ctx_errmsg = [], ctx_magic = 0, arg_limit = 0, wordlen_limit = 0\<rparr>"

lemma pconf_init_wf [nut_wf]: "pconf_wf (pconf_init ctx)"
  by (simp add: pconf_init_def pconf_wf_def)

lemma blank_ctx_wf [simp]: "pconf_wf blank_ctx"
  by (simp add: blank_ctx_def pconf_init_wf)

theorem parse_char_refines_lexer_witness:
  "lex_of (parse_char (blank_ctx\<lparr>ctx_ch := 61\<rparr>)) = (STATE_FINDWORDSTART, [], [''=''])"
proof -
  have "lex_step 32 512 61 (STATE_FINDWORDSTART, [], []) = (STATE_FINDWORDSTART, [], [''=''])"
    by code_simp
  moreover have "lex_of (blank_ctx\<lparr>ctx_ch := 61\<rparr>) = (STATE_FINDWORDSTART, [], [])"
    "arg_limit blank_ctx = 32" "wordlen_limit blank_ctx = 512"
    by code_simp+
  ultimately show ?thesis
    using parse_char_refines_lexer [of "blank_ctx\<lparr>ctx_ch := 61\<rparr>"] by simp
qed

section \<open>Feeding characters\<close>

definition ended :: "lexer \<Rightarrow> bool" where
  "ended l \<longleftrightarrow> fst l = STATE_ENDOFLINE \<or> fst l = STATE_PARSEERR"

lemma at_line_end_ended: "at_line_end ctx \<longleftrightarrow> ended (lex_of ctx)"
  by (auto simp: at_line_end_def ended_def lex_of_def)

lemma lex_step_ended [simp]: "ended l \<Longrightarrow> lex_step al wl ch l = l"
  by (cases "(al, wl, ch, l)" rule: lex_step.cases) (auto simp: ended_def)

lemma lex_run_ended [simp]: "ended l \<Longrightarrow> lex_run al wl cs l = l"
  by (induction cs) auto

text \<open>Bytes above 127 are discarded whichever way \<open>char\<close> was promoted.\<close>

lemma lex_step_unsigned: "lex_step al wl (int (code_of c)) l = lex_step al wl (schar c) l"
proof (cases "code_of c < 128")
  case True
  then show ?thesis by (simp add: schar_def Let_def)
next
  case False
  moreover have "code_of c < 256" by (simp add: code_of_def)
  ultimately have "127 < int (code_of c)" "schar c < 0" by (simp_all add: schar_def Let_def)
  then show ?thesis
    by (cases "(al, wl, schar c, l)" rule: lex_step.cases)
      (auto simp: push_def lex_start_def isspace_def)
qed

lemma line_loop_lexer:
  assumes "pconf_wf ctx"
  shows "pconf_wf (snd (line_loop ctx cs)) \<and>
         lex_of (snd (line_loop ctx cs)) = lex_run (arg_limit ctx) (wordlen_limit ctx) cs (lex_of ctx) \<and>
         (\<not> ended (lex_of ctx) \<longrightarrow> fst (line_loop ctx cs) = ended (lex_of (snd (line_loop ctx cs)))) \<and>
         arg_limit (snd (line_loop ctx cs)) = arg_limit ctx \<and>
         wordlen_limit (snd (line_loop ctx cs)) = wordlen_limit ctx"
  using assms
proof (induction cs arbitrary: ctx)
  case (Cons c cs)
  let ?d = "parse_char (ctx\<lparr>ctx_ch := schar c\<rparr>)"
  have d: "pconf_wf ?d" "lex_of ?d = lex_step (arg_limit ctx) (wordlen_limit ctx) (schar c) (lex_of ctx)"
    using parse_char_refines_gen [of "ctx\<lparr>ctx_ch := schar c\<rparr>"] Cons.prems by simp_all
  show ?case
    using Cons.IH [OF d(1)] d by (auto simp: Let_def at_line_end_ended)
qed auto

lemma file_loop_lexer:
  assumes "pconf_wf ctx"
  shows "case file_loop ctx cs of (stopped, d, rest) \<Rightarrow>
           pconf_wf d \<and> lex_of d = lex_run (arg_limit ctx) (wordlen_limit ctx) cs (lex_of ctx) \<and>
           (\<not> ended (lex_of ctx) \<longrightarrow> stopped = ended (lex_of d)) \<and>
           (stopped \<longrightarrow> length rest < length cs) \<and> (\<not> stopped \<longrightarrow> rest = []) \<and>
           arg_limit d = arg_limit ctx \<and> wordlen_limit d = wordlen_limit ctx"
  using assms
proof (induction cs arbitrary: ctx)
  case (Cons c cs)
  let ?d = "parse_char (ctx\<lparr>ctx_ch := int (code_of c)\<rparr>)"
  have d: "pconf_wf ?d" "lex_of ?d = lex_step (arg_limit ctx) (wordlen_limit ctx) (schar c) (lex_of ctx)"
    using parse_char_refines_gen [of "ctx\<lparr>ctx_ch := int (code_of c)\<rparr>"] Cons.prems
    by (simp_all add: lex_step_unsigned)
  show ?case
    using Cons.IH [OF d(1)] d
    by (auto simp: Let_def at_line_end_ended split: prod.splits)
qed auto

text \<open>The loop that both socket readers run over \<^const>\<open>pconf_char\<close>, up to the end of a line.\<close>

fun char_loop :: "PCONF_CTX_t \<Rightarrow> cstring \<Rightarrow> bool \<times> PCONF_CTX_t" where
  "char_loop ctx [] = (False, ctx)"
| "char_loop ctx (c # cs) =
     (case pconf_char ctx c of
        (r, ctx1) \<Rightarrow> if r = 0 then char_loop ctx1 cs else (True, ctx1))"

text \<open>The state between two lines: nothing is left in the word buffer.\<close>

definition pconf_ready :: "PCONF_CTX_t \<Rightarrow> bool" where
  "pconf_ready ctx \<longleftrightarrow>
     pconf_wf ctx \<and> wordbuf ctx = [] \<and>
     (at_line_end ctx \<or> ctx_state ctx = STATE_FINDWORDSTART \<and> numargs ctx = 0)"

lemma check_magic_wf [simp]: "pconf_wf ctx \<Longrightarrow> check_magic ctx = (True, ctx)"
  by (simp add: check_magic_def pconf_wf_def)

lemma lex_of_fresh:
  assumes "pconf_ready ctx"
  shows "lex_of (start_line ctx) = (STATE_FINDWORDSTART, [], [])"
    and "lex_of (if at_line_end ctx then ctx\<lparr>numargs := 0, ctx_state := STATE_FINDWORDSTART\<rparr> else ctx)
         = (STATE_FINDWORDSTART, [], [])"
  using assms
  by (auto simp: pconf_ready_def lex_of_def start_line_def ctx_args_def)

lemma char_loop_lexer:
  assumes "pconf_wf ctx" and "\<not> at_line_end ctx"
  shows "pconf_wf (snd (char_loop ctx cs)) \<and>
         lex_of (snd (char_loop ctx cs)) = lex_run (arg_limit ctx) (wordlen_limit ctx) cs (lex_of ctx) \<and>
         fst (char_loop ctx cs) = ended (lex_of (snd (char_loop ctx cs)))"
  using assms
proof (induction cs arbitrary: ctx)
  case Nil
  then show ?case by (simp add: at_line_end_ended)
next
  case (Cons c cs)
  let ?d = "parse_char (ctx\<lparr>ctx_ch := schar c\<rparr>)"
  have d: "pconf_wf ?d" "lex_of ?d = lex_step (arg_limit ctx) (wordlen_limit ctx) (schar c) (lex_of ctx)"
    using parse_char_refines_gen [of "ctx\<lparr>ctx_ch := schar c\<rparr>"] Cons.prems by simp_all
  have r: "pconf_char ctx c =
      (if ctx_state ?d = STATE_ENDOFLINE then 1
       else if ctx_state ?d = STATE_PARSEERR then - 1 else 0, ?d)"
    using Cons.prems by (simp add: pconf_char_def Let_def)
  show ?case
  proof (cases "at_line_end ?d")
    case True
    then have "ended (lex_of ?d)" by (simp add: at_line_end_ended)
    moreover from this have "lex_run (arg_limit ctx) (wordlen_limit ctx) cs (lex_of ?d) = lex_of ?d" by simp
    ultimately show ?thesis using True r d(1) d(2) [symmetric] by (auto simp: at_line_end_def)
  next
    case False
    then have "pconf_char ctx c = (0, ?d)" using r by (simp add: at_line_end_def)
    then show ?thesis using Cons.IH [OF d(1) False] d by simp
  qed
qed

lemma char_loop_ready:
  assumes "pconf_ready ctx" and "cs \<noteq> []"
  shows "lex_of (snd (char_loop ctx cs))
           = lex_run (arg_limit ctx) (wordlen_limit ctx) cs (STATE_FINDWORDSTART, [], []) \<and>
         fst (char_loop ctx cs) = ended (lex_of (snd (char_loop ctx cs)))"
proof -
  let ?r = "if at_line_end ctx then ctx\<lparr>numargs := 0, ctx_state := STATE_FINDWORDSTART\<rparr> else ctx"
  have wf: "pconf_wf ?r" using assms(1) by (auto simp: pconf_ready_def pconf_wf_def)
  have live: "\<not> at_line_end ?r" by (auto simp: at_line_end_def)
  have lim: "arg_limit ?r = arg_limit ctx" "wordlen_limit ?r = wordlen_limit ctx" by simp_all
  obtain c cs' where cs: "cs = c # cs'" using assms(2) by (cases cs) auto
  have "pconf_char ctx c = pconf_char ?r c"
    using assms(1) wf live by (auto simp: pconf_char_def pconf_ready_def Let_def at_line_end_def)
  then have "char_loop ctx cs = char_loop ?r cs" by (simp only: cs char_loop.simps)
  then show ?thesis
    using char_loop_lexer [OF wf live, of cs] lex_of_fresh(2) [OF assms(1)] lim by simp
qed

text \<open>
  However a line is fed to the tokenizer, by \<open>pconf_char\<close> from a socket, by
  \<open>pconf_line\<close>, or by the \<open>fgetc\<close> loop of \<open>pconf_file_next\<close>, the same lexer state
  results and the line ends at the same character.
\<close>
theorem feeding_agrees:
  assumes "pconf_ready ctx" and "cs \<noteq> []"
  shows "lex_of (snd (char_loop ctx cs)) = lex_of (snd (line_loop (start_line ctx) cs)) \<and>
         lex_of (fst (snd (file_loop (start_line ctx) cs))) = lex_of (snd (line_loop (start_line ctx) cs)) \<and>
         fst (char_loop ctx cs) = fst (line_loop (start_line ctx) cs) \<and>
         fst (file_loop (start_line ctx) cs) = fst (line_loop (start_line ctx) cs)"
proof -
  have wf: "pconf_wf (start_line ctx)"
    using assms(1) start_line_wf by (simp add: pconf_ready_def)
  have "\<not> ended (lex_of (start_line ctx))"
    using lex_of_fresh(1) [OF assms(1)] by (simp add: ended_def)
  then show ?thesis
    using line_loop_lexer [OF wf, of cs] file_loop_lexer [OF wf, of cs]
      char_loop_ready [OF assms] lex_of_fresh(1) [OF assms(1)]
    by (auto split: prod.splits)
qed

lemma blank_ctx_ready [simp]: "pconf_ready blank_ctx"
  by (simp add: pconf_ready_def) (simp add: blank_ctx_def pconf_init_def)

theorem feeding_agrees_witness:
  "lex_of (snd (char_loop blank_ctx ''a''))
     = lex_of (snd (line_loop (start_line blank_ctx) ''a''))"
  using feeding_agrees [of blank_ctx "''a''"] by simp

text \<open>Between lines the word buffer is empty, so lines do not leak into each other.\<close>

definition idle_inv :: "lexer \<Rightarrow> bool" where
  "idle_inv l \<longleftrightarrow>
     (fst l \<in> {STATE_FINDWORDSTART, STATE_FINDEOL, STATE_ENDOFLINE} \<longrightarrow> fst (snd l) = [])"

lemma lex_step_idle: "idle_inv l \<Longrightarrow> idle_inv (lex_step al wl ch l)"
  by (cases "(al, wl, ch, l)" rule: lex_step.cases) (auto simp: idle_inv_def lex_start_def)

lemma lex_run_idle: "idle_inv l \<Longrightarrow> idle_inv (lex_run al wl cs l)"
  by (induction cs arbitrary: l) (auto simp: lex_step_idle)

lemma lex_step_no_error: "fst l \<noteq> STATE_PARSEERR \<Longrightarrow> fst (lex_step al wl ch l) \<noteq> STATE_PARSEERR"
  by (cases "(al, wl, ch, l)" rule: lex_step.cases) (auto simp: lex_start_def)

lemma lex_run_no_error: "fst l \<noteq> STATE_PARSEERR \<Longrightarrow> fst (lex_run al wl cs l) \<noteq> STATE_PARSEERR"
  by (induction cs arbitrary: l) (auto simp: lex_step_no_error)

lemma numargs_ctx_args: "pconf_wf ctx \<Longrightarrow> numargs ctx = length (ctx_args ctx)"
  by (simp add: pconf_wf_def ctx_args_def)

lemma pconf_line_gen:
  assumes "pconf_ready ctx"
  shows "fst (pconf_line ctx line) = 1 \<and>
         ctx_args (snd (pconf_line ctx line)) = lex_line (arg_limit ctx) (wordlen_limit ctx) line \<and>
         pconf_wf (snd (pconf_line ctx line)) \<and> wordbuf (snd (pconf_line ctx line)) = []"
proof -
  have wf0: "pconf_wf ctx" using assms by (simp add: pconf_ready_def)
  obtain b d where d: "line_loop (start_line ctx) line = (b, d)" by fastforce
  have live: "\<not> ended (lex_of (start_line ctx))"
    using lex_of_fresh(1) [OF assms] by (simp add: ended_def)
  have L: "pconf_wf d" "b = ended (lex_of d)" "arg_limit d = arg_limit ctx"
    "lex_of d = lex_run (arg_limit ctx) (wordlen_limit ctx) line (STATE_FINDWORDSTART, [], [])"
    using line_loop_lexer [OF start_line_wf [OF wf0], of line] d live lex_of_fresh(1) [OF assms]
    by simp_all
  have idle: "idle_inv (lex_of d)" "fst (lex_of d) \<noteq> STATE_PARSEERR"
    unfolding L(4) by (rule lex_run_idle, simp add: idle_inv_def) (simp add: lex_run_no_error)
  have word: "wordptr d \<noteq> 0 \<longleftrightarrow> wordbuf d \<noteq> []" using L(1) by (auto simp: pconf_wf_def)
  have eq: "lex_line (arg_limit ctx) (wordlen_limit ctx) line =
      (if \<not> ended (lex_of d) \<and> wordbuf d \<noteq> [] then commit (arg_limit ctx) (wordbuf d) (ctx_args d)
       else ctx_args d)"
    unfolding lex_line_def L(4) [symmetric] by (auto simp: lex_of_def ended_def)
  show ?thesis
    using L(1-3) d wf0 word idle
    by (auto simp: pconf_line_def eq endofword_args endofword_wf split: bool.splits)
      (auto simp: idle_inv_def ended_def lex_of_def)
qed

text \<open>
  \<open>pconf_line\<close> always accepts its line, leaves in \<open>arglist\<close> exactly the
  words of the specification (an unfinished last word is tied off), and the context is
  again ready for the next line.
\<close>
theorem pconf_line_words:
  assumes "pconf_ready ctx"
  shows "fst (pconf_line ctx line) = 1 \<and>
         ctx_args (snd (pconf_line ctx line)) = lex_line (arg_limit ctx) (wordlen_limit ctx) line \<and>
         pconf_wf (snd (pconf_line ctx line)) \<and> wordbuf (snd (pconf_line ctx line)) = []"
  using pconf_line_gen [OF assms] .

theorem pconf_line_words_witness:
  "ctx_args (snd (pconf_line blank_ctx ''foo = bar # rest'')) = [''foo'', ''='', ''bar'']"
proof -
  have "lex_line 32 512 ''foo = bar # rest'' = [''foo'', ''='', ''bar'']" by code_simp
  moreover have "arg_limit blank_ctx = 32" "wordlen_limit blank_ctx = 512" by code_simp+
  ultimately show ?thesis
    using pconf_line_words [of blank_ctx "''foo = bar # rest''"] by simp
qed

section \<open>Encoding\<close>

lemma enc_full_simps [simp]:
  "enc_full [] = []" "enc_full (c # cs) = enc_char c @ enc_full cs"
  "enc_full (s @ t) = enc_full s @ enc_full t"
  by (simp_all add: enc_full_def)

lemma enc_char_length: "0 < length (enc_char c)"
  by (simp add: enc_char_def)

lemma enc_full_length: "length s \<le> length (enc_full s)"
  by (induction s) (auto simp: enc_char_def)

lemma pconf_encode_loop_prefix:
  assumes "1 \<le> maxlen" and "length dest \<le> maxlen"
  shows "\<exists>k \<le> length cs. pconf_encode_loop maxlen dest cs = dest @ enc_full (take k cs) \<and>
           length (pconf_encode_loop maxlen dest cs) \<le> maxlen \<and>
           (length dest + length (enc_full cs) \<le> maxlen \<longrightarrow> k = length cs)"
  using assms
proof (induction cs arbitrary: dest)
  case (Cons c cs)
  show ?case
  proof (cases "length dest + length (enc_char c) \<le> maxlen")
    case True
    then have "length (dest @ enc_char c) \<le> maxlen" by simp
    from Cons.IH [OF Cons.prems(1) this] obtain k where
      k: "k \<le> length cs"
      "pconf_encode_loop maxlen (dest @ enc_char c) cs = (dest @ enc_char c) @ enc_full (take k cs)"
      "length (pconf_encode_loop maxlen (dest @ enc_char c) cs) \<le> maxlen"
      "length (dest @ enc_char c) + length (enc_full cs) \<le> maxlen \<longrightarrow> k = length cs"
      by blast
    have "pconf_encode_loop maxlen dest (c # cs) = pconf_encode_loop maxlen (dest @ enc_char c) cs"
      using True Cons.prems by (auto simp: enc_char_def size_sub_def Let_def)
    with k show ?thesis by (intro exI [of _ "Suc k"]) auto
  next
    case False
    then have "pconf_encode_loop maxlen dest (c # cs) = dest"
      using Cons.prems by (auto simp: enc_char_def size_sub_def split: if_splits)
    with False Cons.prems show ?thesis by (intro exI [of _ 0]) auto
  qed
qed auto

text \<open>
  Property C3: with room for at least one byte beside the terminator, \<open>pconf_encode\<close> stores
  the encoding of a prefix of its input, always leaves the final NUL in place, never cuts an
  escape pair in two, and encodes the whole input when it fits.
\<close>
theorem pconf_encode_prefix:
  assumes "2 \<le> destsize"
  shows "\<exists>k \<le> length src. pconf_encode src dest destsize = enc_full (take k src) \<and>
           length (pconf_encode src dest destsize) < destsize \<and>
           (length (enc_full src) < destsize \<longrightarrow> k = length src)"
proof -
  have eq: "pconf_encode src dest destsize = pconf_encode_loop (destsize - 1) [] src"
    using assms by (simp add: pconf_encode_def)
  have "1 \<le> destsize - 1" "length ([] :: cstring) \<le> destsize - 1" using assms by auto
  from pconf_encode_loop_prefix [OF this, of src] obtain k where k:
    "k \<le> length src" "pconf_encode_loop (destsize - 1) [] src = enc_full (take k src)"
    "length (pconf_encode_loop (destsize - 1) [] src) \<le> destsize - 1"
    "length (enc_full src) \<le> destsize - 1 \<longrightarrow> k = length src"
    by (metis append_Nil add_0 list.size(3))
  have "length (pconf_encode_loop (destsize - 1) [] src) < destsize"
    using k(3) assms by linarith
  moreover have "length (enc_full src) < destsize \<longrightarrow> k = length src"
    using k(4) assms by linarith
  ultimately show ?thesis using k(1,2) unfolding eq by blast
qed

theorem pconf_encode_prefix_witness:
  "\<exists>k \<le> 3. pconf_encode [CHR 34, CHR 65, CHR 35] [] 5 = enc_full (take k [CHR 34, CHR 65, CHR 35])"
proof -
  have "(2::nat) \<le> 5" by simp
  from pconf_encode_prefix [OF this, of "[CHR 34, CHR 65, CHR 35]" "[]"] obtain k where
    k: "k \<le> length [CHR 34, CHR 65, CHR 35]"
       "pconf_encode [CHR 34, CHR 65, CHR 35] [] 5 = enc_full (take k [CHR 34, CHR 65, CHR 35])"
    by blast
  from k(1) have "k \<le> 3" by (simp add: numeral_3_eq_3)
  with k(2) show ?thesis by blast
qed

lemma pconf_encode_whole:
  assumes "length (enc_full src) < destsize" and "2 \<le> destsize"
  shows "pconf_encode src dest destsize = enc_full src"
proof -
  have eq: "pconf_encode src dest destsize = pconf_encode_loop (destsize - 1) [] src"
    using assms by (simp add: pconf_encode_def)
  have "1 \<le> destsize - 1" "length ([] :: cstring) \<le> destsize - 1" using assms by auto
  moreover have "length ([] :: cstring) + length (enc_full src) \<le> destsize - 1"
    using assms by simp
  ultimately show ?thesis
    using pconf_encode_loop_prefix [of "destsize - 1" "[]" src] unfolding eq
    by (metis append_Nil take_all_iff order_refl)
qed

text \<open>
  With a one-byte buffer the test \<open>destlen >= maxlen - 1\<close> wraps around, and an
  input that starts with a character to escape overwrites the only byte with a backslash: no
  terminating NUL is left. The buffer is the C string of its bytes only while fewer than
  \<open>destsize\<close> bytes are stored.
\<close>
theorem pconf_encode_one_byte_unterminated:
  "c \<in> set PCONF_ESCAPE \<Longrightarrow> length (pconf_encode (c # cs) dest 1) = 1"
  by (auto simp: pconf_encode_def size_sub_def)

theorem pconf_encode_one_byte_unterminated_witness:
  "length (pconf_encode [CHR 35] [] 1) = 1"
  by (rule pconf_encode_one_byte_unterminated) (simp add: PCONF_ESCAPE_def)

section \<open>Round trip\<close>

lemma push_printable:
  assumes "printable c" and "wl = 0 \<or> length w < wl"
  shows "push wl (schar c) w = w @ [c]"
proof -
  have "schar c = int (code_of c)" using assms(1) by (simp add: printable_def schar_def)
  then show ?thesis using assms by (simp add: push_def printable_def) (simp add: code_of_def)
qed

lemma schar_eq_iff:
  "schar c = 34 \<longleftrightarrow> c = CHR 34" "schar c = 92 \<longleftrightarrow> c = CHR 92" "schar c = 35 \<longleftrightarrow> c = CHR 35"
  "schar c = 10 \<longleftrightarrow> c = CHR 10"
proof -
  have inj: "code_of c = code_of d \<longleftrightarrow> c = d" for d
    by (simp add: code_of_def)
  have codes: "code_of (CHR 34) = 34" "code_of (CHR 92) = 92" "code_of (CHR 35) = 35"
    "code_of (CHR 10) = 10"
    by (simp_all add: code_of_def)
  have b: "code_of c < 256" by (simp add: code_of_def)
  show "schar c = 34 \<longleftrightarrow> c = CHR 34" "schar c = 92 \<longleftrightarrow> c = CHR 92" "schar c = 35 \<longleftrightarrow> c = CHR 35"
    "schar c = 10 \<longleftrightarrow> c = CHR 10"
    using inj [of "CHR 34"] inj [of "CHR 92"] inj [of "CHR 35"] inj [of "CHR 10"] b
    by (auto simp: schar_def Let_def codes)
qed

lemma lex_run_append: "lex_run al wl (s @ t) l = lex_run al wl t (lex_run al wl s l)"
  by (induction s arbitrary: l) auto

lemma lex_run_enc_char:
  assumes "printable c" and "wl = 0 \<or> length w < wl"
  shows "lex_run al wl (enc_char c) (STATE_QUOTECOLLECT, w, ws) = (STATE_QUOTECOLLECT, w @ [c], ws)"
proof (cases "c \<in> set PCONF_ESCAPE")
  case True
  have "schar c \<noteq> 10" using assms(1) by (auto simp: printable_def schar_def Let_def)
  moreover have "schar (CHR 92) = 92" using schar_eq_iff(2) by blast
  ultimately show ?thesis using True assms by (simp add: enc_char_def push_printable)
next
  case False
  then have "schar c \<noteq> 34" "schar c \<noteq> 92"
    by (auto simp: schar_eq_iff PCONF_ESCAPE_def)
  with False assms show ?thesis by (simp add: enc_char_def push_printable)
qed

lemma lex_run_enc_full:
  assumes "list_all printable s" and "wl = 0 \<or> length w + length s \<le> wl"
  shows "lex_run al wl (enc_full s) (STATE_QUOTECOLLECT, w, ws) = (STATE_QUOTECOLLECT, w @ s, ws)"
  using assms
proof (induction s arbitrary: w)
  case (Cons c s)
  then have "printable c" "wl = 0 \<or> length w < wl" "list_all printable s"
    "wl = 0 \<or> length (w @ [c]) + length s \<le> wl"
    by auto
  then show ?case using Cons.IH [of "w @ [c]"]
    by (simp add: lex_run_append lex_run_enc_char)
qed simp

lemma lex_run_quoted:
  assumes "list_all printable s" and "wl = 0 \<or> length s \<le> wl"
  shows "lex_run al wl (quoted s) (STATE_FINDWORDSTART, [], ws)
       = (STATE_FINDWORDSTART, [], commit al s ws)"
proof -
  have "schar (CHR 34) = 34" using schar_eq_iff(1) by blast
  then show ?thesis
    using lex_run_enc_full [OF assms(1), of wl "[]" al ws] assms(2)
    by (simp add: quoted_def lex_run_append lex_start_def)
qed

text \<open>A character of a bare word: stored as it is, and special to no state.\<close>

definition plain :: "char \<Rightarrow> bool" where
  "plain c \<longleftrightarrow> 0x20 < code_of c \<and> code_of c \<le> 0x7f \<and>
     code_of c \<noteq> 34 \<and> code_of c \<noteq> 35 \<and> code_of c \<noteq> 61 \<and> code_of c \<noteq> 92"

lemma plain_schar:
  assumes "plain c"
  shows "\<not> isspace (schar c)" "schar c \<noteq> 10" "schar c \<noteq> 34"
    "schar c \<noteq> 35" "schar c \<noteq> 61" "schar c \<noteq> 92" "printable c"
  using assms by (auto simp: plain_def schar_def isspace_def printable_def)

lemma lex_run_plain_collect:
  assumes "list_all plain s" and "wl = 0 \<or> length w + length s \<le> wl"
  shows "lex_run al wl s (STATE_COLLECT, w, ws) = (STATE_COLLECT, w @ s, ws)"
  using assms
proof (induction s arbitrary: w)
  case (Cons c s)
  then have c: "plain c" "wl = 0 \<or> length w < wl" "list_all plain s"
    "wl = 0 \<or> length (w @ [c]) + length s \<le> wl"
    by auto
  then show ?case using Cons.IH [of "w @ [c]"]
    by (simp add: plain_schar push_printable)
qed simp

lemma lex_run_plain:
  assumes "list_all plain s" and "s \<noteq> []" and "wl = 0 \<or> length s \<le> wl"
  shows "lex_run al wl s (STATE_FINDWORDSTART, [], ws) = (STATE_COLLECT, s, ws)"
proof -
  obtain c t where s: "s = c # t" using assms(2) by (cases s) auto
  then have c: "plain c" "list_all plain t" "wl = 0 \<or> length ([] :: cstring) < wl"
    "wl = 0 \<or> length [c] + length t \<le> wl"
    using assms by auto
  then show ?thesis using lex_run_plain_collect [OF c(2,4), of al ws]
    by (simp add: s lex_start_def plain_schar push_printable)
qed

lemma schar_consts [simp]: "schar (CHR 32) = 32" "schar (CHR 10) = 10" "schar (CHR 34) = 34"
  by (simp_all add: schar_def code_of_def)

lemma lex_run_bare:
  assumes "list_all plain s" and "s \<noteq> []" and "wl = 0 \<or> length s \<le> wl"
  shows "lex_run al wl (s @ [CHR 32]) (STATE_FINDWORDSTART, [], ws)
       = (STATE_FINDWORDSTART, [], commit al s ws)"
  by (simp add: lex_run_append lex_run_plain [OF assms])

text \<open>A line of quoted words, as \<open>upsd\<close> and the drivers write values.\<close>

definition render_words :: "cstring list \<Rightarrow> cstring" where
  "render_words ws = concat (map (\<lambda>w. quoted w @ [CHR 32]) ws)"

definition words_ok :: "nat \<Rightarrow> nat \<Rightarrow> cstring list \<Rightarrow> bool" where
  "words_ok al wl ws \<longleftrightarrow>
     list_all (\<lambda>w. list_all printable w \<and> (wl = 0 \<or> length w \<le> wl)) ws \<and>
     (al = 0 \<or> length ws \<le> al)"

lemma lex_run_words:
  assumes "words_ok al wl (us @ ws)"
  shows "lex_run al wl (render_words ws) (STATE_FINDWORDSTART, [], us)
       = (STATE_FINDWORDSTART, [], us @ ws)"
  using assms
proof (induction ws arbitrary: us)
  case (Cons w ws)
  then have "lex_run al wl (quoted w) (STATE_FINDWORDSTART, [], us)
           = (STATE_FINDWORDSTART, [], commit al w us)"
    by (intro lex_run_quoted) (auto simp: words_ok_def)
  moreover have "commit al w us = us @ [w]"
    using Cons.prems by (auto simp: commit_def words_ok_def)
  ultimately show ?case
    using Cons.IH [of "us @ [w]"] Cons.prems
    by (simp add: render_words_def lex_run_append lex_start_def)
qed (simp add: render_words_def)

lemma lex_line_words: "words_ok al wl ws \<Longrightarrow> lex_line al wl (render_words ws) = ws"
  using lex_run_words [of al wl "[]" ws] by (simp add: lex_line_def)

text \<open>
  The contract between the writer and the reader of a text protocol: what is rendered is
  parsed back. The clients of the contract are the two ends of the driver socket.
\<close>

locale line_codec =
  fixes render :: "'w \<Rightarrow> cstring" and parse :: "cstring \<Rightarrow> 'w" and ok :: "'w \<Rightarrow> bool"
  assumes parse_render: "ok w \<Longrightarrow> parse (render w) = w"
begin

lemma render_inj: "ok v \<Longrightarrow> ok w \<Longrightarrow> render v = render w \<Longrightarrow> v = w"
  by (metis parse_render)

lemma parse_onto: "ok w \<Longrightarrow> \<exists>line. parse line = w"
  using parse_render by blast

end

interpretation pconf_codec: line_codec render_words "lex_line al wl" "words_ok al wl"
  by unfold_locales (rule lex_line_words)

text \<open>
  Property C1: round trip. A line of quoted words built with the escapes of
  \<open>pconf_encode\<close> is split by \<open>pconf_line\<close> into exactly these words, for any number of words
  up to \<open>arg_limit\<close>, of printable characters (spaces, quotes, backslashes and hashes
  included), each up to \<open>wordlen_limit\<close> long.
\<close>
theorem pconf_words_roundtrip:
  assumes "pconf_ready ctx" and "words_ok (arg_limit ctx) (wordlen_limit ctx) ws"
  shows "ctx_args (snd (pconf_line ctx (render_words ws))) = ws"
  using pconf_line_gen [OF assms(1)] pconf_codec.parse_render [OF assms(2)] by simp

theorem pconf_words_roundtrip_witness:
  "ctx_args (snd (pconf_line blank_ctx (render_words [''SETINFO'', [CHR 34, CHR 32, CHR 92]])))
     = [''SETINFO'', [CHR 34, CHR 32, CHR 92]]"
proof (rule pconf_words_roundtrip)
  show "words_ok (arg_limit blank_ctx) (wordlen_limit blank_ctx)
          [''SETINFO'', [CHR 34, CHR 32, CHR 92]]"
    by code_simp
qed simp

text \<open>
  Two lines of quoted words that are equal as bytes carry equal words: a value
  cannot be crafted to be mistaken for other words of the protocol.
\<close>
theorem render_words_injective:
  assumes "words_ok al wl us" and "words_ok al wl ws" and "render_words us = render_words ws"
  shows "us = ws"
  using pconf_codec.render_inj [OF assms] .

theorem render_words_injective_witness:
  "words_ok 0 0 [''a b''] \<and> words_ok 0 0 [''a'', ''b''] \<and>
   render_words [''a b''] \<noteq> render_words [''a'', ''b'']"
proof -
  have ok: "words_ok 0 0 [''a b'']" "words_ok 0 0 [''a'', ''b'']" by code_simp+
  then show ?thesis using render_words_injective [OF ok] by auto
qed

section \<open>Files\<close>

lemma file_next_consumes:
  assumes "pconf_wf ctx" and "ctx_f ctx = Some bytes" and "pconf_file_next ctx = Some (1, ctx')"
  shows "pconf_wf ctx' \<and> (\<exists>rest. ctx_f ctx' = Some rest \<and> length rest < length bytes)"
proof -
  obtain b d r where d: "file_loop (start_line ctx) bytes = (b, d, r)" by (metis prod_cases3)
  have L: "pconf_wf d" "b \<longrightarrow> length r < length bytes" "\<not> b \<longrightarrow> r = []"
    using file_loop_lexer [OF start_line_wf [OF assms(1)], of bytes] d by auto
  have "bytes \<noteq> [] \<or> numargs d = 0" using d by (cases bytes) auto
  with assms(2,3) L d assms(1) show ?thesis
    by (auto simp: pconf_file_next_def Let_def endofword_wf split: if_splits)
qed

text \<open>
  every line that \<open>pconf_file_next\<close> reports has consumed at least one byte of
  the file, so the \<open>while (pconf_file_next(&ctx))\<close> loops of all configuration readers end;
  the context stays well formed.
\<close>
theorem pconf_file_next_progress:
  assumes "pconf_wf ctx" and "ctx_f ctx = Some bytes" and "pconf_file_next ctx = Some (1, ctx')"
  shows "pconf_wf ctx' \<and> (\<exists>rest. ctx_f ctx' = Some rest \<and> length rest < length bytes)"
  using file_next_consumes [OF assms] .

theorem pconf_file_next_progress_witness:
  "\<exists>ctx'. pconf_file_next (blank_ctx\<lparr>ctx_f := Some ''a b''\<rparr>) = Some (1, ctx') \<and> pconf_wf ctx'"
proof -
  let ?c = "blank_ctx\<lparr>ctx_f := Some ''a b''\<rparr>"
  have "map_option fst (pconf_file_next ?c) = Some 1" by code_simp
  then obtain ctx' where r: "pconf_file_next ?c = Some (1, ctx')" by auto
  then show ?thesis using pconf_file_next_progress [of ?c "''a b''" ctx'] by simp
qed

text \<open>
  A file whose last line holds a single bare word and no newline is read as if
  that line were not there: \<open>pconf_file_next\<close> ties the pending word off only when an
  earlier word of the line was stored, and reports the end of the file instead.
\<close>
theorem pconf_file_next_drops_last_word:
  assumes "pconf_ready ctx" and "ctx_f ctx = Some word" and "list_all plain word"
    and "word \<noteq> []" and "wordlen_limit ctx = 0 \<or> length word \<le> wordlen_limit ctx"
  shows "\<exists>ctx'. pconf_file_next ctx = Some (0, ctx') \<and> ctx_args ctx' = []"
proof -
  have wf: "pconf_wf ctx" using assms(1) by (simp add: pconf_ready_def)
  obtain b d r where d: "file_loop (start_line ctx) word = (b, d, r)" by (metis prod_cases3)
  have live: "\<not> ended (lex_of (start_line ctx))"
    using lex_of_fresh(1) [OF assms(1)] by (simp add: ended_def)
  have "lex_of d = (STATE_COLLECT, word, [])" "pconf_wf d" "b = ended (lex_of d)"
    using file_loop_lexer [OF start_line_wf [OF wf], of word] d live
      lex_of_fresh(1) [OF assms(1)] lex_run_plain [OF assms(3-5)] by auto
  then have "\<not> b" "ctx_args d = []" "numargs d = 0"
    using numargs_ctx_args [of d] by (auto simp: lex_of_def ended_def)
  with d wf assms(2) show ?thesis by (auto simp: pconf_file_next_def Let_def)
qed

theorem pconf_file_next_drops_last_word_witness:
  "\<exists>ctx'. pconf_file_next (blank_ctx\<lparr>ctx_f := Some ''nolock''\<rparr>) = Some (0, ctx') \<and> ctx_args ctx' = []"
proof (rule pconf_file_next_drops_last_word [where word = "''nolock''"])
  show "list_all plain ''nolock''" by code_simp
  show "pconf_ready (blank_ctx\<lparr>ctx_f := Some ''nolock''\<rparr>)"
    using blank_ctx_ready by (simp add: pconf_ready_def at_line_end_def)
  show "wordlen_limit (blank_ctx\<lparr>ctx_f := Some ''nolock''\<rparr>) = 0 \<or>
      length ''nolock'' \<le> wordlen_limit (blank_ctx\<lparr>ctx_f := Some ''nolock''\<rparr>)"
    by code_simp
qed simp_all

end
