(* ===== verification/StateTree.thy ===== *)
theory StateTree
  imports CLib ParseconfSpec
begin

text \<open>
  Model of \<open>src/common/state.c\<close> with the types of \<open>src/include/state.h\<close> and
  \<open>src/include/extstate.h\<close>: the binary search tree of variables kept by the data server
  and by every driver, the enumerations and ranges attached to a variable, and the sorted
  list of instant commands.

  A node is a record and a tree a datatype; a \<open>NULL\<close> pointer is \<open>Leaf\<close>. The pointer
  \<open>val\<close> of a node, which points to \<open>raw\<close> or to \<open>safe\<close>, is the flag saying which.
  A write through the pointer that \<open>state_tree_find\<close> returns is \<open>st_tree_modify\<close>. The
  clock reading of \<open>state_get_timestamp\<close> is the argument \<open>now\<close>; logging and freeing of
  memory are left out.
\<close>

section \<open>Types\<close>

definition ST_MAX_VALUE_LEN :: nat where "ST_MAX_VALUE_LEN = 256"
definition ST_FLAG_RW :: "32 word" where "ST_FLAG_RW = 0x0001"
definition ST_FLAG_STRING :: "32 word" where "ST_FLAG_STRING = 0x0002"
definition ST_FLAG_NUMBER :: "32 word" where "ST_FLAG_NUMBER = 0x0004"
definition ST_FLAG_IMMUTABLE :: "32 word" where "ST_FLAG_IMMUTABLE = 0x0008"

unbundle bit_operations_syntax

definition has_flag :: "32 word \<Rightarrow> 32 word \<Rightarrow> bool" where
  "has_flag fl b \<longleftrightarrow> fl AND b \<noteq> 0"

datatype val_ptr = To_raw | To_safe

record st_node =
  st_var :: cstring
  st_val :: val_ptr
  st_raw :: cstring
  st_rawsize :: nat
  st_safe :: cstring
  st_safesize :: nat
  st_flags :: "32 word"
  st_aux :: int
  st_lastset :: timespec
  st_enum_list :: "cstring list"
  st_range_list :: "(int \<times> int) list"

datatype st_tree = Leaf | Node st_tree st_node st_tree

definition node_val :: "st_node \<Rightarrow> cstring" where
  "node_val node = (case st_val node of To_raw \<Rightarrow> st_raw node | To_safe \<Rightarrow> st_safe node)"

section \<open>Values\<close>

definition val_escape :: "st_node \<Rightarrow> st_node" where
  "val_escape node =
     (let etmp = pconf_encode (st_raw node) [] ST_MAX_VALUE_LEN in
      if st_raw node = etmp then node\<lparr>st_val := To_raw\<rparr>
      else
        let node1 = (if st_safesize node < length etmp + 1
                     then node\<lparr>st_safesize := length etmp + 1\<rparr> else node)
        in node1\<lparr>st_safe := snprintf (st_safesize node1) etmp, st_val := To_safe\<rparr>)"

definition st_tree_node_refresh_timestamp :: "timespec \<Rightarrow> st_node \<Rightarrow> st_node" where
  "st_tree_node_refresh_timestamp now node = node\<lparr>st_lastset := now\<rparr>"

definition st_tree_node_compare_timestamp :: "st_node option \<Rightarrow> timespec option \<Rightarrow> int" where
  "st_tree_node_compare_timestamp node cutoff =
     (case node of
        None \<Rightarrow> - 2
      | Some n \<Rightarrow>
         (case cutoff of
            None \<Rightarrow> - 3
          | Some c \<Rightarrow>
              let d = difftimespec (st_lastset n) c in
              if d < 0 then - 1 else if d > 0 then 1 else 0))"

section \<open>The tree\<close>

fun state_tree_find :: "st_tree \<Rightarrow> cstring \<Rightarrow> st_node option" where
  "state_tree_find Leaf var = None"
| "state_tree_find (Node l node r) var =
     (if strcasecmp (st_var node) var > 0 then state_tree_find l var
      else if strcasecmp (st_var node) var < 0 then state_tree_find r var
      else Some node)"

text \<open>A write to the node that \<^const>\<open>state_tree_find\<close> points at.\<close>

fun st_tree_modify :: "st_tree \<Rightarrow> cstring \<Rightarrow> (st_node \<Rightarrow> st_node) \<Rightarrow> st_tree" where
  "st_tree_modify Leaf var g = Leaf"
| "st_tree_modify (Node l node r) var g =
     (if strcasecmp (st_var node) var > 0 then Node (st_tree_modify l var g) node r
      else if strcasecmp (st_var node) var < 0 then Node l node (st_tree_modify r var g)
      else Node l (g node) r)"

text \<open>Hang a subtree below another; a root that is already present is dropped.\<close>

fun st_tree_node_add :: "st_tree \<Rightarrow> st_tree \<Rightarrow> st_tree" where
  "st_tree_node_add t Leaf = t"
| "st_tree_node_add Leaf s = s"
| "st_tree_node_add (Node l node r) (Node sl sptr sr) =
     (if strcasecmp (st_var node) (st_var sptr) > 0
        then Node (st_tree_node_add l (Node sl sptr sr)) node r
      else if strcasecmp (st_var node) (st_var sptr) < 0
        then Node l node (st_tree_node_add r (Node sl sptr sr))
      else Node l node r)"

fun state_delinfo :: "st_tree \<Rightarrow> cstring \<Rightarrow> int \<times> st_tree" where
  "state_delinfo Leaf var = (0, Leaf)"
| "state_delinfo (Node l node r) var =
     (if strcasecmp (st_var node) var > 0
        then (case state_delinfo l var of (ret, l1) \<Rightarrow> (ret, Node l1 node r))
      else if strcasecmp (st_var node) var < 0
        then (case state_delinfo r var of (ret, r1) \<Rightarrow> (ret, Node l node r1))
      else if has_flag (st_flags node) ST_FLAG_IMMUTABLE then (0, Node l node r)
      else (1, st_tree_node_add r l))"

fun state_delinfo_olderthan :: "st_tree \<Rightarrow> cstring \<Rightarrow> timespec \<Rightarrow> int \<times> st_tree" where
  "state_delinfo_olderthan Leaf var cutoff = (0, Leaf)"
| "state_delinfo_olderthan (Node l node r) var cutoff =
     (if strcasecmp (st_var node) var > 0
        then (case state_delinfo_olderthan l var cutoff of (ret, l1) \<Rightarrow> (ret, Node l1 node r))
      else if strcasecmp (st_var node) var < 0
        then (case state_delinfo_olderthan r var cutoff of (ret, r1) \<Rightarrow> (ret, Node l node r1))
      else if has_flag (st_flags node) ST_FLAG_IMMUTABLE then (0, Node l node r)
      else if st_tree_node_compare_timestamp (Some node) (Some cutoff) \<ge> 0 then (0, Node l node r)
      else (1, st_tree_node_add r l))"

definition new_node :: "cstring \<Rightarrow> cstring \<Rightarrow> timespec \<Rightarrow> st_node" where
  "new_node var val now =
     val_escape
       \<lparr>st_var = var, st_val = To_raw, st_raw = val, st_rawsize = length val + 1,
        st_safe = [], st_safesize = 0, st_flags = 0, st_aux = 0, st_lastset = now,
        st_enum_list = [], st_range_list = []\<rparr>"

text \<open>Update of an existing node, and whether it counts as a change.\<close>

definition set_node :: "st_node \<Rightarrow> cstring \<Rightarrow> timespec \<Rightarrow> int \<times> st_node" where
  "set_node node val now =
     (let node1 = st_tree_node_refresh_timestamp now node in
      if st_raw node1 = val then (0, node1)
      else if has_flag (st_flags node1) ST_FLAG_IMMUTABLE then (0, node1)
      else
        let node2 = (if st_rawsize node1 < length val + 1
                     then node1\<lparr>st_rawsize := length val + 1\<rparr> else node1)
        in (1, val_escape (node2\<lparr>st_raw := snprintf (st_rawsize node2) val\<rparr>)))"

fun state_setinfo :: "st_tree \<Rightarrow> cstring \<Rightarrow> cstring \<Rightarrow> timespec \<Rightarrow> int \<times> st_tree" where
  "state_setinfo Leaf var val now = (1, Node Leaf (new_node var val now) Leaf)"
| "state_setinfo (Node l node r) var val now =
     (if strcasecmp (st_var node) var > 0
        then (case state_setinfo l var val now of (ret, l1) \<Rightarrow> (ret, Node l1 node r))
      else if strcasecmp (st_var node) var < 0
        then (case state_setinfo r var val now of (ret, r1) \<Rightarrow> (ret, Node l node r1))
      else (case set_node node val now of (ret, node1) \<Rightarrow> (ret, Node l node1 r)))"

section \<open>Attributes of a variable\<close>

fun st_tree_enum_add :: "cstring list \<Rightarrow> cstring \<Rightarrow> int \<times> cstring list" where
  "st_tree_enum_add [] enc = (1, [enc])"
| "st_tree_enum_add (e # es) enc =
     (if e \<noteq> enc then (case st_tree_enum_add es enc of (ret, es1) \<Rightarrow> (ret, e # es1))
      else (0, e # es))"

definition state_addenum :: "st_tree \<Rightarrow> cstring \<Rightarrow> cstring \<Rightarrow> timespec \<Rightarrow> int \<times> st_tree" where
  "state_addenum root var val now =
     (case state_tree_find root var of
        None \<Rightarrow> (0, root)
      | Some sttmp \<Rightarrow>
         (case st_tree_enum_add (st_enum_list sttmp) (pconf_encode val [] ST_MAX_VALUE_LEN) of
            (ret, es) \<Rightarrow>
              (ret, st_tree_modify root var
                      (\<lambda>n. (st_tree_node_refresh_timestamp now n)\<lparr>st_enum_list := es\<rparr>))))"

fun st_tree_range_add :: "(int \<times> int) list \<Rightarrow> int \<Rightarrow> int \<Rightarrow> int \<times> (int \<times> int) list" where
  "st_tree_range_add [] lo hi = (1, [(lo, hi)])"
| "st_tree_range_add (r # rs) lo hi =
     (if fst r \<noteq> lo \<and> snd r \<noteq> hi
      then (case st_tree_range_add rs lo hi of (ret, rs1) \<Rightarrow> (ret, r # rs1))
      else (0, r # rs))"

definition state_addrange :: "st_tree \<Rightarrow> cstring \<Rightarrow> int \<Rightarrow> int \<Rightarrow> timespec \<Rightarrow> int \<times> st_tree" where
  "state_addrange root var lo hi now =
     (if lo > hi then (0, root)
      else case state_tree_find root var of
        None \<Rightarrow> (0, root)
      | Some sttmp \<Rightarrow>
         (case st_tree_range_add (st_range_list sttmp) lo hi of
            (ret, rs) \<Rightarrow>
              (ret, st_tree_modify root var
                      (\<lambda>n. (st_tree_node_refresh_timestamp now n)\<lparr>st_range_list := rs\<rparr>))))"

definition state_setaux :: "st_tree \<Rightarrow> cstring \<Rightarrow> cstring \<Rightarrow> timespec \<Rightarrow> int \<times> st_tree" where
  "state_setaux root var auxs now =
     (case state_tree_find root var of
        None \<Rightarrow> (- 1, root)
      | Some sttmp \<Rightarrow>
          let aux = fst (strtol auxs 10) in
          if st_aux sttmp = aux
          then (0, st_tree_modify root var (st_tree_node_refresh_timestamp now))
          else (1, st_tree_modify root var
                     (\<lambda>n. (st_tree_node_refresh_timestamp now n)\<lparr>st_aux := aux\<rparr>)))"

definition state_getinfo :: "st_tree \<Rightarrow> cstring \<Rightarrow> cstring option" where
  "state_getinfo root var =
     (case state_tree_find root var of None \<Rightarrow> None | Some n \<Rightarrow> Some (node_val n))"

text \<open>\<open>-1\<close>, the result for an unknown variable, is the word with all bits set.\<close>

definition state_getflags :: "st_tree \<Rightarrow> cstring \<Rightarrow> 32 word" where
  "state_getflags root var =
     (case state_tree_find root var of None \<Rightarrow> - 1 | Some n \<Rightarrow> st_flags n)"

definition state_getaux :: "st_tree \<Rightarrow> cstring \<Rightarrow> int" where
  "state_getaux root var =
     (case state_tree_find root var of None \<Rightarrow> - 1 | Some n \<Rightarrow> st_aux n)"

definition state_getenumlist :: "st_tree \<Rightarrow> cstring \<Rightarrow> cstring list" where
  "state_getenumlist root var =
     (case state_tree_find root var of None \<Rightarrow> [] | Some n \<Rightarrow> st_enum_list n)"

definition state_getrangelist :: "st_tree \<Rightarrow> cstring \<Rightarrow> (int \<times> int) list" where
  "state_getrangelist root var =
     (case state_tree_find root var of None \<Rightarrow> [] | Some n \<Rightarrow> st_range_list n)"

fun parse_flags :: "cstring list \<Rightarrow> 32 word \<Rightarrow> 32 word" where
  "parse_flags [] fl = fl"
| "parse_flags (a # as) fl =
     (if same_nocase a ''RW'' then parse_flags as (fl OR ST_FLAG_RW)
      else if same_nocase a ''STRING'' then parse_flags as (fl OR ST_FLAG_STRING)
      else if same_nocase a ''NUMBER'' then parse_flags as (fl OR ST_FLAG_NUMBER)
      else parse_flags as fl)"

definition state_setflags :: "st_tree \<Rightarrow> cstring \<Rightarrow> cstring list \<Rightarrow> timespec \<Rightarrow> st_tree" where
  "state_setflags root var flag now =
     (case state_tree_find root var of
        None \<Rightarrow> root
      | Some _ \<Rightarrow>
          st_tree_modify root var
            (\<lambda>n. (st_tree_node_refresh_timestamp now n)\<lparr>st_flags := parse_flags flag 0\<rparr>))"

fun st_tree_del_enum :: "cstring list \<Rightarrow> cstring \<Rightarrow> int \<times> cstring list" where
  "st_tree_del_enum [] val = (0, [])"
| "st_tree_del_enum (e # es) val =
     (if \<not> same_nocase e val then (case st_tree_del_enum es val of (ret, es1) \<Rightarrow> (ret, e # es1))
      else (1, es))"

definition state_delenum :: "st_tree \<Rightarrow> cstring \<Rightarrow> cstring \<Rightarrow> timespec \<Rightarrow> int \<times> st_tree" where
  "state_delenum root var val now =
     (case state_tree_find root var of
        None \<Rightarrow> (0, root)
      | Some sttmp \<Rightarrow>
         (case st_tree_del_enum (st_enum_list sttmp) val of
            (ret, es) \<Rightarrow>
              (ret, st_tree_modify root var
                      (\<lambda>n. (st_tree_node_refresh_timestamp now n)\<lparr>st_enum_list := es\<rparr>))))"

fun st_tree_del_range :: "(int \<times> int) list \<Rightarrow> int \<Rightarrow> int \<Rightarrow> int \<times> (int \<times> int) list" where
  "st_tree_del_range [] lo hi = (0, [])"
| "st_tree_del_range (r # rs) lo hi =
     (if fst r \<noteq> lo \<and> snd r \<noteq> hi
      then (case st_tree_del_range rs lo hi of (ret, rs1) \<Rightarrow> (ret, r # rs1))
      else (1, rs))"

definition state_delrange :: "st_tree \<Rightarrow> cstring \<Rightarrow> int \<Rightarrow> int \<Rightarrow> timespec \<Rightarrow> int \<times> st_tree" where
  "state_delrange root var lo hi now =
     (case state_tree_find root var of
        None \<Rightarrow> (0, root)
      | Some sttmp \<Rightarrow>
         (case st_tree_del_range (st_range_list sttmp) lo hi of
            (ret, rs) \<Rightarrow>
              (ret, st_tree_modify root var
                      (\<lambda>n. (st_tree_node_refresh_timestamp now n)\<lparr>st_range_list := rs\<rparr>))))"

section \<open>Instant commands\<close>

fun state_addcmd :: "cstring list \<Rightarrow> cstring \<Rightarrow> int \<times> cstring list" where
  "state_addcmd [] cmd = (1, [cmd])"
| "state_addcmd (n # ns) cmd =
     (if strcasecmp n cmd > 0 then (1, cmd # n # ns)
      else if strcasecmp n cmd < 0
        then (case state_addcmd ns cmd of (ret, ns1) \<Rightarrow> (ret, n # ns1))
      else (0, n # ns))"

fun state_delcmd :: "cstring list \<Rightarrow> cstring \<Rightarrow> int \<times> cstring list" where
  "state_delcmd [] cmd = (0, [])"
| "state_delcmd (n # ns) cmd =
     (if strcasecmp n cmd > 0 then (0, n # ns)
      else if strcasecmp n cmd < 0
        then (case state_delcmd ns cmd of (ret, ns1) \<Rightarrow> (ret, n # ns1))
      else (1, ns))"

end
