(* ===== verification/StateTreeSpec.thy ===== *)
theory StateTreeSpec
  imports StateTree
begin

text \<open>
  What the state tree promises: it is a search tree under the case-insensitive order, its
  operations are those of a finite map from variable names (up to case) to nodes, the
  buffers of a node always hold its values, and the command list is a sorted set.
\<close>

section \<open>Search trees\<close>

fun st_nodes :: "st_tree \<Rightarrow> st_node set" where
  "st_nodes Leaf = {}"
| "st_nodes (Node l n r) = insert n (st_nodes l \<union> st_nodes r)"

definition st_key :: "st_node \<Rightarrow> nat list" where
  "st_key n = fold_case (st_var n)"

fun st_bst :: "st_tree \<Rightarrow> bool" where
  "st_bst Leaf = True"
| "st_bst (Node l n r) \<longleftrightarrow>
     st_bst l \<and> st_bst r \<and>
     (\<forall>x \<in> st_nodes l. st_key x < st_key n) \<and> (\<forall>x \<in> st_nodes r. st_key n < st_key x)"

text \<open>The buffers of a node, and what clients read through \<open>val\<close>.\<close>

definition node_wf :: "st_node \<Rightarrow> bool" where
  "node_wf n \<longleftrightarrow>
     length (st_raw n) < st_rawsize n \<and>
     (st_val n = To_safe \<longrightarrow> length (st_safe n) < st_safesize n) \<and>
     node_val n = pconf_encode (st_raw n) [] ST_MAX_VALUE_LEN"

definition st_tree_wf :: "st_tree \<Rightarrow> bool" where
  "st_tree_wf t \<longleftrightarrow> st_bst t \<and> (\<forall>n \<in> st_nodes t. node_wf n)"

text \<open>In-order listing, the order of \<open>LIST VAR\<close> and of a driver's dump.\<close>

fun st_inorder :: "st_tree \<Rightarrow> st_node list" where
  "st_inorder Leaf = []"
| "st_inorder (Node l n r) = st_inorder l @ n # st_inorder r"

lemma set_st_inorder [simp]: "set (st_inorder t) = st_nodes t"
  by (induction t) auto

lemma st_bst_sorted: "st_bst t \<Longrightarrow> sorted_wrt (<) (map st_key (st_inorder t))"
  by (induction t) (auto simp: sorted_wrt_append intro: less_trans)

subsection \<open>Lookup\<close>

lemma find_nocase_cong: "same_nocase v w \<Longrightarrow> state_tree_find t v = state_tree_find t w"
  by (induction t) (auto simp: same_nocase_iff strcasecmp_sign)

lemma find_SomeD: "state_tree_find t v = Some n \<Longrightarrow> n \<in> st_nodes t \<and> same_nocase (st_var n) v"
  by (induction t) (auto simp: same_nocase_iff strcasecmp_sign split: if_splits)

lemma find_mem:
  assumes "st_bst t" and "n \<in> st_nodes t" and "same_nocase (st_var n) v"
  shows "state_tree_find t v = Some n"
  using assms
proof (induction t)
  case (Node l m r)
  consider "n = m" | "n \<in> st_nodes l" | "n \<in> st_nodes r" using Node.prems(2) by auto
  then show ?case
    using Node by cases (auto simp: same_nocase_iff strcasecmp_sign st_key_def dest: less_asym)
qed simp

lemma find_None_iff:
  "st_bst t \<Longrightarrow> state_tree_find t v = None \<longleftrightarrow> (\<forall>n \<in> st_nodes t. \<not> same_nocase (st_var n) v)"
  by (metis find_SomeD find_mem not_None_eq option.distinct(1))

lemma find_wf: "st_tree_wf t \<Longrightarrow> state_tree_find t v = Some n \<Longrightarrow> node_wf n"
  using find_SomeD by (auto simp: st_tree_wf_def)

subsection \<open>Writing through a pointer\<close>

lemma modify_keys:
  assumes "\<And>n. st_key (g n) = st_key n"
  shows "st_key ` st_nodes (st_tree_modify t v g) = st_key ` st_nodes t"
proof (induction t)
  case (Node l n r)
  then show ?case by (simp add: assms image_Un)
qed simp

lemma modify_mem:
  "x \<in> st_nodes (st_tree_modify t v g) \<Longrightarrow> x \<in> st_nodes t \<or> (\<exists>n \<in> st_nodes t. x = g n)"
  by (induction t) (auto split: if_splits)

lemma keys_less: "(\<forall>x \<in> st_nodes t. st_key x < k) \<longleftrightarrow> (\<forall>x \<in> st_key ` st_nodes t. x < k)"
  and keys_greater: "(\<forall>x \<in> st_nodes t. k < st_key x) \<longleftrightarrow> (\<forall>x \<in> st_key ` st_nodes t. k < x)"
  by auto

lemma modify_bst:
  assumes "\<And>n. st_key (g n) = st_key n" and "st_bst t"
  shows "st_bst (st_tree_modify t v g)"
proof -
  note keys = modify_keys [OF assms(1)]
  have below: "(\<forall>x \<in> st_nodes (st_tree_modify u v g). st_key x < k) \<longleftrightarrow> (\<forall>x \<in> st_nodes u. st_key x < k)"
    and above: "(\<forall>x \<in> st_nodes (st_tree_modify u v g). k < st_key x) \<longleftrightarrow> (\<forall>x \<in> st_nodes u. k < st_key x)"
    for u k
    unfolding keys_less keys_greater keys by (rule refl)+
  show ?thesis using assms(2)
    by (induction t) (simp_all add: below above assms(1))
qed

lemma find_modify:
  assumes "\<And>n. st_key (g n) = st_key n"
  shows "state_tree_find (st_tree_modify t v g) w =
     (if same_nocase v w then map_option g (state_tree_find t v) else state_tree_find t w)"
proof -
  have fk: "fold_case (st_var (g n)) = fold_case (st_var n)" for n
    using assms by (simp add: st_key_def)
  show ?thesis
    by (induction t) (auto simp: same_nocase_iff strcasecmp_sign fk)
qed

subsection \<open>Hanging a subtree, deleting\<close>

lemma add_nodes:
  assumes "\<forall>x \<in> st_nodes t. \<forall>y \<in> st_nodes s. st_key y < st_key x"
  shows "st_nodes (st_tree_node_add t s) = st_nodes t \<union> st_nodes s"
  using assms
  by (induction t s rule: st_tree_node_add.induct) (auto simp: strcasecmp_sign st_key_def)

lemma add_bst:
  assumes "\<forall>x \<in> st_nodes t. \<forall>y \<in> st_nodes s. st_key y < st_key x" and "st_bst t" and "st_bst s"
  shows "st_bst (st_tree_node_add t s)"
  using assms
proof (induction t s rule: st_tree_node_add.induct)
  case (3 l node r sl sptr sr)
  then have "strcasecmp (st_var node) (st_var sptr) > 0"
    by (simp add: strcasecmp_sign st_key_def)
  with 3 show ?case by (auto simp: add_nodes)
qed auto

lemma bst_sides:
  assumes "st_bst (Node l n r)"
  shows "\<forall>x \<in> st_nodes r. \<forall>y \<in> st_nodes l. st_key y < st_key x"
  using assms by (auto intro: less_trans)

lemma delinfo_nodes:
  assumes "st_bst t"
  shows "st_nodes (snd (state_delinfo t v)) =
     (if fst (state_delinfo t v) = 1 then {n \<in> st_nodes t. \<not> same_nocase (st_var n) v} else st_nodes t)"
  using assms
proof (induction t)
  case (Node l n r)
  have neq: "x \<in> st_nodes l \<Longrightarrow> \<not> same_nocase (st_var x) (st_var n)"
    "x \<in> st_nodes r \<Longrightarrow> \<not> same_nocase (st_var x) (st_var n)" for x
    using Node.prems by (auto simp: same_nocase_iff st_key_def)
  show ?case
    using Node neq add_nodes [OF bst_sides [OF Node.prems]]
    by (auto simp: strcasecmp_sign same_nocase_iff st_key_def split: prod.splits)
qed simp

lemma delinfo_bst: "st_bst t \<Longrightarrow> st_bst (snd (state_delinfo t v))"
proof (induction t)
  case (Node l n r)
  then show ?case
    using add_bst [OF bst_sides [OF Node.prems]] delinfo_nodes [of l v] delinfo_nodes [of r v]
    by (auto split: prod.splits if_splits)
qed simp

lemma delinfo_ret:
  "st_bst t \<Longrightarrow> fst (state_delinfo t v) =
     (case state_tree_find t v of
        None \<Rightarrow> 0 | Some n \<Rightarrow> if has_flag (st_flags n) ST_FLAG_IMMUTABLE then 0 else 1)"
  by (induction t) (auto split: prod.splits)

subsection \<open>Setting a value\<close>

lemma val_escape_frame [simp]:
  "st_var (val_escape n) = st_var n" "st_raw (val_escape n) = st_raw n"
  "st_rawsize (val_escape n) = st_rawsize n" "st_flags (val_escape n) = st_flags n"
  "st_aux (val_escape n) = st_aux n" "st_lastset (val_escape n) = st_lastset n"
  "st_enum_list (val_escape n) = st_enum_list n" "st_range_list (val_escape n) = st_range_list n"
  by (simp_all add: val_escape_def Let_def)

lemma val_escape_wf [nut_wf]: "length (st_raw n) < st_rawsize n \<Longrightarrow> node_wf (val_escape n)"
  by (auto simp: node_wf_def val_escape_def node_val_def snprintf_def Let_def)

lemma new_node_wf [nut_wf]: "node_wf (new_node v x now)"
  by (simp add: new_node_def val_escape_wf)

lemma new_node_frame [simp]:
  "st_var (new_node v x now) = v" "st_raw (new_node v x now) = x"
  "st_flags (new_node v x now) = 0" "st_lastset (new_node v x now) = now"
  "st_aux (new_node v x now) = 0" "st_enum_list (new_node v x now) = []"
  "st_range_list (new_node v x now) = []"
  by (simp_all add: new_node_def)

lemma set_node_frame [simp]:
  "st_var (snd (set_node n x now)) = st_var n" "st_flags (snd (set_node n x now)) = st_flags n"
  "st_aux (snd (set_node n x now)) = st_aux n" "st_lastset (snd (set_node n x now)) = now"
  "st_enum_list (snd (set_node n x now)) = st_enum_list n"
  "st_range_list (snd (set_node n x now)) = st_range_list n"
  by (simp_all add: set_node_def st_tree_node_refresh_timestamp_def Let_def)

lemma set_node_raw:
  "st_raw (snd (set_node n x now)) = (if has_flag (st_flags n) ST_FLAG_IMMUTABLE then st_raw n else x)"
  by (auto simp: set_node_def st_tree_node_refresh_timestamp_def snprintf_def Let_def)

lemma set_node_ret:
  "fst (set_node n x now) = (if st_raw n = x \<or> has_flag (st_flags n) ST_FLAG_IMMUTABLE then 0 else 1)"
  by (simp add: set_node_def st_tree_node_refresh_timestamp_def Let_def)

lemma set_node_wf [nut_wf]: "node_wf n \<Longrightarrow> node_wf (snd (set_node n x now))"
  by (auto simp: set_node_def st_tree_node_refresh_timestamp_def Let_def snprintf_def
      intro!: val_escape_wf) (simp_all add: node_wf_def node_val_def split: val_ptr.splits)

lemma setinfo_keys:
  "st_key ` st_nodes (snd (state_setinfo t v x now)) = insert (fold_case v) (st_key ` st_nodes t)"
  by (induction t)
    (auto simp: st_key_def strcasecmp_sign case_prod_beta)

lemma setinfo_bst: "st_bst t \<Longrightarrow> st_bst (snd (state_setinfo t v x now))"
proof (induction t)
  case (Node l n r)
  have below: "(\<forall>y \<in> st_nodes (snd (state_setinfo u v x now)). st_key y < k)
      \<longleftrightarrow> (\<forall>y \<in> st_nodes u. st_key y < k) \<and> fold_case v < k"
    and above: "(\<forall>y \<in> st_nodes (snd (state_setinfo u v x now)). k < st_key y)
      \<longleftrightarrow> (\<forall>y \<in> st_nodes u. k < st_key y) \<and> k < fold_case v" for u k
    unfolding keys_less keys_greater setinfo_keys by auto
  have side: "st_key (snd (set_node n x now)) = st_key n" by (simp add: st_key_def)
  show ?case
    using Node below [of l "st_key n"] above [of r "st_key n"] side
    by (simp add: case_prod_beta) (simp add: strcasecmp_sign st_key_def)
qed simp

lemma setinfo_mem_wf:
  "\<forall>n \<in> st_nodes t. node_wf n \<Longrightarrow> \<forall>n \<in> st_nodes (snd (state_setinfo t v x now)). node_wf n"
  by (induction t) (auto simp: new_node_wf set_node_wf case_prod_beta)

definition put_node :: "cstring \<Rightarrow> cstring \<times> timespec \<Rightarrow> st_node option \<Rightarrow> st_node" where
  "put_node v xt old =
     (case old of None \<Rightarrow> new_node v (fst xt) (snd xt) | Some n \<Rightarrow> snd (set_node n (fst xt) (snd xt)))"

lemma find_setinfo:
  "state_tree_find (snd (state_setinfo t v x now)) w =
     (if same_nocase v w then Some (put_node v (x, now) (state_tree_find t v))
      else state_tree_find t w)"
  by (induction t)
    (auto simp: same_nocase_iff strcasecmp_sign put_node_def case_prod_beta)

lemma setinfo_ret:
  "fst (state_setinfo t v x now) =
     (case state_tree_find t v of None \<Rightarrow> 1 | Some n \<Rightarrow> fst (set_node n x now))"
  by (induction t) (auto simp: case_prod_beta)

lemma find_delinfo:
  assumes "st_bst t"
  shows "state_tree_find (snd (state_delinfo t v)) w =
     (if same_nocase v w \<and> fst (state_delinfo t v) = 1 then None else state_tree_find t w)"
proof -
  let ?t = "snd (state_delinfo t v)"
  have bst: "st_bst ?t" using assms by (rule delinfo_bst)
  have nodes: "st_nodes ?t =
     (if fst (state_delinfo t v) = 1 then {n \<in> st_nodes t. \<not> same_nocase (st_var n) v} else st_nodes t)"
    using assms by (rule delinfo_nodes)
  show ?thesis
  proof (cases "same_nocase v w \<and> fst (state_delinfo t v) = 1")
    case True
    then have "state_tree_find ?t w = None"
      by (subst find_None_iff [OF bst]) (auto simp: nodes same_nocase_iff)
    then show ?thesis using True by simp
  next
    case False
    show ?thesis
    proof (cases "state_tree_find t w")
      case None
      then have "\<forall>n \<in> st_nodes t. \<not> same_nocase (st_var n) w"
        using find_None_iff [OF assms] by blast
      then have "state_tree_find ?t w = None"
        by (subst find_None_iff [OF bst]) (auto simp: nodes)
      then show ?thesis using None by simp
    next
      case (Some n)
      then have "n \<in> st_nodes ?t"
        using False find_SomeD [OF Some] by (auto simp: nodes same_nocase_iff)
      then show ?thesis using Some find_SomeD [OF Some] find_mem [OF bst] False by auto
    qed
  qed
qed

subsection \<open>The tree as a store of variables\<close>

text \<open>
  The contract of a store of variables whose names are compared by \<open>same\<close>, where a
  variable marked \<open>fixed\<close> survives deletion. The data server and the drivers use the
  tree through these laws only.
\<close>

locale var_store = keyed_store vfind vput vinv same store
  for vfind :: "'s \<Rightarrow> 'k \<Rightarrow> 'v option" and vput :: "'s \<Rightarrow> 'k \<Rightarrow> 'x \<Rightarrow> 's"
    and vinv :: "'s \<Rightarrow> bool" and same :: "'k \<Rightarrow> 'k \<Rightarrow> bool"
    and store :: "'k \<Rightarrow> 'x \<Rightarrow> 'v option \<Rightarrow> 'v" +
  fixes vdel :: "'s \<Rightarrow> 'k \<Rightarrow> 's" and fixed :: "'v \<Rightarrow> bool"
  assumes del_inv: "vinv s \<Longrightarrow> vinv (vdel s k)"
    and find_del: "vinv s \<Longrightarrow>
      vfind (vdel s k) j =
        (if same k j \<and> (\<exists>v. vfind s k = Some v \<and> \<not> fixed v) then None else vfind s j)"
begin

lemma del_put:
  assumes "vinv s" and "same k k" and "\<not> fixed (store k x (vfind s k))"
  shows "vfind (vdel (vput s k x) k) k = None"
  using assms by (simp add: find_del find_put put_inv)

lemma del_only:
  "vinv s \<Longrightarrow> \<not> same k j \<Longrightarrow> vfind (vdel s k) j = vfind s j"
  by (simp add: find_del)

end

interpretation tree_store: var_store state_tree_find
  "\<lambda>t v xt. snd (state_setinfo t v (fst xt) (snd xt))" st_bst same_nocase put_node
  "\<lambda>t v. snd (state_delinfo t v)" "\<lambda>n. has_flag (st_flags n) ST_FLAG_IMMUTABLE"
proof (unfold_locales, goal_cases)
  case (1 j k) then show ?case unfolding same_nocase_iff by (rule sym)
next
  case (2 i j k) then show ?case unfolding same_nocase_iff by (rule trans)
next
  case (3 s k x) then show ?case by (rule setinfo_bst)
next
  case (4 s k x j) show ?case unfolding find_setinfo prod.collapse by (rule refl)
next
  case (5 s k) then show ?case by (rule delinfo_bst)
next
  case (6 s k j) then show ?case by (cases "state_tree_find s k") (simp_all add: find_delinfo delinfo_ret)
qed

subsection \<open>Deleting what is old\<close>

lemma delinfo_olderthan_alt:
  "state_delinfo_olderthan t v c =
     (if \<exists>n. state_tree_find t v = Some n \<and> difftimespec (st_lastset n) c < 0
      then state_delinfo t v else (0, t))"
  by (induction t) (auto simp: st_tree_node_compare_timestamp_def Let_def case_prod_beta)

lemma delinfo_unchanged: "fst (state_delinfo t v) \<noteq> 1 \<Longrightarrow> snd (state_delinfo t v) = t"
  by (induction t) (auto simp: case_prod_beta)

lemma st_tree_wf_Leaf [simp, nut_wf]: "st_tree_wf Leaf"
  by (simp add: st_tree_wf_def)

definition clock :: "int \<Rightarrow> timespec" where
  "clock s = \<lparr>tv_sec = s, tv_nsec = 0\<rparr>"

subsection \<open>Every operation keeps the tree well formed\<close>

inductive st_step :: "st_tree \<Rightarrow> st_tree \<Rightarrow> bool" where
  step_setinfo: "st_step t (snd (state_setinfo t v x now))"
| step_delinfo: "st_step t (snd (state_delinfo t v))"
| step_delinfo_olderthan: "st_step t (snd (state_delinfo_olderthan t v cutoff))"
| step_addenum: "st_step t (snd (state_addenum t v x now))"
| step_delenum: "st_step t (snd (state_delenum t v x now))"
| step_addrange: "st_step t (snd (state_addrange t v lo hi now))"
| step_delrange: "st_step t (snd (state_delrange t v lo hi now))"
| step_setaux: "st_step t (snd (state_setaux t v x now))"
| step_setflags: "st_step t (state_setflags t v fl now)"

inductive_cases st_stepE: "st_step t u"

lemma modify_wf:
  assumes "\<And>n. st_var (g n) = st_var n" and "\<And>n. node_wf n \<Longrightarrow> node_wf (g n)" and "st_tree_wf t"
  shows "st_tree_wf (st_tree_modify t v g)"
proof -
  have "st_bst (st_tree_modify t v g)"
    using assms by (intro modify_bst) (simp_all add: st_key_def st_tree_wf_def)
  then show ?thesis
    using assms(2,3) modify_mem [of _ t v g] by (force simp: st_tree_wf_def)
qed

lemma node_wf_attributes [simp]:
  "node_wf (n\<lparr>st_enum_list := es\<rparr>) = node_wf n" "node_wf (n\<lparr>st_range_list := rs\<rparr>) = node_wf n"
  "node_wf (n\<lparr>st_flags := fl\<rparr>) = node_wf n" "node_wf (n\<lparr>st_aux := a\<rparr>) = node_wf n"
  "node_wf (n\<lparr>st_lastset := now\<rparr>) = node_wf n"
  by (simp_all add: node_wf_def node_val_def split: val_ptr.split)

lemma delinfo_tree_wf: "st_tree_wf t \<Longrightarrow> st_tree_wf (snd (state_delinfo t v))"
  using delinfo_bst [of t v] delinfo_nodes [of t v] by (auto simp: st_tree_wf_def split: if_splits)

lemma setinfo_tree_wf: "st_tree_wf t \<Longrightarrow> st_tree_wf (snd (state_setinfo t v x now))"
  using setinfo_bst [of t v x now] setinfo_mem_wf [of t v x now] by (simp add: st_tree_wf_def)

lemma st_step_wf:
  assumes "st_step t u" and "st_tree_wf t"
  shows "st_tree_wf u"
  using assms
proof cases
  case (step_delinfo_olderthan v cutoff)
  then show ?thesis using assms(2) delinfo_tree_wf [of t v] by (simp add: delinfo_olderthan_alt)
qed (auto simp: state_addenum_def state_delenum_def state_addrange_def state_delrange_def
      state_setaux_def state_setflags_def st_tree_node_refresh_timestamp_def Let_def
      setinfo_tree_wf delinfo_tree_wf
      intro!: modify_wf split: option.splits prod.splits)

text \<open>
  Property C4: whatever sequence of settings, deletions and changes of flags, enumerations,
  ranges and auxiliary values is applied to the empty tree, the tree stays a search tree
  under the case-insensitive order, its listing is strictly sorted (so no variable occurs
  twice, not even in another case), every buffer holds its text with the terminator,
  and the published value of each variable is the escaped form of its raw value.
\<close>

theorem state_tree_reachable_wf:
  assumes "st_step\<^sup>*\<^sup>* Leaf t"
  shows "st_tree_wf t \<and> sorted_wrt (<) (map st_key (st_inorder t))"
proof -
  have "st_tree_wf t"
    using assms by (induction rule: rtranclp_induct) (auto intro: st_step_wf)
  then show ?thesis by (simp add: st_tree_wf_def st_bst_sorted)
qed

theorem state_tree_reachable_wf_witness:
  "st_tree_wf (snd (state_setinfo (snd (state_setinfo Leaf ''ups.status'' ''OL'' (clock 1))) ''battery.charge'' ''100'' (clock 1)))"
  by (rule conjunct1 [OF state_tree_reachable_wf])
    (blast intro: converse_rtranclp_into_rtranclp step_setinfo rtranclp.rtrancl_refl)

subsection \<open>What clients read\<close>

definition immutable_at :: "st_tree \<Rightarrow> cstring \<Rightarrow> bool" where
  "immutable_at t v \<longleftrightarrow>
     (case state_tree_find t v of None \<Rightarrow> False | Some n \<Rightarrow> has_flag (st_flags n) ST_FLAG_IMMUTABLE)"

definition older_at :: "st_tree \<Rightarrow> cstring \<Rightarrow> timespec \<Rightarrow> bool" where
  "older_at t v cutoff \<longleftrightarrow>
     (case state_tree_find t v of
        None \<Rightarrow> False | Some n \<Rightarrow> total_nsec (st_lastset n) < total_nsec cutoff)"

definition holds_raw :: "st_tree \<Rightarrow> cstring \<Rightarrow> cstring \<Rightarrow> bool" where
  "holds_raw t v x \<longleftrightarrow>
     (case state_tree_find t v of None \<Rightarrow> False | Some n \<Rightarrow> st_raw n = x)"

lemma put_node_val:
  assumes "st_tree_wf t"
  shows "node_val (put_node v (x, now) (state_tree_find t v)) =
     (case state_tree_find t v of
        None \<Rightarrow> pconf_encode x [] ST_MAX_VALUE_LEN
      | Some n \<Rightarrow> if has_flag (st_flags n) ST_FLAG_IMMUTABLE then node_val n
                 else pconf_encode x [] ST_MAX_VALUE_LEN)"
proof (cases "state_tree_find t v")
  case None
  then show ?thesis using new_node_wf [of v x now] by (simp add: put_node_def node_wf_def)
next
  case (Some n)
  then have "node_wf n" using assms by (rule find_wf [rotated])
  then show ?thesis
    using Some set_node_wf [of n x now] set_node_raw [of n x now]
    by (simp add: put_node_def node_wf_def)
qed

lemma getinfo_setinfo:
  assumes "st_tree_wf t"
  shows "state_getinfo (snd (state_setinfo t v x now)) w =
      (if same_nocase v w \<and> \<not> immutable_at t v
       then Some (pconf_encode x [] ST_MAX_VALUE_LEN) else state_getinfo t w)"
  using put_node_val [OF assms, of v x now] find_nocase_cong [of v w t]
  by (auto simp: state_getinfo_def find_setinfo immutable_at_def split: option.splits)

text \<open>
  Property C5: after \<open>state_setinfo\<close> every variable reads as follows: the variable that was
  set, under any spelling of its name, reads as the escaped form of the new value unless it is
  immutable, in which case it keeps its value; every other variable is untouched. The result
  of the call is 1 exactly when the stored value changed or the variable is new.
\<close>

theorem state_setinfo_spec:
  assumes "st_tree_wf t"
  shows "state_getinfo (snd (state_setinfo t v x now)) w =
      (if same_nocase v w \<and> \<not> immutable_at t v
       then Some (pconf_encode x [] ST_MAX_VALUE_LEN) else state_getinfo t w)
    \<and> fst (state_setinfo t v x now) =
      (if holds_raw t v x \<or> immutable_at t v then 0 else 1)"
  by (auto simp: getinfo_setinfo [OF assms] setinfo_ret set_node_ret immutable_at_def holds_raw_def
      split: option.splits)

theorem state_setinfo_spec_witness:
  "state_getinfo (snd (state_setinfo (snd (state_setinfo Leaf ''ups.id'' ''a'' (clock 1))) ''UPS.ID'' ''b#1'' (clock 2))) ''ups.id''
    = Some (pconf_encode ''b#1'' [] ST_MAX_VALUE_LEN)"
  by (subst conjunct1 [OF state_setinfo_spec]) (rule setinfo_tree_wf, simp, code_simp)

text \<open>
  \<open>state_delinfo\<close> removes the named variable, under any spelling, and nothing
  else, and leaves an immutable one in place; \<open>state_delinfo_olderthan\<close> does so exactly when
  the variable was last set strictly before the cutoff. The result tells whether it removed.
\<close>

theorem state_delinfo_spec:
  assumes "st_tree_wf t"
  shows "state_tree_find (snd (state_delinfo_olderthan t v cutoff)) w =
      (if same_nocase v w \<and> \<not> immutable_at t v \<and> older_at t v cutoff
       then None else state_tree_find t w)
    \<and> state_tree_find (snd (state_delinfo t v)) w =
      (if same_nocase v w \<and> \<not> immutable_at t v
       then None else state_tree_find t w)
    \<and> fst (state_delinfo t v) =
      (if state_tree_find t v \<noteq> None \<and> \<not> immutable_at t v then 1 else 0)"
proof -
  have "st_bst t" using assms by (simp add: st_tree_wf_def)
  from tree_store.find_del [OF this] find_nocase_cong [of v w t] delinfo_ret [OF this, of v] show ?thesis
    by (auto simp: delinfo_olderthan_alt difftimespec_total immutable_at_def older_at_def
        split: option.splits)
qed

theorem state_delinfo_spec_witness:
  "state_tree_find (snd (state_delinfo (snd (state_setinfo Leaf ''ups.id'' ''a'' (clock 1))) ''UPS.ID'')) ''ups.id'' = None"
  by (subst conjunct1 [OF conjunct2 [OF state_delinfo_spec]]) (rule setinfo_tree_wf, simp, code_simp)

section \<open>Instant commands\<close>

definition cmd_sorted :: "cstring list \<Rightarrow> bool" where
  "cmd_sorted cs \<longleftrightarrow> sorted_wrt (<) (map fold_case cs)"

lemma addcmd_keys:
  "fold_case ` set (snd (state_addcmd cs c)) = insert (fold_case c) (fold_case ` set cs)"
  by (induction cs) (auto simp: strcasecmp_sign case_prod_beta)

lemma addcmd_sorted: "cmd_sorted cs \<Longrightarrow> cmd_sorted (snd (state_addcmd cs c))"
proof (induction cs)
  case (Cons d cs)
  have "(\<forall>x \<in> set (snd (state_addcmd cs c)). fold_case d < fold_case x)
      \<longleftrightarrow> (\<forall>y \<in> fold_case ` set (snd (state_addcmd cs c)). fold_case d < y)" by blast
  then have "(\<forall>x \<in> set (snd (state_addcmd cs c)). fold_case d < fold_case x)
      \<longleftrightarrow> fold_case d < fold_case c \<and> (\<forall>x \<in> set cs. fold_case d < fold_case x)"
    by (auto simp: addcmd_keys)
  then show ?case
    using Cons by (auto simp: cmd_sorted_def strcasecmp_sign case_prod_beta intro: less_trans)
qed (simp add: cmd_sorted_def)

lemma delcmd_set:
  "cmd_sorted cs \<Longrightarrow> set (snd (state_delcmd cs c)) = {d \<in> set cs. \<not> same_nocase d c}"
  by (induction cs)
    (auto simp: cmd_sorted_def strcasecmp_sign same_nocase_iff case_prod_beta)

lemma delcmd_sorted: "cmd_sorted cs \<Longrightarrow> cmd_sorted (snd (state_delcmd cs c))"
proof (induction cs)
  case (Cons d cs)
  then have "cmd_sorted cs" by (simp add: cmd_sorted_def)
  with Cons delcmd_set [OF this, of c] show ?case
    by (auto simp: cmd_sorted_def case_prod_beta)
qed (simp add: cmd_sorted_def)

lemma addcmd_ret: "fst (state_addcmd cs c) = 0 \<Longrightarrow> \<exists>d \<in> set cs. same_nocase d c"
  by (induction cs) (auto simp: strcasecmp_sign same_nocase_iff case_prod_beta split: if_splits)

lemma delcmd_ret:
  "cmd_sorted cs \<Longrightarrow> fst (state_delcmd cs c) = (if \<exists>d \<in> set cs. same_nocase d c then 1 else 0)"
  by (induction cs)
    (auto simp: cmd_sorted_def strcasecmp_sign same_nocase_iff case_prod_beta)

text \<open>The calls that shape a command list, from the empty list on.\<close>

datatype cmd_call = Addcmd cstring | Delcmd cstring

fun do_cmd_call :: "cstring list \<Rightarrow> cmd_call \<Rightarrow> cstring list" where
  "do_cmd_call cs (Addcmd c) = snd (state_addcmd cs c)"
| "do_cmd_call cs (Delcmd c) = snd (state_delcmd cs c)"

text \<open>Abstractly, a set of folded names.\<close>

fun abs_cmd_call :: "nat list set \<Rightarrow> cmd_call \<Rightarrow> nat list set" where
  "abs_cmd_call S (Addcmd c) = insert (fold_case c) S"
| "abs_cmd_call S (Delcmd c) = S - {fold_case c}"

lemma do_cmd_call_refines:
  assumes "cmd_sorted cs"
  shows "cmd_sorted (do_cmd_call cs x)"
    and "fold_case ` set (do_cmd_call cs x) = abs_cmd_call (fold_case ` set cs) x"
  using assms
  by (cases x; auto simp: addcmd_sorted delcmd_sorted addcmd_keys delcmd_set same_nocase_iff)+

text \<open>
  The linked list of instant commands implements a set of names up to case:
  after any calls of \<open>state_addcmd\<close> and \<open>state_delcmd\<close> the list is strictly sorted and holds
  exactly the names the set holds.
\<close>

theorem cmdlist_refines_set:
  "cmd_sorted (foldl do_cmd_call [] xs) \<and>
   fold_case ` set (foldl do_cmd_call [] xs) = foldl abs_cmd_call {} xs"
proof (induction xs rule: rev_induct)
  case (snoc x xs)
  then show ?case using do_cmd_call_refines [of "foldl do_cmd_call [] xs" x] by simp
qed (simp add: cmd_sorted_def)

section \<open>Ranges and enumerations\<close>

lemma range_add_spec:
  "st_tree_range_add rs lo hi =
     (if \<exists>r \<in> set rs. fst r = lo \<or> snd r = hi then (0, rs) else (1, rs @ [(lo, hi)]))"
  by (induction rs) auto

lemma find_attr:
  assumes "\<And>n. st_var (g n) = st_var n" and "state_tree_find t v = Some n"
  shows "state_tree_find (st_tree_modify t v g) v = Some (g n)"
  using assms by (simp add: find_modify st_key_def same_nocase_iff)

text \<open>
  Adding a range to a known variable appends it unless some range of the
  variable has the same minimum or the same maximum: a range that shares one bound only is
  taken for a duplicate and lost.
\<close>

theorem addrange_drops_shared_bound:
  assumes "state_tree_find t v = Some n" and "lo \<le> hi"
  shows "state_getrangelist (snd (state_addrange t v lo hi now)) v =
     (if \<exists>r \<in> set (st_range_list n). fst r = lo \<or> snd r = hi then st_range_list n
      else st_range_list n @ [(lo, hi)])"
  using assms
  by (simp add: state_addrange_def range_add_spec state_getrangelist_def find_attr
      st_tree_node_refresh_timestamp_def)

theorem addrange_drops_shared_bound_witness:
  "state_getrangelist (snd (state_addrange (Node Leaf ((new_node ''a'' ''1'' (clock 1))\<lparr>st_range_list := [(0, 10)]\<rparr>) Leaf)
     ''a'' 0 50 (clock 2))) ''a'' = [(0, 10)]"
  by (subst addrange_drops_shared_bound
      [of _ _ "(new_node ''a'' ''1'' (clock 1))\<lparr>st_range_list := [(0, 10)]\<rparr>"]) simp_all

text \<open>
  Enumerated values are stored escaped but deleted by their raw text, so a value
  that escaping changes can be added but never deleted again.
\<close>

theorem delenum_misses_escaped:
  assumes "state_tree_find t v = Some n" and "st_enum_list n = []"
    and "\<not> same_nocase (pconf_encode x [] ST_MAX_VALUE_LEN) x"
  shows "state_delenum (snd (state_addenum t v x now)) v x now =
     (0, st_tree_modify (snd (state_addenum t v x now)) v
           (\<lambda>n. (st_tree_node_refresh_timestamp now n)\<lparr>st_enum_list := [pconf_encode x [] ST_MAX_VALUE_LEN]\<rparr>))"
  using assms
  by (simp add: state_addenum_def state_delenum_def find_attr st_tree_node_refresh_timestamp_def)

theorem delenum_misses_escaped_witness:
  "fst (state_delenum (snd (state_addenum (Node Leaf (new_node ''a'' ''1'' (clock 1)) Leaf) ''a'' ''x#1'' (clock 2)))
     ''a'' ''x#1'' (clock 2)) = 0"
proof -
  have "\<not> same_nocase (pconf_encode ''x#1'' [] ST_MAX_VALUE_LEN) ''x#1''" by code_simp
  then show ?thesis
    by (subst delenum_misses_escaped [of _ _ "new_node ''a'' ''1'' (clock 1)"]) simp_all
qed

end
