(* ===== verification/Str.thy ===== *)
theory Str
  imports CLib
begin

text \<open>
  Model of \<open>src/common/str.c\<close> (trimming, checked number scanning, splitting of a LISTEN
  address, suffix test, concatenation) and of \<open>src/common/strjson.c\<close>. A number scanner
  that returns 0 and sets \<open>errno\<close> is \<open>Inl\<close> of that value, one that returns 1 is
  \<open>Inr\<close> of the number. Left out: null pointers, failed allocations, and the scanners of
  \<open>double\<close> values.
\<close>

section \<open>Trimming\<close>

definition str_ltrim_m :: "cstring \<Rightarrow> cstring \<Rightarrow> cstring" where
  "str_ltrim_m string characters =
     (if string = [] \<or> characters = [] then string
      else dropWhile (\<lambda>c. c \<in> set characters) string)"

definition str_rtrim_m :: "cstring \<Rightarrow> cstring \<Rightarrow> cstring" where
  "str_rtrim_m string characters =
     (if string = [] \<or> characters = [] then string
      else rev (dropWhile (\<lambda>c. c \<in> set characters) (rev string)))"

definition str_trim_m :: "cstring \<Rightarrow> cstring \<Rightarrow> cstring" where
  "str_trim_m string characters = str_rtrim_m (str_ltrim_m string characters) characters"

definition str_ltrim :: "cstring \<Rightarrow> char \<Rightarrow> cstring" where
  "str_ltrim string character = str_ltrim_m string [character]"

definition str_rtrim :: "cstring \<Rightarrow> char \<Rightarrow> cstring" where
  "str_rtrim string character = str_rtrim_m string [character]"

definition str_trim :: "cstring \<Rightarrow> char \<Rightarrow> cstring" where
  "str_trim string character = str_rtrim (str_ltrim string character) character"

definition str_ltrim_space :: "cstring \<Rightarrow> cstring" where
  "str_ltrim_space string =
     (if string = [] then string else dropWhile (\<lambda>c. isspace (schar c)) string)"

definition str_rtrim_space :: "cstring \<Rightarrow> cstring" where
  "str_rtrim_space string =
     (if string = [] then string else rev (dropWhile (\<lambda>c. isspace (schar c)) (rev string)))"

definition str_trim_space :: "cstring \<Rightarrow> cstring" where
  "str_trim_space string = str_rtrim_space (str_ltrim_space string)"

section \<open>Checked number scanning\<close>

definition str_to_long_strict :: "cstring \<Rightarrow> int \<Rightarrow> errno + int" where
  "str_to_long_strict string base =
     (if string = [] \<or> isspace (schar (hd string)) then Inl EINVAL
      else case strtol string base of
        (number, ptr, err) \<Rightarrow>
          if err = EINVAL \<or> ptr \<noteq> [] then Inl EINVAL
          else if err = ERANGE then Inl ERANGE
          else Inr number)"

definition str_to_long :: "cstring \<Rightarrow> int \<Rightarrow> errno + int" where
  "str_to_long string base =
     (if string = [] then Inl EINVAL else str_to_long_strict (str_trim_space string) base)"

definition str_to_ulong_strict :: "cstring \<Rightarrow> int \<Rightarrow> errno + int" where
  "str_to_ulong_strict string base =
     (if string = [] \<or> hd string = CHR ''+'' \<or> hd string = CHR ''-'' \<or> isspace (schar (hd string))
      then Inl EINVAL
      else case strtoul string base of
        (number, ptr, err) \<Rightarrow>
          if err = EINVAL \<or> ptr \<noteq> [] then Inl EINVAL
          else if err = ERANGE then Inl ERANGE
          else Inr number)"

definition str_to_ulong :: "cstring \<Rightarrow> int \<Rightarrow> errno + int" where
  "str_to_ulong string base =
     (if string = [] then Inl EINVAL else str_to_ulong_strict (str_trim_space string) base)"

text \<open>The narrower scanners check the range of the wider result.\<close>

definition str_to_short :: "cstring \<Rightarrow> int \<Rightarrow> errno + int" where
  "str_to_short string base =
     (case str_to_long string base of
        Inl e \<Rightarrow> Inl e
      | Inr num \<Rightarrow> if num < SHRT_MIN \<or> num > SHRT_MAX then Inl ERANGE else Inr num)"

definition str_to_short_strict :: "cstring \<Rightarrow> int \<Rightarrow> errno + int" where
  "str_to_short_strict string base =
     (case str_to_long_strict string base of
        Inl e \<Rightarrow> Inl e
      | Inr num \<Rightarrow> if num < SHRT_MIN \<or> num > SHRT_MAX then Inl ERANGE else Inr num)"

definition str_to_ushort :: "cstring \<Rightarrow> int \<Rightarrow> errno + int" where
  "str_to_ushort string base =
     (case str_to_ulong string base of
        Inl e \<Rightarrow> Inl e
      | Inr num \<Rightarrow> if num > USHRT_MAX then Inl ERANGE else Inr num)"

definition str_to_ushort_strict :: "cstring \<Rightarrow> int \<Rightarrow> errno + int" where
  "str_to_ushort_strict string base =
     (case str_to_ulong_strict string base of
        Inl e \<Rightarrow> Inl e
      | Inr num \<Rightarrow> if num > USHRT_MAX then Inl ERANGE else Inr num)"

definition str_to_int :: "cstring \<Rightarrow> int \<Rightarrow> errno + int" where
  "str_to_int string base =
     (case str_to_long string base of
        Inl e \<Rightarrow> Inl e
      | Inr num \<Rightarrow> if num < INT_MIN \<or> num > INT_MAX then Inl ERANGE else Inr num)"

definition str_to_int_strict :: "cstring \<Rightarrow> int \<Rightarrow> errno + int" where
  "str_to_int_strict string base =
     (case str_to_long_strict string base of
        Inl e \<Rightarrow> Inl e
      | Inr num \<Rightarrow> if num < INT_MIN \<or> num > INT_MAX then Inl ERANGE else Inr num)"

definition str_to_uint :: "cstring \<Rightarrow> int \<Rightarrow> errno + int" where
  "str_to_uint string base =
     (case str_to_ulong string base of
        Inl e \<Rightarrow> Inl e
      | Inr num \<Rightarrow> if num > UINT_MAX then Inl ERANGE else Inr num)"

definition str_to_uint_strict :: "cstring \<Rightarrow> int \<Rightarrow> errno + int" where
  "str_to_uint_strict string base =
     (case str_to_ulong_strict string base of
        Inl e \<Rightarrow> Inl e
      | Inr num \<Rightarrow> if num > UINT_MAX then Inl ERANGE else Inr num)"

definition scans :: "errno + int \<Rightarrow> bool" where
  "scans r \<longleftrightarrow> (case r of Inl _ \<Rightarrow> False | Inr _ \<Rightarrow> True)"

definition str_is_short :: "cstring \<Rightarrow> int \<Rightarrow> bool" where
  "str_is_short string base = scans (str_to_short string base)"
definition str_is_short_strict :: "cstring \<Rightarrow> int \<Rightarrow> bool" where
  "str_is_short_strict string base = scans (str_to_short_strict string base)"
definition str_is_ushort :: "cstring \<Rightarrow> int \<Rightarrow> bool" where
  "str_is_ushort string base = scans (str_to_ushort string base)"
definition str_is_ushort_strict :: "cstring \<Rightarrow> int \<Rightarrow> bool" where
  "str_is_ushort_strict string base = scans (str_to_ushort_strict string base)"
definition str_is_int :: "cstring \<Rightarrow> int \<Rightarrow> bool" where
  "str_is_int string base = scans (str_to_int string base)"
definition str_is_int_strict :: "cstring \<Rightarrow> int \<Rightarrow> bool" where
  "str_is_int_strict string base = scans (str_to_int_strict string base)"
definition str_is_uint :: "cstring \<Rightarrow> int \<Rightarrow> bool" where
  "str_is_uint string base = scans (str_to_uint string base)"
definition str_is_uint_strict :: "cstring \<Rightarrow> int \<Rightarrow> bool" where
  "str_is_uint_strict string base = scans (str_to_uint_strict string base)"
definition str_is_long :: "cstring \<Rightarrow> int \<Rightarrow> bool" where
  "str_is_long string base = scans (str_to_long string base)"
definition str_is_long_strict :: "cstring \<Rightarrow> int \<Rightarrow> bool" where
  "str_is_long_strict string base = scans (str_to_long_strict string base)"
definition str_is_ulong :: "cstring \<Rightarrow> int \<Rightarrow> bool" where
  "str_is_ulong string base = scans (str_to_ulong string base)"
definition str_is_ulong_strict :: "cstring \<Rightarrow> int \<Rightarrow> bool" where
  "str_is_ulong_strict string base = scans (str_to_ulong_strict string base)"

section \<open>Splitting a LISTEN address\<close>

text \<open>Pointers into the string are the suffixes they point at.\<close>

definition strchr :: "cstring \<Rightarrow> char \<Rightarrow> cstring option" where
  "strchr s c = (case dropWhile (\<lambda>x. x \<noteq> c) s of [] \<Rightarrow> None | r \<Rightarrow> Some r)"

fun strstr :: "cstring \<Rightarrow> cstring \<Rightarrow> cstring option" where
  "strstr [] needle = (if needle = [] then Some [] else None)"
| "strstr (c # s) needle =
     (if take (length needle) (c # s) = needle then Some (c # s) else strstr s needle)"

text \<open>
  The common tail: \<open>colon\<close> starts the port, the address is \<open>host\<close> up to \<open>stop\<close>,
  which is cut off by a NUL.
\<close>

definition listen_port :: "cstring \<Rightarrow> cstring \<Rightarrow> cstring \<Rightarrow> (cstring \<times> cstring option) option" where
  "listen_port host stop colon =
     (let p = tl colon in
      if length colon = length host \<or> p = [] \<or> \<not> list_all isdigit p then None
      else case str_to_uint_strict p 10 of
        Inl _ \<Rightarrow> None
      | Inr number \<Rightarrow>
          if number > 65535 then None
          else Some (take (length host - length stop) host, Some p))"

definition str_split_listen :: "cstring \<Rightarrow> (cstring \<times> cstring option) option" where
  "str_split_listen string =
     (if string = [] then None
      else if hd string = CHR ''['' then
        (case (strchr string CHR '']'', strchr string CHR '':'') of
           (Some stop, Some colon) \<Rightarrow>
             if length colon < length stop then None
             else (case strchr (tl colon) CHR '':'' of
                None \<Rightarrow> None
              | Some colon2 \<Rightarrow>
                  if length colon2 < length stop
                    \<or> strchr (tl string) CHR ''['' \<noteq> None \<or> strchr (tl stop) CHR '']'' \<noteq> None
                  then None
                  else if tl stop = [] then Some (string, None)
                  else if hd (tl stop) \<noteq> CHR '':'' then None
                  else listen_port (tl string) stop (tl stop))
         | _ \<Rightarrow> None)
      else if strchr string CHR ''['' \<noteq> None \<or> strchr string CHR '']'' \<noteq> None then None
      else
        (case strchr string CHR '':'' of
           None \<Rightarrow> Some (string, None)
         | Some colon \<Rightarrow>
             (case strstr string '':::'' of
                Some triple \<Rightarrow>
                  if strstr string ''::'' \<noteq> Some triple then None
                  else listen_port string (drop 2 triple) (drop 2 triple)
              | None \<Rightarrow>
                  if strchr (tl colon) CHR '':'' \<noteq> None then Some (string, None)
                  else listen_port string colon colon)))"

section \<open>Suffixes and concatenation\<close>

definition str_ends_with :: "cstring \<Rightarrow> cstring \<Rightarrow> bool" where
  "str_ends_with s suff \<longleftrightarrow>
     length suff \<le> length s \<and> drop (length s - length suff) s = suff"

definition str_concat :: "cstring list \<Rightarrow> cstring" where
  "str_concat ss = foldl (\<lambda>merged s. merged @ s) [] ss"

section \<open>JSON\<close>

definition hex_digit :: "nat \<Rightarrow> char" where
  "hex_digit d = (if d < 10 then char_of (48 + d) else char_of (87 + d))"

definition json_esc :: "char \<Rightarrow> cstring" where
  "json_esc c =
     (let n = code_of c; bs = CHR 0x5C in
      if n = 0x22 then [bs, c]
      else if n = 0x5C then [bs, c]
      else if n = 8 then [bs, CHR ''b'']
      else if n = 12 then [bs, CHR ''f'']
      else if n = 10 then [bs, CHR ''n'']
      else if n = 13 then [bs, CHR ''r'']
      else if n = 9 then [bs, CHR ''t'']
      else if n < 32 then [bs, CHR ''u'', CHR ''0'', CHR ''0'', hex_digit (n div 16), hex_digit (n mod 16)]
      else [c])"

fun json_print_esc :: "cstring \<Rightarrow> cstring" where
  "json_print_esc [] = []"
| "json_print_esc (c # cs) = json_esc c @ json_print_esc cs"

end
