(* ===== verification/Tokens.thy ===== *)
theory Tokens
  imports CLib
begin

text \<open>
  Lists of tokens separated by blanks (\<open>str_contains_token\<close> and \<open>str_add_unique_token\<close> of
  \<open>src/common/common.c\<close>), from which the drivers build \<open>ups.status\<close>. The reference is the
  list of the words of the string.
\<close>

section \<open>The operations\<close>

text \<open>
  \<open>prev\<close> is the character before the position that is looked at. \<open>strstr\<close> skips to the next
  occurrence; the positions in between fail the first test.
\<close>

fun token_from :: "char option \<Rightarrow> cstring \<Rightarrow> cstring \<Rightarrow> bool" where
  "token_from prev [] token = False"
| "token_from prev (c # cs) token =
     (if take (length token) (c # cs) = token
         \<and> (prev = None \<or> prev = Some (CHR 32))
         \<and> (drop (length token) (c # cs) = [] \<or> hd (drop (length token) (c # cs)) = CHR 32)
      then True else token_from (Some c) cs token)"

definition str_contains_token :: "cstring \<Rightarrow> cstring \<Rightarrow> bool" where
  "str_contains_token s token = (if token = [] \<or> s = [] then False else token_from None s token)"

text \<open>The words between blanks; consecutive blanks give empty words.\<close>

fun split_blank :: "cstring \<Rightarrow> cstring list" where
  "split_blank [] = [[]]"
| "split_blank (c # cs) =
     (if c = CHR 32 then [] # split_blank cs
      else case split_blank cs of [] \<Rightarrow> [[c]] | w # ws \<Rightarrow> (c # w) # ws)"

definition words_of :: "cstring \<Rightarrow> cstring list" where
  "words_of s = filter (\<lambda>w. w \<noteq> []) (split_blank s)"

text \<open>
  A callback gets the buffer and the token, may change the state \<open>'s\<close> of its caller, and
  says whether the token may be added.
\<close>

type_synonym 's token_callback = "cstring \<Rightarrow> cstring \<Rightarrow> 's \<Rightarrow> bool \<times> 's"

definition run_callback :: "'s token_callback option \<Rightarrow> cstring \<Rightarrow> cstring \<Rightarrow> 's \<Rightarrow> bool \<times> 's" where
  "run_callback cb tgt token s = (case cb of None \<Rightarrow> (True, s) | Some f \<Rightarrow> f tgt token s)"

text \<open>A token without blanks. The size test allows one byte more than \<open>snprintfcat\<close> stores.\<close>

definition add_one_token ::
  "'s token_callback option \<Rightarrow> 's token_callback option \<Rightarrow> nat \<Rightarrow> cstring \<Rightarrow> cstring \<times> 's \<Rightarrow> int \<times> (cstring \<times> 's)" where
  "add_one_token callback_always callback_unique tgtsize token st =
     (case st of (tgt, s) \<Rightarrow>
       case run_callback callback_always tgt token s of (go1, s1) \<Rightarrow>
       if \<not> go1 then (- 3, (tgt, s1))
       else if str_contains_token tgt token then (0, (tgt, s1))
       else case run_callback callback_unique tgt token s1 of (go2, s2) \<Rightarrow>
       if \<not> go2 then (- 3, (tgt, s2))
       else if tgtsize < length tgt + (if tgt \<noteq> [] then 1 else 0) + length token + 1 then (- 1, (tgt, s2))
       else (1, (snprintfcat tgt tgtsize ((if tgt \<noteq> [] then '' '' else []) @ token), s2)))"

fun add_tokens ::
  "'s token_callback option \<Rightarrow> 's token_callback option \<Rightarrow> nat \<Rightarrow> int \<Rightarrow> cstring list \<Rightarrow> cstring \<times> 's \<Rightarrow> int \<times> (cstring \<times> 's)" where
  "add_tokens ca cu tgtsize retval [] st = (retval, st)"
| "add_tokens ca cu tgtsize retval (w # ws) st =
     (case add_one_token ca cu tgtsize w st of (ret, st1) \<Rightarrow>
        add_tokens ca cu tgtsize
          (if retval = - 2 \<or> ret < 0 \<or> (retval \<ge> 0 \<and> ret \<ge> retval) then ret else retval) ws st1)"

definition str_add_unique_token ::
  "'s token_callback option \<Rightarrow> 's token_callback option \<Rightarrow> nat \<Rightarrow> cstring \<Rightarrow> cstring \<times> 's \<Rightarrow> int \<times> (cstring \<times> 's)" where
  "str_add_unique_token callback_always callback_unique tgtsize token st =
     (if token = [] then (- 2, st)
      else if CHR 32 \<in> set token
      then add_tokens callback_always callback_unique tgtsize (- 2) (words_of token) st
      else add_one_token callback_always callback_unique tgtsize token st)"

section \<open>Words\<close>

lemma split_blank_nonempty [simp]: "split_blank s \<noteq> []"
  by (cases s) (auto split: list.split)

lemma split_blank_word [simp]: "CHR 32 \<notin> set s \<Longrightarrow> split_blank s = [s]"
  by (induction s) auto

lemma split_blank_append: "split_blank (s @ '' '' @ t) = split_blank s @ split_blank t"
  by (induction s) (auto split: list.split)

lemma split_blank_no_blank: "w \<in> set (split_blank s) \<Longrightarrow> CHR 32 \<notin> set w"
proof (induction s arbitrary: w)
  case (Cons c s)
  obtain v vs where v: "split_blank s = v # vs" by (cases "split_blank s") auto
  then show ?case using Cons by (auto split: if_splits)
qed simp

text \<open>What is after \<open>prev\<close>: the first word counts only when \<open>prev\<close> ends a word.\<close>

lemma token_from_iff:
  assumes "token \<noteq> []" and "CHR 32 \<notin> set token"
  shows "token_from prev s token \<longleftrightarrow>
     token \<in> set (if prev = None \<or> prev = Some (CHR 32) then split_blank s else tl (split_blank s))"
proof (induction s arbitrary: prev)
  case Nil
  then show ?case using assms(1) by simp
next
  case (Cons c s)
  obtain v vs where v: "split_blank s = v # vs" by (cases "split_blank s") auto
  have first: "take (length token) (c # s) = token \<and>
      (drop (length token) (c # s) = [] \<or> hd (drop (length token) (c # s)) = CHR 32) \<longleftrightarrow>
      token = hd (split_blank (c # s))"
  proof -
    have "take (length t) r = t \<and> (drop (length t) r = [] \<or> hd (drop (length t) r) = CHR 32)
        \<longleftrightarrow> t = hd (split_blank r)" if "CHR 32 \<notin> set t" for t r
      using that
    proof (induction t arbitrary: r)
      case Nil
      then show ?case by (cases r) (auto split: list.split)
    next
      case (Cons a t)
      show ?case
      proof (cases r)
        case (Cons b r')
        obtain x xs where "split_blank r' = x # xs" by (cases "split_blank r'") auto
        then show ?thesis using Cons.IH [of r'] Cons.prems Cons by auto
      qed simp
    qed
    then show ?thesis using assms(2) by blast
  qed
  show ?case
  proof (cases "prev = None \<or> prev = Some (CHR 32)")
    case True
    then show ?thesis
      using first Cons.IH [of "Some c"] v assms(1) by (auto simp del: take_Suc_Cons drop_Suc_Cons)
  next
    case False
    then show ?thesis using Cons.IH [of "Some c"] v by (auto simp del: take_Suc_Cons drop_Suc_Cons)
  qed
qed

lemma contains_token_iff:
  assumes "token \<noteq> []" and "CHR 32 \<notin> set token"
  shows "str_contains_token s token \<longleftrightarrow> token \<in> set (words_of s)"
  using token_from_iff [OF assms, of None s] assms(1)
  by (auto simp: str_contains_token_def words_of_def)

section \<open>Adding to the list\<close>

definition add_word :: "cstring list \<Rightarrow> cstring \<Rightarrow> cstring list" where
  "add_word ws w = (if w \<in> set ws then ws else ws @ [w])"

lemma words_of_words: "w \<in> set (words_of s) \<Longrightarrow> w \<noteq> [] \<and> CHR 32 \<notin> set w"
  using split_blank_no_blank by (auto simp: words_of_def)

lemma split_blank_lengths: "sum_list (map (\<lambda>w. length w + 1) (split_blank s)) = length s + 1"
proof (induction s)
  case (Cons c s)
  obtain v vs where "split_blank s = v # vs" by (cases "split_blank s") auto
  then show ?case using Cons by auto
qed simp

lemma sum_filter_le: "sum_list (map (f :: 'a \<Rightarrow> nat) (filter P xs)) \<le> sum_list (map f xs)"
  by (induction xs) auto

text \<open>
  What a callback promises its caller: whether it keeps a token depends on the token only, and
  it keeps the invariant \<open>I\<close> of the state it changes.
\<close>

locale token_filter =
  fixes cb :: "'s token_callback option" and keep :: "cstring \<Rightarrow> bool" and upd :: "cstring \<Rightarrow> 's \<Rightarrow> 's" and I :: "'s \<Rightarrow> bool"
  assumes decides: "I s \<Longrightarrow> run_callback cb tgt w s = (keep w, upd w s)"
    and keeps: "I s \<Longrightarrow> I (upd w s)"
begin

lemma one_token:
  assumes "token \<noteq> []" and "CHR 32 \<notin> set token" and "length tgt + length token + 2 < tgtsize" and "I s"
  shows "\<exists>ret tgt'. add_one_token cb None tgtsize token (tgt, s) = (ret, (tgt', upd token s))
      \<and> words_of tgt' = (if keep token then add_word (words_of tgt) token else words_of tgt)
      \<and> length tgt' \<le> length tgt + length token + 1"
proof -
  have "snprintfcat tgt tgtsize ((if tgt \<noteq> [] then '' '' else []) @ token) = tgt @ (if tgt \<noteq> [] then '' '' else []) @ token"
    using assms(3) by (intro snprintfcat_fits) simp
  moreover have "words_of (tgt @ '' '' @ token) = words_of tgt @ [token]"
    using assms(1,2) by (simp add: words_of_def split_blank_append del: append_Cons)
  moreover have "words_of token = [token]" "words_of [] = []"
    using assms(1,2) by (simp_all add: words_of_def)
  moreover have "run_callback None tgt token (upd token s) = (True, upd token s)"
    by (simp add: run_callback_def)
  ultimately show ?thesis
    using assms(3) contains_token_iff [OF assms(1,2), of tgt] decides [OF assms(4), of tgt token]
    by (auto simp: add_one_token_def add_word_def)
qed

lemma tokens_kept:
  assumes "\<forall>w \<in> set ws. w \<noteq> [] \<and> CHR 32 \<notin> set w" and "I s"
    and "length tgt + sum_list (map (\<lambda>w. length w + 1) ws) + 1 < tgtsize"
  shows "\<exists>r tgt'. add_tokens cb None tgtsize retval ws (tgt, s) = (r, (tgt', fold upd ws s)) \<and>
     words_of tgt' = foldl add_word (words_of tgt) (filter keep ws)
     \<and> length tgt' \<le> length tgt + sum_list (map (\<lambda>w. length w + 1) ws)"
  using assms
proof (induction ws arbitrary: tgt retval s)
  case (Cons w ws)
  obtain ret tgt1 where t: "add_one_token cb None tgtsize w (tgt, s) = (ret, (tgt1, upd w s))"
    "words_of tgt1 = (if keep w then add_word (words_of tgt) w else words_of tgt)"
    "length tgt1 \<le> length tgt + length w + 1"
    using one_token [of w tgt tgtsize s] Cons.prems by auto
  have "length tgt1 + sum_list (map (\<lambda>w. length w + 1) ws) + 1 < tgtsize" using t(3) Cons.prems(3) by simp
  from Cons.IH [OF _ keeps [OF Cons.prems(2)] this] Cons.prems(1) have
    "\<And>retval. \<exists>r tgt'. add_tokens cb None tgtsize retval ws (tgt1, upd w s) = (r, (tgt', fold upd ws (upd w s))) \<and>
     words_of tgt' = foldl add_word (words_of tgt1) (filter keep ws) \<and>
     length tgt' \<le> length tgt1 + sum_list (map (\<lambda>w. length w + 1) ws)" by auto
  then show ?case using t by fastforce
qed simp

lemma added_words:
  assumes "length tgt + length token + 2 < tgtsize" and "I s"
  shows "\<exists>ret tgt'. str_add_unique_token cb None tgtsize token (tgt, s) = (ret, (tgt', fold upd (words_of token) s))
     \<and> words_of tgt' = foldl add_word (words_of tgt) (filter keep (words_of token))
     \<and> length tgt' \<le> length tgt + length token + 1"
proof (cases "CHR 32 \<in> set token")
  case True
  have "sum_list (map (\<lambda>w. length w + 1) (words_of token)) \<le> length token + 1"
    unfolding words_of_def using sum_filter_le split_blank_lengths [of token] by metis
  then show ?thesis
    using True assms tokens_kept [of "words_of token" s tgt tgtsize "- 2"] words_of_words [of _ token]
    by (fastforce simp: str_add_unique_token_def)
next
  case False
  then show ?thesis
    using assms one_token [of token tgt tgtsize s]
    by (cases "token = []") (auto simp: str_add_unique_token_def words_of_def)
qed

end

interpretation every_token: token_filter None "\<lambda>_. True" "\<lambda>_ s. s" "\<lambda>_. True"
  by unfold_locales (simp_all add: run_callback_def)

lemma words_add_word: "set (foldl add_word ws vs) = set ws \<union> set vs"
  by (induction vs arbitrary: ws) (auto simp: add_word_def)

lemma contains_added:
  assumes "words_of tgt' = foldl add_word ws vs" and "CHR 32 \<notin> set w" and "w \<noteq> []"
  shows "str_contains_token tgt' w \<longleftrightarrow> w \<in> set ws \<union> set vs"
  using contains_token_iff [OF assms(3,2), of tgt'] assms(1) words_add_word by simp

text \<open>
  \<open>str_add_unique_token\<close> treats the buffer as a list of distinct words. When there
  is room, adding a string of any number of words appends, in order, exactly those that are
  not there yet, and a word is found afterwards exactly when it was there or was added; parts
  of words never count.
\<close>

theorem add_unique_token_words:
  assumes "length tgt + length token + 2 < tgtsize"
  shows "\<exists>ret tgt'. str_add_unique_token None None tgtsize token (tgt, s) = (ret, (tgt', s))
     \<and> words_of tgt' = foldl add_word (words_of tgt) (words_of token)
     \<and> (\<forall>w. CHR 32 \<notin> set w \<longrightarrow>
            str_contains_token tgt' w = (w \<in> set (words_of tgt) \<union> set (words_of token)))"
proof -
  have same: "fold (\<lambda>_ s. s) ws s = s" for ws :: "cstring list" by (induction ws) auto
  obtain ret tgt' where t: "str_add_unique_token None None tgtsize token (tgt, s) = (ret, (tgt', s))"
    "words_of tgt' = foldl add_word (words_of tgt) (words_of token)"
    using every_token.added_words [OF assms, of s] same by auto
  have "str_contains_token tgt' w = (w \<in> set (words_of tgt) \<union> set (words_of token))" if "CHR 32 \<notin> set w" for w
    using contains_added [OF t(2) that] by (cases "w = []") (auto simp: str_contains_token_def words_of_def)
  then show ?thesis using t by blast
qed

theorem add_unique_token_words_witness:
  "\<exists>ret tgt'. str_add_unique_token None None 256 ''LB  OL'' (''OL CHRG'', ()) = (ret, (tgt', ())) \<and> words_of tgt' = [''OL'', ''CHRG'', ''LB'']"
proof -
  have w: "foldl add_word (words_of ''OL CHRG'') (words_of ''LB  OL'') = [''OL'', ''CHRG'', ''LB'']" by code_simp
  show ?thesis using add_unique_token_words [of "''OL CHRG''" "''LB  OL''" 256 "()"] unfolding w by auto
qed

text \<open>A token that just fits loses its last character: the size test and \<open>snprintfcat\<close> disagree by one.\<close>

lemma exact_fit_cut: "str_add_unique_token None None 4 ''ABC'' ([], ()) = (1, (''AB'', ()))"
  by code_simp

end
