(* ===== verification/ConfFile.thy ===== *)
theory ConfFile
  imports ParseconfSpec
begin

text \<open>
  The loop \<open>while (pconf_file_next(&ctx)) \{ if (pconf_parse_error(&ctx)) continue; ... \}\<close>
  that every configuration reader has: \<open>upsd.users\<close>, \<open>cmdvartab\<close>, \<open>upsd.conf\<close>,
  \<open>ups.conf\<close>. The body sees the words of each line. \<open>None\<close> is a loop that has not
  ended within the fuel; \<open>conf_words_ends\<close> shows that the fuel below is always enough.
\<close>

fun conf_loop :: "nat \<Rightarrow> PCONF_CTX_t \<Rightarrow> (cstring list list \<times> PCONF_CTX_t) option" where
  "conf_loop 0 ctx = None"
| "conf_loop (Suc fuel) ctx =
     (case pconf_file_next ctx of
        None \<Rightarrow> None
      | Some (ret, ctx1) \<Rightarrow>
          if ret = 0 then Some ([], ctx1)
          else
            (case pconf_parse_error ctx1 of
               (err, ctx2) \<Rightarrow>
                 (case conf_loop fuel ctx2 of
                    None \<Rightarrow> None
                  | Some (ls, ctx3) \<Rightarrow>
                      Some (if err \<noteq> 0 then ls else ctx_args ctx2 # ls, ctx3))))"

text \<open>
  One whole file: the uninitialised local context \<open>junk\<close>, the name for messages, and the
  outcome of \<open>fopen\<close>. A file that cannot be opened is \<open>Inl\<close> of the message.
\<close>

definition conf_words ::
  "PCONF_CTX_t \<Rightarrow> cstring \<Rightarrow> cstring + cstring \<Rightarrow> (cstring + cstring list list) option" where
  "conf_words junk fn fopen =
     (case pconf_file_begin (pconf_init junk) fn fopen of
        (ret, ctx) \<Rightarrow>
          if ret = 0 then Some (Inl (ctx_errmsg ctx))
          else map_option (\<lambda>r. Inr (fst r))
                 (conf_loop (case ctx_f ctx of None \<Rightarrow> 0 | Some bytes \<Rightarrow> length bytes + 1) ctx))"

lemma pconf_parse_error_frame:
  "pconf_wf ctx \<Longrightarrow> pconf_parse_error ctx = (e, ctx') \<Longrightarrow> pconf_wf ctx' \<and> ctx_f ctx' = ctx_f ctx"
  by (auto simp: pconf_parse_error_def check_magic_def pconf_wf_def split: if_splits)

lemma file_next_returns:
  assumes "ctx_f ctx = Some bytes"
  shows "\<exists>ret ctx1. pconf_file_next ctx = Some (ret, ctx1) \<and> (ret = 0 \<or> ret = 1)"
  using assms
  by (cases "file_loop (start_line ctx) bytes"; cases "ctx_magic ctx = PCONF_CTX_t_MAGIC")
    (auto simp: pconf_file_next_def check_magic_def Let_def)

lemma conf_loop_ends:
  assumes "pconf_wf ctx" and "ctx_f ctx = Some bytes" and "length bytes < fuel"
  shows "\<exists>r. conf_loop fuel ctx = Some r"
  using assms
proof (induction fuel arbitrary: ctx bytes)
  case (Suc fuel)
  obtain ret ctx1 where n: "pconf_file_next ctx = Some (ret, ctx1)" "ret = 0 \<or> ret = 1"
    using file_next_returns [OF Suc.prems(2)] by blast
  show ?case
  proof (cases "ret = 0")
    case True
    then show ?thesis using n by simp
  next
    case False
    then have "pconf_file_next ctx = Some (1, ctx1)" using n by simp
    from file_next_consumes [OF Suc.prems(1,2) this] obtain rest
      where c: "pconf_wf ctx1" "ctx_f ctx1 = Some rest" "length rest < length bytes" by auto
    obtain e ctx2 where e: "pconf_parse_error ctx1 = (e, ctx2)" by fastforce
    have "pconf_wf ctx2" "ctx_f ctx2 = Some rest"
      using pconf_parse_error_frame [OF c(1) e] c(2) by auto
    then obtain r where "conf_loop fuel ctx2 = Some r"
      using Suc.IH [of ctx2 rest] Suc.prems(3) c(3) by auto
    then show ?thesis using n e by (cases r) auto
  qed
qed simp

text \<open>
  The reading loop of the configuration files always ends: for every file, every
  prior content of the context and either outcome of opening it, \<open>conf_words\<close> returns.
\<close>

theorem conf_words_ends: "\<exists>r. conf_words junk fn fopen = Some r"
proof (cases fopen)
  case (Inl err)
  then show ?thesis
    by (simp add: conf_words_def pconf_file_begin_def check_magic_def pconf_init_def)
next
  case (Inr bytes)
  let ?ctx = "(pconf_init junk)\<lparr>ctx_f := Some bytes\<rparr>"
  have b: "pconf_file_begin (pconf_init junk) fn fopen = (1, ?ctx)"
    using Inr by (simp add: pconf_file_begin_def check_magic_def pconf_init_def)
  have "pconf_wf ?ctx" using pconf_init_wf [of junk] by (simp add: pconf_wf_def)
  then have "\<exists>r. conf_loop (length bytes + 1) ?ctx = Some r"
    by (rule conf_loop_ends [of _ bytes]) simp_all
  then show ?thesis by (auto simp: conf_words_def b)
qed

end
