(* ===== verification/SocketLine.thy ===== *)
theory SocketLine
  imports ConfFile
begin

text \<open>
  The loop that \<open>sstate_readline\<close> and \<open>client_readline\<close> run over the bytes of one
  \<open>read\<close>: every byte goes through \<open>pconf_char\<close>; a complete line is handed to a handler with
  its words, an error leaves the loop. The handlers never touch the tokenizer context of
  the connection they serve.
\<close>

fun sock_loop :: "(cstring list \<Rightarrow> 's \<Rightarrow> 's) \<Rightarrow> cstring \<Rightarrow> PCONF_CTX_t \<times> 's \<Rightarrow> PCONF_CTX_t \<times> 's" where
  "sock_loop h [] (ctx, s) = (ctx, s)"
| "sock_loop h (c # cs) (ctx, s) =
     (case pconf_char ctx c of
        (r, ctx1) \<Rightarrow>
          if r = 1 then sock_loop h cs (ctx1, h (ctx_args ctx1) s)
          else if r = 0 then sock_loop h cs (ctx1, s)
          else (ctx1, s))"

text \<open>
  The line \<open>l\<close> has the words \<open>ws\<close> under the given limits: the lexer is still running after
  \<open>l\<close>, and a newline completes it.
\<close>

definition line_words :: "nat \<Rightarrow> nat \<Rightarrow> cstring \<Rightarrow> cstring list \<Rightarrow> bool" where
  "line_words al wl l ws \<longleftrightarrow>
     (let m = lex_run al wl l (STATE_FINDWORDSTART, [], []) in
      \<not> ended m \<and> lex_step al wl 10 m = (STATE_ENDOFLINE, [], ws))"

section \<open>One step of the loop\<close>

definition resumed :: "PCONF_CTX_t \<Rightarrow> PCONF_CTX_t" where
  "resumed ctx =
     (if at_line_end ctx then ctx\<lparr>numargs := 0, ctx_state := STATE_FINDWORDSTART\<rparr> else ctx)"

definition sock_ok :: "PCONF_CTX_t \<Rightarrow> bool" where
  "sock_ok ctx \<longleftrightarrow> pconf_wf ctx \<and> idle_inv (lex_of ctx) \<and> ctx_state ctx \<noteq> STATE_PARSEERR"

lemma resumed_ok:
  assumes "sock_ok ctx"
  shows "pconf_wf (resumed ctx)" "idle_inv (lex_of (resumed ctx))" "\<not> at_line_end (resumed ctx)"
    "arg_limit (resumed ctx) = arg_limit ctx" "wordlen_limit (resumed ctx) = wordlen_limit ctx"
  using assms
  by (auto simp: sock_ok_def resumed_def pconf_wf_def at_line_end_def idle_inv_def lex_of_def)

lemma pconf_char_step:
  assumes "sock_ok ctx"
  shows "\<exists>ctx1. pconf_char ctx c = (if ctx_state ctx1 = STATE_ENDOFLINE then 1 else 0, ctx1) \<and>
     sock_ok ctx1 \<and> arg_limit ctx1 = arg_limit ctx \<and> wordlen_limit ctx1 = wordlen_limit ctx \<and>
     lex_of ctx1 = lex_step (arg_limit ctx) (wordlen_limit ctx) (schar c) (lex_of (resumed ctx))"
proof -
  let ?r = "resumed ctx"
  let ?d = "parse_char (?r\<lparr>ctx_ch := schar c\<rparr>)"
  note r = resumed_ok [OF assms]
  have d: "pconf_wf ?d" "arg_limit ?d = arg_limit ctx" "wordlen_limit ?d = wordlen_limit ctx"
    "lex_of ?d = lex_step (arg_limit ctx) (wordlen_limit ctx) (schar c) (lex_of ?r)"
    using parse_char_refines_gen [of "?r\<lparr>ctx_ch := schar c\<rparr>"] r by simp_all
  have idle: "idle_inv (lex_of ?d)" using r(2) by (simp add: d(4) lex_step_idle)
  have "fst (lex_of ?r) \<noteq> STATE_PARSEERR" using r(3) by (simp add: at_line_end_ended ended_def)
  then have "fst (lex_of ?d) \<noteq> STATE_PARSEERR" by (simp add: d(4) lex_step_no_error)
  then have err: "ctx_state ?d \<noteq> STATE_PARSEERR" by (simp add: lex_of_def)
  have "pconf_char ctx c = (if ctx_state ?d = STATE_ENDOFLINE then 1 else 0, ?d)"
    using assms err by (simp add: pconf_char_def sock_ok_def Let_def flip: resumed_def)
  then show ?thesis using d idle err by (intro exI [of _ ?d]) (simp add: sock_ok_def)
qed

lemma pconf_ready_sock_ok: "pconf_ready ctx \<Longrightarrow> ctx_state ctx \<noteq> STATE_PARSEERR \<Longrightarrow> sock_ok ctx"
  by (auto simp: pconf_ready_def sock_ok_def idle_inv_def lex_of_def)

lemma pconf_init_sock_ok [simp]: "sock_ok (pconf_init junk)"
  using pconf_init_wf [of junk]
  by (simp add: sock_ok_def idle_inv_def lex_of_def pconf_init_def)

text \<open>The loop keeps the context sound, whatever bytes arrive and whatever the handler does.\<close>

lemma sock_loop_ok:
  assumes "sock_ok ctx"
  shows "sock_ok (fst (sock_loop h cs (ctx, s))) \<and>
     arg_limit (fst (sock_loop h cs (ctx, s))) = arg_limit ctx \<and>
     wordlen_limit (fst (sock_loop h cs (ctx, s))) = wordlen_limit ctx"
  using assms
proof (induction cs arbitrary: ctx s)
  case (Cons c cs)
  obtain ctx1 where p: "pconf_char ctx c = (if ctx_state ctx1 = STATE_ENDOFLINE then 1 else 0, ctx1)"
    and ok: "sock_ok ctx1" "arg_limit ctx1 = arg_limit ctx" "wordlen_limit ctx1 = wordlen_limit ctx"
    using pconf_char_step [OF Cons.prems] by blast
  show ?case using Cons.IH [OF ok(1)] p ok by simp
qed simp

lemma sock_loop_preserves:
  assumes "\<And>ws s. P s \<Longrightarrow> P (h ws s)" and "P s"
  shows "P (snd (sock_loop h cs (ctx, s)))"
  using assms(2) by (induction cs arbitrary: ctx s) (auto simp: assms(1) case_prod_beta)

lemma sock_loop_append:
  "sock_ok ctx \<Longrightarrow> sock_loop h (as @ bs) (ctx, s) = sock_loop h bs (sock_loop h as (ctx, s))"
proof (induction as arbitrary: ctx s)
  case (Cons a as)
  obtain ctx1 where "pconf_char ctx a = (if ctx_state ctx1 = STATE_ENDOFLINE then 1 else 0, ctx1)"
    and "sock_ok ctx1"
    using pconf_char_step [OF Cons.prems] by blast
  then show ?case using Cons.IH by simp
qed simp

section \<open>Whole lines\<close>

lemma sock_loop_partial:
  assumes "sock_ok ctx" and "\<not> at_line_end ctx"
    and "\<not> ended (lex_run (arg_limit ctx) (wordlen_limit ctx) cs (lex_of ctx))"
  shows "\<exists>ctx1. sock_loop h cs (ctx, s) = (ctx1, s) \<and> sock_ok ctx1 \<and> \<not> at_line_end ctx1 \<and>
     arg_limit ctx1 = arg_limit ctx \<and> wordlen_limit ctx1 = wordlen_limit ctx \<and>
     lex_of ctx1 = lex_run (arg_limit ctx) (wordlen_limit ctx) cs (lex_of ctx)"
  using assms
proof (induction cs arbitrary: ctx)
  case (Cons c cs)
  have res: "resumed ctx = ctx" using Cons.prems(2) by (simp add: resumed_def)
  obtain ctx1 where p: "pconf_char ctx c = (if ctx_state ctx1 = STATE_ENDOFLINE then 1 else 0, ctx1)"
    and ok: "sock_ok ctx1" "arg_limit ctx1 = arg_limit ctx" "wordlen_limit ctx1 = wordlen_limit ctx"
    and l: "lex_of ctx1 = lex_step (arg_limit ctx) (wordlen_limit ctx) (schar c) (lex_of ctx)"
    using pconf_char_step [OF Cons.prems(1), of c] res by auto
  have live: "\<not> ended (lex_of ctx1)"
    using Cons.prems(3) by (auto simp: l)
  then have "\<not> at_line_end ctx1" by (simp add: at_line_end_ended)
  moreover from live have "ctx_state ctx1 \<noteq> STATE_ENDOFLINE" by (auto simp: ended_def lex_of_def)
  ultimately show ?case using Cons.IH [OF ok(1)] Cons.prems(3) p ok l by simp
qed simp

definition line_start :: "PCONF_CTX_t \<Rightarrow> bool" where
  "line_start ctx \<longleftrightarrow> sock_ok ctx \<and> lex_of (resumed ctx) = (STATE_FINDWORDSTART, [], [])"

lemma pconf_init_line_start [simp]: "line_start (pconf_init junk)"
  by (simp add: line_start_def) (simp add: resumed_def at_line_end_def lex_of_def pconf_init_def ctx_args_def)

lemma sock_loop_resumed:
  assumes "sock_ok ctx" and "cs \<noteq> []"
  shows "sock_loop h cs (resumed ctx, s) = sock_loop h cs (ctx, s)"
proof -
  obtain c cs' where cs: "cs = c # cs'" using assms(2) by (cases cs) auto
  have "resumed (resumed ctx) = resumed ctx" using resumed_ok(3) [OF assms(1)] by (simp add: resumed_def)
  then have "pconf_char (resumed ctx) c = pconf_char ctx c"
    using assms(1) resumed_ok [OF assms(1)]
    by (simp add: pconf_char_def sock_ok_def Let_def flip: resumed_def)
  then show ?thesis by (simp add: cs)
qed

text \<open>A complete line is handed over once, with its words, and the next line starts afresh.\<close>

lemma sock_loop_line:
  assumes "line_start ctx" and "line_words (arg_limit ctx) (wordlen_limit ctx) l ws"
  shows "\<exists>ctx1. sock_loop h (l @ [CHR 10]) (ctx, s) = (ctx1, h ws s) \<and> line_start ctx1 \<and>
     arg_limit ctx1 = arg_limit ctx \<and> wordlen_limit ctx1 = wordlen_limit ctx"
proof -
  have ok: "sock_ok ctx" using assms(1) by (simp add: line_start_def)
  let ?r = "resumed ctx"
  note r = resumed_ok [OF ok]
  have rok: "sock_ok ?r" using r by (auto simp: sock_ok_def at_line_end_def)
  have start: "lex_of ?r = (STATE_FINDWORDSTART, [], [])" using assms(1) by (simp add: line_start_def)
  have live: "\<not> ended (lex_run (arg_limit ?r) (wordlen_limit ?r) l (lex_of ?r))"
    and fin: "lex_step (arg_limit ?r) (wordlen_limit ?r) 10 (lex_run (arg_limit ?r) (wordlen_limit ?r) l (lex_of ?r))
      = (STATE_ENDOFLINE, [], ws)"
    using assms(2) by (simp_all add: line_words_def Let_def start r)
  obtain m where m: "sock_loop h l (?r, s) = (m, s)" "sock_ok m" "\<not> at_line_end m"
    "arg_limit m = arg_limit ctx" "wordlen_limit m = wordlen_limit ctx"
    "lex_of m = lex_run (arg_limit ?r) (wordlen_limit ?r) l (lex_of ?r)"
    using sock_loop_partial [OF rok r(3) live, of h s] r by auto
  have "resumed m = m" using m(3) by (simp add: resumed_def)
  then obtain e where e: "pconf_char m (CHR 10) = (if ctx_state e = STATE_ENDOFLINE then 1 else 0, e)"
    "sock_ok e" "arg_limit e = arg_limit ctx" "wordlen_limit e = wordlen_limit ctx"
    "lex_of e = (STATE_ENDOFLINE, [], ws)"
    using pconf_char_step [OF m(2), of "CHR 10"] m(4-6) fin r by auto
  then have st: "ctx_state e = STATE_ENDOFLINE" "wordbuf e = []" "ctx_args e = ws" by (simp_all add: lex_of_def)
  have "sock_loop h (l @ [CHR 10]) (?r, s) = (e, h ws s)"
    using e(1) st by (simp add: sock_loop_append [OF rok] m(1))
  then have "sock_loop h (l @ [CHR 10]) (ctx, s) = (e, h ws s)"
    by (simp add: sock_loop_resumed [OF ok])
  moreover have "line_start e"
    using e(2) st by (simp add: line_start_def resumed_def at_line_end_def lex_of_def ctx_args_def)
  ultimately show ?thesis using e(3,4) by blast
qed

lemma line_words_render:
  assumes "words_ok al wl ws"
  shows "line_words al wl (render_words ws) ws"
  using lex_run_words [of al wl "[]" ws] assms
  by (simp add: line_words_def ended_def lex_start_def)

lemma sock_loop_lines:
  assumes "line_start ctx"
    and "list_all (\<lambda>p. line_words (arg_limit ctx) (wordlen_limit ctx) (fst p) (snd p)) ls"
  shows "snd (sock_loop h (concat (map (\<lambda>p. fst p @ [CHR 10]) ls)) (ctx, s)) = foldl (\<lambda>s ws. h ws s) s (map snd ls)"
  using assms
proof (induction ls arbitrary: ctx s)
  case (Cons p ls)
  obtain ctx1 where c: "sock_loop h (fst p @ [CHR 10]) (ctx, s) = (ctx1, h (snd p) s)" "line_start ctx1"
    "arg_limit ctx1 = arg_limit ctx" "wordlen_limit ctx1 = wordlen_limit ctx"
    using sock_loop_line [OF Cons.prems(1), of "fst p" "snd p" h s] Cons.prems(2) by auto
  have ok: "sock_ok ctx" using Cons.prems(1) by (simp add: line_start_def)
  have "sock_loop h (concat (map (\<lambda>p. fst p @ [CHR 10]) (p # ls))) (ctx, s)
      = sock_loop h (concat (map (\<lambda>p. fst p @ [CHR 10]) ls)) (ctx1, h (snd p) s)"
    using sock_loop_append [OF ok, of h "fst p @ [CHR 10]" _ s] c(1) by simp
  then show ?case using Cons.IH [OF c(2), of "h (snd p) s"] Cons.prems(2) c(3,4) by simp
qed simp

end
