(* ===== verification/Dstate.thy ===== *)
theory Dstate
  imports StateTreeSpec Str Tokens SocketLine
begin

text \<open>
  The driver's side of the socket protocol, \<open>src/drivers/dstate.c\<close>: the variables and commands
  of one driver, its connections, what is broadcast and dumped, and the commands it takes.

  Connections are identified by their descriptor. The outcomes of \<open>write\<close> are part of the
  state; \<open>wire\<close> logs what was written, by connection, oldest first. \<open>errno\<close> is part of the
  state because the code reads it: calls that succeed leave it as it is.
  A function that may touch a connection after it was freed has the outcome \<open>Freed\<close>.
\<close>

section \<open>State\<close>

datatype derrno = E_none | E_notconn | E_again | E_other

datatype write_result = W_full | W_short | W_fail derrno

datatype 'a outcome = Done 'a | Freed | No_fuel

fun andthen :: "'a outcome \<Rightarrow> ('a \<Rightarrow> 'b outcome) \<Rightarrow> 'b outcome" where
  "andthen (Done x) f = f x"
| "andthen Freed f = Freed"
| "andthen No_fuel f = No_fuel"

record conn_t =
  cn_fd :: nat
  cn_ctx :: PCONF_CTX_t
  cn_nobroadcast :: bool
  cn_readzero :: nat
  cn_closing :: bool

record dstate =
  ds_stale :: bool
  alarm_active :: int
  alarm_status :: bool
  ignorelb :: bool
  alarm_legacy_status :: bool
  status_buf :: cstring
  alarm_buf :: cstring
  buzzmode_buf :: cstring
  connhead :: "conn_t list"
  dtree_root :: st_tree
  cmdhead :: "cstring list"
  do_synchronous :: int
  ds_errno :: derrno
  ds_writes :: "write_result list"
  wire :: "(nat \<times> cstring) list"
  ds_clk :: timespec
  ds_pid :: int

definition ST_SOCK_BUF_LEN :: nat where "ST_SOCK_BUF_LEN = 512"

fun find_conn :: "conn_t list \<Rightarrow> nat \<Rightarrow> conn_t option" where
  "find_conn [] fd = None"
| "find_conn (c # cs) fd = (if cn_fd c = fd then Some c else find_conn cs fd)"

definition conn_at :: "dstate \<Rightarrow> nat \<Rightarrow> conn_t option" where
  "conn_at st fd = find_conn (connhead st) fd"

definition upd_conn :: "nat \<Rightarrow> (conn_t \<Rightarrow> conn_t) \<Rightarrow> dstate \<Rightarrow> dstate" where
  "upd_conn fd f st = st\<lparr>connhead := map (\<lambda>c. if cn_fd c = fd then f c else c) (connhead st)\<rparr>"

text \<open>\<open>sock_disconnect\<close> finishes the tokenizer, unlinks the connection and frees it.\<close>

definition sock_disconnect :: "nat \<Rightarrow> dstate \<Rightarrow> dstate" where
  "sock_disconnect fd st = st\<lparr>connhead := filter (\<lambda>c. cn_fd c \<noteq> fd) (connhead st)\<rparr>"

definition take_write :: "dstate \<Rightarrow> write_result \<times> dstate" where
  "take_write st =
     (case ds_writes st of [] \<Rightarrow> (W_full, st) | r # rs \<Rightarrow> (r, st\<lparr>ds_writes := rs\<rparr>))"

text \<open>One \<open>write\<close> of a whole line.\<close>

definition do_write :: "nat \<Rightarrow> cstring \<Rightarrow> dstate \<Rightarrow> write_result \<times> dstate" where
  "do_write fd buf st =
     (case take_write st of
        (W_full, st1) \<Rightarrow> (W_full, st1\<lparr>wire := wire st1 @ [(fd, buf)]\<rparr>)
      | (W_short, st1) \<Rightarrow> (W_short, st1)
      | (W_fail e, st1) \<Rightarrow> (W_fail e, st1\<lparr>ds_errno := e\<rparr>))"

section \<open>Broadcast\<close>

text \<open>What a failed write does to the mode, and how the mode is published.\<close>

definition note_failure :: "write_result \<Rightarrow> dstate \<Rightarrow> dstate" where
  "note_failure r st =
     (if r = W_fail E_again \<and> do_synchronous st = - 1 then st\<lparr>do_synchronous := 1\<rparr> else st)"

definition sync_text :: "int \<Rightarrow> cstring" where
  "sync_text m = (if m = 1 then ''yes'' else if m = 0 then ''no'' else ''auto'')"

definition setinfo_line :: "cstring \<Rightarrow> cstring \<Rightarrow> cstring" where
  "setinfo_line var value = ''SETINFO '' @ var @ '' '' @ [CHR 34] @ value @ [CHR 34, CHR 10]"

text \<open>\<open>vdstate_setinfo\<close>, given the function that broadcasts; \<open>text\<close> is the formatted value.\<close>

definition setinfo_with ::
  "(cstring \<Rightarrow> dstate \<Rightarrow> dstate outcome) \<Rightarrow> cstring \<Rightarrow> cstring \<Rightarrow> dstate \<Rightarrow> (int \<times> dstate) outcome" where
  "setinfo_with broadcast var txt st =
     (let value = snprintf ST_MAX_VALUE_LEN txt in
      case state_setinfo (dtree_root st) var value (ds_clk st) of
        (ret, tree) \<Rightarrow>
          let st1 = st\<lparr>dtree_root := tree\<rparr> in
          if ret = 1 then andthen (broadcast (setinfo_line var value) st1) (\<lambda>st2. Done (ret, st2))
          else Done (ret, st1))"

definition SYNC_VAR :: cstring where "SYNC_VAR = ''driver.parameter.synchronous''"

definition publish_mode :: "(cstring \<Rightarrow> dstate \<Rightarrow> dstate outcome) \<Rightarrow> dstate \<Rightarrow> dstate outcome" where
  "publish_mode broadcast st =
     andthen (setinfo_with broadcast SYNC_VAR (sync_text (do_synchronous st)) st)
       (\<lambda>(ret, st1). Done st1)"

definition live_fd :: "dstate \<Rightarrow> nat \<Rightarrow> bool" where
  "live_fd st fd \<longleftrightarrow> conn_at st fd \<noteq> None"

text \<open>
  The loop over the connections. Its next connection is read before the write; if a nested
  broadcast frees that one, the loop goes on with freed memory. Connections further on that
  are gone have been unlinked.
\<close>

fun send_all_loop ::
  "(cstring \<Rightarrow> dstate \<Rightarrow> dstate outcome) \<Rightarrow> cstring \<Rightarrow> nat list \<Rightarrow> dstate \<Rightarrow> dstate outcome" where
  "send_all_loop nested buf [] st = Done st"
| "send_all_loop nested buf (fd # fds) st =
     (case conn_at st fd of
        None \<Rightarrow> Freed
      | Some conn \<Rightarrow>
          let later = filter (live_fd st) fds in
          if cn_nobroadcast conn then send_all_loop nested buf later st
          else
            (case do_write fd buf st of
               (W_full, st1) \<Rightarrow> send_all_loop nested buf later st1
             | (r, st1) \<Rightarrow>
                 andthen (publish_mode nested (note_failure r (upd_conn fd (\<lambda>c. c\<lparr>cn_closing := True\<rparr>) st1)))
                   (\<lambda>st2. send_all_loop nested buf later st2)))"

definition drop_closing :: "dstate \<Rightarrow> dstate" where
  "drop_closing st = st\<lparr>connhead := filter (\<lambda>c. \<not> cn_closing c) (connhead st)\<rparr>"

text \<open>
  \<open>send_to_all\<close> and \<open>dstate_setinfo\<close> call each other. The fuel bounds the depth;
  \<open>broadcast_ends\<close> of the theory \<open>Broadcast\<close> shows that three levels are always enough.
\<close>

fun send_to_all :: "nat \<Rightarrow> cstring \<Rightarrow> dstate \<Rightarrow> dstate outcome" where
  "send_to_all 0 txt st = No_fuel"
| "send_to_all (Suc k) txt st =
     (if txt = [] then Done st
      else andthen (send_all_loop (send_to_all k) (snprintf ST_SOCK_BUF_LEN txt) (map cn_fd (connhead st)) st)
             (\<lambda>st1. Done ((drop_closing st1)\<lparr>ds_errno := E_none\<rparr>)))"

definition BROADCAST_DEPTH :: nat where "BROADCAST_DEPTH = 3"

definition broadcast :: "cstring \<Rightarrow> dstate \<Rightarrow> dstate outcome" where
  "broadcast = send_to_all BROADCAST_DEPTH"

definition dstate_setinfo :: "cstring \<Rightarrow> cstring \<Rightarrow> dstate \<Rightarrow> (int \<times> dstate) outcome" where
  "dstate_setinfo = setinfo_with broadcast"

section \<open>One connection\<close>

text \<open>A first write that fails is tried once more; the results are those of the C function.\<close>

definition send_to_one :: "nat \<Rightarrow> cstring \<Rightarrow> dstate \<Rightarrow> (int \<times> dstate) outcome" where
  "send_to_one fd txt st =
     (case conn_at st fd of
        None \<Rightarrow> Freed
      | Some conn \<Rightarrow>
          if cn_closing conn then Done (- 2, st\<lparr>ds_errno := E_notconn\<rparr>)
          else if txt = [] then Done (1, st)
          else
            let buf = snprintf ST_SOCK_BUF_LEN txt;
                (r, st1) = (case do_write fd buf st of
                              (W_fail e, s) \<Rightarrow> do_write fd buf s
                            | rs \<Rightarrow> rs)
            in if r = W_full then Done (1, st1)
               else andthen (publish_mode broadcast (note_failure r (sock_disconnect fd st1)))
                      (\<lambda>st2. Done (- 2, st2\<lparr>ds_errno := E_notconn\<rparr>)))"

text \<open>The test that follows each \<open>send_to_one\<close> in the dump functions.\<close>

definition after_send :: "int \<times> dstate \<Rightarrow> (dstate \<Rightarrow> (int \<times> dstate) outcome) \<Rightarrow> (int \<times> dstate) outcome" where
  "after_send r cont =
     (case r of (ret, st) \<Rightarrow>
        if ds_errno st = E_notconn then Done (- 2, st) else if ret = 0 then Done (0, st) else cont st)"

fun send_each :: "nat \<Rightarrow> cstring list \<Rightarrow> dstate \<Rightarrow> (int \<times> dstate) outcome" where
  "send_each fd [] st = Done (1, st)"
| "send_each fd (l # ls) st = andthen (send_to_one fd l st) (\<lambda>r. after_send r (send_each fd ls))"

definition closed_guard :: "nat \<Rightarrow> dstate \<Rightarrow> (int \<times> dstate) outcome \<Rightarrow> (int \<times> dstate) outcome" where
  "closed_guard fd st body =
     (case conn_at st fd of
        None \<Rightarrow> Freed
      | Some conn \<Rightarrow> if cn_closing conn then Done (- 2, st\<lparr>ds_errno := E_notconn\<rparr>) else body)"

definition flag_list :: "cstring \<Rightarrow> 32 word \<Rightarrow> cstring" where
  "flag_list var fl =
     (let f0 = snprintf SMALLBUF var;
          f1 = (if has_flag fl ST_FLAG_RW then snprintfcat f0 SMALLBUF '' RW'' else f0);
          f2 = (if has_flag fl ST_FLAG_STRING then snprintfcat f1 SMALLBUF '' STRING'' else f1)
      in if has_flag fl ST_FLAG_NUMBER then snprintfcat f2 SMALLBUF '' NUMBER'' else f2)"

text \<open>The lines for one variable, in the order of \<open>st_tree_dump_conn_one_node\<close>.\<close>

definition node_lines :: "st_node \<Rightarrow> cstring list" where
  "node_lines n =
     [setinfo_line (st_var n) (node_val n)]
     @ map (\<lambda>e. ''ADDENUM '' @ st_var n @ '' '' @ [CHR 34] @ e @ [CHR 34, CHR 10]) (st_enum_list n)
     @ map (\<lambda>r. ''ADDRANGE '' @ st_var n @ '' '' @ int_dec (fst r) @ '' '' @ int_dec (snd r) @ [CHR 10]) (st_range_list n)
     @ (if st_aux n \<noteq> 0 then [''SETAUX '' @ st_var n @ '' '' @ int_dec (st_aux n) @ [CHR 10]] else [])
     @ (if st_flags n \<noteq> 0 then [''SETFLAGS '' @ flag_list (st_var n) (st_flags n) @ [CHR 10]] else [])"

definition st_tree_dump_conn_one_node :: "st_node \<Rightarrow> nat \<Rightarrow> dstate \<Rightarrow> (int \<times> dstate) outcome" where
  "st_tree_dump_conn_one_node n fd st = closed_guard fd st (send_each fd (node_lines n) st)"

fun st_tree_dump_conn :: "st_tree \<Rightarrow> nat \<Rightarrow> dstate \<Rightarrow> (int \<times> dstate) outcome" where
  "st_tree_dump_conn Leaf fd st = closed_guard fd st (Done (1, st))"
| "st_tree_dump_conn (Node l n r) fd st =
     closed_guard fd st
       (andthen (if l = Leaf then Done (1, st) else st_tree_dump_conn l fd st)
          (\<lambda>r1. (if l = Leaf then (\<lambda>cont. cont st) else after_send r1)
             (\<lambda>st1. andthen (st_tree_dump_conn_one_node n fd st1)
                (\<lambda>r2. after_send r2
                   (\<lambda>st2. if r = Leaf then Done (1, st2)
                          else andthen (st_tree_dump_conn r fd st2)
                                 (\<lambda>(ret, st3). if ds_errno st3 = E_notconn then Done (- 2, st3) else Done (ret, st3)))))))"

definition cmd_dump_conn :: "nat \<Rightarrow> dstate \<Rightarrow> (int \<times> dstate) outcome" where
  "cmd_dump_conn fd st =
     closed_guard fd st (send_each fd (map (\<lambda>c. ''ADDCMD '' @ c @ [CHR 10]) (cmdhead st)) st)"

definition send_tracking :: "nat \<Rightarrow> cstring \<Rightarrow> int \<Rightarrow> dstate \<Rightarrow> (int \<times> dstate) outcome" where
  "send_tracking fd cid value st =
     closed_guard fd st (send_to_one fd (''TRACKING '' @ cid @ '' '' @ int_dec value @ [CHR 10]) st)"

section \<open>Commands on a connection\<close>

text \<open>
  The handlers of one driver: the ones all drivers share (\<open>main_instcmd\<close>, \<open>main_setvar\<close>) and
  the driver's own, which may be missing.
\<close>

record handlers =
  main_instcmd :: "cstring \<Rightarrow> cstring option \<Rightarrow> nat \<Rightarrow> dstate \<Rightarrow> (int \<times> dstate) outcome"
  upsh_instcmd :: "(cstring \<Rightarrow> cstring option \<Rightarrow> dstate \<Rightarrow> (int \<times> dstate) outcome) option"
  main_setvar :: "cstring \<Rightarrow> cstring \<Rightarrow> nat \<Rightarrow> dstate \<Rightarrow> (int \<times> dstate) outcome"
  upsh_setvar :: "(cstring \<Rightarrow> cstring \<Rightarrow> dstate \<Rightarrow> (int \<times> dstate) outcome) option"

definition STAT_INSTCMD_UNKNOWN :: int where "STAT_INSTCMD_UNKNOWN = 1"
definition STAT_SET_UNKNOWN :: int where "STAT_SET_UNKNOWN = 1"

text \<open>The test after a send in \<open>sock_arg\<close>: the connection is gone, or the send failed otherwise.\<close>

definition sent_or :: "int \<times> dstate \<Rightarrow> (int \<Rightarrow> dstate \<Rightarrow> (int \<times> dstate) outcome) \<Rightarrow> (int \<times> dstate) outcome" where
  "sent_or r cont =
     (case r of (ret, st) \<Rightarrow>
        if ds_errno st = E_notconn then Done (- 2, st) else if ret = 0 then Done (- 3, st) else cont ret st)"

definition finish :: "int \<Rightarrow> dstate \<Rightarrow> (int \<times> dstate) outcome" where
  "finish ret st = Done (ret, st)"

definition arg_logout :: "nat \<Rightarrow> dstate \<Rightarrow> (int \<times> dstate) outcome" where
  "arg_logout fd st =
     andthen (send_to_one fd (''OK Goodbye'' @ [CHR 10]) st)
       (\<lambda>(ret, st1). Done (2, if ds_errno st1 \<noteq> E_notconn then upd_conn fd (\<lambda>c. c\<lparr>cn_closing := True\<rparr>) st1 else st1))"

definition arg_getpid :: "nat \<Rightarrow> dstate \<Rightarrow> (int \<times> dstate) outcome" where
  "arg_getpid fd st =
     andthen (send_to_one fd (''PID '' @ int_dec (ds_pid st) @ [CHR 10]) st) (\<lambda>r. sent_or r finish)"

definition dump_body :: "nat \<Rightarrow> cstring list \<Rightarrow> dstate \<Rightarrow> (int \<times> dstate) outcome" where
  "dump_body fd arg st =
     (if same_nocase (arg ! 0) ''DUMPALL''
      then andthen (st_tree_dump_conn (dtree_root st) fd st)
             (\<lambda>r. sent_or r (\<lambda>_ st1. andthen (cmd_dump_conn fd st1) (\<lambda>r1. sent_or r1 (\<lambda>_ st2. Done (1, st2)))))
      else
        let varname = (if same_nocase (arg ! 0) ''DUMPSTATUS'' then ''ups.status'' else arg ! 1) in
        (case state_tree_find (dtree_root st) varname of
           None \<Rightarrow> Done (1, st)
         | Some node \<Rightarrow>
             andthen (st_tree_dump_conn_one_node node fd st) (\<lambda>r. sent_or r (\<lambda>_ st1. Done (1, st1)))))"

definition arg_dump :: "nat \<Rightarrow> cstring list \<Rightarrow> dstate \<Rightarrow> (int \<times> dstate) outcome" where
  "arg_dump fd arg st =
     (let dataok = (\<lambda>st3. andthen (send_to_one fd (''DUMPDONE'' @ [CHR 10]) st3) (\<lambda>r. sent_or r finish));
          dumped = (\<lambda>st2. if \<not> ds_stale st2
                         then andthen (send_to_one fd (''DATAOK'' @ [CHR 10]) st2) (\<lambda>r. sent_or r (\<lambda>_ st3. dataok st3))
                         else dataok st2);
          dump = (\<lambda>st1. andthen (dump_body fd arg st1)
                    (\<lambda>(ret, st2). if ret < 0 then Done (ret, st2) else dumped st2))
      in if ds_stale st
         then andthen (send_to_one fd (''DATASTALE'' @ [CHR 10]) st) (\<lambda>r. sent_or r (\<lambda>_ st1. dump st1))
         else dump st)"

definition arg_ping :: "nat \<Rightarrow> dstate \<Rightarrow> (int \<times> dstate) outcome" where
  "arg_ping fd st = andthen (send_to_one fd (''PONG'' @ [CHR 10]) st) (\<lambda>r. sent_or r finish)"

text \<open>\<open>str_to_int\<close> sets \<open>errno\<close>, to zero when it succeeds.\<close>

definition arg_broadcast :: "nat \<Rightarrow> cstring list \<Rightarrow> dstate \<Rightarrow> dstate" where
  "arg_broadcast fd arg st =
     (let on = upd_conn fd (\<lambda>c. c\<lparr>cn_nobroadcast := False\<rparr>) st in
      if length arg > 1
      then (case str_to_int (arg ! 1) 10 of
              Inl e \<Rightarrow> on\<lparr>ds_errno := E_other\<rparr>
            | Inr i \<Rightarrow> (upd_conn fd (\<lambda>c. c\<lparr>cn_nobroadcast := (i < 1)\<rparr>) on)\<lparr>ds_errno := E_none\<rparr>)
      else on)"

text \<open>The result of a handler goes back only when an identifier was given.\<close>

definition report_result :: "nat \<Rightarrow> cstring option \<Rightarrow> int \<times> dstate \<Rightarrow> (int \<times> dstate) outcome" where
  "report_result fd cid r =
     (case r of (ret, st) \<Rightarrow>
        (case cid of
           None \<Rightarrow> Done (1, st)
         | Some c \<Rightarrow> andthen (send_tracking fd c ret st) (\<lambda>r1. sent_or r1 finish)))"

text \<open>Parameter and identifier of \<open>INSTCMD\<close>; \<open>None\<close> is a malformed request.\<close>

definition instcmd_args :: "cstring list \<Rightarrow> (cstring option \<times> cstring option) option" where
  "instcmd_args arg =
     (let numarg = length arg in
      if numarg = 3 then Some (Some (arg ! 2), None)
      else if numarg = 4 \<and> same_nocase (arg ! 2) ''TRACKING'' then Some (None, Some (arg ! 3))
      else if numarg = 5 \<and> same_nocase (arg ! 3) ''TRACKING'' then Some (Some (arg ! 2), Some (arg ! 4))
      else if numarg \<noteq> 2 then None
      else Some (None, None))"

definition arg_instcmd :: "handlers \<Rightarrow> nat \<Rightarrow> cstring list \<Rightarrow> dstate \<Rightarrow> (int \<times> dstate) outcome" where
  "arg_instcmd h fd arg st =
     (case instcmd_args arg of
        None \<Rightarrow> Done (0, st)
      | Some (cmdparam, cmdid) \<Rightarrow>
          andthen (main_instcmd h (arg ! 1) cmdparam fd st)
            (\<lambda>(ret, st1).
               if ret \<noteq> STAT_INSTCMD_UNKNOWN then report_result fd cmdid (ret, st1)
               else case upsh_instcmd h of
                 Some f \<Rightarrow> andthen (f (arg ! 1) cmdparam st1) (report_result fd cmdid)
               | None \<Rightarrow> report_result fd cmdid (ret, st1)))"

text \<open>Without a handler of the driver, \<open>SET\<close> reports nothing, \<open>INSTCMD\<close> does.\<close>

definition arg_set :: "handlers \<Rightarrow> nat \<Rightarrow> cstring list \<Rightarrow> dstate \<Rightarrow> (int \<times> dstate) outcome" where
  "arg_set h fd arg st =
     (if length arg = 5 \<and> \<not> same_nocase (arg ! 3) ''TRACKING'' then Done (0, st)
      else
        let setid = (if length arg = 5 then Some (arg ! 4) else None) in
        andthen (main_setvar h (arg ! 1) (arg ! 2) fd st)
          (\<lambda>(ret, st1).
             if ret \<noteq> STAT_SET_UNKNOWN then report_result fd setid (ret, st1)
             else case upsh_setvar h of
               Some f \<Rightarrow> andthen (f (arg ! 1) (arg ! 2) st1) (report_result fd setid)
             | None \<Rightarrow> Done (1, st1)))"

definition sock_arg :: "handlers \<Rightarrow> nat \<Rightarrow> cstring list \<Rightarrow> dstate \<Rightarrow> (int \<times> dstate) outcome" where
  "sock_arg h fd arg st =
     closed_guard fd st
       (let numarg = length arg; is = (\<lambda>s. same_nocase (arg ! 0) s) in
        if numarg < 1 then Done (0, st)
        else if is ''LOGOUT'' then arg_logout fd st
        else if is ''GETPID'' then arg_getpid fd st
        else if is ''DUMPALL'' \<or> is ''DUMPSTATUS'' \<or> (is ''DUMPVALUE'' \<and> numarg > 1) then arg_dump fd arg st
        else if is ''PING'' then arg_ping fd st
        else if is ''NOBROADCAST'' then Done (1, upd_conn fd (\<lambda>c. c\<lparr>cn_nobroadcast := True\<rparr>) st)
        else if is ''BROADCAST'' then Done (1, arg_broadcast fd arg st)
        else if numarg < 2 then Done (0, st)
        else if is ''INSTCMD'' then arg_instcmd h fd arg st
        else if numarg < 3 then Done (0, st)
        else if is ''SET'' then arg_set h fd arg st
        else Done (0, st))"

section \<open>Reading, connecting, polling\<close>

text \<open>The bytes of one \<open>read\<close>: \<open>-2\<close> ends with a connection that is gone, \<open>-1\<close> with a parse error.\<close>

fun read_loop :: "handlers \<Rightarrow> nat \<Rightarrow> cstring \<Rightarrow> dstate \<Rightarrow> (int \<times> dstate) outcome" where
  "read_loop h fd [] st = Done (1, st)"
| "read_loop h fd (c # cs) st =
     (case conn_at st fd of
        None \<Rightarrow> Freed
      | Some conn \<Rightarrow>
          (case pconf_char (cn_ctx conn) c of
             (r, ctx) \<Rightarrow>
               let st1 = upd_conn fd (\<lambda>c. c\<lparr>cn_ctx := ctx\<rparr>) st in
               if r = 0 then read_loop h fd cs st1
               else if r = 1 then
                 andthen (sock_arg h fd (ctx_args ctx) st1)
                   (\<lambda>(ret_arg, st2).
                      if ds_errno st2 = E_notconn then Done (- 2, st2)
                      else if ret_arg = 2 then Done (- 2, st2\<lparr>ds_errno := E_notconn\<rparr>)
                      else read_loop h fd cs st2)
               else Done (- 1, st1)))"

definition DSTATE_CONN_READZERO_THROTTLE_MAX :: nat where "DSTATE_CONN_READZERO_THROTTLE_MAX = 5"

datatype conn_read = Got cstring | Got_again | Got_error

text \<open>\<open>ndelay\<close>: whether \<open>fcntl\<close> reports the connection as nonblocking.\<close>

definition sock_read :: "handlers \<Rightarrow> bool \<Rightarrow> conn_read \<Rightarrow> nat \<Rightarrow> dstate \<Rightarrow> (int \<times> dstate) outcome" where
  "sock_read h ndelay res fd st =
     (let gone = (\<lambda>s. Done (- 2, (sock_disconnect fd s)\<lparr>ds_errno := E_notconn\<rparr>)) in
      case conn_at st fd of
        None \<Rightarrow> Freed
      | Some conn \<Rightarrow>
          if cn_closing conn then Done (- 2, st\<lparr>ds_errno := E_notconn\<rparr>)
          else case res of
            Got_again \<Rightarrow> Done (- 1, st\<lparr>ds_errno := E_again\<rparr>)
          | Got_error \<Rightarrow> gone st
          | Got buf \<Rightarrow>
              if buf = [] then
                (if ndelay then gone st
                 else let st1 = upd_conn fd (\<lambda>c. c\<lparr>cn_readzero := cn_readzero c + 1\<rparr>) st
                      in if cn_readzero conn + 1 > DSTATE_CONN_READZERO_THROTTLE_MAX then gone st1 else Done (1, st1))
              else read_loop h fd buf (upd_conn fd (\<lambda>c. c\<lparr>cn_readzero := 0\<rparr>) st))"

text \<open>\<open>accept\<close> gives a new descriptor; \<open>fcntl\<close> may fail when nonblocking mode is wanted.\<close>

definition sock_connect :: "PCONF_CTX_t \<Rightarrow> nat option \<Rightarrow> bool \<Rightarrow> dstate \<Rightarrow> dstate" where
  "sock_connect junk accept fcntl_ok st =
     (case accept of
        None \<Rightarrow> st
      | Some fd \<Rightarrow>
          if do_synchronous st < 1 \<and> \<not> fcntl_ok then st
          else st\<lparr>connhead := \<lparr>cn_fd = fd, cn_ctx = pconf_init junk, cn_nobroadcast = False, cn_readzero = 0,
                               cn_closing = False\<rparr> # connhead st\<rparr>)"

definition sock_close :: "dstate \<Rightarrow> dstate" where
  "sock_close st = st\<lparr>connhead := []\<rparr>"

text \<open>Time left until \<open>timeout\<close>, both as seconds and microseconds, and whether it is over.\<close>

definition time_left :: "int \<times> int \<Rightarrow> int \<times> int \<Rightarrow> (int \<times> int) \<times> bool" where
  "time_left timeout now =
     (let (s, us) = (if snd timeout < snd now then (fst timeout - 1, snd timeout + 1000000) else timeout)
      in if s < fst now then ((0, 0), True) else ((s - fst now, us - snd now), False))"

text \<open>
  The reads of the ready connections, each with what its \<open>read\<close> gives. As in the broadcast
  the next connection is remembered before the current one is served.
\<close>

fun poll_loop :: "handlers \<Rightarrow> (nat \<Rightarrow> (bool \<times> conn_read) option) \<Rightarrow> nat list \<Rightarrow> dstate \<Rightarrow> dstate outcome" where
  "poll_loop h ready [] st = Done st"
| "poll_loop h ready (fd # fds) st =
     (if \<not> live_fd st fd then Freed
      else
        let later = filter (live_fd st) fds in
        (case ready fd of
           None \<Rightarrow> poll_loop h ready later st
         | Some (ndelay, res) \<Rightarrow>
             andthen (sock_read h ndelay res fd st) (\<lambda>(ret, st1). poll_loop h ready later st1)))"

text \<open>What \<open>select\<close> answers; \<open>accepting\<close> says whether the listening socket is ready.\<close>

datatype select_result = Sel_timeout | Sel_error | Sel_ready

definition dstate_poll_fds ::
  "handlers \<Rightarrow> int \<times> int \<Rightarrow> int \<times> int \<Rightarrow> select_result \<Rightarrow> (PCONF_CTX_t \<times> nat option \<times> bool) option \<Rightarrow>
   (nat \<Rightarrow> (bool \<times> conn_read) option) \<Rightarrow> bool \<Rightarrow> dstate \<Rightarrow> (int \<times> dstate) outcome" where
  "dstate_poll_fds h timeout now sel accepting ready extra st =
     (let overrun = snd (time_left timeout now) in
      case sel of
        Sel_timeout \<Rightarrow> Done (1, st)
      | Sel_error \<Rightarrow> Done (of_bool overrun, st)
      | Sel_ready \<Rightarrow>
          let st1 = (case accepting of None \<Rightarrow> st | Some (junk, acc, ok) \<Rightarrow> sock_connect junk acc ok st) in
          andthen (poll_loop h ready (map cn_fd (connhead st1)) st1)
            (\<lambda>st2. Done (if extra then 1 else of_bool overrun, drop_closing st2)))"

section \<open>The interface of the drivers\<close>

text \<open>An operation on the tree that is broadcast when it changed something.\<close>

definition change_tree :: "(st_tree \<Rightarrow> int \<times> st_tree) \<Rightarrow> cstring \<Rightarrow> dstate \<Rightarrow> (int \<times> dstate) outcome" where
  "change_tree f msg st =
     (case f (dtree_root st) of
        (ret, tree) \<Rightarrow>
          let st1 = st\<lparr>dtree_root := tree\<rparr> in
          if ret = 1 then andthen (broadcast msg st1) (\<lambda>st2. Done (ret, st2)) else Done (ret, st1))"

definition dstate_addenum :: "cstring \<Rightarrow> cstring \<Rightarrow> dstate \<Rightarrow> (int \<times> dstate) outcome" where
  "dstate_addenum var txt st =
     (let value = snprintf ST_MAX_VALUE_LEN txt
      in change_tree (\<lambda>t. state_addenum t var value (ds_clk st))
           (''ADDENUM '' @ var @ '' '' @ [CHR 34] @ value @ [CHR 34, CHR 10]) st)"

text \<open>Comparing and storing flags and auxiliary data does not touch the time of the variable.\<close>

definition dstate_setflags :: "cstring \<Rightarrow> 32 word \<Rightarrow> dstate \<Rightarrow> dstate outcome" where
  "dstate_setflags var fl st =
     (case state_tree_find (dtree_root st) var of
        None \<Rightarrow> Done st
      | Some node \<Rightarrow>
          if has_flag (st_flags node) ST_FLAG_IMMUTABLE then Done st
          else if st_flags node = fl then Done st
          else broadcast (''SETFLAGS '' @ flag_list var fl @ [CHR 10])
                 (st\<lparr>dtree_root := st_tree_modify (dtree_root st) var (\<lambda>n. n\<lparr>st_flags := fl\<rparr>)\<rparr>))"

definition dstate_addflags :: "cstring \<Rightarrow> 32 word \<Rightarrow> dstate \<Rightarrow> dstate outcome" where
  "dstate_addflags var addflags st =
     (let fl = state_getflags (dtree_root st) var in
      if fl = - 1 then Done st
      else if (fl AND addflags) = addflags then Done st
      else dstate_setflags var (fl OR addflags) st)"

definition dstate_delflags :: "cstring \<Rightarrow> 32 word \<Rightarrow> dstate \<Rightarrow> dstate outcome" where
  "dstate_delflags var delflags st =
     (let fl = state_getflags (dtree_root st) var in
      if fl = - 1 then Done st
      else if (fl AND delflags) = 0 then Done st
      else dstate_setflags var (fl AND NOT delflags) st)"

definition dstate_addrange :: "cstring \<Rightarrow> int \<Rightarrow> int \<Rightarrow> dstate \<Rightarrow> (int \<times> dstate) outcome" where
  "dstate_addrange var lo hi st =
     (case state_addrange (dtree_root st) var lo hi (ds_clk st) of
        (ret, tree) \<Rightarrow>
          let st1 = st\<lparr>dtree_root := tree\<rparr> in
          if ret = 1
          then andthen (broadcast (''ADDRANGE '' @ var @ '' '' @ int_dec lo @ '' '' @ int_dec hi @ [CHR 10]) st1)
                 (\<lambda>st2. andthen (dstate_addflags var ST_FLAG_NUMBER st2) (\<lambda>st3. Done (ret, st3)))
          else Done (ret, st1))"

definition dstate_setaux :: "cstring \<Rightarrow> int \<Rightarrow> dstate \<Rightarrow> dstate outcome" where
  "dstate_setaux var aux st =
     (case state_tree_find (dtree_root st) var of
        None \<Rightarrow> Done st
      | Some node \<Rightarrow>
          if st_aux node = aux then Done st
          else broadcast (''SETAUX '' @ var @ '' '' @ int_dec aux @ [CHR 10])
                 (st\<lparr>dtree_root := st_tree_modify (dtree_root st) var (\<lambda>n. n\<lparr>st_aux := aux\<rparr>)\<rparr>))"

definition dstate_getinfo :: "dstate \<Rightarrow> cstring \<Rightarrow> cstring option" where
  "dstate_getinfo st var = state_getinfo (dtree_root st) var"

definition dstate_tree_find :: "dstate \<Rightarrow> cstring \<Rightarrow> st_node option" where
  "dstate_tree_find st var = state_tree_find (dtree_root st) var"

definition dstate_delinfo :: "cstring \<Rightarrow> dstate \<Rightarrow> (int \<times> dstate) outcome" where
  "dstate_delinfo var st = change_tree (\<lambda>t. state_delinfo t var) (''DELINFO '' @ var @ [CHR 10]) st"

definition dstate_delinfo_olderthan :: "cstring \<Rightarrow> timespec \<Rightarrow> dstate \<Rightarrow> (int \<times> dstate) outcome" where
  "dstate_delinfo_olderthan var cutoff st =
     change_tree (\<lambda>t. state_delinfo_olderthan t var cutoff) (''DELINFO '' @ var @ [CHR 10]) st"

definition dstate_delenum :: "cstring \<Rightarrow> cstring \<Rightarrow> dstate \<Rightarrow> (int \<times> dstate) outcome" where
  "dstate_delenum var val st =
     change_tree (\<lambda>t. state_delenum t var val (ds_clk st))
       (''DELENUM '' @ var @ '' '' @ [CHR 34] @ val @ [CHR 34, CHR 10]) st"

definition dstate_delrange :: "cstring \<Rightarrow> int \<Rightarrow> int \<Rightarrow> dstate \<Rightarrow> (int \<times> dstate) outcome" where
  "dstate_delrange var lo hi st =
     change_tree (\<lambda>t. state_delrange t var lo hi (ds_clk st))
       (''DELRANGE '' @ var @ '' '' @ int_dec lo @ '' '' @ int_dec hi @ [CHR 10]) st"

definition change_cmds :: "(cstring list \<Rightarrow> int \<times> cstring list) \<Rightarrow> cstring \<Rightarrow> dstate \<Rightarrow> (int \<times> dstate) outcome" where
  "change_cmds f msg st =
     (case f (cmdhead st) of
        (ret, cmds) \<Rightarrow>
          let st1 = st\<lparr>cmdhead := cmds\<rparr> in
          if ret = 1 then andthen (broadcast msg st1) (\<lambda>st2. Done (ret, st2)) else Done (ret, st1))"

definition dstate_addcmd :: "cstring \<Rightarrow> dstate \<Rightarrow> (int \<times> dstate) outcome" where
  "dstate_addcmd cmd st = change_cmds (\<lambda>cs. state_addcmd cs cmd) (''ADDCMD '' @ cmd @ [CHR 10]) st"

definition dstate_delcmd :: "cstring \<Rightarrow> dstate \<Rightarrow> (int \<times> dstate) outcome" where
  "dstate_delcmd cmd st = change_cmds (\<lambda>cs. state_delcmd cs cmd) (''DELCMD '' @ cmd @ [CHR 10]) st"

definition dstate_free :: "dstate \<Rightarrow> dstate" where
  "dstate_free st = sock_close (st\<lparr>dtree_root := Leaf, cmdhead := []\<rparr>)"

definition dstate_dataok :: "dstate \<Rightarrow> dstate outcome" where
  "dstate_dataok st =
     (if ds_stale st then broadcast (''DATAOK'' @ [CHR 10]) (st\<lparr>ds_stale := False\<rparr>) else Done st)"

definition dstate_datastale :: "dstate \<Rightarrow> dstate outcome" where
  "dstate_datastale st =
     (if \<not> ds_stale st then broadcast (''DATASTALE'' @ [CHR 10]) (st\<lparr>ds_stale := True\<rparr>) else Done st)"

definition dstate_is_stale :: "dstate \<Rightarrow> bool" where
  "dstate_is_stale st = ds_stale st"

end
