(* ===== verification/DriverStatus.thy ===== *)
theory DriverStatus
  imports Dstate
begin

text \<open>
  What a driver publishes about its device in each pass (\<open>src/drivers/dstate.c\<close>): the tokens of
  \<open>ups.status\<close>, the buzzwords of the mode, the alarms, the number of phases.
\<close>

section \<open>Status\<close>

definition status_init :: "dstate \<Rightarrow> dstate" where
  "status_init st =
     st\<lparr>ignorelb := (dstate_getinfo st ''driver.flag.ignorelb'' \<noteq> None), status_buf := [],
        alarm_status := False, alarm_legacy_status := False\<rparr>"

definition status_get :: "cstring \<Rightarrow> dstate \<Rightarrow> bool" where
  "status_get buf st = str_contains_token (status_buf st) buf"

definition status_set_callback :: "dstate token_callback" where
  "status_set_callback tgt token st =
     (if ignorelb st \<and> same_nocase token ''LB'' then (False, st)
      else if same_nocase token ''ALARM'' then (False, st\<lparr>alarm_legacy_status := True\<rparr>)
      else (True, st))"

definition status_set :: "cstring \<Rightarrow> dstate \<Rightarrow> dstate" where
  "status_set buf st =
     (case str_add_unique_token (Some status_set_callback) None ST_MAX_VALUE_LEN buf (status_buf st, st) of
        (ret, (tgt, st1)) \<Rightarrow> st1\<lparr>status_buf := tgt\<rparr>)"

text \<open>Two variables, compared as numbers, the first below the second.\<close>

definition below :: "cstring option \<Rightarrow> cstring option \<Rightarrow> bool" where
  "below val low =
     (case (val, low) of (Some v, Some l) \<Rightarrow> fst (strtol v 10) < fst (strtol l 10) | _ \<Rightarrow> False)"

definition battery_low :: "dstate \<Rightarrow> bool" where
  "battery_low st \<longleftrightarrow>
     below (dstate_getinfo st ''battery.charge'') (dstate_getinfo st ''battery.charge.low'')
     \<or> below (dstate_getinfo st ''battery.runtime'') (dstate_getinfo st ''battery.runtime.low'')"

text \<open>
  The charge as a floating point number is an argument: whether it was scanned at all (the
  driver keeps a previous charge), the \<open>errno\<close> of the scan, and how a valid charge below 100
  compares with the previous one.
\<close>

datatype trend = No_trend | Rising | Falling

definition charge_status :: "trend \<Rightarrow> dstate \<Rightarrow> dstate" where
  "charge_status t st =
     (let reports_DISCHRG = status_get ''DISCHRG'' st; reports_CHRG = status_get ''CHRG'' st in
      if t = No_trend then st
      else if \<not> reports_DISCHRG \<and> \<not> reports_CHRG
      then status_set (if t = Rising then ''CHRG'' else ''DISCHRG'') st
      else
        let misleading_DISCHRG = (t = Rising \<and> reports_DISCHRG);
            misleading_CHRG = (t = Falling \<and> reports_CHRG)
        in if misleading_DISCHRG \<or> misleading_CHRG
           then status_set (if misleading_DISCHRG then ''CHRG'' else ''DISCHRG'') st
           else st)"

definition status_commit :: "(derrno \<times> trend) option \<Rightarrow> dstate \<Rightarrow> dstate outcome" where
  "status_commit charge st =
     (let st1 = (if ignorelb st \<and> battery_low st
                 then st\<lparr>status_buf := snprintfcat (status_buf st) ST_MAX_VALUE_LEN '' LB''\<rparr> else st);
          st2 = (case charge of
                   Some (e, t) \<Rightarrow>
                     if dstate_tree_find st1 ''battery.charge'' = None then st1
                     else charge_status t (st1\<lparr>ds_errno := e\<rparr>)
                 | None \<Rightarrow> st1)
      in if alarm_active st2 \<noteq> 0 \<or> alarm_legacy_status st2
         then andthen (dstate_setinfo ''ups.status''
                         (if status_buf st2 \<noteq> [] then ''ALARM '' @ status_buf st2 else ''ALARM'') st2)
                (\<lambda>(ret, st3). Done st3)
         else andthen (dstate_setinfo ''ups.status'' (status_buf st2) st2)
                (\<lambda>(ret, st3). Done (st3\<lparr>alarm_legacy_status := False\<rparr>)))"

section \<open>Buzzwords of the mode\<close>

definition buzzmode_init :: "dstate \<Rightarrow> dstate" where
  "buzzmode_init st = st\<lparr>buzzmode_buf := []\<rparr>"

definition buzzmode_get :: "cstring \<Rightarrow> dstate \<Rightarrow> bool" where
  "buzzmode_get buf st = str_contains_token (buzzmode_buf st) buf"

definition buzzmode_set :: "cstring \<Rightarrow> dstate \<Rightarrow> dstate" where
  "buzzmode_set buf st =
     (case str_add_unique_token None None ST_MAX_VALUE_LEN buf (buzzmode_buf st, st) of
        (ret, (tgt, st1)) \<Rightarrow> st1\<lparr>buzzmode_buf := tgt\<rparr>)"

definition buzzmode_commit :: "dstate \<Rightarrow> dstate outcome" where
  "buzzmode_commit st =
     andthen (if buzzmode_buf st = [] then dstate_delinfo ''experimental.ups.mode.buzzwords'' st
              else dstate_setinfo ''experimental.ups.mode.buzzwords'' (buzzmode_buf st) st)
       (\<lambda>(ret, st1). Done st1)"

section \<open>Alarms\<close>

definition device_alarm_init :: "dstate \<Rightarrow> dstate" where
  "device_alarm_init st = st\<lparr>alarm_buf := []\<rparr>"

definition alarm_init :: "dstate \<Rightarrow> dstate" where
  "alarm_init st = device_alarm_init (st\<lparr>alarm_active := 0\<rparr>)"

definition alarm_set :: "cstring \<Rightarrow> dstate \<Rightarrow> dstate" where
  "alarm_set buf st =
     st\<lparr>alarm_buf :=
          (if alarm_buf st = [] \<or> (alarm_status st \<and> strcmp_eq (alarm_buf st) ''[N/A]'')
           then snprintf ST_MAX_VALUE_LEN buf
           else snprintfcat (alarm_buf st) ST_MAX_VALUE_LEN ('' '' @ buf))\<rparr>"

definition alarm_commit :: "dstate \<Rightarrow> dstate outcome" where
  "alarm_commit st =
     (if alarm_buf st \<noteq> []
      then andthen (dstate_setinfo ''ups.alarm'' (alarm_buf st) st) (\<lambda>(ret, st1). Done (st1\<lparr>alarm_active := 1\<rparr>))
      else andthen (dstate_delinfo ''ups.alarm'' st) (\<lambda>(ret, st1). Done (st1\<lparr>alarm_active := 0\<rparr>)))"

definition device_alarm_commit :: "int \<Rightarrow> dstate \<Rightarrow> dstate outcome" where
  "device_alarm_commit device_number st =
     (let info_name = snprintf 20 (if device_number \<noteq> 0
                                   then ''device.'' @ int_dec device_number @ ''.ups.alarm'' else ''ups.alarm'')
      in if alarm_buf st \<noteq> []
         then andthen (dstate_setinfo info_name (alarm_buf st) st)
                (\<lambda>(ret, st1). Done (st1\<lparr>alarm_active := alarm_active st1 + 1\<rparr>))
         else andthen (dstate_delinfo info_name st) (\<lambda>(ret, st1). Done st1))"

section \<open>Number of phases\<close>

definition MAX_STRING_SIZE :: nat where "MAX_STRING_SIZE = 128"

definition getinfo_nonzero :: "dstate \<Rightarrow> cstring \<Rightarrow> bool" where
  "getinfo_nonzero st var = (case dstate_getinfo st var of None \<Rightarrow> False | Some v \<Rightarrow> v \<noteq> ''0'' \<and> v \<noteq> [])"

text \<open>\<open>None\<close>: the values at hand do not tell.\<close>

definition detect_phases :: "(cstring \<Rightarrow> bool) \<Rightarrow> int option" where
  "detect_phases has =
     (let v1 = has ''L1.voltage''; v2 = has ''L2.voltage''; v3 = has ''L3.voltage'';
          v1n = has ''L1-N.voltage''; v2n = has ''L2-N.voltage''; v3n = has ''L3-N.voltage'';
          v12 = has ''L1-L2.voltage''; v23 = has ''L2-L3.voltage''; v31 = has ''L3-L1.voltage'';
          c1 = has ''L1.current''; c2 = has ''L2.current''; c3 = has ''L3.current'';
          v0 = has ''voltage''; c0 = has ''current''
      in if (v1 \<and> v2 \<and> \<not> v3) \<or> (v1n \<and> v2n \<and> \<not> v3n) \<or> (c1 \<and> c2 \<and> \<not> c3) \<or> (v12 \<and> \<not> v23 \<and> \<not> v31)
         then Some 2
         else if (v1 \<and> v2 \<and> v3) \<or> (v1n \<and> v2n \<and> v3n) \<or> (c1 \<and> (c2 \<or> c3)) \<or> (c2 \<and> (c1 \<or> c3))
           \<or> (c3 \<and> (c1 \<or> c2)) \<or> v12 \<or> v23 \<or> v31
         then Some 3
         else if \<not> v12 \<and> \<not> v23 \<and> \<not> v31 \<and>
           ((c0 \<and> \<not> c1 \<and> \<not> c2 \<and> \<not> c3) \<or> (v0 \<and> \<not> v1 \<and> \<not> v2 \<and> \<not> v3)
            \<or> (c1 \<and> \<not> c2 \<and> \<not> c3) \<or> (\<not> c1 \<and> c2 \<and> \<not> c3) \<or> (\<not> c1 \<and> \<not> c2 \<and> c3)
            \<or> (v1 \<and> \<not> v2 \<and> \<not> v3) \<or> (\<not> v1 \<and> v2 \<and> \<not> v3) \<or> (\<not> v1 \<and> \<not> v2 \<and> v3)
            \<or> (v1n \<and> \<not> v2n \<and> \<not> v3n) \<or> (\<not> v1n \<and> v2n \<and> \<not> v3n) \<or> (\<not> v1n \<and> \<not> v2n \<and> v3n))
         then Some 1
         else None)"

text \<open>
  The caller's two variables are arguments and results; a caller that passes \<open>NULL\<close> has 0
  and -1 there and ignores what comes back.
\<close>

definition dstate_detect_phasecount ::
  "cstring option \<Rightarrow> bool \<Rightarrow> bool \<Rightarrow> int \<Rightarrow> bool \<Rightarrow> dstate \<Rightarrow> (int \<times> bool \<times> int \<times> dstate) outcome" where
  "dstate_detect_phasecount xput_prefix may_change_dstate inited_phaseinfo num_phases may_reevaluate st =
     (if inited_phaseinfo \<and> \<not> may_reevaluate then Done (2, inited_phaseinfo, num_phases, st)
      else case xput_prefix of
        None \<Rightarrow> Done (- 1, inited_phaseinfo, num_phases, st)
      | Some prefix \<Rightarrow>
          if length prefix < 1 \<or> MAX_STRING_SIZE \<le> 15 + length prefix
          then Done (- 1, inited_phaseinfo, num_phases, st)
          else case detect_phases (\<lambda>s. getinfo_nonzero st (prefix @ s)) of
            None \<Rightarrow> Done (0, inited_phaseinfo, num_phases, st)
          | Some n \<Rightarrow>
              let oldphases = dstate_getinfo st (prefix @ ''phases'') in
              if map_option atoi oldphases = Some n then Done (3, True, n, st)
              else if n \<noteq> num_phases \<or> oldphases = None
              then if may_change_dstate
                   then andthen (dstate_setinfo (prefix @ ''phases'') (int_dec n) st)
                          (\<lambda>(ret, st1). Done (1, True, n, st1))
                   else Done (1, True, n, st)
              else Done (0, True, n, st))"

section \<open>Dump to the console\<close>

fun dstate_tree_dump :: "st_tree \<Rightarrow> cstring" where
  "dstate_tree_dump Leaf = []"
| "dstate_tree_dump (Node l n r) =
     dstate_tree_dump l @ st_var n @ '': '' @ node_val n @ [CHR 10] @ dstate_tree_dump r"

end
