(* ===== verification/UsbHid.thy ===== *)
theory UsbHid
  imports DriverStatus HidLib
begin

unbundle bit_operations_syntax

text \<open>
  The driver of USB devices with HID reports, \<open>src/drivers/usbhid-ups.c\<close>: what it remembers of
  the status of the device between two reports, and the words and alarms it makes of it.

  The clock is read once per pass, its reading is an argument.
\<close>

section \<open>Bits of the status\<close>

datatype status_bit_t = ONLINE | OFFLINE | DISCHRG | CHRG | LOWBATT | OVERLOAD | REPLACEBATT | SHUTDOWNIMM
  | TRIM | BOOST | BYPASSAUTO | BYPASSMAN | ECOMODE | ESSMODE | OFF | CALIB | OVERHEAT | COMMFAULT | DEPLETED
  | TIMELIMITEXP | FULLYCHARGED | NOTFULLYCHARGED | AWAITINGPOWER | FANFAIL | NOBATTERY | BATTVOLTLO
  | BATTVOLTHI | CHARGERFAIL | VRANGE | FRANGE

primrec status_no :: "status_bit_t \<Rightarrow> nat" where
  "status_no ONLINE = 0"
| "status_no OFFLINE = 1"
| "status_no DISCHRG = 2"
| "status_no CHRG = 3"
| "status_no LOWBATT = 4"
| "status_no OVERLOAD = 5"
| "status_no REPLACEBATT = 6"
| "status_no SHUTDOWNIMM = 7"
| "status_no TRIM = 8"
| "status_no BOOST = 9"
| "status_no BYPASSAUTO = 10"
| "status_no BYPASSMAN = 11"
| "status_no ECOMODE = 12"
| "status_no ESSMODE = 13"
| "status_no OFF = 14"
| "status_no CALIB = 15"
| "status_no OVERHEAT = 16"
| "status_no COMMFAULT = 17"
| "status_no DEPLETED = 18"
| "status_no TIMELIMITEXP = 19"
| "status_no FULLYCHARGED = 20"
| "status_no NOTFULLYCHARGED = 21"
| "status_no AWAITINGPOWER = 22"
| "status_no FANFAIL = 23"
| "status_no NOBATTERY = 24"
| "status_no BATTVOLTLO = 25"
| "status_no BATTVOLTHI = 26"
| "status_no CHARGERFAIL = 27"
| "status_no VRANGE = 28"
| "status_no FRANGE = 29"

definition STATUS :: "status_bit_t \<Rightarrow> uint32" where
  "STATUS x = push_bit (status_no x) 1"

definition status_info :: "(cstring \<times> uint32) list" where
  "status_info = [(''online'', STATUS ONLINE), (''offline'', STATUS OFFLINE), (''dischrg'', STATUS DISCHRG),
     (''chrg'', STATUS CHRG), (''lowbatt'', STATUS LOWBATT), (''overload'', STATUS OVERLOAD),
     (''replacebatt'', STATUS REPLACEBATT), (''shutdownimm'', STATUS SHUTDOWNIMM), (''trim'', STATUS TRIM),
     (''boost'', STATUS BOOST), (''bypassauto'', STATUS BYPASSAUTO), (''bypassman'', STATUS BYPASSMAN),
     (''ecomode'', STATUS ECOMODE), (''essmode'', STATUS ESSMODE), (''off'', STATUS OFF), (''cal'', STATUS CALIB),
     (''overheat'', STATUS OVERHEAT), (''commfault'', STATUS COMMFAULT), (''depleted'', STATUS DEPLETED),
     (''timelimitexp'', STATUS TIMELIMITEXP), (''fullycharged'', STATUS FULLYCHARGED),
     (''notfullycharged'', STATUS NOTFULLYCHARGED), (''awaitingpower'', STATUS AWAITINGPOWER),
     (''fanfail'', STATUS FANFAIL), (''nobattery'', STATUS NOBATTERY), (''battvoltlo'', STATUS BATTVOLTLO),
     (''battvolthi'', STATUS BATTVOLTHI), (''chargerfail'', STATUS CHARGERFAIL), (''vrange'', STATUS VRANGE),
     (''frange'', STATUS FRANGE)]"

section \<open>Remembering a status item\<close>

fun change_status :: "(cstring \<times> uint32) list \<Rightarrow> bool \<Rightarrow> cstring \<Rightarrow> uint32 \<Rightarrow> uint32" where
  "change_status [] clear nutvalue s = s"
| "change_status ((status_str, status_mask) # items) clear nutvalue s =
     (if strcasecmp status_str nutvalue \<noteq> 0 then change_status items clear nutvalue s
      else if clear then s AND NOT status_mask
      else s OR status_mask)"

function process_boolean_info :: "cstring \<Rightarrow> uint32 \<Rightarrow> uint32" where
  "process_boolean_info nutvalue s =
     (let s1 = (if nutvalue = ''online'' then process_boolean_info ''!offline'' s
                else if nutvalue = ''offline'' then process_boolean_info ''!online'' s
                else s);
          s2 = (if nutvalue = ''fullycharged'' then process_boolean_info ''!notfullycharged'' s1
                else if nutvalue = ''notfullycharged'' then process_boolean_info ''!fullycharged'' s1
                else s1)
      in if nutvalue \<noteq> [] \<and> hd nutvalue = CHR ''!''
         then change_status status_info True (tl nutvalue) s2
         else change_status status_info False nutvalue s2)"
  by pat_completeness auto
termination
  by (relation "measure (\<lambda>(w, s). if w \<noteq> [] \<and> hd w = CHR ''!'' then 0 else 1)") auto

declare process_boolean_info.simps [simp del]

section \<open>The state of the driver\<close>

text \<open>Settings of the administrator.\<close>

record hid_settings =
  onlinedischarge_onbattery :: bool
  onlinedischarge_calibration :: bool
  onlinedischarge_log_throttle_hovercharge :: int
  lbrb_log_delay_sec :: int
  lbrb_log_delay_without_calibrating :: bool

text \<open>
  The status and what is remembered to interpret it; \<open>ups\<close> is the common part of all drivers.
\<close>

record hid_state =
  ups_status :: uint32
  ups :: dstate
  last_calibration_start :: int
  last_calibration_finish :: int
  log_throttle_sec :: int
  log_throttle_timestamp :: int
  log_throttle_charge :: int
  last_lb_start :: int
  last_rb_start :: int

definition has_status :: "hid_state \<Rightarrow> status_bit_t \<Rightarrow> bool" where
  "has_status u b \<longleftrightarrow> ups_status u AND STATUS b \<noteq> 0"

definition on_dstate :: "(dstate \<Rightarrow> dstate) \<Rightarrow> hid_state \<Rightarrow> hid_state" where
  "on_dstate f u = u\<lparr>ups := f (ups u)\<rparr>"

section \<open>Alarms\<close>

definition alarm_texts :: "(status_bit_t \<times> cstring) list" where
  "alarm_texts = [(REPLACEBATT, ''Replace battery!''), (SHUTDOWNIMM, ''Shutdown imminent!''),
     (FANFAIL, ''Fan failure!''), (NOBATTERY, ''No battery installed!''),
     (BATTVOLTLO, ''Battery voltage too low!''), (BATTVOLTHI, ''Battery voltage too high!''),
     (CHARGERFAIL, ''Battery charger fail!''), (OVERHEAT, ''Temperature too high!''),
     (COMMFAULT, ''Internal UPS fault!''), (AWAITINGPOWER, ''Awaiting power!''),
     (BYPASSAUTO, ''Automatic bypass mode!''), (BYPASSMAN, ''Manual bypass mode!'')]"

definition ups_alarm_set :: "hid_state \<Rightarrow> hid_state" where
  "ups_alarm_set u = fold (\<lambda>(b, txt) v. if has_status v b then on_dstate (alarm_set txt) v else v) alarm_texts u"

section \<open>Words of the status\<close>

definition status_set_CAL :: "int \<Rightarrow> hid_state \<Rightarrow> hid_state" where
  "status_set_CAL now u =
     (let wasSet = status_get ''CAL'' (ups u);
          u1 = (if last_calibration_start u = 0 then u\<lparr>last_calibration_start := now\<rparr> else u)
      in if \<not> wasSet then on_dstate (status_set ''CAL'') u1 else u1)"

definition transfer_reason :: "hid_state \<Rightarrow> hid_state outcome" where
  "transfer_reason u =
     andthen (if has_status u VRANGE then dstate_setinfo ''input.transfer.reason'' ''input voltage out of range'' (ups u)
              else if has_status u FRANGE then dstate_setinfo ''input.transfer.reason'' ''input frequency out of range'' (ups u)
              else dstate_delinfo ''input.transfer.reason'' (ups u))
       (\<lambda>(ret, st). Done (u\<lparr>ups := st\<rparr>))"

text \<open>Whether the warning about discharging while on line is written to the log.\<close>

definition throttle_charge :: "hid_settings \<Rightarrow> hid_state \<Rightarrow> bool \<times> int \<times> hid_state" where
  "throttle_charge cfg u =
     (case dstate_getinfo (ups u) ''battery.charge'' of
        Some s \<Rightarrow>
          let current_charge = atoi s in
          (current_charge > 0 \<and> current_charge \<noteq> log_throttle_charge u
             \<and> current_charge < onlinedischarge_log_throttle_hovercharge cfg, current_charge, u)
      | None \<Rightarrow> (False, 0, if log_throttle_sec u = - 2 then u\<lparr>log_throttle_sec := 30\<rparr> else u))"

definition throttle_log :: "hid_settings \<Rightarrow> int \<Rightarrow> hid_state \<Rightarrow> hid_state" where
  "throttle_log cfg now u =
     (case throttle_charge cfg u of
        (by_charge, current_charge, u1) \<Rightarrow>
          let by_time = (log_throttle_timestamp u1 > 0 \<and> log_throttle_sec u1 \<ge> 0
                         \<and> now - log_throttle_timestamp u1 \<ge> log_throttle_sec u1)
          in if by_charge \<or> by_time
             then let u2 = u1\<lparr>log_throttle_timestamp := now\<rparr> in
               if current_charge > 0 \<and> current_charge \<noteq> log_throttle_charge u2
               then u2\<lparr>log_throttle_charge := current_charge\<rparr> else u2
             else u1)"

definition throttle_reset :: "hid_state \<Rightarrow> hid_state" where
  "throttle_reset u =
     (if \<not> has_status u DISCHRG \<and> (log_throttle_timestamp u \<noteq> 0 \<or> log_throttle_charge u \<noteq> - 1)
      then u\<lparr>log_throttle_timestamp := 0, log_throttle_charge := - 1\<rparr> else u)"

definition online_discharging :: "hid_settings \<Rightarrow> int \<Rightarrow> hid_state \<Rightarrow> hid_state" where
  "online_discharging cfg now u =
     (let u1 = (if onlinedischarge_calibration cfg then status_set_CAL now u else u);
          u2 = (if onlinedischarge_onbattery cfg then on_dstate (status_set ''OB'') u1 else u1)
      in if \<not> onlinedischarge_onbattery cfg \<and> \<not> onlinedischarge_calibration cfg
         then let u3 = on_dstate (status_set ''OL'') u2 in
           if \<not> has_status u CALIB then throttle_log cfg now u3 else u3
         else u2)"

definition power_words :: "hid_settings \<Rightarrow> int \<Rightarrow> hid_state \<Rightarrow> hid_state" where
  "power_words cfg now u =
     (let u1 = (if has_status u OFFLINE then on_dstate (status_set ''OB'') u else u)
      in if \<not> has_status u1 ONLINE
         then if has_status u1 OFFLINE then on_dstate (status_set ''OB'') u1
           else if has_status u1 DISCHRG then on_dstate (status_set ''OB'') u1
           else u1
         else if has_status u1 DISCHRG then online_discharging cfg now u1
         else on_dstate (status_set ''OL'') u1)"

definition charge_words :: "hid_state \<Rightarrow> hid_state" where
  "charge_words u =
     (let u1 = (if has_status u DISCHRG \<and> \<not> has_status u DEPLETED then on_dstate (status_set ''DISCHRG'') u else u)
      in if has_status u1 CHRG
         then if has_status u1 NOTFULLYCHARGED then on_dstate (status_set ''CHRG'') u1
           else if \<not> has_status u1 FULLYCHARGED \<and> \<not> has_status u1 NOTFULLYCHARGED
           then case dstate_getinfo (ups u1) ''battery.charge'' of
               None \<Rightarrow> u1
             | Some s \<Rightarrow> let current_charge = atoi s in
                 if current_charge > 0 \<and> current_charge < 100 then on_dstate (status_set ''CHRG'') u1 else u1
           else u1
         else u1)"

definition lb_words :: "hid_settings \<Rightarrow> int \<Rightarrow> bool \<Rightarrow> hid_state \<Rightarrow> hid_state" where
  "lb_words cfg now isCalibrating u =
     (if ups_status u AND (STATUS LOWBATT OR STATUS TIMELIMITEXP OR STATUS SHUTDOWNIMM) \<noteq> 0
      then if lbrb_log_delay_sec cfg < 1
             \<or> (\<not> isCalibrating \<and> \<not> lbrb_log_delay_without_calibrating cfg)
             \<or> \<not> has_status u ONLINE
           then on_dstate (status_set ''LB'') u
           else if last_lb_start u = 0 then u\<lparr>last_lb_start := now\<rparr>
           else if difftime now (last_lb_start u) > lbrb_log_delay_sec cfg then on_dstate (status_set ''LB'') u
           else u
      else u\<lparr>last_lb_start := 0\<rparr>)"

definition rb_words :: "hid_settings \<Rightarrow> int \<Rightarrow> bool \<Rightarrow> hid_state \<Rightarrow> hid_state" where
  "rb_words cfg now isCalibrating u =
     (if has_status u REPLACEBATT \<or> has_status u NOBATTERY
      then if lbrb_log_delay_sec cfg < 1
             \<or> (\<not> isCalibrating \<and> \<not> lbrb_log_delay_without_calibrating cfg)
             \<or> last_lb_start u = 0
             \<or> \<not> has_status u ONLINE
           then on_dstate (status_set ''RB'') u
           else if last_rb_start u = 0 then u\<lparr>last_rb_start := now\<rparr>
           else if difftime now (last_rb_start u) > lbrb_log_delay_sec cfg then on_dstate (status_set ''RB'') u
           else u
      else u\<lparr>last_rb_start := 0\<rparr>)"

definition other_words :: "hid_state \<Rightarrow> hid_state" where
  "other_words u =
     (let u1 = (if has_status u TRIM then on_dstate (status_set ''TRIM'') u else u);
          u2 = (if has_status u1 BOOST then on_dstate (status_set ''BOOST'') u1 else u1);
          u3 = (if ups_status u2 AND (STATUS BYPASSAUTO OR STATUS BYPASSMAN) \<noteq> 0 then on_dstate (status_set ''BYPASS'') u2 else u2);
          u4 = (if has_status u3 ECOMODE then on_dstate (buzzmode_set ''vendor:default:ECO'') u3 else u3);
          u5 = (if has_status u4 ESSMODE then on_dstate (buzzmode_set ''vendor:default:ESS'') u4 else u4)
      in if has_status u5 OFF then on_dstate (status_set ''OFF'') u5 else u5)"

definition end_calibration :: "int \<Rightarrow> bool \<Rightarrow> hid_state \<Rightarrow> hid_state" where
  "end_calibration now isCalibrating u =
     (if \<not> isCalibrating
      then (if last_calibration_start u \<noteq> 0 then u\<lparr>last_calibration_finish := now\<rparr> else u)\<lparr>last_calibration_start := 0\<rparr>
      else u)"

text \<open>What follows the reason of the last transfer.\<close>

definition status_words :: "hid_settings \<Rightarrow> int \<Rightarrow> hid_state \<Rightarrow> hid_state" where
  "status_words cfg now u =
     (let u1 = (if has_status u CALIB then status_set_CAL now u else u);
          u2 = power_words cfg now (throttle_reset u1);
          isCalibrating = status_get ''CAL'' (ups u2);
          u3 = lb_words cfg now isCalibrating (charge_words u2);
          u4 = (if has_status u3 OVERLOAD then on_dstate (status_set ''OVER'') u3 else u3);
          u5 = other_words (rb_words cfg now isCalibrating u4)
      in end_calibration now isCalibrating u5)"

definition ups_status_set :: "hid_settings \<Rightarrow> int \<Rightarrow> hid_state \<Rightarrow> hid_state outcome" where
  "ups_status_set cfg now u = andthen (transfer_reason u) (\<lambda>u1. Done (status_words cfg now u1))"

section \<open>The status in a pass\<close>

text \<open>
  What \<open>upsdrv_updateinfo\<close> does around the reading of the reports; \<open>charge\<close> is the comparison of the
  charge with the previous one, see \<open>status_commit\<close>.
\<close>

definition begin_status :: "hid_state \<Rightarrow> hid_state" where
  "begin_status u = on_dstate (\<lambda>st. buzzmode_init (status_init st)) u"

definition commit_status :: "(derrno \<times> trend) option \<Rightarrow> hid_settings \<Rightarrow> int \<Rightarrow> hid_state \<Rightarrow> hid_state outcome" where
  "commit_status charge cfg now u =
     andthen (ups_status_set cfg now u) (\<lambda>u1.
       andthen (buzzmode_commit (ups u1)) (\<lambda>st.
         andthen (status_commit charge st) (\<lambda>st1. Done (u1\<lparr>ups := st1\<rparr>))))"

end
