(* ===== verification/Broadcast.thy ===== *)
theory Broadcast
  imports Dstate
begin

text \<open>
  What the drivers' broadcast guarantees (\<open>send_to_all\<close>, \<open>send_to_one\<close> of
  \<open>src/drivers/dstate.c\<close>): the calls that nest when a write fails end, a line goes to every
  connection that wants it or closes that connection, and what can go wrong when the mode is
  published from inside the loop.
\<close>

lemma andthen_Done: "andthen r f = Done y \<longleftrightarrow> (\<exists>x. r = Done x \<and> f x = Done y)"
  by (cases r) auto

lemma andthen_No_fuel: "andthen r f = No_fuel \<longleftrightarrow> r = No_fuel \<or> (\<exists>x. r = Done x \<and> f x = No_fuel)"
  by (cases r) auto

lemma andthen_Freed: "andthen r f = Freed \<longleftrightarrow> r = Freed \<or> (\<exists>x. r = Done x \<and> f x = Freed)"
  by (cases r) auto

lemmas andthen_iff = andthen_Done andthen_No_fuel andthen_Freed

section \<open>The nesting ends\<close>

text \<open>
  A nested broadcast happens only when publishing the mode changes the variable. What is left
  to happen: the mode may still turn from \<open>auto\<close> to \<open>yes\<close>, and it may be unpublished.
\<close>

definition mode_published :: "dstate \<Rightarrow> bool" where
  "mode_published st \<longleftrightarrow>
     (case state_tree_find (dtree_root st) SYNC_VAR of
        None \<Rightarrow> False
      | Some n \<Rightarrow> st_raw n = sync_text (do_synchronous st) \<or> has_flag (st_flags n) ST_FLAG_IMMUTABLE)"

definition pending :: "dstate \<Rightarrow> nat" where
  "pending st = of_bool (do_synchronous st = - 1) + of_bool (\<not> mode_published st)"

lemma pending_le: "pending st \<le> 2"
  by (simp add: pending_def)

lemma sync_text_fits [simp]: "snprintf ST_MAX_VALUE_LEN (sync_text m) = sync_text m"
  by (simp add: sync_text_def snprintf_def ST_MAX_VALUE_LEN_def)

lemma setinfo_ret_mode:
  "fst (state_setinfo (dtree_root st) SYNC_VAR (sync_text (do_synchronous st)) now) = (if mode_published st then 0 else 1)"
  by (auto simp: setinfo_ret mode_published_def set_node_ret split: option.splits)

lemma mode_published_after:
  "mode_published (st\<lparr>dtree_root := snd (state_setinfo (dtree_root st) SYNC_VAR (sync_text (do_synchronous st)) now)\<rparr>)"
  by (auto simp: mode_published_def find_setinfo put_node_def set_node_raw split: option.splits)

lemma mode_published_frame:
  "dtree_root st = dtree_root s \<Longrightarrow> do_synchronous st = do_synchronous s \<Longrightarrow> mode_published st = mode_published s"
  by (simp add: mode_published_def split: option.split)

lemma pending_frame:
  "dtree_root st = dtree_root s \<Longrightarrow> do_synchronous st = do_synchronous s \<Longrightarrow> pending st = pending s"
  using mode_published_frame [of st s] by (simp add: pending_def)

lemma do_write_frame:
  "do_write fd buf st = (r, st1) \<Longrightarrow>
     dtree_root st1 = dtree_root st \<and> do_synchronous st1 = do_synchronous st \<and> connhead st1 = connhead st
     \<and> ds_clk st1 = ds_clk st \<and> cmdhead st1 = cmdhead st \<and> ds_stale st1 = ds_stale st"
  by (auto simp: do_write_def take_write_def split: list.splits write_result.splits)

lemma upd_conn_frame [simp]:
  "dtree_root (upd_conn fd f st) = dtree_root st" "do_synchronous (upd_conn fd f st) = do_synchronous st"
  by (simp_all add: upd_conn_def)

lemma pending_note: "pending (note_failure r st) \<le> pending st"
  by (auto simp: note_failure_def pending_def)

text \<open>Publishing the mode: nothing is sent, or it is sent from a state with less to happen.\<close>

lemma publish_mode_cases:
  obtains tree where "mode_published st" and "publish_mode nested st = Done (st\<lparr>dtree_root := tree\<rparr>)"
      and "pending (st\<lparr>dtree_root := tree\<rparr>) = pending st"
    | tree where "\<not> mode_published st" and "publish_mode nested st =
        nested (setinfo_line SYNC_VAR (sync_text (do_synchronous st))) (st\<lparr>dtree_root := tree\<rparr>)"
      and "pending (st\<lparr>dtree_root := tree\<rparr>) < pending st"
proof -
  define tree where "tree = snd (state_setinfo (dtree_root st) SYNC_VAR (sync_text (do_synchronous st)) (ds_clk st))"
  have s: "state_setinfo (dtree_root st) SYNC_VAR (sync_text (do_synchronous st)) (ds_clk st)
      = (if mode_published st then 0 else 1, tree)"
    using setinfo_ret_mode [of st "ds_clk st"] unfolding tree_def by (metis prod.collapse)
  have p: "mode_published (st\<lparr>dtree_root := tree\<rparr>)"
    using mode_published_after by (simp add: tree_def)
  have id: "andthen (andthen r (\<lambda>st2. Done (i, st2))) (\<lambda>(ret, st1). Done st1) = r"
    for r :: "dstate outcome" and i :: int by (cases r) simp_all
  show ?thesis
  proof (cases "mode_published st")
    case True
    then show ?thesis using that(1) [of tree] s p by (simp add: publish_mode_def setinfo_with_def pending_def)
  next
    case False
    then show ?thesis using that(2) [of tree] s p id by (simp add: publish_mode_def setinfo_with_def pending_def)
  qed
qed

lemma publish_mode_ends:
  assumes nested: "\<And>msg s. pending s < k \<Longrightarrow> nested msg s \<noteq> No_fuel \<and> (\<forall>s'. nested msg s = Done s' \<longrightarrow> pending s' \<le> pending s)"
    and "pending st \<le> k"
  shows "publish_mode nested st \<noteq> No_fuel \<and> (\<forall>s'. publish_mode nested st = Done s' \<longrightarrow> pending s' \<le> pending st)"
proof (cases rule: publish_mode_cases [of st nested])
  case (1 tree)
  then show ?thesis by simp
next
  case (2 tree)
  let ?msg = "setinfo_line SYNC_VAR (sync_text (do_synchronous st))"
  have "pending (st\<lparr>dtree_root := tree\<rparr>) < k" using 2(3) assms(2) by simp
  from nested [OF this, of ?msg] show ?thesis
    unfolding 2(2) using 2(3) by (meson less_imp_le order_trans)
qed

text \<open>One level of the loop, for any nested broadcast that copes with what is left.\<close>

lemma send_all_loop_ends:
  assumes nested: "\<And>msg s. pending s < k \<Longrightarrow> nested msg s \<noteq> No_fuel \<and> (\<forall>s'. nested msg s = Done s' \<longrightarrow> pending s' \<le> pending s)"
    and "pending st \<le> k"
  shows "send_all_loop nested buf fds st \<noteq> No_fuel \<and>
     (\<forall>st'. send_all_loop nested buf fds st = Done st' \<longrightarrow> pending st' \<le> pending st)"
  using assms(2)
proof (induction "length fds" arbitrary: fds st rule: less_induct)
  case less
  show ?case
  proof (cases fds)
    case (Cons fd gs)
    have short: "length (filter P gs) < length fds" for P using Cons by (simp add: le_imp_less_Suc)
    show ?thesis
    proof (cases "conn_at st fd")
      case (Some conn)
      obtain r st1 where w: "do_write fd buf st = (r, st1)" by fastforce
      note fr = do_write_frame [OF w]
      have p1: "pending st1 = pending st" using fr by (intro pending_frame) simp_all
      note IH = less.hyps [OF short [of "live_fd st"]]
      let ?s = "note_failure r (upd_conn fd (\<lambda>c. c\<lparr>cn_closing := True\<rparr>) st1)"
      have ps: "pending ?s \<le> pending st"
        using pending_note [of r "upd_conn fd (\<lambda>c. c\<lparr>cn_closing := True\<rparr>) st1"] p1
          pending_frame [of "upd_conn fd (\<lambda>c. c\<lparr>cn_closing := True\<rparr>) st1" st1] by simp
      have pub: "publish_mode nested ?s \<noteq> No_fuel \<and> (\<forall>s'. publish_mode nested ?s = Done s' \<longrightarrow> pending s' \<le> pending st)"
        using publish_mode_ends [of k nested, OF nested, of ?s] ps less.prems by force
      have pub_end: "andthen (publish_mode nested ?s) (\<lambda>st2. send_all_loop nested buf (filter (live_fd st) gs) st2) \<noteq> No_fuel \<and>
          (\<forall>st'. andthen (publish_mode nested ?s) (\<lambda>st2. send_all_loop nested buf (filter (live_fd st) gs) st2) = Done st'
             \<longrightarrow> pending st' \<le> pending st)"
        using pub IH less.prems by (cases "publish_mode nested ?s") (auto dest: order_trans)
      consider "cn_nobroadcast conn" | "\<not> cn_nobroadcast conn" "r = W_full" | "\<not> cn_nobroadcast conn" "r \<noteq> W_full" by blast
      then show ?thesis
      proof cases
        case 1
        then show ?thesis using Cons Some IH [OF less.prems] by simp
      next
        case 2
        then show ?thesis using Cons Some w IH [of st1] p1 less.prems by simp
      next
        case 3
        then have "send_all_loop nested buf fds st = andthen (publish_mode nested ?s) (\<lambda>st2. send_all_loop nested buf (filter (live_fd st) gs) st2)"
          using Cons Some w by (cases r) simp_all
        then show ?thesis using pub_end by simp
      qed
    qed (simp add: Cons)
  qed simp
qed

lemma pending_drop [simp]: "pending ((drop_closing st)\<lparr>ds_errno := e\<rparr>) = pending st"
  by (rule pending_frame) (simp_all add: drop_closing_def)

lemma send_to_all_ends:
  "pending st \<le> k \<Longrightarrow> send_to_all (Suc k) msg st \<noteq> No_fuel \<and>
     (\<forall>st'. send_to_all (Suc k) msg st = Done st' \<longrightarrow> pending st' \<le> pending st)"
proof (induction k arbitrary: msg st)
  case 0
  then show ?case using send_all_loop_ends [of 0 "send_to_all 0" st] by (auto simp: andthen_iff)
next
  case (Suc k)
  have "\<And>m s. pending s < Suc k \<Longrightarrow> send_to_all (Suc k) m s \<noteq> No_fuel \<and>
      (\<forall>s'. send_to_all (Suc k) m s = Done s' \<longrightarrow> pending s' \<le> pending s)"
    using Suc.IH by (simp del: send_to_all.simps)
  from send_all_loop_ends [OF this Suc.prems, where buf = "snprintf ST_SOCK_BUF_LEN msg" and fds = "map cn_fd (connhead st)"]
  show ?case unfolding send_to_all.simps(2) [of "Suc k"] by (auto simp: andthen_iff simp del: send_to_all.simps)
qed

text \<open>
  Property C15: the mutual recursion of \<open>send_to_all\<close> and \<open>dstate_setinfo\<close> ends: whatever the
  writes answer and whatever mode the driver is in, a broadcast nests at most twice, so the
  depth of the model is never exhausted.
\<close>

theorem broadcast_ends: "broadcast msg st \<noteq> No_fuel"
  using send_to_all_ends [of st 2 msg] pending_le [of st]
  by (simp add: broadcast_def BROADCAST_DEPTH_def eval_nat_numeral del: send_to_all.simps)

section \<open>Delivery\<close>

text \<open>Two trees with the same variables, up to the times at which they were set.\<close>

definition untimed :: "st_node \<Rightarrow> st_node" where
  "untimed n = n\<lparr>st_lastset := \<lparr>tv_sec = 0, tv_nsec = 0\<rparr>\<rparr>"

definition same_vars :: "st_tree \<Rightarrow> st_tree \<Rightarrow> bool" where
  "same_vars t u \<longleftrightarrow> (\<forall>v. map_option untimed (state_tree_find t v) = map_option untimed (state_tree_find u v))"

lemma same_vars_refl [simp]: "same_vars t t"
  by (simp add: same_vars_def)

lemma same_vars_trans: "same_vars t u \<Longrightarrow> same_vars u w \<Longrightarrow> same_vars t w"
  by (simp add: same_vars_def)

lemma untimed_frame:
  "st_raw (untimed n) = st_raw n" "node_val (untimed n) = node_val n" "st_flags (untimed n) = st_flags n"
  "st_enum_list (untimed n) = st_enum_list n" "st_range_list (untimed n) = st_range_list n"
  "st_aux (untimed n) = st_aux n" "st_var (untimed n) = st_var n"
  by (simp_all add: untimed_def node_val_def split: val_ptr.split)

lemma untimed_eqD:
  "untimed n = untimed m \<Longrightarrow> st_raw n = st_raw m \<and> node_val n = node_val m \<and> st_flags n = st_flags m
     \<and> st_enum_list n = st_enum_list m \<and> st_range_list n = st_range_list m \<and> st_aux n = st_aux m \<and> st_var n = st_var m"
  by (metis untimed_frame)

lemma same_vars_getinfo: "same_vars t u \<Longrightarrow> state_getinfo t v = state_getinfo u v"
proof -
  assume "same_vars t u"
  then have "map_option untimed (state_tree_find t v) = map_option untimed (state_tree_find u v)"
    by (simp add: same_vars_def)
  then show ?thesis
    by (cases "state_tree_find t v"; cases "state_tree_find u v") (auto simp: state_getinfo_def dest: untimed_eqD)
qed

lemma untimed_lastset [simp]: "untimed (n\<lparr>st_lastset := x\<rparr>) = untimed n"
  by (simp add: untimed_def)

text \<open>Setting a variable to the value it has only renews its time.\<close>

lemma setinfo_same:
  assumes "fst (state_setinfo t v x now) = 0"
  shows "same_vars (snd (state_setinfo t v x now)) t"
proof -
  obtain n where n: "state_tree_find t v = Some n" "fst (set_node n x now) = 0"
    using assms by (auto simp: setinfo_ret split: option.splits)
  have "untimed (snd (set_node n x now)) = untimed n"
    using n(2) by (auto simp: set_node_def st_tree_node_refresh_timestamp_def Let_def split: if_splits)
  moreover have "state_tree_find t w = Some n" if "same_nocase v w" for w
    using find_nocase_cong [OF that, of t] n(1) by simp
  ultimately show ?thesis using n(1) by (auto simp: same_vars_def find_setinfo put_node_def)
qed

text \<open>What a broadcast leaves alone.\<close>

definition untouched :: "dstate \<Rightarrow> dstate \<Rightarrow> bool" where
  "untouched st s \<longleftrightarrow>
     same_vars (dtree_root s) (dtree_root st) \<and> cmdhead s = cmdhead st \<and> ds_stale s = ds_stale st
     \<and> do_synchronous s = do_synchronous st \<and> ds_clk s = ds_clk st
     \<and> status_buf s = status_buf st \<and> alarm_buf s = alarm_buf st \<and> buzzmode_buf s = buzzmode_buf st
     \<and> alarm_active s = alarm_active st \<and> alarm_legacy_status s = alarm_legacy_status st \<and> ignorelb s = ignorelb st"

lemma untouched_refl [simp]: "untouched st st"
  by (simp add: untouched_def)

lemma untouched_trans: "untouched a b \<Longrightarrow> untouched b c \<Longrightarrow> untouched a c"
  by (auto simp: untouched_def intro: same_vars_trans)

lemma untouched_pending:
  assumes "untouched st s"
  shows "pending s = pending st"
proof -
  have "map_option untimed (state_tree_find (dtree_root s) SYNC_VAR) = map_option untimed (state_tree_find (dtree_root st) SYNC_VAR)"
    and m: "do_synchronous s = do_synchronous st"
    using assms by (simp_all add: untouched_def same_vars_def)
  then have "mode_published s = mode_published st"
    by (auto simp: mode_published_def map_option_case split: option.splits dest!: untimed_eqD)
  then show ?thesis using m by (simp add: pending_def)
qed

lemma settled_publish:
  assumes "pending st = 0"
  shows "\<exists>tree. publish_mode nested (note_failure r st) = Done (st\<lparr>dtree_root := tree\<rparr>) \<and> same_vars tree (dtree_root st)"
proof -
  have p: "mode_published st" and m: "do_synchronous st \<noteq> - 1" using assms by (auto simp: pending_def split: if_splits)
  define s where "s = state_setinfo (dtree_root st) SYNC_VAR (sync_text (do_synchronous st)) (ds_clk st)"
  have "fst s = 0" using p by (simp add: s_def setinfo_ret_mode)
  moreover from this have "same_vars (snd s) (dtree_root st)" unfolding s_def by (rule setinfo_same)
  ultimately show ?thesis
    using m by (cases s) (auto simp: note_failure_def publish_mode_def setinfo_with_def s_def [symmetric])
qed

definition mark_failed :: "nat set \<Rightarrow> conn_t \<Rightarrow> conn_t" where
  "mark_failed F c = (if cn_fd c \<in> F then c\<lparr>cn_closing := True\<rparr> else c)"

definition listens :: "dstate \<Rightarrow> nat \<Rightarrow> bool" where
  "listens st fd = (case conn_at st fd of None \<Rightarrow> False | Some c \<Rightarrow> \<not> cn_nobroadcast c)"

lemma find_conn_map:
  "(\<And>c. cn_fd (f c) = cn_fd c) \<Longrightarrow> find_conn (map f cs) fd = map_option f (find_conn cs fd)"
  by (induction cs) auto

lemma mark_failed_fd [simp]: "cn_fd (mark_failed F c) = cn_fd c" "cn_nobroadcast (mark_failed F c) = cn_nobroadcast c"
  by (simp_all add: mark_failed_def)

lemma conn_at_marked:
  "connhead s = map (mark_failed F) (connhead st) \<Longrightarrow> conn_at s fd = map_option (mark_failed F) (conn_at st fd)"
  by (simp add: conn_at_def find_conn_map)

lemma marked_frame:
  assumes "connhead s = map (mark_failed F) (connhead st)"
  shows "listens s = listens st" and "live_fd s = live_fd st"
  using conn_at_marked [OF assms] by (auto simp: listens_def live_fd_def fun_eq_iff split: option.splits)

lemma mark_failed_Un: "mark_failed F (mark_failed G c) = mark_failed (F \<union> G) c"
  by (simp add: mark_failed_def)

lemma mark_failed_empty [simp]: "map (mark_failed {}) cs = cs"
  by (induction cs) (simp_all add: mark_failed_def)

lemma upd_closing: "upd_conn fd (\<lambda>c. c\<lparr>cn_closing := True\<rparr>) st = st\<lparr>connhead := map (mark_failed {fd}) (connhead st)\<rparr>"
  by (simp add: upd_conn_def mark_failed_def)

text \<open>One write, without and with failure.\<close>

lemma do_write_cases:
  assumes "do_write fd buf st = (r, st1)"
  shows "untouched st st1 \<and> connhead st1 = connhead st
     \<and> wire st1 = wire st @ (if r = W_full then [(fd, buf)] else [])
     \<and> (ds_writes st = [] \<longrightarrow> r = W_full \<and> ds_writes st1 = [])"
  using assms by (auto simp: do_write_def take_write_def untouched_def split: list.splits write_result.splits)

lemma failed_write:
  assumes "pending st = 0" and "do_write fd buf st = (r, st1)"
  shows "\<exists>s. publish_mode nested (note_failure r (upd_conn fd (\<lambda>c. c\<lparr>cn_closing := True\<rparr>) st1)) = Done s
     \<and> untouched st s \<and> connhead s = map (mark_failed {fd}) (connhead st) \<and> wire s = wire st1 \<and> ds_writes s = ds_writes st1"
proof -
  note w = do_write_cases [OF assms(2)]
  let ?u = "st1\<lparr>connhead := map (mark_failed {fd}) (connhead st1)\<rparr>"
  have u: "untouched st ?u" using w by (simp add: untouched_def)
  then have "pending ?u = 0" using assms(1) untouched_pending by simp
  from settled_publish [OF this, of nested r] obtain tree where
    "publish_mode nested (note_failure r ?u) = Done (?u\<lparr>dtree_root := tree\<rparr>)" "same_vars tree (dtree_root ?u)" by blast
  moreover have "untouched st (?u\<lparr>dtree_root := tree\<rparr>)"
    using u calculation(2) by (auto simp: untouched_def intro: same_vars_trans)
  ultimately show ?thesis using w by (auto simp: upd_closing)
qed

lemma send_all_settled:
  assumes "pending st = 0" and "distinct fds" and "\<forall>fd \<in> set fds. live_fd st fd"
  shows "\<exists>st' F. send_all_loop nested buf fds st = Done st' \<and> untouched st st' \<and> F \<subseteq> set fds
     \<and> (\<forall>fd \<in> F. listens st fd)
     \<and> connhead st' = map (mark_failed F) (connhead st)
     \<and> wire st' = wire st @ map (\<lambda>fd. (fd, buf)) (filter (\<lambda>fd. listens st fd \<and> fd \<notin> F) fds)
     \<and> (ds_writes st = [] \<longrightarrow> F = {} \<and> ds_writes st' = [])"
  using assms
proof (induction fds arbitrary: st)
  case Nil
  then show ?case by (intro exI [of _ st] exI [of _ "{}"]) simp
next
  case (Cons fd fds)
  obtain conn where c: "conn_at st fd = Some conn" using Cons.prems(3) by (auto simp: live_fd_def)
  have live: "filter (live_fd st) fds = fds" using Cons.prems(3) by (simp add: filter_id_conv)
  obtain r st1 where w: "do_write fd buf st = (r, st1)" by fastforce
  note wc = do_write_cases [OF w]
  consider (off) "cn_nobroadcast conn" | (full) "\<not> cn_nobroadcast conn" "r = W_full" | (bad) "\<not> cn_nobroadcast conn" "r \<noteq> W_full"
    by blast
  then show ?case
  proof cases
    case off
    then have "\<not> listens st fd" using c by (simp add: listens_def)
    moreover have "send_all_loop nested buf (fd # fds) st = send_all_loop nested buf fds st" using off c live by simp
    ultimately show ?thesis using Cons.IH [OF Cons.prems(1)] Cons.prems(2,3) by fastforce
  next
    case full
    have l: "listens st fd" using c full by (simp add: listens_def)
    have frame: "listens st1 = listens st" "live_fd st1 = live_fd st" using marked_frame [of st1 "{}" st] wc by simp_all
    have "send_all_loop nested buf (fd # fds) st = send_all_loop nested buf fds st1" using full c w live by simp
    moreover have "pending st1 = 0" using wc Cons.prems(1) untouched_pending by metis
    moreover note Cons.IH [of st1, unfolded frame] Cons.prems(2,3) wc l full
    ultimately show ?thesis by (auto intro: untouched_trans)
  next
    case bad
    have l: "listens st fd" using c bad by (simp add: listens_def)
    obtain s where s: "publish_mode nested (note_failure r (upd_conn fd (\<lambda>c. c\<lparr>cn_closing := True\<rparr>) st1)) = Done s"
      "untouched st s" "connhead s = map (mark_failed {fd}) (connhead st)" "wire s = wire st1" "ds_writes s = ds_writes st1"
      using failed_write [OF Cons.prems(1) w] by blast
    have frame: "listens s = listens st" "live_fd s = live_fd st" using marked_frame [OF s(3)] by simp_all
    have loop: "send_all_loop nested buf (fd # fds) st = send_all_loop nested buf fds s"
      using bad c w live s(1) by (cases r) simp_all
    have "pending s = 0" using s(2) Cons.prems(1) untouched_pending by metis
    from Cons.IH [OF this] Cons.prems(2,3) obtain st' F where
      L: "send_all_loop nested buf fds s = Done st'" "untouched s st'" "F \<subseteq> set fds" "\<forall>fd \<in> F. listens st fd"
        "connhead st' = map (mark_failed F) (connhead s)"
        "wire st' = wire s @ map (\<lambda>fd. (fd, buf)) (filter (\<lambda>fd. listens st fd \<and> fd \<notin> F) fds)"
      unfolding frame by auto
    have "filter (\<lambda>g. listens st g \<and> g \<notin> F) fds = filter (\<lambda>g. listens st g \<and> g \<notin> insert fd F) fds"
      using Cons.prems(2) by (auto intro: filter_cong)
    then show ?thesis
      using L loop s wc bad l untouched_trans [OF s(2) L(2)]
      by (intro exI [of _ st'] exI [of _ "insert fd F"]) (auto simp: mark_failed_Un)
  qed
qed

lemma find_conn_mem: "distinct (map cn_fd cs) \<Longrightarrow> c \<in> set cs \<Longrightarrow> find_conn cs (cn_fd c) = Some c"
  by (induction cs) auto

lemma find_conn_SomeD: "find_conn cs fd = Some c \<Longrightarrow> c \<in> set cs \<and> cn_fd c = fd"
  by (induction cs) (auto split: if_splits)

lemma find_conn_None: "find_conn cs fd = None \<longleftrightarrow> fd \<notin> cn_fd ` set cs"
  by (induction cs) auto

lemma live_fd_iff: "live_fd st fd \<longleftrightarrow> fd \<in> cn_fd ` set (connhead st)"
  using find_conn_None [of "connhead st" fd] by (auto simp: live_fd_def conn_at_def)

lemma kept_marked:
  "filter (\<lambda>c. \<not> cn_closing c) (map (mark_failed F) cs) = filter (\<lambda>c. \<not> cn_closing c \<and> cn_fd c \<notin> F) cs"
  by (induction cs) (auto simp: mark_failed_def)

lemma send_to_all_settled:
  assumes "pending st = 0" and "distinct (map cn_fd (connhead st))" and "msg \<noteq> []"
  shows "\<exists>st' F. send_to_all (Suc k) msg st = Done st' \<and> untouched st st' \<and> (\<forall>fd \<in> F. listens st fd)
     \<and> connhead st' = filter (\<lambda>c. \<not> cn_closing c \<and> cn_fd c \<notin> F) (connhead st)
     \<and> wire st' = wire st @ map (\<lambda>c. (cn_fd c, snprintf ST_SOCK_BUF_LEN msg))
          (filter (\<lambda>c. \<not> cn_nobroadcast c \<and> cn_fd c \<notin> F) (connhead st))
     \<and> (ds_writes st = [] \<longrightarrow> F = {} \<and> ds_writes st' = []) \<and> ds_errno st' = E_none"
proof -
  let ?buf = "snprintf ST_SOCK_BUF_LEN msg"
  have "\<forall>fd \<in> set (map cn_fd (connhead st)). live_fd st fd" by (simp add: live_fd_iff)
  from send_all_settled [OF assms(1,2) this, of "send_to_all k" ?buf] obtain s F where
    L: "send_all_loop (send_to_all k) ?buf (map cn_fd (connhead st)) st = Done s" "untouched st s"
      "\<forall>fd \<in> F. listens st fd" "connhead s = map (mark_failed F) (connhead st)"
      "wire s = wire st @ map (\<lambda>fd. (fd, ?buf)) (filter (\<lambda>fd. listens st fd \<and> fd \<notin> F) (map cn_fd (connhead st)))"
      "ds_writes st = [] \<longrightarrow> F = {} \<and> ds_writes s = []" by blast
  have "listens st (cn_fd c) \<longleftrightarrow> \<not> cn_nobroadcast c" if "c \<in> set (connhead st)" for c
    using find_conn_mem [OF assms(2) that] by (simp add: listens_def conn_at_def)
  then have "filter (\<lambda>c. listens st (cn_fd c) \<and> cn_fd c \<notin> F) (connhead st)
      = filter (\<lambda>c. \<not> cn_nobroadcast c \<and> cn_fd c \<notin> F) (connhead st)"
    by (intro filter_cong) auto
  then have wire: "map (\<lambda>fd. (fd, ?buf)) (filter (\<lambda>fd. listens st fd \<and> fd \<notin> F) (map cn_fd (connhead st)))
      = map (\<lambda>c. (cn_fd c, ?buf)) (filter (\<lambda>c. \<not> cn_nobroadcast c \<and> cn_fd c \<notin> F) (connhead st))"
    by (simp add: filter_map comp_def)
  show ?thesis
    by (intro exI [of _ "(drop_closing s)\<lparr>ds_errno := E_none\<rparr>"] exI [of _ F])
      (use L wire assms(3) in \<open>simp add: drop_closing_def kept_marked untouched_def\<close>)
qed

text \<open>
  Property C14: a broadcast in a driver whose synchronous mode is decided and published never
  touches a freed connection, and ends with an exact account: every connection that listens
  gets the whole line once, in the order of the list, or its write failed and it is gone; those
  that asked for NOBROADCAST get nothing; closed connections are dropped, nothing else changes.
\<close>

theorem broadcast_delivers:
  assumes "mode_published st" and "do_synchronous st \<noteq> - 1"
    and "distinct (map cn_fd (connhead st))" and "msg \<noteq> []"
  shows "\<exists>st' F. broadcast msg st = Done st' \<and> untouched st st' \<and> (\<forall>fd \<in> F. listens st fd)
     \<and> connhead st' = filter (\<lambda>c. \<not> cn_closing c \<and> cn_fd c \<notin> F) (connhead st)
     \<and> wire st' = wire st @ map (\<lambda>c. (cn_fd c, snprintf ST_SOCK_BUF_LEN msg))
          (filter (\<lambda>c. \<not> cn_nobroadcast c \<and> cn_fd c \<notin> F) (connhead st))
     \<and> (ds_writes st = [] \<longrightarrow> F = {} \<and> ds_writes st' = []) \<and> ds_errno st' = E_none"
proof -
  have "pending st = 0" using assms(1,2) by (simp add: pending_def)
  from send_to_all_settled [OF this assms(3,4), of 2] show ?thesis
    by (simp add: broadcast_def BROADCAST_DEPTH_def eval_nat_numeral del: send_to_all.simps)
qed

definition client_conn :: "nat \<Rightarrow> bool \<Rightarrow> bool \<Rightarrow> conn_t" where
  "client_conn fd quiet closing =
     \<lparr>cn_fd = fd, cn_ctx = pconf_init blank_ctx, cn_nobroadcast = quiet, cn_readzero = 0, cn_closing = closing\<rparr>"

definition demo_driver :: "int \<Rightarrow> conn_t list \<Rightarrow> write_result list \<Rightarrow> dstate" where
  "demo_driver mode conns ws =
     \<lparr>ds_stale = False, alarm_active = 0, alarm_status = False, ignorelb = False, alarm_legacy_status = False,
      status_buf = [], alarm_buf = [], buzzmode_buf = [], connhead = conns,
      dtree_root = snd (state_setinfo Leaf SYNC_VAR (sync_text mode) \<lparr>tv_sec = 1, tv_nsec = 0\<rparr>), cmdhead = [],
      do_synchronous = mode, ds_errno = E_none, ds_writes = ws, wire = [],
      ds_clk = \<lparr>tv_sec = 9, tv_nsec = 0\<rparr>, ds_pid = 7\<rparr>"

lemma demo_driver_mode [simp]:
  "mode_published (demo_driver m cs ws)" "do_synchronous (demo_driver m cs ws) = m"
  "connhead (demo_driver m cs ws) = cs" "ds_writes (demo_driver m cs ws) = ws" "wire (demo_driver m cs ws) = []"
  by (simp_all add: demo_driver_def mode_published_def)

theorem broadcast_delivers_witness:
  "\<exists>st'. broadcast ''DATAOK'' (demo_driver 0 [client_conn 4 False False, client_conn 5 True False, client_conn 6 False True] []) = Done st'
     \<and> wire st' = [(4, ''DATAOK''), (6, ''DATAOK'')] \<and> map cn_fd (connhead st') = [4, 5]"
proof -
  let ?st = "demo_driver 0 [client_conn 4 False False, client_conn 5 True False, client_conn 6 False True] []"
  have "distinct (map cn_fd (connhead ?st))" by (simp add: client_conn_def)
  from broadcast_delivers [OF demo_driver_mode(1) _ this, of "''DATAOK''"] show ?thesis
    by (auto simp: client_conn_def snprintf_def ST_SOCK_BUF_LEN_def)
qed

text \<open>
  Property C16: in mode \<open>auto\<close> the first write that would block turns the mode to \<open>yes\<close> and
  publishes it from inside the loop; when the connection that follows is already closing, the
  nested broadcast frees it and the outer loop goes on with it.
\<close>

theorem nested_broadcast_frees_next:
  assumes "connhead st = a # b # rest" and "distinct (map cn_fd (connhead st))"
    and "\<not> cn_nobroadcast a" and "cn_closing b"
    and "do_synchronous st = - 1" and "\<not> mode_published (st\<lparr>do_synchronous := 1\<rparr>)"
    and "ds_writes st = W_fail E_again # ws" and "msg \<noteq> []"
  shows "broadcast msg st = Freed"
proof -
  have at: "conn_at st (cn_fd a) = Some a" using assms(1) by (simp add: conn_at_def)
  define st1 where "st1 = st\<lparr>ds_writes := ws, ds_errno := E_again\<rparr>"
  define u where "u = upd_conn (cn_fd a) (\<lambda>c. c\<lparr>cn_closing := True\<rparr>) st1\<lparr>do_synchronous := 1\<rparr>"
  have w: "do_write (cn_fd a) (snprintf ST_SOCK_BUF_LEN msg) st = (W_fail E_again, st1)"
    using assms(7) by (simp add: do_write_def take_write_def st1_def)
  have n: "note_failure (W_fail E_again) (upd_conn (cn_fd a) (\<lambda>c. c\<lparr>cn_closing := True\<rparr>) st1) = u"
    using assms(5) by (simp add: note_failure_def u_def st1_def)
  have heads: "connhead u = map (mark_failed {cn_fd a}) (connhead st)" "do_synchronous u = 1"
    by (simp_all add: u_def upd_closing st1_def)
  have "mode_published u = mode_published (st\<lparr>do_synchronous := 1\<rparr>)"
    by (rule mode_published_frame) (simp_all add: u_def upd_conn_def st1_def)
  then have np: "\<not> mode_published u" using assms(6) by simp
  obtain tree where pub: "publish_mode (send_to_all 2) u =
      send_to_all 2 (setinfo_line SYNC_VAR (sync_text 1)) (u\<lparr>dtree_root := tree\<rparr>)" "pending (u\<lparr>dtree_root := tree\<rparr>) < pending u"
    by (cases rule: publish_mode_cases [of u "send_to_all 2"]) (use np heads in auto)
  have "pending u = 1" using np heads by (simp add: pending_def)
  then have p0: "pending (u\<lparr>dtree_root := tree\<rparr>) = 0" using pub(2) by simp
  have d: "distinct (map cn_fd (connhead (u\<lparr>dtree_root := tree\<rparr>)))" using assms(2) heads by (simp add: comp_def)
  obtain s F where s: "send_to_all (Suc 1) (setinfo_line SYNC_VAR (sync_text 1)) (u\<lparr>dtree_root := tree\<rparr>) = Done s"
    "connhead s = filter (\<lambda>c. \<not> cn_closing c \<and> cn_fd c \<notin> F) (connhead u)"
    using send_to_all_settled [OF p0 d, of "setinfo_line SYNC_VAR (sync_text 1)" 1] by (auto simp: setinfo_line_def)
  have "cn_fd b \<notin> cn_fd ` set (connhead s)"
    using assms(1,2,4) s(2) heads by (auto simp: mark_failed_def)
  then have gone: "conn_at s (cn_fd b) = None" by (simp add: conn_at_def find_conn_None)
  have later: "\<exists>more. filter (live_fd st) (map cn_fd (b # rest)) = cn_fd b # more"
    using assms(1) by (simp add: live_fd_iff)
  then obtain more where "filter (live_fd st) (map cn_fd (b # rest)) = cn_fd b # more" by blast
  then have "send_all_loop (send_to_all 2) (snprintf ST_SOCK_BUF_LEN msg) (map cn_fd (connhead st)) st = Freed"
    using assms(1,3) at w n pub(1) s(1) gone by (simp add: numeral_2_eq_2 del: send_to_all.simps)
  then show ?thesis using assms(8) by (simp add: broadcast_def BROADCAST_DEPTH_def numeral_3_eq_3 numeral_2_eq_2)
qed

theorem nested_broadcast_frees_next_witness:
  "broadcast ''DATAOK'' (demo_driver (- 1) [client_conn 4 False False, client_conn 5 False True] [W_fail E_again]) = Freed"
proof (rule nested_broadcast_frees_next)
  let ?st = "demo_driver (- 1) [client_conn 4 False False, client_conn 5 False True] [W_fail E_again]"
  show "connhead ?st = client_conn 4 False False # client_conn 5 False True # []" by simp
  show "distinct (map cn_fd (connhead ?st))" by (simp add: client_conn_def)
  show "\<not> mode_published (?st\<lparr>do_synchronous := 1\<rparr>)" by code_simp
qed (simp_all add: client_conn_def)

end
