(* ===== verification/DriverTree.thy ===== *)
theory DriverTree
  imports DriverStatus Broadcast
begin

text \<open>
  What the operations of a driver keep of its tree of variables. The interface
  \<open>tree_invariant\<close> names the four changes a driver makes to the tree: setting a value,
  deleting, changing an attribute, and changing the flags of a variable that is not
  immutable. Whatever they keep is kept by every function of \<open>src/drivers/dstate.c\<close> that a
  driver calls, by broadcasts, and by the commands that arrive on its socket. Two instances:
  the tree stays well formed, and a variable that is immutable keeps its value.
\<close>

section \<open>Outcomes\<close>

text \<open>A condition on the state after a call that returns.\<close>

fun holds_in :: "('a \<Rightarrow> bool) \<Rightarrow> 'a outcome \<Rightarrow> bool" where
  "holds_in Q (Done x) = Q x"
| "holds_in Q Freed = True"
| "holds_in Q No_fuel = True"

lemma holds_andthen [simp]: "holds_in Q (andthen r f) = holds_in (\<lambda>x. holds_in Q (f x)) r"
  by (cases r) auto

lemma holds_mono: "holds_in Q r \<Longrightarrow> (\<And>x. Q x \<Longrightarrow> R x) \<Longrightarrow> holds_in R r"
  by (cases r) auto

lemma holds_Done: "holds_in Q r \<Longrightarrow> r = Done x \<Longrightarrow> Q x"
  by simp

lemma holds_if: "holds_in Q a \<Longrightarrow> holds_in Q b \<Longrightarrow> holds_in Q (if c then a else b)"
  by simp

abbreviation tree_in :: "(st_tree \<Rightarrow> bool) \<Rightarrow> dstate outcome \<Rightarrow> bool" where
  "tree_in P \<equiv> holds_in (\<lambda>s. P (dtree_root s))"

abbreviation tree_in2 :: "(st_tree \<Rightarrow> bool) \<Rightarrow> (int \<times> dstate) outcome \<Rightarrow> bool" where
  "tree_in2 P \<equiv> holds_in (\<lambda>r. P (dtree_root (snd r)))"

lemma root_frame [simp]:
  "dtree_root (upd_conn fd f st) = dtree_root st" "dtree_root (sock_disconnect fd st) = dtree_root st"
  "dtree_root (note_failure r st) = dtree_root st" "dtree_root (drop_closing st) = dtree_root st"
  "dtree_root (sock_connect junk acc ok st) = dtree_root st" "dtree_root (arg_broadcast fd arg st) = dtree_root st"
  by (simp_all add: upd_conn_def sock_disconnect_def note_failure_def drop_closing_def sock_connect_def
      arg_broadcast_def Let_def split: option.split sum.split)

lemma do_write_root [simp]: "dtree_root (snd (do_write fd buf st)) = dtree_root st"
  using do_write_frame [of fd buf st] by (metis prod.collapse)

text \<open>Adding words to a status runs the callbacks, and nothing else on the state.\<close>

lemma add_one_token_frame:
  assumes "\<And>f tgt w s. ca = Some f \<Longrightarrow> F (snd (f tgt w s)) = F s" and "\<And>f tgt w s. cu = Some f \<Longrightarrow> F (snd (f tgt w s)) = F s"
  shows "F (snd (snd (add_one_token ca cu sz w st))) = F (snd st)"
proof -
  have "F (snd (run_callback ca tgt w s)) = F s" "F (snd (run_callback cu tgt w s)) = F s" for tgt s
    using assms by (auto simp: run_callback_def split: option.split)
  then show ?thesis by (simp add: add_one_token_def case_prod_beta Let_def)
qed

lemma add_tokens_frame:
  assumes "\<And>f tgt w s. ca = Some f \<Longrightarrow> F (snd (f tgt w s)) = F s" and "\<And>f tgt w s. cu = Some f \<Longrightarrow> F (snd (f tgt w s)) = F s"
  shows "F (snd (snd (add_tokens ca cu sz ret ws st))) = F (snd st)"
proof (induction ws arbitrary: ret st)
  case (Cons w ws)
  show ?case using add_one_token_frame [where F = F and ca = ca and cu = cu, of sz w st] assms by (simp add: Cons case_prod_beta)
qed simp

lemma status_set_root [simp]: "dtree_root (status_set buf st) = dtree_root st"
proof -
  have cb: "f = status_set_callback \<Longrightarrow> dtree_root (snd (f tgt w s)) = dtree_root s" for f tgt w s
    by (simp add: status_set_callback_def)
  have "dtree_root (snd (snd (str_add_unique_token (Some status_set_callback) None sz buf x))) = dtree_root (snd x)" for sz x
    using add_one_token_frame [of "Some status_set_callback" dtree_root None] add_tokens_frame [of "Some status_set_callback" dtree_root None] cb
    by (simp add: str_add_unique_token_def)
  from this [of ST_MAX_VALUE_LEN "(status_buf st, st)"] show ?thesis by (simp add: status_set_def case_prod_beta)
qed

lemma charge_status_root [simp]: "dtree_root (charge_status t st) = dtree_root st"
  by (simp add: charge_status_def Let_def)

section \<open>The interface\<close>

text \<open>A write to a node that leaves its name, its value and its flags alone.\<close>

definition attribute_write :: "(st_node \<Rightarrow> st_node) \<Rightarrow> bool" where
  "attribute_write g \<longleftrightarrow> (\<forall>n. st_var (g n) = st_var n \<and> st_raw (g n) = st_raw n \<and> st_flags (g n) = st_flags n
     \<and> (node_wf n \<longrightarrow> node_wf (g n)))"

text \<open>The handlers of a driver, which are its own code, keep it too.\<close>

definition handlers_keep :: "(st_tree \<Rightarrow> bool) \<Rightarrow> handlers \<Rightarrow> bool" where
  "handlers_keep P h \<longleftrightarrow>
     (\<forall>cmd par fd st. P (dtree_root st) \<longrightarrow> tree_in2 P (main_instcmd h cmd par fd st)) \<and>
     (\<forall>var val fd st. P (dtree_root st) \<longrightarrow> tree_in2 P (main_setvar h var val fd st)) \<and>
     (\<forall>f cmd par st. upsh_instcmd h = Some f \<longrightarrow> P (dtree_root st) \<longrightarrow> tree_in2 P (f cmd par st)) \<and>
     (\<forall>f var val st. upsh_setvar h = Some f \<longrightarrow> P (dtree_root st) \<longrightarrow> tree_in2 P (f var val st))"

lemma handlers_keepD:
  assumes "handlers_keep P h" and "P (dtree_root st)"
  shows "tree_in2 P (main_instcmd h cmd par fd st)" "tree_in2 P (main_setvar h var val fd st)"
    "upsh_instcmd h = Some f \<Longrightarrow> tree_in2 P (f cmd par st)" "upsh_setvar h = Some g \<Longrightarrow> tree_in2 P (g var val st)"
  using assms unfolding handlers_keep_def by blast+

locale tree_invariant =
  fixes P :: "st_tree \<Rightarrow> bool"
  assumes keep_setinfo: "P t \<Longrightarrow> P (snd (state_setinfo t v y now))"
    and keep_delinfo: "P t \<Longrightarrow> P (snd (state_delinfo t v))"
    and keep_attribute: "attribute_write g \<Longrightarrow> P t \<Longrightarrow> P (st_tree_modify t v g)"
    and keep_flags: "\<not> immutable_at t v \<Longrightarrow> P t \<Longrightarrow> P (st_tree_modify t v (\<lambda>n. n\<lparr>st_flags := fl\<rparr>))"
begin

lemma setinfo_with_kept:
  assumes "\<And>msg s. P (dtree_root s) \<Longrightarrow> tree_in P (bcast msg s)" and "P (dtree_root st)"
  shows "tree_in2 P (setinfo_with bcast var msg st)"
  using assms(2) keep_setinfo [of "dtree_root st" var "snprintf ST_MAX_VALUE_LEN msg" "ds_clk st"]
  by (auto simp: setinfo_with_def Let_def split: prod.split intro!: assms(1))

lemma publish_mode_kept:
  assumes "\<And>msg s. P (dtree_root s) \<Longrightarrow> tree_in P (bcast msg s)" and "P (dtree_root st)"
  shows "tree_in P (publish_mode bcast st)"
  using setinfo_with_kept [OF assms] by (auto simp: publish_mode_def case_prod_beta)

lemma send_all_loop_kept:
  assumes "\<And>msg s. P (dtree_root s) \<Longrightarrow> tree_in P (nested msg s)"
  shows "P (dtree_root st) \<Longrightarrow> tree_in P (send_all_loop nested buf fds st)"
proof (induction "length fds" arbitrary: fds st rule: less_induct)
  case less
  show ?case
  proof (cases fds)
    case (Cons fd gs)
    have IH: "P (dtree_root s) \<Longrightarrow> tree_in P (send_all_loop nested buf (filter (live_fd st) gs) s)" for s
      using less.hyps [of "filter (live_fd st) gs" s] Cons by (simp add: le_imp_less_Suc)
    obtain r st1 where w: "do_write fd buf st = (r, st1)" by fastforce
    then have tree: "P (dtree_root st1)" using do_write_root [of fd buf st] less.prems by simp
    have "tree_in P (publish_mode nested (note_failure r (upd_conn fd (\<lambda>c. c\<lparr>cn_closing := True\<rparr>) st1)))"
      by (rule publish_mode_kept [OF assms]) (simp_all add: tree)
    then have "holds_in (\<lambda>s. tree_in P (send_all_loop nested buf (filter (live_fd st) gs) s))
        (publish_mode nested (note_failure r (upd_conn fd (\<lambda>c. c\<lparr>cn_closing := True\<rparr>) st1)))"
      by (rule holds_mono) (rule IH)
    then show ?thesis using Cons w IH [OF less.prems] IH [OF tree]
      by (cases r) (auto simp: Let_def split: option.split)
  qed (use less.prems in simp)
qed

lemma send_to_all_kept: "P (dtree_root st) \<Longrightarrow> tree_in P (send_to_all k msg st)"
proof (induction k arbitrary: msg st)
  case (Suc k)
  show ?case using send_all_loop_kept [OF Suc.IH Suc.prems] Suc.prems by simp
qed simp

lemma broadcast_kept: "P (dtree_root st) \<Longrightarrow> tree_in P (broadcast msg st)"
  unfolding broadcast_def by (rule send_to_all_kept)

lemma dstate_setinfo_kept: "P (dtree_root st) \<Longrightarrow> tree_in2 P (dstate_setinfo var msg st)"
  unfolding dstate_setinfo_def by (rule setinfo_with_kept [OF broadcast_kept])

text \<open>The functions that change the tree and broadcast the change.\<close>

lemma change_tree_kept:
  assumes "P (dtree_root st)" and "P (snd (f (dtree_root st)))"
  shows "tree_in2 P (change_tree f line st)"
  using assms by (auto simp: change_tree_def Let_def split: prod.split intro!: broadcast_kept)

lemma change_cmds_kept: "P (dtree_root st) \<Longrightarrow> tree_in2 P (change_cmds f line st)"
  by (auto simp: change_cmds_def Let_def split: prod.split intro!: broadcast_kept)

lemma tree_ops_kept:
  assumes "P t"
  shows "P (snd (state_delinfo_olderthan t v cutoff))" "P (snd (state_addenum t v x now))"
    "P (snd (state_delenum t v x now))" "P (snd (state_addrange t v lo hi now))" "P (snd (state_delrange t v lo hi now))"
  using assms keep_delinfo [OF assms, of v]
  by (auto simp: delinfo_olderthan_alt state_addenum_def state_delenum_def state_addrange_def state_delrange_def
      st_tree_node_refresh_timestamp_def attribute_write_def intro!: keep_attribute split: option.split prod.split)

lemma dstate_setflags_kept: "P (dtree_root st) \<Longrightarrow> tree_in P (dstate_setflags var fl st)"
  by (auto simp: dstate_setflags_def immutable_at_def intro!: broadcast_kept keep_flags split: option.split)

lemma dstate_addflags_kept: "P (dtree_root st) \<Longrightarrow> tree_in P (dstate_addflags var fl st)"
  and dstate_delflags_kept: "P (dtree_root st) \<Longrightarrow> tree_in P (dstate_delflags var fl st)"
  by (auto simp: dstate_addflags_def dstate_delflags_def Let_def intro!: dstate_setflags_kept)

lemma dstate_addrange_kept:
  assumes "P (dtree_root st)"
  shows "tree_in2 P (dstate_addrange var lo hi st)"
proof -
  have "holds_in (\<lambda>s. tree_in P (dstate_addflags var ST_FLAG_NUMBER s)) (broadcast msg s)" if "P (dtree_root s)" for msg s
    using broadcast_kept [OF that] by (rule holds_mono) (rule dstate_addflags_kept)
  then show ?thesis using tree_ops_kept(4) [OF assms, of var lo hi "ds_clk st"]
    by (auto simp: dstate_addrange_def Let_def split: prod.split)
qed

lemma dstate_setaux_kept: "P (dtree_root st) \<Longrightarrow> tree_in P (dstate_setaux var aux st)"
  by (auto simp: dstate_setaux_def attribute_write_def intro!: broadcast_kept keep_attribute split: option.split)

lemma dstate_change_kept:
  assumes "P (dtree_root st)"
  shows "tree_in2 P (dstate_addenum var msg st)" "tree_in2 P (dstate_delinfo var st)"
    "tree_in2 P (dstate_delinfo_olderthan var cutoff st)" "tree_in2 P (dstate_delenum var msg st)"
    "tree_in2 P (dstate_delrange var lo hi st)" "tree_in2 P (dstate_addcmd msg st)" "tree_in2 P (dstate_delcmd msg st)"
    "tree_in P (dstate_dataok st)" "tree_in P (dstate_datastale st)"
  using assms
  by (auto simp: dstate_addenum_def dstate_delinfo_def dstate_delinfo_olderthan_def dstate_delenum_def
      dstate_delrange_def dstate_addcmd_def dstate_delcmd_def dstate_dataok_def dstate_datastale_def Let_def
      intro!: change_tree_kept change_cmds_kept broadcast_kept tree_ops_kept keep_delinfo)


text \<open>The status, the buzzwords, the alarms, the number of phases.\<close>

lemma dstate_commit_kept:
  assumes "P (dtree_root st)"
  shows "tree_in P (status_commit charge st)" "tree_in P (buzzmode_commit st)" "tree_in P (alarm_commit st)"
    "tree_in P (device_alarm_commit k st)"
    "holds_in (\<lambda>r. P (dtree_root (snd (snd (snd r))))) (dstate_detect_phasecount prefix may i n re st)"
  using assms dstate_setinfo_kept dstate_change_kept(2)
  by (auto simp: status_commit_def buzzmode_commit_def alarm_commit_def device_alarm_commit_def
      dstate_detect_phasecount_def Let_def case_prod_beta split: option.split)

text \<open>The socket: answers to one connection, dumps, commands, reads, polls.\<close>

lemma send_to_one_kept:
  assumes "P (dtree_root st)"
  shows "tree_in2 P (send_to_one fd msg st)"
  using assms
  by (auto simp: send_to_one_def Let_def split: option.split prod.splits write_result.splits
      dest!: do_write_frame intro!: publish_mode_kept broadcast_kept)

lemma sent_kept:
  assumes "P (dtree_root st)" and "\<And>s. P (dtree_root s) \<Longrightarrow> tree_in2 P (cont s)"
  shows "holds_in (\<lambda>r. tree_in2 P (after_send r cont)) (send_to_one fd msg st)"
    and "holds_in (\<lambda>r. tree_in2 P (sent_or r (\<lambda>_. cont))) (send_to_one fd msg st)"
  using send_to_one_kept [OF assms(1), of fd msg] assms(2)
  by (auto elim!: holds_mono simp: after_send_def sent_or_def finish_def split: prod.split)

lemma finish_kept: "P (dtree_root (snd r)) \<Longrightarrow> tree_in2 P (sent_or r finish)"
  by (cases r) (simp add: sent_or_def finish_def)

lemma sent_finish: "P (dtree_root st) \<Longrightarrow> holds_in (\<lambda>r. tree_in2 P (sent_or r finish)) (send_to_one fd msg st)"
  by (erule holds_mono [OF send_to_one_kept]) (rule finish_kept)

lemma closed_guard_kept: "P (dtree_root st) \<Longrightarrow> tree_in2 P body \<Longrightarrow> tree_in2 P (closed_guard fd st body)"
  by (simp add: closed_guard_def split: option.split)

lemma send_each_kept: "P (dtree_root st) \<Longrightarrow> tree_in2 P (send_each fd ls st)"
  by (induction ls arbitrary: st) (simp_all add: sent_kept)

lemma dump_node_kept: "P (dtree_root st) \<Longrightarrow> tree_in2 P (st_tree_dump_conn_one_node n fd st)"
  by (simp add: st_tree_dump_conn_one_node_def closed_guard_kept send_each_kept)

lemma later_kept:
  assumes "\<And>s. P (dtree_root s) \<Longrightarrow> tree_in2 P (cont s)"
  shows "P (dtree_root (snd r)) \<Longrightarrow> tree_in2 P (after_send r cont)"
    and "P (dtree_root (snd r)) \<Longrightarrow> tree_in2 P (sent_or r (\<lambda>_. cont))"
  using assms by (auto simp: after_send_def sent_or_def split: prod.split)

lemma tree_dump_kept: "P (dtree_root st) \<Longrightarrow> tree_in2 P (st_tree_dump_conn t fd st)"
proof (induction t arbitrary: st)
  case (Node l n r)
  have right: "tree_in2 P (if r = Leaf then Done (1, s)
      else andthen (st_tree_dump_conn r fd s) (\<lambda>(ret, st3). if ds_errno st3 = E_notconn then Done (- 2, st3) else Done (ret, st3)))"
    if "P (dtree_root s)" for s
    using Node.IH(2) [OF that] that by (auto elim!: holds_mono simp: case_prod_beta)
  have node: "holds_in (\<lambda>r2. tree_in2 P (after_send r2 (\<lambda>st2. if r = Leaf then Done (1, st2)
      else andthen (st_tree_dump_conn r fd st2) (\<lambda>(ret, st3). if ds_errno st3 = E_notconn then Done (- 2, st3) else Done (ret, st3)))))
      (st_tree_dump_conn_one_node n fd s)" if "P (dtree_root s)" for s
    using dump_node_kept [OF that] by (rule holds_mono) (rule later_kept(1) [OF right])
  show ?case
  proof (cases "l = Leaf")
    case True
    then show ?thesis using node Node.prems by (auto intro!: closed_guard_kept)
  next
    case False
    then show ?thesis
      using node Node.prems by (auto intro!: closed_guard_kept holds_mono [OF Node.IH(1) [OF Node.prems]] later_kept(1))
  qed
qed (simp add: closed_guard_kept)

lemma cmd_dump_kept: "P (dtree_root st) \<Longrightarrow> tree_in2 P (cmd_dump_conn fd st)"
  by (simp add: cmd_dump_conn_def closed_guard_kept send_each_kept)

lemma send_tracking_kept: "P (dtree_root st) \<Longrightarrow> tree_in2 P (send_tracking fd c v st)"
  by (simp add: send_tracking_def closed_guard_kept send_to_one_kept)

lemma report_kept: "P (dtree_root (snd r)) \<Longrightarrow> tree_in2 P (report_result fd cid r)"
  by (auto simp: report_result_def case_prod_beta split: option.split
      intro!: holds_mono [OF send_tracking_kept] finish_kept)

lemma dump_body_kept: "P (dtree_root st) \<Longrightarrow> tree_in2 P (dump_body fd arg st)"
  by (auto simp: dump_body_def Let_def split: option.split
      intro!: holds_mono [OF tree_dump_kept] holds_mono [OF cmd_dump_kept] holds_mono [OF dump_node_kept] later_kept(2))

lemma arg_dump_kept:
  assumes "P (dtree_root st)"
  shows "tree_in2 P (arg_dump fd arg st)"
proof -
  let ?done = "\<lambda>s. andthen (send_to_one fd (''DUMPDONE'' @ [CHR 10]) s) (\<lambda>r. sent_or r finish)"
  let ?ok = "\<lambda>s. if \<not> ds_stale s then andthen (send_to_one fd (''DATAOK'' @ [CHR 10]) s) (\<lambda>r. sent_or r (\<lambda>_ t. ?done t)) else ?done s"
  let ?dump = "\<lambda>s. andthen (dump_body fd arg s) (\<lambda>(ret, t). if ret < 0 then Done (ret, t) else ?ok t)"
  have finished: "tree_in2 P (?done s)" if "P (dtree_root s)" for s using that sent_finish [OF that] by simp
  have ok: "tree_in2 P (?ok s)" if "P (dtree_root s)" for s
    using sent_kept(2) [OF that finished] finished [OF that] by simp
  have dump: "tree_in2 P (?dump s)" if "P (dtree_root s)" for s
    unfolding holds_andthen
  proof (rule holds_mono [OF dump_body_kept [OF that]])
    fix x :: "int \<times> dstate" assume x: "P (dtree_root (snd x))"
    show "tree_in2 P (case x of (ret, t) \<Rightarrow> if ret < 0 then Done (ret, t) else ?ok t)"
    proof (cases "fst x < 0")
      case False
      then have "(case x of (ret, t) \<Rightarrow> if ret < 0 then Done (ret, t) else ?ok t) = ?ok (snd x)"
        by (simp add: case_prod_beta)
      then show ?thesis using ok [OF x] by (simp only:)
    qed (use x in \<open>simp add: case_prod_beta\<close>)
  qed
  have "arg_dump fd arg st = (if ds_stale st
      then andthen (send_to_one fd (''DATASTALE'' @ [CHR 10]) st) (\<lambda>r. sent_or r (\<lambda>_ s. ?dump s)) else ?dump st)"
    by (simp only: arg_dump_def Let_def)
  moreover have "tree_in2 P (andthen (send_to_one fd (''DATASTALE'' @ [CHR 10]) st) (\<lambda>r. sent_or r (\<lambda>_ s. ?dump s)))"
    unfolding holds_andthen [of _ "send_to_one fd (''DATASTALE'' @ [CHR 10]) st"] by (rule sent_kept(2) [OF assms dump])
  ultimately show ?thesis using dump [OF assms] by (cases "ds_stale st") (simp_all only: if_True if_False simp_thms)
qed

lemma simple_args_kept:
  assumes "P (dtree_root st)"
  shows "tree_in2 P (arg_logout fd st)" "tree_in2 P (arg_getpid fd st)" "tree_in2 P (arg_ping fd st)"
  using assms sent_finish [OF assms]
  by (auto simp: arg_logout_def arg_getpid_def arg_ping_def case_prod_beta
      intro!: holds_mono [OF send_to_one_kept])

lemma sock_arg_kept:
  assumes "handlers_keep P h" and "P (dtree_root st)"
  shows "tree_in2 P (sock_arg h fd arg st)"
proof -
  note h = handlers_keepD [OF assms(1)]
  have instcmd: "tree_in2 P (arg_instcmd h fd arg st)"
    using assms(2)
    by (auto simp: arg_instcmd_def case_prod_beta split: option.split
        intro!: report_kept holds_mono [OF h(1) [OF assms(2)]] holds_mono [OF h(3)])
  have set: "tree_in2 P (arg_set h fd arg st)"
    using assms(2)
    by (auto simp: arg_set_def case_prod_beta Let_def split: option.split
        intro!: report_kept holds_mono [OF h(2) [OF assms(2)]] holds_mono [OF h(4)])
  show ?thesis
    unfolding sock_arg_def Let_def
    by (intro closed_guard_kept holds_if assms(2) instcmd set simple_args_kept arg_dump_kept) (simp_all add: assms(2))
qed

lemma read_loop_kept:
  assumes "handlers_keep P h"
  shows "P (dtree_root st) \<Longrightarrow> tree_in2 P (read_loop h fd cs st)"
proof (induction cs arbitrary: st)
  case (Cons c cs)
  then show ?case
    by (auto simp: Let_def case_prod_beta split: option.split prod.split
        intro!: holds_mono [OF sock_arg_kept [OF assms]])
qed simp

lemma sock_read_kept:
  assumes "handlers_keep P h" and "P (dtree_root st)"
  shows "tree_in2 P (sock_read h nd res fd st)"
  using assms by (auto simp: sock_read_def Let_def split: option.split conn_read.split intro!: read_loop_kept)

lemma poll_loop_kept:
  assumes "handlers_keep P h"
  shows "P (dtree_root st) \<Longrightarrow> tree_in P (poll_loop h ready fds st)"
proof (induction "length fds" arbitrary: fds st rule: less_induct)
  case less
  show ?case
  proof (cases fds)
    case (Cons fd gs)
    have "P (dtree_root s) \<Longrightarrow> tree_in P (poll_loop h ready (filter (live_fd st) gs) s)" for s
      using less.hyps [of "filter (live_fd st) gs" s] Cons by (simp add: le_imp_less_Suc)
    then show ?thesis using Cons less.prems
      by (auto simp: Let_def case_prod_beta split: option.split
          intro!: holds_mono [OF sock_read_kept [OF assms]])
  qed (use less.prems in simp)
qed

lemma dstate_poll_fds_kept:
  assumes "handlers_keep P h" and "P (dtree_root st)"
  shows "tree_in2 P (dstate_poll_fds h timeout now sel acc ready extra st)"
  using assms by (auto simp: dstate_poll_fds_def Let_def split: select_result.split option.split
      intro!: holds_mono [OF poll_loop_kept])

end

section \<open>Well-formedness, and variables that are immutable\<close>

lemma attribute_modify_wf: "attribute_write g \<Longrightarrow> st_tree_wf t \<Longrightarrow> st_tree_wf (st_tree_modify t v g)"
  by (intro modify_wf) (simp_all add: attribute_write_def)

lemma flags_modify_wf: "st_tree_wf t \<Longrightarrow> st_tree_wf (st_tree_modify t v (\<lambda>n. n\<lparr>st_flags := fl\<rparr>))"
  by (intro modify_wf) simp_all

interpretation formed: tree_invariant st_tree_wf
  by unfold_locales (simp_all add: setinfo_tree_wf delinfo_tree_wf attribute_modify_wf flags_modify_wf)

text \<open>A variable that is immutable and whose value is \<open>x\<close>.\<close>

definition holds_immutable :: "st_tree \<Rightarrow> cstring \<Rightarrow> cstring \<Rightarrow> bool" where
  "holds_immutable t w x \<longleftrightarrow>
     (\<exists>n. state_tree_find t w = Some n \<and> has_flag (st_flags n) ST_FLAG_IMMUTABLE \<and> st_raw n = x)"

lemma immutable_setinfo_kept: "holds_immutable t w x \<Longrightarrow> holds_immutable (snd (state_setinfo t v y now)) w x"
  using find_nocase_cong [of v w t] by (auto simp: holds_immutable_def find_setinfo put_node_def set_node_raw)

lemma immutable_delinfo_kept: "st_tree_wf t \<Longrightarrow> holds_immutable t w x \<Longrightarrow> holds_immutable (snd (state_delinfo t v)) w x"
  using find_nocase_cong [of v w t] by (auto simp: holds_immutable_def st_tree_wf_def tree_store.find_del)

lemma immutable_attribute_kept: "attribute_write g \<Longrightarrow> holds_immutable t w x \<Longrightarrow> holds_immutable (st_tree_modify t v g) w x"
  using find_nocase_cong [of v w t] by (auto simp: holds_immutable_def attribute_write_def find_modify st_key_def)

lemma immutable_flags_kept:
  "\<not> immutable_at t v \<Longrightarrow> holds_immutable t w x \<Longrightarrow> holds_immutable (st_tree_modify t v (\<lambda>n. n\<lparr>st_flags := fl\<rparr>)) w x"
  using find_nocase_cong [of v w t] by (auto simp: holds_immutable_def immutable_at_def find_modify st_key_def)

interpretation overriding: tree_invariant "\<lambda>t. st_tree_wf t \<and> holds_immutable t w x" for w x
  by unfold_locales
    (simp_all add: formed.keep_setinfo formed.keep_delinfo formed.keep_attribute formed.keep_flags
      immutable_setinfo_kept immutable_delinfo_kept immutable_attribute_kept immutable_flags_kept)

lemma broadcast_wf: "st_tree_wf (dtree_root st) \<Longrightarrow> broadcast msg st = Done s \<Longrightarrow> st_tree_wf (dtree_root s)"
  by (rule holds_Done [OF formed.broadcast_kept])

section \<open>What a driver does\<close>

text \<open>
  One call of a driver into \<open>dstate.c\<close>: every function that changes variables, flags,
  enumerations, ranges, auxiliary values, commands or the state of the data, the commits of a
  pass, and, in one clause, all that leaves the variables alone (the words gathered for the
  next commit, the clock, the outcomes of the next writes, the connections).
\<close>

inductive driver_call :: "dstate \<Rightarrow> dstate \<Rightarrow> bool" where
  call_setinfo: "dstate_setinfo v y s = Done (ret, t) \<Longrightarrow> driver_call s t"
| call_addenum: "dstate_addenum v y s = Done (ret, t) \<Longrightarrow> driver_call s t"
| call_addrange: "dstate_addrange v lo hi s = Done (ret, t) \<Longrightarrow> driver_call s t"
| call_setflags: "dstate_setflags v fl s = Done t \<Longrightarrow> driver_call s t"
| call_addflags: "dstate_addflags v fl s = Done t \<Longrightarrow> driver_call s t"
| call_delflags: "dstate_delflags v fl s = Done t \<Longrightarrow> driver_call s t"
| call_setaux: "dstate_setaux v a s = Done t \<Longrightarrow> driver_call s t"
| call_delinfo: "dstate_delinfo v s = Done (ret, t) \<Longrightarrow> driver_call s t"
| call_delinfo_olderthan: "dstate_delinfo_olderthan v cutoff s = Done (ret, t) \<Longrightarrow> driver_call s t"
| call_delenum: "dstate_delenum v y s = Done (ret, t) \<Longrightarrow> driver_call s t"
| call_delrange: "dstate_delrange v lo hi s = Done (ret, t) \<Longrightarrow> driver_call s t"
| call_addcmd: "dstate_addcmd c s = Done (ret, t) \<Longrightarrow> driver_call s t"
| call_delcmd: "dstate_delcmd c s = Done (ret, t) \<Longrightarrow> driver_call s t"
| call_dataok: "dstate_dataok s = Done t \<Longrightarrow> driver_call s t"
| call_datastale: "dstate_datastale s = Done t \<Longrightarrow> driver_call s t"
| call_status: "status_commit charge s = Done t \<Longrightarrow> driver_call s t"
| call_buzzmode: "buzzmode_commit s = Done t \<Longrightarrow> driver_call s t"
| call_alarm: "alarm_commit s = Done t \<Longrightarrow> driver_call s t"
| call_device_alarm: "device_alarm_commit k s = Done t \<Longrightarrow> driver_call s t"
| call_phases: "dstate_detect_phasecount prefix may i n re s = Done (ret, i1, n1, t) \<Longrightarrow> driver_call s t"
| call_other: "dtree_root t = dtree_root s \<Longrightarrow> driver_call s t"

text \<open>The handlers of a driver use the same calls; its main loop also polls the socket.\<close>

definition handlers_call :: "handlers \<Rightarrow> bool" where
  "handlers_call h \<longleftrightarrow>
     (\<forall>cmd par fd st. holds_in (\<lambda>r. driver_call\<^sup>*\<^sup>* st (snd r)) (main_instcmd h cmd par fd st)) \<and>
     (\<forall>var val fd st. holds_in (\<lambda>r. driver_call\<^sup>*\<^sup>* st (snd r)) (main_setvar h var val fd st)) \<and>
     (\<forall>f cmd par st. upsh_instcmd h = Some f \<longrightarrow> holds_in (\<lambda>r. driver_call\<^sup>*\<^sup>* st (snd r)) (f cmd par st)) \<and>
     (\<forall>f var val st. upsh_setvar h = Some f \<longrightarrow> holds_in (\<lambda>r. driver_call\<^sup>*\<^sup>* st (snd r)) (f var val st))"

inductive driver_step :: "handlers \<Rightarrow> dstate \<Rightarrow> dstate \<Rightarrow> bool" for h where
  step_call: "driver_call s t \<Longrightarrow> driver_step h s t"
| step_poll: "dstate_poll_fds h timeout now sel acc ready extra s = Done (ret, t) \<Longrightarrow> driver_step h s t"

context tree_invariant
begin

lemma driver_call_keeps:
  assumes "driver_call s t" and "P (dtree_root s)"
  shows "P (dtree_root t)"
  using assms(1)
proof cases
  case (call_addrange v lo hi ret)
  then show ?thesis using holds_Done [OF dstate_addrange_kept [OF assms(2)]] by force
next
  case (call_phases prefix may i n re ret i1 n1)
  then show ?thesis using holds_Done [OF dstate_commit_kept(5) [OF assms(2)]] by force
qed (use assms(2) in \<open>force dest: holds_Done [OF dstate_setinfo_kept] holds_Done [OF dstate_setflags_kept]
      holds_Done [OF dstate_addflags_kept] holds_Done [OF dstate_delflags_kept] holds_Done [OF dstate_setaux_kept]
      holds_Done [OF dstate_change_kept(1)] holds_Done [OF dstate_change_kept(2)] holds_Done [OF dstate_change_kept(3)]
      holds_Done [OF dstate_change_kept(4)] holds_Done [OF dstate_change_kept(5)] holds_Done [OF dstate_change_kept(6)]
      holds_Done [OF dstate_change_kept(7)] holds_Done [OF dstate_change_kept(8)] holds_Done [OF dstate_change_kept(9)]
      holds_Done [OF dstate_commit_kept(1)] holds_Done [OF dstate_commit_kept(2)]
      holds_Done [OF dstate_commit_kept(3)] holds_Done [OF dstate_commit_kept(4)]\<close>)+

lemma driver_calls_keep: "driver_call\<^sup>*\<^sup>* s t \<Longrightarrow> P (dtree_root s) \<Longrightarrow> P (dtree_root t)"
  by (induction rule: rtranclp_induct) (auto intro: driver_call_keeps)

lemma handlers_call_keep: "handlers_call h \<Longrightarrow> handlers_keep P h"
  unfolding handlers_call_def handlers_keep_def by (blast intro: holds_mono driver_calls_keep)

lemma driver_steps_keep:
  assumes "handlers_call h"
  shows "(driver_step h)\<^sup>*\<^sup>* s t \<Longrightarrow> P (dtree_root s) \<Longrightarrow> P (dtree_root t)"
proof (induction rule: rtranclp_induct)
  case (step t u)
  from step.hyps(2) show ?case
  proof cases
    case (step_poll timeout now sel acc ready extra ret)
    show ?thesis
      using holds_Done [OF dstate_poll_fds_kept [OF handlers_call_keep [OF assms] step.IH [OF step.prems]] step_poll] by simp
  qed (use step driver_call_keeps in blast)
qed

end

text \<open>
  Property C6: a variable that the administrator overrides (its flag is immutable) keeps its
  value and stays immutable, and what clients read of it stays the same, through anything the
  driver does afterwards: setting and deleting variables, also by age, changing enumerations,
  ranges, auxiliary values and flags, the commits of its passes, and the commands that arrive
  on its socket and are carried out by its handlers, in whatever order, with whatever names and
  values, and with any outcome of the writes. Only the end of the driver frees the variable.
\<close>

theorem immutable_survives_driver:
  assumes "(driver_step h)\<^sup>*\<^sup>* s t" and "handlers_call h" and "st_tree_wf (dtree_root s)"
    and "state_tree_find (dtree_root s) w = Some n" and "has_flag (st_flags n) ST_FLAG_IMMUTABLE"
  shows "\<exists>m. state_tree_find (dtree_root t) w = Some m \<and> st_raw m = st_raw n
    \<and> has_flag (st_flags m) ST_FLAG_IMMUTABLE \<and> dstate_getinfo t w = dstate_getinfo s w"
proof -
  have "holds_immutable (dtree_root s) w (st_raw n)" using assms(4,5) by (simp add: holds_immutable_def)
  then have "st_tree_wf (dtree_root t) \<and> holds_immutable (dtree_root t) w (st_raw n)"
    using overriding.driver_steps_keep [OF assms(2,1)] assms(3) by blast
  then obtain m where m: "state_tree_find (dtree_root t) w = Some m" "has_flag (st_flags m) ST_FLAG_IMMUTABLE"
      "st_raw m = st_raw n" "node_wf m"
    using find_wf by (auto simp: holds_immutable_def)
  have "node_wf n" using find_wf [OF assms(3,4)] .
  then show ?thesis using m assms(4) by (simp add: dstate_getinfo_def state_getinfo_def node_wf_def)
qed

text \<open>
  A driver with an overridden \<open>ups.id\<close> and one connection, whose handler sets what it is told:
  it tries to lift the mark, deletes the variable under another spelling, and is told to set it.
\<close>

definition fixed_tree :: st_tree where
  "fixed_tree = Node Leaf ((new_node ''ups.id'' ''a'' (clock 1))\<lparr>st_flags := ST_FLAG_IMMUTABLE\<rparr>) Leaf"

definition fixed_driver :: dstate where
  "fixed_driver = (demo_driver 0 [client_conn 7 False False] [])\<lparr>dtree_root := fixed_tree\<rparr>"

definition obeying :: handlers where
  "obeying = \<lparr>main_instcmd = \<lambda>cmd par fd st. Done (STAT_INSTCMD_UNKNOWN, st), upsh_instcmd = None,
     main_setvar = \<lambda>var val fd st. Done (STAT_SET_UNKNOWN, st), upsh_setvar = Some (\<lambda>var val st. dstate_setinfo var val st)\<rparr>"


lemma obeying_calls: "handlers_call obeying"
proof -
  have "driver_call\<^sup>*\<^sup>* st (snd r)" if "dstate_setinfo var val st = Done r" for var val st r
    using call_setinfo [of var val st "fst r" "snd r"] that by simp
  then have "holds_in (\<lambda>r. driver_call\<^sup>*\<^sup>* st (snd r)) (dstate_setinfo var val st)" for var val st
    by (cases "dstate_setinfo var val st") simp_all
  then show ?thesis by (simp add: handlers_call_def obeying_def)
qed

definition attack :: "(int \<times> dstate) outcome" where
  "attack =
     andthen (dstate_delflags ''UPS.id'' ST_FLAG_IMMUTABLE fixed_driver) (\<lambda>s.
     andthen (dstate_delinfo ''ups.ID'' s) (\<lambda>(ret, s1).
     dstate_poll_fds obeying (9, 0) (8, 0) Sel_ready None (\<lambda>fd. Some (True, Got (''SET ups.id b'' @ [CHR 10]))) False s1))"

fun returns :: "'a outcome \<Rightarrow> bool" where
  "returns (Done x) = True"
| "returns Freed = False"
| "returns No_fuel = False"

theorem immutable_survives_driver_witness:
  "\<exists>ret t. attack = Done (ret, t) \<and> (\<exists>m. state_tree_find (dtree_root t) ''ups.id'' = Some m \<and> st_raw m = ''a''
     \<and> has_flag (st_flags m) ST_FLAG_IMMUTABLE)"
proof -
  have "returns attack" by code_simp
  then obtain ret t where a: "attack = Done (ret, t)" by (cases attack) auto
  then obtain s ret1 s1 where "dstate_delflags ''UPS.id'' ST_FLAG_IMMUTABLE fixed_driver = Done s" "dstate_delinfo ''ups.ID'' s = Done (ret1, s1)"
      "dstate_poll_fds obeying (9, 0) (8, 0) Sel_ready None (\<lambda>fd. Some (True, Got (''SET ups.id b'' @ [CHR 10]))) False s1 = Done (ret, t)"
    by (auto simp: attack_def andthen_iff)
  then have "driver_step obeying fixed_driver s" "driver_step obeying s s1" "driver_step obeying s1 t"
    by (auto intro: driver_step.intros call_delflags call_delinfo)
  then have steps: "(driver_step obeying)\<^sup>*\<^sup>* fixed_driver t" by (meson r_into_rtranclp rtranclp_trans)
  have wf: "st_tree_wf (dtree_root fixed_driver)" by (simp add: fixed_driver_def fixed_tree_def st_tree_wf_def new_node_wf)
  let ?n = "(new_node ''ups.id'' ''a'' (clock 1))\<lparr>st_flags := ST_FLAG_IMMUTABLE\<rparr>"
  have find: "state_tree_find (dtree_root fixed_driver) ''ups.id'' = Some ?n" "has_flag (st_flags ?n) ST_FLAG_IMMUTABLE"
    by (simp add: fixed_driver_def fixed_tree_def) code_simp
  show ?thesis
    using immutable_survives_driver [OF steps obeying_calls wf find] a by auto
qed

end
