(* ===== verification/DriverPass.thy ===== *)
theory DriverPass
  imports DriverTree
begin

text \<open>
  Changes of variables by a driver whose mode is settled: they always succeed, keep the tree
  well formed, and change nothing but the variable.
\<close>

section \<open>A settled driver\<close>

lemma sync_var_other: "\<not> same_nocase SYNC_VAR ''ups.status''"
  by code_simp

definition settled_ds :: "dstate \<Rightarrow> bool" where
  "settled_ds st \<longleftrightarrow> pending st = 0 \<and> distinct (map cn_fd (connhead st)) \<and> st_tree_wf (dtree_root st)"

lemma broadcast_settled:
  assumes "settled_ds st" and "msg \<noteq> []"
  shows "\<exists>s. broadcast msg st = Done s \<and> untouched st s \<and> settled_ds s"
proof -
  have p: "pending st = 0" and d: "distinct (map cn_fd (connhead st))" and wf: "st_tree_wf (dtree_root st)"
    using assms(1) by (simp_all add: settled_ds_def)
  obtain s F where s: "broadcast msg st = Done s" "untouched st s"
      "connhead s = filter (\<lambda>c. \<not> cn_closing c \<and> cn_fd c \<notin> F) (connhead st)"
    using send_to_all_settled [OF p d assms(2), of 2]
    by (auto simp: broadcast_def BROADCAST_DEPTH_def eval_nat_numeral simp del: send_to_all.simps)
  have "distinct (map cn_fd (connhead s))" using d unfolding s(3) by (rule distinct_map_filter)
  then show ?thesis
    using s(1,2) broadcast_wf [OF wf s(1)] untouched_pending [OF s(2)] p by (auto simp: settled_ds_def)
qed

lemma settled_tree:
  assumes "settled_ds st" and "st_tree_wf tree" and "state_tree_find tree SYNC_VAR = state_tree_find (dtree_root st) SYNC_VAR"
  shows "settled_ds (st\<lparr>dtree_root := tree\<rparr>)"
proof -
  have "mode_published (st\<lparr>dtree_root := tree\<rparr>) = mode_published st"
    using assms(3) by (simp add: mode_published_def split: option.split)
  then show ?thesis using assms(1,2) by (simp add: settled_ds_def pending_def)
qed

text \<open>Nothing but variables changed.\<close>

definition same_but_tree :: "dstate \<Rightarrow> dstate \<Rightarrow> bool" where
  "same_but_tree st s \<longleftrightarrow> untouched (st\<lparr>dtree_root := dtree_root s\<rparr>) s"

lemma same_but_tree_iff:
  "same_but_tree st s \<longleftrightarrow> cmdhead s = cmdhead st \<and> ds_stale s = ds_stale st
     \<and> do_synchronous s = do_synchronous st \<and> ds_clk s = ds_clk st
     \<and> status_buf s = status_buf st \<and> alarm_buf s = alarm_buf st \<and> buzzmode_buf s = buzzmode_buf st
     \<and> alarm_active s = alarm_active st \<and> alarm_legacy_status s = alarm_legacy_status st \<and> ignorelb s = ignorelb st"
  by (simp add: same_but_tree_def untouched_def)

lemma same_but_tree_trans: "same_but_tree a b \<Longrightarrow> same_but_tree b c \<Longrightarrow> same_but_tree a c"
  by (simp add: same_but_tree_iff)

lemma change_settled:
  assumes "settled_ds st" and "st_tree_wf tree" and "state_tree_find tree SYNC_VAR = state_tree_find (dtree_root st) SYNC_VAR"
    and "msg \<noteq> []"
  shows "\<exists>s. (if ret = 1 then andthen (broadcast msg (st\<lparr>dtree_root := tree\<rparr>)) (\<lambda>st2. Done (ret, st2))
             else Done (ret, st\<lparr>dtree_root := tree\<rparr>)) = Done (ret :: int, s)
     \<and> settled_ds s \<and> same_but_tree st s \<and> same_vars (dtree_root s) tree"
proof -
  have t: "settled_ds (st\<lparr>dtree_root := tree\<rparr>)" by (rule settled_tree [OF assms(1-3)])
  obtain s where "broadcast msg (st\<lparr>dtree_root := tree\<rparr>) = Done s" "untouched (st\<lparr>dtree_root := tree\<rparr>) s" "settled_ds s"
    using broadcast_settled [OF t assms(4)] by blast
  then show ?thesis using t by (cases "ret = 1") (auto simp: same_but_tree_iff untouched_def)
qed

lemma flags_put_node:
  "st_flags (put_node v xt old) = (case old of None \<Rightarrow> 0 | Some n \<Rightarrow> st_flags n)"
  by (simp add: put_node_def new_node_def set_node_def val_escape_def st_tree_node_refresh_timestamp_def Let_def split: option.split)

lemma immutable_setinfo:
  "immutable_at (snd (state_setinfo t v x now)) w = immutable_at t w"
  using find_nocase_cong [of v w t]
  by (auto simp: immutable_at_def find_setinfo flags_put_node has_flag_def ST_FLAG_IMMUTABLE_def split: option.split)

lemma setinfo_settled:
  assumes "settled_ds st" and "\<not> same_nocase SYNC_VAR var"
  shows "\<exists>ret s. dstate_setinfo var txt st = Done (ret, s) \<and> settled_ds s \<and> same_but_tree st s \<and>
     (\<forall>w. dstate_getinfo s w = (if same_nocase var w \<and> \<not> immutable_at (dtree_root st) var
        then Some (pconf_encode (snprintf ST_MAX_VALUE_LEN txt) [] ST_MAX_VALUE_LEN) else dstate_getinfo st w)) \<and>
     (\<forall>w. immutable_at (dtree_root s) w = immutable_at (dtree_root st) w)"
proof -
  have wf: "st_tree_wf (dtree_root st)" using assms(1) by (simp add: settled_ds_def)
  let ?x = "snprintf ST_MAX_VALUE_LEN txt"
  obtain ret tree where t: "state_setinfo (dtree_root st) var ?x (ds_clk st) = (ret, tree)" by fastforce
  then have tree: "tree = snd (state_setinfo (dtree_root st) var ?x (ds_clk st))" by simp
  have sync: "state_tree_find tree SYNC_VAR = state_tree_find (dtree_root st) SYNC_VAR"
    using assms(2) same_nocase_sym by (simp add: tree find_setinfo)
  have twf: "st_tree_wf tree" unfolding tree by (rule setinfo_tree_wf [OF wf])
  obtain s where s0: "(if ret = 1 then andthen (broadcast (setinfo_line var ?x) (st\<lparr>dtree_root := tree\<rparr>)) (\<lambda>st2. Done (ret, st2))
        else Done (ret, st\<lparr>dtree_root := tree\<rparr>)) = Done (ret, s)" and
      s: "settled_ds s" "same_but_tree st s" "same_vars (dtree_root s) tree"
    using change_settled [OF assms(1) twf sync, of "setinfo_line var ?x" ret] by (auto simp: setinfo_line_def)
  have set: "dstate_setinfo var txt st = Done (ret, s)"
    unfolding dstate_setinfo_def setinfo_with_def Let_def t prod.case by (rule s0)
  have "dstate_getinfo s w = state_getinfo tree w" for w
    using same_vars_getinfo [OF s(3)] by (simp add: dstate_getinfo_def)
  moreover have "immutable_at (dtree_root s) w = immutable_at tree w" for w
    using s(3) unfolding same_vars_def immutable_at_def
    by (smt (verit) map_option_is_None option.case_eq_if option.map_sel untimed_frame(3))
  moreover have "immutable_at tree w = immutable_at (dtree_root st) w" for w
    unfolding tree by (rule immutable_setinfo)
  ultimately show ?thesis
    using set s(1,2) getinfo_setinfo [OF wf, of var ?x "ds_clk st"] by (auto simp: tree dstate_getinfo_def)
qed

lemma delinfo_settled:
  assumes "settled_ds st" and "\<not> same_nocase SYNC_VAR var"
  shows "\<exists>ret s. dstate_delinfo var st = Done (ret, s) \<and> settled_ds s \<and> same_but_tree st s \<and>
     (\<forall>w. \<not> same_nocase var w \<longrightarrow> dstate_getinfo s w = dstate_getinfo st w \<and>
        immutable_at (dtree_root s) w = immutable_at (dtree_root st) w)"
proof -
  have wf: "st_tree_wf (dtree_root st)" and bst: "st_bst (dtree_root st)"
    using assms(1) by (simp_all add: settled_ds_def st_tree_wf_def)
  obtain ret tree where t: "state_delinfo (dtree_root st) var = (ret, tree)" by fastforce
  then have tree: "tree = snd (state_delinfo (dtree_root st) var)" by simp
  have find: "state_tree_find tree w = state_tree_find (dtree_root st) w" if "\<not> same_nocase var w" for w
    using that by (simp add: tree find_delinfo [OF bst])
  have sync: "state_tree_find tree SYNC_VAR = state_tree_find (dtree_root st) SYNC_VAR"
    using assms(2) same_nocase_sym find by blast
  have twf: "st_tree_wf tree" unfolding tree by (rule delinfo_tree_wf [OF wf])
  obtain s where s0: "(if ret = 1 then andthen (broadcast (''DELINFO '' @ var @ [CHR 10]) (st\<lparr>dtree_root := tree\<rparr>)) (\<lambda>st2. Done (ret, st2))
        else Done (ret, st\<lparr>dtree_root := tree\<rparr>)) = Done (ret, s)" and
      s: "settled_ds s" "same_but_tree st s" "same_vars (dtree_root s) tree"
    using change_settled [OF assms(1) twf sync, of "''DELINFO '' @ var @ [CHR 10]" ret] by auto
  have del: "dstate_delinfo var st = Done (ret, s)"
    unfolding dstate_delinfo_def change_tree_def Let_def t prod.case by (rule s0)
  have "dstate_getinfo s w = state_getinfo tree w" for w
    using same_vars_getinfo [OF s(3)] by (simp add: dstate_getinfo_def)
  moreover have "immutable_at (dtree_root s) w = immutable_at tree w" for w
    using s(3) unfolding same_vars_def immutable_at_def
    by (smt (verit) map_option_is_None option.case_eq_if option.map_sel untimed_frame(3))
  moreover have "immutable_at tree w = immutable_at (dtree_root st) w" "state_getinfo tree w = dstate_getinfo st w"
    if "\<not> same_nocase var w" for w
    using find [OF that] by (simp_all add: immutable_at_def dstate_getinfo_def state_getinfo_def)
  ultimately show ?thesis using del s(1,2) by auto
qed

section \<open>Committing\<close>

lemma buzz_var_other: "\<not> same_nocase SYNC_VAR ''experimental.ups.mode.buzzwords''"
  by code_simp

lemma buzzmode_commit_settled:
  assumes "settled_ds st"
  shows "\<exists>s. buzzmode_commit st = Done s \<and> settled_ds s \<and> same_but_tree st s \<and>
     (\<forall>w. \<not> same_nocase ''experimental.ups.mode.buzzwords'' w \<longrightarrow> dstate_getinfo s w = dstate_getinfo st w \<and>
        immutable_at (dtree_root s) w = immutable_at (dtree_root st) w)"
proof (cases "buzzmode_buf st = []")
  case True
  then show ?thesis using delinfo_settled [OF assms buzz_var_other] by (auto simp: buzzmode_commit_def)
next
  case False
  then show ?thesis using setinfo_settled [OF assms buzz_var_other, of "buzzmode_buf st"] by (auto simp: buzzmode_commit_def)
qed

lemma words_of_joined:
  "words_of (s @ '' LB'') = words_of s @ [''LB'']" "words_of (''ALARM '' @ s) = ''ALARM'' # words_of s"
proof -
  have "words_of (s @ '' '' @ ''LB'') = words_of s @ words_of ''LB''" and "words_of ''LB'' = [''LB'']"
    by (simp add: words_of_def split_blank_append del: append_Cons) code_simp
  then show "words_of (s @ '' LB'') = words_of s @ [''LB'']" by simp
  have "words_of (''ALARM'' @ '' '' @ s) = words_of ''ALARM'' @ words_of s" and "words_of ''ALARM'' = [''ALARM'']"
    by (simp add: words_of_def split_blank_append del: append_Cons) code_simp
  then show "words_of (''ALARM '' @ s) = ''ALARM'' # words_of s" by simp
qed

end
