(* ===== verification/StatusSpec.thy ===== *)
theory StatusSpec
  imports DriverPass
begin

text \<open>
  What one pass of a driver over its device publishes as \<open>ups.status\<close>, and the number of phases.
\<close>

section \<open>The tokens of a pass\<close>

definition status_keep :: "bool \<Rightarrow> cstring \<Rightarrow> bool" where
  "status_keep nolb w \<longleftrightarrow> \<not> (nolb \<and> same_nocase w ''LB'') \<and> \<not> same_nocase w ''ALARM''"

definition status_upd :: "cstring \<Rightarrow> dstate \<Rightarrow> dstate" where
  "status_upd w st = (if same_nocase w ''ALARM'' then st\<lparr>alarm_legacy_status := True\<rparr> else st)"

lemma lb_not_alarm: "same_nocase w ''LB'' \<Longrightarrow> \<not> same_nocase w ''ALARM''"
proof -
  have "\<not> same_nocase ''LB'' ''ALARM''" by code_simp
  then show "same_nocase w ''LB'' \<Longrightarrow> \<not> same_nocase w ''ALARM''"
    unfolding same_nocase_iff by simp
qed

interpretation status: token_filter "Some status_set_callback" "status_keep b" status_upd "\<lambda>st. ignorelb st = b" for b
proof
  fix st :: dstate and tgt w
  assume "ignorelb st = b"
  then show "run_callback (Some status_set_callback) tgt w st = (status_keep b w, status_upd w st)"
    using lb_not_alarm [of w]
    by (cases "same_nocase w ''LB''") (simp_all add: run_callback_def status_set_callback_def status_keep_def status_upd_def)
qed (simp add: status_upd_def)

lemma status_upd_fold:
  "fold status_upd ws st = st\<lparr>alarm_legacy_status := alarm_legacy_status st \<or> (\<exists>w \<in> set ws. same_nocase w ''ALARM'')\<rparr>"
  by (induction ws arbitrary: st) (auto simp: status_upd_def)

lemma status_set_spec:
  assumes "length (status_buf st) + length buf + 2 < ST_MAX_VALUE_LEN"
  shows "\<exists>tgt. status_set buf st = st\<lparr>alarm_legacy_status := alarm_legacy_status st \<or> (\<exists>w \<in> set (words_of buf). same_nocase w ''ALARM''),
       status_buf := tgt\<rparr>
     \<and> words_of tgt = foldl add_word (words_of (status_buf st)) (filter (status_keep (ignorelb st)) (words_of buf))
     \<and> length tgt \<le> length (status_buf st) + length buf + 1"
  using status.added_words [where b = "ignorelb st", OF assms refl]
  by (auto simp: status_set_def status_upd_fold)

definition pass_words :: "cstring list \<Rightarrow> cstring list" where
  "pass_words bufs = concat (map words_of bufs)"

lemma status_pass:
  assumes "length (status_buf st) + sum_list (map (\<lambda>b. length b + 1) bufs) + 1 < ST_MAX_VALUE_LEN"
  shows "\<exists>tgt. fold status_set bufs st = st\<lparr>alarm_legacy_status := alarm_legacy_status st \<or> (\<exists>w \<in> set (pass_words bufs). same_nocase w ''ALARM''),
       status_buf := tgt\<rparr>
     \<and> words_of tgt = foldl add_word (words_of (status_buf st)) (filter (status_keep (ignorelb st)) (pass_words bufs))
     \<and> length tgt \<le> length (status_buf st) + sum_list (map (\<lambda>b. length b + 1) bufs)"
  using assms
proof (induction bufs arbitrary: st)
  case Nil
  then show ?case by (intro exI [of _ "status_buf st"]) (simp add: pass_words_def)
next
  case (Cons b bufs)
  obtain tgt where t: "status_set b st = st\<lparr>alarm_legacy_status := alarm_legacy_status st \<or> (\<exists>w \<in> set (words_of b). same_nocase w ''ALARM''),
       status_buf := tgt\<rparr>"
    "words_of tgt = foldl add_word (words_of (status_buf st)) (filter (status_keep (ignorelb st)) (words_of b))"
    "length tgt \<le> length (status_buf st) + length b + 1"
    using status_set_spec [of st b] Cons.prems by auto
  have "length (status_buf (status_set b st)) + sum_list (map (\<lambda>b. length b + 1) bufs) + 1 < ST_MAX_VALUE_LEN"
    using t(1,3) Cons.prems by simp
  from Cons.IH [OF this] obtain tgt' where u: "fold status_set bufs (status_set b st) = (status_set b st)\<lparr>alarm_legacy_status := alarm_legacy_status (status_set b st) \<or> (\<exists>w \<in> set (pass_words bufs). same_nocase w ''ALARM''),
       status_buf := tgt'\<rparr>"
    "words_of tgt' = foldl add_word (words_of (status_buf (status_set b st))) (filter (status_keep (ignorelb (status_set b st))) (pass_words bufs))"
    "length tgt' \<le> length (status_buf (status_set b st)) + sum_list (map (\<lambda>b. length b + 1) bufs)"
    by blast
  have "(\<exists>w \<in> set (pass_words (b # bufs)). same_nocase w ''ALARM'')
      \<longleftrightarrow> (\<exists>w \<in> set (words_of b). same_nocase w ''ALARM'') \<or> (\<exists>w \<in> set (pass_words bufs). same_nocase w ''ALARM'')"
    and "filter (status_keep i) (pass_words (b # bufs)) = filter (status_keep i) (words_of b) @ filter (status_keep i) (pass_words bufs)" for i
    by (auto simp: pass_words_def)
  then show ?case
    using t u by (intro exI [of _ tgt']) (simp add: disj_assoc)
qed

section \<open>The published status\<close>

text \<open>
  A change of the charge adds the word for its direction: where the driver said nothing, and
  where it said the opposite; where it said the same, the word is there already.
\<close>

definition trend_words :: "(derrno \<times> trend) option \<Rightarrow> dstate \<Rightarrow> cstring list" where
  "trend_words charge st =
     (case charge of None \<Rightarrow> []
      | Some (e, t) \<Rightarrow> if dstate_tree_find st ''battery.charge'' = None \<or> t = No_trend then []
          else if t = Rising then [''CHRG''] else [''DISCHRG''])"

definition committed_words :: "(derrno \<times> trend) option \<Rightarrow> dstate \<Rightarrow> cstring list" where
  "committed_words charge st =
     (if alarm_active st \<noteq> 0 \<or> alarm_legacy_status st then [''ALARM''] else [])
     @ foldl add_word (words_of (status_buf st) @ (if ignorelb st \<and> battery_low st then [''LB''] else [])) (trend_words charge st)"

text \<open>The state just before the status is published.\<close>

definition before_commit :: "(derrno \<times> trend) option \<Rightarrow> dstate \<Rightarrow> dstate" where
  "before_commit charge st =
     (let st1 = (if ignorelb st \<and> battery_low st
                 then st\<lparr>status_buf := snprintfcat (status_buf st) ST_MAX_VALUE_LEN '' LB''\<rparr> else st)
      in case charge of
           Some (e, t) \<Rightarrow> if dstate_tree_find st1 ''battery.charge'' = None then st1 else charge_status t (st1\<lparr>ds_errno := e\<rparr>)
         | None \<Rightarrow> st1)"

lemma charge_words_ok:
  "words_of ''CHRG'' = [''CHRG'']" "words_of ''DISCHRG'' = [''DISCHRG'']" "status_keep b ''CHRG''" "status_keep b ''DISCHRG''"
  "\<not> same_nocase ''CHRG'' ''ALARM''" "\<not> same_nocase ''DISCHRG'' ''ALARM''"
proof -
  show alarm: "\<not> same_nocase ''CHRG'' ''ALARM''" "\<not> same_nocase ''DISCHRG'' ''ALARM''"
    and "words_of ''CHRG'' = [''CHRG'']" "words_of ''DISCHRG'' = [''DISCHRG'']" by code_simp+
  have "\<not> same_nocase ''CHRG'' ''LB''" "\<not> same_nocase ''DISCHRG'' ''LB''" by code_simp+
  then show "status_keep b ''CHRG''" "status_keep b ''DISCHRG''" using alarm by (simp_all add: status_keep_def)
qed

lemma set_charge_word:
  assumes "w = ''CHRG'' \<or> w = ''DISCHRG''" and "length (status_buf st) \<le> 240"
  shows "\<exists>tgt. status_set w st = st\<lparr>status_buf := tgt\<rparr> \<and> words_of tgt = add_word (words_of (status_buf st)) w
     \<and> length tgt \<le> length (status_buf st) + 8"
proof -
  have "length (status_buf st) + length w + 2 < ST_MAX_VALUE_LEN" using assms by (auto simp: ST_MAX_VALUE_LEN_def)
  from status_set_spec [OF this] show ?thesis using assms(1) by (auto simp: charge_words_ok)
qed

lemma charge_status_word:
  assumes "length (status_buf st) \<le> 240"
  shows "\<exists>tgt. charge_status t st = st\<lparr>status_buf := tgt\<rparr> \<and> words_of tgt = foldl add_word (words_of (status_buf st))
       (if t = No_trend then [] else if t = Rising then [''CHRG''] else [''DISCHRG''])
     \<and> length tgt \<le> length (status_buf st) + 8"
proof -
  have get: "status_get ''CHRG'' st \<longleftrightarrow> ''CHRG'' \<in> set (words_of (status_buf st))"
    "status_get ''DISCHRG'' st \<longleftrightarrow> ''DISCHRG'' \<in> set (words_of (status_buf st))"
    by (simp_all add: status_get_def contains_token_iff)
  have same: "\<exists>tgt. st = st\<lparr>status_buf := tgt\<rparr> \<and> words_of tgt = words_of (status_buf st) \<and> length tgt \<le> length (status_buf st) + 8"
    by (rule exI [of _ "status_buf st"]) simp
  consider "t = No_trend" | "t = Rising" "\<not> status_get ''DISCHRG'' st" "status_get ''CHRG'' st"
    | "t = Rising" "status_get ''DISCHRG'' st \<or> \<not> status_get ''CHRG'' st"
    | "t = Falling" "\<not> status_get ''CHRG'' st" "status_get ''DISCHRG'' st"
    | "t = Falling" "status_get ''CHRG'' st \<or> \<not> status_get ''DISCHRG'' st" by (cases t) auto
  then show ?thesis
  proof cases
    case 3
    then have "charge_status t st = status_set ''CHRG'' st" by (auto simp: charge_status_def Let_def)
    then show ?thesis using set_charge_word [of "''CHRG''" st] assms 3 by simp
  next
    case 5
    then have "charge_status t st = status_set ''DISCHRG'' st" by (auto simp: charge_status_def Let_def)
    then show ?thesis using set_charge_word [of "''DISCHRG''" st] assms 5 by simp
  next
    case 1
    then have "charge_status t st = st" by (simp add: charge_status_def Let_def)
    then show ?thesis using same 1 by simp
  next
    case 2
    then have "charge_status t st = st" by (simp add: charge_status_def Let_def)
    then show ?thesis using same 2 get by (simp add: add_word_def)
  next
    case 4
    then have "charge_status t st = st" by (simp add: charge_status_def Let_def)
    then show ?thesis using same 4 get by (simp add: add_word_def)
  qed
qed

lemma before_commit_words:
  assumes "length (status_buf st) + 8 * length (trend_words charge st) \<le> 240"
  shows "\<exists>tgt e. before_commit charge st = st\<lparr>status_buf := tgt, ds_errno := e\<rparr>
     \<and> words_of tgt = foldl add_word (words_of (status_buf st) @ (if ignorelb st \<and> battery_low st then [''LB''] else [])) (trend_words charge st)
     \<and> length tgt \<le> 243"
proof -
  let ?lb = "ignorelb st \<and> battery_low st"
  define buf where "buf = (if ?lb then status_buf st @ '' LB'' else status_buf st)"
  have cat: "snprintfcat (status_buf st) ST_MAX_VALUE_LEN '' LB'' = status_buf st @ '' LB''"
    using assms by (intro snprintfcat_fits) (simp add: ST_MAX_VALUE_LEN_def)
  have st1: "(if ?lb then st\<lparr>status_buf := snprintfcat (status_buf st) ST_MAX_VALUE_LEN '' LB''\<rparr> else st) = st\<lparr>status_buf := buf\<rparr>"
    unfolding cat buf_def by simp
  have words: "words_of buf = words_of (status_buf st) @ (if ?lb then [''LB''] else [])"
    by (simp add: buf_def words_of_joined)
  have len: "length buf \<le> length (status_buf st) + 3" by (simp add: buf_def)
  have find: "dstate_tree_find (st\<lparr>status_buf := buf\<rparr>) = dstate_tree_find st" by (simp add: dstate_tree_find_def fun_eq_iff)
  show ?thesis
  proof (cases "trend_words charge st = []")
    case True
    have none: "\<exists>e. st\<lparr>status_buf := buf\<rparr> = st\<lparr>status_buf := buf, ds_errno := e\<rparr>"
      by (rule exI [of _ "ds_errno st"]) simp
    have "\<exists>e. before_commit charge st = st\<lparr>status_buf := buf, ds_errno := e\<rparr>"
    proof (cases charge)
      case None
      then show ?thesis unfolding before_commit_def st1 Let_def using none by simp
    next
      case (Some c)
      obtain e t where c: "c = (e, t)" by fastforce
      then have none_or: "dstate_tree_find st ''battery.charge'' = None \<or> t = No_trend"
        using True Some by (auto simp: trend_words_def split: if_splits)
      show ?thesis
      proof (cases "dstate_tree_find st ''battery.charge'' = None")
        case True
        then show ?thesis unfolding before_commit_def st1 Let_def Some c option.case prod.case find using none by simp
      next
        case False
        with none_or have "t = No_trend" by (elim disjE) simp_all
        then have "charge_status t (st\<lparr>status_buf := buf, ds_errno := e\<rparr>) = st\<lparr>status_buf := buf, ds_errno := e\<rparr>"
          by (simp add: charge_status_def Let_def)
        then show ?thesis unfolding before_commit_def st1 Let_def Some c option.case prod.case find
          using False by (simp only: if_False) (rule exI, rule refl)
      qed
    qed
    then show ?thesis using words len True assms by auto
  next
    case False
    then obtain e t where c: "charge = Some (e, t)" "dstate_tree_find st ''battery.charge'' \<noteq> None" "t \<noteq> No_trend"
      by (auto simp: trend_words_def split: option.splits if_splits)
    have one: "trend_words charge st = (if t = Rising then [''CHRG''] else [''DISCHRG''])"
      unfolding trend_words_def c(1) option.case prod.case using c(2,3) by (simp only: if_False simp_thms)
    then have len1: "length (trend_words charge st) = 1" by simp
    let ?st2 = "st\<lparr>status_buf := buf, ds_errno := e\<rparr>"
    have "before_commit charge st = charge_status t ?st2"
      unfolding before_commit_def st1 Let_def c(1) option.case prod.case find using c(2) by (simp only: if_False)
    moreover have "length (status_buf ?st2) \<le> 240" using len assms len1 by simp
    note charge_status_word [OF this, of t]
    ultimately obtain tgt where "before_commit charge st = ?st2\<lparr>status_buf := tgt\<rparr>"
        "words_of tgt = foldl add_word (words_of buf) (trend_words charge st)" "length tgt \<le> length buf + 8"
      using one c(3) by auto
    then show ?thesis using words len assms len1
      by (intro exI [of _ tgt] exI [of _ e]) simp
  qed
qed

lemma status_commit_settled:
  assumes "settled_ds st" and "\<not> immutable_at (dtree_root st) ''ups.status''"
    and "length (status_buf st) + 8 * length (trend_words charge st) \<le> 240"
  shows "\<exists>s txt. status_commit charge st = Done s
     \<and> dstate_getinfo s ''ups.status'' = Some (pconf_encode txt [] ST_MAX_VALUE_LEN)
     \<and> words_of txt = committed_words charge st
     \<and> settled_ds s \<and> \<not> immutable_at (dtree_root s) ''ups.status'' \<and> alarm_active s = alarm_active st
     \<and> (\<forall>w. \<not> same_nocase ''ups.status'' w \<longrightarrow> dstate_getinfo s w = dstate_getinfo st w)"
proof -
  obtain tgt e where X: "before_commit charge st = st\<lparr>status_buf := tgt, ds_errno := e\<rparr>"
     "words_of tgt = foldl add_word (words_of (status_buf st) @ (if ignorelb st \<and> battery_low st then [''LB''] else [])) (trend_words charge st)"
     "length tgt \<le> 243"
    using before_commit_words [OF assms(3)] by blast
  let ?X = "st\<lparr>status_buf := tgt, ds_errno := e\<rparr>"
  let ?alarm = "alarm_active st \<noteq> 0 \<or> alarm_legacy_status st"
  have "pending ?X = pending st" by (rule pending_frame) simp_all
  then have settled: "settled_ds ?X" using assms(1) by (simp add: settled_ds_def)
  define msg where "msg = (if ?alarm then if tgt \<noteq> [] then ''ALARM '' @ tgt else ''ALARM'' else tgt)"
  have "length msg < ST_MAX_VALUE_LEN" using X(3) by (simp add: msg_def ST_MAX_VALUE_LEN_def)
  then have fits: "snprintf ST_MAX_VALUE_LEN msg = msg" by (simp add: snprintf_fits)
  have "words_of ''ALARM'' = [''ALARM'']" "words_of [] = []" by (code_simp, simp add: words_of_def)
  then have words: "words_of msg = committed_words charge st"
    using X(2) by (auto simp: msg_def committed_words_def words_of_joined simp del: append_Cons)
  obtain ret s where s: "dstate_setinfo ''ups.status'' msg ?X = Done (ret, s)"
    "dstate_getinfo s ''ups.status'' = Some (pconf_encode msg [] ST_MAX_VALUE_LEN)"
    "\<forall>w. \<not> same_nocase ''ups.status'' w \<longrightarrow> dstate_getinfo s w = dstate_getinfo ?X w"
    "settled_ds s" "\<not> immutable_at (dtree_root s) ''ups.status''" "alarm_active s = alarm_active st"
    using setinfo_settled [OF settled sync_var_other, of msg] fits assms(2) by (auto simp: same_nocase_iff same_but_tree_iff)
  have alarm: "(alarm_active ?X \<noteq> 0 \<or> alarm_legacy_status ?X) = ?alarm" and buf: "status_buf ?X = tgt" by simp_all
  have "status_commit charge st = (if ?alarm
       then andthen (dstate_setinfo ''ups.status'' (if tgt \<noteq> [] then ''ALARM '' @ tgt else ''ALARM'') ?X) (\<lambda>(ret, st3). Done st3)
       else andthen (dstate_setinfo ''ups.status'' tgt ?X) (\<lambda>(ret, st3). Done (st3\<lparr>alarm_legacy_status := False\<rparr>)))"
    using X(1) unfolding status_commit_def before_commit_def Let_def by (simp only: alarm buf)
  then have "status_commit charge st = Done (if ?alarm then s else s\<lparr>alarm_legacy_status := False\<rparr>)"
    using s(1) by (cases ?alarm; cases "tgt = []") (simp_all add: msg_def)
  moreover have "settled_ds (s\<lparr>alarm_legacy_status := False\<rparr>)"
    using s(4) pending_frame [of "s\<lparr>alarm_legacy_status := False\<rparr>" s] by (simp add: settled_ds_def)
  moreover have "dstate_getinfo (if b then s else s\<lparr>alarm_legacy_status := False\<rparr>) w = dstate_getinfo s w" for b w
    by (simp add: dstate_getinfo_def)
  moreover have "dstate_getinfo ?X w = dstate_getinfo st w" for w by (simp add: dstate_getinfo_def)
  ultimately show ?thesis using s(2-6) words by auto
qed

definition published_words :: "bool \<Rightarrow> bool \<Rightarrow> bool \<Rightarrow> cstring list \<Rightarrow> cstring list \<Rightarrow> cstring list" where
  "published_words alarm nolb low trend ws =
     (if alarm \<or> (\<exists>w \<in> set ws. same_nocase w ''ALARM'') then [''ALARM''] else [])
     @ foldl add_word (foldl add_word [] (filter (status_keep nolb) ws) @ (if nolb \<and> low then [''LB''] else [])) trend"

text \<open>
  Property C17: one pass of a driver, \<open>status_init\<close>, any \<open>status_set\<close> calls, \<open>status_commit\<close>,
  publishes in \<open>ups.status\<close> exactly these words: \<open>ALARM\<close> first when an alarm is active or a
  legacy driver set it as a token; then every token once, in the order of its first mention,
  without the device's own \<open>LB\<close> when \<open>ignorelb\<close> is set; then \<open>LB\<close> when the driver is to judge
  by the thresholds and charge or runtime is below its limit; at the end \<open>CHRG\<close> or \<open>DISCHRG\<close>,
  unless it is there already, when the driver keeps a previous charge and the charge, scanned
  and below 100, has risen or fallen since. No other variable changes. The driver's synchronous
  mode is the published one (\<open>pending\<close> is 0), nobody overrides \<open>ups.status\<close>, and the tokens with
  their blanks, 8 bytes for a word of the charge included, stay within 240 of the 256 bytes.
\<close>

theorem status_published:
  assumes "pending st = 0" and "distinct (map cn_fd (connhead st))" and "st_tree_wf (dtree_root st)"
    and "\<not> immutable_at (dtree_root st) ''ups.status''"
    and "sum_list (map (\<lambda>b. length b + 1) bufs) + 8 * length (trend_words charge st) \<le> 240"
  shows "\<exists>st' s. status_commit charge (fold status_set bufs (status_init st)) = Done st'
     \<and> dstate_getinfo st' ''ups.status'' = Some (pconf_encode s [] ST_MAX_VALUE_LEN)
     \<and> words_of s = published_words (alarm_active st \<noteq> 0) (dstate_getinfo st ''driver.flag.ignorelb'' \<noteq> None)
          (battery_low st) (trend_words charge st) (pass_words bufs)
     \<and> (\<forall>w. \<not> same_nocase ''ups.status'' w \<longrightarrow> dstate_getinfo st' w = dstate_getinfo st w)"
proof -
  let ?st0 = "status_init st"
  let ?nolb = "dstate_getinfo st ''driver.flag.ignorelb'' \<noteq> None"
  let ?alarm = "\<exists>w \<in> set (pass_words bufs). same_nocase w ''ALARM''"
  have init: "status_buf ?st0 = []" "ignorelb ?st0 = ?nolb" "\<not> alarm_legacy_status ?st0" "alarm_active ?st0 = alarm_active st"
    "dtree_root ?st0 = dtree_root st" "do_synchronous ?st0 = do_synchronous st" "connhead ?st0 = connhead st"
    by (simp_all add: status_init_def)
  have room: "sum_list (map (\<lambda>b. length b + 1) bufs) \<le> 240" using assms(5) by linarith
  obtain tgt where t: "fold status_set bufs ?st0 = ?st0\<lparr>alarm_legacy_status := ?alarm, status_buf := tgt\<rparr>"
    "words_of tgt = foldl add_word [] (filter (status_keep ?nolb) (pass_words bufs))"
    "length tgt \<le> sum_list (map (\<lambda>b. length b + 1) bufs)"
    using status_pass [of ?st0 bufs] room init by (auto simp: ST_MAX_VALUE_LEN_def words_of_def)
  define X where "X = fold status_set bufs ?st0"
  have X: "dtree_root X = dtree_root st" "do_synchronous X = do_synchronous st" "connhead X = connhead st"
    "alarm_active X = alarm_active st" "alarm_legacy_status X = ?alarm" "ignorelb X = ?nolb" "status_buf X = tgt"
    unfolding X_def t(1) by (simp_all add: init)
  have "pending X = pending st" using X(1,2) by (rule pending_frame)
  then have settled: "settled_ds X" using assms(1-3) X by (simp add: settled_ds_def)
  have get: "dstate_getinfo X w = dstate_getinfo st w" for w by (simp add: dstate_getinfo_def X(1))
  then have "battery_low X = battery_low st" by (simp add: battery_low_def)
  moreover have trend: "trend_words charge X = trend_words charge st"
    unfolding trend_words_def dstate_tree_find_def X(1) by (rule refl)
  ultimately have words: "committed_words charge X =
      published_words (alarm_active st \<noteq> 0) ?nolb (battery_low st) (trend_words charge st) (pass_words bufs)"
    using t(2) by (simp add: committed_words_def X published_words_def)
  have "length (status_buf X) + 8 * length (trend_words charge X) \<le> 240" using t(3) assms(5) unfolding X(7) trend by linarith
  moreover have "\<not> immutable_at (dtree_root X) ''ups.status''" using assms(4) X(1) by simp
  ultimately obtain s m where "status_commit charge X = Done s" "words_of m = committed_words charge X"
      "dstate_getinfo s ''ups.status'' = Some (pconf_encode m [] ST_MAX_VALUE_LEN)"
      "\<forall>w. \<not> same_nocase ''ups.status'' w \<longrightarrow> dstate_getinfo s w = dstate_getinfo X w"
    using status_commit_settled [OF settled, of charge] by blast
  then show ?thesis using words get unfolding X_def by auto
qed

definition charged_driver :: dstate where
  "charged_driver = (demo_driver 0 [] [])\<lparr>dtree_root :=
     snd (state_setinfo (dtree_root (demo_driver 0 [] [])) ''battery.charge'' ''61'' (clock 1))\<rparr>"

text \<open>The charge rises while the driver says nothing of it.\<close>

theorem status_published_witness:
  "\<exists>st' s. status_commit (Some (E_none, Rising)) (fold status_set [''OL'', ''ALARM'', ''OL''] (status_init charged_driver)) = Done st'
     \<and> dstate_getinfo st' ''ups.status'' = Some (pconf_encode s [] ST_MAX_VALUE_LEN)
     \<and> words_of s = [''ALARM'', ''OL'', ''CHRG'']"
proof -
  let ?st = charged_driver
  have p: "pending ?st = 0" by code_simp
  have d: "distinct (map cn_fd (connhead ?st))" by (simp add: charged_driver_def demo_driver_def)
  have "st_tree_wf (dtree_root (demo_driver 0 [] []))"
    unfolding demo_driver_def by (simp add: st_tree_wf_def new_node_wf)
  from setinfo_tree_wf [OF this] have wf: "st_tree_wf (dtree_root ?st)" unfolding charged_driver_def by simp
  have m: "\<not> immutable_at (dtree_root ?st) ''ups.status''" by code_simp
  have trend: "trend_words (Some (E_none, Rising)) ?st = [''CHRG'']" by code_simp
  have room: "sum_list (map (\<lambda>b. length b + 1) [''OL'', ''ALARM'', ''OL'']) + 8 * length (trend_words (Some (E_none, Rising)) ?st) \<le> 240"
    unfolding trend by simp
  have "published_words (alarm_active ?st \<noteq> 0) (dstate_getinfo ?st ''driver.flag.ignorelb'' \<noteq> None)
      (battery_low ?st) [''CHRG''] (pass_words [''OL'', ''ALARM'', ''OL'']) = [''ALARM'', ''OL'', ''CHRG'']" by code_simp
  then show ?thesis using status_published [OF p d wf m room] unfolding trend by auto
qed

end
