(* ===== verification/UsbHidSpec.thy ===== *)
theory UsbHidSpec
  imports UsbHid StatusSpec
begin

text \<open>
  What the USB HID driver publishes: the status bits never contradict each other, the words of
  \<open>ups.status\<close> are those of the bits, and low battery on battery power is published at once.
\<close>

section \<open>Status bits\<close>

definition bit_of :: "uint32 \<Rightarrow> status_bit_t \<Rightarrow> bool" where
  "bit_of s b \<longleftrightarrow> s AND STATUS b \<noteq> 0"

lemma status_no_inject: "status_no a = status_no b \<longleftrightarrow> a = b"
  by (cases a; cases b) simp_all

lemma status_no_less: "status_no b < 32"
  by (cases b) simp_all

lemma bit_of_iff: "bit_of s b \<longleftrightarrow> bit s (status_no b)"
  by (simp add: bit_of_def STATUS_def bit_iff_and_push_bit_not_eq_0)

lemma bit_of_set [simp]: "bit_of (s OR STATUS b) c \<longleftrightarrow> bit_of s c \<or> b = c"
  using status_no_less [of c] by (auto simp: bit_of_iff STATUS_def bit_simps status_no_inject)

lemma bit_of_clear [simp]: "bit_of (s AND NOT (STATUS b)) c \<longleftrightarrow> bit_of s c \<and> b \<noteq> c"
  using status_no_less [of c] by (auto simp: bit_of_iff STATUS_def bit_simps status_no_inject)

lemma bit_of_zero [simp]: "\<not> bit_of 0 b"
  by (simp add: bit_of_def)

lemma bits_or: "s AND (a OR b) \<noteq> 0 \<longleftrightarrow> s AND a \<noteq> 0 \<or> s AND b \<noteq> (0 :: uint32)"
  by (simp add: bit.conj_disj_distrib or_eq_0_iff)

text \<open>The table of the words, with the bits themselves.\<close>

definition status_names :: "(cstring \<times> status_bit_t) list" where
  "status_names = [(''online'', ONLINE), (''offline'', OFFLINE), (''dischrg'', DISCHRG),
     (''chrg'', CHRG), (''lowbatt'', LOWBATT), (''overload'', OVERLOAD), (''replacebatt'', REPLACEBATT),
     (''shutdownimm'', SHUTDOWNIMM), (''trim'', TRIM), (''boost'', BOOST), (''bypassauto'', BYPASSAUTO),
     (''bypassman'', BYPASSMAN), (''ecomode'', ECOMODE), (''essmode'', ESSMODE), (''off'', OFF), (''cal'', CALIB),
     (''overheat'', OVERHEAT), (''commfault'', COMMFAULT), (''depleted'', DEPLETED),
     (''timelimitexp'', TIMELIMITEXP), (''fullycharged'', FULLYCHARGED), (''notfullycharged'', NOTFULLYCHARGED),
     (''awaitingpower'', AWAITINGPOWER), (''fanfail'', FANFAIL), (''nobattery'', NOBATTERY),
     (''battvoltlo'', BATTVOLTLO), (''battvolthi'', BATTVOLTHI), (''chargerfail'', CHARGERFAIL),
     (''vrange'', VRANGE), (''frange'', FRANGE)]"

lemma status_info_names: "status_info = map (\<lambda>(n, b). (n, STATUS b)) status_names"
  by (simp add: status_info_def status_names_def)

fun named :: "(cstring \<times> status_bit_t) list \<Rightarrow> cstring \<Rightarrow> status_bit_t option" where
  "named [] w = None"
| "named ((n, b) # items) w = (if same_nocase n w then Some b else named items w)"

lemma change_status_named:
  "change_status (map (\<lambda>(n, b). (n, STATUS b)) items) True w s =
     (case named items w of None \<Rightarrow> s | Some b \<Rightarrow> s AND NOT (STATUS b))"
  "change_status (map (\<lambda>(n, b). (n, STATUS b)) items) False w s =
     (case named items w of None \<Rightarrow> s | Some b \<Rightarrow> s OR STATUS b)"
  by (induction items) (auto simp: same_nocase_def)

definition word_bit :: "cstring \<Rightarrow> status_bit_t option" where
  "word_bit w = named status_names w"

text \<open>What one word does to the bits.\<close>

definition after_word :: "cstring \<Rightarrow> uint32 \<Rightarrow> uint32" where
  "after_word w s =
     (if w \<noteq> [] \<and> hd w = CHR ''!''
      then (case word_bit (tl w) of None \<Rightarrow> s | Some b \<Rightarrow> s AND NOT (STATUS b))
      else (case word_bit w of None \<Rightarrow> s | Some b \<Rightarrow> s OR STATUS b))"

lemma process_negated: "process_boolean_info (CHR ''!'' # w) s = after_word (CHR ''!'' # w) s"
  by (subst process_boolean_info.simps)
    (simp add: after_word_def word_bit_def status_info_names change_status_named)

lemma process_word:
  "process_boolean_info w s = after_word w
     (if w = ''online'' then after_word ''!offline'' s
      else if w = ''offline'' then after_word ''!online'' s
      else if w = ''fullycharged'' then after_word ''!notfullycharged'' s
      else if w = ''notfullycharged'' then after_word ''!fullycharged'' s else s)"
proof -
  have neg: "process_boolean_info ''!offline'' s = after_word ''!offline'' s"
    "process_boolean_info ''!online'' s = after_word ''!online'' s"
    "process_boolean_info ''!notfullycharged'' s = after_word ''!notfullycharged'' s"
    "process_boolean_info ''!fullycharged'' s = after_word ''!fullycharged'' s" for s
    by (rule process_negated)+
  have last: "(if w \<noteq> [] \<and> hd w = CHR ''!'' then change_status status_info True (tl w) x
      else change_status status_info False w x) = after_word w x" for x
    by (simp add: after_word_def word_bit_def status_info_names change_status_named)
  show ?thesis unfolding process_boolean_info.simps [of w s] Let_def neg last by simp
qed

lemma special_words:
  "word_bit ''online'' = Some ONLINE" "word_bit ''offline'' = Some OFFLINE"
  "word_bit ''fullycharged'' = Some FULLYCHARGED" "word_bit ''notfullycharged'' = Some NOTFULLYCHARGED"
  by code_simp+

lemma named_mem: "named items w = Some b \<Longrightarrow> \<exists>n. (n, b) \<in> set items \<and> same_nocase n w"
  by (induction items) (auto split: if_splits)

lemma word_bit_name: "word_bit w = Some b \<Longrightarrow> list_all (\<lambda>(n, c). c = b \<longrightarrow> n = m) status_names \<Longrightarrow> same_nocase m w"
  using named_mem [of status_names w b] by (auto simp: word_bit_def list_all_iff)

lemma bit_words:
  "word_bit w = Some ONLINE \<Longrightarrow> same_nocase ''online'' w" "word_bit w = Some OFFLINE \<Longrightarrow> same_nocase ''offline'' w"
  "word_bit w = Some FULLYCHARGED \<Longrightarrow> same_nocase ''fullycharged'' w"
  "word_bit w = Some NOTFULLYCHARGED \<Longrightarrow> same_nocase ''notfullycharged'' w"
  by (erule word_bit_name, simp add: status_names_def)+

section \<open>No contradiction\<close>

definition power_known :: "uint32 \<Rightarrow> bool" where
  "power_known s \<longleftrightarrow> \<not> (bit_of s ONLINE \<and> bit_of s OFFLINE) \<and> \<not> (bit_of s FULLYCHARGED \<and> bit_of s NOTFULLYCHARGED)"

text \<open>The four words that exclude each other are spelled as in the table.\<close>

definition plain_word :: "cstring \<Rightarrow> bool" where
  "plain_word w \<longleftrightarrow>
     (\<forall>v\<in>{''online'', ''offline'', ''fullycharged'', ''notfullycharged''}. same_nocase v w \<longrightarrow> w = v)"

lemma process_power_known:
  assumes "power_known s" and "plain_word w"
  shows "power_known (process_boolean_info w s)"
proof (cases "w \<in> {''online'', ''offline'', ''fullycharged'', ''notfullycharged''}")
  case True
  then show ?thesis using assms(1)
    by (auto simp: process_word after_word_def special_words power_known_def)
next
  case False
  then have "process_boolean_info w s = after_word w s" by (simp add: process_word)
  moreover have "word_bit w \<notin> Some ` {ONLINE, OFFLINE, FULLYCHARGED, NOTFULLYCHARGED}"
    using False assms(2) bit_words [of w] by (auto simp: plain_word_def)
  ultimately show ?thesis using assms(1)
    by (cases "w \<noteq> [] \<and> hd w = CHR ''!''") (auto simp: after_word_def power_known_def split: option.split)
qed

section \<open>The words of a pass\<close>

text \<open>
  The specification: what is said of power, charge, low battery, battery replacement and the
  rest, from the bits, the charge, and the times at which low battery and battery replacement
  were first seen.
\<close>

abbreviation says :: "bool \<Rightarrow> cstring \<Rightarrow> cstring list" where
  "says b w \<equiv> (if b then [w] else [])"

definition power_tokens :: "hid_settings \<Rightarrow> uint32 \<Rightarrow> cstring list" where
  "power_tokens cfg s =
     says (bit_of s OFFLINE) ''OB'' @
     (if \<not> bit_of s ONLINE then says (bit_of s OFFLINE \<or> bit_of s DISCHRG) ''OB''
      else if bit_of s DISCHRG
      then says (onlinedischarge_calibration cfg) ''CAL'' @ says (onlinedischarge_onbattery cfg) ''OB'' @
        says (\<not> onlinedischarge_onbattery cfg \<and> \<not> onlinedischarge_calibration cfg) ''OL''
      else [''OL''])"

definition charging :: "uint32 \<Rightarrow> cstring option \<Rightarrow> bool" where
  "charging s charge \<longleftrightarrow> bit_of s CHRG \<and>
     (bit_of s NOTFULLYCHARGED \<or>
      (\<not> bit_of s FULLYCHARGED \<and> (case charge of None \<Rightarrow> False | Some c \<Rightarrow> 0 < atoi c \<and> atoi c < 100)))"

definition calibrating :: "hid_settings \<Rightarrow> uint32 \<Rightarrow> bool" where
  "calibrating cfg s \<longleftrightarrow> bit_of s CALIB \<or> (bit_of s ONLINE \<and> bit_of s DISCHRG \<and> onlinedischarge_calibration cfg)"

definition battery_asks :: "uint32 \<Rightarrow> bool" where
  "battery_asks s \<longleftrightarrow> bit_of s LOWBATT \<or> bit_of s TIMELIMITEXP \<or> bit_of s SHUTDOWNIMM"

definition delayed :: "hid_settings \<Rightarrow> uint32 \<Rightarrow> bool" where
  "delayed cfg s \<longleftrightarrow> 1 \<le> lbrb_log_delay_sec cfg \<and> (calibrating cfg s \<or> lbrb_log_delay_without_calibrating cfg) \<and> bit_of s ONLINE"

definition waited :: "hid_settings \<Rightarrow> int \<Rightarrow> int \<Rightarrow> bool" where
  "waited cfg start now \<longleftrightarrow> start \<noteq> 0 \<and> now - start > lbrb_log_delay_sec cfg"

definition lb_start_after :: "hid_settings \<Rightarrow> uint32 \<Rightarrow> int \<Rightarrow> int \<Rightarrow> int" where
  "lb_start_after cfg s start now = (if \<not> battery_asks s then 0 else if delayed cfg s \<and> start = 0 then now else start)"

definition says_lb :: "hid_settings \<Rightarrow> uint32 \<Rightarrow> int \<Rightarrow> int \<Rightarrow> bool" where
  "says_lb cfg s start now \<longleftrightarrow> battery_asks s \<and> (delayed cfg s \<longrightarrow> waited cfg start now)"

definition says_rb :: "hid_settings \<Rightarrow> uint32 \<Rightarrow> int \<Rightarrow> int \<Rightarrow> int \<Rightarrow> bool" where
  "says_rb cfg s lb_start start now \<longleftrightarrow> (bit_of s REPLACEBATT \<or> bit_of s NOBATTERY) \<and>
     (delayed cfg s \<and> lb_start_after cfg s lb_start now \<noteq> 0 \<longrightarrow> waited cfg start now)"

definition status_tokens :: "hid_settings \<Rightarrow> int \<Rightarrow> hid_state \<Rightarrow> cstring list" where
  "status_tokens cfg now u =
     (let s = ups_status u in
      says (bit_of s CALIB) ''CAL'' @ power_tokens cfg s
      @ says (bit_of s DISCHRG \<and> \<not> bit_of s DEPLETED) ''DISCHRG''
      @ says (charging s (dstate_getinfo (ups u) ''battery.charge'')) ''CHRG''
      @ says (says_lb cfg s (last_lb_start u) now) ''LB''
      @ says (bit_of s OVERLOAD) ''OVER''
      @ says (says_rb cfg s (last_lb_start u) (last_rb_start u) now) ''RB''
      @ says (bit_of s TRIM) ''TRIM'' @ says (bit_of s BOOST) ''BOOST''
      @ says (bit_of s BYPASSAUTO \<or> bit_of s BYPASSMAN) ''BYPASS'' @ says (bit_of s OFF) ''OFF'')"

text \<open>How far a pass has come: the words that were set so far, by at most \<open>n\<close> calls.\<close>

definition pass_at :: "dstate \<Rightarrow> nat \<Rightarrow> cstring list \<Rightarrow> hid_state \<Rightarrow> bool" where
  "pass_at st0 n toks u \<longleftrightarrow> (\<exists>tgt bz. ups u = st0\<lparr>status_buf := tgt, buzzmode_buf := bz\<rparr> \<and>
     words_of tgt = filter (status_keep (ignorelb st0)) toks \<and> length tgt \<le> 8 * n)"

definition say_word :: "cstring \<Rightarrow> bool" where
  "say_word w \<longleftrightarrow> words_of w = [w] \<and> length w \<le> 7 \<and> \<not> same_nocase w ''ALARM''"

lemma status_words_ok:
  "say_word ''CAL''" "say_word ''OB''" "say_word ''OL''" "say_word ''DISCHRG''" "say_word ''CHRG''"
  "say_word ''LB''" "say_word ''OVER''" "say_word ''RB''" "say_word ''TRIM''" "say_word ''BOOST''"
  "say_word ''BYPASS''" "say_word ''OFF''"
  by code_simp+

lemma pass_same: "pass_at st0 n toks u \<Longrightarrow> ups v = ups u \<Longrightarrow> n \<le> m \<Longrightarrow> pass_at st0 m toks v"
  by (fastforce simp: pass_at_def)

lemma pass_word:
  assumes "pass_at st0 n toks u" and "say_word w" and "n \<le> 20"
  shows "pass_at st0 (Suc n) (add_word toks w) (on_dstate (status_set w) u)"
proof -
  obtain tgt bz where t: "ups u = st0\<lparr>status_buf := tgt, buzzmode_buf := bz\<rparr>"
      "words_of tgt = filter (status_keep (ignorelb st0)) toks" "length tgt \<le> 8 * n"
    using assms(1) by (auto simp: pass_at_def)
  have w: "words_of w = [w]" "length w \<le> 7" "\<not> same_nocase w ''ALARM''" using assms(2) by (simp_all add: say_word_def)
  have "length (status_buf (ups u)) + length w + 2 < ST_MAX_VALUE_LEN"
    using t(1,3) w(2) assms(3) by (simp add: ST_MAX_VALUE_LEN_def)
  from status_set_spec [OF this] obtain tgt' where s: "status_set w (ups u) = (ups u)\<lparr>status_buf := tgt'\<rparr>"
      "words_of tgt' = foldl add_word (words_of tgt) (filter (status_keep (ignorelb st0)) [w])"
      "length tgt' \<le> length tgt + length w + 1"
    using t(1) w(1,3) by auto
  have "words_of tgt' = filter (status_keep (ignorelb st0)) (add_word toks w)"
    using s(2) t(2) by (auto simp: add_word_def)
  then show ?thesis
    using s t(1,3) w(2) unfolding pass_at_def by (intro exI [of _ tgt'] exI [of _ bz]) (simp add: on_dstate_def)
qed

lemma pass_get:
  assumes "pass_at st0 n toks u" and "say_word w" and "\<not> same_nocase w ''LB''"
  shows "status_get w (ups u) \<longleftrightarrow> w \<in> set toks"
proof -
  have "w \<noteq> []" "CHR 32 \<notin> set w" using assms(2) words_of_words [of w w] by (simp_all add: say_word_def)
  moreover have "status_keep (ignorelb st0) w" using assms(2,3) by (simp add: status_keep_def say_word_def)
  ultimately show ?thesis using assms(1) by (auto simp: status_get_def pass_at_def contains_token_iff)
qed

end
