(* ===== verification/UsbHidPass.thy ===== *)
theory UsbHidPass
  imports UsbHidSpec
begin

text \<open>
  The words of \<open>ups.status\<close> in a pass of the USB HID driver: the code computes the words of the
  specification, publishes them, and publishes low battery on battery power at once.
\<close>

section \<open>Each step says its words\<close>

lemma on_dstate_frame [simp]:
  "ups_status (on_dstate f u) = ups_status u" "last_lb_start (on_dstate f u) = last_lb_start u"
  "last_rb_start (on_dstate f u) = last_rb_start u" "ups (on_dstate f u) = f (ups u)"
  by (simp_all add: on_dstate_def)

lemma has_status_bit: "has_status u b = bit_of (ups_status u) b"
  by (simp add: has_status_def bit_of_def)

definition same_marks :: "hid_state \<Rightarrow> hid_state \<Rightarrow> bool" where
  "same_marks u v \<longleftrightarrow> ups_status v = ups_status u \<and> last_lb_start v = last_lb_start u \<and> last_rb_start v = last_rb_start u"

lemma pass_says:
  "pass_at st0 n toks u \<Longrightarrow> say_word w \<Longrightarrow> n \<le> 20 \<Longrightarrow>
   pass_at st0 (Suc n) (foldl add_word toks (says b w)) (if b then on_dstate (status_set w) u else u)"
  using pass_word pass_same [of st0 n toks u u "Suc n"] by simp

lemma pass_CAL:
  assumes "pass_at st0 n toks u" and "n \<le> 20"
  shows "pass_at st0 (Suc n) (add_word toks ''CAL'') (status_set_CAL now u)"
proof -
  have other: "\<not> same_nocase ''CAL'' ''LB''" by code_simp
  have get: "status_get ''CAL'' (ups u) \<longleftrightarrow> ''CAL'' \<in> set toks" by (rule pass_get [OF assms(1) status_words_ok(1) other])
  let ?u = "if last_calibration_start u = 0 then u\<lparr>last_calibration_start := now\<rparr> else u"
  have u: "pass_at st0 n toks ?u" by (rule pass_same [OF assms(1)]) simp_all
  show ?thesis
  proof (cases "''CAL'' \<in> set toks")
    case True
    then show ?thesis using get pass_same [OF u refl, of "Suc n"] by (simp add: status_set_CAL_def add_word_def Let_def)
  next
    case False
    then show ?thesis using get pass_word [OF u status_words_ok(1) assms(2)] by (simp add: status_set_CAL_def Let_def)
  qed
qed

lemma CAL_marks [simp]:
  "ups_status (status_set_CAL now u) = ups_status u" "last_lb_start (status_set_CAL now u) = last_lb_start u"
  "last_rb_start (status_set_CAL now u) = last_rb_start u"
  by (simp_all add: status_set_CAL_def Let_def)

lemma throttle_frame [simp]:
  "ups (throttle_log cfg now u) = ups u" "ups_status (throttle_log cfg now u) = ups_status u"
  "last_lb_start (throttle_log cfg now u) = last_lb_start u" "last_rb_start (throttle_log cfg now u) = last_rb_start u"
  "ups (throttle_reset u) = ups u" "ups_status (throttle_reset u) = ups_status u"
  "last_lb_start (throttle_reset u) = last_lb_start u" "last_rb_start (throttle_reset u) = last_rb_start u"
  by (simp_all add: throttle_log_def throttle_charge_def throttle_reset_def Let_def split: option.split)

lemma pass_CAL_if:
  "pass_at st0 n toks u \<Longrightarrow> n \<le> 20 \<Longrightarrow>
   pass_at st0 (Suc n) (foldl add_word toks (says b ''CAL'')) (if b then status_set_CAL now u else u)"
  using pass_CAL pass_same [of st0 n toks u u "Suc n"] by simp

lemma online_discharging_words:
  assumes "pass_at st0 n toks u" and "n \<le> 15"
  shows "pass_at st0 (n + 3) (foldl add_word toks
      (says (onlinedischarge_calibration cfg) ''CAL'' @ says (onlinedischarge_onbattery cfg) ''OB'' @
       says (\<not> onlinedischarge_onbattery cfg \<and> \<not> onlinedischarge_calibration cfg) ''OL''))
     (online_discharging cfg now u)"
    "same_marks u (online_discharging cfg now u)"
proof -
  let ?u1 = "if onlinedischarge_calibration cfg then status_set_CAL now u else u"
  let ?u2 = "if onlinedischarge_onbattery cfg then on_dstate (status_set ''OB'') ?u1 else ?u1"
  let ?neither = "\<not> onlinedischarge_onbattery cfg \<and> \<not> onlinedischarge_calibration cfg"
  let ?u3 = "if ?neither then on_dstate (status_set ''OL'') ?u2 else ?u2"
  have 1: "pass_at st0 (Suc n) (foldl add_word toks (says (onlinedischarge_calibration cfg) ''CAL'')) ?u1"
    by (rule pass_CAL_if [OF assms(1)]) (use assms(2) in simp)
  have 2: "pass_at st0 (Suc (Suc n)) (foldl add_word toks
      (says (onlinedischarge_calibration cfg) ''CAL'' @ says (onlinedischarge_onbattery cfg) ''OB'')) ?u2"
    using pass_says [OF 1 status_words_ok(2), of "onlinedischarge_onbattery cfg"] assms(2) unfolding foldl_append by simp
  have 3: "pass_at st0 (n + 3) (foldl add_word toks
      (says (onlinedischarge_calibration cfg) ''CAL'' @ says (onlinedischarge_onbattery cfg) ''OB'' @ says ?neither ''OL'')) ?u3"
    using pass_says [OF 2 status_words_ok(3), of ?neither] assms(2)
    unfolding foldl_append append_assoc [symmetric] by (simp add: eval_nat_numeral)
  have same: "ups (online_discharging cfg now u) = ups ?u3"
    by (simp add: online_discharging_def Let_def)
  show "pass_at st0 (n + 3) (foldl add_word toks
      (says (onlinedischarge_calibration cfg) ''CAL'' @ says (onlinedischarge_onbattery cfg) ''OB'' @ says ?neither ''OL''))
     (online_discharging cfg now u)"
    by (rule pass_same [OF 3 same order_refl])
  show "same_marks u (online_discharging cfg now u)"
    by (simp add: same_marks_def online_discharging_def Let_def)
qed

lemma power_words_tokens:
  assumes "pass_at st0 n toks u" and "n \<le> 12"
  shows "pass_at st0 (n + 4) (foldl add_word toks (power_tokens cfg (ups_status u))) (power_words cfg now u)"
    "same_marks u (power_words cfg now u)"
proof -
  let ?s = "ups_status u"
  define u1 where "u1 = (if bit_of ?s OFFLINE then on_dstate (status_set ''OB'') u else u)"
  have s1: "ups_status u1 = ?s" "same_marks u u1" by (simp_all add: u1_def same_marks_def)
  have 1: "pass_at st0 (Suc n) (foldl add_word toks (says (bit_of ?s OFFLINE) ''OB'')) u1"
    unfolding u1_def by (rule pass_says [OF assms(1) status_words_ok(2)]) (use assms(2) in simp)
  have n: "Suc n \<le> 15" "Suc n \<le> 20" using assms(2) by simp_all
  have pw: "power_words cfg now u =
      (if \<not> bit_of ?s ONLINE then if bit_of ?s OFFLINE \<or> bit_of ?s DISCHRG then on_dstate (status_set ''OB'') u1 else u1
       else if bit_of ?s DISCHRG then online_discharging cfg now u1 else on_dstate (status_set ''OL'') u1)"
    by (simp add: power_words_def Let_def has_status_bit u1_def)
  consider "\<not> bit_of ?s ONLINE" | "bit_of ?s ONLINE" "bit_of ?s DISCHRG" | "bit_of ?s ONLINE" "\<not> bit_of ?s DISCHRG" by blast
  then have "pass_at st0 (n + 4) (foldl add_word toks (power_tokens cfg ?s)) (power_words cfg now u) \<and>
      same_marks u1 (power_words cfg now u)"
  proof cases
    case 1
    have "pass_at st0 (Suc (Suc n)) (foldl add_word (foldl add_word toks (says (bit_of ?s OFFLINE) ''OB''))
        (says (bit_of ?s OFFLINE \<or> bit_of ?s DISCHRG) ''OB'')) (power_words cfg now u)"
      using pass_says [OF \<open>pass_at st0 (Suc n) _ u1\<close> status_words_ok(2) n(2), of "bit_of ?s OFFLINE \<or> bit_of ?s DISCHRG"] 1
      by (simp add: pw)
    then have "pass_at st0 (n + 4) (foldl add_word (foldl add_word toks (says (bit_of ?s OFFLINE) ''OB''))
        (says (bit_of ?s OFFLINE \<or> bit_of ?s DISCHRG) ''OB'')) (power_words cfg now u)"
      by (rule pass_same) simp_all
    moreover have "foldl add_word (foldl add_word toks (says (bit_of ?s OFFLINE) ''OB''))
        (says (bit_of ?s OFFLINE \<or> bit_of ?s DISCHRG) ''OB'') = foldl add_word toks (power_tokens cfg ?s)"
      using 1 unfolding power_tokens_def foldl_append by simp
    ultimately show ?thesis using 1 by (simp add: pw same_marks_def)
  next
    case 2
    have "pass_at st0 (n + 4) (foldl add_word (foldl add_word toks (says (bit_of ?s OFFLINE) ''OB''))
        (says (onlinedischarge_calibration cfg) ''CAL'' @ says (onlinedischarge_onbattery cfg) ''OB'' @
         says (\<not> onlinedischarge_onbattery cfg \<and> \<not> onlinedischarge_calibration cfg) ''OL'')) (power_words cfg now u)"
      using online_discharging_words(1) [OF \<open>pass_at st0 (Suc n) _ u1\<close> n(1), of cfg now] 2 by (simp add: pw eval_nat_numeral)
    then show ?thesis using online_discharging_words(2) [OF \<open>pass_at st0 (Suc n) _ u1\<close> n(1), of cfg now] 2
      by (simp only: pw if_True if_False power_tokens_def foldl_append simp_thms)
  next
    case 3
    have "pass_at st0 (Suc (Suc n)) (foldl add_word (foldl add_word toks (says (bit_of ?s OFFLINE) ''OB'')) (says True ''OL''))
        (power_words cfg now u)"
      using pass_says [OF \<open>pass_at st0 (Suc n) _ u1\<close> status_words_ok(3) n(2), of True] 3 by (simp add: pw)
    then have "pass_at st0 (n + 4) (foldl add_word (foldl add_word toks (says (bit_of ?s OFFLINE) ''OB'')) (says True ''OL''))
        (power_words cfg now u)" by (rule pass_same) simp_all
    then show ?thesis using 3 by (simp only: pw if_True if_False power_tokens_def foldl_append simp_thms) (simp add: same_marks_def)
  qed
  then show "pass_at st0 (n + 4) (foldl add_word toks (power_tokens cfg ?s)) (power_words cfg now u)"
    "same_marks u (power_words cfg now u)" using s1(2) by (simp_all add: same_marks_def)
qed

lemma pass_getinfo: "pass_at st0 n toks u \<Longrightarrow> dstate_getinfo (ups u) w = dstate_getinfo st0 w"
  by (auto simp: pass_at_def dstate_getinfo_def)

lemma charge_words_tokens:
  assumes "pass_at st0 n toks u" and "n \<le> 18"
  shows "pass_at st0 (n + 2) (foldl add_word toks
      (says (bit_of (ups_status u) DISCHRG \<and> \<not> bit_of (ups_status u) DEPLETED) ''DISCHRG'' @
       says (charging (ups_status u) (dstate_getinfo st0 ''battery.charge'')) ''CHRG'')) (charge_words u)"
    "same_marks u (charge_words u)"
proof -
  let ?s = "ups_status u"
  define u1 where "u1 = (if bit_of ?s DISCHRG \<and> \<not> bit_of ?s DEPLETED then on_dstate (status_set ''DISCHRG'') u else u)"
  have s1: "ups_status u1 = ?s" "same_marks u u1" by (simp_all add: u1_def same_marks_def)
  have 1: "pass_at st0 (Suc n) (foldl add_word toks (says (bit_of ?s DISCHRG \<and> \<not> bit_of ?s DEPLETED) ''DISCHRG'')) u1"
    unfolding u1_def by (rule pass_says [OF assms(1) status_words_ok(4)]) (use assms(2) in simp)
  have "charge_words u = (if charging ?s (dstate_getinfo (ups u1) ''battery.charge'') then on_dstate (status_set ''CHRG'') u1 else u1)"
    unfolding charge_words_def has_status_bit u1_def [symmetric] Let_def
    by (auto simp: has_status_bit s1 charging_def split: option.split)
  then have cw: "charge_words u = (if charging ?s (dstate_getinfo st0 ''battery.charge'') then on_dstate (status_set ''CHRG'') u1 else u1)"
    by (simp only: pass_getinfo [OF 1])
  show "same_marks u (charge_words u)" using s1 by (simp add: cw same_marks_def)
  show "pass_at st0 (n + 2) (foldl add_word toks
      (says (bit_of ?s DISCHRG \<and> \<not> bit_of ?s DEPLETED) ''DISCHRG'' @
       says (charging ?s (dstate_getinfo st0 ''battery.charge'')) ''CHRG'')) (charge_words u)"
    using pass_says [OF 1 status_words_ok(5), of "charging ?s (dstate_getinfo st0 ''battery.charge'')"] assms(2)
    unfolding foldl_append cw by simp
qed

lemma low_battery_mask:
  "ups_status u AND (STATUS LOWBATT OR STATUS TIMELIMITEXP OR STATUS SHUTDOWNIMM) \<noteq> 0 \<longleftrightarrow> battery_asks (ups_status u)"
  by (auto simp: bits_or battery_asks_def bit_of_def)

lemma lb_words_tokens:
  assumes "pass_at st0 n toks u" and "n \<le> 20" and "cal \<longleftrightarrow> calibrating cfg (ups_status u)"
  shows "pass_at st0 (Suc n) (foldl add_word toks (says (says_lb cfg (ups_status u) (last_lb_start u) now) ''LB'')) (lb_words cfg now cal u)"
    "ups_status (lb_words cfg now cal u) = ups_status u" "last_rb_start (lb_words cfg now cal u) = last_rb_start u"
    "last_lb_start (lb_words cfg now cal u) = lb_start_after cfg (ups_status u) (last_lb_start u) now"
proof -
  let ?v = "lb_words cfg now cal u"
  let ?b = "says_lb cfg (ups_status u) (last_lb_start u) now"
  have "ups ?v = ups (if ?b then on_dstate (status_set ''LB'') u else u)"
    using assms(3) unfolding lb_words_def low_battery_mask has_status_bit says_lb_def delayed_def waited_def difftime_def
    by auto
  then show "pass_at st0 (Suc n) (foldl add_word toks (says ?b ''LB'')) ?v"
    using pass_same [OF pass_says [OF assms(1) status_words_ok(6) assms(2), of ?b]] by blast
  show "ups_status ?v = ups_status u" "last_rb_start ?v = last_rb_start u"
    by (simp_all add: lb_words_def)
  show "last_lb_start ?v = lb_start_after cfg (ups_status u) (last_lb_start u) now"
    using assms(3) unfolding lb_words_def low_battery_mask has_status_bit lb_start_after_def delayed_def by auto
qed

lemma rb_words_tokens:
  assumes "pass_at st0 n toks u" and "n \<le> 20" and "cal \<longleftrightarrow> calibrating cfg (ups_status u)"
    and "last_lb_start u = lb_start_after cfg (ups_status u) lb now"
  shows "pass_at st0 (Suc n) (foldl add_word toks (says (says_rb cfg (ups_status u) lb (last_rb_start u) now) ''RB'')) (rb_words cfg now cal u)"
    "ups_status (rb_words cfg now cal u) = ups_status u" "last_lb_start (rb_words cfg now cal u) = last_lb_start u"
proof -
  let ?v = "rb_words cfg now cal u"
  let ?b = "says_rb cfg (ups_status u) lb (last_rb_start u) now"
  have "ups ?v = ups (if ?b then on_dstate (status_set ''RB'') u else u)"
    using assms(3) unfolding rb_words_def has_status_bit says_rb_def delayed_def waited_def difftime_def assms(4) [symmetric]
    by auto
  then show "pass_at st0 (Suc n) (foldl add_word toks (says ?b ''RB'')) ?v"
    using pass_same [OF pass_says [OF assms(1) status_words_ok(8) assms(2), of ?b]] by blast
  show "ups_status ?v = ups_status u" "last_lb_start ?v = last_lb_start u"
    by (simp_all add: rb_words_def)
qed

lemma add_one_no_callback: "snd (snd (add_one_token None None n w (tgt, s))) = s"
  by (simp add: add_one_token_def run_callback_def)

lemma add_tokens_no_callback: "snd (snd (add_tokens None None n r ws (tgt, s))) = s"
proof (induction ws arbitrary: r tgt)
  case (Cons w ws)
  obtain r1 tgt1 where "add_one_token None None n w (tgt, s) = (r1, (tgt1, s))"
    using add_one_no_callback [of n w tgt s] by (metis prod.collapse)
  then show ?case using Cons by simp
qed simp

lemma buzzmode_set_only: "\<exists>tgt. buzzmode_set w st = st\<lparr>buzzmode_buf := tgt\<rparr>"
proof -
  have "snd (snd (str_add_unique_token None None ST_MAX_VALUE_LEN w (buzzmode_buf st, st))) = st"
    by (simp add: str_add_unique_token_def add_one_no_callback add_tokens_no_callback)
  then show ?thesis by (auto simp: buzzmode_set_def split: prod.split)
qed

lemma pass_buzz: "pass_at st0 n toks u \<Longrightarrow> pass_at st0 n toks (if b then on_dstate (buzzmode_set w) u else u)"
proof -
  assume "pass_at st0 n toks u"
  then obtain tgt bz where t: "ups u = st0\<lparr>status_buf := tgt, buzzmode_buf := bz\<rparr>"
      "words_of tgt = filter (status_keep (ignorelb st0)) toks" "length tgt \<le> 8 * n"
    by (auto simp: pass_at_def)
  obtain bz2 where "buzzmode_set w (ups u) = (ups u)\<lparr>buzzmode_buf := bz2\<rparr>" using buzzmode_set_only by blast
  then have "ups (if b then on_dstate (buzzmode_set w) u else u) = st0\<lparr>status_buf := tgt, buzzmode_buf := (if b then bz2 else bz)\<rparr>"
    using t(1) by simp
  then show ?thesis unfolding pass_at_def using t(2,3) by blast
qed

lemma other_words_tokens:
  assumes "pass_at st0 n toks u" and "n \<le> 16"
  shows "pass_at st0 (n + 4) (foldl add_word toks
      (says (bit_of (ups_status u) TRIM) ''TRIM'' @ says (bit_of (ups_status u) BOOST) ''BOOST''
       @ says (bit_of (ups_status u) BYPASSAUTO \<or> bit_of (ups_status u) BYPASSMAN) ''BYPASS''
       @ says (bit_of (ups_status u) OFF) ''OFF'')) (other_words u)"
    "ups_status (other_words u) = ups_status u"
proof -
  let ?s = "ups_status u"
  define u1 where "u1 = (if bit_of ?s TRIM then on_dstate (status_set ''TRIM'') u else u)"
  define u2 where "u2 = (if bit_of ?s BOOST then on_dstate (status_set ''BOOST'') u1 else u1)"
  define u3 where "u3 = (if bit_of ?s BYPASSAUTO \<or> bit_of ?s BYPASSMAN then on_dstate (status_set ''BYPASS'') u2 else u2)"
  define u4 where "u4 = (if bit_of ?s ECOMODE then on_dstate (buzzmode_set ''vendor:default:ECO'') u3 else u3)"
  define u5 where "u5 = (if bit_of ?s ESSMODE then on_dstate (buzzmode_set ''vendor:default:ESS'') u4 else u4)"
  define u6 where "u6 = (if bit_of ?s OFF then on_dstate (status_set ''OFF'') u5 else u5)"
  note defs = u1_def u2_def u3_def u4_def u5_def u6_def
  have s: "ups_status u1 = ?s" "ups_status u2 = ?s" "ups_status u3 = ?s" "ups_status u4 = ?s" "ups_status u5 = ?s" "ups_status u6 = ?s"
    by (simp_all add: defs)
  have bypass: "ups_status u2 AND (STATUS BYPASSAUTO OR STATUS BYPASSMAN) \<noteq> 0 \<longleftrightarrow> bit_of ?s BYPASSAUTO \<or> bit_of ?s BYPASSMAN"
    by (simp add: bits_or bit_of_def s)
  have ow: "other_words u = u6"
    unfolding other_words_def Let_def has_status_bit
    unfolding u1_def [symmetric] s unfolding u2_def [symmetric] bypass unfolding u3_def [symmetric] s
    unfolding u4_def [symmetric] s unfolding u5_def [symmetric] s unfolding u6_def [symmetric] by (rule refl)
  let ?t1 = "foldl add_word toks (says (bit_of ?s TRIM) ''TRIM'')"
  let ?t2 = "foldl add_word ?t1 (says (bit_of ?s BOOST) ''BOOST'')"
  let ?t3 = "foldl add_word ?t2 (says (bit_of ?s BYPASSAUTO \<or> bit_of ?s BYPASSMAN) ''BYPASS'')"
  have 1: "pass_at st0 (Suc n) ?t1 u1" unfolding u1_def by (rule pass_says [OF assms(1) status_words_ok(9)]) (use assms(2) in simp)
  have 2: "pass_at st0 (Suc (Suc n)) ?t2 u2" unfolding u2_def by (rule pass_says [OF 1 status_words_ok(10)]) (use assms(2) in simp)
  have 3: "pass_at st0 (Suc (Suc (Suc n))) ?t3 u3" unfolding u3_def by (rule pass_says [OF 2 status_words_ok(11)]) (use assms(2) in simp)
  have 5: "pass_at st0 (Suc (Suc (Suc n))) ?t3 u5" unfolding u5_def u4_def by (intro pass_buzz 3)
  have "pass_at st0 (Suc (Suc (Suc (Suc n)))) (foldl add_word ?t3 (says (bit_of ?s OFF) ''OFF'')) u6"
    unfolding u6_def by (rule pass_says [OF 5 status_words_ok(12)]) (use assms(2) in simp)
  then show "pass_at st0 (n + 4) (foldl add_word toks
      (says (bit_of ?s TRIM) ''TRIM'' @ says (bit_of ?s BOOST) ''BOOST''
       @ says (bit_of ?s BYPASSAUTO \<or> bit_of ?s BYPASSMAN) ''BYPASS'' @ says (bit_of ?s OFF) ''OFF'')) (other_words u)"
    unfolding ow foldl_append by (simp add: eval_nat_numeral)
  show "ups_status (other_words u) = ?s" unfolding ow by (rule s)
qed

section \<open>All words of a pass\<close>

lemma CAL_said:
  "''CAL'' \<in> set (foldl add_word [] (says (bit_of s CALIB) ''CAL'' @ power_tokens cfg s)) \<longleftrightarrow> calibrating cfg s"
  by (auto simp: words_add_word power_tokens_def calibrating_def)

lemma marks_frame [simp]:
  "last_lb_start (end_calibration now cal u) = last_lb_start u" "last_lb_start (other_words u) = last_lb_start u"
  by (simp_all add: end_calibration_def other_words_def Let_def)

lemma end_calibration_frame [simp]: "ups (end_calibration now cal u) = ups u" "ups_status (end_calibration now cal u) = ups_status u"
  by (simp_all add: end_calibration_def)

lemma status_words_tokens:
  assumes "status_buf (ups u) = []"
  shows "pass_at (ups u) 16 (foldl add_word [] (status_tokens cfg now u)) (status_words cfg now u)"
    "ups_status (status_words cfg now u) = ups_status u"
    "last_lb_start (status_words cfg now u) = lb_start_after cfg (ups_status u) (last_lb_start u) now"
proof -
  let ?s = "ups_status u" and ?st0 = "ups u"
  define u1 where "u1 = (if bit_of ?s CALIB then status_set_CAL now u else u)"
  define u2 where "u2 = power_words cfg now (throttle_reset u1)"
  define cal where "cal = status_get ''CAL'' (ups u2)"
  define u2c where "u2c = charge_words u2"
  define u3 where "u3 = lb_words cfg now cal u2c"
  define u4 where "u4 = (if bit_of ?s OVERLOAD then on_dstate (status_set ''OVER'') u3 else u3)"
  define u5 where "u5 = rb_words cfg now cal u4"
  define u6 where "u6 = other_words u5"
  have "words_of [] = ([] :: cstring list)" by (simp add: words_of_def)
  then have 0: "pass_at ?st0 0 [] u" using assms
    unfolding pass_at_def by (intro exI [of _ "[]"] exI [of _ "buzzmode_buf ?st0"]) simp
  have 1: "pass_at ?st0 1 (foldl add_word [] (says (bit_of ?s CALIB) ''CAL'')) (throttle_reset u1)"
    using pass_same [OF pass_CAL_if [OF 0, of "bit_of ?s CALIB" now], of "throttle_reset u1" 1] by (simp add: u1_def)
  have m1: "ups_status (throttle_reset u1) = ?s" "last_lb_start (throttle_reset u1) = last_lb_start u"
    "last_rb_start (throttle_reset u1) = last_rb_start u" by (simp_all add: u1_def)
  have 2: "pass_at ?st0 5 (foldl add_word [] (says (bit_of ?s CALIB) ''CAL'' @ power_tokens cfg ?s)) u2"
    using power_words_tokens(1) [OF 1, of cfg now] m1(1) by (simp add: u2_def)
  have m2: "ups_status u2 = ?s" "last_lb_start u2 = last_lb_start u" "last_rb_start u2 = last_rb_start u"
    using power_words_tokens(2) [OF 1, of cfg now] m1 by (simp_all add: u2_def same_marks_def)
  have other: "\<not> same_nocase ''CAL'' ''LB''" by code_simp
  have cal: "cal \<longleftrightarrow> calibrating cfg ?s"
    unfolding cal_def pass_get [OF 2 status_words_ok(1) other] by (rule CAL_said)
  let ?t2 = "says (bit_of ?s CALIB) ''CAL'' @ power_tokens cfg ?s"
  let ?charge = "says (bit_of ?s DISCHRG \<and> \<not> bit_of ?s DEPLETED) ''DISCHRG'' @
       says (charging ?s (dstate_getinfo ?st0 ''battery.charge'')) ''CHRG''"
  have 3: "pass_at ?st0 7 (foldl add_word (foldl add_word [] ?t2) ?charge) u2c"
    using charge_words_tokens(1) [OF 2] m2(1) by (simp add: u2c_def)
  have m3: "ups_status u2c = ?s" "last_lb_start u2c = last_lb_start u" "last_rb_start u2c = last_rb_start u"
    using charge_words_tokens(2) [OF 2] m2 by (simp_all add: u2c_def same_marks_def)
  let ?lb = "says (says_lb cfg ?s (last_lb_start u) now) ''LB''"
  have cal3: "cal \<longleftrightarrow> calibrating cfg (ups_status u2c)" using cal m3(1) by simp
  have 4: "pass_at ?st0 8 (foldl add_word (foldl add_word (foldl add_word [] ?t2) ?charge) ?lb) u3"
    using lb_words_tokens(1) [OF 3 _ cal3, of now] m3 by (simp add: u3_def)
  have m4: "ups_status u3 = ?s" "last_rb_start u3 = last_rb_start u" "last_lb_start u3 = lb_start_after cfg ?s (last_lb_start u) now"
    using lb_words_tokens(2-4) [OF 3 _ cal3, of now] m3 by (simp_all add: u3_def)
  let ?over = "says (bit_of ?s OVERLOAD) ''OVER''"
  have 5: "pass_at ?st0 9 (foldl add_word (foldl add_word (foldl add_word (foldl add_word [] ?t2) ?charge) ?lb) ?over) u4"
    using pass_says [OF 4 status_words_ok(7), of "bit_of ?s OVERLOAD"] by (simp add: u4_def)
  have m5: "ups_status u4 = ?s" "last_rb_start u4 = last_rb_start u" "last_lb_start u4 = lb_start_after cfg (ups_status u4) (last_lb_start u) now"
    "cal \<longleftrightarrow> calibrating cfg (ups_status u4)"
    using m4 cal by (simp_all add: u4_def)
  let ?rb = "says (says_rb cfg ?s (last_lb_start u) (last_rb_start u) now) ''RB''"
  have 6: "pass_at ?st0 10 (foldl add_word (foldl add_word (foldl add_word (foldl add_word (foldl add_word [] ?t2) ?charge) ?lb) ?over) ?rb) u5"
    using rb_words_tokens(1) [OF 5 _ m5(4,3)] m5 by (simp add: u5_def)
  have m6: "ups_status u5 = ?s" using rb_words_tokens(2) [OF 5 _ m5(4,3)] m5 by (simp add: u5_def)
  have 7: "pass_at ?st0 14 (foldl add_word [] (status_tokens cfg now u)) u6"
    using other_words_tokens(1) [OF 6] unfolding u6_def [symmetric] m6 status_tokens_def Let_def foldl_append by simp
  have eq: "status_words cfg now u = end_calibration now cal u6"
    unfolding status_words_def has_status_bit Let_def
    unfolding u1_def [symmetric] unfolding u2_def [symmetric] unfolding cal_def [symmetric] unfolding u2c_def [symmetric]
    unfolding u3_def [symmetric] m4(1) unfolding u4_def [symmetric] unfolding u5_def [symmetric] unfolding u6_def [symmetric]
    by (rule refl)
  show "pass_at ?st0 16 (foldl add_word [] (status_tokens cfg now u)) (status_words cfg now u)"
    unfolding eq by (rule pass_same [OF 7]) simp_all
  show "ups_status (status_words cfg now u) = ?s"
    using other_words_tokens(2) [OF 6] m6 by (simp add: eq u6_def)
  show "last_lb_start (status_words cfg now u) = lb_start_after cfg ?s (last_lb_start u) now"
    using rb_words_tokens(3) [OF 5 _ m5(4,3)] m5(1,3) by (simp add: eq u6_def u5_def)
qed

section \<open>The published status\<close>

definition usb_words :: "(derrno \<times> trend) option \<Rightarrow> hid_settings \<Rightarrow> int \<Rightarrow> hid_state \<Rightarrow> cstring list" where
  "usb_words charge cfg now u =
     (let nolb = (dstate_getinfo (ups u) ''driver.flag.ignorelb'' \<noteq> None) in
      says (alarm_active (ups u) \<noteq> 0) ''ALARM''
      @ foldl add_word (filter (status_keep nolb) (foldl add_word [] (status_tokens cfg now u))
          @ says (nolb \<and> battery_low (ups u)) ''LB'')
        (trend_words charge (ups u)))"

definition driver_ready :: "hid_state \<Rightarrow> bool" where
  "driver_ready u \<longleftrightarrow> settled_ds (ups u) \<and> \<not> immutable_at (dtree_root (ups u)) ''ups.status''"

lemma reason_apart:
  "\<not> same_nocase SYNC_VAR ''input.transfer.reason''"
  "\<not> same_nocase ''input.transfer.reason'' ''ups.status''" "\<not> same_nocase ''input.transfer.reason'' ''driver.flag.ignorelb''"
  "\<not> same_nocase ''input.transfer.reason'' ''battery.charge''" "\<not> same_nocase ''input.transfer.reason'' ''battery.charge.low''"
  "\<not> same_nocase ''input.transfer.reason'' ''battery.runtime''" "\<not> same_nocase ''input.transfer.reason'' ''battery.runtime.low''"
  by code_simp+

lemma buzz_apart:
  "\<not> same_nocase ''experimental.ups.mode.buzzwords'' ''ups.status''"
  "\<not> same_nocase ''experimental.ups.mode.buzzwords'' ''driver.flag.ignorelb''"
  "\<not> same_nocase ''experimental.ups.mode.buzzwords'' ''battery.charge''"
  "\<not> same_nocase ''experimental.ups.mode.buzzwords'' ''battery.charge.low''"
  "\<not> same_nocase ''experimental.ups.mode.buzzwords'' ''battery.runtime''"
  "\<not> same_nocase ''experimental.ups.mode.buzzwords'' ''battery.runtime.low''"
  by code_simp+

lemma tree_find_getinfo: "dstate_tree_find st v = None \<longleftrightarrow> dstate_getinfo st v = None"
  by (simp add: dstate_tree_find_def dstate_getinfo_def state_getinfo_def split: option.split)

text \<open>The part of the state that the status is made of.\<close>

definition same_basis :: "dstate \<Rightarrow> dstate \<Rightarrow> bool" where
  "same_basis st s \<longleftrightarrow> same_but_tree st s \<and> settled_ds s
     \<and> immutable_at (dtree_root s) ''ups.status'' = immutable_at (dtree_root st) ''ups.status''
     \<and> dstate_getinfo s ''driver.flag.ignorelb'' = dstate_getinfo st ''driver.flag.ignorelb''
     \<and> dstate_getinfo s ''battery.charge'' = dstate_getinfo st ''battery.charge''
     \<and> dstate_getinfo s ''battery.charge.low'' = dstate_getinfo st ''battery.charge.low''
     \<and> dstate_getinfo s ''battery.runtime'' = dstate_getinfo st ''battery.runtime''
     \<and> dstate_getinfo s ''battery.runtime.low'' = dstate_getinfo st ''battery.runtime.low''"

lemma same_basis_low: "same_basis st s \<Longrightarrow> battery_low s = battery_low st"
  by (simp add: same_basis_def battery_low_def)

lemma same_basis_trend: "same_basis st s \<Longrightarrow> trend_words charge s = trend_words charge st"
  by (simp add: same_basis_def trend_words_def tree_find_getinfo split: option.split)

lemma basis_kept:
  assumes "settled_ds s" "same_but_tree st s"
    and "\<And>w. \<not> same_nocase var w \<Longrightarrow> dstate_getinfo s w = dstate_getinfo st w \<and>
        immutable_at (dtree_root s) w = immutable_at (dtree_root st) w"
    and "\<not> same_nocase var ''ups.status''" "\<not> same_nocase var ''driver.flag.ignorelb''" "\<not> same_nocase var ''battery.charge''"
    "\<not> same_nocase var ''battery.charge.low''" "\<not> same_nocase var ''battery.runtime''" "\<not> same_nocase var ''battery.runtime.low''"
  shows "same_basis st s"
  using assms(1,2) assms(3) [OF assms(4)] assms(3) [OF assms(5)] assms(3) [OF assms(6)] assms(3) [OF assms(7)]
    assms(3) [OF assms(8)] assms(3) [OF assms(9)]
  by (simp only: same_basis_def simp_thms)

lemma set_reason_basis:
  assumes "settled_ds st"
  shows "\<exists>r s. dstate_setinfo ''input.transfer.reason'' val st = Done (r, s) \<and> same_basis st s"
proof -
  obtain r s where s: "dstate_setinfo ''input.transfer.reason'' val st = Done (r, s)" "settled_ds s" "same_but_tree st s"
      "\<And>w. \<not> same_nocase ''input.transfer.reason'' w \<Longrightarrow> dstate_getinfo s w = dstate_getinfo st w \<and>
        immutable_at (dtree_root s) w = immutable_at (dtree_root st) w"
    using setinfo_settled [OF assms reason_apart(1), of val] by metis
  then show ?thesis using basis_kept [OF s(2-4)] reason_apart by blast
qed

lemma transfer_reason_basis:
  assumes "settled_ds (ups u)"
  shows "\<exists>st. transfer_reason u = Done (u\<lparr>ups := st\<rparr>) \<and> same_basis (ups u) st"
proof -
  obtain r1 s1 where 1: "dstate_setinfo ''input.transfer.reason'' ''input voltage out of range'' (ups u) = Done (r1, s1)"
      "same_basis (ups u) s1" using set_reason_basis [OF assms] by blast
  obtain r2 s2 where 2: "dstate_setinfo ''input.transfer.reason'' ''input frequency out of range'' (ups u) = Done (r2, s2)"
      "same_basis (ups u) s2" using set_reason_basis [OF assms] by blast
  obtain r3 s3 where 3: "dstate_delinfo ''input.transfer.reason'' (ups u) = Done (r3, s3)" "settled_ds s3" "same_but_tree (ups u) s3"
      "\<And>w. \<not> same_nocase ''input.transfer.reason'' w \<Longrightarrow> dstate_getinfo s3 w = dstate_getinfo (ups u) w \<and>
        immutable_at (dtree_root s3) w = immutable_at (dtree_root (ups u)) w"
    using delinfo_settled [OF assms reason_apart(1)] by blast
  have 4: "same_basis (ups u) s3" by (rule basis_kept [OF 3(2-4)]) (use reason_apart in \<open>simp_all only: simp_thms\<close>)
  show ?thesis
  proof (cases "has_status u VRANGE")
    case True
    then show ?thesis using 1 unfolding transfer_reason_def by auto
  next
    case False
    then show ?thesis using 2 3(1) 4 unfolding transfer_reason_def by (cases "has_status u FRANGE") auto
  qed
qed

lemma buzzmode_commit_basis: "settled_ds st \<Longrightarrow> \<exists>s. buzzmode_commit st = Done s \<and> same_basis st s"
proof -
  assume "settled_ds st"
  then obtain s where s: "buzzmode_commit st = Done s" "settled_ds s" "same_but_tree st s"
      "\<And>w. \<not> same_nocase ''experimental.ups.mode.buzzwords'' w \<Longrightarrow> dstate_getinfo s w = dstate_getinfo st w \<and>
        immutable_at (dtree_root s) w = immutable_at (dtree_root st) w"
    using buzzmode_commit_settled [of st] by blast
  have "same_basis st s" by (rule basis_kept [OF s(2-4)]) (use buzz_apart in \<open>simp_all only: simp_thms\<close>)
  then show ?thesis using s(1) by blast
qed

lemma status_tokens_cong:
  "ups_status v = ups_status u \<Longrightarrow> last_lb_start v = last_lb_start u \<Longrightarrow> last_rb_start v = last_rb_start u \<Longrightarrow>
   dstate_getinfo (ups v) ''battery.charge'' = dstate_getinfo (ups u) ''battery.charge'' \<Longrightarrow>
   status_tokens cfg now v = status_tokens cfg now u"
  by (simp add: status_tokens_def)

text \<open>Outside of the three variables that a pass publishes.\<close>

definition same_inputs :: "dstate \<Rightarrow> dstate \<Rightarrow> bool" where
  "same_inputs st s \<longleftrightarrow> alarm_active s = alarm_active st
     \<and> dstate_getinfo s ''driver.flag.ignorelb'' = dstate_getinfo st ''driver.flag.ignorelb''"

lemma flag_apart: "\<not> same_nocase ''ups.status'' ''driver.flag.ignorelb''"
  by code_simp

lemma commit_status_words:
  assumes "driver_ready u"
  shows "\<exists>v m. commit_status charge cfg now (begin_status u) = Done v \<and> driver_ready v \<and> same_inputs (ups u) (ups v)
     \<and> dstate_getinfo (ups v) ''ups.status'' = Some (pconf_encode m [] ST_MAX_VALUE_LEN)
     \<and> words_of m = usb_words charge cfg now u \<and> ups_status v = ups_status u
     \<and> last_lb_start v = lb_start_after cfg (ups_status u) (last_lb_start u) now"
proof -
  let ?b = "begin_status u"
  let ?nolb = "dstate_getinfo (ups u) ''driver.flag.ignorelb'' \<noteq> None"
  have b: "status_buf (ups ?b) = []" "ignorelb (ups ?b) = ?nolb" "\<not> alarm_legacy_status (ups ?b)"
    "alarm_active (ups ?b) = alarm_active (ups u)" "dtree_root (ups ?b) = dtree_root (ups u)"
    "do_synchronous (ups ?b) = do_synchronous (ups u)" "connhead (ups ?b) = connhead (ups u)"
    "ups_status ?b = ups_status u" "last_lb_start ?b = last_lb_start u" "last_rb_start ?b = last_rb_start u"
    by (simp_all add: begin_status_def buzzmode_init_def status_init_def)
  have get_b: "dstate_getinfo (ups ?b) w = dstate_getinfo (ups u) w" for w by (simp add: dstate_getinfo_def b(5))
  have "pending (ups ?b) = pending (ups u)" using b(5,6) by (rule pending_frame)
  then have set_b: "settled_ds (ups ?b)" using assms b(5,7) by (simp add: driver_ready_def settled_ds_def)
  have mut_b: "\<not> immutable_at (dtree_root (ups ?b)) ''ups.status''" using assms b(5) by (simp add: driver_ready_def)
  have find_b: "dstate_tree_find (ups ?b) = dstate_tree_find (ups u)" by (simp add: dstate_tree_find_def fun_eq_iff b(5))
  have basis_b: "battery_low (ups ?b) = battery_low (ups u)" "trend_words charge (ups ?b) = trend_words charge (ups u)"
    unfolding battery_low_def trend_words_def get_b find_b by (rule refl)+
  obtain st1 where r: "transfer_reason ?b = Done (?b\<lparr>ups := st1\<rparr>)" "same_basis (ups ?b) st1"
    using transfer_reason_basis [OF set_b] by blast
  let ?u1 = "?b\<lparr>ups := st1\<rparr>"
  have st1: "status_buf (ups ?u1) = []" "ignorelb st1 = ?nolb" "\<not> alarm_legacy_status st1" "alarm_active st1 = alarm_active (ups u)"
    "settled_ds st1" "\<not> immutable_at (dtree_root st1) ''ups.status''"
    "dstate_getinfo st1 ''driver.flag.ignorelb'' = dstate_getinfo (ups u) ''driver.flag.ignorelb''"
    using r(2) b mut_b get_b by (simp_all add: same_basis_def same_but_tree_iff)
  have toks: "status_tokens cfg now ?u1 = status_tokens cfg now u"
    using r(2) get_b b(8-10) by (intro status_tokens_cong) (simp_all add: same_basis_def)
  let ?toks = "foldl add_word [] (status_tokens cfg now u)"
  let ?u2 = "status_words cfg now ?u1"
  obtain tgt bz where p: "ups ?u2 = st1\<lparr>status_buf := tgt, buzzmode_buf := bz\<rparr>"
      "words_of tgt = filter (status_keep ?nolb) ?toks" "length tgt \<le> 128"
    using status_words_tokens(1) [OF st1(1), of cfg now] st1(2) by (auto simp: pass_at_def toks)
  have "pending (ups ?u2) = pending st1" unfolding p(1) by (rule pending_frame) simp_all
  then have set2: "settled_ds (ups ?u2)" using st1(5) by (simp add: settled_ds_def p(1))
  obtain st3 where c: "buzzmode_commit (ups ?u2) = Done st3" "same_basis (ups ?u2) st3"
    using buzzmode_commit_basis [OF set2] by blast
  have st3: "status_buf st3 = tgt" "ignorelb st3 = ?nolb" "\<not> alarm_legacy_status st3" "alarm_active st3 = alarm_active (ups u)"
    "settled_ds st3" "\<not> immutable_at (dtree_root st3) ''ups.status''"
    "dstate_getinfo st3 ''driver.flag.ignorelb'' = dstate_getinfo (ups u) ''driver.flag.ignorelb''"
    using c(2) st1 p(1) by (simp_all add: same_basis_def same_but_tree_iff dstate_getinfo_def)
  have find2: "dstate_tree_find (ups ?u2) = dstate_tree_find st1" and get2: "dstate_getinfo (ups ?u2) = dstate_getinfo st1"
    by (simp_all add: dstate_tree_find_def dstate_getinfo_def fun_eq_iff p(1))
  have basis2: "battery_low (ups ?u2) = battery_low st1" "trend_words charge (ups ?u2) = trend_words charge st1"
    unfolding battery_low_def trend_words_def get2 find2 by (rule refl)+
  have basis3: "battery_low st3 = battery_low (ups u)" "trend_words charge st3 = trend_words charge (ups u)"
    using same_basis_low [OF c(2)] same_basis_trend [OF c(2)] same_basis_low [OF r(2)] same_basis_trend [OF r(2)] basis2 basis_b
    by simp_all
  have "length (trend_words charge (ups u)) \<le> 1" by (simp add: trend_words_def split: option.split)
  then have "length (status_buf st3) + 8 * length (trend_words charge st3) \<le> 240" using p(3) st3(1) basis3(2) by simp
  from status_commit_settled [OF st3(5,6) this] obtain s m where m: "status_commit charge st3 = Done s"
      "dstate_getinfo s ''ups.status'' = Some (pconf_encode m [] ST_MAX_VALUE_LEN)" "words_of m = committed_words charge st3"
      "settled_ds s" "\<not> immutable_at (dtree_root s) ''ups.status''" "alarm_active s = alarm_active st3"
      "dstate_getinfo s ''driver.flag.ignorelb'' = dstate_getinfo st3 ''driver.flag.ignorelb''"
    using flag_apart by blast
  have words: "committed_words charge st3 = usb_words charge cfg now u"
    using st3 p(2) basis3 by (simp add: committed_words_def usb_words_def)
  have run: "commit_status charge cfg now ?b = Done (?u2\<lparr>ups := s\<rparr>)"
    by (simp add: commit_status_def ups_status_set_def r(1) c(1) m(1))
  have "ups_status ?u2 = ups_status u" "last_lb_start ?u2 = lb_start_after cfg (ups_status u) (last_lb_start u) now"
    using status_words_tokens(2,3) [OF st1(1), of cfg now] b(8,9) by simp_all
  then show ?thesis using run m words st3(4,7) by (auto simp: driver_ready_def same_inputs_def)
qed

text \<open>
  Property C26: in a pass of the USB HID driver the words of \<open>ups.status\<close> are exactly these: what
  the status bits say of calibration, power, charge, low battery, overload, battery
  replacement, trim, boost, bypass and outlet, each once and in this order, low battery and
  battery replacement after their delay where one is configured; with \<open>ALARM\<close> in front when an
  alarm is active, the thresholds in place of the low battery of the device when the
  administrator asked for that, and the direction in which the charge moves.
\<close>

theorem usb_status_published:
  assumes "driver_ready u"
  shows "\<exists>v m. commit_status charge cfg now (begin_status u) = Done v
     \<and> dstate_getinfo (ups v) ''ups.status'' = Some (pconf_encode m [] ST_MAX_VALUE_LEN)
     \<and> words_of m = usb_words charge cfg now u"
  using commit_status_words [OF assms, of charge cfg now] by blast

lemma ready_demo: "driver_ready (u\<lparr>ups := demo_driver 0 [] []\<rparr>)"
proof -
  have "pending (demo_driver 0 [] []) = 0" by (simp add: pending_def)
  moreover have "st_tree_wf (dtree_root (demo_driver 0 [] []))" by (simp add: demo_driver_def st_tree_wf_def new_node_wf)
  moreover have "\<not> immutable_at (dtree_root (demo_driver 0 [] [])) ''ups.status''" by code_simp
  ultimately show ?thesis by (simp add: driver_ready_def settled_ds_def)
qed

definition demo_hid :: "uint32 \<Rightarrow> int \<Rightarrow> hid_state" where
  "demo_hid s lb = \<lparr>ups_status = s, ups = demo_driver 0 [] [], last_calibration_start = 0, last_calibration_finish = 0,
     log_throttle_sec = - 2, log_throttle_timestamp = 0, log_throttle_charge = - 1, last_lb_start = lb, last_rb_start = 0\<rparr>"

definition demo_settings :: hid_settings where
  "demo_settings = \<lparr>onlinedischarge_onbattery = False, onlinedischarge_calibration = True,
     onlinedischarge_log_throttle_hovercharge = 100, lbrb_log_delay_sec = 3, lbrb_log_delay_without_calibrating = False\<rparr>"

lemma demo_ready: "driver_ready (demo_hid s lb)"
  using ready_demo [of "demo_hid s lb"] by (simp add: demo_hid_def)

theorem usb_status_published_witness:
  "\<exists>v m. commit_status (Some (E_none, Falling)) demo_settings 100
       (begin_status (demo_hid (STATUS OFFLINE OR STATUS DISCHRG OR STATUS LOWBATT OR STATUS OVERLOAD) 0)) = Done v
     \<and> dstate_getinfo (ups v) ''ups.status'' = Some (pconf_encode m [] ST_MAX_VALUE_LEN)
     \<and> words_of m = [''OB'', ''DISCHRG'', ''LB'', ''OVER'']"
proof -
  have "usb_words (Some (E_none, Falling)) demo_settings 100
      (demo_hid (STATUS OFFLINE OR STATUS DISCHRG OR STATUS LOWBATT OR STATUS OVERLOAD) 0) = [''OB'', ''DISCHRG'', ''LB'', ''OVER'']"
    by code_simp
  then show ?thesis
    using usb_status_published [OF demo_ready, of "Some (E_none, Falling)" demo_settings 100
        "STATUS OFFLINE OR STATUS DISCHRG OR STATUS LOWBATT OR STATUS OVERLOAD" 0] by simp
qed

section \<open>Power\<close>

text \<open>Status bits that the reports of a device lead to.\<close>

inductive bits_reach :: "uint32 \<Rightarrow> bool" where
  bits_start: "bits_reach 0"
| bits_word: "bits_reach s \<Longrightarrow> plain_word w \<Longrightarrow> bits_reach (process_boolean_info w s)"

lemma bits_reach_known: "bits_reach s \<Longrightarrow> power_known s"
proof (induction rule: bits_reach.induct)
  case bits_start
  then show ?case by (simp add: power_known_def)
next
  case (bits_word s w)
  then show ?case by (simp add: process_power_known)
qed

lemma tokens_power:
  "''OL'' \<in> set (status_tokens cfg now u) \<longleftrightarrow> ''OL'' \<in> set (power_tokens cfg (ups_status u))"
  "''OB'' \<in> set (status_tokens cfg now u) \<longleftrightarrow> ''OB'' \<in> set (power_tokens cfg (ups_status u))"
  by (auto simp: status_tokens_def Let_def split: if_splits)

lemma usb_words_set:
  "set (usb_words charge cfg now u) \<subseteq> set (status_tokens cfg now u) \<union> {''ALARM'', ''LB'', ''CHRG'', ''DISCHRG''}"
  by (auto simp: usb_words_def Let_def words_add_word trend_words_def split: option.splits if_splits)

lemma usb_words_kept:
  assumes "w \<in> set (status_tokens cfg now u)" "\<not> same_nocase w ''ALARM''"
    and "dstate_getinfo (ups u) ''driver.flag.ignorelb'' = None \<or> \<not> same_nocase w ''LB''"
  shows "w \<in> set (usb_words charge cfg now u)"
  using assms by (auto simp: usb_words_def Let_def words_add_word status_keep_def)

text \<open>
  Property C27: whatever a device reports, one status item after the other in any order, the
  driver never publishes \<open>OL\<close> and \<open>OB\<close> together.
\<close>

theorem power_never_ambiguous:
  assumes "driver_ready u" and "bits_reach (ups_status u)"
  shows "\<exists>v m. commit_status charge cfg now (begin_status u) = Done v
     \<and> dstate_getinfo (ups v) ''ups.status'' = Some (pconf_encode m [] ST_MAX_VALUE_LEN)
     \<and> \<not> (''OL'' \<in> set (words_of m) \<and> ''OB'' \<in> set (words_of m))"
proof -
  obtain v m where m: "commit_status charge cfg now (begin_status u) = Done v"
      "dstate_getinfo (ups v) ''ups.status'' = Some (pconf_encode m [] ST_MAX_VALUE_LEN)"
      "words_of m = usb_words charge cfg now u"
    using commit_status_words [OF assms(1), of charge cfg now] by blast
  have "\<not> (''OL'' \<in> set (power_tokens cfg (ups_status u)) \<and> ''OB'' \<in> set (power_tokens cfg (ups_status u)))"
    using bits_reach_known [OF assms(2)] by (auto simp: power_tokens_def power_known_def)
  then have "\<not> (''OL'' \<in> set (words_of m) \<and> ''OB'' \<in> set (words_of m))"
    using usb_words_set [of charge cfg now u] tokens_power [of cfg now u] unfolding m(3) by auto
  then show ?thesis using m(1,2) by blast
qed

theorem power_never_ambiguous_witness:
  "\<exists>v m. commit_status None demo_settings 100
       (begin_status (demo_hid (process_boolean_info ''dischrg'' (process_boolean_info ''offline'' (process_boolean_info ''online'' 0))) 0)) = Done v
     \<and> dstate_getinfo (ups v) ''ups.status'' = Some (pconf_encode m [] ST_MAX_VALUE_LEN)
     \<and> \<not> (''OL'' \<in> set (words_of m) \<and> ''OB'' \<in> set (words_of m))"
proof -
  have "plain_word ''online'' \<and> plain_word ''offline'' \<and> plain_word ''dischrg''" by code_simp
  then have "bits_reach (process_boolean_info ''dischrg'' (process_boolean_info ''offline'' (process_boolean_info ''online'' 0)))"
    by (intro bits_reach.intros) simp_all
  then show ?thesis by (intro power_never_ambiguous demo_ready) (simp add: demo_hid_def)
qed

text \<open>
  Property C28: when the power has failed and the device reports low battery, the end of its time
  limit or an imminent shutdown, the very next pass publishes both \<open>OB\<close> and \<open>LB\<close>, whatever
  delays are configured and whether or not a calibration runs.
\<close>

theorem low_battery_not_delayed:
  assumes "driver_ready u" and "dstate_getinfo (ups u) ''driver.flag.ignorelb'' = None"
    and "\<not> bit_of (ups_status u) ONLINE" and "bit_of (ups_status u) OFFLINE \<or> bit_of (ups_status u) DISCHRG"
    and "battery_asks (ups_status u)"
  shows "\<exists>v m. commit_status charge cfg now (begin_status u) = Done v
     \<and> dstate_getinfo (ups v) ''ups.status'' = Some (pconf_encode m [] ST_MAX_VALUE_LEN)
     \<and> {''OB'', ''LB''} \<subseteq> set (words_of m)"
proof -
  obtain v m where m: "commit_status charge cfg now (begin_status u) = Done v"
      "dstate_getinfo (ups v) ''ups.status'' = Some (pconf_encode m [] ST_MAX_VALUE_LEN)"
      "words_of m = usb_words charge cfg now u"
    using commit_status_words [OF assms(1), of charge cfg now] by blast
  have "''OB'' \<in> set (power_tokens cfg (ups_status u))" using assms(3,4) by (auto simp: power_tokens_def)
  moreover have "''LB'' \<in> set (status_tokens cfg now u)"
    using assms(3,5) by (simp add: status_tokens_def says_lb_def delayed_def Let_def)
  ultimately have "{''OB'', ''LB''} \<subseteq> set (usb_words charge cfg now u)"
    using usb_words_kept [of _ cfg now u charge] assms(2) tokens_power(2) [of cfg now u] status_words_ok(2,6)
    by (simp add: say_word_def)
  then show ?thesis using m by auto
qed

theorem low_battery_not_delayed_witness:
  "\<exists>v m. commit_status None demo_settings 100
       (begin_status (demo_hid (STATUS DISCHRG OR STATUS CALIB OR STATUS SHUTDOWNIMM) 0)) = Done v
     \<and> dstate_getinfo (ups v) ''ups.status'' = Some (pconf_encode m [] ST_MAX_VALUE_LEN)
     \<and> {''OB'', ''LB''} \<subseteq> set (words_of m)"
proof (rule low_battery_not_delayed [OF demo_ready])
  show "dstate_getinfo (ups (demo_hid (STATUS DISCHRG OR STATUS CALIB OR STATUS SHUTDOWNIMM) 0)) ''driver.flag.ignorelb'' = None"
    by code_simp
qed code_simp+

section \<open>The delay of low battery ends\<close>

text \<open>Passes one after the other, each with its time and the status bits that its reports left.\<close>

fun passes :: "(derrno \<times> trend) option \<Rightarrow> hid_settings \<Rightarrow> (int \<times> uint32) list \<Rightarrow> hid_state \<Rightarrow> hid_state outcome" where
  "passes charge cfg [] u = Done u"
| "passes charge cfg ((now, s) # ps) u =
     andthen (commit_status charge cfg now (begin_status (u\<lparr>ups_status := s\<rparr>))) (passes charge cfg ps)"

lemma ready_bits [simp]: "driver_ready (u\<lparr>ups_status := s\<rparr>) = driver_ready u"
  by (simp add: driver_ready_def)

lemma passes_waiting:
  assumes "driver_ready u" "dstate_getinfo (ups u) ''driver.flag.ignorelb'' = None" "last_lb_start u \<noteq> 0"
    and "\<forall>(t, s)\<in>set ps. battery_asks s" and "battery_asks s" "last_lb_start u + lbrb_log_delay_sec cfg < now"
  shows "\<exists>v m. passes charge cfg (ps @ [(now, s)]) u = Done v
     \<and> dstate_getinfo (ups v) ''ups.status'' = Some (pconf_encode m [] ST_MAX_VALUE_LEN) \<and> ''LB'' \<in> set (words_of m)"
  using assms
proof (induction ps arbitrary: u)
  case Nil
  let ?u = "u\<lparr>ups_status := s\<rparr>"
  have r: "driver_ready ?u" using Nil.prems(1) by simp
  obtain v m where m: "commit_status charge cfg now (begin_status ?u) = Done v"
      "dstate_getinfo (ups v) ''ups.status'' = Some (pconf_encode m [] ST_MAX_VALUE_LEN)"
      "words_of m = usb_words charge cfg now ?u"
    using commit_status_words [OF r, of charge cfg now] by blast
  have "''LB'' \<in> set (status_tokens cfg now ?u)"
    using Nil.prems by (simp add: status_tokens_def says_lb_def waited_def Let_def)
  then have "''LB'' \<in> set (usb_words charge cfg now ?u)"
    using usb_words_kept [of _ cfg now ?u charge] Nil.prems(2) status_words_ok(6) by (simp add: say_word_def)
  then have "''LB'' \<in> set (words_of m)" using m(3) by simp
  moreover have "passes charge cfg ([] @ [(now, s)]) u = Done v" using m(1) by simp
  ultimately show ?case using m(2) by blast
next
  case (Cons p ps)
  obtain t s0 where p: "p = (t, s0)" by fastforce
  let ?u = "u\<lparr>ups_status := s0\<rparr>"
  have r: "driver_ready ?u" and low: "battery_asks s0" using Cons.prems(1,4) p by auto
  obtain v where v: "commit_status charge cfg t (begin_status ?u) = Done v" "driver_ready v" "same_inputs (ups ?u) (ups v)"
      "last_lb_start v = lb_start_after cfg s0 (last_lb_start u) t"
    using commit_status_words [OF r, of charge cfg t] by auto
  have start: "last_lb_start v = last_lb_start u" using v(4) low Cons.prems(3) by (simp add: lb_start_after_def)
  have "\<exists>w m. passes charge cfg (ps @ [(now, s)]) v = Done w
     \<and> dstate_getinfo (ups w) ''ups.status'' = Some (pconf_encode m [] ST_MAX_VALUE_LEN) \<and> ''LB'' \<in> set (words_of m)"
    using Cons.prems v(2,3) start by (intro Cons.IH) (auto simp: same_inputs_def)
  then show ?case using v(1) p by simp
qed

text \<open>
  Property C29: a low battery whose publication is delayed is published after the delay: if it was
  first seen at a time \<open>t0\<close> and every pass since then saw it too, a pass later than the delay
  publishes \<open>LB\<close>, whatever else the device reported in between.
\<close>

theorem delayed_low_battery_said:
  assumes "driver_ready u" and "dstate_getinfo (ups u) ''driver.flag.ignorelb'' = None"
    and "0 < t0" "battery_asks s0" "delayed cfg s0" "last_lb_start u \<le> t0"
    and "\<forall>(t, s)\<in>set ps. battery_asks s" and "battery_asks s" and "t0 + lbrb_log_delay_sec cfg < now"
  shows "\<exists>v m. passes charge cfg ((t0, s0) # ps @ [(now, s)]) u = Done v
     \<and> dstate_getinfo (ups v) ''ups.status'' = Some (pconf_encode m [] ST_MAX_VALUE_LEN) \<and> ''LB'' \<in> set (words_of m)"
proof -
  let ?u = "u\<lparr>ups_status := s0\<rparr>"
  have r: "driver_ready ?u" using assms(1) by simp
  obtain v where v: "commit_status charge cfg t0 (begin_status ?u) = Done v" "driver_ready v" "same_inputs (ups ?u) (ups v)"
      "last_lb_start v = lb_start_after cfg s0 (last_lb_start u) t0"
    using commit_status_words [OF r, of charge cfg t0] by auto
  have start: "last_lb_start v \<noteq> 0" "last_lb_start v \<le> t0" using v(4) assms(3-6) by (auto simp: lb_start_after_def)
  have "\<exists>w m. passes charge cfg (ps @ [(now, s)]) v = Done w
     \<and> dstate_getinfo (ups w) ''ups.status'' = Some (pconf_encode m [] ST_MAX_VALUE_LEN) \<and> ''LB'' \<in> set (words_of m)"
    using v(2,3) start assms(2,7-9) by (intro passes_waiting) (auto simp: same_inputs_def)
  then show ?thesis using v(1) by simp
qed

theorem delayed_low_battery_said_witness:
  "\<exists>v m. passes None demo_settings [(100, STATUS ONLINE OR STATUS CALIB OR STATUS LOWBATT),
        (102, STATUS ONLINE OR STATUS CALIB OR STATUS TIMELIMITEXP), (104, STATUS ONLINE OR STATUS CALIB OR STATUS LOWBATT)]
        (demo_hid 0 0) = Done v
     \<and> dstate_getinfo (ups v) ''ups.status'' = Some (pconf_encode m [] ST_MAX_VALUE_LEN) \<and> ''LB'' \<in> set (words_of m)"
proof -
  let ?s = "STATUS ONLINE OR STATUS CALIB OR STATUS LOWBATT" and ?t = "STATUS ONLINE OR STATUS CALIB OR STATUS TIMELIMITEXP"
  have low: "battery_asks ?s \<and> battery_asks ?t \<and> delayed demo_settings ?s" by code_simp
  have flag: "dstate_getinfo (ups (demo_hid 0 0)) ''driver.flag.ignorelb'' = None" by code_simp
  have "\<exists>v m. passes None demo_settings ((100, ?s) # [(102, ?t)] @ [(104, ?s)]) (demo_hid 0 0) = Done v
     \<and> dstate_getinfo (ups v) ''ups.status'' = Some (pconf_encode m [] ST_MAX_VALUE_LEN) \<and> ''LB'' \<in> set (words_of m)"
    using low by (intro delayed_low_battery_said [OF demo_ready flag]) (simp_all add: demo_hid_def demo_settings_def)
  then show ?thesis by simp
qed

text \<open>
  The word that ends the economy mode in the table of the driver, \<open>normal\<close>, is no status word:
  once reported, the economy mode is never taken back.
\<close>

lemma economy_mode_stays:
  "process_boolean_info ''normal'' s = s"
  "bit_of (process_boolean_info ''normal'' (process_boolean_info ''essmode'' (process_boolean_info ''ecomode'' 0))) ECOMODE"
proof -
  have "word_bit ''normal'' = None" by code_simp
  then show "process_boolean_info ''normal'' s = s" by (simp add: process_word after_word_def)
  show "bit_of (process_boolean_info ''normal'' (process_boolean_info ''essmode'' (process_boolean_info ''ecomode'' 0))) ECOMODE"
    by code_simp
qed

text \<open>
  The warning about discharging while on line is written only once a charge differing from the
  remembered one was read: without a charge its time stamp stays zero, whatever the period between
  two warnings is.
\<close>

lemma discharge_warning_needs_charge:
  assumes "dstate_getinfo (ups u) ''battery.charge'' = None" and "log_throttle_timestamp u = 0"
  shows "log_throttle_timestamp (throttle_log cfg now u) = 0"
  using assms by (simp add: throttle_log_def throttle_charge_def Let_def)

end
