(* ===== verification/StrSpec.thy ===== *)
theory StrSpec
  imports Str
begin

text \<open>
  What \<open>str.c\<close> and \<open>strjson.c\<close> promise: trimming removes blanks at the ends only, a
  number printed in decimal is read back exactly and anything out of range is refused, a
  LISTEN address is split without losing a character, and a JSON string can be read back.
\<close>

section \<open>Trimming\<close>

definition blank :: "cstring \<Rightarrow> bool" where
  "blank s \<longleftrightarrow> list_all (\<lambda>c. isspace (schar c)) s"

lemma dropWhile_blank:
  "blank a \<Longrightarrow> (s = [] \<or> \<not> isspace (schar (hd s))) \<Longrightarrow> dropWhile (\<lambda>c. isspace (schar c)) (a @ s) = s"
  by (induction a) (cases s; simp add: blank_def)+

lemma str_trim_space_core:
  assumes "blank a" and "blank b" and "s \<noteq> []"
    and "\<not> isspace (schar (hd s))" and "\<not> isspace (schar (last s))"
  shows "str_trim_space (a @ s @ b) = s"
proof -
  have left: "str_ltrim_space (a @ s @ b) = s @ b"
    using assms dropWhile_blank [of a "s @ b"] by (simp add: str_ltrim_space_def)
  have "blank (rev b)" using assms(2) by (simp add: blank_def)
  then have "dropWhile (\<lambda>c. isspace (schar c)) (rev b @ rev s) = rev s"
    using assms by (intro dropWhile_blank) (simp_all add: hd_rev)
  then show ?thesis
    using assms(3) by (simp add: str_trim_space_def left str_rtrim_space_def)
qed

lemma str_trim_space_blank: "blank a \<Longrightarrow> str_trim_space a = []"
  using dropWhile_blank [of a "[]"]
  by (cases "a = []") (simp_all add: str_trim_space_def str_ltrim_space_def str_rtrim_space_def)

lemma trim_split:
  obtains a s b where "x = a @ s @ b" "blank a" "blank b"
    "s = [] \<or> (\<not> isspace (schar (hd s)) \<and> \<not> isspace (schar (last s)))"
proof -
  let ?P = "\<lambda>c. isspace (schar c)"
  define a where "a = takeWhile ?P x"
  define y where "y = dropWhile ?P x"
  define s where "s = rev (dropWhile ?P (rev y))"
  define b where "b = rev (takeWhile ?P (rev y))"
  have y: "y = s @ b" unfolding s_def b_def by (metis rev_append rev_rev_ident takeWhile_dropWhile_id)
  have x: "x = a @ s @ b" using y by (simp add: a_def y_def flip: y)
  have ba: "blank a" "blank b"
    by (auto simp: blank_def a_def b_def list_all_iff dest: set_takeWhileD)
  have "s = [] \<or> (\<not> ?P (hd s) \<and> \<not> ?P (last s))"
  proof (cases "s = []")
    case False
    then have "dropWhile ?P (rev y) \<noteq> []" unfolding s_def by blast
    then have "\<not> ?P (hd (dropWhile ?P (rev y)))" by (rule hd_dropWhile)
    then have "\<not> ?P (last s)" unfolding s_def last_rev .
    moreover have "y \<noteq> []" using False y by auto
    then have "\<not> ?P (hd y)" unfolding y_def by (rule hd_dropWhile)
    then have "\<not> ?P (hd s)" using False y by simp
    ultimately show ?thesis by simp
  qed simp
  then show thesis by (rule that [OF x ba])
qed

text \<open>
  \<open>str_trim_space\<close> cuts blanks off both ends and nothing else: the input is the
  result between two runs of blanks, the result neither starts nor ends with a blank, and
  trimming again changes nothing.
\<close>

theorem str_trim_space_spec:
  "\<exists>a b. s = a @ str_trim_space s @ b \<and> blank a \<and> blank b
     \<and> str_trim_space (str_trim_space s) = str_trim_space s
     \<and> (str_trim_space s = []
        \<or> \<not> isspace (schar (hd (str_trim_space s))) \<and> \<not> isspace (schar (last (str_trim_space s))))"
proof -
  obtain a c b where s: "s = a @ c @ b" and ab: "blank a" "blank b"
    and c: "c = [] \<or> (\<not> isspace (schar (hd c)) \<and> \<not> isspace (schar (last c)))"
    by (rule trim_split)
  show ?thesis
  proof (cases "c = []")
    case True
    then have "blank s" using s ab by (simp add: blank_def)
    then have "str_trim_space s = []" by (rule str_trim_space_blank)
    then show ?thesis
      using s ab True by (intro exI [of _ a] exI [of _ b]) (simp add: str_trim_space_blank blank_def)
  next
    case False
    have "str_trim_space s = c" using s ab c False str_trim_space_core by blast
    moreover have "str_trim_space c = c"
      using str_trim_space_core [of "[]" "[]" c] c False by (simp add: blank_def)
    ultimately show ?thesis using s ab c by auto
  qed
qed

section \<open>Numbers\<close>

lemma nat_dec_ends:
  "\<not> isspace (schar (hd (nat_dec n)))" "\<not> isspace (schar (last (nat_dec n)))"
  "hd (nat_dec n) \<noteq> CHR ''-''" "hd (nat_dec n) \<noteq> CHR ''+''"
  using nat_dec_digits [of n] nat_dec_nonempty [of n] digit_no_space
  by (auto simp: list_all_iff)

lemma nat_dec_digit_chars: "list_all isdigit (nat_dec n)"
  using nat_dec_digits [of n] digit_no_space(4) by (auto simp: list_all_iff)

lemma int_dec_ends:
  "int_dec i \<noteq> []" "\<not> isspace (schar (hd (int_dec i)))" "\<not> isspace (schar (last (int_dec i)))"
  using nat_dec_nonempty nat_dec_ends
  by (auto simp: int_dec_def isspace_def schar_def code_of_def)

lemma strtol_int_dec_any:
  "strtol (int_dec i) 10 =
     (if i > LONG_MAX then (LONG_MAX, [], ERANGE)
      else if i < LONG_MIN then (LONG_MIN, [], ERANGE) else (i, [], OK))"
  by (auto simp: strtol_def base_ok_def int_dec_def scan_number_nat_dec scan_number_neg_dec Let_def
      LONG_MAX_def LONG_MIN_def)

lemma str_to_long_strict_dec:
  "str_to_long_strict (int_dec i) 10 = (if LONG_MIN \<le> i \<and> i \<le> LONG_MAX then Inr i else Inl ERANGE)"
  using int_dec_ends [of i] by (auto simp: str_to_long_strict_def strtol_int_dec_any)

lemma str_to_ulong_strict_dec:
  "str_to_ulong_strict (nat_dec n) 10 = (if int n \<le> ULONG_MAX then Inr (int n) else Inl ERANGE)"
  using nat_dec_ends [of n] nat_dec_nonempty [of n]
  by (auto simp: str_to_ulong_strict_def strtoul_def base_ok_def scan_number_nat_dec)

lemma str_to_long_dec:
  assumes "blank a" and "blank b"
  shows "str_to_long (a @ int_dec i @ b) 10 = (if LONG_MIN \<le> i \<and> i \<le> LONG_MAX then Inr i else Inl ERANGE)"
  using str_trim_space_core [OF assms int_dec_ends] int_dec_ends(1) [of i]
  by (simp add: str_to_long_def str_to_long_strict_dec)

lemma str_to_ulong_dec:
  assumes "blank a" and "blank b"
  shows "str_to_ulong (a @ nat_dec n @ b) 10 = (if int n \<le> ULONG_MAX then Inr (int n) else Inl ERANGE)"
  using str_trim_space_core [OF assms nat_dec_nonempty nat_dec_ends(1,2)] nat_dec_nonempty [of n]
  by (simp add: str_to_ulong_def str_to_ulong_strict_dec)

text \<open>
  A number printed in decimal, with blanks around it, is read back exactly when
  it fits the type of the scanner and is refused with \<open>ERANGE\<close> otherwise, for the signed and
  the unsigned scanners of every width; nothing wraps around.
\<close>

theorem str_to_number_roundtrip:
  assumes "blank a" and "blank b"
  shows "str_to_long (a @ int_dec i @ b) 10 = (if LONG_MIN \<le> i \<and> i \<le> LONG_MAX then Inr i else Inl ERANGE)
    \<and> str_to_int (a @ int_dec i @ b) 10 = (if INT_MIN \<le> i \<and> i \<le> INT_MAX then Inr i else Inl ERANGE)
    \<and> str_to_short (a @ int_dec i @ b) 10 = (if SHRT_MIN \<le> i \<and> i \<le> SHRT_MAX then Inr i else Inl ERANGE)
    \<and> str_to_ulong (a @ nat_dec n @ b) 10 = (if int n \<le> ULONG_MAX then Inr (int n) else Inl ERANGE)
    \<and> str_to_uint (a @ nat_dec n @ b) 10 = (if int n \<le> UINT_MAX then Inr (int n) else Inl ERANGE)
    \<and> str_to_ushort (a @ nat_dec n @ b) 10 = (if int n \<le> USHRT_MAX then Inr (int n) else Inl ERANGE)"
  by (auto simp: str_to_long_dec [OF assms] str_to_ulong_dec [OF assms] str_to_int_def str_to_short_def
      str_to_uint_def str_to_ushort_def LONG_MAX_def LONG_MIN_def ULONG_MAX_def INT_MAX_def INT_MIN_def
      SHRT_MAX_def SHRT_MIN_def UINT_MAX_def USHRT_MAX_def)

theorem str_to_number_roundtrip_witness:
  "str_to_short ('' '' @ int_dec 40000 @ '' '') 10 = Inl ERANGE"
proof -
  have "blank '' ''" by code_simp
  then show ?thesis
    using str_to_number_roundtrip [of "'' ''" "'' ''" 40000 0] by (simp add: SHRT_MAX_def SHRT_MIN_def)
qed

section \<open>LISTEN addresses\<close>

lemma strchr_None_iff: "strchr s c = None \<longleftrightarrow> c \<notin> set s"
proof -
  have "strchr s c = None \<longleftrightarrow> dropWhile (\<lambda>x. x \<noteq> c) s = []"
    by (cases "dropWhile (\<lambda>x. x \<noteq> c) s") (simp_all only: strchr_def list.case option.simps list.simps simp_thms)
  also have "\<dots> \<longleftrightarrow> c \<notin> set s" by (auto simp: dropWhile_eq_Nil_conv)
  finally show ?thesis .
qed

lemma strchr_SomeD: "strchr s c = Some r \<Longrightarrow> \<exists>p. s = p @ r \<and> c \<notin> set p \<and> r \<noteq> [] \<and> hd r = c"
proof -
  assume "strchr s c = Some r"
  then have r: "r = dropWhile (\<lambda>x. x \<noteq> c) s" and ne: "r \<noteq> []"
    by (auto simp: strchr_def split: list.splits)
  have "s = takeWhile (\<lambda>x. x \<noteq> c) s @ r" by (simp add: r)
  moreover have "c \<notin> set (takeWhile (\<lambda>x. x \<noteq> c) s)" by (auto dest: set_takeWhileD)
  moreover have "hd r = c" using hd_dropWhile [of "\<lambda>x. x \<noteq> c" s] ne r by simp
  ultimately show ?thesis using ne by blast
qed

lemma strstr_SomeD: "strstr s n = Some r \<Longrightarrow> (\<exists>p. s = p @ r) \<and> take (length n) r = n"
proof (induction s n rule: strstr.induct)
  case (2 c s needle)
  show ?case
  proof (cases "take (length needle) (c # s) = needle")
    case True
    then show ?thesis using 2(2) by auto
  next
    case False
    then obtain p where "s = p @ r" "take (length needle) r = needle" using 2 by auto
    then show ?thesis by (metis append_Cons)
  qed
qed (auto split: if_splits)

definition port_ok :: "cstring \<Rightarrow> bool" where
  "port_ok p \<longleftrightarrow> p \<noteq> [] \<and> list_all isdigit p \<and>
     (\<exists>n. str_to_uint_strict p 10 = Inr n \<and> n \<le> 65535)"

lemma listen_portD:
  "listen_port host stop colon = Some (a, port) \<Longrightarrow>
     port = Some (tl colon) \<and> port_ok (tl colon) \<and> length colon \<noteq> length host
     \<and> a = take (length host - length stop) host"
  by (auto simp: listen_port_def port_ok_def Let_def split: if_splits sum.splits)

text \<open>
  \<open>str_split_listen\<close> never invents or loses a character. Whatever it accepts
  is the address alone, or the address, a colon and the port, or the address in brackets, a
  colon and the port, and a port it returns is a decimal number of at most 65535.
\<close>

theorem str_split_listen_sound:
  assumes "str_split_listen s = Some (a, port)"
  shows "case port of
      None \<Rightarrow> a = s
    | Some p \<Rightarrow> port_ok p \<and> (s = a @ CHR '':'' # p \<or> s = CHR ''['' # a @ '']:'' @ p)"
proof (cases "hd s = CHR ''[''")
  case True
  from assms have ne: "s \<noteq> []" by (auto simp: str_split_listen_def)
  obtain stop where stop: "strchr s CHR '']'' = Some stop"
    and r: "a = s \<and> port = None \<or>
      tl stop \<noteq> [] \<and> hd (tl stop) = CHR '':'' \<and> listen_port (tl s) stop (tl stop) = Some (a, port)"
    using assms True by (auto simp: str_split_listen_def split: if_splits option.splits)
  obtain p where p: "s = p @ stop" "stop \<noteq> []" "hd stop = CHR '']''"
    using strchr_SomeD [OF stop] by blast
  have pne: "p \<noteq> []" using p True ne by auto
  then have tls: "tl s = tl p @ stop" and hdp: "p = CHR ''['' # tl p"
    using p True by (simp, cases p) auto
  have eq: "s = CHR ''['' # tl p @ CHR '']'' # tl stop" using p hdp
    by (metis append_Cons list.collapse)
  from r show ?thesis
  proof
    assume r2: "tl stop \<noteq> [] \<and> hd (tl stop) = CHR '':'' \<and> listen_port (tl s) stop (tl stop) = Some (a, port)"
    then have t: "tl stop = CHR '':'' # tl (tl stop)" by (metis list.collapse)
    have "port = Some (tl (tl stop))" "port_ok (tl (tl stop))" "a = tl p"
      using listen_portD [of "tl s" stop "tl stop"] r2 by (simp_all add: tls)
    moreover have "s = CHR ''['' # tl p @ '']:'' @ tl (tl stop)"
      using eq by (subst (asm) t) simp
    ultimately show ?thesis by simp
  qed simp
next
  case False
  have gen: ?thesis if "listen_port s colon colon = Some (a, port)" and "s = p @ colon"
    and "colon \<noteq> []" and "hd colon = CHR '':''" for colon p
    using that by (cases colon) (auto dest!: listen_portD)
  show ?thesis
  proof (cases "strchr s CHR '':''")
    case None
    then show ?thesis using assms False by (auto simp: str_split_listen_def split: if_splits)
  next
    case (Some colon)
    show ?thesis
    proof (cases "strstr s '':::''")
      case None
      then have "a = s \<and> port = None \<or> listen_port s colon colon = Some (a, port)"
        using assms False Some by (auto simp: str_split_listen_def split: if_splits)
      then show ?thesis using gen strchr_SomeD [OF Some] by auto
    next
      case S: (Some triple)
      then have l: "listen_port s (drop 2 triple) (drop 2 triple) = Some (a, port)"
        using assms False Some by (auto simp: str_split_listen_def split: if_splits)
      obtain p where s: "s = p @ triple" using strstr_SomeD [OF S] by blast
      have t: "take 3 triple = '':::''" using strstr_SomeD [OF S] by (simp add: numeral_3_eq_3)
      have "triple = '':::'' @ drop 3 triple" using append_take_drop_id [of 3 triple] t by simp
      then obtain q where q: "triple = '':::'' @ q" by blast
      then have d: "drop 2 triple = CHR '':'' # q" by simp
      show ?thesis using gen [of "CHR '':'' # q" "p @ ''::''"] l s q unfolding d by simp
    qed
  qed
qed

theorem str_split_listen_sound_witness:
  "case Some ''3493'' of
      None \<Rightarrow> ''::1'' = ''[::1]:3493''
    | Some p \<Rightarrow> port_ok p \<and> (''[::1]:3493'' = ''::1'' @ CHR '':'' # p \<or> ''[::1]:3493'' = CHR ''['' # ''::1'' @ '']:'' @ p)"
proof -
  have "str_split_listen ''[::1]:3493'' = Some (''::1'', Some ''3493'')" by code_simp
  then show ?thesis by (rule str_split_listen_sound)
qed

lemma strstr_colons:
  assumes "strstr s '':::'' = Some r"
  shows "length (filter (\<lambda>c. c = CHR '':'') s) \<ge> 3"
proof -
  obtain p where s: "s = p @ r" using strstr_SomeD [OF assms] by blast
  have "take 3 r = '':::''" using strstr_SomeD [OF assms] by (simp add: numeral_3_eq_3)
  then have "r = '':::'' @ drop 3 r" using append_take_drop_id [of 3 r] by simp
  then obtain q where "r = '':::'' @ q" by blast
  with s show ?thesis by simp
qed

text \<open>
  A bare address with two colons or more and no run of three, that is every
  IPv6 address without a port, is kept whole: its last group is never taken for a port.
\<close>

theorem str_split_listen_bare_ipv6:
  assumes "length (filter (\<lambda>c. c = CHR '':'') s) \<ge> 2" and "strstr s '':::'' = None"
    and "CHR ''['' \<notin> set s" and "CHR '']'' \<notin> set s"
  shows "str_split_listen s = Some (s, None)"
proof -
  have ne: "s \<noteq> []" using assms(1) by auto
  then have hd: "hd s \<noteq> CHR ''[''" using assms(3) by (metis list.set_sel(1))
  have "CHR '':'' \<in> set s"
  proof (rule ccontr)
    assume "CHR '':'' \<notin> set s"
    then have "filter (\<lambda>c. c = CHR '':'') s = []" by (auto simp: filter_empty_conv)
    with assms(1) show False by simp
  qed
  then obtain colon where c: "strchr s CHR '':'' = Some colon"
    using strchr_None_iff [of s "CHR '':''"] by auto
  then obtain p where p: "s = p @ colon" "CHR '':'' \<notin> set p" "colon \<noteq> []" "hd colon = CHR '':''"
    using strchr_SomeD by blast
  have "filter (\<lambda>c. c = CHR '':'') p = []" using p(2) by (auto simp: filter_empty_conv)
  then have "length (filter (\<lambda>c. c = CHR '':'') colon) \<ge> 2" using assms(1) p(1) by simp
  then have "filter (\<lambda>c. c = CHR '':'') (tl colon) \<noteq> []"
    using p(3,4) by (cases colon) auto
  then have "CHR '':'' \<in> set (tl colon)" by (auto simp: filter_empty_conv)
  then have "strchr (tl colon) CHR '':'' \<noteq> None" by (simp add: strchr_None_iff)
  then show ?thesis
    using ne hd c assms(2-4) by (simp add: str_split_listen_def strchr_None_iff)
qed

theorem str_split_listen_bare_ipv6_witness:
  "str_split_listen ''fe80::1:3493'' = Some (''fe80::1:3493'', None)"
  by (rule str_split_listen_bare_ipv6) code_simp+

section \<open>JSON\<close>

text \<open>A reader of JSON string contents: escapes, and no bare quote or control character.\<close>

definition hex_val :: "char \<Rightarrow> nat option" where
  "hex_val c = (if digit_in 16 c then digit_val c else None)"

fun json_read :: "cstring \<Rightarrow> cstring option" where
  "json_read [] = Some []"
| "json_read (c # s) =
     (if c = CHR 0x5C then
        (case s of
           [] \<Rightarrow> None
         | e # r \<Rightarrow>
            if e = CHR 0x22 \<or> e = CHR 0x5C then map_option ((#) e) (json_read r)
            else if e = CHR ''b'' then map_option ((#) (char_of (8::nat))) (json_read r)
            else if e = CHR ''f'' then map_option ((#) (char_of (12::nat))) (json_read r)
            else if e = CHR ''n'' then map_option ((#) (char_of (10::nat))) (json_read r)
            else if e = CHR ''r'' then map_option ((#) (char_of (13::nat))) (json_read r)
            else if e = CHR ''t'' then map_option ((#) (char_of (9::nat))) (json_read r)
            else if e = CHR ''u'' then
              (case r of
                 z1 # z2 # h # l # r1 \<Rightarrow>
                   (case (hex_val z1, hex_val z2, hex_val h, hex_val l) of
                      (Some 0, Some 0, Some a, Some b) \<Rightarrow>
                         map_option ((#) (char_of (16 * a + b))) (json_read r1)
                    | _ \<Rightarrow> None)
               | _ \<Rightarrow> None)
            else None)
      else if c = CHR 0x22 \<or> code_of c < 32 then None
      else map_option ((#) c) (json_read s))"

lemma hex_val_digit: "d < 16 \<Longrightarrow> hex_val (hex_digit d) = Some d"
  by (auto simp: hex_val_def hex_digit_def digit_in_def digit_val_def code_of_def)

lemma code_of_char: "c = CHR 0x22 \<longleftrightarrow> code_of c = 0x22" "c = CHR 0x5C \<longleftrightarrow> code_of c = 0x5C"
proof -
  have inj: "c = d \<longleftrightarrow> code_of c = code_of d" for c d
    unfolding code_of_def by (metis char_of_char)
  show "c = CHR 0x22 \<longleftrightarrow> code_of c = 0x22" "c = CHR 0x5C \<longleftrightarrow> code_of c = 0x5C"
    unfolding inj by (simp_all add: code_of_def)
qed

lemma json_read_esc: "json_read (json_esc c @ s) = map_option ((#) c) (json_read s)"
proof -
  let ?n = "code_of c"
  have c: "char_of ?n = c" by (simp add: code_of_def)
  have lit: "c = CHR 0x22 \<longleftrightarrow> ?n = 0x22" "c = CHR 0x5C \<longleftrightarrow> ?n = 0x5C"
    by (auto simp: code_of_char)
  have zero: "hex_val CHR ''0'' = Some 0" by code_simp
  consider "?n = 0x22" | "?n = 0x5C" | "?n = 8" | "?n = 12" | "?n = 10" | "?n = 13" | "?n = 9"
    | "?n < 32" "?n \<notin> {8, 9, 10, 12, 13}" | "?n \<ge> 32" "?n \<noteq> 0x22" "?n \<noteq> 0x5C"
    by (cases "?n < 32") auto
  then show ?thesis
  proof cases
    case 8
    have "16 * (?n div 16) + ?n mod 16 = ?n" by simp
    then show ?thesis
      using 8 c hex_val_digit [of "?n div 16"] hex_val_digit [of "?n mod 16"]
      by (simp add: json_esc_def zero Let_def)
  next
    case 9
    then show ?thesis by (simp add: json_esc_def lit Let_def)
  qed (use c lit in \<open>simp_all add: json_esc_def Let_def\<close>)
qed

text \<open>
  What \<open>json_print_esc\<close> prints between quotes is a well-formed JSON string that
  reads back as exactly the bytes it was given: no quote, backslash or control character of a
  value can end the string early.
\<close>

theorem json_roundtrip: "json_read (json_print_esc s) = Some s"
  by (induction s) (simp_all add: json_read_esc)

end
