(* ===== verification/Users.thy ===== *)
theory Users
  imports ConfFile
begin

text \<open>
  Model of \<open>src/server/user.c\<close>: the accounts of \<open>upsd.users\<close>, how the lines of the file
  build them, and the checks of actions and instant commands. The list of accounts only
  grows while a file is read, so the pointer \<open>curr_user\<close> is a position in it.
\<close>

record ulist_t =
  u_name :: cstring
  u_password :: "cstring option"
  u_instcmds :: "cstring list"
  u_actions :: "cstring list"

record user_state =
  users :: "ulist_t list"
  curr_user :: "nat option"

definition no_users :: user_state where
  "no_users = \<lparr>users = [], curr_user = None\<rparr>"

section \<open>Building accounts\<close>

definition user_add :: "cstring \<Rightarrow> user_state \<Rightarrow> user_state" where
  "user_add un st =
     (if \<exists>u \<in> set (users st). u_name u = un then st
      else st\<lparr>users := users st @ [\<lparr>u_name = un, u_password = None, u_instcmds = [], u_actions = []\<rparr>],
              curr_user := Some (length (users st))\<rparr>)"

text \<open>A write through \<open>curr_user\<close>; with no current user the setting is ignored.\<close>

definition at_curr :: "(ulist_t \<Rightarrow> ulist_t) \<Rightarrow> user_state \<Rightarrow> user_state" where
  "at_curr f st =
     (case curr_user st of
        None \<Rightarrow> st
      | Some i \<Rightarrow> st\<lparr>users := (users st)[i := f (users st ! i)]\<rparr>)"

definition user_password :: "cstring \<Rightarrow> user_state \<Rightarrow> user_state" where
  "user_password pw =
     at_curr (\<lambda>u. case u_password u of None \<Rightarrow> u\<lparr>u_password := Some pw\<rparr> | Some _ \<Rightarrow> u)"

definition user_add_instcmd :: "cstring \<Rightarrow> user_state \<Rightarrow> user_state" where
  "user_add_instcmd cmd =
     at_curr (\<lambda>u. if \<exists>c \<in> set (u_instcmds u). same_nocase c cmd then u
                  else u\<lparr>u_instcmds := u_instcmds u @ [cmd]\<rparr>)"

definition addaction :: "cstring list \<Rightarrow> cstring \<Rightarrow> cstring list" where
  "addaction base action = base @ [action]"

definition user_add_action :: "cstring \<Rightarrow> user_state \<Rightarrow> user_state" where
  "user_add_action act = at_curr (\<lambda>u. u\<lparr>u_actions := addaction (u_actions u) act\<rparr>)"

definition user_flush :: "user_state \<Rightarrow> user_state" where
  "user_flush st = st\<lparr>users := []\<rparr>"

definition set_upsmon_type :: "cstring \<Rightarrow> user_state \<Rightarrow> user_state" where
  "set_upsmon_type type st =
     (if same_nocase type ''master'' \<or> same_nocase type ''primary''
      then user_add_action ''fsd'' (user_add_action ''master'' (user_add_action ''login'' st))
      else if same_nocase type ''slave'' \<or> same_nocase type ''secondary''
      then user_add_action ''login'' st
      else st)"

definition parse_var :: "cstring \<Rightarrow> cstring \<Rightarrow> user_state \<Rightarrow> user_state" where
  "parse_var var val st =
     (if same_nocase var ''password'' then user_password val st
      else if same_nocase var ''instcmds'' then user_add_instcmd val st
      else if same_nocase var ''actions'' then user_add_action val st
      else if same_nocase var ''allowfrom'' then st
      else if same_nocase var ''upsmon'' then set_upsmon_type val st
      else st)"

definition parse_rest :: "cstring \<Rightarrow> cstring \<Rightarrow> cstring list \<Rightarrow> user_state \<Rightarrow> user_state" where
  "parse_rest var fval rest st =
     (if curr_user st = None then st
      else foldl (\<lambda>s v. parse_var var v s) (parse_var var fval st) rest)"

text \<open>\<open>strchr(arg[0], '=')\<close>: the text before and after the first equals sign.\<close>

definition split_equals :: "cstring \<Rightarrow> (cstring \<times> cstring) option" where
  "split_equals s =
     (if CHR ''='' \<in> set s
      then Some (takeWhile (\<lambda>c. c \<noteq> CHR ''='') s, tl (dropWhile (\<lambda>c. c \<noteq> CHR ''='') s))
      else None)"

definition user_parse_arg :: "cstring list \<Rightarrow> user_state \<Rightarrow> user_state" where
  "user_parse_arg arg st =
     (case arg of
        [] \<Rightarrow> st
      | a0 # rest \<Rightarrow>
          if same_nocase a0 ''user'' then st
          else case split_equals a0 of
            Some (var, val) \<Rightarrow> parse_rest var val rest st
          | None \<Rightarrow>
              if a0 \<noteq> [] \<and> hd a0 = CHR ''['' \<and> last a0 = CHR '']''
              then user_add (butlast (tl a0)) st
              else case rest of
                [] \<Rightarrow> st
              | a1 # rest1 \<Rightarrow>
                  let st1 = (if same_nocase a0 ''upsmon'' then set_upsmon_type a1 st else st) in
                  (case rest1 of
                     [] \<Rightarrow> st1
                   | a2 # left \<Rightarrow>
                       if a1 = ''='' then parse_rest a0 a2 left st1 else st1))"

definition user_load :: "PCONF_CTX_t \<Rightarrow> cstring \<Rightarrow> cstring + cstring \<Rightarrow> user_state \<Rightarrow> user_state option" where
  "user_load junk fn fopen st =
     (let st1 = st\<lparr>curr_user := None\<rparr> in
      case conf_words junk fn fopen of
        None \<Rightarrow> None
      | Some (Inl err) \<Rightarrow> Some st1
      | Some (Inr ls) \<Rightarrow> Some (foldl (\<lambda>s arg. user_parse_arg arg s) st1 ls))"

section \<open>Checks\<close>

definition user_matchinstcmd :: "ulist_t \<Rightarrow> cstring \<Rightarrow> bool" where
  "user_matchinstcmd user cmd \<longleftrightarrow>
     (\<exists>c \<in> set (u_instcmds user). same_nocase c cmd \<or> same_nocase c ''all'')"

definition user_matchaction :: "ulist_t \<Rightarrow> cstring \<Rightarrow> bool" where
  "user_matchaction user action \<longleftrightarrow> (\<exists>a \<in> set (u_actions user). same_nocase a action)"

text \<open>The loop both checks share: the first account of that name with a password decides.\<close>

fun check_account :: "(ulist_t \<Rightarrow> bool) \<Rightarrow> ulist_t list \<Rightarrow> cstring \<Rightarrow> cstring \<Rightarrow> bool" where
  "check_account allowed [] un pw = False"
| "check_account allowed (u # us) un pw =
     (case u_password u of
        None \<Rightarrow> check_account allowed us un pw
      | Some upw \<Rightarrow>
          if u_name u \<noteq> un then check_account allowed us un pw
          else if upw \<noteq> pw then False
          else allowed u)"

text \<open>\<open>None\<close> is a client that has not sent its user name or password.\<close>

definition user_checkinstcmd :: "user_state \<Rightarrow> cstring option \<Rightarrow> cstring option \<Rightarrow> cstring \<Rightarrow> bool" where
  "user_checkinstcmd st un pw cmd =
     (case (un, pw) of
        (Some n, Some p) \<Rightarrow> check_account (\<lambda>u. user_matchinstcmd u cmd) (users st) n p
      | _ \<Rightarrow> False)"

definition user_checkaction :: "user_state \<Rightarrow> cstring option \<Rightarrow> cstring option \<Rightarrow> cstring \<Rightarrow> bool" where
  "user_checkaction st un pw action =
     (case (un, pw) of
        (Some n, Some p) \<Rightarrow> check_account (\<lambda>u. user_matchaction u action) (users st) n p
      | _ \<Rightarrow> False)"

section \<open>Invariant\<close>

definition users_wf :: "user_state \<Rightarrow> bool" where
  "users_wf st \<longleftrightarrow>
     distinct (map u_name (users st)) \<and>
     (\<forall>i. curr_user st = Some i \<longrightarrow> i < length (users st)) \<and>
     (\<forall>u \<in> set (users st). distinct (map fold_case (u_instcmds u)))"

lemma at_curr_wf [nut_wf]:
  assumes "users_wf st" and "\<And>u. u_name (f u) = u_name u"
    and "\<And>u. distinct (map fold_case (u_instcmds u)) \<Longrightarrow> distinct (map fold_case (u_instcmds (f u)))"
  shows "users_wf (at_curr f st)"
proof (cases "curr_user st")
  case (Some i)
  then have i: "i < length (users st)" using assms(1) by (simp add: users_wf_def)
  have "map u_name ((users st)[i := f (users st ! i)]) = map u_name (users st)"
    using i by (simp add: map_update assms(2) list_update_same_conv)
  then show ?thesis
    using assms(1,3) i Some by (auto simp: users_wf_def at_curr_def dest!: set_update_subset_insert [THEN subsetD])
qed (use assms(1) in \<open>simp add: at_curr_def\<close>)

lemma user_add_wf [nut_wf]: "users_wf st \<Longrightarrow> users_wf (user_add un st)"
  by (auto simp: users_wf_def user_add_def)

lemma user_password_wf [nut_wf]: "users_wf st \<Longrightarrow> users_wf (user_password pw st)"
  unfolding user_password_def by (rule at_curr_wf) (auto split: option.splits)

lemma user_add_instcmd_wf [nut_wf]: "users_wf st \<Longrightarrow> users_wf (user_add_instcmd cmd st)"
  unfolding user_add_instcmd_def by (rule at_curr_wf) (auto simp: same_nocase_iff image_iff)

lemma user_add_action_wf [nut_wf]: "users_wf st \<Longrightarrow> users_wf (user_add_action act st)"
  unfolding user_add_action_def by (rule at_curr_wf) auto

lemma set_upsmon_type_wf [nut_wf]: "users_wf st \<Longrightarrow> users_wf (set_upsmon_type t st)"
  by (simp add: set_upsmon_type_def nut_wf)

lemma parse_var_wf [nut_wf]: "users_wf st \<Longrightarrow> users_wf (parse_var var val st)"
  by (simp add: parse_var_def nut_wf)

lemma parse_rest_wf [nut_wf]: "users_wf st \<Longrightarrow> users_wf (parse_rest var fval rest st)"
proof -
  have "users_wf s \<Longrightarrow> users_wf (foldl (\<lambda>s v. parse_var var v s) s rest)" for s
    by (induction rest arbitrary: s) (simp_all add: nut_wf)
  then show "users_wf st \<Longrightarrow> users_wf (parse_rest var fval rest st)"
    by (simp add: parse_rest_def nut_wf)
qed

lemma user_parse_arg_wf [nut_wf]: "users_wf st \<Longrightarrow> users_wf (user_parse_arg arg st)"
  by (simp add: user_parse_arg_def Let_def nut_wf split: list.split option.split)

lemma parse_lines_wf: "users_wf st \<Longrightarrow> users_wf (foldl (\<lambda>s arg. user_parse_arg arg s) st ls)"
  by (induction ls arbitrary: st) (simp_all add: nut_wf)

lemma user_load_wf [nut_wf]:
  assumes "users_wf st" and "user_load junk fn fopen st = Some st'"
  shows "users_wf st'"
proof -
  have "users_wf (st\<lparr>curr_user := None\<rparr>)" using assms(1) by (simp add: users_wf_def)
  then show ?thesis
    using assms(2) parse_lines_wf
    by (auto simp: user_load_def Let_def split: option.splits sum.splits)
qed

lemma check_account_iff:
  assumes "distinct (map u_name us)"
  shows "check_account allowed us un pw \<longleftrightarrow>
     (\<exists>u \<in> set us. u_name u = un \<and> u_password u = Some pw \<and> allowed u)"
  using assms
proof (induction us)
  case (Cons u us)
  have "u_name u = un \<Longrightarrow> \<forall>v \<in> set us. u_name v \<noteq> un"
    using Cons.prems by (simp add: image_iff) metis
  then show ?case using Cons by (auto split: option.split)
qed simp

lemma no_users_wf [simp, nut_wf]: "users_wf no_users"
  by (simp add: users_wf_def no_users_def)

lemma check_iff:
  assumes "users_wf st"
  shows "user_checkaction st (Some n) (Some p) a \<longleftrightarrow>
      (\<exists>u \<in> set (users st). u_name u = n \<and> u_password u = Some p \<and> user_matchaction u a)"
    and "user_checkinstcmd st (Some n) (Some p) c \<longleftrightarrow>
      (\<exists>u \<in> set (users st). u_name u = n \<and> u_password u = Some p \<and> user_matchinstcmd u c)"
  using check_account_iff [of "users st"] assms
  by (simp_all add: user_checkaction_def user_checkinstcmd_def users_wf_def)

lemma check_missing [simp]:
  "\<not> user_checkaction st None pw a" "\<not> user_checkaction st un None a"
  "\<not> user_checkinstcmd st None pw c" "\<not> user_checkinstcmd st un None c"
  by (auto simp: user_checkaction_def user_checkinstcmd_def split: option.splits)

text \<open>
  Property C35: after \<open>upsd.users\<close> is loaded, an action or an instant command is allowed to a
  client exactly when it gave the name and the password of one account of the file that
  lists the action or command (or \<open>all\<close>), whatever the file contains; a client that has not
  given both is refused everything.
\<close>

theorem user_checks_sound_complete:
  assumes "user_load junk fn fopen no_users = Some st"
  shows "(user_checkaction st un pw a \<longleftrightarrow>
      (\<exists>u \<in> set (users st). un = Some (u_name u) \<and> pw \<noteq> None \<and> u_password u = pw
         \<and> (\<exists>x \<in> set (u_actions u). same_nocase x a)))
    \<and> (user_checkinstcmd st un pw c \<longleftrightarrow>
      (\<exists>u \<in> set (users st). un = Some (u_name u) \<and> pw \<noteq> None \<and> u_password u = pw
         \<and> (\<exists>x \<in> set (u_instcmds u). same_nocase x c \<or> same_nocase x ''all'')))"
proof -
  have "users_wf st" using assms by (rule user_load_wf [rotated]) simp
  from check_iff [OF this] show ?thesis
    by (cases un; cases pw) (auto simp: user_matchaction_def user_matchinstcmd_def)
qed

definition sample_users :: cstring where
  "sample_users = ''[bob]'' @ [CHR 10] @ ''password = x'' @ [CHR 10] @ ''actions = SET'' @ [CHR 10]"

theorem user_checks_sound_complete_witness:
  "\<exists>st. user_load blank_ctx ''upsd.users'' (Inr sample_users) no_users = Some st
     \<and> user_checkaction st (Some ''bob'') (Some ''x'') ''set''
     \<and> \<not> user_checkaction st (Some ''bob'') (Some ''y'') ''set''"
proof -
  have load: "user_load blank_ctx ''upsd.users'' (Inr sample_users) no_users =
      Some \<lparr>users = [\<lparr>u_name = ''bob'', u_password = Some ''x'', u_instcmds = [], u_actions = [''SET'']\<rparr>],
            curr_user = Some 0\<rparr>"
    by code_simp
  have case_ok: "same_nocase ''SET'' ''set''" by code_simp
  show ?thesis
    by (rule exI, rule conjI [OF load])
      (simp add: conjunct1 [OF user_checks_sound_complete [OF load, where c = "[]"]] case_ok)
qed

section \<open>Settings stick to their account\<close>

text \<open>What no setting can change about the accounts read so far.\<close>

definition keeps_account :: "user_state \<Rightarrow> user_state \<Rightarrow> nat \<Rightarrow> bool" where
  "keeps_account st st' i \<longleftrightarrow>
     i < length (users st') \<and>
     u_name (users st' ! i) = u_name (users st ! i) \<and>
     (u_password (users st ! i) \<noteq> None \<longrightarrow> u_password (users st' ! i) = u_password (users st ! i)) \<and>
     set (u_actions (users st ! i)) \<subseteq> set (u_actions (users st' ! i)) \<and>
     set (u_instcmds (users st ! i)) \<subseteq> set (u_instcmds (users st' ! i))"

lemma keeps_account_refl [simp]: "i < length (users st) \<Longrightarrow> keeps_account st st i"
  by (simp add: keeps_account_def)

lemma keeps_account_trans: "keeps_account s t i \<Longrightarrow> keeps_account t u i \<Longrightarrow> keeps_account s u i"
  by (auto simp: keeps_account_def)

lemma keeps_at_curr:
  assumes "i < length (users st)"
    and "\<And>u. u_name (f u) = u_name u"
    and "\<And>u. u_password u \<noteq> None \<Longrightarrow> u_password (f u) = u_password u"
    and "\<And>u. set (u_actions u) \<subseteq> set (u_actions (f u))"
    and "\<And>u. set (u_instcmds u) \<subseteq> set (u_instcmds (f u))"
  shows "keeps_account st (at_curr f st) i"
proof (cases "curr_user st = Some i")
  case True
  then show ?thesis using assms by (simp add: keeps_account_def at_curr_def)
next
  case False
  then show ?thesis using assms(1) by (auto simp: keeps_account_def at_curr_def split: option.split)
qed

lemma keeps_setting:
  assumes "i < length (users st)"
  shows "keeps_account st (user_add un st) i" "keeps_account st (user_password pw st) i"
    "keeps_account st (user_add_instcmd c st) i" "keeps_account st (user_add_action a st) i"
proof -
  show "keeps_account st (user_add un st) i"
    using assms by (simp add: user_add_def keeps_account_def nth_append)
  show "keeps_account st (user_password pw st) i"
    unfolding user_password_def by (rule keeps_at_curr [OF assms]) (auto split: option.splits)
  show "keeps_account st (user_add_instcmd c st) i"
    unfolding user_add_instcmd_def by (rule keeps_at_curr [OF assms]) auto
  show "keeps_account st (user_add_action a st) i"
    unfolding user_add_action_def by (rule keeps_at_curr [OF assms]) (auto simp: addaction_def)
qed

lemma keeps_then:
  assumes "keeps_account s t i" and "\<And>u. i < length (users u) \<Longrightarrow> keeps_account u (g u) i"
  shows "keeps_account s (g t) i"
proof -
  have "i < length (users t)" using assms(1) by (simp add: keeps_account_def)
  then show ?thesis using keeps_account_trans [OF assms(1) assms(2)] by blast
qed

lemma keeps_set_upsmon_type: "i < length (users st) \<Longrightarrow> keeps_account st (set_upsmon_type t st) i"
proof -
  assume i: "i < length (users st)"
  have add: "keeps_account st t i \<Longrightarrow> keeps_account st (user_add_action a t) i" for t a
    using keeps_then [of st t i "user_add_action a"] keeps_setting(4) by blast
  show ?thesis using i by (simp add: set_upsmon_type_def add)
qed

lemma keeps_parse_var: "i < length (users st) \<Longrightarrow> keeps_account st (parse_var var v st) i"
  by (simp add: parse_var_def keeps_setting keeps_set_upsmon_type)

lemma keeps_fold:
  assumes "\<And>x u. i < length (users u) \<Longrightarrow> keeps_account u (f u x) i" and "keeps_account s t i"
  shows "keeps_account s (foldl f t xs) i"
  using assms(2)
proof (induction xs arbitrary: t)
  case (Cons x xs)
  have "keeps_account s (f t x) i" using keeps_then [of s t i "\<lambda>u. f u x"] Cons.prems assms(1) by blast
  then show ?case using Cons.IH by simp
qed simp

lemma keeps_parse_rest:
  assumes "i < length (users st)"
  shows "keeps_account st (parse_rest var fval rest st) i"
proof -
  have "keeps_account st (foldl (\<lambda>s v. parse_var var v s) (parse_var var fval st) rest) i"
    by (rule keeps_fold) (simp_all add: keeps_parse_var assms)
  then show ?thesis using assms by (simp add: parse_rest_def)
qed

lemma keeps_user_parse_arg:
  assumes "i < length (users st)"
  shows "keeps_account st (user_parse_arg arg st) i"
proof -
  have upsmon: "keeps_account st (set_upsmon_type x st) i" for x
    using assms by (rule keeps_set_upsmon_type)
  have rest: "keeps_account st (parse_rest v w r (set_upsmon_type x st)) i" for x v w r
    using keeps_then [OF upsmon keeps_parse_rest] .
  show ?thesis
    using upsmon rest keeps_parse_rest [OF assms] keeps_setting(1) [OF assms] assms
    by (simp add: user_parse_arg_def Let_def split: list.split option.split)
qed

text \<open>
  whatever lines follow, an account that has been read keeps its name, its
  password once it has one (the first one counts), and every action and command it was
  given: a later section cannot change the password of an earlier account.
\<close>

theorem user_lines_keep_accounts:
  assumes "i < length (users st)" and "u_password (users st ! i) = Some pw"
  shows "u_name (users (foldl (\<lambda>s arg. user_parse_arg arg s) st ls) ! i) = u_name (users st ! i)
    \<and> u_password (users (foldl (\<lambda>s arg. user_parse_arg arg s) st ls) ! i) = Some pw
    \<and> set (u_actions (users st ! i)) \<subseteq> set (u_actions (users (foldl (\<lambda>s arg. user_parse_arg arg s) st ls) ! i))"
proof -
  have "keeps_account st (foldl (\<lambda>s arg. user_parse_arg arg s) st ls) i"
    by (rule keeps_fold) (simp_all add: keeps_user_parse_arg assms(1))
  then show ?thesis using assms(2) by (simp add: keeps_account_def)
qed

definition one_user :: user_state where
  "one_user = \<lparr>users = [\<lparr>u_name = ''bob'', u_password = Some ''x'', u_instcmds = [], u_actions = []\<rparr>],
               curr_user = Some 0\<rparr>"

theorem user_lines_keep_accounts_witness:
  "u_password (users (foldl (\<lambda>s arg. user_parse_arg arg s) one_user [[''password'', ''='', ''y'']]) ! 0) = Some ''x''"
  by (rule conjunct1 [OF conjunct2 [OF user_lines_keep_accounts]]) (simp_all add: one_user_def)

text \<open>
  A second section header for a known account is ignored, but the account being
  filled in is not switched: the actions that follow are granted to the account of the
  section before, not to the one named in the header.
\<close>

theorem duplicate_section_grants_previous:
  assumes "curr_user st = Some i" and "i < length (users st)"
    and "\<exists>u \<in> set (users st). u_name u = un" and "CHR ''='' \<notin> set un"
  shows "user_parse_arg [''actions'', ''='', act] (user_parse_arg [CHR ''['' # un @ '']''] st)
     = st\<lparr>users := (users st)[i := (users st ! i)\<lparr>u_actions := u_actions (users st ! i) @ [act]\<rparr>]\<rparr>"
proof -
  have first: "\<not> same_nocase (CHR ''['' # x) ''user''" for x
    by (simp add: same_nocase_iff fold_case_def tolower_def code_of_def)
  have header: "user_parse_arg [CHR ''['' # un @ '']''] st = st"
    using assms(3,4) by (auto simp: user_parse_arg_def first split_equals_def user_add_def)
  have "\<not> same_nocase ''actions'' ''user''" "\<not> same_nocase ''actions'' ''upsmon''"
    "\<not> same_nocase ''actions'' ''password''" "\<not> same_nocase ''actions'' ''instcmds''"
    "same_nocase ''actions'' ''actions''" by code_simp+
  then show ?thesis
    unfolding header using assms(1)
    by (simp add: user_parse_arg_def split_equals_def parse_rest_def parse_var_def user_add_action_def
        at_curr_def addaction_def)
qed

definition two_users :: user_state where
  "two_users = foldl (\<lambda>s arg. user_parse_arg arg s) no_users
     [[''[alice]''], [''password'', ''='', ''a''], [''[bob]''], [''password'', ''='', ''b'']]"

theorem duplicate_section_grants_previous_witness:
  "map u_actions (users (user_parse_arg [''actions'', ''='', ''FSD''] (user_parse_arg [''[alice]''] two_users)))
     = [[], [''FSD'']]"
proof -
  have two: "two_users =
      \<lparr>users = [\<lparr>u_name = ''alice'', u_password = Some ''a'', u_instcmds = [], u_actions = []\<rparr>,
                \<lparr>u_name = ''bob'', u_password = Some ''b'', u_instcmds = [], u_actions = []\<rparr>],
       curr_user = Some 1\<rparr>"
    by code_simp
  have "user_parse_arg [''actions'', ''='', ''FSD''] (user_parse_arg [CHR ''['' # ''alice'' @ '']''] two_users)
      = two_users\<lparr>users := (users two_users)[1 := (users two_users ! 1)\<lparr>u_actions := u_actions (users two_users ! 1) @ [''FSD'']\<rparr>]\<rparr>"
    by (rule duplicate_section_grants_previous) (simp_all add: two)
  then show ?thesis by (simp add: two)
qed

end
