(* ===== verification/Desc.thy ===== *)
theory Desc
  imports ConfFile
begin

text \<open>
  Model of \<open>src/server/desc.c\<close>: the descriptions of variables and commands from
  \<open>cmdvartab\<close>. A list \<open>dlist_t\<close> is an association list, the newest name first.
\<close>

type_synonym dlist_t = "(cstring \<times> cstring) list"

record desc_state =
  cmd_list :: dlist_t
  var_list :: dlist_t

fun list_get :: "dlist_t \<Rightarrow> cstring \<Rightarrow> cstring option" where
  "list_get [] name = None"
| "list_get (d # ds) name = (if same_nocase (fst d) name then Some (snd d) else list_get ds name)"

text \<open>The first entry of that name gets the new text; without one, a new entry goes in front.\<close>

fun desc_replace :: "dlist_t \<Rightarrow> cstring \<Rightarrow> cstring \<Rightarrow> dlist_t" where
  "desc_replace [] name desc = []"
| "desc_replace (d # ds) name desc =
     (if same_nocase (fst d) name then (fst d, desc) # ds else d # desc_replace ds name desc)"

definition desc_add :: "dlist_t \<Rightarrow> cstring \<Rightarrow> cstring \<Rightarrow> dlist_t" where
  "desc_add xs name desc =
     (if list_get xs name = None then (name, desc) # xs else desc_replace xs name desc)"

definition desc_line :: "cstring list \<Rightarrow> desc_state \<Rightarrow> desc_state" where
  "desc_line arg st =
     (case arg of
        a0 # a1 # a2 # _ \<Rightarrow>
          if a0 = ''CMDDESC'' then st\<lparr>cmd_list := desc_add (cmd_list st) a1 a2\<rparr>
          else if a0 = ''VARDESC'' then st\<lparr>var_list := desc_add (var_list st) a1 a2\<rparr>
          else st
      | _ \<Rightarrow> st)"

definition desc_load :: "PCONF_CTX_t \<Rightarrow> cstring \<Rightarrow> cstring + cstring \<Rightarrow> desc_state \<Rightarrow> desc_state option" where
  "desc_load junk fn fopen st =
     (case conf_words junk fn fopen of
        None \<Rightarrow> None
      | Some (Inl err) \<Rightarrow> Some st
      | Some (Inr ls) \<Rightarrow> Some (foldl (\<lambda>s arg. desc_line arg s) st ls))"

definition desc_free :: "desc_state \<Rightarrow> desc_state" where
  "desc_free st = st\<lparr>cmd_list := [], var_list := []\<rparr>"

definition desc_get_cmd :: "desc_state \<Rightarrow> cstring \<Rightarrow> cstring option" where
  "desc_get_cmd st name = list_get (cmd_list st) name"

definition desc_get_var :: "desc_state \<Rightarrow> cstring \<Rightarrow> cstring option" where
  "desc_get_var st name = list_get (var_list st) name"

section \<open>Descriptions as a store\<close>

lemma list_get_replace:
  "list_get (desc_replace ds n x) m =
     (if same_nocase n m \<and> list_get ds n \<noteq> None then Some x else list_get ds m)"
proof (induction ds)
  case (Cons d ds)
  then show ?case by (auto simp: same_nocase_iff)
qed simp

lemma list_get_add:
  "list_get (desc_add ds n x) m = (if same_nocase n m then Some x else list_get ds m)"
  by (auto simp: desc_add_def list_get_replace)

text \<open>A description replaces the one before it.\<close>

definition put_desc :: "cstring \<Rightarrow> cstring \<Rightarrow> cstring option \<Rightarrow> cstring" where
  "put_desc name desc old = desc"

interpretation desc_store: keyed_store list_get desc_add "\<lambda>_. True" same_nocase put_desc
  by unfold_locales (simp_all only: list_get_add put_desc_def same_nocase_iff simp_thms)

lemma foldl_desc_add: "foldl (\<lambda>s ab. desc_add s (fst ab) (snd ab)) xs ps = desc_store.puts ps xs"
  by (simp add: desc_store.puts_def)

text \<open>The lines of a file that set descriptions of variables.\<close>

fun var_lines :: "cstring list list \<Rightarrow> (cstring \<times> cstring) list" where
  "var_lines [] = []"
| "var_lines ((a0 # a1 # a2 # r) # ls) =
     (if a0 = ''VARDESC'' then (a1, a2) # var_lines ls else var_lines ls)"
| "var_lines (l # ls) = var_lines ls"

lemma var_list_lines:
  "var_list (foldl (\<lambda>s arg. desc_line arg s) st ls) = desc_store.puts (var_lines ls) (var_list st)"
  by (induction ls arbitrary: st rule: var_lines.induct)
    (auto simp: desc_line_def desc_store.puts_def)

text \<open>
  after \<open>cmdvartab\<close> is loaded, the description of a variable, under any spelling
  of its name, is the one of the last \<open>VARDESC\<close> line for that name; a name without a line
  keeps the description it had.
\<close>

theorem desc_load_last_wins:
  assumes "desc_load junk fn fopen st = Some st'"
    and "conf_words junk fn fopen = Some (Inr ls)"
  shows "desc_get_var st' v =
     (case rev (filter (\<lambda>nd. same_nocase (fst nd) v) (var_lines ls)) of
        [] \<Rightarrow> desc_get_var st v
      | nd # _ \<Rightarrow> Some (snd nd))"
proof -
  have st': "var_list st' = desc_store.puts (var_lines ls) (var_list st)"
    using assms by (auto simp: desc_load_def var_list_lines)
  have "list_get (desc_store.puts ps xs) v =
     (case rev (filter (\<lambda>nd. same_nocase (fst nd) v) ps) of
        [] \<Rightarrow> list_get xs v | nd # _ \<Rightarrow> Some (snd nd))" for ps xs
    by (induction ps rule: rev_induct) (simp_all add: desc_store.puts_def list_get_add)
  then show ?thesis unfolding desc_get_var_def st' .
qed

definition sample_cmdvartab :: cstring where
  "sample_cmdvartab = ''VARDESC ups.id one'' @ [CHR 10] @ ''VARDESC UPS.id two'' @ [CHR 10]"

theorem desc_load_last_wins_witness:
  "\<exists>st'. desc_load blank_ctx ''cmdvartab'' (Inr sample_cmdvartab) \<lparr>cmd_list = [], var_list = []\<rparr> = Some st'
     \<and> desc_get_var st' ''ups.id'' = Some ''two''"
proof -
  have ls: "conf_words blank_ctx ''cmdvartab'' (Inr sample_cmdvartab) =
      Some (Inr [[''VARDESC'', ''ups.id'', ''one''], [''VARDESC'', ''UPS.id'', ''two'']])"
    by code_simp
  then obtain st' where st': "desc_load blank_ctx ''cmdvartab'' (Inr sample_cmdvartab) \<lparr>cmd_list = [], var_list = []\<rparr> = Some st'"
    by (auto simp: desc_load_def)
  have "rev (filter (\<lambda>nd. same_nocase (fst nd) ''ups.id'')
      (var_lines [[''VARDESC'', ''ups.id'', ''one''], [''VARDESC'', ''UPS.id'', ''two'']]))
      = [(''UPS.id'', ''two''), (''ups.id'', ''one'')]" by code_simp
  then show ?thesis
    using st' by (intro exI [of _ st']) (simp only: desc_load_last_wins [OF st' ls] list.case snd_conv simp_thms)
qed

end
