(* ===== verification/Tracking.thy ===== *)
theory Tracking
  imports CLib
begin

text \<open>
  Model of the status tracking of commands and settings in \<open>src/server/upsd.c\<close>: the list
  \<open>tracking_list\<close> (newest first), its switch, and the generator of identifiers. The wall
  clock is the argument \<open>now\<close>; the values of \<open>rand\<close> are an argument of the generator.
\<close>

definition STAT_PENDING :: int where "STAT_PENDING = - 1"
definition STAT_HANDLED :: int where "STAT_HANDLED = 0"
definition STAT_UNKNOWN :: int where "STAT_UNKNOWN = 1"
definition STAT_INVALID :: int where "STAT_INVALID = 2"
definition STAT_FAILED :: int where "STAT_FAILED = 3"
definition STAT_CONVERSION_FAILED :: int where "STAT_CONVERSION_FAILED = 4"

record tracking_t =
  tr_id :: cstring
  tr_status :: int
  tr_request_time :: int

record tracking_state =
  tracking_enabled :: bool
  tracking_list :: "tracking_t list"

section \<open>Operations\<close>

definition tracking_add :: "cstring \<Rightarrow> int \<Rightarrow> tracking_state \<Rightarrow> int \<times> tracking_state" where
  "tracking_add tid now ts =
     (if \<not> tracking_enabled ts then (0, ts)
      else (1, ts\<lparr>tracking_list :=
                 \<lparr>tr_id = tid, tr_status = STAT_PENDING, tr_request_time = now\<rparr> # tracking_list ts\<rparr>))"

fun set_first :: "cstring \<Rightarrow> int \<Rightarrow> tracking_t list \<Rightarrow> int \<times> tracking_t list" where
  "set_first tid st [] = (0, [])"
| "set_first tid st (t # rest) =
     (if same_nocase (tr_id t) tid then (1, t\<lparr>tr_status := st\<rparr> # rest)
      else (case set_first tid st rest of (ret, rest1) \<Rightarrow> (ret, t # rest1)))"

definition tracking_set :: "cstring \<Rightarrow> cstring \<Rightarrow> tracking_state \<Rightarrow> int \<times> tracking_state" where
  "tracking_set tid value ts =
     (case set_first tid (atoi value) (tracking_list ts) of
        (ret, rest) \<Rightarrow> (ret, ts\<lparr>tracking_list := rest\<rparr>))"

fun del_first :: "cstring \<Rightarrow> tracking_t list \<Rightarrow> int \<times> tracking_t list" where
  "del_first tid [] = (0, [])"
| "del_first tid (t # rest) =
     (if same_nocase (tr_id t) tid then (1, rest)
      else (case del_first tid rest of (ret, rest1) \<Rightarrow> (ret, t # rest1)))"

definition tracking_del :: "cstring \<Rightarrow> tracking_state \<Rightarrow> int \<times> tracking_state" where
  "tracking_del tid ts =
     (case del_first tid (tracking_list ts) of (ret, rest) \<Rightarrow> (ret, ts\<lparr>tracking_list := rest\<rparr>))"

text \<open>
  Both loops below walk over the list as it was; each deletion goes by identifier, from the
  head of the list.
\<close>

definition tracking_free :: "tracking_state \<Rightarrow> tracking_state" where
  "tracking_free ts = foldl (\<lambda>s t. snd (tracking_del (tr_id t) s)) ts (tracking_list ts)"

definition tracking_cleanup :: "int \<Rightarrow> int \<Rightarrow> tracking_state \<Rightarrow> tracking_state" where
  "tracking_cleanup tracking_delay now ts =
     foldl (\<lambda>s t. if difftime now (tr_request_time t) > tracking_delay
                  then snd (tracking_del (tr_id t) s) else s) ts (tracking_list ts)"

definition status_text :: "int \<Rightarrow> cstring option" where
  "status_text st =
     (if st = STAT_PENDING then Some ''PENDING''
      else if st = STAT_HANDLED then Some ''SUCCESS''
      else if st = STAT_UNKNOWN then Some ''ERR UNKNOWN''
      else if st = STAT_INVALID \<or> st = STAT_CONVERSION_FAILED then Some ''ERR INVALID-ARGUMENT''
      else if st = STAT_FAILED then Some ''ERR FAILED''
      else None)"

text \<open>An entry with a status outside the switch is passed over.\<close>

fun get_status :: "cstring \<Rightarrow> tracking_t list \<Rightarrow> cstring" where
  "get_status tid [] = ''ERR UNKNOWN''"
| "get_status tid (t # rest) =
     (if \<not> same_nocase (tr_id t) tid then get_status tid rest
      else case status_text (tr_status t) of Some s \<Rightarrow> s | None \<Rightarrow> get_status tid rest)"

definition tracking_get :: "cstring \<Rightarrow> tracking_state \<Rightarrow> cstring" where
  "tracking_get tid ts = get_status tid (tracking_list ts)"

definition tracking_enable :: "tracking_state \<Rightarrow> bool \<times> tracking_state" where
  "tracking_enable ts = (True, ts\<lparr>tracking_enabled := True\<rparr>)"

text \<open>\<open>tracking_disable\<close> looks at the flags of all clients; it writes nothing.\<close>

definition tracking_disable :: "bool list \<Rightarrow> tracking_state \<Rightarrow> int \<times> tracking_state" where
  "tracking_disable client_flags ts = (if \<exists>b \<in> set client_flags. b then 1 else 0, ts)"

definition tracking_is_enabled :: "tracking_state \<Rightarrow> bool" where
  "tracking_is_enabled ts = tracking_enabled ts"

section \<open>Identifiers\<close>

unbundle bit_operations_syntax

definition UUID4_BYTESIZE :: nat where "UUID4_BYTESIZE = 16"
definition UUID4_LEN :: nat where "UUID4_LEN = 37"

text \<open>Two values of \<open>rand\<close> per byte, each cut to 8 bits, and so is their sum.\<close>

fun uuid_fill :: "nat \<Rightarrow> nat list \<Rightarrow> 8 word list" where
  "uuid_fill 0 rs = []"
| "uuid_fill (Suc n) (a # b # rs) = (word_of_nat a + word_of_nat b) # uuid_fill n rs"
| "uuid_fill (Suc n) rs = 0 # uuid_fill n []"

definition uuid_bytes :: "nat list \<Rightarrow> 8 word list" where
  "uuid_bytes rs =
     (let u = uuid_fill UUID4_BYTESIZE rs;
          u1 = u[6 := (u ! 6 AND 0x0F) OR 0x40]
      in u1[8 := (u1 ! 8 AND 0x3F) OR 0x80])"

definition hex_upper :: "nat \<Rightarrow> char" where
  "hex_upper d = (if d < 10 then char_of (48 + d) else char_of (55 + d))"

definition hex2 :: "8 word \<Rightarrow> cstring" where
  "hex2 b = [hex_upper (unat b div 16), hex_upper (unat b mod 16)]"

definition nut_uuid_v4 :: "nat list \<Rightarrow> cstring" where
  "nut_uuid_v4 rs =
     (let h = (\<lambda>i k. concat (map hex2 (take k (drop i (uuid_bytes rs)))))
      in snprintf UUID4_LEN
           (h 0 4 @ ''-'' @ h 4 2 @ ''-'' @ h 6 2 @ ''-'' @ h 8 2 @ ''-'' @ h 10 6))"

section \<open>The life of an entry\<close>


definition tracking_on :: tracking_state where
  "tracking_on = \<lparr>tracking_enabled = True, tracking_list = []\<rparr>"


lemma tracking_del_head:
  "same_nocase (tr_id t) tid \<Longrightarrow> tracking_list ts = t # rest \<Longrightarrow>
     snd (tracking_del tid ts) = ts\<lparr>tracking_list := rest\<rparr>"
  by (simp add: tracking_del_def)

lemma del_first_pass:
  "\<forall>t \<in> set xs. \<not> same_nocase (tr_id t) tid \<Longrightarrow>
     del_first tid (xs @ ys) = (fst (del_first tid ys), xs @ snd (del_first tid ys))"
  by (induction xs) (auto simp: case_prod_beta)

text \<open>
  \<open>tracking_free\<close> leaves no entry behind, even when identifiers occur twice.
\<close>

theorem tracking_free_empties: "tracking_list (tracking_free ts) = []"
proof -
  have "tracking_list (foldl (\<lambda>s t. snd (tracking_del (tr_id t) s)) s rest) = []"
    if "tracking_list s = rest" for s rest
    using that by (induction rest arbitrary: s) (simp_all add: tracking_del_def)
  then show ?thesis by (simp add: tracking_free_def)
qed

text \<open>
  As long as no identifier occurs twice, \<open>tracking_cleanup\<close> keeps exactly the
  entries that are not older than \<open>tracking_delay\<close>, in their order.
\<close>

theorem tracking_cleanup_keeps_young:
  assumes "distinct (map (fold_case \<circ> tr_id) (tracking_list ts))"
  shows "tracking_list (tracking_cleanup delay now ts) =
     filter (\<lambda>t. now - tr_request_time t \<le> delay) (tracking_list ts)"
proof -
  let ?P = "\<lambda>t. now - tr_request_time t \<le> delay"
  let ?f = "\<lambda>s t. if difftime now (tr_request_time t) > delay then snd (tracking_del (tr_id t) s) else s"
  have "tracking_list (foldl ?f s rest) = filter ?P kept @ filter ?P rest"
    if "tracking_list s = filter ?P kept @ rest" and "distinct (map (fold_case \<circ> tr_id) (kept @ rest))"
    for s kept rest
    using that
  proof (induction rest arbitrary: s "kept")
    case (Cons t rest)
    have apart: "\<forall>x \<in> set (filter ?P kept). \<not> same_nocase (tr_id x) (tr_id t)"
      using Cons.prems(2) by (auto simp: same_nocase_iff) (metis imageI)
    have dist: "distinct (map (fold_case \<circ> tr_id) ((kept @ [t]) @ rest))"
      using Cons.prems(2) by (simp add: comp_def)
    have "tracking_list (?f s t) = filter ?P (kept @ [t]) @ rest"
      using Cons.prems(1) by (auto simp: difftime_def tracking_del_def del_first_pass [OF apart])
    from Cons.IH [OF this dist] show ?case by simp
  qed simp
  from this [of ts "[]" "tracking_list ts"] show ?thesis
    using assms by (simp add: tracking_cleanup_def)
qed

definition two_tracks :: tracking_state where
  "two_tracks = \<lparr>tracking_enabled = True, tracking_list =
     [\<lparr>tr_id = ''B'', tr_status = 0, tr_request_time = 90\<rparr>, \<lparr>tr_id = ''A'', tr_status = 0, tr_request_time = 10\<rparr>]\<rparr>"

theorem tracking_cleanup_keeps_young_witness:
  "map tr_id (tracking_list (tracking_cleanup 50 100 two_tracks)) = [''B'']"
proof -
  have "distinct (map (fold_case \<circ> tr_id) (tracking_list two_tracks))" by code_simp
  then show ?thesis by (simp add: tracking_cleanup_keeps_young two_tracks_def)
qed

section \<open>Identifiers are version 4 UUIDs\<close>

lemma uuid_fill_length [simp]: "length (uuid_fill n rs) = n"
  by (induction n rs rule: uuid_fill.induct) auto

lemma uuid_bytes_length [simp]: "length (uuid_bytes rs) = UUID4_BYTESIZE"
  by (simp add: uuid_bytes_def Let_def)

lemma hex2_length [simp]: "length (hex2 b) = 2"
  by (simp add: hex2_def)

lemma concat_hex2_length: "length (concat (map hex2 bs)) = 2 * length bs"
  by (induction bs) simp_all

lemma uuid_bits:
  "((b AND 0x0F) OR 0x40) AND 0xF0 = (0x40 :: 8 word)"
  "((b AND 0x3F) OR 0x80) AND 0xC0 = (0x80 :: 8 word)"
  by (simp_all add: bit.conj_disj_distrib2 and.assoc)

text \<open>
  an identifier made by \<open>nut_uuid_v4\<close> is never cut by its buffer: it has 36
  characters, and it carries the version 4 and the variant bits of RFC 4122, for all values
  of \<open>rand\<close>.
\<close>

theorem nut_uuid_v4_shape:
  "length (nut_uuid_v4 rs) = 36 \<and> length (nut_uuid_v4 rs) < UUID4_LEN
   \<and> (uuid_bytes rs ! 6) AND 0xF0 = 0x40 \<and> (uuid_bytes rs ! 8) AND 0xC0 = 0x80"
proof -
  have "length (nut_uuid_v4 rs) = 36"
    by (simp add: nut_uuid_v4_def snprintf_def Let_def concat_hex2_length UUID4_LEN_def UUID4_BYTESIZE_def)
  moreover have "(uuid_bytes rs ! 6) AND 0xF0 = 0x40" "(uuid_bytes rs ! 8) AND 0xC0 = 0x80"
    by (simp_all add: uuid_bytes_def UUID4_BYTESIZE_def Let_def uuid_bits)
  ultimately show ?thesis by (simp add: UUID4_LEN_def)
qed

end
