(* ===== verification/Sstate.thy ===== *)
theory Sstate
  imports SocketLine StateTreeSpec Tracking
begin

text \<open>
  Model of \<open>src/server/sstate.c\<close> with \<open>upstype_t\<close> of \<open>src/server/upstype.h\<close>: the data
  server's end of a driver socket. A valid \<open>sock_fd\<close> is the flag \<open>ups_connected\<close>; what
  the operating system does (a \<open>read\<close>, whether a \<open>write\<close> took the whole line, how far
  connecting got) is an argument of the operation, and so are both clocks: \<open>now\<close> for
  \<open>time\<close>, \<open>clk\<close> for the time stamps of the tree.
\<close>

record upstype =
  ups_name :: cstring
  ups_fn :: cstring
  ups_desc :: "cstring option"
  ups_connected :: bool
  ups_stale :: bool
  ups_dumpdone :: bool
  ups_data_ok :: bool
  ups_last_heard :: int
  ups_last_ping :: int
  ups_last_connfail :: int
  ups_sock_ctx :: PCONF_CTX_t
  ups_inforoot :: st_tree
  ups_cmdlist :: "cstring list"
  ups_numlogins :: int
  ups_fsd :: bool
  ups_retain :: bool

definition SS_CONNFAIL_INT :: int where "SS_CONNFAIL_INT = 300"

section \<open>One line from a driver\<close>

definition parse_args ::
  "timespec \<Rightarrow> cstring list \<Rightarrow> upstype \<times> tracking_state \<Rightarrow> bool \<times> (upstype \<times> tracking_state)" where
  "parse_args clk arg st =
     (case st of (ups, tracks) \<Rightarrow>
       let numargs = length arg; is = (\<lambda>s. same_nocase (arg ! 0) s);
           up = (\<lambda>f. (True, (f ups, tracks)))
       in
       if numargs < 1 then (False, st)
       else if is ''PONG'' then (True, st)
       else if is ''DUMPDONE'' then up (\<lambda>u. u\<lparr>ups_dumpdone := True\<rparr>)
       else if is ''DATASTALE'' then up (\<lambda>u. u\<lparr>ups_data_ok := False\<rparr>)
       else if is ''DATAOK'' then up (\<lambda>u. u\<lparr>ups_data_ok := True\<rparr>)
       else if numargs < 2 then (False, st)
       else if is ''ADDCMD'' then up (\<lambda>u. u\<lparr>ups_cmdlist := snd (state_addcmd (ups_cmdlist u) (arg ! 1))\<rparr>)
       else if is ''DELCMD'' then up (\<lambda>u. u\<lparr>ups_cmdlist := snd (state_delcmd (ups_cmdlist u) (arg ! 1))\<rparr>)
       else if is ''DELINFO'' then up (\<lambda>u. u\<lparr>ups_inforoot := snd (state_delinfo (ups_inforoot u) (arg ! 1))\<rparr>)
       else if numargs < 3 then (False, st)
       else if is ''SETFLAGS''
         then up (\<lambda>u. u\<lparr>ups_inforoot := state_setflags (ups_inforoot u) (arg ! 1) (drop 2 arg) clk\<rparr>)
       else if is ''SETINFO''
         then up (\<lambda>u. u\<lparr>ups_inforoot := snd (state_setinfo (ups_inforoot u) (arg ! 1) (arg ! 2) clk)\<rparr>)
       else if is ''ADDENUM''
         then up (\<lambda>u. u\<lparr>ups_inforoot := snd (state_addenum (ups_inforoot u) (arg ! 1) (arg ! 2) clk)\<rparr>)
       else if is ''DELENUM''
         then up (\<lambda>u. u\<lparr>ups_inforoot := snd (state_delenum (ups_inforoot u) (arg ! 1) (arg ! 2) clk)\<rparr>)
       else if is ''SETAUX''
         then up (\<lambda>u. u\<lparr>ups_inforoot := snd (state_setaux (ups_inforoot u) (arg ! 1) (arg ! 2) clk)\<rparr>)
       else if is ''TRACKING'' then (True, (ups, snd (tracking_set (arg ! 1) (arg ! 2) tracks)))
       else if numargs < 4 then (False, st)
       else if is ''ADDRANGE''
         then up (\<lambda>u. u\<lparr>ups_inforoot := snd (state_addrange (ups_inforoot u) (arg ! 1) (atoi (arg ! 2)) (atoi (arg ! 3)) clk)\<rparr>)
       else if is ''DELRANGE''
         then up (\<lambda>u. u\<lparr>ups_inforoot := snd (state_delrange (ups_inforoot u) (arg ! 1) (atoi (arg ! 2)) (atoi (arg ! 3)) clk)\<rparr>)
       else (False, st))"

section \<open>The connection\<close>

definition sstate_infofree :: "upstype \<Rightarrow> upstype" where
  "sstate_infofree ups = ups\<lparr>ups_inforoot := Leaf\<rparr>"

definition sstate_cmdfree :: "upstype \<Rightarrow> upstype" where
  "sstate_cmdfree ups = ups\<lparr>ups_cmdlist := []\<rparr>"

definition sstate_disconnect :: "upstype \<Rightarrow> upstype" where
  "sstate_disconnect ups =
     (if \<not> ups_connected ups then ups
      else let u = sstate_cmdfree (sstate_infofree ups)
           in u\<lparr>ups_sock_ctx := pconf_finish (ups_sock_ctx u), ups_connected := False\<rparr>)"

definition sendping :: "bool \<Rightarrow> int \<Rightarrow> upstype \<Rightarrow> upstype" where
  "sendping write_ok now ups =
     (if \<not> ups_connected ups then ups
      else if \<not> write_ok then sstate_disconnect ups
      else ups\<lparr>ups_last_ping := now\<rparr>)"

text \<open>How far \<open>socket\<close>, \<open>connect\<close>, \<open>fcntl\<close> and the first \<open>write\<close> get.\<close>

datatype connect_result = Socket_failed | Connect_failed | Setup_failed | Write_failed | Connect_ok

text \<open>The caller stores the result in \<open>sock_fd\<close>; the flag says whether it is valid.\<close>

definition sstate_connect :: "connect_result \<Rightarrow> int \<Rightarrow> timespec \<Rightarrow> upstype \<Rightarrow> bool \<times> upstype" where
  "sstate_connect res now clk ups =
     (case res of
        Socket_failed \<Rightarrow> (False, ups)
      | Connect_failed \<Rightarrow>
          if difftime now (ups_last_connfail ups) < SS_CONNFAIL_INT then (False, ups)
          else (False, ups\<lparr>ups_last_connfail := now\<rparr>)
      | Setup_failed \<Rightarrow> (False, ups)
      | Write_failed \<Rightarrow> (False, ups)
      | Connect_ok \<Rightarrow>
          (True, ups\<lparr>ups_sock_ctx := pconf_init (ups_sock_ctx ups), ups_dumpdone := False,
                     ups_stale := False, ups_last_heard := now,
                     ups_inforoot := snd (state_setinfo (ups_inforoot ups) ''ups.status'' ''WAIT'' clk)\<rparr>))"

text \<open>The outcome of one \<open>read\<close>; \<open>Read_again\<close> stands for \<open>EINTR\<close> and \<open>EAGAIN\<close>.\<close>

datatype read_result = Read_bytes cstring | Read_again | Read_failed

definition driver_line ::
  "int \<Rightarrow> timespec \<Rightarrow> cstring list \<Rightarrow> upstype \<times> tracking_state \<Rightarrow> upstype \<times> tracking_state" where
  "driver_line now clk arg st =
     (case parse_args clk arg st of
        (True, (u, t)) \<Rightarrow> (u\<lparr>ups_last_heard := now\<rparr>, t)
      | (False, st1) \<Rightarrow> st1)"

definition sstate_readline ::
  "read_result \<Rightarrow> int \<Rightarrow> timespec \<Rightarrow> upstype \<times> tracking_state \<Rightarrow> upstype \<times> tracking_state" where
  "sstate_readline res now clk st =
     (case st of (ups, tracks) \<Rightarrow>
       if \<not> ups_connected ups then st
       else case res of
         Read_again \<Rightarrow> st
       | Read_failed \<Rightarrow> (sstate_disconnect ups, tracks)
       | Read_bytes buf \<Rightarrow>
           (case sock_loop (driver_line now clk) buf (ups_sock_ctx ups, st) of
              (ctx, (u, t)) \<Rightarrow> (u\<lparr>ups_sock_ctx := ctx\<rparr>, t)))"

definition sstate_getinfo :: "upstype \<Rightarrow> cstring \<Rightarrow> cstring option" where
  "sstate_getinfo ups var = state_getinfo (ups_inforoot ups) var"
definition sstate_getflags :: "upstype \<Rightarrow> cstring \<Rightarrow> 32 word" where
  "sstate_getflags ups var = state_getflags (ups_inforoot ups) var"
definition sstate_getaux :: "upstype \<Rightarrow> cstring \<Rightarrow> int" where
  "sstate_getaux ups var = state_getaux (ups_inforoot ups) var"
definition sstate_getenumlist :: "upstype \<Rightarrow> cstring \<Rightarrow> cstring list" where
  "sstate_getenumlist ups var = state_getenumlist (ups_inforoot ups) var"
definition sstate_getrangelist :: "upstype \<Rightarrow> cstring \<Rightarrow> (int \<times> int) list" where
  "sstate_getrangelist ups var = state_getrangelist (ups_inforoot ups) var"
definition sstate_getcmdlist :: "upstype \<Rightarrow> cstring list" where
  "sstate_getcmdlist ups = ups_cmdlist ups"
definition sstate_getnode :: "upstype \<Rightarrow> cstring \<Rightarrow> st_node option" where
  "sstate_getnode ups var = state_tree_find (ups_inforoot ups) var"

text \<open>Division of an \<open>int\<close> in C rounds towards zero.\<close>

definition third :: "int \<Rightarrow> int" where
  "third m = (if m \<ge> 0 then m div 3 else - ((- m) div 3))"

definition sstate_dead :: "bool \<Rightarrow> int \<Rightarrow> int \<Rightarrow> upstype \<Rightarrow> bool \<times> upstype" where
  "sstate_dead write_ok maxage now ups =
     (if \<not> ups_connected ups then (True, ups)
      else
        let elapsed = difftime now (ups_last_heard ups);
            ups1 = (if elapsed > third maxage \<and> difftime now (ups_last_ping ups) > third maxage
                    then sendping write_ok now ups else ups)
        in if elapsed > maxage + 1 then (True, ups1)
           else if elapsed > maxage then (False, ups1)
           else if ups_dumpdone ups1 \<and> \<not> ups_data_ok ups1 then (True, ups1)
           else (False, ups1))"

definition sstate_sendline :: "bool \<Rightarrow> upstype \<Rightarrow> bool \<times> upstype" where
  "sstate_sendline write_ok ups =
     (if \<not> ups_connected ups then (False, ups)
      else if write_ok then (True, ups)
      else (False, sstate_disconnect ups))"

section \<open>Invariant\<close>

text \<open>
  The data of a UPS is well formed, its tokenizer is sound while it is connected, and nothing
  is left over from a driver that has gone.
\<close>

definition ups_wf :: "upstype \<Rightarrow> bool" where
  "ups_wf ups \<longleftrightarrow>
     st_tree_wf (ups_inforoot ups) \<and> cmd_sorted (ups_cmdlist ups) \<and>
     (ups_connected ups \<longrightarrow> sock_ok (ups_sock_ctx ups)) \<and>
     (\<not> ups_connected ups \<longrightarrow> ups_inforoot ups = Leaf \<and> ups_cmdlist ups = [])"

lemma cmd_sorted_Nil [simp]: "cmd_sorted []"
  by (simp add: cmd_sorted_def)

lemma sstate_disconnect_wf [nut_wf]: "ups_wf ups \<Longrightarrow> ups_wf (sstate_disconnect ups)"
  by (simp add: ups_wf_def sstate_disconnect_def sstate_infofree_def sstate_cmdfree_def Let_def)

lemma sendping_wf [nut_wf]: "ups_wf ups \<Longrightarrow> ups_wf (sendping ok now ups)"
  using sstate_disconnect_wf [of ups] by (simp add: sendping_def) (simp add: ups_wf_def)

lemma sstate_sendline_wf [nut_wf]: "ups_wf ups \<Longrightarrow> ups_wf (snd (sstate_sendline ok ups))"
  by (simp add: sstate_sendline_def nut_wf)

lemma sstate_dead_wf [nut_wf]: "ups_wf ups \<Longrightarrow> ups_wf (snd (sstate_dead ok maxage now ups))"
  by (simp add: sstate_dead_def Let_def nut_wf)

lemma tree_ops_wf [nut_wf]:
  assumes "st_tree_wf t"
  shows "st_tree_wf (snd (state_delinfo t v))" "st_tree_wf (snd (state_setinfo t v x now))"
    "st_tree_wf (snd (state_addenum t v x now))" "st_tree_wf (snd (state_delenum t v x now))"
    "st_tree_wf (snd (state_addrange t v lo hi now))" "st_tree_wf (snd (state_delrange t v lo hi now))"
    "st_tree_wf (snd (state_setaux t v x now))" "st_tree_wf (state_setflags t v fl now)"
    "st_tree_wf (snd (state_delinfo_olderthan t v cutoff))"
  by (rule st_step_wf [OF _ assms], rule st_step.intros)+

definition parsed_wf :: "upstype \<times> tracking_state \<Rightarrow> bool" where
  "parsed_wf st \<longleftrightarrow> st_tree_wf (ups_inforoot (fst st)) \<and> cmd_sorted (ups_cmdlist (fst st))"

lemma parse_args_wf: "parsed_wf st \<Longrightarrow> parsed_wf (snd (parse_args clk arg st))"
  by (cases st)
    (simp add: parse_args_def parsed_wf_def Let_def tree_ops_wf addcmd_sorted delcmd_sorted)

text \<open>What no line of a driver touches.\<close>

definition same_frame :: "upstype \<Rightarrow> upstype \<Rightarrow> bool" where
  "same_frame u v \<longleftrightarrow>
     ups_name u = ups_name v \<and> ups_fn u = ups_fn v \<and> ups_desc u = ups_desc v \<and>
     ups_connected u = ups_connected v \<and> ups_stale u = ups_stale v \<and>
     ups_numlogins u = ups_numlogins v \<and> ups_fsd u = ups_fsd v \<and> ups_retain u = ups_retain v \<and>
     ups_sock_ctx u = ups_sock_ctx v"

lemma parse_args_frame: "same_frame (fst (snd (parse_args clk arg st))) (fst st)"
  by (cases st) (simp add: parse_args_def same_frame_def Let_def)

lemma driver_line_wf: "parsed_wf st \<Longrightarrow> parsed_wf (driver_line now clk arg st)"
  using parse_args_wf [of st clk arg]
  by (auto simp: driver_line_def parsed_wf_def split: prod.splits bool.splits)

lemma driver_line_frame: "same_frame (fst (driver_line now clk arg st)) (fst st)"
  using parse_args_frame [of clk arg st]
  by (auto simp: driver_line_def same_frame_def split: prod.splits bool.splits)

lemma sock_loop_frame: "same_frame (fst (snd (sock_loop (driver_line now clk) cs (ctx, st)))) (fst st)"
  by (rule sock_loop_preserves [where P = "\<lambda>s. same_frame (fst s) (fst st)"])
    (use driver_line_frame in \<open>auto simp: same_frame_def\<close>)

lemma sstate_readline_wf [nut_wf]:
  assumes "ups_wf (fst st)"
  shows "ups_wf (fst (sstate_readline res now clk st))"
proof (cases "ups_connected (fst st)")
  case True
  obtain ups tracks where st: "st = (ups, tracks)" by fastforce
  show ?thesis
  proof (cases res)
    case (Read_bytes buf)
    obtain ctx u t where L: "sock_loop (driver_line now clk) buf (ups_sock_ctx ups, st) = (ctx, (u, t))"
      by (metis prod_cases3)
    have "sock_ok (ups_sock_ctx ups)" using assms True by (simp add: st ups_wf_def)
    then have "sock_ok ctx" using sock_loop_ok [of "ups_sock_ctx ups" "driver_line now clk" buf st] L by simp
    moreover have "parsed_wf (u, t)"
      using sock_loop_preserves [of parsed_wf "driver_line now clk" st buf "ups_sock_ctx ups"]
        driver_line_wf assms L by (auto simp: st ups_wf_def parsed_wf_def)
    moreover have "ups_connected u"
      using sock_loop_frame [of now clk buf "ups_sock_ctx ups" st] L True by (simp add: st same_frame_def)
    ultimately show ?thesis
      using L True Read_bytes by (simp add: sstate_readline_def st ups_wf_def parsed_wf_def)
  qed (use assms True in \<open>simp_all add: sstate_readline_def st nut_wf\<close>)
qed (use assms in \<open>cases st; simp add: sstate_readline_def\<close>)

lemma sstate_connect_wf:
  assumes "ups_wf ups" and "sstate_connect res now clk ups = (True, u)"
  shows "ups_wf (u\<lparr>ups_connected := True\<rparr>)"
proof -
  have "st_tree_wf (snd (state_setinfo (ups_inforoot ups) ''ups.status'' ''WAIT'' clk))"
    using assms(1) by (intro tree_ops_wf) (simp add: ups_wf_def)
  then show ?thesis
    using assms by (simp add: sstate_connect_def ups_wf_def split: connect_result.splits if_splits) auto
qed

section \<open>Reachable states of a driver connection\<close>

definition ups_new :: "cstring \<Rightarrow> cstring \<Rightarrow> cstring option \<Rightarrow> PCONF_CTX_t \<Rightarrow> upstype" where
  "ups_new name fn desc junk =
     \<lparr>ups_name = name, ups_fn = fn, ups_desc = desc, ups_connected = False, ups_stale = True,
      ups_dumpdone = False, ups_data_ok = False, ups_last_heard = 0, ups_last_ping = 0,
      ups_last_connfail = 0, ups_sock_ctx = junk, ups_inforoot = Leaf, ups_cmdlist = [],
      ups_numlogins = 0, ups_fsd = False, ups_retain = True\<rparr>"

inductive ups_step :: "upstype \<times> tracking_state \<Rightarrow> upstype \<times> tracking_state \<Rightarrow> bool" where
  ups_connect: "\<not> ups_connected u \<Longrightarrow> sstate_connect res now clk u = (ok, u1) \<Longrightarrow>
    ups_step (u, t) (u1\<lparr>ups_connected := ok\<rparr>, t)"
| ups_read: "ups_step st (sstate_readline res now clk st)"
| ups_check: "ups_step (u, t) (snd (sstate_dead ok maxage now u), t)"
| ups_send: "ups_step (u, t) (snd (sstate_sendline ok u), t)"
| ups_drop: "ups_step (u, t) (sstate_disconnect u, t)"

inductive_cases ups_stepE: "ups_step st st'"

lemma ups_step_wf:
  assumes "ups_step st st'" and "ups_wf (fst st)"
  shows "ups_wf (fst st')"
  using assms
proof (cases rule: ups_step.cases)
  case (ups_connect u res now clk ok u1 t)
  show ?thesis
  proof (cases ok)
    case True
    then show ?thesis using ups_connect assms(2) sstate_connect_wf by simp
  next
    case False
    then show ?thesis
      using ups_connect assms(2)
      by (auto simp: sstate_connect_def ups_wf_def split: connect_result.splits if_splits)
  qed
qed (use assms(2) in \<open>simp_all add: nut_wf\<close>)

text \<open>
  Property C36: whatever a driver sends, in whatever pieces, and whenever the connection is
  lost, pinged or reopened, the server's data about a UPS stays well formed: the variable tree
  is a search tree with intact buffers, the command list a sorted set, the tokenizer sound;
  and while there is no connection the server holds no variable and no command of it.
\<close>

theorem sstate_reachable_wf:
  assumes "ups_step\<^sup>*\<^sup>* (ups_new name fn desc junk, t0) st"
  shows "ups_wf (fst st)
    \<and> (\<not> ups_connected (fst st) \<longrightarrow> (\<forall>v. sstate_getinfo (fst st) v = None) \<and> sstate_getcmdlist (fst st) = [])"
proof -
  have "ups_wf (fst st)"
    using assms
  proof (induction rule: rtranclp_induct)
    case base
    then show ?case by (simp add: ups_wf_def ups_new_def)
  next
    case (step y z)
    then show ?case using ups_step_wf by blast
  qed
  then show ?thesis
    by (simp add: ups_wf_def sstate_getinfo_def state_getinfo_def sstate_getcmdlist_def)
qed

theorem sstate_reachable_wf_witness:
  "ups_wf (sstate_disconnect (snd (sstate_connect Connect_ok 5 (clock 5) (ups_new ''u'' ''s'' None blank_ctx)) \<lparr>ups_connected := True\<rparr>))"
proof -
  let ?n = "ups_new ''u'' ''s'' None blank_ctx"
  let ?u = "snd (sstate_connect Connect_ok 5 (clock 5) ?n)"
  have "ups_step (?n, tracking_on) (?u\<lparr>ups_connected := True\<rparr>, tracking_on)"
    by (rule ups_connect [of _ Connect_ok 5 "clock 5"]) (simp_all add: ups_new_def, simp add: sstate_connect_def)
  moreover have "ups_step (?u\<lparr>ups_connected := True\<rparr>, tracking_on) (sstate_disconnect (?u\<lparr>ups_connected := True\<rparr>), tracking_on)"
    by (rule ups_drop)
  ultimately have "ups_step\<^sup>*\<^sup>* (?n, tracking_on) (sstate_disconnect (?u\<lparr>ups_connected := True\<rparr>), tracking_on)"
    by (meson converse_rtranclp_into_rtranclp rtranclp.rtrancl_refl)
  from sstate_reachable_wf [OF this] show ?thesis by simp
qed

section \<open>Data from the wire\<close>

text \<open>
  end to end. A line \<open>SETINFO <var> <value>\<close> from a driver, once complete, makes
  the variable read as the escaped value under every spelling of its name (unless it is
  immutable), leaves every other variable alone, and counts as a sign of life.
\<close>

theorem driver_setinfo_published:
  assumes "ups_wf ups" and "ups_connected ups" and "line_start (ups_sock_ctx ups)"
    and "line_words (arg_limit (ups_sock_ctx ups)) (wordlen_limit (ups_sock_ctx ups)) l [''SETINFO'', v, x]"
    and "\<not> immutable_at (ups_inforoot ups) v"
  shows "sstate_getinfo (fst (sstate_readline (Read_bytes (l @ [CHR 10])) now clk (ups, t))) w =
      (if same_nocase v w then Some (pconf_encode x [] ST_MAX_VALUE_LEN) else sstate_getinfo ups w)
    \<and> ups_last_heard (fst (sstate_readline (Read_bytes (l @ [CHR 10])) now clk (ups, t))) = now"
proof -
  obtain ctx1 where L: "sock_loop (driver_line now clk) (l @ [CHR 10]) (ups_sock_ctx ups, (ups, t))
      = (ctx1, driver_line now clk [''SETINFO'', v, x] (ups, t))"
    using sock_loop_line [OF assms(3,4), of "driver_line now clk" "(ups, t)"] by (elim exE conjE)
  have kw: "\<not> same_nocase ''SETINFO'' ''PONG''" "\<not> same_nocase ''SETINFO'' ''DUMPDONE''"
    "\<not> same_nocase ''SETINFO'' ''DATASTALE''" "\<not> same_nocase ''SETINFO'' ''DATAOK''"
    "\<not> same_nocase ''SETINFO'' ''ADDCMD''" "\<not> same_nocase ''SETINFO'' ''DELCMD''"
    "\<not> same_nocase ''SETINFO'' ''DELINFO''" "\<not> same_nocase ''SETINFO'' ''SETFLAGS''"
    by code_simp+
  have "driver_line now clk [''SETINFO'', v, x] (ups, t) =
      (ups\<lparr>ups_inforoot := snd (state_setinfo (ups_inforoot ups) v x clk), ups_last_heard := now\<rparr>, t)"
    by (simp add: driver_line_def parse_args_def Let_def kw)
  moreover have "st_tree_wf (ups_inforoot ups)" using assms(1) by (simp add: ups_wf_def)
  ultimately show ?thesis
    using L assms(2,5) by (simp add: sstate_readline_def sstate_getinfo_def getinfo_setinfo)
qed

definition live_ups :: upstype where
  "live_ups = (snd (sstate_connect Connect_ok 5 (clock 5) (ups_new ''myups'' ''sock'' None blank_ctx)))\<lparr>ups_connected := True\<rparr>"

lemma live_ups_wf [simp]: "ups_wf live_ups"
  unfolding live_ups_def
  by (rule sstate_connect_wf [of "ups_new ''myups'' ''sock'' None blank_ctx" Connect_ok 5 "clock 5"])
    (simp_all add: ups_wf_def ups_new_def sstate_connect_def)

lemma live_ups_ctx [simp]:
  "ups_sock_ctx live_ups = pconf_init blank_ctx" "ups_connected live_ups"
  by (simp_all add: live_ups_def sstate_connect_def ups_new_def)

definition charge_line :: cstring where
  "charge_line = ''SETINFO battery.charge '' @ [CHR 34] @ ''95'' @ [CHR 34]"

theorem driver_setinfo_published_witness:
  "sstate_getinfo (fst (sstate_readline (Read_bytes (charge_line @ [CHR 10])) 9 (clock 9) (live_ups, tracking_on)))
     ''Battery.Charge'' = Some ''95''"
proof -
  have lim: "arg_limit (ups_sock_ctx live_ups) = 32" "wordlen_limit (ups_sock_ctx live_ups) = 512"
    by (simp_all add: pconf_init_def PCONF_DEFAULT_ARG_LIMIT_def PCONF_DEFAULT_WORDLEN_LIMIT_def)
  have start: "line_start (ups_sock_ctx live_ups)" by simp
  have line: "line_words (arg_limit (ups_sock_ctx live_ups)) (wordlen_limit (ups_sock_ctx live_ups)) charge_line
      [''SETINFO'', ''battery.charge'', ''95'']"
    unfolding lim by code_simp
  have free: "\<not> immutable_at (ups_inforoot live_ups) ''battery.charge''" by code_simp
  have same: "same_nocase ''battery.charge'' ''Battery.Charge''" by code_simp
  have enc: "pconf_encode ''95'' [] ST_MAX_VALUE_LEN = ''95''" by code_simp
  show ?thesis
    using driver_setinfo_published [OF live_ups_wf live_ups_ctx(2) start line free, of 9 "clock 9" tracking_on "''Battery.Charge''"]
    by (simp only: same enc if_True simp_thms)
qed

section \<open>Segments of the byte stream\<close>

lemma parse_args_ctx:
  "parse_args clk arg (u\<lparr>ups_sock_ctx := c\<rparr>, t) =
     (fst (parse_args clk arg (u, t)),
      ((fst (snd (parse_args clk arg (u, t))))\<lparr>ups_sock_ctx := c\<rparr>, snd (snd (parse_args clk arg (u, t)))))"
  by (simp add: parse_args_def Let_def)

lemma driver_line_ctx:
  "driver_line now clk arg (u\<lparr>ups_sock_ctx := c\<rparr>, t) =
     ((fst (driver_line now clk arg (u, t)))\<lparr>ups_sock_ctx := c\<rparr>, snd (driver_line now clk arg (u, t)))"
  by (simp add: driver_line_def parse_args_ctx split: prod.split bool.split)

lemma sock_loop_ctx:
  "sock_loop (driver_line now clk) cs (ctx, (u\<lparr>ups_sock_ctx := c\<rparr>, t)) =
     (case sock_loop (driver_line now clk) cs (ctx, (u, t)) of
        (ctx1, (u1, t1)) \<Rightarrow> (ctx1, (u1\<lparr>ups_sock_ctx := c\<rparr>, t1)))"
proof (induction cs arbitrary: ctx u t)
  case (Cons a cs)
  obtain r ctx1 where p: "pconf_char ctx a = (r, ctx1)" by fastforce
  obtain u1 t1 where d: "driver_line now clk (ctx_args ctx1) (u, t) = (u1, t1)" by fastforce
  have d': "driver_line now clk (ctx_args ctx1) (u\<lparr>ups_sock_ctx := c\<rparr>, t) = (u1\<lparr>ups_sock_ctx := c\<rparr>, t1)"
    by (simp add: driver_line_ctx d)
  show ?case using Cons.IH [of ctx1 u1 t1] Cons.IH [of ctx1 u t] by (simp add: p d d')
qed simp

text \<open>
  What the server learns from a driver does not depend on how the byte stream is
  cut into reads: reading two segments one after the other has the effect of reading both
  at once.
\<close>

theorem sstate_segments:
  assumes "ups_wf ups" and "ups_connected ups"
  shows "sstate_readline (Read_bytes (as @ bs)) now clk (ups, t) =
     sstate_readline (Read_bytes bs) now clk (sstate_readline (Read_bytes as) now clk (ups, t))"
proof -
  have ok: "sock_ok (ups_sock_ctx ups)" using assms by (simp add: ups_wf_def)
  obtain c1 u1 t1 where 1: "sock_loop (driver_line now clk) as (ups_sock_ctx ups, (ups, t)) = (c1, (u1, t1))"
    by (metis prod_cases3)
  obtain c2 u2 t2 where 2: "sock_loop (driver_line now clk) bs (c1, (u1, t1)) = (c2, (u2, t2))"
    by (metis prod_cases3)
  have conn: "ups_connected u1"
    using sock_loop_frame [of now clk as "ups_sock_ctx ups" "(ups, t)"] 1 assms(2) by (simp add: same_frame_def)
  have "sock_loop (driver_line now clk) bs (c1, (u1\<lparr>ups_sock_ctx := c1\<rparr>, t1)) = (c2, (u2\<lparr>ups_sock_ctx := c1\<rparr>, t2))"
    by (simp add: sock_loop_ctx 2)
  then show ?thesis
    using assms(2) conn 1 2 by (simp add: sstate_readline_def sock_loop_append [OF ok])
qed

theorem sstate_segments_witness:
  "sstate_readline (Read_bytes (''DATA'' @ (''OK'' @ [CHR 10]))) 9 (clock 9) (live_ups, tracking_on) =
   sstate_readline (Read_bytes (''OK'' @ [CHR 10])) 9 (clock 9) (sstate_readline (Read_bytes ''DATA'') 9 (clock 9) (live_ups, tracking_on))"
  by (rule sstate_segments) simp_all

section \<open>Staleness\<close>

text \<open>
  when a UPS counts as dead. With no connection always; otherwise when the driver
  has been silent for more than \<open>maxage + 1\<close> seconds, or when its dump is complete and it
  says itself that its data is stale; but in the second between \<open>maxage\<close> and
  \<open>maxage + 1\<close> what the driver says is not looked at: a UPS that is dead because its driver
  reported stale data comes back to life for that second.
\<close>

theorem sstate_dead_iff:
  "fst (sstate_dead ok maxage now ups) \<longleftrightarrow>
     (if ups_connected ups
      then now - ups_last_heard ups > maxage + 1
           \<or> (now - ups_last_heard ups \<le> maxage \<and> ups_dumpdone ups \<and> \<not> ups_data_ok ups)
      else True)"
proof -
  have frame: "ups_dumpdone (sendping ok now ups) = ups_dumpdone ups"
    "ups_data_ok (sendping ok now ups) = ups_data_ok ups"
    by (simp_all add: sendping_def sstate_disconnect_def sstate_infofree_def sstate_cmdfree_def Let_def)
  show ?thesis by (auto simp: sstate_dead_def Let_def difftime_def frame)
qed



end
