(* ===== verification/Upsd.thy ===== *)
theory Upsd
  imports Sstate Users Desc Str
begin

text \<open>
  The state of the data server and the primitives of \<open>src/server/upsd.c\<close> on it: clients, UPS
  devices, replies, logins, listeners. A build without SSL and without tcp-wrappers.

  A pointer to a client is its number \<open>cl_id\<close> (its socket), a pointer to a UPS its position in
  \<open>firstups\<close>. What the operating system answers is part of the state: \<open>client_writes\<close>
  and \<open>driver_writes\<close> say whether the coming writes take their whole line (a missing entry
  is a success), \<open>rands\<close> are the coming values of \<open>rand\<close>, \<open>wall\<close> and \<open>clk\<close> the
  clocks. \<open>sent\<close> and \<open>to_driver\<close> log the lines that were written, oldest first; the part
  of a line that a failed write may have put on the wire is not logged.
\<close>

section \<open>Types\<close>

record nut_ctype =
  cl_id :: nat
  cl_addr :: cstring
  cl_last_heard :: int
  cl_loginups :: "cstring option"
  cl_password :: "cstring option"
  cl_username :: "cstring option"
  cl_tracking :: bool
  cl_ctx :: PCONF_CTX_t

record stype =
  sv_addr :: cstring
  sv_port :: cstring
  sv_bound :: bool

record build_info =
  UPS_VERSION :: cstring
  PACKAGE_URL :: "cstring option"
  NUT_NETVERSION :: cstring

record world =
  firstups :: "upstype list"
  firstclient :: "nut_ctype list"
  firstaddr :: "stype list"
  accounts :: user_state
  descs :: desc_state
  tracks :: tracking_state
  maxage :: int
  tracking_delay :: int
  maxconn :: nat
  reload_flag :: bool
  wall :: int
  clk :: timespec
  rands :: "nat list"
  client_writes :: "bool list"
  driver_writes :: "bool list"
  sent :: "(nat \<times> cstring) list"
  to_driver :: "(cstring \<times> cstring) list"
  build :: build_info

definition NUT_NET_ANSWER_MAX :: nat where "NUT_NET_ANSWER_MAX = SMALLBUF"

section \<open>Lists of clients and UPS devices\<close>

fun find_client :: "nut_ctype list \<Rightarrow> nat \<Rightarrow> nut_ctype option" where
  "find_client [] cid = None"
| "find_client (c # cs) cid = (if cl_id c = cid then Some c else find_client cs cid)"

definition client_at :: "world \<Rightarrow> nat \<Rightarrow> nut_ctype option" where
  "client_at w cid = find_client (firstclient w) cid"

definition upd_client :: "nat \<Rightarrow> (nut_ctype \<Rightarrow> nut_ctype) \<Rightarrow> world \<Rightarrow> world" where
  "upd_client cid f w = w\<lparr>firstclient := map (\<lambda>c. if cl_id c = cid then f c else c) (firstclient w)\<rparr>"

fun find_ups :: "upstype list \<Rightarrow> cstring \<Rightarrow> nat option" where
  "find_ups [] name = None"
| "find_ups (u # us) name =
     (if same_nocase (ups_name u) name then Some 0 else map_option Suc (find_ups us name))"

definition get_ups_ptr :: "world \<Rightarrow> cstring \<Rightarrow> nat option" where
  "get_ups_ptr w name = find_ups (firstups w) name"

definition ups_at :: "world \<Rightarrow> nat \<Rightarrow> upstype" where
  "ups_at w i = firstups w ! i"

definition upd_ups :: "nat \<Rightarrow> (upstype \<Rightarrow> upstype) \<Rightarrow> world \<Rightarrow> world" where
  "upd_ups i f w = w\<lparr>firstups := (firstups w)[i := f (firstups w ! i)]\<rparr>"

definition ups_data_stale :: "upstype \<Rightarrow> upstype" where
  "ups_data_stale ups = (if ups_stale ups then ups else ups\<lparr>ups_stale := True\<rparr>)"

definition ups_data_ok_set :: "upstype \<Rightarrow> upstype" where
  "ups_data_ok_set ups = (if \<not> ups_stale ups then ups else ups\<lparr>ups_stale := False\<rparr>)"

section \<open>Replies\<close>

definition take_client_write :: "world \<Rightarrow> bool \<times> world" where
  "take_client_write w =
     (case client_writes w of [] \<Rightarrow> (True, w) | b # bs \<Rightarrow> (b, w\<lparr>client_writes := bs\<rparr>))"

definition take_driver_write :: "world \<Rightarrow> bool \<times> world" where
  "take_driver_write w =
     (case driver_writes w of [] \<Rightarrow> (True, w) | b # bs \<Rightarrow> (b, w\<lparr>driver_writes := bs\<rparr>))"

text \<open>The text is what \<open>vsnprintf\<close> would format with unlimited room.\<close>

definition sendback :: "nat \<Rightarrow> cstring \<Rightarrow> world \<Rightarrow> bool \<times> world" where
  "sendback cid text w =
     (case client_at w cid of
        None \<Rightarrow> (False, w)
      | Some client \<Rightarrow>
          let ans = snprintf (NUT_NET_ANSWER_MAX + 1) text in
          (case take_client_write w of
             (True, w1) \<Rightarrow> (True, w1\<lparr>sent := sent w1 @ [(cid, ans)]\<rparr>)
           | (False, w1) \<Rightarrow> (False, upd_client cid (\<lambda>c. c\<lparr>cl_last_heard := 0\<rparr>) w1)))"

definition reply :: "nat \<Rightarrow> cstring \<Rightarrow> world \<Rightarrow> world" where
  "reply cid text w = snd (sendback cid text w)"

definition send_err :: "nat \<Rightarrow> cstring \<Rightarrow> world \<Rightarrow> world" where
  "send_err cid errtype w = reply cid (''ERR '' @ errtype @ [CHR 10]) w"

definition send_err_extra :: "nat \<Rightarrow> cstring \<Rightarrow> cstring option \<Rightarrow> world \<Rightarrow> world" where
  "send_err_extra cid errtype extra w =
     (case extra of
        None \<Rightarrow> send_err cid errtype w
      | Some e \<Rightarrow> reply cid (''ERR '' @ errtype @ '' '' @ e @ [CHR 10]) w)"

definition ups_available :: "nat \<Rightarrow> nat \<Rightarrow> world \<Rightarrow> bool \<times> world" where
  "ups_available i cid w =
     (if \<not> ups_connected (ups_at w i) then (False, send_err cid ''DRIVER-NOT-CONNECTED'' w)
      else if ups_stale (ups_at w i) then (False, send_err cid ''DATA-STALE'' w)
      else (True, w))"

text \<open>A line for a driver: \<open>sstate_sendline\<close> on the UPS at position \<open>i\<close>.\<close>

definition ups_sendline :: "nat \<Rightarrow> cstring \<Rightarrow> world \<Rightarrow> bool \<times> world" where
  "ups_sendline i buf w =
     (if \<not> ups_connected (ups_at w i) then (False, w)
      else case take_driver_write w of
        (ok, w1) \<Rightarrow>
          (case sstate_sendline ok (ups_at w1 i) of
             (ret, u) \<Rightarrow>
               let w2 = upd_ups i (\<lambda>_. u) w1
               in (ret, if ret then w2\<lparr>to_driver := to_driver w2 @ [(ups_name u, buf)]\<rparr> else w2)))"

section \<open>Logins and connections\<close>

definition declogins :: "cstring \<Rightarrow> world \<Rightarrow> world" where
  "declogins upsname w =
     (case get_ups_ptr w upsname of
        None \<Rightarrow> w
      | Some i \<Rightarrow> upd_ups i (\<lambda>u. u\<lparr>ups_numlogins := ups_numlogins u - 1\<rparr>) w)"

definition client_disconnect :: "nat \<Rightarrow> world \<Rightarrow> world" where
  "client_disconnect cid w =
     (case client_at w cid of
        None \<Rightarrow> w
      | Some client \<Rightarrow>
          let w1 = (case cl_loginups client of None \<Rightarrow> w | Some upsname \<Rightarrow> declogins upsname w)
          in w1\<lparr>firstclient := filter (\<lambda>c. cl_id c \<noteq> cid) (firstclient w1)\<rparr>)"

definition kick_login_clients :: "cstring \<Rightarrow> world \<Rightarrow> world" where
  "kick_login_clients upsname w =
     foldl (\<lambda>s c. if cl_loginups c = Some upsname then client_disconnect (cl_id c) s else s)
       w (firstclient w)"

text \<open>\<open>accept\<close> gives a new socket and the address of the peer, or fails.\<close>

definition client_connect :: "PCONF_CTX_t \<Rightarrow> (nat \<times> cstring) option \<Rightarrow> world \<Rightarrow> world" where
  "client_connect junk accept w =
     (case accept of
        None \<Rightarrow> w
      | Some (fd, addr) \<Rightarrow>
          w\<lparr>firstclient :=
              \<lparr>cl_id = fd, cl_addr = addr, cl_last_heard = wall w, cl_loginups = None,
               cl_password = None, cl_username = None, cl_tracking = False,
               cl_ctx = pconf_init junk\<rparr> # firstclient w\<rparr>)"

definition client_free :: "world \<Rightarrow> world" where
  "client_free w = foldl (\<lambda>s c. client_disconnect (cl_id c) s) w (firstclient w)"

section \<open>Listeners\<close>

definition listen_add :: "cstring \<Rightarrow> cstring \<Rightarrow> world \<Rightarrow> world" where
  "listen_add addr port w =
     (if reload_flag w then w
      else w\<lparr>firstaddr := firstaddr w @ [\<lparr>sv_addr = addr, sv_port = port, sv_bound = False\<rparr>]\<rparr>)"

datatype addr_family = AF_UNSPEC | AF_INET | AF_INET6

definition count_where :: "(stype \<Rightarrow> bool) \<Rightarrow> stype list \<Rightarrow> nat" where
  "count_where P xs = length (filter P xs)"

definition localhost_addr :: "stype \<Rightarrow> bool" where
  "localhost_addr s \<longleftrightarrow>
     sv_addr s = ''localhost'' \<or> sv_addr s = ''localhost6'' \<or> sv_addr s = ''127.0.0.1'' \<or> sv_addr s = ''::1''"

text \<open>
  \<open>server_load\<close>: \<open>setuptcp\<close> stands for the pass over the list that binds the sockets (it
  may edit the list). \<open>Inl\<close> is the message of \<open>fatalx\<close>, which ends the process.
\<close>

definition server_load ::
  "addr_family \<Rightarrow> cstring \<Rightarrow> bool \<Rightarrow> (stype list \<Rightarrow> stype list) \<Rightarrow> world \<Rightarrow> cstring + world" where
  "server_load opt_af nut_port allow_not_all_listeners setuptcp w =
     (let w1 = (if firstaddr w = []
                then let wa = (if opt_af \<noteq> AF_INET then listen_add ''::1'' nut_port w else w)
                     in (if opt_af \<noteq> AF_INET6 then listen_add ''127.0.0.1'' nut_port wa else wa)
                else w);
          w2 = w1\<lparr>firstaddr := setuptcp (firstaddr w1)\<rparr>;
          total = length (firstaddr w2);
          valid = count_where sv_bound (firstaddr w2);
          totalLocalhost = count_where localhost_addr (firstaddr w2);
          validLocalhost = count_where (\<lambda>s. localhost_addr s \<and> sv_bound s) (firstaddr w2)
      in if valid = 0 then Inl ''no listening interface available''
         else if total = valid then Inr w2
         else if total - valid = totalLocalhost - validLocalhost then Inr w2
         else if allow_not_all_listeners then Inr w2
         else Inl ''Fatal error: some listening interfaces were not available'')"

definition server_free :: "world \<Rightarrow> world" where
  "server_free w = w\<lparr>firstaddr := []\<rparr>"

section \<open>One round over the connections\<close>

text \<open>
  The first loop of \<open>mainloop\<close> on one UPS: reconnect if needed, then decide whether its
  data is stale. The outcome of connecting, and of the ping if one is due, are arguments.
\<close>

definition check_driver :: "connect_result \<Rightarrow> bool \<Rightarrow> nat \<Rightarrow> world \<Rightarrow> world" where
  "check_driver res ping_ok i w =
     (let u0 = ups_at w i;
          u1 = (if ups_connected u0 then u0
                else case sstate_connect res (wall w) (clk w) u0 of (ok, u) \<Rightarrow> u\<lparr>ups_connected := ok\<rparr>)
      in upd_ups i
           (\<lambda>_. if \<not> ups_connected u1 then u1
                else case sstate_dead ping_ok (maxage w) (wall w) u1 of
                  (dead, u2) \<Rightarrow> if dead then ups_data_stale u2 else ups_data_ok_set u2) w)"

text \<open>Data from the driver of the UPS at position \<open>i\<close>.\<close>

definition driver_readline :: "read_result \<Rightarrow> nat \<Rightarrow> world \<Rightarrow> world" where
  "driver_readline res i w =
     (case sstate_readline res (wall w) (clk w) (ups_at w i, tracks w) of
        (u, t) \<Rightarrow> (upd_ups i (\<lambda>_. u) w)\<lparr>tracks := t\<rparr>)"

definition driver_hangup :: "nat \<Rightarrow> world \<Rightarrow> world" where
  "driver_hangup i w = upd_ups i sstate_disconnect w"

text \<open>The second loop: clients that were silent for more than a minute are dropped.\<close>

definition shed_clients :: "int \<Rightarrow> world \<Rightarrow> world" where
  "shed_clients now w =
     foldl (\<lambda>s c. if difftime now (cl_last_heard c) > 60 then client_disconnect (cl_id c) s else s)
       w (firstclient w)"

end
