(* ===== verification/NetCmds.thy ===== *)
theory NetCmds
  imports Upsd
begin

text \<open>
  The commands of the network protocol: \<open>netmisc.c\<close>, \<open>netuser.c\<close>, \<open>netget.c\<close>,
  \<open>netset.c\<close>, \<open>netlist.c\<close>, \<open>netinstcmd.c\<close> under \<open>src/server\<close>, the table of
  \<open>netcmds.h\<close>, and the dispatch of a line in \<open>upsd.c\<close>. A handler takes the client, the
  words after the command name, and the state of the server. Log messages are left out.
\<close>

definition quote :: "cstring \<Rightarrow> cstring" where
  "quote s = [CHR 34] @ s @ [CHR 34]"

definition line :: "cstring list \<Rightarrow> cstring" where
  "line ss = concat ss @ [CHR 10]"

text \<open>The fields of a client that the handlers read.\<close>

definition c_username :: "world \<Rightarrow> nat \<Rightarrow> cstring option" where
  "c_username w cid = Option.bind (client_at w cid) cl_username"
definition c_password :: "world \<Rightarrow> nat \<Rightarrow> cstring option" where
  "c_password w cid = Option.bind (client_at w cid) cl_password"
definition c_loginups :: "world \<Rightarrow> nat \<Rightarrow> cstring option" where
  "c_loginups w cid = Option.bind (client_at w cid) cl_loginups"
definition c_tracking :: "world \<Rightarrow> nat \<Rightarrow> bool" where
  "c_tracking w cid = (case client_at w cid of None \<Rightarrow> False | Some c \<Rightarrow> cl_tracking c)"

section \<open>netmisc.c\<close>

definition has_nut_org :: "build_info \<Rightarrow> bool" where
  "has_nut_org b =
     (case PACKAGE_URL b of None \<Rightarrow> False | Some url \<Rightarrow> strstr url ''networkupstools.org'' \<noteq> None)"

definition banner :: "build_info \<Rightarrow> cstring" where
  "banner b =
     ''Network UPS Tools upsd '' @ UPS_VERSION b @ '' - '' @
     (case PACKAGE_URL b of None \<Rightarrow> [] | Some url \<Rightarrow> url) @
     (if PACKAGE_URL b \<noteq> None \<and> \<not> has_nut_org b then '' or '' else []) @
     (if has_nut_org b then [] else ''https://www.networkupstools.org/'')"

definition net_ver :: "nat \<Rightarrow> cstring list \<Rightarrow> world \<Rightarrow> world" where
  "net_ver cid arg w =
     (if length arg \<noteq> 0 then send_err cid ''INVALID-ARGUMENT'' w
      else reply cid (line [banner (build w)]) w)"

definition net_netver :: "nat \<Rightarrow> cstring list \<Rightarrow> world \<Rightarrow> world" where
  "net_netver cid arg w =
     (if length arg \<noteq> 0 then send_err cid ''INVALID-ARGUMENT'' w
      else reply cid (line [NUT_NETVERSION (build w)]) w)"

definition net_help :: "nat \<Rightarrow> cstring list \<Rightarrow> world \<Rightarrow> world" where
  "net_help cid arg w =
     (if length arg \<noteq> 0 then send_err cid ''INVALID-ARGUMENT'' w
      else reply cid (line [''Commands: HELP VER PROTVER GET LIST SET INSTCMD'',
                            '' LOGIN LOGOUT USERNAME PASSWORD STARTTLS'']) w)"

definition net_fsd :: "nat \<Rightarrow> cstring list \<Rightarrow> world \<Rightarrow> world" where
  "net_fsd cid arg w =
     (if length arg \<noteq> 1 then send_err cid ''INVALID-ARGUMENT'' w
      else case get_ups_ptr w (arg ! 0) of
        None \<Rightarrow> send_err cid ''UNKNOWN-UPS'' w
      | Some i \<Rightarrow>
          if \<not> user_checkaction (accounts w) (c_username w cid) (c_password w cid) ''FSD''
          then send_err cid ''ACCESS-DENIED'' w
          else reply cid (line [''OK FSD-SET'']) (upd_ups i (\<lambda>u. u\<lparr>ups_fsd := True\<rparr>) w))"

section \<open>netssl.c, built without SSL\<close>

definition net_starttls :: "nat \<Rightarrow> cstring list \<Rightarrow> world \<Rightarrow> world" where
  "net_starttls cid arg w = send_err cid ''FEATURE-NOT-SUPPORTED'' w"

section \<open>netuser.c\<close>

definition net_login :: "nat \<Rightarrow> cstring list \<Rightarrow> world \<Rightarrow> world" where
  "net_login cid arg w =
     (if length arg \<noteq> 1 then send_err cid ''INVALID-ARGUMENT'' w
      else if c_loginups w cid \<noteq> None then send_err cid ''ALREADY-LOGGED-IN'' w
      else case get_ups_ptr w (arg ! 0) of
        None \<Rightarrow> send_err cid ''UNKNOWN-UPS'' w
      | Some i \<Rightarrow>
          if \<not> user_checkaction (accounts w) (c_username w cid) (c_password w cid) ''LOGIN''
          then send_err cid ''ACCESS-DENIED'' w
          else
            let w1 = upd_ups i (\<lambda>u. u\<lparr>ups_numlogins := ups_numlogins u + 1\<rparr>) w;
                w2 = upd_client cid (\<lambda>c. c\<lparr>cl_loginups := Some (ups_name (ups_at w1 i))\<rparr>) w1
            in reply cid (line [''OK'']) w2)"

definition net_logout :: "nat \<Rightarrow> cstring list \<Rightarrow> world \<Rightarrow> world" where
  "net_logout cid arg w =
     (if length arg \<noteq> 0 then send_err cid ''INVALID-ARGUMENT'' w
      else upd_client cid (\<lambda>c. c\<lparr>cl_last_heard := 0\<rparr>) (reply cid (line [''OK Goodbye'']) w))"

definition do_net_primary :: "nat \<Rightarrow> cstring list \<Rightarrow> world \<Rightarrow> bool \<times> world" where
  "do_net_primary cid arg w =
     (if length arg \<noteq> 1 then (False, send_err cid ''INVALID-ARGUMENT'' w)
      else case get_ups_ptr w (arg ! 0) of
        None \<Rightarrow> (False, send_err cid ''UNKNOWN-UPS'' w)
      | Some i \<Rightarrow>
          if \<not> user_checkaction (accounts w) (c_username w cid) (c_password w cid) ''PRIMARY''
             \<and> \<not> user_checkaction (accounts w) (c_username w cid) (c_password w cid) ''MASTER''
          then (False, send_err cid ''ACCESS-DENIED'' w)
          else (True, w))"

definition net_master :: "nat \<Rightarrow> cstring list \<Rightarrow> world \<Rightarrow> world" where
  "net_master cid arg w =
     (case do_net_primary cid arg w of
        (ok, w1) \<Rightarrow> if ok then reply cid (line [''OK MASTER-GRANTED'']) w1 else w1)"

definition net_primary :: "nat \<Rightarrow> cstring list \<Rightarrow> world \<Rightarrow> world" where
  "net_primary cid arg w =
     (case do_net_primary cid arg w of
        (ok, w1) \<Rightarrow> if ok then reply cid (line [''OK PRIMARY-GRANTED'']) w1 else w1)"

definition net_username :: "nat \<Rightarrow> cstring list \<Rightarrow> world \<Rightarrow> world" where
  "net_username cid arg w =
     (if length arg \<noteq> 1 then send_err cid ''INVALID-ARGUMENT'' w
      else if c_username w cid \<noteq> None then send_err cid ''ALREADY-SET-USERNAME'' w
      else reply cid (line [''OK'']) (upd_client cid (\<lambda>c. c\<lparr>cl_username := Some (arg ! 0)\<rparr>) w))"

definition net_password :: "nat \<Rightarrow> cstring list \<Rightarrow> world \<Rightarrow> world" where
  "net_password cid arg w =
     (if length arg \<noteq> 1 then send_err cid ''INVALID-ARGUMENT'' w
      else if c_password w cid \<noteq> None then send_err cid ''ALREADY-SET-PASSWORD'' w
      else reply cid (line [''OK'']) (upd_client cid (\<lambda>c. c\<lparr>cl_password := Some (arg ! 0)\<rparr>) w))"

section \<open>netget.c\<close>

text \<open>The frame that most queries share: a known UPS, then one with fresh data.\<close>

definition with_ups :: "nat \<Rightarrow> cstring \<Rightarrow> (nat \<Rightarrow> world \<Rightarrow> world) \<Rightarrow> world \<Rightarrow> world" where
  "with_ups cid upsname f w =
     (case get_ups_ptr w upsname of
        None \<Rightarrow> send_err cid ''UNKNOWN-UPS'' w
      | Some i \<Rightarrow> f i w)"

definition with_fresh_ups :: "nat \<Rightarrow> cstring \<Rightarrow> (nat \<Rightarrow> world \<Rightarrow> world) \<Rightarrow> world \<Rightarrow> world" where
  "with_fresh_ups cid upsname f =
     with_ups cid upsname
       (\<lambda>i w. case ups_available i cid w of (ok, w1) \<Rightarrow> if ok then f i w1 else w1)"

definition get_numlogins :: "nat \<Rightarrow> cstring \<Rightarrow> world \<Rightarrow> world" where
  "get_numlogins cid upsname =
     with_fresh_ups cid upsname
       (\<lambda>i w. reply cid (line [''NUMLOGINS '', upsname, '' '', int_dec (ups_numlogins (ups_at w i))]) w)"

definition get_upsdesc :: "nat \<Rightarrow> cstring \<Rightarrow> world \<Rightarrow> world" where
  "get_upsdesc cid upsname =
     with_ups cid upsname
       (\<lambda>i w. case ups_desc (ups_at w i) of
           Some d \<Rightarrow> reply cid (line [''UPSDESC '', upsname, '' '', quote (pconf_encode d [] SMALLBUF)]) w
         | None \<Rightarrow> reply cid (line [''UPSDESC '', upsname, '' '', quote ''Unavailable'']) w)"

text \<open>\<open>upstream.\<close> in front of a name is left out of the lookup.\<close>

definition strip_upstream :: "cstring \<Rightarrow> cstring" where
  "strip_upstream v = (if take 9 v = ''upstream.'' then drop 9 v else v)"

definition get_desc :: "nat \<Rightarrow> cstring \<Rightarrow> cstring \<Rightarrow> world \<Rightarrow> world" where
  "get_desc cid upsname var =
     with_fresh_ups cid upsname
       (\<lambda>i w. case desc_get_var (descs w) (strip_upstream var) of
           Some d \<Rightarrow> reply cid (line [''DESC '', upsname, '' '', var, '' '', quote d]) w
         | None \<Rightarrow> reply cid (line [''DESC '', upsname, '' '', var, '' '', quote ''Description unavailable'']) w)"

definition get_cmddesc :: "nat \<Rightarrow> cstring \<Rightarrow> cstring \<Rightarrow> world \<Rightarrow> world" where
  "get_cmddesc cid upsname cmd =
     with_fresh_ups cid upsname
       (\<lambda>i w. case desc_get_cmd (descs w) (strip_upstream cmd) of
           Some d \<Rightarrow> reply cid (line [''CMDDESC '', upsname, '' '', cmd, '' '', quote d]) w
         | None \<Rightarrow> reply cid (line [''CMDDESC '', upsname, '' '', cmd, '' '', quote ''Description unavailable'']) w)"

definition get_type :: "nat \<Rightarrow> cstring \<Rightarrow> cstring \<Rightarrow> world \<Rightarrow> world" where
  "get_type cid upsname var =
     with_fresh_ups cid upsname
       (\<lambda>i w. case sstate_getnode (ups_at w i) var of
           None \<Rightarrow> send_err cid ''VAR-NOT-SUPPORTED'' w
         | Some node \<Rightarrow>
             let b0 = snprintf SMALLBUF (''TYPE '' @ upsname @ '' '' @ var);
                 b1 = (if has_flag (st_flags node) ST_FLAG_RW then snprintfcat b0 SMALLBUF '' RW'' else b0);
                 b2 = (if st_enum_list node \<noteq> [] then snprintfcat b1 SMALLBUF '' ENUM'' else b1);
                 b3 = (if st_range_list node \<noteq> [] then snprintfcat b2 SMALLBUF '' RANGE'' else b2)
             in if has_flag (st_flags node) ST_FLAG_STRING
                then reply cid (line [b3, '' STRING:'', int_dec (st_aux node)]) w
                else reply cid (line [b3, '' NUMBER'']) w)"

definition get_var_server :: "nat \<Rightarrow> cstring \<Rightarrow> cstring \<Rightarrow> world \<Rightarrow> world" where
  "get_var_server cid upsname var w =
     (if same_nocase var ''server.info''
      then reply cid (line [''VAR '', upsname, '' server.info '', quote (banner (build w))]) w
      else if same_nocase var ''server.version''
      then reply cid (line [''VAR '', upsname, '' server.version '', quote (UPS_VERSION (build w))]) w
      else send_err cid ''VAR-NOT-SUPPORTED'' w)"

text \<open>How a variable is shown: a forced shutdown is put in front of the status.\<close>

definition var_line :: "bool \<Rightarrow> cstring \<Rightarrow> cstring \<Rightarrow> cstring \<Rightarrow> cstring" where
  "var_line fsd upsname var val =
     line [''VAR '', upsname, '' '', var, '' '',
           quote (if same_nocase var ''ups.status'' \<and> fsd then ''FSD '' @ val else val)]"

definition get_var :: "nat \<Rightarrow> cstring \<Rightarrow> cstring \<Rightarrow> world \<Rightarrow> world" where
  "get_var cid upsname var w =
     (if strncasecmp var ''server.'' 7 = 0 then get_var_server cid upsname var w
      else with_fresh_ups cid upsname
        (\<lambda>i w. case sstate_getinfo (ups_at w i) var of
            None \<Rightarrow> send_err cid ''VAR-NOT-SUPPORTED'' w
          | Some val \<Rightarrow> reply cid (var_line (ups_fsd (ups_at w i)) upsname var val) w) w)"

definition net_get :: "nat \<Rightarrow> cstring list \<Rightarrow> world \<Rightarrow> world" where
  "net_get cid arg w =
     (let numarg = length arg; is = (\<lambda>s. same_nocase (arg ! 0) s) in
      if numarg < 1 then send_err cid ''INVALID-ARGUMENT'' w
      else if is ''TRACKING'' then
        (if numarg < 2 then reply cid (line [if c_tracking w cid then ''ON'' else ''OFF'']) w
         else if c_tracking w cid then reply cid (line [tracking_get (arg ! 1) (tracks w)]) w
         else send_err cid ''FEATURE-NOT-CONFIGURED'' w)
      else if numarg < 2 then send_err cid ''INVALID-ARGUMENT'' w
      else if is ''NUMLOGINS'' then get_numlogins cid (arg ! 1) w
      else if is ''UPSDESC'' then get_upsdesc cid (arg ! 1) w
      else if numarg < 3 then send_err cid ''INVALID-ARGUMENT'' w
      else if is ''VAR'' then get_var cid (arg ! 1) (arg ! 2) w
      else if is ''TYPE'' then get_type cid (arg ! 1) (arg ! 2) w
      else if is ''DESC'' then get_desc cid (arg ! 1) (arg ! 2) w
      else if is ''CMDDESC'' then get_cmddesc cid (arg ! 1) (arg ! 2) w
      else send_err cid ''INVALID-ARGUMENT'' w)"

section \<open>netset.c\<close>

text \<open>What \<open>set_var\<close> checks about the value; \<open>None\<close> is a value that may be set.\<close>

definition value_error :: "upstype \<Rightarrow> cstring \<Rightarrow> cstring \<Rightarrow> cstring option" where
  "value_error ups var newval =
     (let enums = sstate_getenumlist ups var; ranges = sstate_getrangelist ups var;
          aux = sstate_getaux ups var; inewval = atoi newval
      in if has_flag (sstate_getflags ups var) ST_FLAG_STRING \<and> aux < 1 then Some ''SET-FAILED''
         else if has_flag (sstate_getflags ups var) ST_FLAG_STRING \<and> aux < to_int32 (int (length newval))
         then Some ''TOO-LONG''
         else if enums \<noteq> [] \<and> newval \<notin> set enums then Some ''INVALID-VALUE''
         else if ranges \<noteq> [] \<and> \<not> (\<exists>r \<in> set ranges. fst r \<le> inewval \<and> inewval \<le> snd r)
         then Some ''INVALID-VALUE''
         else None)"

text \<open>The tail that \<open>set_var\<close> and \<open>send_instcmd\<close> share: track, add the newline, send, answer.\<close>

definition send_tracked :: "nat \<Rightarrow> nat \<Rightarrow> cstring \<Rightarrow> cstring \<Rightarrow> cstring \<Rightarrow> world \<Rightarrow> world" where
  "send_tracked cid i cmd0 tracking_id failed w =
     (let have_id = (tracking_id \<noteq> []);
          cmd1 = (if have_id then snprintfcat cmd0 SMALLBUF ('' TRACKING '' @ tracking_id) else cmd0);
          w1 = (if have_id then w\<lparr>tracks := snd (tracking_add tracking_id (wall w) (tracks w))\<rparr> else w);
          cmd2 = snprintfcat cmd1 SMALLBUF [CHR 10]
      in case ups_sendline i cmd2 w1 of
           (ok, w2) \<Rightarrow>
             if \<not> ok then send_err cid failed w2
             else if have_id then reply cid (line [''OK TRACKING '', tracking_id]) w2
             else reply cid (line [''OK'']) w2)"

definition set_var :: "nat \<Rightarrow> cstring \<Rightarrow> cstring \<Rightarrow> cstring \<Rightarrow> cstring \<Rightarrow> world \<Rightarrow> world" where
  "set_var cid upsname var newval tracking_id =
     with_fresh_ups cid upsname
       (\<lambda>i w.
          if \<not> user_checkaction (accounts w) (c_username w cid) (c_password w cid) ''SET''
          then send_err cid ''ACCESS-DENIED'' w
          else if sstate_getinfo (ups_at w i) var = None then send_err cid ''VAR-NOT-SUPPORTED'' w
          else if \<not> has_flag (sstate_getflags (ups_at w i) var) ST_FLAG_RW then send_err cid ''READONLY'' w
          else case value_error (ups_at w i) var newval of
            Some e \<Rightarrow> send_err cid e w
          | None \<Rightarrow>
              send_tracked cid i
                (snprintf SMALLBUF (''SET '' @ var @ '' '' @ quote (pconf_encode newval [] SMALLBUF)))
                tracking_id ''SET-FAILED'' w)"

definition fresh_uuid :: "world \<Rightarrow> cstring \<times> world" where
  "fresh_uuid w = (nut_uuid_v4 (take 32 (rands w)), w\<lparr>rands := drop 32 (rands w)\<rparr>)"

definition net_set :: "nat \<Rightarrow> cstring list \<Rightarrow> world \<Rightarrow> world" where
  "net_set cid arg w =
     (let numarg = length arg in
      if numarg < 2 then send_err cid ''INVALID-ARGUMENT'' w
      else if same_nocase (arg ! 0) ''VAR'' then
        (if numarg < 4 then send_err cid ''INVALID-ARGUMENT'' w
         else
           let (tracking_id, w1) = (if c_tracking w cid then fresh_uuid w else ([], w))
           in set_var cid (arg ! 1) (arg ! 2) (arg ! 3) tracking_id w1)
      else if same_nocase (arg ! 0) ''TRACKING'' then
        (if same_nocase (arg ! 1) ''ON'' then
           let (on, t) = tracking_enable (tracks w)
           in reply cid (line [''OK'']) (upd_client cid (\<lambda>c. c\<lparr>cl_tracking := on\<rparr>) (w\<lparr>tracks := t\<rparr>))
         else if same_nocase (arg ! 1) ''OFF'' then
           let w1 = upd_client cid (\<lambda>c. c\<lparr>cl_tracking := False\<rparr>) w
           in reply cid (line [''OK''])
                (w1\<lparr>tracks := snd (tracking_disable (map cl_tracking (firstclient w1)) (tracks w1))\<rparr>)
         else send_err cid ''INVALID-ARGUMENT'' w)
      else send_err cid ''INVALID-ARGUMENT'' w)"

section \<open>netinstcmd.c\<close>

definition send_instcmd :: "nat \<Rightarrow> cstring \<Rightarrow> cstring \<Rightarrow> cstring option \<Rightarrow> cstring \<Rightarrow> world \<Rightarrow> world" where
  "send_instcmd cid upsname cmdname val tracking_id =
     with_fresh_ups cid upsname
       (\<lambda>i w.
          if \<not> (\<exists>c \<in> set (sstate_getcmdlist (ups_at w i)). same_nocase c cmdname)
          then send_err cid ''CMD-NOT-SUPPORTED'' w
          else if \<not> user_checkinstcmd (accounts w) (c_username w cid) (c_password w cid) cmdname
          then send_err cid ''ACCESS-DENIED'' w
          else
            let b0 = snprintf SMALLBUF (''INSTCMD '' @ cmdname);
                b1 = (case val of
                        None \<Rightarrow> b0
                      | Some v \<Rightarrow> snprintfcat b0 SMALLBUF ('' '' @ pconf_encode v [] SMALLBUF))
            in send_tracked cid i b1 tracking_id ''INSTCMD-FAILED'' w)"

definition net_instcmd :: "nat \<Rightarrow> cstring list \<Rightarrow> world \<Rightarrow> world" where
  "net_instcmd cid arg w =
     (if length arg < 2 then send_err cid ''INVALID-ARGUMENT'' w
      else
        let cmdparam = (if length arg = 3 then Some (arg ! 2) else None);
            (tracking_id, w1) = (if c_tracking w cid then fresh_uuid w else ([], w))
        in send_instcmd cid (arg ! 0) (arg ! 1) cmdparam tracking_id w1)"

section \<open>netlist.c\<close>

text \<open>A sequence of lines, given up at the first that cannot be written.\<close>

fun send_lines :: "nat \<Rightarrow> cstring list \<Rightarrow> world \<Rightarrow> bool \<times> world" where
  "send_lines cid [] w = (True, w)"
| "send_lines cid (l # ls) w =
     (case sendback cid l w of (ok, w1) \<Rightarrow> if ok then send_lines cid ls w1 else (False, w1))"

fun tree_dump :: "st_tree \<Rightarrow> nat \<Rightarrow> cstring \<Rightarrow> bool \<Rightarrow> bool \<Rightarrow> world \<Rightarrow> bool \<times> world" where
  "tree_dump Leaf cid ups rw fsd w = (True, w)"
| "tree_dump (Node l node r) cid ups rw fsd w =
     (case tree_dump l cid ups rw fsd w of
        (ok, w1) \<Rightarrow>
          if \<not> ok then (False, w1)
          else
            (case (if rw then
                     (if has_flag (st_flags node) ST_FLAG_RW
                      then sendback cid (line [''RW '', ups, '' '', st_var node, '' '', quote (node_val node)]) w1
                      else (True, w1))
                   else sendback cid (var_line fsd ups (st_var node) (node_val node)) w1) of
               (ok1, w2) \<Rightarrow> if \<not> ok1 then (False, w2) else tree_dump r cid ups rw fsd w2))"

text \<open>A list between its \<open>BEGIN\<close> and \<open>END\<close> lines.\<close>

definition bracketed :: "nat \<Rightarrow> cstring \<Rightarrow> (world \<Rightarrow> bool \<times> world) \<Rightarrow> world \<Rightarrow> world" where
  "bracketed cid what body w =
     (case sendback cid (line [''BEGIN LIST '', what]) w of
        (ok, w1) \<Rightarrow>
          if \<not> ok then w1
          else (case body w1 of
             (ok1, w2) \<Rightarrow> if \<not> ok1 then w2 else reply cid (line [''END LIST '', what]) w2))"

definition list_rw :: "nat \<Rightarrow> cstring \<Rightarrow> world \<Rightarrow> world" where
  "list_rw cid upsname =
     with_fresh_ups cid upsname
       (\<lambda>i w. bracketed cid (''RW '' @ upsname)
          (tree_dump (ups_inforoot (ups_at w i)) cid upsname True (ups_fsd (ups_at w i))) w)"

definition list_var :: "nat \<Rightarrow> cstring \<Rightarrow> world \<Rightarrow> world" where
  "list_var cid upsname =
     with_fresh_ups cid upsname
       (\<lambda>i w. bracketed cid (''VAR '' @ upsname)
          (tree_dump (ups_inforoot (ups_at w i)) cid upsname False (ups_fsd (ups_at w i))) w)"

definition list_cmd :: "nat \<Rightarrow> cstring \<Rightarrow> world \<Rightarrow> world" where
  "list_cmd cid upsname =
     with_fresh_ups cid upsname
       (\<lambda>i w. bracketed cid (''CMD '' @ upsname)
          (send_lines cid (map (\<lambda>c. line [''CMD '', upsname, '' '', c]) (ups_cmdlist (ups_at w i)))) w)"

definition list_enum :: "nat \<Rightarrow> cstring \<Rightarrow> cstring \<Rightarrow> world \<Rightarrow> world" where
  "list_enum cid upsname var =
     with_fresh_ups cid upsname
       (\<lambda>i w. case sstate_getnode (ups_at w i) var of
           None \<Rightarrow> send_err cid ''VAR-NOT-SUPPORTED'' w
         | Some node \<Rightarrow>
             bracketed cid (''ENUM '' @ upsname @ '' '' @ var)
               (send_lines cid
                  (map (\<lambda>e. line [''ENUM '', upsname, '' '', var, '' '', quote e]) (st_enum_list node))) w)"

definition list_range :: "nat \<Rightarrow> cstring \<Rightarrow> cstring \<Rightarrow> world \<Rightarrow> world" where
  "list_range cid upsname var =
     with_fresh_ups cid upsname
       (\<lambda>i w. case sstate_getnode (ups_at w i) var of
           None \<Rightarrow> send_err cid ''VAR-NOT-SUPPORTED'' w
         | Some node \<Rightarrow>
             bracketed cid (''RANGE '' @ upsname @ '' '' @ var)
               (send_lines cid
                  (map (\<lambda>r. line [''RANGE '', upsname, '' '', var, '' '', quote (int_dec (fst r)), '' '',
                                  quote (int_dec (snd r))]) (st_range_list node))) w)"

definition ups_line :: "upstype \<Rightarrow> cstring" where
  "ups_line u =
     (case ups_desc u of
        Some d \<Rightarrow> line [''UPS '', ups_name u, '' '', quote (pconf_encode d [] SMALLBUF)]
      | None \<Rightarrow> line [''UPS '', ups_name u, '' '', quote ''Description unavailable''])"

definition list_ups :: "nat \<Rightarrow> world \<Rightarrow> world" where
  "list_ups cid w = bracketed cid ''UPS'' (send_lines cid (map ups_line (firstups w))) w"

definition list_clients :: "nat \<Rightarrow> cstring \<Rightarrow> world \<Rightarrow> world" where
  "list_clients cid upsname =
     with_ups cid upsname
       (\<lambda>i w. bracketed cid (''CLIENT '' @ upsname)
          (send_lines cid
             (concat (map (\<lambda>c. case cl_loginups c of
                                 None \<Rightarrow> []
                               | Some n \<Rightarrow> if same_nocase n (ups_name (ups_at w i))
                                           then [line [''CLIENT '', n, '' '', cl_addr c]] else [])
                (firstclient w)))) w)"

definition net_list :: "nat \<Rightarrow> cstring list \<Rightarrow> world \<Rightarrow> world" where
  "net_list cid arg w =
     (let numarg = length arg; is = (\<lambda>s. same_nocase (arg ! 0) s) in
      if numarg < 1 then send_err cid ''INVALID-ARGUMENT'' w
      else if is ''UPS'' then list_ups cid w
      else if numarg < 2 then send_err cid ''INVALID-ARGUMENT'' w
      else if is ''VAR'' then list_var cid (arg ! 1) w
      else if is ''RW'' then list_rw cid (arg ! 1) w
      else if is ''CMD'' then list_cmd cid (arg ! 1) w
      else if is ''CLIENT'' then list_clients cid (arg ! 1) w
      else if numarg < 3 then send_err cid ''INVALID-ARGUMENT'' w
      else if is ''ENUM'' then list_enum cid (arg ! 1) (arg ! 2) w
      else if is ''RANGE'' then list_range cid (arg ! 1) (arg ! 2) w
      else send_err cid ''INVALID-ARGUMENT'' w)"

section \<open>The table of commands, and the dispatch of a line\<close>

datatype netcmd =
  VER | NETVER | PROTVER | HELP | STARTTLS | GET | LIST | USERNAME | PASSWORD
  | LOGIN | LOGOUT | PRIMARY | MASTER | FSD | SET | INSTCMD

fun netcmd_func :: "netcmd \<Rightarrow> nat \<Rightarrow> cstring list \<Rightarrow> world \<Rightarrow> world" where
  "netcmd_func VER = net_ver"
| "netcmd_func NETVER = net_netver"
| "netcmd_func PROTVER = net_netver"
| "netcmd_func HELP = net_help"
| "netcmd_func STARTTLS = net_starttls"
| "netcmd_func GET = net_get"
| "netcmd_func LIST = net_list"
| "netcmd_func USERNAME = net_username"
| "netcmd_func PASSWORD = net_password"
| "netcmd_func LOGIN = net_login"
| "netcmd_func LOGOUT = net_logout"
| "netcmd_func PRIMARY = net_primary"
| "netcmd_func MASTER = net_master"
| "netcmd_func FSD = net_fsd"
| "netcmd_func SET = net_set"
| "netcmd_func INSTCMD = net_instcmd"

text \<open>\<open>FLAG_USER\<close>: user name and password must be set.\<close>

definition flag_user :: "netcmd \<Rightarrow> bool" where
  "flag_user c \<longleftrightarrow> c \<in> {LOGIN, PRIMARY, MASTER, FSD, SET, INSTCMD}"

definition netcmds :: "(cstring \<times> netcmd) list" where
  "netcmds =
     [(''VER'', VER), (''NETVER'', NETVER), (''PROTVER'', PROTVER), (''HELP'', HELP),
      (''STARTTLS'', STARTTLS), (''GET'', GET), (''LIST'', LIST), (''USERNAME'', USERNAME),
      (''PASSWORD'', PASSWORD), (''LOGIN'', LOGIN), (''LOGOUT'', LOGOUT), (''PRIMARY'', PRIMARY),
      (''MASTER'', MASTER), (''FSD'', FSD), (''SET'', SET), (''INSTCMD'', INSTCMD)]"

fun find_cmd :: "(cstring \<times> netcmd) list \<Rightarrow> cstring \<Rightarrow> netcmd option" where
  "find_cmd [] name = None"
| "find_cmd (nc # ncs) name = (if same_nocase (fst nc) name then Some (snd nc) else find_cmd ncs name)"

definition check_command :: "netcmd \<Rightarrow> nat \<Rightarrow> cstring list \<Rightarrow> world \<Rightarrow> world" where
  "check_command cmd cid arg w =
     (if flag_user cmd \<and> c_username w cid = None then send_err cid ''USERNAME-REQUIRED'' w
      else if flag_user cmd \<and> c_password w cid = None then send_err cid ''PASSWORD-REQUIRED'' w
      else netcmd_func cmd cid (tl arg) w)"

definition parse_net :: "nat \<Rightarrow> cstring list \<Rightarrow> world \<Rightarrow> world" where
  "parse_net cid arg w =
     (if length arg < 1 then send_err cid ''UNKNOWN-COMMAND'' w
      else case find_cmd netcmds (arg ! 0) of
        Some cmd \<Rightarrow> check_command cmd cid arg w
      | None \<Rightarrow> send_err cid ''UNKNOWN-COMMAND'' w)"

text \<open>One \<open>read\<close> from a client; failures and the end of the stream end the connection.\<close>

definition client_line :: "nat \<Rightarrow> cstring list \<Rightarrow> world \<Rightarrow> world" where
  "client_line cid arg w = parse_net cid arg (upd_client cid (\<lambda>c. c\<lparr>cl_last_heard := wall w\<rparr>) w)"

definition client_readline :: "read_result \<Rightarrow> nat \<Rightarrow> world \<Rightarrow> world" where
  "client_readline res cid w =
     (case client_at w cid of
        None \<Rightarrow> w
      | Some client \<Rightarrow>
         (case res of
            Read_again \<Rightarrow> client_disconnect cid w
          | Read_failed \<Rightarrow> client_disconnect cid w
          | Read_bytes buf \<Rightarrow>
              if buf = [] then client_disconnect cid w
              else
                (case sock_loop (client_line cid) buf (cl_ctx client, w) of
                   (ctx, w1) \<Rightarrow> upd_client cid (\<lambda>c. c\<lparr>cl_ctx := ctx\<rparr>) w1)))"

end
