(* ===== verification/NetEffects.thy ===== *)
theory NetEffects
  imports NetCmds
begin

text \<open>
  What a command can do, as a contract between the primitives of \<open>upsd.c\<close> and the handlers of
  the network commands. A pair of relations between states, \<open>R\<close> (reflexive) and \<open>S\<close> (what
  one reply at least does), that holds of every primitive a handler uses, holds of the
  handler. The locales follow the powers of the commands: queries only reply, session commands
  also change their own client, driver commands also write to a driver, a login also counts.
\<close>

section \<open>Queries\<close>

locale query_effect =
  fixes R S :: "nat \<Rightarrow> world \<Rightarrow> world \<Rightarrow> bool"
  assumes R_refl [simp]: "R cid w w"
    and R_trans: "R cid w v \<Longrightarrow> R cid v u \<Longrightarrow> R cid w u"
    and S_R: "S cid w v \<Longrightarrow> R cid w v"
    and R_S: "R cid w v \<Longrightarrow> S cid v u \<Longrightarrow> S cid w u"
    and S_R_S: "S cid w v \<Longrightarrow> R cid v u \<Longrightarrow> S cid w u"
    and S_sendback: "S cid w (snd (sendback cid text w))"
begin

lemma R_sendback: "R cid w (snd (sendback cid text w))"
  by (rule S_R [OF S_sendback])

lemma S_reply: "S cid w (reply cid text w)"
  by (simp add: reply_def S_sendback)

lemma S_send_err: "S cid w (send_err cid e w)"
  by (simp add: send_err_def S_reply)

lemma S_reply_then: "R cid w v \<Longrightarrow> S cid w (reply cid text v)"
  by (rule R_S [OF _ S_reply])

lemma S_err_then: "R cid w v \<Longrightarrow> S cid w (send_err cid e v)"
  by (rule R_S [OF _ S_send_err])

lemma S_with_ups: "(\<And>i v. S cid v (f i v)) \<Longrightarrow> S cid w (with_ups cid n f w)"
  by (simp add: with_ups_def S_send_err split: option.split)

lemma S_with_fresh_ups: "(\<And>i v. S cid v (f i v)) \<Longrightarrow> S cid w (with_fresh_ups cid n f w)"
  unfolding with_fresh_ups_def by (rule S_with_ups) (simp add: ups_available_def S_send_err)

lemma R_send_lines: "R cid w (snd (send_lines cid ls w))"
proof (induction ls arbitrary: w)
  case (Cons l ls)
  obtain ok w1 where s: "sendback cid l w = (ok, w1)" by fastforce
  then have "R cid w w1" using R_sendback [of cid w l] by simp
  then show ?case using Cons.IH [of w1] R_trans by (auto simp: s)
qed simp

lemma R_tree_dump: "R cid w (snd (tree_dump t cid n rw fsd w))"
proof (induction t arbitrary: w)
  case (Node l node r)
  obtain ok w1 where 1: "tree_dump l cid n rw fsd w = (ok, w1)" by fastforce
  then have q1: "R cid w w1" using Node.IH(1) [of w] by simp
  let ?mid = "if rw then
                (if has_flag (st_flags node) ST_FLAG_RW
                 then sendback cid (line [''RW '', n, '' '', st_var node, '' '', quote (node_val node)]) w1
                 else (True, w1))
              else sendback cid (var_line fsd n (st_var node) (node_val node)) w1"
  obtain ok1 w2 where 2: "?mid = (ok1, w2)" by fastforce
  have "R cid w1 (snd ?mid)" by (simp add: R_sendback)
  then have q2: "R cid w w2" using R_trans [OF q1] 2 by simp
  have q3: "R cid w (snd (tree_dump r cid n rw fsd w2))" by (rule R_trans [OF q2 Node.IH(2)])
  show ?case unfolding tree_dump.simps 1 prod.case 2 using q1 q2 q3 by simp
qed simp

lemma S_bracketed:
  assumes "\<And>v. R cid v (snd (body v))"
  shows "S cid w (bracketed cid what body w)"
proof -
  obtain ok w1 where 1: "sendback cid (line [''BEGIN LIST '', what]) w = (ok, w1)" by fastforce
  then have s1: "S cid w w1" using S_sendback [of cid w "line [''BEGIN LIST '', what]"] by simp
  obtain ok1 w2 where 2: "body w1 = (ok1, w2)" by fastforce
  then have "S cid w w2" using S_R_S [OF s1] assms [of w1] by simp
  then show ?thesis using s1 S_reply_then [OF S_R] by (simp add: bracketed_def 1 2)
qed

lemmas S_intros =
  S_with_fresh_ups S_with_ups S_reply S_send_err S_bracketed R_tree_dump R_send_lines

lemma S_netget:
  "S cid w (get_numlogins cid n w)" "S cid w (get_upsdesc cid n w)" "S cid w (get_desc cid n v w)"
  "S cid w (get_cmddesc cid n v w)" "S cid w (get_type cid n v w)" "S cid w (get_var cid n v w)"
  unfolding get_numlogins_def get_upsdesc_def get_desc_def get_cmddesc_def get_type_def get_var_def
    get_var_server_def Let_def
  by (auto intro!: S_intros split: option.split)

lemma S_net_get: "S cid w (net_get cid arg w)"
  by (simp add: net_get_def Let_def S_netget S_reply S_send_err)

lemma S_netlist:
  "S cid w (list_rw cid n w)" "S cid w (list_var cid n w)" "S cid w (list_cmd cid n w)"
  "S cid w (list_enum cid n v w)" "S cid w (list_range cid n v w)" "S cid w (list_ups cid w)"
  "S cid w (list_clients cid n w)"
  unfolding list_rw_def list_var_def list_cmd_def list_enum_def list_range_def list_ups_def list_clients_def
  by (auto intro!: S_intros split: option.split)

lemma S_net_list: "S cid w (net_list cid arg w)"
  by (simp add: net_list_def Let_def S_netlist S_send_err)

lemma S_netmisc:
  "S cid w (net_ver cid arg w)" "S cid w (net_netver cid arg w)" "S cid w (net_help cid arg w)"
  "S cid w (net_starttls cid arg w)"
  by (simp_all add: net_ver_def net_netver_def net_help_def net_starttls_def S_reply S_send_err)

lemma S_net_primary: "S cid w (net_primary cid arg w)" "S cid w (net_master cid arg w)"
  by (auto simp: net_primary_def net_master_def do_net_primary_def S_send_err S_reply split: option.split)

end

section \<open>Commands on the client's own session\<close>

text \<open>User name and password are only ever set when there is none yet.\<close>

locale session_effect = query_effect +
  assumes R_username: "c_username w cid = None \<Longrightarrow> R cid w (upd_client cid (\<lambda>c. c\<lparr>cl_username := Some x\<rparr>) w)"
    and R_password: "c_password w cid = None \<Longrightarrow> R cid w (upd_client cid (\<lambda>c. c\<lparr>cl_password := Some x\<rparr>) w)"
    and R_last_heard: "R cid w (upd_client cid (\<lambda>c. c\<lparr>cl_last_heard := t\<rparr>) w)"
begin

lemma S_net_username: "S cid w (net_username cid arg w)" "S cid w (net_password cid arg w)"
  by (simp_all add: net_username_def net_password_def S_send_err S_reply_then R_username R_password)

lemma S_net_logout: "S cid w (net_logout cid arg w)"
  by (simp add: net_logout_def S_send_err S_R_S [OF S_reply R_last_heard])

text \<open>All commands that neither change a UPS nor write to a driver.\<close>

lemma S_harmless:
  assumes "cmd \<notin> {LOGIN, FSD, SET, INSTCMD}"
  shows "S cid w (netcmd_func cmd cid arg w)"
  using assms
  by (cases cmd) (simp_all add: S_net_get S_net_list S_netmisc S_net_logout S_net_primary S_net_username)

end

section \<open>Commands that reach a driver\<close>

locale driver_effect = session_effect +
  assumes R_sendline: "R cid w (snd (ups_sendline i buf w))"
    and R_tracks: "R cid w (w\<lparr>tracks := t\<rparr>)"
    and R_rands: "R cid w (w\<lparr>rands := rs\<rparr>)"
    and R_tracking: "R cid w (upd_client cid (\<lambda>c. c\<lparr>cl_tracking := b\<rparr>) w)"
    and R_fsd: "R cid w (upd_ups i (\<lambda>u. u\<lparr>ups_fsd := True\<rparr>) w)"
begin

lemma S_send_tracked: "S cid w (send_tracked cid i cmd t failed w)"
proof -
  let ?w1 = "if t \<noteq> [] then w\<lparr>tracks := snd (tracking_add t (wall w) (tracks w))\<rparr> else w"
  let ?cmd2 = "snprintfcat (if t \<noteq> [] then snprintfcat cmd SMALLBUF ('' TRACKING '' @ t) else cmd) SMALLBUF [CHR 10]"
  have q: "R cid w ?w1" by (simp add: R_tracks)
  obtain ok w2 where s: "ups_sendline i ?cmd2 ?w1 = (ok, w2)" by fastforce
  then have "R cid ?w1 w2" using R_sendline [of cid ?w1 i ?cmd2] by simp
  then have "R cid w w2" using R_trans [OF q] by blast
  then show ?thesis
    unfolding send_tracked_def Let_def s prod.case by (auto intro: S_err_then S_reply_then)
qed

lemma S_set_var: "S cid w (set_var cid n v x t w)"
  unfolding set_var_def
  by (auto intro!: S_with_fresh_ups S_send_err S_send_tracked split: option.split)

lemma S_send_instcmd: "S cid w (send_instcmd cid n c x t w)"
  unfolding send_instcmd_def Let_def
  by (auto intro!: S_with_fresh_ups S_send_err S_send_tracked)

lemma R_fresh_uuid: "R cid w (snd (fresh_uuid w))"
  by (simp add: fresh_uuid_def R_rands)

lemma S_net_set: "S cid w (net_set cid arg w)"
  unfolding net_set_def Let_def tracking_enable_def prod.case
  by (auto intro!: S_send_err S_set_var S_reply_then R_S [OF R_fresh_uuid S_set_var]
      R_trans [OF R_tracks R_tracking] R_trans [OF R_tracking R_tracks]
      simp: case_prod_beta)

lemma S_net_instcmd: "S cid w (net_instcmd cid arg w)"
  unfolding net_instcmd_def Let_def
  by (auto intro!: S_send_err S_send_instcmd R_S [OF R_fresh_uuid S_send_instcmd] simp: case_prod_beta)

lemma S_net_fsd: "S cid w (net_fsd cid arg w)"
  by (simp add: net_fsd_def S_send_err S_reply_then R_fsd split: option.split)

lemma S_not_login: "cmd \<noteq> LOGIN \<Longrightarrow> S cid w (netcmd_func cmd cid arg w)"
  using S_harmless [of cmd cid w arg] S_net_fsd S_net_set S_net_instcmd by (cases cmd) simp_all

end

section \<open>Every command\<close>

locale command_effect = driver_effect +
  assumes R_numlogins: "R cid w (upd_ups i (\<lambda>u. u\<lparr>ups_numlogins := ups_numlogins u + 1\<rparr>) w)"
    and R_loginups: "c_loginups w cid = None \<Longrightarrow> R cid w (upd_client cid (\<lambda>c. c\<lparr>cl_loginups := Some n\<rparr>) w)"
begin

lemma S_net_login: "S cid w (net_login cid arg w)"
proof -
  have "c_loginups (upd_ups i f w) cid = c_loginups w cid" for i f
    by (simp add: c_loginups_def client_at_def upd_ups_def)
  then show ?thesis
    unfolding net_login_def Let_def
    by (auto intro!: S_send_err S_reply_then R_trans [OF R_numlogins R_loginups] split: option.split)
qed

lemma S_netcmd_func: "S cid w (netcmd_func cmd cid arg w)"
  using S_not_login [of cmd cid w arg] S_net_login by (cases "cmd = LOGIN") simp_all

lemma S_parse_net: "S cid w (parse_net cid arg w)"
  by (simp add: parse_net_def check_command_def S_send_err S_netcmd_func split: option.split)

lemma S_client_line: "S cid w (client_line cid arg w)"
  unfolding client_line_def by (rule R_S [OF R_last_heard S_parse_net])

end

end
