(* ===== verification/UpsdInv.thy ===== *)
theory UpsdInv
  imports NetEffects
begin

text \<open>
  Invariants of the server: the login counters agree with the clients, UPS names and client
  sockets are unique, all parts are well formed; every handler, and every other event, keeps
  them.
\<close>

section \<open>What a handler leaves alone\<close>

text \<open>The parts of the state that the login counters depend on.\<close>

definition ups_view :: "world \<Rightarrow> (cstring \<times> int) list" where
  "ups_view w = map (\<lambda>u. (ups_name u, ups_numlogins u)) (firstups w)"

definition client_view :: "world \<Rightarrow> (nat \<times> cstring option) list" where
  "client_view w = map (\<lambda>c. (cl_id c, cl_loginups c)) (firstclient w)"

definition parts_wf :: "world \<Rightarrow> bool" where
  "parts_wf w \<longleftrightarrow>
     (\<forall>u \<in> set (firstups w). ups_wf u) \<and> (\<forall>c \<in> set (firstclient w). sock_ok (cl_ctx c)) \<and>
     users_wf (accounts w)"

definition quiet :: "world \<Rightarrow> world \<Rightarrow> bool" where
  "quiet w w' \<longleftrightarrow>
     ups_view w' = ups_view w \<and> client_view w' = client_view w \<and> accounts w' = accounts w \<and>
     (parts_wf w \<longrightarrow> parts_wf w')"

lemma quiet_refl [simp]: "quiet w w"
  by (simp add: quiet_def)

lemma quiet_trans: "quiet w v \<Longrightarrow> quiet v u \<Longrightarrow> quiet w u"
  by (simp add: quiet_def)

lemma quiet_cong:
  assumes "firstups w' = firstups w" and "firstclient w' = firstclient w" and "accounts w' = accounts w"
  shows "quiet w w'"
  using assms by (simp add: quiet_def ups_view_def client_view_def parts_wf_def)

lemma quiet_upd_client:
  assumes "\<And>c. cl_id (f c) = cl_id c" and "\<And>c. cl_loginups (f c) = cl_loginups c"
    and "\<And>c. sock_ok (cl_ctx c) \<Longrightarrow> sock_ok (cl_ctx (f c))"
  shows "quiet w (upd_client cid f w)"
proof -
  have "client_view (upd_client cid f w) = client_view w"
    by (simp add: client_view_def upd_client_def assms)
  then show ?thesis
    using assms(3) by (auto simp: quiet_def upd_client_def ups_view_def parts_wf_def)
qed

lemma quiet_upd_ups:
  assumes "ups_name (f (ups_at w i)) = ups_name (ups_at w i)"
    and "ups_numlogins (f (ups_at w i)) = ups_numlogins (ups_at w i)"
    and "ups_wf (ups_at w i) \<Longrightarrow> ups_wf (f (ups_at w i))"
  shows "quiet w (upd_ups i f w)"
proof (cases "i < length (firstups w)")
  case True
  then have "ups_view (upd_ups i f w) = ups_view w"
    using assms(1,2) by (simp add: ups_view_def upd_ups_def ups_at_def map_update list_update_same_conv)
  moreover have "parts_wf w \<Longrightarrow> parts_wf (upd_ups i f w)"
    using assms(3) True
    by (auto simp: parts_wf_def upd_ups_def ups_at_def dest!: set_update_subset_insert [THEN subsetD])
  ultimately show ?thesis by (simp add: quiet_def upd_ups_def client_view_def)
next
  case False
  then have "upd_ups i f w = w" by (simp add: upd_ups_def list_update_beyond)
  then show ?thesis by simp
qed

lemma quiet_take_client_write: "quiet w (snd (take_client_write w))"
  by (rule quiet_cong) (simp_all add: take_client_write_def split: list.split)

lemma quiet_take_driver_write: "quiet w (snd (take_driver_write w))"
  by (rule quiet_cong) (simp_all add: take_driver_write_def split: list.split)

lemma quiet_sendback: "quiet w (snd (sendback cid text w))"
proof (cases "client_at w cid")
  case (Some c)
  obtain b w1 where t: "take_client_write w = (b, w1)" by fastforce
  then have q: "quiet w w1" using quiet_take_client_write [of w] by simp
  have "quiet w1 (w1\<lparr>sent := x\<rparr>)" for x by (rule quiet_cong) simp_all
  moreover have "quiet w1 (upd_client cid (\<lambda>c. c\<lparr>cl_last_heard := 0\<rparr>) w1)"
    by (rule quiet_upd_client) simp_all
  ultimately show ?thesis
    using quiet_trans [OF q] by (simp add: sendback_def Some t split: bool.split)
qed (simp add: sendback_def)

lemma quiet_reply: "quiet w (reply cid text w)"
  by (simp add: reply_def quiet_sendback)

lemma quiet_send_err: "quiet w (send_err cid e w)"
  by (simp add: send_err_def quiet_reply)

lemma quiet_ups_sendline: "quiet w (snd (ups_sendline i buf w))"
proof (cases "ups_connected (ups_at w i)")
  case True
  obtain ok w1 where t: "take_driver_write w = (ok, w1)" by fastforce
  then have q: "quiet w w1" using quiet_take_driver_write [of w] by simp
  obtain ret u where s: "sstate_sendline ok (ups_at w1 i) = (ret, u)" by fastforce
  have u: "ups_name u = ups_name (ups_at w1 i)" "ups_numlogins u = ups_numlogins (ups_at w1 i)"
    using s by (auto simp: sstate_sendline_def sstate_disconnect_def sstate_infofree_def
        sstate_cmdfree_def Let_def split: if_splits)
  have "quiet w1 (upd_ups i (\<lambda>_. u) w1)"
    using u s sstate_sendline_wf [of "ups_at w1 i" ok] by (intro quiet_upd_ups) simp_all
  then have q2: "quiet w (upd_ups i (\<lambda>_. u) w1)" using quiet_trans [OF q] by blast
  moreover have "quiet v (v\<lparr>to_driver := x\<rparr>)" for v x by (rule quiet_cong) simp_all
  ultimately show ?thesis
    using quiet_trans by (auto simp: ups_sendline_def True t s Let_def)
qed (simp add: ups_sendline_def)

section \<open>The handlers that do not log in\<close>

lemma quiet_set_tracks: "quiet w (w\<lparr>tracks := t\<rparr>)"
  by (rule quiet_cong) simp_all

lemma quiet_own_client:
  "quiet w (upd_client cid (\<lambda>c. c\<lparr>cl_username := x\<rparr>) w)"
  "quiet w (upd_client cid (\<lambda>c. c\<lparr>cl_password := x\<rparr>) w)"
  "quiet w (upd_client cid (\<lambda>c. c\<lparr>cl_last_heard := now\<rparr>) w)"
  "quiet w (upd_client cid (\<lambda>c. c\<lparr>cl_tracking := b\<rparr>) w)"
  by (rule quiet_upd_client; simp)+

lemma quiet_fsd: "quiet w (upd_ups i (\<lambda>u. u\<lparr>ups_fsd := True\<rparr>) w)"
  by (rule quiet_upd_ups) (simp_all add: ups_wf_def)

interpretation calm: driver_effect "\<lambda>_. quiet" "\<lambda>_. quiet"
proof unfold_locales
  fix w v u :: world
  show "quiet w v \<Longrightarrow> quiet v u \<Longrightarrow> quiet w u" by (rule quiet_trans)
qed (simp_all add: quiet_trans quiet_sendback quiet_ups_sendline quiet_set_tracks quiet_own_client quiet_fsd
    quiet_cong)

section \<open>The login counters\<close>

definition logins :: "cstring \<Rightarrow> (nat \<times> cstring option) list \<Rightarrow> nat" where
  "logins n cv = length (filter (\<lambda>p. snd p = Some n) cv)"

text \<open>Stated on the two views, so that it only depends on what the counters depend on.\<close>

definition counts_ok :: "(cstring \<times> int) list \<Rightarrow> (nat \<times> cstring option) list \<Rightarrow> bool" where
  "counts_ok uv cv \<longleftrightarrow>
     distinct (map (fold_case \<circ> fst) uv) \<and> distinct (map fst cv) \<and>
     (\<forall>i < length uv. snd (uv ! i) = int (logins (fst (uv ! i)) cv)) \<and>
     (\<forall>p \<in> set cv. \<forall>n. snd p = Some n \<longrightarrow> n \<in> fst ` set uv)"

definition world_inv :: "world \<Rightarrow> bool" where
  "world_inv w \<longleftrightarrow> counts_ok (ups_view w) (client_view w) \<and> parts_wf w"

lemma quiet_inv: "quiet w w' \<Longrightarrow> world_inv w \<Longrightarrow> world_inv w'"
  by (simp add: quiet_def world_inv_def)

lemma logins_set:
  assumes "distinct (map fst cv)" and "(cid, None) \<in> set cv"
  shows "logins m (map (\<lambda>p. if fst p = cid then (cid, Some n) else p) cv)
     = logins m cv + (if m = n then 1 else 0)"
  using assms
proof (induction cv)
  case (Cons p cv)
  show ?case
  proof (cases "fst p = cid")
    case True
    then have fresh: "\<forall>q \<in> set cv. fst q \<noteq> cid"
      using Cons.prems(1) by (simp add: image_iff) metis
    have "map (\<lambda>p. if fst p = cid then (cid, Some n) else p) cv = cv" using fresh by (intro map_idI) simp
    moreover have "p = (cid, None)" using Cons.prems(2) fresh by (metis fst_conv set_ConsD)
    ultimately show ?thesis by (simp add: logins_def)
  next
    case False
    then have "(cid, None) \<in> set cv" using Cons.prems(2) by auto
    then show ?thesis using Cons False by (cases "m = n") (simp_all add: logins_def)
  qed
qed simp

lemma logins_drop:
  assumes "distinct (map fst cv)" and "(cid, l) \<in> set cv"
  shows "logins m cv = logins m (filter (\<lambda>p. fst p \<noteq> cid) cv) + (if l = Some m then 1 else 0)"
  using assms
proof (induction cv)
  case (Cons p cv)
  show ?case
  proof (cases "fst p = cid")
    case True
    then have fresh: "\<forall>q \<in> set cv. fst q \<noteq> cid"
      using Cons.prems(1) by (simp add: image_iff) metis
    have "filter (\<lambda>p. fst p \<noteq> cid) cv = cv" using fresh by (intro filter_True) simp
    moreover have "p = (cid, l)" using Cons.prems(2) fresh by (metis fst_conv set_ConsD)
    ultimately show ?thesis by (simp add: logins_def)
  next
    case False
    then have "(cid, l) \<in> set cv" using Cons.prems(2) by auto
    then show ?thesis using Cons False by (simp add: logins_def)
  qed
qed simp

lemma fst_update_same: "i < length uv \<Longrightarrow> map fst (uv[i := (fst (uv ! i), k)]) = map fst uv"
  by (simp add: map_update list_update_same_conv)

lemma counts_apart:
  assumes "counts_ok uv cv" and "i < length uv" and "j < length uv" and "j \<noteq> i"
  shows "fst (uv ! j) \<noteq> fst (uv ! i)"
proof
  assume "fst (uv ! j) = fst (uv ! i)"
  then have "map (fold_case \<circ> fst) uv ! j = map (fold_case \<circ> fst) uv ! i" using assms(2,3) by simp
  moreover have "distinct (map (fold_case \<circ> fst) uv)" using assms(1) by (simp add: counts_ok_def)
  ultimately have "j = i"
    using nth_eq_iff_index_eq [of "map (fold_case \<circ> fst) uv" j i] assms(2,3) by simp
  then show False using assms(4) by simp
qed

lemma counts_ok_login:
  assumes "counts_ok uv cv" and "i < length uv" and "(cid, None) \<in> set cv"
  shows "counts_ok (uv[i := (fst (uv ! i), snd (uv ! i) + 1)])
           (map (\<lambda>p. if fst p = cid then (cid, Some (fst (uv ! i))) else p) cv)"
proof -
  let ?n = "fst (uv ! i)"
  let ?uv = "uv[i := (?n, snd (uv ! i) + 1)]" and ?cv = "map (\<lambda>p. if fst p = cid then (cid, Some ?n) else p) cv"
  have fsts: "map fst ?uv = map fst uv" by (rule fst_update_same [OF assms(2)])
  have ids: "map fst ?cv = map fst cv" by simp
  have dist: "distinct (map fst cv)" using assms(1) by (simp add: counts_ok_def)
  have apart: "j < length uv \<Longrightarrow> j \<noteq> i \<Longrightarrow> fst (uv ! j) \<noteq> ?n" for j
    using counts_apart [OF assms(1)] assms(2) by blast
  have counts: "\<forall>j < length ?uv. snd (?uv ! j) = int (logins (fst (?uv ! j)) ?cv)"
    using assms(1,2) apart
    by (auto simp: counts_ok_def nth_list_update logins_set [OF dist assms(3)])
  have names: "fst ` set ?uv = fst ` set uv" using arg_cong [OF fsts, of set] by simp
  have "?n \<in> fst ` set uv" using assms(2) by simp
  note known = this
  have "\<forall>p \<in> set ?cv. \<forall>n. snd p = Some n \<longrightarrow> n \<in> fst ` set ?uv"
  proof (intro ballI allI impI)
    fix p n assume "p \<in> set ?cv" and "snd p = Some n"
    then have "n = ?n \<or> (\<exists>q \<in> set cv. snd q = Some n)" by auto
    then show "n \<in> fst ` set ?uv" using assms(1) known unfolding names counts_ok_def by blast
  qed
  moreover have "distinct (map (fold_case \<circ> fst) ?uv)"
    using assms(1) arg_cong [OF fsts, of "map fold_case"] by (simp add: counts_ok_def)
  moreover have "distinct (map fst ?cv)" unfolding ids by (rule dist)
  ultimately show ?thesis using counts unfolding counts_ok_def by blast
qed

lemma counts_ok_drop:
  assumes "counts_ok uv cv" and "(cid, l) \<in> set cv"
    and "case l of None \<Rightarrow> uv' = uv | Some n \<Rightarrow>
      (\<exists>i < length uv. fst (uv ! i) = n \<and> uv' = uv[i := (n, snd (uv ! i) - 1)])"
  shows "counts_ok uv' (filter (\<lambda>p. fst p \<noteq> cid) cv)"
proof -
  let ?cv = "filter (\<lambda>p. fst p \<noteq> cid) cv"
  have dist: "distinct (map fst cv)" using assms(1) by (simp add: counts_ok_def)
  note drop = logins_drop [OF dist assms(2)]
  have dist': "distinct (map fst ?cv)" using dist by (rule distinct_map_filter)
  show ?thesis
  proof (cases l)
    case None
    then show ?thesis
      using assms(1,3) drop dist' by (auto simp: counts_ok_def)
  next
    case (Some n)
    then obtain i where i: "i < length uv" "fst (uv ! i) = n" "uv' = uv[i := (n, snd (uv ! i) - 1)]"
      using assms(3) by auto
    have fsts: "map fst uv' = map fst uv" using fst_update_same [OF i(1)] i(2,3) by simp
    have apart: "j < length uv \<Longrightarrow> j \<noteq> i \<Longrightarrow> fst (uv ! j) \<noteq> n" for j
      using counts_apart [OF assms(1)] i(1,2) by blast
    have "\<forall>j < length uv'. snd (uv' ! j) = int (logins (fst (uv' ! j)) ?cv)"
    proof (intro allI impI)
      fix j assume "j < length uv'"
      then have j: "j < length uv" using i(3) by simp
      then have old: "snd (uv ! j) = int (logins (fst (uv ! j)) cv)" using assms(1) by (simp add: counts_ok_def)
      show "snd (uv' ! j) = int (logins (fst (uv' ! j)) ?cv)"
        using old drop [of "fst (uv ! j)"] apart [OF j] i Some j by (cases "j = i") auto
    qed
    moreover have "fst ` set uv' = fst ` set uv" using arg_cong [OF fsts, of set] by simp
    moreover have "distinct (map (fold_case \<circ> fst) uv')"
      using assms(1) arg_cong [OF fsts, of "map fold_case"] by (simp add: counts_ok_def)
    ultimately show ?thesis using assms(1) dist' by (auto simp: counts_ok_def)
  qed
qed

section \<open>Login and disconnect\<close>

lemma find_ups_SomeD:
  "find_ups us name = Some i \<Longrightarrow> i < length us \<and> same_nocase (ups_name (us ! i)) name"
  by (induction us arbitrary: i) (auto split: if_splits)

lemma find_ups_mem:
  "u \<in> set us \<Longrightarrow> same_nocase (ups_name u) name \<Longrightarrow> find_ups us name \<noteq> None"
  by (induction us) auto

lemma find_client_mem: "find_client cs cid = Some c \<Longrightarrow> c \<in> set cs \<and> cl_id c = cid"
  by (induction cs) (auto split: if_splits)

lemma client_at_view: "client_at w cid = Some c \<Longrightarrow> (cid, cl_loginups c) \<in> set (client_view w)"
  using find_client_mem [of "firstclient w" cid c] by (force simp: client_at_def client_view_def)

lemma find_client_None: "find_client cs cid = None \<longleftrightarrow> cid \<notin> cl_id ` set cs"
  by (induction cs) auto

lemma client_at_None: "client_at w cid = None \<longleftrightarrow> cid \<notin> fst ` set (client_view w)"
  by (simp add: client_at_def find_client_None client_view_def image_image)

lemma quiet_client_at: "quiet w w' \<Longrightarrow> client_at w' cid = None \<longleftrightarrow> client_at w cid = None"
  by (simp add: client_at_None quiet_def)

lemma ups_view_nth: "i < length (firstups w) \<Longrightarrow> ups_view w ! i = (ups_name (ups_at w i), ups_numlogins (ups_at w i))"
  by (simp add: ups_view_def ups_at_def)

lemma ups_view_numlogins:
  assumes "i < length (firstups w)"
  shows "ups_view (upd_ups i (\<lambda>u. u\<lparr>ups_numlogins := ups_numlogins u + d\<rparr>) w)
     = (ups_view w)[i := (fst (ups_view w ! i), snd (ups_view w ! i) + d)]"
  using assms by (simp add: ups_view_nth) (simp add: ups_view_def upd_ups_def ups_at_def map_update)

lemma numlogins_parts:
  "parts_wf w \<Longrightarrow> parts_wf (upd_ups i (\<lambda>u. u\<lparr>ups_numlogins := ups_numlogins u + d\<rparr>) w)"
proof (cases "i < length (firstups w)")
  case True
  assume "parts_wf w"
  then show ?thesis
    using True by (auto simp: parts_wf_def upd_ups_def ups_wf_def dest!: set_update_subset_insert [THEN subsetD])
qed (simp add: upd_ups_def list_update_beyond)

lemma net_login_cases:
  obtains (err) e where "net_login cid arg w = send_err cid e w"
    | (ok) i where "length arg = 1" "get_ups_ptr w (arg ! 0) = Some i" "c_loginups w cid = None"
      "user_checkaction (accounts w) (c_username w cid) (c_password w cid) ''LOGIN''"
      "net_login cid arg w = reply cid (line [''OK''])
         (upd_client cid (\<lambda>c. c\<lparr>cl_loginups := Some (ups_name (ups_at w i))\<rparr>)
           (upd_ups i (\<lambda>u. u\<lparr>ups_numlogins := ups_numlogins u + 1\<rparr>) w))"
proof (cases "get_ups_ptr w (arg ! 0)")
  case None
  show thesis
    by (rule err [of "if length arg \<noteq> 1 then ''INVALID-ARGUMENT''
          else if c_loginups w cid \<noteq> None then ''ALREADY-LOGGED-IN'' else ''UNKNOWN-UPS''"])
      (simp add: net_login_def None)
next
  case (Some i)
  then have "i < length (firstups w)" using find_ups_SomeD by (auto simp: get_ups_ptr_def)
  then have "ups_name (ups_at (upd_ups i (\<lambda>u. u\<lparr>ups_numlogins := ups_numlogins u + 1\<rparr>) w) i) = ups_name (ups_at w i)"
    by (simp add: ups_at_def upd_ups_def)
  note name = this
  let ?allowed = "user_checkaction (accounts w) (c_username w cid) (c_password w cid) ''LOGIN''"
  show thesis
  proof (cases "length arg = 1 \<and> c_loginups w cid = None \<and> ?allowed")
    case True
    then show thesis using ok [of i] name by (simp add: net_login_def Let_def Some)
  next
    case False
    show thesis
      by (rule err [of "if length arg \<noteq> 1 then ''INVALID-ARGUMENT''
            else if c_loginups w cid \<noteq> None then ''ALREADY-LOGGED-IN'' else ''ACCESS-DENIED''"])
        (use False in \<open>auto simp: net_login_def Some\<close>)
  qed
qed

lemma client_view_loginups:
  "client_view (upd_client cid (\<lambda>c. c\<lparr>cl_loginups := x\<rparr>) w) =
     map (\<lambda>p. if fst p = cid then (cid, x) else p) (client_view w)"
  by (simp add: client_view_def upd_client_def)

lemma client_view_upd_ups: "client_view (upd_ups i f w) = client_view w"
  by (simp add: client_view_def upd_ups_def)

lemma parts_wf_loginups:
  "parts_wf w \<Longrightarrow> parts_wf (upd_client cid (\<lambda>c. c\<lparr>cl_loginups := x\<rparr>) w)"
  by (auto simp: parts_wf_def upd_client_def)

lemma net_login_inv:
  assumes "world_inv w" and "client_at w cid \<noteq> None"
  shows "world_inv (net_login cid arg w)"
proof -
  show ?thesis
  proof (cases rule: net_login_cases [of cid arg w])
    case (err e)
    then show ?thesis using assms(1) quiet_inv [OF quiet_send_err] by simp
  next
    case (ok i)
    let ?w1 = "upd_ups i (\<lambda>u. u\<lparr>ups_numlogins := ups_numlogins u + 1\<rparr>) w"
    let ?w2 = "upd_client cid (\<lambda>c. c\<lparr>cl_loginups := Some (ups_name (ups_at w i))\<rparr>) ?w1"
    have i: "i < length (firstups w)" using ok(2) find_ups_SomeD by (auto simp: get_ups_ptr_def)
    then have iv: "i < length (ups_view w)" by (simp add: ups_view_def)
    obtain c where c: "client_at w cid = Some c" "cl_loginups c = None"
      using assms(2) ok(3) by (auto simp: c_loginups_def)
    have mem: "(cid, None) \<in> set (client_view w)" using client_at_view [OF c(1)] c(2) by simp
    have "ups_view ?w2 = (ups_view w)[i := (fst (ups_view w ! i), snd (ups_view w ! i) + 1)]"
      using ups_view_numlogins [OF i, of 1] by (simp add: upd_client_def ups_view_def)
    moreover have "client_view ?w2 =
        map (\<lambda>p. if fst p = cid then (cid, Some (fst (ups_view w ! i))) else p) (client_view w)"
      unfolding client_view_loginups client_view_upd_ups ups_view_nth [OF i] fst_conv ..
    ultimately have "counts_ok (ups_view ?w2) (client_view ?w2)"
      using counts_ok_login [OF _ iv mem] assms(1) by (simp add: world_inv_def)
    moreover have "parts_wf ?w2"
      using parts_wf_loginups [OF numlogins_parts [of w i 1]] assms(1) by (simp add: world_inv_def)
    ultimately have "world_inv ?w2" by (simp add: world_inv_def)
    then show ?thesis using ok(5) quiet_inv [OF quiet_reply] by simp
  qed
qed

lemma client_disconnect_inv:
  assumes "world_inv w"
  shows "world_inv (client_disconnect cid w)"
proof (cases "client_at w cid")
  case None
  then show ?thesis using assms by (simp add: client_disconnect_def)
next
  case (Some c)
  let ?w1 = "case cl_loginups c of None \<Rightarrow> w | Some n \<Rightarrow> declogins n w"
  have mem: "(cid, cl_loginups c) \<in> set (client_view w)" using Some by (rule client_at_view)
  have inv: "counts_ok (ups_view w) (client_view w)" "parts_wf w" using assms by (simp_all add: world_inv_def)
  have view: "client_view (client_disconnect cid w) = filter (\<lambda>p. fst p \<noteq> cid) (client_view w)"
    by (simp add: client_disconnect_def Some client_view_def declogins_def upd_ups_def filter_map comp_def
        split: option.split)
  have ups: "ups_view (client_disconnect cid w) = ups_view ?w1"
    by (simp add: client_disconnect_def Some ups_view_def Let_def)
  have dec: "case cl_loginups c of None \<Rightarrow> ups_view ?w1 = ups_view w | Some n \<Rightarrow>
      (\<exists>i < length (ups_view w). fst (ups_view w ! i) = n \<and> ups_view ?w1 = (ups_view w)[i := (n, snd (ups_view w ! i) - 1)])"
  proof (cases "cl_loginups c")
    case (Some n)
    then have "n \<in> fst ` set (ups_view w)" using inv(1) mem by (auto simp: counts_ok_def)
    then obtain u where u: "u \<in> set (firstups w)" "ups_name u = n" by (auto simp: ups_view_def)
    then obtain i where i: "get_ups_ptr w n = Some i"
      using find_ups_mem [of u "firstups w" n] by (auto simp: get_ups_ptr_def)
    then have il: "i < length (firstups w)" and same: "same_nocase (ups_name (ups_at w i)) n"
      using find_ups_SomeD by (auto simp: get_ups_ptr_def ups_at_def)
    obtain j where j: "j < length (firstups w)" "firstups w ! j = u" using u(1) by (auto simp: in_set_conv_nth)
    have "distinct (map (fold_case \<circ> ups_name) (firstups w))"
      using inv(1) by (simp add: counts_ok_def ups_view_def comp_def)
    then have "i = j" using il j u(2) same
      by (auto simp: same_nocase_iff ups_at_def distinct_conv_nth)
    then have name: "fst (ups_view w ! i) = n" using il j u by (simp add: ups_view_nth ups_at_def)
    have "ups_view (declogins n w) = (ups_view w)[i := (n, snd (ups_view w ! i) - 1)]"
      using ups_view_numlogins [OF il, of "- 1"] name by (simp add: declogins_def i)
    then show ?thesis using Some il name by (auto simp: ups_view_def)
  qed simp
  have "parts_wf (upd_ups i (\<lambda>u. u\<lparr>ups_numlogins := ups_numlogins u - 1\<rparr>) w)" for i
    using numlogins_parts [OF inv(2), of i "- 1"] by simp
  then have "parts_wf ?w1" using inv(2) by (simp add: declogins_def split: option.split)
  then have "parts_wf (client_disconnect cid w)"
    by (auto simp: client_disconnect_def Some parts_wf_def Let_def)
  then show ?thesis
    using counts_ok_drop [OF inv(1) mem dec] by (simp add: world_inv_def view ups)
qed

end
