(* ===== verification/Conf.thy ===== *)
theory Conf
  imports Upsd Str
begin

text \<open>
  The configuration of the data server (\<open>src/server/conf.c\<close> with the reader of
  \<open>src/common/upsconf.c\<close>): \<open>upsd.conf\<close>, \<open>ups.conf\<close>, and the reload on SIGHUP.

  The world of the server is the field \<open>srv\<close>. A file is given by the outcome of its
  \<open>fopen\<close>s: how many attempts fail for want of descriptors, then the content or an error.
  \<open>Exit\<close> is an exit of the process, \<open>Crash\<close> undefined behaviour of the C code.
\<close>

section \<open>State\<close>

record ups_t =
  ut_upsname :: cstring
  ut_driver :: "cstring option"
  ut_port :: "cstring option"
  ut_desc :: "cstring option"

record daemon =
  srv :: world
  upstable :: "ups_t list"
  num_ups :: nat
  debug_level_global :: int
  debug_level_args :: int
  debug_level :: int
  allow_no_device :: bool
  allow_not_all_listeners :: bool
  statepath :: cstring
  datapath :: cstring
  env_statepath :: "cstring option"

datatype stop = Exit | Crash

type_synonym run = "stop + daemon"

fun bind :: "run \<Rightarrow> (daemon \<Rightarrow> run) \<Rightarrow> run" where
  "bind (Inl e) f = Inl e"
| "bind (Inr d) f = f d"

definition NUT_PATH_MAX :: nat where "NUT_PATH_MAX = 4096"

section \<open>UPS devices\<close>

text \<open>\<open>res\<close> is how far connecting to the driver gets.\<close>

definition ups_create :: "connect_result \<Rightarrow> PCONF_CTX_t \<Rightarrow> cstring \<Rightarrow> cstring \<Rightarrow> cstring option \<Rightarrow> daemon \<Rightarrow> daemon" where
  "ups_create res junk fn name desc d =
     (if \<exists>u \<in> set (firstups (srv d)). same_nocase (ups_name u) name then d
      else
        case sstate_connect res (wall (srv d)) (clk (srv d)) (ups_new name fn desc junk) of
          (ok, u) \<Rightarrow>
            d\<lparr>srv := (srv d)\<lparr>firstups :=
                 u\<lparr>ups_connected := ok, ups_last_heard := wall (srv d)\<rparr> # firstups (srv d)\<rparr>,
              num_ups := num_ups d + 1\<rparr>)"

text \<open>A new state file forces a reconnect: what was learnt from the old driver is released.\<close>

definition redefine :: "cstring \<Rightarrow> upstype \<Rightarrow> upstype" where
  "redefine fn u =
     (if ups_fn u \<noteq> fn
      then (sstate_cmdfree (sstate_infofree u))
             \<lparr>ups_sock_ctx := pconf_finish (ups_sock_ctx u), ups_connected := False, ups_dumpdone := False, ups_fn := fn\<rparr>
      else u)"

definition ups_update :: "cstring \<Rightarrow> cstring \<Rightarrow> cstring option \<Rightarrow> daemon \<Rightarrow> daemon" where
  "ups_update fn name desc d =
     (case get_ups_ptr (srv d) name of
        None \<Rightarrow> d
      | Some i \<Rightarrow> d\<lparr>srv := upd_ups i (\<lambda>u. (redefine fn u)\<lparr>ups_desc := desc, ups_retain := True\<rparr>) (srv d)\<rparr>)"

text \<open>One entry of the table; \<open>conn\<close> answers for the sockets by name of the UPS.\<close>

definition add_entry :: "bool \<Rightarrow> PCONF_CTX_t \<Rightarrow> (cstring \<Rightarrow> connect_result) \<Rightarrow> ups_t \<Rightarrow> daemon \<Rightarrow> daemon" where
  "add_entry reloading junk conn tmp d =
     (case (ut_driver tmp, ut_port tmp) of
        (Some driver, Some port) \<Rightarrow>
          let statefn = snprintf NUT_PATH_MAX (driver @ ''-'' @ ut_upsname tmp) in
          if reloading \<and> get_ups_ptr (srv d) (ut_upsname tmp) \<noteq> None
          then ups_update statefn (ut_upsname tmp) (ut_desc tmp) d
          else ups_create (conn (ut_upsname tmp)) junk statefn (ut_upsname tmp) (ut_desc tmp) d
      | _ \<Rightarrow> d)"

definition upsconf_add :: "bool \<Rightarrow> PCONF_CTX_t \<Rightarrow> (cstring \<Rightarrow> connect_result) \<Rightarrow> daemon \<Rightarrow> daemon" where
  "upsconf_add reloading junk conn d =
     (foldl (\<lambda>s tmp. add_entry reloading junk conn tmp s) d (upstable d))\<lparr>upstable := []\<rparr>"

fun unlink_ups :: "cstring \<Rightarrow> upstype list \<Rightarrow> upstype list" where
  "unlink_ups name [] = []"
| "unlink_ups name (u # us) = (if ups_name u = name then us else u # unlink_ups name us)"

definition delete_ups :: "cstring \<Rightarrow> world \<Rightarrow> world" where
  "delete_ups name w = (let w1 = kick_login_clients name w in w1\<lparr>firstups := unlink_ups name (firstups w1)\<rparr>)"

section \<open>The file ups.conf\<close>

definition ups_setting :: "cstring \<Rightarrow> cstring option \<Rightarrow> ups_t \<Rightarrow> ups_t" where
  "ups_setting var val t =
     (if var = ''driver'' then t\<lparr>ut_driver := val\<rparr>
      else if var = ''port'' then t\<lparr>ut_port := val\<rparr>
      else if var = ''desc'' then t\<lparr>ut_desc := val\<rparr>
      else t)"

fun at_entry :: "cstring \<Rightarrow> (ups_t \<Rightarrow> ups_t) \<Rightarrow> ups_t list \<Rightarrow> ups_t list" where
  "at_entry name f [] = []"
| "at_entry name f (t # ts) = (if ut_upsname t = name then f t # ts else t # at_entry name f ts)"

text \<open>A flag has no value: a bare \<open>STATEPATH\<close> is compared or exported as a null pointer.\<close>

definition do_upsconf_args :: "cstring option \<Rightarrow> cstring \<Rightarrow> cstring option \<Rightarrow> daemon \<Rightarrow> run" where
  "do_upsconf_args upsname var val d =
     (case upsname of
        None \<Rightarrow>
          if same_nocase var ''STATEPATH'' then
            (case val of
               None \<Rightarrow> Inl Crash
             | Some v \<Rightarrow>
                 let sp = (case env_statepath d of Some e \<Rightarrow> e | None \<Rightarrow> v)
                 in Inr (d\<lparr>statepath := sp, env_statepath := Some sp\<rparr>))
          else Inr d
      | Some name \<Rightarrow>
          let table = (if \<exists>t \<in> set (upstable d). ut_upsname t = name then upstable d
                       else \<lparr>ut_upsname = name, ut_driver = None, ut_port = None, ut_desc = None\<rparr> # upstable d)
          in Inr (d\<lparr>upstable := at_entry name (ups_setting var val) table\<rparr>))"

text \<open>One line; the section it is in is the first component.\<close>

definition conf_args :: "cstring list \<Rightarrow> cstring option \<Rightarrow> daemon \<Rightarrow> cstring option \<times> run" where
  "conf_args arg section d =
     (case arg of
        [] \<Rightarrow> (section, Inr d)
      | a0 # rest \<Rightarrow>
          if a0 \<noteq> [] \<and> hd a0 = CHR ''['' \<and> last a0 = CHR '']'' then (Some (butlast (tl a0)), Inr d)
          else
            (section,
             case rest of
               [] \<Rightarrow> do_upsconf_args section a0 None d
             | [a1] \<Rightarrow> Inr d
             | a1 # a2 # left \<Rightarrow> if a1 = ''='' then do_upsconf_args section a0 (Some a2) d else Inr d))"

fun conf_lines :: "cstring list list \<Rightarrow> cstring option \<Rightarrow> daemon \<Rightarrow> run" where
  "conf_lines [] section d = Inr d"
| "conf_lines (l # ls) section d =
     (case conf_args l section d of (section1, r) \<Rightarrow> bind r (conf_lines ls section1))"

text \<open>\<open>Inl\<close> is the result \<open>-1\<close>, a file that cannot be opened.\<close>

definition read_upsconf ::
  "PCONF_CTX_t \<Rightarrow> cstring \<Rightarrow> bool \<Rightarrow> cstring + cstring \<Rightarrow> daemon \<Rightarrow> daemon + run" where
  "read_upsconf junk fn fatal_errors fopen d =
     (case conf_words junk fn fopen of
        None \<Rightarrow> Inr (Inr d)
      | Some (Inl err) \<Rightarrow> if fatal_errors then Inr (Inl Exit) else Inl d
      | Some (Inr ls) \<Rightarrow> Inr (conf_lines ls None d))"

section \<open>The file upsd.conf\<close>

definition parse_boolean :: "cstring \<Rightarrow> bool option" where
  "parse_boolean arg =
     (if same_nocase arg ''true'' \<or> same_nocase arg ''on'' \<or> same_nocase arg ''yes'' \<or> same_nocase arg ''1'' then Some True
      else if same_nocase arg ''false'' \<or> same_nocase arg ''off'' \<or> same_nocase arg ''no'' \<or> same_nocase arg ''0'' then Some False
      else None)"

definition starts_with_digit :: "cstring \<Rightarrow> bool" where
  "starts_with_digit s \<longleftrightarrow> s \<noteq> [] \<and> isdigit (hd s)"

text \<open>The two switches take a number, where anything but zero is true, or a boolean word.\<close>

definition switch :: "cstring \<Rightarrow> bool option" where
  "switch s = (if starts_with_digit s then Some (atoi s \<noteq> 0) else parse_boolean s)"

definition set_switch :: "bool option \<Rightarrow> (bool \<Rightarrow> daemon) \<Rightarrow> daemon \<Rightarrow> int \<times> daemon" where
  "set_switch v f d = (case v of None \<Rightarrow> (0, d) | Some b \<Rightarrow> (1, f b))"

text \<open>A count of seconds.\<close>

definition set_seconds :: "cstring \<Rightarrow> (int \<Rightarrow> world \<Rightarrow> world) \<Rightarrow> daemon \<Rightarrow> int \<times> daemon" where
  "set_seconds s f d =
     (if starts_with_digit s
      then (case str_to_int s 10 of Inr n \<Rightarrow> (1, d\<lparr>srv := f n (srv d)\<rparr>) | Inl e \<Rightarrow> (0, d))
      else (0, d))"

text \<open>
  One directive, in a build without SSL: 1 for usable, 0 for not, -1 for an invalid address.
  \<open>nut_port\<close> is the port of the build.
\<close>

definition parse_upsd_conf_args :: "cstring \<Rightarrow> cstring list \<Rightarrow> daemon \<Rightarrow> int \<times> daemon" where
  "parse_upsd_conf_args nut_port arg d =
     (if length arg < 2 then (0, d)
      else
        let a0 = arg ! 0; a1 = arg ! 1 in
        if same_nocase a0 ''DEBUG_MIN'' then
          (1, case str_to_int a1 10 of Inr lvl \<Rightarrow> if lvl \<ge> 0 then d\<lparr>debug_level_global := lvl\<rparr> else d | Inl e \<Rightarrow> d)
        else if a0 = ''MAXAGE'' then set_seconds a1 (\<lambda>n w. w\<lparr>maxage := n\<rparr>) d
        else if a0 = ''TRACKINGDELAY'' then set_seconds a1 (\<lambda>n w. w\<lparr>tracking_delay := n\<rparr>) d
        else if a0 = ''ALLOW_NO_DEVICE'' then set_switch (switch a1) (\<lambda>b. d\<lparr>allow_no_device := b\<rparr>) d
        else if a0 = ''ALLOW_NOT_ALL_LISTENERS'' then set_switch (switch a1) (\<lambda>b. d\<lparr>allow_not_all_listeners := b\<rparr>) d
        else if a0 = ''MAXCONN'' then
          (if starts_with_digit a1
           then (case str_to_long a1 10 of Inr l \<Rightarrow> (1, d\<lparr>srv := (srv d)\<lparr>maxconn := nat l\<rparr>\<rparr>) | Inl e \<Rightarrow> (0, d))
           else (0, d))
        else if a0 = ''STATEPATH'' then
          (1, d\<lparr>statepath := (case env_statepath d of Some sp \<Rightarrow> sp | None \<Rightarrow> a1)\<rparr>)
        else if a0 = ''DATAPATH'' then (1, d\<lparr>datapath := a1\<rparr>)
        else if a0 \<in> {''CERTREQUEST'', ''CERTPATH'', ''CERTIDENT'', ''CERTFILE'', ''DISABLE_WEAK_SSL''} then (0, d)
        else if a0 = ''ACCEPT'' \<or> a0 = ''REJECT'' then (1, d)
        else if a0 = ''LISTEN'' then
          (case str_split_listen a1 of
             None \<Rightarrow> (- 1, d)
           | Some (address, port) \<Rightarrow>
               if port \<noteq> None \<and> length arg \<ge> 3 then (- 1, d)
               else (1, d\<lparr>srv := listen_add address
                           (if length arg \<ge> 3 then arg ! 2 else case port of Some p \<Rightarrow> p | None \<Rightarrow> nut_port) (srv d)\<rparr>))
        else if length arg < 3 then (0, d)
        else if a0 = ''ACL'' then (1, d)
        else (0, d))"

text \<open>The directives of a file; the number counts the invalid addresses.\<close>

fun upsd_conf_lines :: "cstring \<Rightarrow> cstring list list \<Rightarrow> nat \<Rightarrow> daemon \<Rightarrow> nat \<times> daemon" where
  "upsd_conf_lines nut_port [] listen_errors d = (listen_errors, d)"
| "upsd_conf_lines nut_port (l # ls) listen_errors d =
     (if l = [] then upsd_conf_lines nut_port ls listen_errors d
      else case parse_upsd_conf_args nut_port l d of
        (parsed, d1) \<Rightarrow> upsd_conf_lines nut_port ls (if parsed < 0 then listen_errors + 1 else listen_errors) d1)"

type_synonym file_try = "nat \<times> (cstring + cstring)"

definition close_oldest_client :: "world \<Rightarrow> world" where
  "close_oldest_client w =
     (case foldl (\<lambda>oldest c. case oldest of
               None \<Rightarrow> Some c
             | Some o1 \<Rightarrow> if cl_last_heard c < cl_last_heard o1 then Some c else Some o1) None (firstclient w) of
        None \<Rightarrow> w
      | Some c \<Rightarrow> client_disconnect (cl_id c) w)"

definition on_srv :: "(world \<Rightarrow> world) \<Rightarrow> daemon \<Rightarrow> daemon" where
  "on_srv f d = d\<lparr>srv := f (srv d)\<rparr>"

text \<open>\<open>reloading\<close> is 0 for the start and 2 for a reload, which may close clients to get a descriptor.\<close>

definition load_upsdconf ::
  "cstring \<Rightarrow> PCONF_CTX_t \<Rightarrow> cstring \<Rightarrow> file_try \<Rightarrow> int \<Rightarrow> daemon \<Rightarrow> run" where
  "load_upsdconf nut_port junk fn file reloading d =
     (let d1 = (if reloading = 2 then on_srv (close_oldest_client ^^ fst file) d else d);
          failed = (if reloading = 2 then False else fst file > 0)
      in case conf_words junk fn (if failed then Inl ''Too many open files'' else snd file) of
           None \<Rightarrow> Inr d1
         | Some (Inl err) \<Rightarrow> if reloading = 0 then Inl Exit else Inr d1
         | Some (Inr ls) \<Rightarrow>
             let d2 = (if reloading \<noteq> 0 then d1\<lparr>debug_level_global := - 1\<rparr> else d1) in
             (case upsd_conf_lines nut_port ls 0 d2 of
                (listen_errors, d3) \<Rightarrow>
                  let d4 = (if reloading \<noteq> 0
                            then d3\<lparr>debug_level := (if debug_level_global d3 > - 1 then debug_level_global d3
                                                   else debug_level_args d3)\<rparr>
                            else d3)
                  in if listen_errors > 0 \<and> reloading = 0 then Inl Exit else Inr d4))"

section \<open>Reload\<close>

definition load_upsconf :: "PCONF_CTX_t \<Rightarrow> cstring \<Rightarrow> file_try \<Rightarrow> int \<Rightarrow> daemon \<Rightarrow> run" where
  "load_upsconf junk fn file reloading d =
     (case read_upsconf junk fn False (if fst file > 0 then Inl ''Too many open files'' else snd file) d of
        Inr r \<Rightarrow> r
      | Inl d1 \<Rightarrow>
          if fst file > 0 \<and> reloading = 2
          then (case read_upsconf junk fn True (if fst file > 1 then Inl ''Too many open files'' else snd file)
                       (on_srv close_oldest_client d1) of
                  Inr r \<Rightarrow> r
                | Inl d2 \<Rightarrow> Inr d2)
          else Inl Exit)"

text \<open>Whether a file can be opened, with ten retries.\<close>

definition check_file :: "nat \<times> bool \<Rightarrow> daemon \<Rightarrow> bool \<times> daemon" where
  "check_file file d =
     (if fst file \<le> 10 then (snd file, on_srv (close_oldest_client ^^ fst file) d)
      else (False, on_srv (close_oldest_client ^^ 10) d))"

text \<open>What the environment answers during a reload.\<close>

record reload_env =
  re_port :: cstring
  re_junk :: PCONF_CTX_t
  re_path :: cstring
  re_upsd_check :: "nat \<times> bool"
  re_upsconf :: file_try
  re_upsdconf :: file_try
  re_users_check :: "nat \<times> bool"
  re_users :: "cstring + cstring"
  re_connect :: "cstring \<Rightarrow> connect_result"

definition conf_file :: "reload_env \<Rightarrow> cstring \<Rightarrow> cstring" where
  "conf_file e name = snprintf NUT_PATH_MAX (re_path e @ ''/'' @ name)"

text \<open>The names of the devices that were not in the new configuration.\<close>

definition not_retained :: "world \<Rightarrow> cstring list" where
  "not_retained w = map ups_name (filter (\<lambda>u. \<not> ups_retain u) (firstups w))"

definition delete_unretained :: "world \<Rightarrow> world" where
  "delete_unretained w = foldl (\<lambda>s name. delete_ups name s) w (not_retained w)"

definition reload_users :: "reload_env \<Rightarrow> daemon \<Rightarrow> daemon" where
  "reload_users e d =
     (case user_load (re_junk e) (conf_file e ''upsd.users'') (re_users e) (user_flush (accounts (srv d))) of
        None \<Rightarrow> d
      | Some st \<Rightarrow> d\<lparr>srv := (srv d)\<lparr>accounts := st\<rparr>\<rparr>)"

definition reset_retain :: "world \<Rightarrow> world" where
  "reset_retain w = w\<lparr>firstups := map (\<lambda>u. u\<lparr>ups_retain := False\<rparr>) (firstups w)\<rparr>"

definition conf_reload :: "reload_env \<Rightarrow> daemon \<Rightarrow> run" where
  "conf_reload e d =
     (case check_file (re_upsd_check e) d of
        (False, d1) \<Rightarrow> Inr d1
      | (True, d1) \<Rightarrow>
          bind (load_upsconf (re_junk e) (conf_file e ''ups.conf'') (re_upsconf e) 2 (on_srv reset_retain d1))
            (\<lambda>d2. bind (load_upsdconf (re_port e) (re_junk e) (conf_file e ''upsd.conf'') (re_upsdconf e) 2
                          (upsconf_add True (re_junk e) (re_connect e) d2))
              (\<lambda>d3.
                 case check_file (re_users_check e) (on_srv delete_unretained d3) of
                   (False, d4) \<Rightarrow> Inr d4
                 | (True, d4) \<Rightarrow> Inr (reload_users e d4))))"

text \<open>The start: \<open>read_upsconf(1)\<close> and \<open>upsconf_add(0)\<close> of \<open>main\<close>, with the test that follows.\<close>

definition initial_devices :: "PCONF_CTX_t \<Rightarrow> cstring \<Rightarrow> cstring + cstring \<Rightarrow> (cstring \<Rightarrow> connect_result) \<Rightarrow> daemon \<Rightarrow> run" where
  "initial_devices junk fn fopen conn d =
     (case read_upsconf junk fn True fopen d of
        Inl d1 \<Rightarrow> Inr d1
      | Inr r \<Rightarrow>
          bind r (\<lambda>d1. let d2 = upsconf_add False junk conn d1 in
            if num_ups d2 = 0 \<and> \<not> allow_no_device d2 then Inl Exit else Inr d2))"

end
