(* ===== verification/ConfInv.thy ===== *)
theory ConfInv
  imports UpsdInv Conf
begin

text \<open>
  What a reload of the configuration does to the server: it keeps the invariant of the world,
  and it changes exactly what the new files say.
\<close>

section \<open>Dropping clients\<close>

lemma fold_disconnect_inv:
  "world_inv w \<Longrightarrow> world_inv (foldl (\<lambda>s c. if P c then client_disconnect (cl_id c) s else s) w cs)"
  by (induction cs arbitrary: w) (simp_all add: client_disconnect_inv)

lemma kick_login_clients_inv: "world_inv w \<Longrightarrow> world_inv (kick_login_clients n w)"
  unfolding kick_login_clients_def by (rule fold_disconnect_inv)

section \<open>Devices come and go\<close>

lemma sstate_connect_frame [simp]:
  "ups_name (snd (sstate_connect res now k u)) = ups_name u"
  "ups_numlogins (snd (sstate_connect res now k u)) = ups_numlogins u"
  by (simp_all add: sstate_connect_def split: connect_result.split)

lemma reconnected_wf:
  assumes "ups_wf u"
  shows "ups_wf (if ups_connected u then u
     else case sstate_connect res now k u of (ok, u1) \<Rightarrow> u1\<lparr>ups_connected := ok\<rparr>)"
proof (cases "ups_connected u")
  case False
  obtain ok u1 where c: "sstate_connect res now k u = (ok, u1)" by fastforce
  show ?thesis
  proof (cases ok)
    case True
    then show ?thesis using sstate_connect_wf [OF assms] c False by simp
  next
    case no: False
    then show ?thesis
      using c False assms by (auto simp: sstate_connect_def ups_wf_def split: connect_result.splits if_splits)
  qed
qed (use assms in simp)

text \<open>A new device at the head of the list, with a name that is not in use.\<close>

lemma new_device_inv:
  assumes "world_inv w" and "\<forall>v \<in> set (firstups w). \<not> same_nocase (ups_name v) (ups_name u)"
    and "ups_numlogins u = 0" and "ups_wf u"
  shows "world_inv (w\<lparr>firstups := u # firstups w\<rparr>)"
proof -
  have c: "counts_ok (ups_view w) (client_view w)" using assms(1) by (simp add: world_inv_def)
  have fresh: "fold_case (ups_name u) \<notin> (fold_case \<circ> fst) ` set (ups_view w)"
    using assms(2) by (auto simp: ups_view_def same_nocase_iff)
  then have "ups_name u \<notin> fst ` set (ups_view w)" by force
  then have "logins (ups_name u) (client_view w) = 0"
    using c by (fastforce simp: logins_def counts_ok_def filter_empty_conv)
  then have "\<forall>i < Suc (length (ups_view w)). snd (((ups_name u, 0) # ups_view w) ! i)
      = int (logins (fst (((ups_name u, 0) # ups_view w) ! i)) (client_view w))"
    using c by (auto simp: counts_ok_def nth_Cons split: nat.split)
  then have "counts_ok ((ups_name u, 0) # ups_view w) (client_view w)"
    using c fresh by (auto simp: counts_ok_def)
  then show ?thesis
    using assms by (simp add: world_inv_def parts_wf_def ups_view_def client_view_def)
qed

lemma ups_create_inv:
  assumes "world_inv (srv d)"
  shows "world_inv (srv (ups_create res junk fn name desc d))"
proof (cases "\<exists>u \<in> set (firstups (srv d)). same_nocase (ups_name u) name")
  case True
  then show ?thesis using assms by (simp add: ups_create_def)
next
  case False
  let ?n = "ups_new name fn desc junk"
  obtain ok u where c: "sstate_connect res (wall (srv d)) (clk (srv d)) ?n = (ok, u)" by fastforce
  have n: "ups_wf ?n" "\<not> ups_connected ?n" by (simp_all add: ups_new_def ups_wf_def)
  have "ups_wf (u\<lparr>ups_connected := ok\<rparr>)"
    using reconnected_wf [OF n(1), of res "wall (srv d)" "clk (srv d)"] n(2) c by simp
  then have wf: "ups_wf (u\<lparr>ups_connected := ok, ups_last_heard := wall (srv d)\<rparr>)" by (simp add: ups_wf_def)
  have "ups_name ?n = name" "ups_numlogins ?n = 0" by (simp_all add: ups_new_def)
  then have "ups_name u = name" "ups_numlogins u = 0"
    using sstate_connect_frame [of res "wall (srv d)" "clk (srv d)" ?n] unfolding c by simp_all
  then show ?thesis
    using False c new_device_inv [OF assms, of "u\<lparr>ups_connected := ok, ups_last_heard := wall (srv d)\<rparr>"] wf
    by (simp add: ups_create_def)
qed

lemma redefine_frame [simp]:
  "ups_name (redefine fn u) = ups_name u" "ups_numlogins (redefine fn u) = ups_numlogins u"
  by (simp_all add: redefine_def sstate_infofree_def sstate_cmdfree_def)

lemma redefine_wf: "ups_wf u \<Longrightarrow> ups_wf (redefine fn u)"
  by (simp add: redefine_def sstate_infofree_def sstate_cmdfree_def ups_wf_def)

lemma ups_update_inv:
  assumes "world_inv (srv d)"
  shows "world_inv (srv (ups_update fn name desc d))"
proof (cases "get_ups_ptr (srv d) name")
  case (Some i)
  have wf: "ups_wf (u\<lparr>ups_desc := desc, ups_retain := True\<rparr>) = ups_wf u" for u by (simp add: ups_wf_def)
  have "quiet (srv d) (upd_ups i (\<lambda>u. (redefine fn u)\<lparr>ups_desc := desc, ups_retain := True\<rparr>) (srv d))"
    by (rule quiet_upd_ups) (simp_all add: wf redefine_wf)
  then show ?thesis using quiet_inv [OF _ assms] Some by (simp add: ups_update_def)
qed (use assms in \<open>simp add: ups_update_def\<close>)

lemma add_entry_inv: "world_inv (srv d) \<Longrightarrow> world_inv (srv (add_entry reloading junk conn t d))"
  by (auto simp: add_entry_def Let_def ups_create_inv ups_update_inv split: option.split)

lemma upsconf_add_inv:
  assumes "world_inv (srv d)"
  shows "world_inv (srv (upsconf_add reloading junk conn d))"
proof -
  have "world_inv (srv (foldl (\<lambda>s t. add_entry reloading junk conn t s) d ts))" for ts
    using assms by (induction ts arbitrary: d) (simp_all add: add_entry_inv)
  then show ?thesis by (simp add: upsconf_add_def)
qed

section \<open>Deleting a device\<close>

text \<open>Two lists of devices that differ at most in the one called \<open>n\<close>.\<close>

definition same_but :: "cstring \<Rightarrow> upstype list \<Rightarrow> upstype list \<Rightarrow> bool" where
  "same_but n us vs \<longleftrightarrow> list_all2 (\<lambda>u v. ups_name u = ups_name v \<and> (ups_name u \<noteq> n \<longrightarrow> u = v)) us vs"

lemma same_but_refl [simp]: "same_but n us us"
  by (simp add: same_but_def list_all2_same)

lemma same_but_trans: "same_but n us vs \<Longrightarrow> same_but n vs ws \<Longrightarrow> same_but n us ws"
  unfolding same_but_def list_all2_conv_all_nth by metis

lemma same_but_unlink: "same_but n us vs \<Longrightarrow> distinct (map ups_name us) \<Longrightarrow> unlink_ups n us = unlink_ups n vs"
proof (induction us arbitrary: vs)
  case (Cons u us)
  then obtain v ws where v: "vs = v # ws" "ups_name u = ups_name v" "ups_name u \<noteq> n \<longrightarrow> u = v" "same_but n us ws"
    by (auto simp: same_but_def list_all2_Cons1)
  show ?case
  proof (cases "ups_name u = n")
    case True
    then have "n \<notin> ups_name ` set us" using Cons.prems(2) by simp
    then have "\<forall>x \<in> set us. ups_name x \<noteq> n" by blast
    have "us = ws"
    proof (rule nth_equalityI)
      show "length us = length ws" using v(4) by (simp add: same_but_def list_all2_lengthD)
      fix i assume i: "i < length us"
      then have "ups_name (us ! i) \<noteq> n" using \<open>\<forall>x \<in> set us. ups_name x \<noteq> n\<close> nth_mem by blast
      then show "us ! i = ws ! i" using v(4) i unfolding same_but_def list_all2_conv_all_nth by blast
    qed
    then show ?thesis using v True by simp
  next
    case False
    then have "u = v" using v(3) by blast
    then show ?thesis using Cons.IH [OF v(4)] Cons.prems(2) v(1) False by simp
  qed
qed (simp add: same_but_def)

lemma distinct_names: "world_inv w \<Longrightarrow> distinct (map (fold_case \<circ> ups_name) (firstups w))"
  by (simp add: world_inv_def counts_ok_def ups_view_def comp_def)

lemma distinct_exact: "distinct (map (fold_case \<circ> ups_name) us) \<Longrightarrow> distinct (map ups_name us)"
  using distinct_map [of fold_case "map ups_name us"] by simp

lemma declogins_same_but:
  assumes "distinct (map (fold_case \<circ> ups_name) (firstups w))" and "n \<in> ups_name ` set (firstups w)"
  shows "same_but n (firstups w) (firstups (declogins n w))"
proof (cases "get_ups_ptr w n")
  case None
  then show ?thesis by (simp add: declogins_def)
next
  case (Some i)
  then have i: "i < length (firstups w)" "same_nocase (ups_name (firstups w ! i)) n"
    using find_ups_SomeD by (auto simp: get_ups_ptr_def)
  obtain j where j: "j < length (firstups w)" "ups_name (firstups w ! j) = n"
    using assms(2) by (auto simp: in_set_conv_nth)
  then have "i = j" using assms(1) i by (auto simp: distinct_conv_nth same_nocase_iff)
  then have "firstups (declogins n w) ! k = firstups w ! k \<or> k = i" for k
    using Some i by (cases "k = i") (simp_all add: declogins_def upd_ups_def)
  moreover have "length (firstups (declogins n w)) = length (firstups w)"
    "ups_name (firstups (declogins n w) ! i) = n" "ups_name (firstups w ! i) = n"
    using Some i j \<open>i = j\<close> by (simp_all add: declogins_def upd_ups_def)
  ultimately show ?thesis unfolding same_but_def list_all2_conv_all_nth by metis
qed

lemma declogins_frame:
  "firstclient (declogins n w) = firstclient w" "declogins n w = w\<lparr>firstups := firstups (declogins n w)\<rparr>"
  by (simp_all add: declogins_def upd_ups_def split: option.split)

text \<open>Kicking drops the clients of the device and changes nothing but its own counter.\<close>

lemma kick_fold:
  assumes "distinct (map (fold_case \<circ> ups_name) (firstups w))" and "n \<in> ups_name ` set (firstups w)"
    and "distinct (map cl_id cs)" and "set cs \<subseteq> set (firstclient w)" and "distinct (map cl_id (firstclient w))"
  shows "\<exists>us. same_but n (firstups w) us \<and>
     foldl (\<lambda>s c. if cl_loginups c = Some n then client_disconnect (cl_id c) s else s) w cs =
     w\<lparr>firstups := us, firstclient := filter (\<lambda>c. \<not> (c \<in> set cs \<and> cl_loginups c = Some n)) (firstclient w)\<rparr>"
  using assms
proof (induction cs arbitrary: w)
  case Nil
  then show ?case by (intro exI [of _ "firstups w"]) simp
next
  case (Cons c cs)
  show ?case
  proof (cases "cl_loginups c = Some n")
    case False
    then have "filter (\<lambda>x. \<not> (x \<in> set (c # cs) \<and> cl_loginups x = Some n)) (firstclient w)
        = filter (\<lambda>x. \<not> (x \<in> set cs \<and> cl_loginups x = Some n)) (firstclient w)" by (auto intro: filter_cong)
    then show ?thesis using False Cons.IH [of w] Cons.prems by simp
  next
    case True
    have at: "client_at w (cl_id c) = Some c"
    proof -
      have "find_client ds (cl_id c) = Some c" if "c \<in> set ds" "distinct (map cl_id ds)" for ds
        using that by (induction ds) auto
      then show ?thesis using Cons.prems(4,5) by (simp add: client_at_def)
    qed
    let ?w1 = "client_disconnect (cl_id c) w"
    have w1: "?w1 = w\<lparr>firstups := firstups (declogins n w), firstclient := filter (\<lambda>x. cl_id x \<noteq> cl_id c) (firstclient w)\<rparr>"
      using declogins_frame [of n w] by (simp add: client_disconnect_def at True)
    have sb: "same_but n (firstups w) (firstups ?w1)" using declogins_same_but [OF Cons.prems(1,2)] w1 by simp
    have names: "map ups_name (firstups ?w1) = map ups_name (firstups w)"
      using sb by (auto simp: same_but_def list_all2_conv_all_nth intro: nth_equalityI)
    have d1: "distinct (map (fold_case \<circ> ups_name) (firstups ?w1))" and n1: "n \<in> ups_name ` set (firstups ?w1)"
      using Cons.prems(1,2) arg_cong [OF names, of "map fold_case"] arg_cong [OF names, of set] by (simp_all add: comp_def)
    have "\<forall>x \<in> set cs. cl_id x \<noteq> cl_id c" using Cons.prems(3) by (metis distinct.simps(2) image_eqI list.simps(9) set_map)
    then have s1: "set cs \<subseteq> set (firstclient ?w1)" using Cons.prems(4) w1 by auto
    have d2: "distinct (map cl_id (firstclient ?w1))"
      using Cons.prems(5) w1 by (simp add: distinct_map_filter)
    have "distinct (map cl_id cs)" using Cons.prems(3) by simp
    from Cons.IH [OF d1 n1 this s1 d2] obtain us where us: "same_but n (firstups ?w1) us"
      "foldl (\<lambda>s c. if cl_loginups c = Some n then client_disconnect (cl_id c) s else s) ?w1 cs =
       ?w1\<lparr>firstups := us, firstclient := filter (\<lambda>c. \<not> (c \<in> set cs \<and> cl_loginups c = Some n)) (firstclient ?w1)\<rparr>"
      by blast
    have "x = c" if "x \<in> set (firstclient w)" "cl_id x = cl_id c" for x
      using Cons.prems(4,5) that by (auto simp: distinct_map inj_on_def)
    then have "filter (\<lambda>x. \<not> (x \<in> set cs \<and> cl_loginups x = Some n)) (firstclient ?w1)
        = filter (\<lambda>x. \<not> (x \<in> set (c # cs) \<and> cl_loginups x = Some n)) (firstclient w)"
      using True w1 by (auto intro!: filter_cong)
    then show ?thesis
      using us same_but_trans [OF sb us(1)] True by (intro exI [of _ us]) (simp add: w1)
  qed
qed

lemma delete_ups_spec:
  assumes "distinct (map (fold_case \<circ> ups_name) (firstups w))" and "n \<in> ups_name ` set (firstups w)"
    and "distinct (map cl_id (firstclient w))"
  shows "delete_ups n w = w\<lparr>firstups := unlink_ups n (firstups w), firstclient := filter (\<lambda>c. cl_loginups c \<noteq> Some n) (firstclient w)\<rparr>"
proof -
  obtain us where us: "same_but n (firstups w) us"
    "kick_login_clients n w = w\<lparr>firstups := us, firstclient := filter (\<lambda>c. \<not> (c \<in> set (firstclient w) \<and> cl_loginups c = Some n)) (firstclient w)\<rparr>"
    using kick_fold [OF assms(1,2,3) _ assms(3)] unfolding kick_login_clients_def by auto
  have "filter (\<lambda>c. \<not> (c \<in> set (firstclient w) \<and> cl_loginups c = Some n)) (firstclient w)
      = filter (\<lambda>c. cl_loginups c \<noteq> Some n) (firstclient w)" by (auto intro: filter_cong)
  then show ?thesis
    using us same_but_unlink [OF us(1) distinct_exact [OF assms(1)]] by (simp add: delete_ups_def)
qed

lemma unlink_filter: "distinct (map ups_name us) \<Longrightarrow> unlink_ups n us = filter (\<lambda>u. ups_name u \<noteq> n) us"
proof (induction us)
  case (Cons u us)
  show ?case
  proof (cases "ups_name u = n")
    case True
    then have "n \<notin> ups_name ` set us" using Cons.prems by simp
    then have "filter (\<lambda>u. ups_name u \<noteq> n) us = us" by (auto simp: filter_id_conv)
    then show ?thesis using True by simp
  next
    case False
    then show ?thesis using Cons by simp
  qed
qed simp

lemma delete_fold:
  assumes "distinct (map (fold_case \<circ> ups_name) (firstups w))" and "distinct (map cl_id (firstclient w))"
    and "distinct ns" and "set ns \<subseteq> ups_name ` set (firstups w)"
  shows "foldl (\<lambda>s n. delete_ups n s) w ns =
     w\<lparr>firstups := filter (\<lambda>u. ups_name u \<notin> set ns) (firstups w),
       firstclient := filter (\<lambda>c. \<forall>n \<in> set ns. cl_loginups c \<noteq> Some n) (firstclient w)\<rparr>"
  using assms
proof (induction ns arbitrary: w)
  case (Cons n ns)
  let ?w1 = "delete_ups n w"
  have n: "n \<in> ups_name ` set (firstups w)" using Cons.prems(4) by simp
  have w1: "?w1 = w\<lparr>firstups := filter (\<lambda>u. ups_name u \<noteq> n) (firstups w), firstclient := filter (\<lambda>c. cl_loginups c \<noteq> Some n) (firstclient w)\<rparr>"
    using delete_ups_spec [OF Cons.prems(1) n Cons.prems(2)] unlink_filter [OF distinct_exact [OF Cons.prems(1)]] by simp
  have d1: "distinct (map (fold_case \<circ> ups_name) (firstups ?w1))" and d2: "distinct (map cl_id (firstclient ?w1))"
    using distinct_map_filter [OF Cons.prems(1)] distinct_map_filter [OF Cons.prems(2)] by (simp_all add: w1 comp_def)
  have "ups_name ` set (firstups ?w1) = ups_name ` set (firstups w) - {n}" by (auto simp: w1)
  then have sub: "set ns \<subseteq> ups_name ` set (firstups ?w1)" using Cons.prems(3,4) by auto
  have "distinct ns" using Cons.prems(3) by simp
  from Cons.IH [OF d1 d2 this sub] have "foldl (\<lambda>s n. delete_ups n s) ?w1 ns =
     ?w1\<lparr>firstups := filter (\<lambda>u. ups_name u \<notin> set ns) (firstups ?w1),
       firstclient := filter (\<lambda>c. \<forall>n \<in> set ns. cl_loginups c \<noteq> Some n) (firstclient ?w1)\<rparr>" .
  then show ?case by (simp add: w1 conj_commute)
qed simp

lemma client_ids: "world_inv w \<Longrightarrow> distinct (map cl_id (firstclient w))"
  by (simp add: world_inv_def counts_ok_def client_view_def comp_def)

lemma delete_unretained_spec:
  assumes "world_inv w"
  shows "delete_unretained w =
     w\<lparr>firstups := filter ups_retain (firstups w),
       firstclient := filter (\<lambda>c. \<forall>n \<in> set (not_retained w). cl_loginups c \<noteq> Some n) (firstclient w)\<rparr>"
proof -
  have d: "distinct (map ups_name (firstups w))" using distinct_exact [OF distinct_names [OF assms]] .
  have nd: "distinct (not_retained w)" "set (not_retained w) \<subseteq> ups_name ` set (firstups w)"
    using d by (auto simp: not_retained_def distinct_map_filter)
  have "ups_name u \<notin> set (not_retained w) \<longleftrightarrow> ups_retain u" if "u \<in> set (firstups w)" for u
    using d that by (auto simp: not_retained_def distinct_map inj_on_def)
  then have "filter (\<lambda>u. ups_name u \<notin> set (not_retained w)) (firstups w) = filter ups_retain (firstups w)"
    by (intro filter_cong) auto
  then show ?thesis
    using delete_fold [OF distinct_names [OF assms] client_ids [OF assms] nd] by (simp add: delete_unretained_def)
qed

lemma counts_ok_alt:
  "counts_ok uv cv \<longleftrightarrow> distinct (map (fold_case \<circ> fst) uv) \<and> distinct (map fst cv) \<and>
     (\<forall>p \<in> set uv. snd p = int (logins (fst p) cv)) \<and> (\<forall>p \<in> set cv. \<forall>n. snd p = Some n \<longrightarrow> n \<in> fst ` set uv)"
  by (simp add: counts_ok_def all_set_conv_all_nth)

lemma delete_ups_inv:
  assumes "world_inv w" and "n \<in> ups_name ` set (firstups w)"
  shows "world_inv (delete_ups n w)"
proof -
  have c: "counts_ok (ups_view w) (client_view w)" and wf: "parts_wf w" using assms(1) by (simp_all add: world_inv_def)
  have d: "delete_ups n w = w\<lparr>firstups := filter (\<lambda>u. ups_name u \<noteq> n) (firstups w), firstclient := filter (\<lambda>c. cl_loginups c \<noteq> Some n) (firstclient w)\<rparr>"
    using delete_ups_spec [OF distinct_names [OF assms(1)] assms(2) client_ids [OF assms(1)]]
      unlink_filter [OF distinct_exact [OF distinct_names [OF assms(1)]]] by simp
  let ?uv = "filter (\<lambda>p. fst p \<noteq> n) (ups_view w)" and ?cv = "filter (\<lambda>p. snd p \<noteq> Some n) (client_view w)"
  have "ups_view (delete_ups n w) = ?uv" "client_view (delete_ups n w) = ?cv"
    by (simp_all add: d ups_view_def client_view_def filter_map comp_def)
  moreover have "counts_ok ?uv ?cv"
  proof -
    have "logins m ?cv = logins m (client_view w)" if "m \<noteq> n" for m
    proof -
      have "(snd p \<noteq> Some n \<and> snd p = Some m) = (snd p = Some m)" for p :: "nat \<times> cstring option" using that by auto
      then show ?thesis by (simp add: logins_def)
    qed
    then have "\<forall>p \<in> set ?uv. snd p = int (logins (fst p) ?cv)"
      using c by (simp add: counts_ok_alt)
    moreover have "\<forall>p \<in> set ?cv. \<forall>m. snd p = Some m \<longrightarrow> m \<in> fst ` set ?uv"
      using c by (fastforce simp: counts_ok_alt)
    moreover have "distinct (map (fold_case \<circ> fst) ?uv)" "distinct (map fst ?cv)"
      using c by (intro distinct_map_filter; simp only: counts_ok_alt)+
    ultimately show ?thesis unfolding counts_ok_alt by blast
  qed
  moreover have "parts_wf (delete_ups n w)" using wf by (auto simp: d parts_wf_def)
  ultimately show ?thesis by (simp add: world_inv_def)
qed

lemma delete_unretained_inv:
  assumes "world_inv w"
  shows "world_inv (delete_unretained w)"
proof -
  have "world_inv (foldl (\<lambda>s n. delete_ups n s) v ns)"
    if "world_inv v" "distinct ns" "set ns \<subseteq> ups_name ` set (firstups v)" for v ns
    using that
  proof (induction ns arbitrary: v)
    case (Cons n ns)
    have n: "n \<in> ups_name ` set (firstups v)" using Cons.prems(3) by simp
    have "firstups (delete_ups n v) = filter (\<lambda>u. ups_name u \<noteq> n) (firstups v)"
      using delete_ups_spec [OF distinct_names [OF Cons.prems(1)] n client_ids [OF Cons.prems(1)]]
        unlink_filter [OF distinct_exact [OF distinct_names [OF Cons.prems(1)]]] by simp
    then have "ups_name ` set (firstups (delete_ups n v)) = ups_name ` set (firstups v) - {n}" by auto
    then have "set ns \<subseteq> ups_name ` set (firstups (delete_ups n v))" using Cons.prems(2,3) by auto
    then show ?case using Cons.IH [OF delete_ups_inv [OF Cons.prems(1) n]] Cons.prems(2) by simp
  qed simp
  moreover have "distinct (not_retained w)" "set (not_retained w) \<subseteq> ups_name ` set (firstups w)"
    using distinct_exact [OF distinct_names [OF assms]] by (auto simp: not_retained_def distinct_map_filter)
  ultimately show ?thesis using assms by (simp add: delete_unretained_def)
qed

section \<open>The files\<close>

text \<open>Directives change neither devices nor clients nor accounts.\<close>

definition settings_only :: "world \<Rightarrow> world \<Rightarrow> bool" where
  "settings_only w w' \<longleftrightarrow> firstups w' = firstups w \<and> firstclient w' = firstclient w \<and> accounts w' = accounts w
     \<and> wall w' = wall w \<and> clk w' = clk w"

lemma settings_refl [simp]: "settings_only w w"
  by (simp add: settings_only_def)

lemma settings_trans: "settings_only a b \<Longrightarrow> settings_only b c \<Longrightarrow> settings_only a c"
  by (simp add: settings_only_def)

lemma settings_inv: "settings_only w w' \<Longrightarrow> world_inv w \<Longrightarrow> world_inv w'"
  using quiet_inv quiet_cong by (auto simp: settings_only_def)

lemma parse_upsd_conf_args_settings: "settings_only (srv d) (srv (snd (parse_upsd_conf_args p arg d)))"
proof -
  have secs: "settings_only (srv d) (srv (snd (set_seconds s f d)))"
    if "\<And>n. settings_only (srv d) (f n (srv d))" for s f
    using that by (simp add: set_seconds_def split: sum.split)
  have sw: "settings_only (srv d) (srv (snd (set_switch v f d)))" if "\<And>b. srv (f b) = srv d" for v f
    using that by (simp add: set_switch_def split: option.split)
  have la: "settings_only (srv d) (listen_add a b (srv d))" for a b
    by (simp add: listen_add_def settings_only_def)
  have upd: "settings_only w (w\<lparr>maxage := n\<rparr>)" "settings_only w (w\<lparr>tracking_delay := n\<rparr>)" "settings_only w (w\<lparr>maxconn := k\<rparr>)" for w n k
    by (simp_all add: settings_only_def)
  have ifI: "settings_only w (srv (snd (if b then x else y)))"
    if "settings_only w (srv (snd x))" "settings_only w (srv (snd y))" for w b and x y :: "int \<times> daemon"
    using that by simp
  show ?thesis
    unfolding parse_upsd_conf_args_def Let_def
    by (intro ifI secs sw upd; simp add: la upd split: sum.split option.split prod.split)
qed

lemma upsd_conf_lines_settings: "upsd_conf_lines p ls n d = (m, d') \<Longrightarrow> settings_only (srv d) (srv d')"
proof (induction ls arbitrary: n d)
  case (Cons l ls)
  show ?case
  proof (cases "l = []")
    case False
    obtain r d1 where r: "parse_upsd_conf_args p l d = (r, d1)" by fastforce
    then have "settings_only (srv d) (srv d1)" using parse_upsd_conf_args_settings [of d p l] by simp
    then show ?thesis using Cons False r settings_trans by (auto split: if_splits)
  qed (use Cons in simp)
qed simp

lemma close_oldest_inv: "world_inv w \<Longrightarrow> world_inv (close_oldest_client w)"
  by (simp add: close_oldest_client_def client_disconnect_inv split: option.split)

lemma close_oldest_pow_inv: "world_inv w \<Longrightarrow> world_inv ((close_oldest_client ^^ n) w)"
  by (induction n) (simp_all add: close_oldest_inv)

lemma load_upsdconf_settings:
  assumes "load_upsdconf p junk fn file r d = Inr d'"
  shows "settings_only (srv (if r = 2 then on_srv (close_oldest_client ^^ fst file) d else d)) (srv d')"
  using assms upsd_conf_lines_settings unfolding load_upsdconf_def Let_def
  by (fastforce split: option.splits sum.splits prod.splits if_splits)

lemma load_upsdconf_inv:
  assumes "world_inv (srv d)" and "load_upsdconf p junk fn file r d = Inr d'"
  shows "world_inv (srv d')"
proof (rule settings_inv [OF load_upsdconf_settings [OF assms(2)]])
  show "world_inv (srv (if r = 2 then on_srv (close_oldest_client ^^ fst file) d else d))"
    using assms(1) by (simp add: on_srv_def close_oldest_pow_inv)
qed

lemma do_upsconf_args_srv: "do_upsconf_args s var v d = Inr d' \<Longrightarrow> srv d' = srv d"
  by (auto simp: do_upsconf_args_def Let_def split: option.splits if_splits)

lemma conf_lines_srv: "conf_lines ls s d = Inr d' \<Longrightarrow> srv d' = srv d"
proof (induction ls arbitrary: s d)
  case (Cons l ls)
  obtain s1 r where c: "conf_args l s d = (s1, r)" by fastforce
  then obtain d1 where d1: "r = Inr d1" "conf_lines ls s1 d1 = Inr d'" using Cons.prems by (cases r) auto
  have "srv d1 = srv d"
    using c d1(1) by (auto simp: conf_args_def do_upsconf_args_srv split: list.splits if_splits)
  then show ?case using Cons.IH d1(2) by simp
qed simp

lemma read_upsconf_srv:
  "read_upsconf junk fn b f d = Inr (Inr d') \<Longrightarrow> srv d' = srv d"
  "read_upsconf junk fn b f d = Inl d' \<Longrightarrow> srv d' = srv d"
  by (auto simp: read_upsconf_def conf_lines_srv split: option.splits sum.splits if_splits)

lemma load_upsconf_inv:
  assumes "world_inv (srv d)" and "load_upsconf junk fn file r d = Inr d'"
  shows "world_inv (srv d')"
proof (cases "read_upsconf junk fn False (if fst file > 0 then Inl ''Too many open files'' else snd file) d")
  case (Inl d1)
  then have "srv d1 = srv d" by (rule read_upsconf_srv)
  then have "world_inv (srv (on_srv close_oldest_client d1))" using assms(1) by (simp add: on_srv_def close_oldest_inv)
  then show ?thesis
    using assms(2) Inl read_upsconf_srv unfolding load_upsconf_def
    by (auto split: sum.splits if_splits)
next
  case (Inr b)
  then show ?thesis using assms read_upsconf_srv(1) by (simp add: load_upsconf_def)
qed

lemma check_file_inv: "world_inv (srv d) \<Longrightarrow> check_file f d = (b, d') \<Longrightarrow> world_inv (srv d')"
  by (auto simp: check_file_def on_srv_def close_oldest_pow_inv split: if_splits)

lemma reset_retain_inv: "world_inv w \<Longrightarrow> world_inv (reset_retain w)"
proof -
  have "ups_wf (u\<lparr>ups_retain := b\<rparr>) = ups_wf u" for u b by (simp add: ups_wf_def)
  then show "world_inv w \<Longrightarrow> world_inv (reset_retain w)"
    by (simp add: world_inv_def reset_retain_def ups_view_def client_view_def parts_wf_def comp_def)
qed

lemma reload_users_inv:
  assumes "world_inv (srv d)"
  shows "world_inv (srv (reload_users e d))"
proof (cases "user_load (re_junk e) (conf_file e ''upsd.users'') (re_users e) (user_flush (accounts (srv d)))")
  case (Some st)
  let ?u = "user_flush (accounts (srv d))"
  have "users_wf (?u\<lparr>curr_user := None\<rparr>)" by (simp add: users_wf_def user_flush_def)
  moreover have "user_load (re_junk e) (conf_file e ''upsd.users'') (re_users e) (?u\<lparr>curr_user := None\<rparr>) = Some st"
    using Some by (simp add: user_load_def Let_def)
  ultimately have "users_wf st" by (rule user_load_wf)
  then show ?thesis
    using Some assms by (simp add: reload_users_def world_inv_def parts_wf_def ups_view_def client_view_def)
qed (use assms in \<open>simp add: reload_users_def\<close>)

lemma conf_reload_inv:
  assumes "world_inv (srv d)" and "conf_reload e d = Inr d'"
  shows "world_inv (srv d')"
proof -
  obtain b d1 where c: "check_file (re_upsd_check e) d = (b, d1)" by fastforce
  then have i1: "world_inv (srv d1)" using check_file_inv assms(1) by blast
  show ?thesis
  proof (cases b)
    case True
    then obtain d2 where d2: "load_upsconf (re_junk e) (conf_file e ''ups.conf'') (re_upsconf e) 2 (on_srv reset_retain d1) = Inr d2"
      using assms(2) c by (cases "load_upsconf (re_junk e) (conf_file e ''ups.conf'') (re_upsconf e) 2 (on_srv reset_retain d1)")
        (auto simp: conf_reload_def)
    have i2: "world_inv (srv d2)"
      using load_upsconf_inv [OF _ d2] i1 by (simp add: on_srv_def reset_retain_inv)
    let ?d2 = "upsconf_add True (re_junk e) (re_connect e) d2"
    obtain d3 where d3: "load_upsdconf (re_port e) (re_junk e) (conf_file e ''upsd.conf'') (re_upsdconf e) 2 ?d2 = Inr d3"
      using assms(2) c True d2
      by (cases "load_upsdconf (re_port e) (re_junk e) (conf_file e ''upsd.conf'') (re_upsdconf e) 2 ?d2") (auto simp: conf_reload_def)
    have i3: "world_inv (srv (on_srv delete_unretained d3))"
      using load_upsdconf_inv [OF upsconf_add_inv [OF i2] d3] by (simp add: on_srv_def delete_unretained_inv)
    obtain b4 d4 where c4: "check_file (re_users_check e) (on_srv delete_unretained d3) = (b4, d4)" by fastforce
    then have "world_inv (srv d4)" using check_file_inv i3 by blast
    then show ?thesis
      using assms(2) c True d2 d3 c4 reload_users_inv by (cases b4) (auto simp: conf_reload_def)
  next
    case False
    then show ?thesis using assms(2) c i1 by (simp add: conf_reload_def)
  qed
qed

end
