(* ===== verification/UpsdSteps.thy ===== *)
theory UpsdSteps
  imports ConfInv
begin

text \<open>
  The events of the data server as a step relation, and the invariant over all reachable
  states: whatever clients and drivers send, in whatever order and pieces, and however
  writes, reads and connections fail.
\<close>

section \<open>Commands keep the invariant\<close>

lemma netcmd_func_inv:
  assumes "world_inv w" and "client_at w cid \<noteq> None"
  shows "world_inv (netcmd_func cmd cid arg w)"
proof (cases "cmd = LOGIN")
  case True
  then show ?thesis using net_login_inv [OF assms] by simp
next
  case False
  then show ?thesis by (rule quiet_inv [OF calm.S_not_login assms(1)])
qed

lemma net_login_client_at: "client_at (net_login cid arg w) c = None \<longleftrightarrow> client_at w c = None"
proof (cases rule: net_login_cases [of cid arg w])
  case (err e)
  then show ?thesis using quiet_client_at [OF quiet_send_err] by simp
next
  case (ok i)
  let ?w2 = "upd_client cid (\<lambda>c. c\<lparr>cl_loginups := Some (ups_name (ups_at w i))\<rparr>)
      (upd_ups i (\<lambda>u. u\<lparr>ups_numlogins := ups_numlogins u + 1\<rparr>) w)"
  have "client_at (net_login cid arg w) c = None \<longleftrightarrow> client_at ?w2 c = None"
    unfolding ok(5) by (rule quiet_client_at [OF quiet_reply])
  also have "\<dots> \<longleftrightarrow> client_at w c = None"
    unfolding client_at_None by (auto simp: client_view_def upd_client_def upd_ups_def image_iff)
  finally show ?thesis .
qed

lemma netcmd_func_client_at:
  "client_at (netcmd_func cmd cid arg w) c = None \<longleftrightarrow> client_at w c = None"
proof (cases "cmd = LOGIN")
  case True
  then show ?thesis using net_login_client_at [of cid arg w c] by simp
next
  case False
  then have "quiet w (netcmd_func cmd cid arg w)" by (rule calm.S_not_login)
  then show ?thesis by (rule quiet_client_at)
qed

definition serving :: "nat \<Rightarrow> world \<Rightarrow> bool" where
  "serving cid w \<longleftrightarrow> world_inv w \<and> client_at w cid \<noteq> None"

lemma serving_quiet: "quiet w w' \<Longrightarrow> serving cid w \<Longrightarrow> serving cid w'"
  using quiet_inv quiet_client_at by (auto simp: serving_def)

lemma parse_net_serving:
  assumes "serving cid w"
  shows "serving cid (parse_net cid arg w)"
proof -
  have "serving cid (netcmd_func cmd cid a w)" for cmd a
    using assms by (simp add: serving_def netcmd_func_inv netcmd_func_client_at del: not_None_eq)
  then show ?thesis
    using serving_quiet [OF quiet_send_err assms]
    by (simp add: parse_net_def check_command_def split: option.split)
qed

lemma client_line_serving: "serving cid w \<Longrightarrow> serving cid (client_line cid arg w)"
  unfolding client_line_def
  by (rule parse_net_serving) (rule serving_quiet [OF quiet_upd_client], simp_all)

lemma client_readline_inv:
  assumes "world_inv w"
  shows "world_inv (client_readline res cid w)"
proof (cases "client_at w cid")
  case (Some c)
  show ?thesis
  proof (cases "\<exists>buf. res = Read_bytes buf \<and> buf \<noteq> []")
    case True
    then obtain buf where buf: "res = Read_bytes buf" "buf \<noteq> []" by blast
    obtain ctx w1 where L: "sock_loop (client_line cid) buf (cl_ctx c, w) = (ctx, w1)" by fastforce
    have c: "c \<in> set (firstclient w)" using Some find_client_mem by (auto simp: client_at_def)
    then have "sock_ok (cl_ctx c)" using assms by (simp add: world_inv_def parts_wf_def)
    then have ok: "sock_ok ctx" using sock_loop_ok [of "cl_ctx c" "client_line cid" buf w] L by simp
    have "serving cid w" using assms Some by (simp add: serving_def)
    then have "serving cid w1"
      using sock_loop_preserves [of "serving cid" "client_line cid" w buf "cl_ctx c"] client_line_serving L
      by simp
    then have "world_inv w1" by (simp add: serving_def)
    then have "world_inv (upd_client cid (\<lambda>c. c\<lparr>cl_ctx := ctx\<rparr>) w1)"
      by (rule quiet_inv [OF quiet_upd_client, rotated 3]) (simp_all add: ok)
    then show ?thesis using buf by (simp add: client_readline_def Some L)
  next
    case False
    then show ?thesis
      using client_disconnect_inv [OF assms, of cid]
      by (cases res) (auto simp: client_readline_def Some)
  qed
qed (use assms in \<open>simp add: client_readline_def\<close>)

text \<open>One read with several whole lines: the commands are run in order, each on its words.\<close>

lemma client_readline_lines:
  assumes "client_at w cid = Some c" and "line_start (cl_ctx c)"
    and "list_all (\<lambda>p. line_words (arg_limit (cl_ctx c)) (wordlen_limit (cl_ctx c)) (fst p) (snd p)) ls"
    and "ls \<noteq> []"
  shows "\<exists>ctx. client_readline (Read_bytes (concat (map (\<lambda>p. fst p @ [CHR 10]) ls))) cid w =
     upd_client cid (\<lambda>c. c\<lparr>cl_ctx := ctx\<rparr>) (foldl (\<lambda>s ws. client_line cid ws s) w (map snd ls))"
proof -
  let ?b = "concat (map (\<lambda>p. fst p @ [CHR 10]) ls)"
  have "?b \<noteq> []" using assms(4) by (cases ls) simp_all
  moreover obtain ctx w1 where L: "sock_loop (client_line cid) ?b (cl_ctx c, w) = (ctx, w1)" by fastforce
  moreover have "w1 = foldl (\<lambda>s ws. client_line cid ws s) w (map snd ls)"
    using sock_loop_lines [OF assms(2,3), of "client_line cid" w] L by simp
  ultimately show ?thesis by (auto simp: client_readline_def assms(1))
qed

section \<open>The other events\<close>

lemma shed_clients_inv: "world_inv w \<Longrightarrow> world_inv (shed_clients now w)"
  unfolding shed_clients_def by (rule fold_disconnect_inv)

lemma client_free_inv: "world_inv w \<Longrightarrow> world_inv (client_free w)"
  using fold_disconnect_inv [of w "\<lambda>_. True"] by (simp add: client_free_def)

lemma client_connect_inv:
  assumes "world_inv w" and "client_at w fd = None"
  shows "world_inv (client_connect junk (Some (fd, addr)) w)"
proof -
  have "counts_ok uv cv \<Longrightarrow> fd \<notin> fst ` set cv \<Longrightarrow> counts_ok uv ((fd, None) # cv)" for uv cv
    by (simp add: counts_ok_def logins_def)
  then show ?thesis
    using assms client_at_None [of w fd]
    by (auto simp: world_inv_def client_connect_def client_view_def ups_view_def parts_wf_def)
qed

lemma sstate_disconnect_frame [simp]:
  "ups_name (sstate_disconnect u) = ups_name u" "ups_numlogins (sstate_disconnect u) = ups_numlogins u"
  by (simp_all add: sstate_disconnect_def sstate_infofree_def sstate_cmdfree_def Let_def)

lemma sstate_dead_frame [simp]:
  "ups_name (snd (sstate_dead ok age now u)) = ups_name u"
  "ups_numlogins (snd (sstate_dead ok age now u)) = ups_numlogins u"
  by (simp_all add: sstate_dead_def sendping_def Let_def)

lemma stale_marks_frame [simp]:
  "ups_name (ups_data_stale u) = ups_name u" "ups_numlogins (ups_data_stale u) = ups_numlogins u"
  "ups_name (ups_data_ok_set u) = ups_name u" "ups_numlogins (ups_data_ok_set u) = ups_numlogins u"
  by (simp_all add: ups_data_stale_def ups_data_ok_set_def)

lemma quiet_driver_readline: "quiet w (driver_readline res i w)"
proof -
  obtain u t where r: "sstate_readline res (wall w) (clk w) (ups_at w i, tracks w) = (u, t)" by fastforce
  have u: "ups_name u = ups_name (ups_at w i)" "ups_numlogins u = ups_numlogins (ups_at w i)"
  proof -
    have "ups_name (fst (sstate_readline res now k st)) = ups_name (fst st) \<and>
        ups_numlogins (fst (sstate_readline res now k st)) = ups_numlogins (fst st)" for now k st
    proof (cases "ups_connected (fst st)")
      case True
      obtain v x where st: "st = (v, x)" by fastforce
      show ?thesis
      proof (cases res)
        case (Read_bytes buf)
        obtain ctx u1 t1 where L: "sock_loop (driver_line now k) buf (ups_sock_ctx v, st) = (ctx, (u1, t1))"
          by (metis prod_cases3)
        then show ?thesis
          using sock_loop_frame [of now k buf "ups_sock_ctx v" st] True
          by (simp add: sstate_readline_def Read_bytes st same_frame_def)
      qed (use True in \<open>simp_all add: sstate_readline_def st sstate_disconnect_def sstate_infofree_def sstate_cmdfree_def Let_def\<close>)
    next
      case False
      then show ?thesis by (cases st) (simp add: sstate_readline_def)
    qed
    from this [of "wall w" "clk w" "(ups_at w i, tracks w)"]
    show "ups_name u = ups_name (ups_at w i)" "ups_numlogins u = ups_numlogins (ups_at w i)" by (simp_all add: r)
  qed
  have "quiet w (upd_ups i (\<lambda>_. u) w)"
    by (rule quiet_upd_ups) (use u sstate_readline_wf [of "(ups_at w i, tracks w)" res "wall w" "clk w"] r in simp_all)
  then show ?thesis by (simp add: driver_readline_def r quiet_trans [OF _ quiet_set_tracks])
qed

lemma quiet_driver_hangup: "quiet w (driver_hangup i w)"
  unfolding driver_hangup_def
  by (rule quiet_upd_ups)
    (simp_all add: sstate_disconnect_wf sstate_disconnect_frame)

lemma stale_marks_wf: "ups_wf u \<Longrightarrow> ups_wf (ups_data_stale u)" "ups_wf u \<Longrightarrow> ups_wf (ups_data_ok_set u)"
  by (simp_all add: ups_data_stale_def ups_data_ok_set_def ups_wf_def)

text \<open>One UPS of \<^const>\<open>check_driver\<close>, as a function of the UPS alone.\<close>

definition checked :: "connect_result \<Rightarrow> bool \<Rightarrow> int \<Rightarrow> int \<Rightarrow> timespec \<Rightarrow> upstype \<Rightarrow> upstype" where
  "checked res ping_ok age now k u0 =
     (let u1 = (if ups_connected u0 then u0
                else case sstate_connect res now k u0 of (ok, u) \<Rightarrow> u\<lparr>ups_connected := ok\<rparr>)
      in if \<not> ups_connected u1 then u1
         else case sstate_dead ping_ok age now u1 of
           (dead, u2) \<Rightarrow> if dead then ups_data_stale u2 else ups_data_ok_set u2)"

lemma check_driver_checked:
  "check_driver res ping_ok i w = upd_ups i (\<lambda>_. checked res ping_ok (maxage w) (wall w) (clk w) (ups_at w i)) w"
  by (simp add: check_driver_def checked_def Let_def)

lemma checked_wf: "ups_wf u \<Longrightarrow> ups_wf (checked res ping_ok age now k u)"
  using reconnected_wf [of u res now k]
  by (simp add: checked_def Let_def stale_marks_wf sstate_dead_wf case_prod_beta)

lemma checked_frame:
  "ups_name (checked res ping_ok age now k u) = ups_name u"
  "ups_numlogins (checked res ping_ok age now k u) = ups_numlogins u"
  by (simp_all add: checked_def Let_def case_prod_beta)

lemma quiet_check_driver: "quiet w (check_driver res ping_ok i w)"
  unfolding check_driver_checked
  by (rule quiet_upd_ups) (simp_all add: checked_frame checked_wf)

section \<open>Reachable states\<close>

text \<open>
  The environment acts between the events: clocks move on, and what the coming writes and
  \<open>rand\<close> calls will answer is anything. A new socket differs from the open ones.
\<close>

inductive world_step :: "world \<Rightarrow> world \<Rightarrow> bool" where
  ev_accept: "client_at w fd = None \<Longrightarrow> world_step w (client_connect junk (Some (fd, addr)) w)"
| ev_client: "world_step w (client_readline res cid w)"
| ev_hangup: "world_step w (client_disconnect cid w)"
| ev_driver: "world_step w (driver_readline res i w)"
| ev_driver_gone: "world_step w (driver_hangup i w)"
| ev_check: "world_step w (check_driver res ping_ok i w)"
| ev_reload: "conf_reload e d = Inr d' \<Longrightarrow> world_step (srv d) (srv d')"
| ev_shed: "world_step w (shed_clients now w)"
| ev_cleanup: "world_step w (w\<lparr>tracks := tracking_cleanup (tracking_delay w) (wall w) (tracks w)\<rparr>)"
| ev_environment:
    "world_step w (w\<lparr>wall := now, clk := k, client_writes := cw, driver_writes := dw, rands := rs\<rparr>)"

inductive_cases world_stepE: "world_step w w'"

lemma world_step_inv:
  assumes "world_step w w'" and "world_inv w"
  shows "world_inv w'"
  using assms
proof (cases rule: world_step.cases)
  case (ev_accept fd junk addr)
  then show ?thesis using client_connect_inv [OF assms(2)] by simp
next
  case (ev_reload e d d')
  then show ?thesis using conf_reload_inv assms(2) by blast
next
  case (ev_environment now k cw dw rs)
  have "quiet w w'" unfolding ev_environment(1) by (rule quiet_cong) simp_all
  then show ?thesis using quiet_inv assms(2) by blast
qed (use assms(2) in \<open>simp_all add: client_readline_inv client_disconnect_inv shed_clients_inv
      quiet_inv [OF quiet_driver_readline] quiet_inv [OF quiet_driver_hangup]
      quiet_inv [OF quiet_check_driver] quiet_inv [OF quiet_set_tracks]\<close>)

text \<open>The state after start: known UPS devices, accounts, no client yet.\<close>

definition fresh_world :: "world \<Rightarrow> bool" where
  "fresh_world w \<longleftrightarrow>
     firstclient w = [] \<and> distinct (map (fold_case \<circ> ups_name) (firstups w)) \<and>
     (\<forall>u \<in> set (firstups w). ups_numlogins u = 0 \<and> ups_wf u) \<and> users_wf (accounts w)"

lemma fresh_world_inv: "fresh_world w \<Longrightarrow> world_inv w"
  by (simp add: fresh_world_def world_inv_def counts_ok_def ups_view_def client_view_def logins_def
      parts_wf_def comp_def)

lemma reachable_inv:
  assumes "world_step\<^sup>*\<^sup>* w0 w" and "fresh_world w0"
  shows "world_inv w"
  using assms(1)
proof (induction rule: rtranclp_induct)
  case base
  then show ?case using assms(2) by (rule fresh_world_inv)
next
  case (step y z)
  then show ?case using world_step_inv by blast
qed

lemma logins_filter:
  "logins n (client_view w) = length (filter (\<lambda>c. cl_loginups c = Some n) (firstclient w))"
  by (simp add: logins_def client_view_def filter_map comp_def)

text \<open>
  Property C34: in every reachable state of the server, reloads of its configuration included,
  \<open>numlogins\<close> of each UPS is exactly the
  number of connected clients that are logged into it (so it is never negative, and the
  message about a programming error in \<open>declogins\<close> is never reached), every login names an
  existing UPS, no two clients share a socket, no two UPS names differ in case only, and the
  data of every UPS is well formed.
\<close>

theorem numlogins_exact:
  assumes "world_step\<^sup>*\<^sup>* w0 w" and "fresh_world w0"
  shows "(\<forall>u \<in> set (firstups w).
        ups_numlogins u = int (length (filter (\<lambda>c. cl_loginups c = Some (ups_name u)) (firstclient w)))
        \<and> ups_wf u)
    \<and> (\<forall>c \<in> set (firstclient w). \<forall>n. cl_loginups c = Some n \<longrightarrow> (\<exists>u \<in> set (firstups w). ups_name u = n))
    \<and> distinct (map cl_id (firstclient w)) \<and> distinct (map (fold_case \<circ> ups_name) (firstups w))"
proof -
  have inv: "world_inv w" using assms by (rule reachable_inv)
  then have counts: "\<forall>i < length (firstups w). ups_numlogins (firstups w ! i) =
      int (logins (ups_name (firstups w ! i)) (client_view w))"
    by (simp add: world_inv_def counts_ok_def ups_view_def)
  have "ups_numlogins u = int (logins (ups_name u) (client_view w))" if "u \<in> set (firstups w)" for u
    using that counts by (auto simp: in_set_conv_nth)
  then have "\<forall>u \<in> set (firstups w).
      ups_numlogins u = int (length (filter (\<lambda>c. cl_loginups c = Some (ups_name u)) (firstclient w)))"
    by (simp add: logins_filter)
  moreover have "\<forall>u \<in> set (firstups w). ups_wf u" using inv by (simp add: world_inv_def parts_wf_def)
  moreover have "\<forall>c \<in> set (firstclient w). \<forall>n. cl_loginups c = Some n \<longrightarrow> (\<exists>u \<in> set (firstups w). ups_name u = n)"
    using inv by (force simp: world_inv_def counts_ok_def ups_view_def client_view_def)
  moreover have "distinct (map cl_id (firstclient w))" "distinct (map (fold_case \<circ> ups_name) (firstups w))"
    using inv by (simp_all add: world_inv_def counts_ok_def ups_view_def client_view_def comp_def)
  ultimately show ?thesis by blast
qed

definition sample_build :: build_info where
  "sample_build = \<lparr>UPS_VERSION = ''2.8.3'', PACKAGE_URL = None, NUT_NETVERSION = ''1.3''\<rparr>"

definition sample_accounts :: user_state where
  "sample_accounts = \<lparr>users = [\<lparr>u_name = ''bob'', u_password = Some ''x'', u_instcmds = [''load.off''],
     u_actions = [''LOGIN'', ''SET'']\<rparr>], curr_user = None\<rparr>"

definition sample_world :: world where
  "sample_world = \<lparr>firstups = [live_ups], firstclient = [], firstaddr = [], accounts = sample_accounts,
     descs = \<lparr>cmd_list = [], var_list = []\<rparr>, tracks = tracking_on, maxage = 15, tracking_delay = 3600,
     maxconn = 1024, reload_flag = False, wall = 100, clk = clock 100, rands = [], client_writes = [],
     driver_writes = [], sent = [], to_driver = [], build = sample_build\<rparr>"

lemma sample_world_fresh [simp]: "fresh_world sample_world"
proof -
  have "users_wf sample_accounts"
    by (simp add: users_wf_def sample_accounts_def)
  moreover have "ups_numlogins live_ups = 0" by (simp add: live_ups_def sstate_connect_def ups_new_def)
  ultimately show ?thesis by (simp add: fresh_world_def sample_world_def)
qed

definition session_words :: "(cstring \<times> cstring list) list" where
  "session_words = [(''USERNAME bob'', [''USERNAME'', ''bob'']), (''PASSWORD x'', [''PASSWORD'', ''x'']),
     (''LOGIN myups'', [''LOGIN'', ''myups''])]"

definition session_lines :: cstring where
  "session_lines = concat (map (\<lambda>p. fst p @ [CHR 10]) session_words)"

definition sample_session :: world where
  "sample_session = client_readline (Read_bytes session_lines) 4 (client_connect blank_ctx (Some (4, ''::1'')) sample_world)"

lemma sample_session_logged_in:
  "map ups_numlogins (firstups sample_session) = [1] \<and>
   map snd (sent sample_session) = [''OK'' @ [CHR 10], ''OK'' @ [CHR 10], ''OK'' @ [CHR 10]]"
proof -
  let ?w = "client_connect blank_ctx (Some (4, ''::1'')) sample_world"
  let ?c = "hd (firstclient ?w)"
  have c: "client_at ?w 4 = Some ?c" "cl_ctx ?c = pconf_init blank_ctx"
    by (simp_all add: client_connect_def client_at_def)
  have lim: "arg_limit (cl_ctx ?c) = 32" "wordlen_limit (cl_ctx ?c) = 512"
    by (simp_all add: c pconf_init_def PCONF_DEFAULT_ARG_LIMIT_def PCONF_DEFAULT_WORDLEN_LIMIT_def)
  have "list_all (\<lambda>p. line_words 32 512 (fst p) (snd p)) session_words" by code_simp
  then have lines: "list_all (\<lambda>p. line_words (arg_limit (cl_ctx ?c)) (wordlen_limit (cl_ctx ?c)) (fst p) (snd p)) session_words"
    by (simp only: lim)
  have ne: "session_words \<noteq> []" by (simp add: session_words_def)
  obtain ctx where S: "sample_session =
      upd_client 4 (\<lambda>c. c\<lparr>cl_ctx := ctx\<rparr>) (foldl (\<lambda>s ws. client_line 4 ws s) ?w (map snd session_words))"
    unfolding sample_session_def session_lines_def
    using client_readline_lines [OF c(1) _ lines ne] by (metis c(2) pconf_init_line_start)
  let ?f = "foldl (\<lambda>s ws. client_line 4 ws s) ?w (map snd session_words)"
  have "(map ups_numlogins (firstups ?f), map snd (sent ?f)) = ([1], [''OK'' @ [CHR 10], ''OK'' @ [CHR 10], ''OK'' @ [CHR 10]])"
    by code_simp
  then show ?thesis by (simp add: S upd_client_def)
qed

theorem numlogins_exact_witness:
  "map (\<lambda>u. length (filter (\<lambda>c. cl_loginups c = Some (ups_name u)) (firstclient sample_session)))
     (firstups sample_session) = [1]"
proof -
  have "world_step sample_world (client_connect blank_ctx (Some (4, ''::1'')) sample_world)"
    by (rule ev_accept) (simp add: client_at_def sample_world_def)
  moreover have "world_step (client_connect blank_ctx (Some (4, ''::1'')) sample_world) sample_session"
    unfolding sample_session_def by (rule ev_client)
  ultimately have "world_step\<^sup>*\<^sup>* sample_world sample_session" by (meson converse_rtranclp_into_rtranclp rtranclp.rtrancl_refl)
  note exact = numlogins_exact [OF this sample_world_fresh]
  obtain u where "firstups sample_session = [u]" "ups_numlogins u = 1"
    using sample_session_logged_in by auto
  then show ?thesis using exact by simp
qed

end
