(* ===== verification/NetSpec.thy ===== *)
theory NetSpec
  imports UpsdSteps
begin

text \<open>
  What a client can achieve with a line: it is answered, it touches nobody else's session,
  its credentials are set once, and a UPS or its driver is reached only with the grant that
  the command needs. The two relations below instantiate the contracts of \<open>NetEffects\<close>.
\<close>

section \<open>A command talks to its own client\<close>

definition others :: "nat \<Rightarrow> world \<Rightarrow> nut_ctype list" where
  "others cid w = filter (\<lambda>c. cl_id c \<noteq> cid) (firstclient w)"

definition kept_once :: "'a option \<Rightarrow> 'a option \<Rightarrow> bool" where
  "kept_once old new \<longleftrightarrow> (case old of None \<Rightarrow> True | Some x \<Rightarrow> new = Some x)"

definition said :: "nat \<Rightarrow> world \<Rightarrow> world \<Rightarrow> bool" where
  "said cid w w' \<longleftrightarrow>
     (\<exists>ls. sent w' = sent w @ map (Pair cid) ls \<and> (\<forall>l \<in> set ls. length l \<le> NUT_NET_ANSWER_MAX))"

definition own_only :: "nat \<Rightarrow> world \<Rightarrow> world \<Rightarrow> bool" where
  "own_only cid w w' \<longleftrightarrow>
     others cid w' = others cid w \<and> map cl_id (firstclient w') = map cl_id (firstclient w) \<and>
     said cid w w' \<and>
     (client_writes w = [] \<longrightarrow> client_writes w' = []) \<and>
     (accounts w', descs w', firstaddr w', build w') = (accounts w, descs w, firstaddr w, build w) \<and>
     kept_once (c_username w cid) (c_username w' cid) \<and>
     kept_once (c_password w cid) (c_password w' cid) \<and>
     kept_once (c_loginups w cid) (c_loginups w' cid)"

definition answered :: "nat \<Rightarrow> world \<Rightarrow> world \<Rightarrow> bool" where
  "answered cid w w' \<longleftrightarrow>
     own_only cid w w' \<and>
     (cid \<in> set (map cl_id (firstclient w)) \<and> client_writes w = [] \<longrightarrow> length (sent w) < length (sent w'))"

lemma kept_once_refl [simp]: "kept_once x x"
  by (simp add: kept_once_def split: option.split)

lemma kept_once_None [simp]: "kept_once None x"
  by (simp add: kept_once_def)

lemma kept_once_trans: "kept_once x y \<Longrightarrow> kept_once y z \<Longrightarrow> kept_once x z"
  by (auto simp: kept_once_def split: option.splits)

lemma saidI:
  "sent w' = sent w @ map (Pair cid) ls \<Longrightarrow> \<forall>l \<in> set ls. length l \<le> NUT_NET_ANSWER_MAX \<Longrightarrow> said cid w w'"
  by (auto simp: said_def)

lemma said_trans:
  assumes "said cid w v" and "said cid v u"
  shows "said cid w u"
proof -
  obtain ks where ks: "sent v = sent w @ map (Pair cid) ks" "\<forall>l \<in> set ks. length l \<le> NUT_NET_ANSWER_MAX"
    using assms(1) unfolding said_def by (elim exE conjE)
  obtain ls where ls: "sent u = sent v @ map (Pair cid) ls" "\<forall>l \<in> set ls. length l \<le> NUT_NET_ANSWER_MAX"
    using assms(2) unfolding said_def by (elim exE conjE)
  show ?thesis by (rule saidI [of _ _ _ "ks @ ls"]) (use ks ls in auto)
qed

lemma own_only_refl [simp]: "own_only cid w w"
  using saidI [of w w cid "[]"] by (simp add: own_only_def)

lemma own_only_trans:
  assumes "own_only cid w v" and "own_only cid v u"
  shows "own_only cid w u"
proof -
  note p = assms [unfolded own_only_def]
  have "said cid w u" using p said_trans [of cid w v u] by simp
  moreover have "kept_once (c_username w cid) (c_username u cid)"
    using p kept_once_trans [of "c_username w cid" "c_username v cid"] by simp
  moreover have "kept_once (c_password w cid) (c_password u cid)"
    using p kept_once_trans [of "c_password w cid" "c_password v cid"] by simp
  moreover have "kept_once (c_loginups w cid) (c_loginups u cid)"
    using p kept_once_trans [of "c_loginups w cid" "c_loginups v cid"] by simp
  ultimately show ?thesis using p by (simp add: own_only_def)
qed

lemma own_only_length: "own_only cid w v \<Longrightarrow> length (sent w) \<le> length (sent v)"
  by (auto simp: own_only_def said_def)

lemma client_at_upd_client:
  assumes "\<And>c. cl_id (f c) = cl_id c"
  shows "client_at (upd_client cid f w) cid = map_option f (client_at w cid)"
proof -
  have "find_client (map (\<lambda>c. if cl_id c = cid then f c else c) cs) cid = map_option f (find_client cs cid)" for cs
    by (induction cs) (simp_all add: assms)
  then show ?thesis by (simp add: client_at_def upd_client_def)
qed

lemma others_upd_client:
  assumes "\<And>c. cl_id (f c) = cl_id c"
  shows "others cid (upd_client cid f w) = others cid w"
    and "map cl_id (firstclient (upd_client cid f w)) = map cl_id (firstclient w)"
proof -
  have "filter (\<lambda>c. cl_id c \<noteq> cid) (map (\<lambda>c. if cl_id c = cid then f c else c) cs) = filter (\<lambda>c. cl_id c \<noteq> cid) cs" for cs
    by (induction cs) (simp_all add: assms)
  then show "others cid (upd_client cid f w) = others cid w" by (simp add: others_def upd_client_def)
  show "map cl_id (firstclient (upd_client cid f w)) = map cl_id (firstclient w)"
    by (simp add: upd_client_def assms)
qed

lemma own_only_upd_client:
  assumes "\<And>c. cl_id (f c) = cl_id c"
    and "\<And>c. client_at w cid = Some c \<Longrightarrow> kept_once (cl_username c) (cl_username (f c)) \<and>
      kept_once (cl_password c) (cl_password (f c)) \<and> kept_once (cl_loginups c) (cl_loginups (f c))"
  shows "own_only cid w (upd_client cid f w)"
proof -
  have "kept_once (c_username w cid) (c_username (upd_client cid f w) cid)"
    "kept_once (c_password w cid) (c_password (upd_client cid f w) cid)"
    "kept_once (c_loginups w cid) (c_loginups (upd_client cid f w) cid)"
    using assms(2)
    by (cases "client_at w cid";
        simp add: c_username_def c_password_def c_loginups_def client_at_upd_client [OF assms(1)])+
  moreover have "said cid w (upd_client cid f w)" by (rule saidI [of _ _ _ "[]"]) (simp_all add: upd_client_def)
  moreover have "others cid (upd_client cid f w) = others cid w"
    "map cl_id (firstclient (upd_client cid f w)) = map cl_id (firstclient w)"
    by (simp_all only: others_upd_client [OF assms(1)])
  ultimately show ?thesis unfolding own_only_def by (simp add: upd_client_def)
qed

lemma own_only_frame:
  assumes "firstclient w' = firstclient w" and "sent w' = sent w @ map (Pair cid) ls"
    and "\<forall>l \<in> set ls. length l \<le> NUT_NET_ANSWER_MAX" and "client_writes w = [] \<longrightarrow> client_writes w' = []"
    and "(accounts w', descs w', firstaddr w', build w') = (accounts w, descs w, firstaddr w, build w)"
  shows "own_only cid w w'"
proof -
  have "client_at w' = client_at w" by (rule ext) (simp add: client_at_def assms(1))
  moreover have "said cid w w'" using assms(2,3) by (rule saidI)
  ultimately show ?thesis
    using assms(1,4,5) by (simp add: own_only_def others_def c_username_def c_password_def c_loginups_def)
qed

lemma answered_sendback: "answered cid w (snd (sendback cid text w))"
proof (cases "client_at w cid")
  case None
  then have "cid \<notin> set (map cl_id (firstclient w))"
    using find_client_None by (simp add: client_at_def)
  then show ?thesis by (simp add: answered_def sendback_def None)
next
  case (Some c)
  obtain b w1 where t: "take_client_write w = (b, w1)" by fastforce
  have w1: "own_only cid w w1"
    by (rule own_only_frame [of _ _ _ "[]"]) (use t in \<open>auto simp: take_client_write_def split: list.splits\<close>)
  have accepted: "b" if "client_writes w = []" using t that by (simp add: take_client_write_def)
  let ?ans = "snprintf (NUT_NET_ANSWER_MAX + 1) text"
  have len: "length ?ans \<le> NUT_NET_ANSWER_MAX" by (metis Suc_eq_plus1 less_Suc_eq_le snprintf_length zero_less_Suc)
  have ok: "own_only cid w1 (w1\<lparr>sent := sent w1 @ [(cid, ?ans)]\<rparr>)"
    by (rule own_only_frame [of _ _ _ "[?ans]"]) (use len in simp_all)
  have bad: "own_only cid w1 (upd_client cid (\<lambda>c. c\<lparr>cl_last_heard := 0\<rparr>) w1)"
    by (rule own_only_upd_client) simp_all
  show ?thesis
  proof (cases b)
    case True
    then have "snd (sendback cid text w) = w1\<lparr>sent := sent w1 @ [(cid, ?ans)]\<rparr>"
      by (simp add: sendback_def Some t)
    moreover have "length (sent w) < length (sent (w1\<lparr>sent := sent w1 @ [(cid, ?ans)]\<rparr>))"
      using own_only_length [OF w1] by simp
    ultimately show ?thesis using own_only_trans [OF w1 ok] by (simp add: answered_def)
  next
    case False
    then show ?thesis
      using own_only_trans [OF w1 bad] accepted by (auto simp: answered_def sendback_def Some t)
  qed
qed

lemma answered_own_only: "answered cid w v \<Longrightarrow> own_only cid w v"
  by (simp add: answered_def)

lemma own_only_answered:
  assumes "own_only cid w v" and "answered cid v u"
  shows "answered cid w u"
proof -
  have "own_only cid w u" using assms own_only_trans [of cid w v u] by (simp add: answered_def)
  moreover have "length (sent w) \<le> length (sent v)" using assms(1) by (rule own_only_length)
  moreover have "map cl_id (firstclient v) = map cl_id (firstclient w)" "client_writes w = [] \<longrightarrow> client_writes v = []"
    using assms(1) by (simp_all add: own_only_def)
  ultimately show ?thesis using assms(2) unfolding answered_def by auto
qed

lemma answered_then:
  assumes "answered cid w v" and "own_only cid v u"
  shows "answered cid w u"
proof -
  have "own_only cid w u" using assms own_only_trans [of cid w v u] by (simp add: answered_def)
  moreover have "length (sent v) \<le> length (sent u)" using assms(2) by (rule own_only_length)
  ultimately show ?thesis using assms(1) unfolding answered_def by auto
qed

lemma c_fields:
  "client_at w cid = Some c \<Longrightarrow> c_username w cid = cl_username c"
  "client_at w cid = Some c \<Longrightarrow> c_password w cid = cl_password c"
  "client_at w cid = Some c \<Longrightarrow> c_loginups w cid = cl_loginups c"
  by (simp_all add: c_username_def c_password_def c_loginups_def)

lemma own_only_upd_ups: "own_only cid w (upd_ups i f w)"
  by (rule own_only_frame [of _ _ _ "[]"]) (simp_all add: upd_ups_def)

lemma own_only_sendline: "own_only cid w (snd (ups_sendline i buf w))"
proof (cases "ups_connected (ups_at w i)")
  case True
  obtain ok w1 where t: "take_driver_write w = (ok, w1)" by fastforce
  obtain ret u where r: "sstate_sendline ok (ups_at w1 i) = (ret, u)" by fastforce
  have "own_only cid w w1"
    by (rule own_only_frame [of _ _ _ "[]"]) (use t in \<open>auto simp: take_driver_write_def split: list.splits\<close>)
  moreover have "own_only cid w1 (snd (ups_sendline i buf w))"
    by (rule own_only_frame [of _ _ _ "[]"]; cases ret; simp add: ups_sendline_def True t r Let_def upd_ups_def)
  ultimately show ?thesis by (rule own_only_trans)
qed (simp add: ups_sendline_def)

interpretation session: command_effect own_only answered
proof unfold_locales
  fix cid w v u
  show "own_only cid w v \<Longrightarrow> own_only cid v u \<Longrightarrow> own_only cid w u" by (rule own_only_trans)
  show "answered cid w v \<Longrightarrow> own_only cid w v" by (rule answered_own_only)
  show "own_only cid w v \<Longrightarrow> answered cid v u \<Longrightarrow> answered cid w u" by (rule own_only_answered)
  show "answered cid w v \<Longrightarrow> own_only cid v u \<Longrightarrow> answered cid w u" by (rule answered_then)
  show "answered cid w (snd (sendback cid s w))" for s by (rule answered_sendback)
  show "own_only cid w (upd_client cid (\<lambda>c. c\<lparr>cl_username := Some x\<rparr>) w)" if "c_username w cid = None" for x
    by (rule own_only_upd_client) (use that in \<open>simp_all add: c_fields\<close>)
  show "own_only cid w (upd_client cid (\<lambda>c. c\<lparr>cl_password := Some x\<rparr>) w)" if "c_password w cid = None" for x
    by (rule own_only_upd_client) (use that in \<open>simp_all add: c_fields\<close>)
  show "own_only cid w (upd_client cid (\<lambda>c. c\<lparr>cl_loginups := Some x\<rparr>) w)" if "c_loginups w cid = None" for x
    by (rule own_only_upd_client) (use that in \<open>simp_all add: c_fields\<close>)
  show "own_only cid w (upd_client cid (\<lambda>c. c\<lparr>cl_last_heard := t\<rparr>) w)" for t
    by (rule own_only_upd_client) simp_all
  show "own_only cid w (upd_client cid (\<lambda>c. c\<lparr>cl_tracking := b\<rparr>) w)" for b
    by (rule own_only_upd_client) simp_all
  show "own_only cid w (snd (ups_sendline i buf w))" for i buf by (rule own_only_sendline)
  show "own_only cid w (w\<lparr>tracks := t\<rparr>)" for t
    by (rule own_only_frame [of _ _ _ "[]"]) simp_all
  show "own_only cid w (w\<lparr>rands := rs\<rparr>)" for rs
    by (rule own_only_frame [of _ _ _ "[]"]) simp_all
qed (rule own_only_refl own_only_upd_ups)+

end
