(* ===== verification/NetAccess.thy ===== *)
theory NetAccess
  imports NetSpec
begin

text \<open>
  Properties of the commands: every line is answered to its own client only; credentials are
  set once; a UPS or its driver is reached only with the grant that the command needs; what a
  driver is told is what the client asked for.
\<close>

section \<open>Answers and sessions\<close>

text \<open>
  Property C10: every complete line of a client is answered. However the line reads, at least
  one reply of at most \<open>NUT_NET_ANSWER_MAX\<close> bytes goes to the client that sent it, no other
  client gets anything, and no other client's connection changes.
\<close>

theorem client_line_answered:
  assumes "client_at w cid \<noteq> None" and "client_writes w = []"
  shows "\<exists>ls. ls \<noteq> [] \<and> sent (client_line cid arg w) = sent w @ map (Pair cid) ls
      \<and> list_all (\<lambda>l. length l \<le> NUT_NET_ANSWER_MAX) ls
      \<and> filter (\<lambda>c. cl_id c \<noteq> cid) (firstclient (client_line cid arg w)) = filter (\<lambda>c. cl_id c \<noteq> cid) (firstclient w)"
proof -
  note A = session.S_client_line [of cid w arg]
  have own: "own_only cid w (client_line cid arg w)" by (rule answered_own_only [OF A])
  then obtain ls where ls: "sent (client_line cid arg w) = sent w @ map (Pair cid) ls"
    "\<forall>l \<in> set ls. length l \<le> NUT_NET_ANSWER_MAX"
    unfolding own_only_def said_def by (elim conjE exE)
  have "cid \<in> cl_id ` set (firstclient w)"
    using assms(1) find_client_None [of "firstclient w" cid] by (auto simp: client_at_def)
  then have "length (sent w) < length (sent (client_line cid arg w))"
    using A assms(2) by (simp add: answered_def)
  then have "ls \<noteq> []" using ls(1) by auto
  then show ?thesis using ls own by (auto simp: own_only_def others_def list_all_iff)
qed

definition served_world :: world where
  "served_world = client_connect blank_ctx (Some (4, ''::1'')) sample_world"

lemma served_client [simp]: "client_at served_world 4 \<noteq> None" "client_writes served_world = []"
  by (simp_all add: served_world_def client_connect_def client_at_def sample_world_def)

theorem client_line_answered_witness:
  "sent (client_line 4 [''NO'', ''SUCH''] served_world) \<noteq> sent served_world"
  using client_line_answered [OF served_client, of "[''NO'', ''SUCH'']"] by auto

lemma lines_own_only: "own_only cid w (foldl (\<lambda>s arg. client_line cid arg s) w ls)"
proof (induction ls arbitrary: w)
  case (Cons arg ls)
  have "own_only cid w (client_line cid arg w)" by (rule answered_own_only [OF session.S_client_line])
  then show ?case using own_only_trans Cons.IH by simp
qed simp

text \<open>
  Property C11: whatever lines a client sends, a user name, password or login that is set stays
  as it is for the rest of the session, and no line of a client changes accounts,
  descriptions or listeners.
\<close>

theorem credentials_set_once:
  assumes "w' = foldl (\<lambda>s arg. client_line cid arg s) w ls" and "client_at w cid = Some c"
  shows "(cl_username c = None \<or> c_username w' cid = cl_username c)
    \<and> (cl_password c = None \<or> c_password w' cid = cl_password c)
    \<and> (cl_loginups c = None \<or> c_loginups w' cid = cl_loginups c)
    \<and> accounts w' = accounts w \<and> descs w' = descs w \<and> firstaddr w' = firstaddr w"
proof -
  have "own_only cid w w'" unfolding assms(1) by (rule lines_own_only)
  then show ?thesis
    using c_fields [OF assms(2)] by (auto simp: own_only_def kept_once_def split: option.splits)
qed

definition bob_world :: world where
  "bob_world = foldl (\<lambda>s arg. client_line 4 arg s) served_world [[''USERNAME'', ''bob''], [''PASSWORD'', ''x'']]"

lemma bob_client: "\<exists>c. client_at bob_world 4 = Some c \<and> cl_username c = Some ''bob'' \<and> cl_password c = Some ''x''"
proof -
  have "map_option (\<lambda>c. (cl_username c, cl_password c)) (client_at bob_world 4) = Some (Some ''bob'', Some ''x'')"
    by code_simp
  then show ?thesis by auto
qed

lemma bob_world_frame: "accounts bob_world = sample_accounts" "client_writes bob_world = []"
  using lines_own_only [of 4 served_world "[[''USERNAME'', ''bob''], [''PASSWORD'', ''x'']]"]
  by (simp_all add: own_only_def bob_world_def served_world_def client_connect_def sample_world_def)

theorem credentials_set_once_witness:
  "c_username (client_line 4 [''USERNAME'', ''mallory''] bob_world) 4 = Some ''bob''"
proof -
  obtain c where c: "client_at bob_world 4 = Some c" "cl_username c = Some ''bob''" using bob_client by blast
  show ?thesis using credentials_set_once [OF _ c(1), of _ "[[''USERNAME'', ''mallory'']]"] c(2) by simp
qed

section \<open>Commands without a grant\<close>

definition inert :: "nat \<Rightarrow> world \<Rightarrow> world \<Rightarrow> bool" where
  "inert cid w w' \<longleftrightarrow> firstups w' = firstups w \<and> to_driver w' = to_driver w \<and> tracks w' = tracks w"

lemma inert_sendback: "inert cid w (snd (sendback cid text w))"
  by (simp add: inert_def sendback_def take_client_write_def upd_client_def Let_def
      split: option.split list.split bool.split)

interpretation harmless: session_effect inert inert
  by unfold_locales (simp_all add: inert_sendback, simp_all add: inert_def upd_client_def)

lemma reply_inert [simp]:
  "firstups (reply cid s w) = firstups w" "to_driver (reply cid s w) = to_driver w" "tracks (reply cid s w) = tracks w"
  "firstups (send_err cid s w) = firstups w" "to_driver (send_err cid s w) = to_driver w" "tracks (send_err cid s w) = tracks w"
  using harmless.S_reply [of cid w s] harmless.S_send_err [of cid w s] by (simp_all add: inert_def)

section \<open>The commands that need one\<close>

definition fresh_ups :: "world \<Rightarrow> cstring \<Rightarrow> nat \<Rightarrow> bool" where
  "fresh_ups w n i \<longleftrightarrow> get_ups_ptr w n = Some i \<and> ups_connected (ups_at w i) \<and> \<not> ups_stale (ups_at w i)"

lemma with_fresh_ups_cases:
  obtains (err) e where "with_fresh_ups cid n f w = send_err cid e w" "\<And>i. \<not> fresh_ups w n i"
    | (ok) i where "fresh_ups w n i" "with_fresh_ups cid n f w = f i w"
proof (cases "get_ups_ptr w n")
  case None
  then show thesis using err [of "''UNKNOWN-UPS''"] by (simp add: with_fresh_ups_def with_ups_def fresh_ups_def)
next
  case (Some i)
  show thesis
  proof (cases "fresh_ups w n i")
    case True
    then show thesis using ok by (simp add: with_fresh_ups_def with_ups_def ups_available_def fresh_ups_def)
  next
    case False
    then show thesis
      using err [of "if ups_connected (ups_at w i) then ''DATA-STALE'' else ''DRIVER-NOT-CONNECTED''"] Some
      by (auto simp: with_fresh_ups_def with_ups_def ups_available_def fresh_ups_def)
  qed
qed

text \<open>
  Sending a line to the driver of UPS \<open>i\<close>: either it is written, or the connection to that
  driver is dropped; nothing else changes.
\<close>

definition drives :: "nat \<Rightarrow> cstring \<Rightarrow> world \<Rightarrow> world \<Rightarrow> bool" where
  "drives i l w w' \<longleftrightarrow>
     (firstups w' = firstups w \<and> to_driver w' = to_driver w @ [(ups_name (ups_at w i), l)])
     \<or> (firstups w' = (firstups w)[i := sstate_disconnect (ups_at w i)] \<and> to_driver w' = to_driver w)"

definition tracked_line :: "cstring \<Rightarrow> cstring \<Rightarrow> cstring" where
  "tracked_line cmd t =
     snprintfcat (if t \<noteq> [] then snprintfcat cmd SMALLBUF ('' TRACKING '' @ t) else cmd) SMALLBUF [CHR 10]"

lemma take_driver_write_frame:
  "take_driver_write w = (ok, w1) \<Longrightarrow> firstups w1 = firstups w \<and> to_driver w1 = to_driver w"
  by (auto simp: take_driver_write_def split: list.splits)

lemma ups_sendline_drives:
  assumes "ups_connected (ups_at w i)"
  shows "drives i buf w (snd (ups_sendline i buf w))"
proof -
  obtain ok w1 where t: "take_driver_write w = (ok, w1)" by fastforce
  have at: "ups_at w1 i = ups_at w i" using take_driver_write_frame [OF t] by (simp add: ups_at_def)
  have same: "(firstups w)[i := ups_at w i] = firstups w" by (simp add: ups_at_def)
  show ?thesis
    using assms take_driver_write_frame [OF t]
    by (cases ok) (simp_all add: ups_sendline_def t at sstate_sendline_def drives_def upd_ups_def same Let_def)
qed

lemma drives_cong:
  "drives i l w v \<Longrightarrow> firstups w0 = firstups w \<Longrightarrow> to_driver w0 = to_driver w \<Longrightarrow>
   firstups u = firstups v \<Longrightarrow> to_driver u = to_driver v \<Longrightarrow> drives i l w0 u"
  by (simp add: drives_def ups_at_def)

lemma send_tracked_drives:
  assumes "ups_connected (ups_at w i)"
  shows "drives i (tracked_line cmd t) w (send_tracked cid i cmd t failed w)"
proof -
  let ?w1 = "if t \<noteq> [] then w\<lparr>tracks := snd (tracking_add t (wall w) (tracks w))\<rparr> else w"
  obtain ok w2 where s: "ups_sendline i (tracked_line cmd t) ?w1 = (ok, w2)" by fastforce
  have "drives i (tracked_line cmd t) ?w1 w2"
    using ups_sendline_drives [of ?w1 i "tracked_line cmd t"] assms s by (simp add: ups_at_def)
  moreover have "send_tracked cid i cmd t failed w =
      (if \<not> ok then send_err cid failed w2
       else if t \<noteq> [] then reply cid (line [''OK TRACKING '', t]) w2 else reply cid (line [''OK'']) w2)"
    unfolding send_tracked_def Let_def s [unfolded tracked_line_def] by simp
  ultimately show ?thesis by (elim drives_cong) simp_all
qed

text \<open>What \<open>set_var\<close> and \<open>send_instcmd\<close> ask for before a driver hears of it.\<close>

definition may_set :: "world \<Rightarrow> nat \<Rightarrow> cstring \<Rightarrow> cstring \<Rightarrow> cstring \<Rightarrow> nat \<Rightarrow> bool" where
  "may_set w cid n var newval i \<longleftrightarrow>
     fresh_ups w n i \<and> user_checkaction (accounts w) (c_username w cid) (c_password w cid) ''SET'' \<and>
     sstate_getinfo (ups_at w i) var \<noteq> None \<and> has_flag (sstate_getflags (ups_at w i) var) ST_FLAG_RW \<and>
     value_error (ups_at w i) var newval = None"

definition set_line :: "cstring \<Rightarrow> cstring \<Rightarrow> cstring" where
  "set_line var newval = snprintf SMALLBUF (''SET '' @ var @ '' '' @ quote (pconf_encode newval [] SMALLBUF))"

lemma set_var_cases:
  obtains (err) e where "set_var cid n var newval t w = send_err cid e w" "\<And>i. \<not> may_set w cid n var newval i"
    | (ok) i where "may_set w cid n var newval i"
      "set_var cid n var newval t w = send_tracked cid i (set_line var newval) t ''SET-FAILED'' w"
proof -
  let ?f = "\<lambda>i w. if \<not> user_checkaction (accounts w) (c_username w cid) (c_password w cid) ''SET''
          then send_err cid ''ACCESS-DENIED'' w
          else if sstate_getinfo (ups_at w i) var = None then send_err cid ''VAR-NOT-SUPPORTED'' w
          else if \<not> has_flag (sstate_getflags (ups_at w i) var) ST_FLAG_RW then send_err cid ''READONLY'' w
          else case value_error (ups_at w i) var newval of
            Some e \<Rightarrow> send_err cid e w
          | None \<Rightarrow> send_tracked cid i (set_line var newval) t ''SET-FAILED'' w"
  have unfold: "set_var cid n var newval t = with_fresh_ups cid n ?f"
    by (simp only: set_var_def set_line_def)
  show thesis
  proof (cases rule: with_fresh_ups_cases [of cid n ?f w])
    case (err e)
    then show thesis using that(1) by (simp add: unfold may_set_def)
  next
    case (ok i)
    have only: "j = i" if "fresh_ups w n j" for j using that ok(1) by (simp add: fresh_ups_def)
    have E: "set_var cid n var newval t w = ?f i w" by (simp only: unfold ok(2))
    show thesis
    proof (cases "may_set w cid n var newval i")
      case True
      then have "set_var cid n var newval t w = send_tracked cid i (set_line var newval) t ''SET-FAILED'' w"
        unfolding E may_set_def by (simp del: not_None_eq)
      then show thesis by (rule that(2) [OF True])
    next
      case False
      then have none: "\<not> may_set w cid n var newval j" for j
        using only [of j] unfolding may_set_def by blast
      have "set_var cid n var newval t w = send_err cid
          (if \<not> user_checkaction (accounts w) (c_username w cid) (c_password w cid) ''SET'' then ''ACCESS-DENIED''
           else if sstate_getinfo (ups_at w i) var = None then ''VAR-NOT-SUPPORTED''
           else if \<not> has_flag (sstate_getflags (ups_at w i) var) ST_FLAG_RW then ''READONLY''
           else the (value_error (ups_at w i) var newval)) w"
        unfolding E
        by (cases "user_checkaction (accounts w) (c_username w cid) (c_password w cid) ''SET''";
            cases "sstate_getinfo (ups_at w i) var"; cases "has_flag (sstate_getflags (ups_at w i) var) ST_FLAG_RW";
            cases "value_error (ups_at w i) var newval";
            use False ok(1) in \<open>simp only: may_set_def option.simps option.sel if_True if_False simp_thms\<close>)
      then show thesis using none by (rule that(1))
    qed
  qed
qed

definition may_instcmd :: "world \<Rightarrow> nat \<Rightarrow> cstring \<Rightarrow> cstring \<Rightarrow> nat \<Rightarrow> bool" where
  "may_instcmd w cid n cmd i \<longleftrightarrow>
     fresh_ups w n i \<and> (\<exists>c \<in> set (sstate_getcmdlist (ups_at w i)). same_nocase c cmd) \<and>
     user_checkinstcmd (accounts w) (c_username w cid) (c_password w cid) cmd"

definition instcmd_line :: "cstring \<Rightarrow> cstring option \<Rightarrow> cstring" where
  "instcmd_line cmd val =
     (let b0 = snprintf SMALLBUF (''INSTCMD '' @ cmd)
      in case val of None \<Rightarrow> b0 | Some v \<Rightarrow> snprintfcat b0 SMALLBUF ('' '' @ pconf_encode v [] SMALLBUF))"

lemma send_instcmd_cases:
  obtains (err) e where "send_instcmd cid n cmd val t w = send_err cid e w" "\<And>i. \<not> may_instcmd w cid n cmd i"
    | (ok) i where "may_instcmd w cid n cmd i"
      "send_instcmd cid n cmd val t w = send_tracked cid i (instcmd_line cmd val) t ''INSTCMD-FAILED'' w"
proof -
  let ?f = "\<lambda>i w. if \<not> (\<exists>c \<in> set (sstate_getcmdlist (ups_at w i)). same_nocase c cmd)
          then send_err cid ''CMD-NOT-SUPPORTED'' w
          else if \<not> user_checkinstcmd (accounts w) (c_username w cid) (c_password w cid) cmd
          then send_err cid ''ACCESS-DENIED'' w
          else send_tracked cid i (instcmd_line cmd val) t ''INSTCMD-FAILED'' w"
  have unfold: "send_instcmd cid n cmd val t = with_fresh_ups cid n ?f"
    by (simp only: send_instcmd_def instcmd_line_def Let_def)
  show thesis
  proof (cases rule: with_fresh_ups_cases [of cid n ?f w])
    case (err e)
    then show thesis using that(1) by (simp add: unfold may_instcmd_def)
  next
    case (ok i)
    have only: "j = i" if "fresh_ups w n j" for j using that ok(1) by (simp add: fresh_ups_def)
    have E: "send_instcmd cid n cmd val t w = ?f i w" by (simp only: unfold ok(2))
    show thesis
    proof (cases "may_instcmd w cid n cmd i")
      case True
      then have "send_instcmd cid n cmd val t w = send_tracked cid i (instcmd_line cmd val) t ''INSTCMD-FAILED'' w"
        unfolding E may_instcmd_def by simp
      then show thesis by (rule that(2) [OF True])
    next
      case False
      then have none: "\<not> may_instcmd w cid n cmd j" for j
        using only [of j] unfolding may_instcmd_def by blast
      have "send_instcmd cid n cmd val t w = send_err cid
          (if \<not> (\<exists>c \<in> set (sstate_getcmdlist (ups_at w i)). same_nocase c cmd) then ''CMD-NOT-SUPPORTED''
           else ''ACCESS-DENIED'') w"
        unfolding E
        by (cases "\<exists>c \<in> set (sstate_getcmdlist (ups_at w i)). same_nocase c cmd";
            use False ok(1) in \<open>simp only: may_instcmd_def if_True if_False simp_thms\<close>)
      then show thesis using none by (rule that(1))
    qed
  qed
qed

section \<open>Access control\<close>

definition authorised :: "world \<Rightarrow> nat \<Rightarrow> cstring \<Rightarrow> bool" where
  "authorised w cid action \<longleftrightarrow> user_checkaction (accounts w) (c_username w cid) (c_password w cid) action"

text \<open>
  The effects that need a grant: \<open>granted_effect w cid arg w'\<close> holds when the line \<open>arg\<close> of
  the client \<open>cid\<close> is one of the four guarded commands, its guard holds in \<open>w\<close>, and the
  UPS list and the lines to the drivers in \<open>w'\<close> are what this command makes of them.
\<close>

inductive granted_effect :: "world \<Rightarrow> nat \<Rightarrow> cstring list \<Rightarrow> world \<Rightarrow> bool" for w cid where
  ge_login: "same_nocase ''LOGIN'' c \<Longrightarrow> authorised w cid ''LOGIN'' \<Longrightarrow> get_ups_ptr w n = Some i \<Longrightarrow>
     firstups w' = (firstups w)[i := (ups_at w i)\<lparr>ups_numlogins := ups_numlogins (ups_at w i) + 1\<rparr>] \<Longrightarrow>
     to_driver w' = to_driver w \<Longrightarrow> granted_effect w cid [c, n] w'"
| ge_fsd: "same_nocase ''FSD'' c \<Longrightarrow> authorised w cid ''FSD'' \<Longrightarrow> get_ups_ptr w n = Some i \<Longrightarrow>
     firstups w' = (firstups w)[i := (ups_at w i)\<lparr>ups_fsd := True\<rparr>] \<Longrightarrow>
     to_driver w' = to_driver w \<Longrightarrow> granted_effect w cid [c, n] w'"
| ge_set: "same_nocase ''SET'' c \<Longrightarrow> same_nocase v ''VAR'' \<Longrightarrow> may_set w cid n var newval i \<Longrightarrow>
     drives i (tracked_line (set_line var newval) t) w w' \<Longrightarrow>
     granted_effect w cid (c # v # n # var # newval # rest) w'"
| ge_instcmd: "same_nocase ''INSTCMD'' c \<Longrightarrow> may_instcmd w cid n cmd i \<Longrightarrow>
     drives i (tracked_line (instcmd_line cmd val) t) w w' \<Longrightarrow>
     granted_effect w cid (c # n # cmd # rest) w'"

inductive_cases granted_effectE: "granted_effect w cid arg w'"

lemma granted_effect_authorised:
  assumes "granted_effect w cid (c # args) w'"
  shows "same_nocase ''INSTCMD'' c \<or> (\<exists>action \<in> {''LOGIN'', ''FSD'', ''SET''}. same_nocase action c \<and> authorised w cid action)"
  using assms by (cases rule: granted_effectE) (auto simp: may_set_def authorised_def)

lemma find_cmd_name: "find_cmd l n = Some c \<Longrightarrow> \<exists>s. (s, c) \<in> set l \<and> same_nocase s n"
  by (induction l) (auto split: if_splits)

lemma netcmds_name:
  assumes "find_cmd netcmds n = Some cmd"
  shows "cmd = LOGIN \<Longrightarrow> same_nocase ''LOGIN'' n" "cmd = FSD \<Longrightarrow> same_nocase ''FSD'' n"
    "cmd = SET \<Longrightarrow> same_nocase ''SET'' n" "cmd = INSTCMD \<Longrightarrow> same_nocase ''INSTCMD'' n"
  using find_cmd_name [OF assms] by (auto simp: netcmds_def)

definition harmless_or_granted :: "world \<Rightarrow> nat \<Rightarrow> cstring list \<Rightarrow> world \<Rightarrow> bool" where
  "harmless_or_granted w cid arg w' \<longleftrightarrow>
     (firstups w' = firstups w \<and> to_driver w' = to_driver w) \<or> granted_effect w cid arg w'"

lemma inert_harmless: "inert cid w w' \<Longrightarrow> harmless_or_granted w cid arg w'"
  by (simp add: inert_def harmless_or_granted_def)

lemma net_login_granted:
  assumes "same_nocase ''LOGIN'' c"
  shows "harmless_or_granted w cid (c # args) (net_login cid args w)"
proof (cases rule: net_login_cases [of cid args w])
  case (err e)
  then show ?thesis by (simp add: harmless_or_granted_def)
next
  case (ok i)
  obtain n where args: "args = [n]" using ok(1) by (cases args) simp_all
  have "granted_effect w cid [c, n] (net_login cid args w)"
    by (rule ge_login [OF assms, where i = i])
      (use ok args in \<open>simp_all add: authorised_def upd_client_def upd_ups_def ups_at_def\<close>)
  then show ?thesis by (simp add: harmless_or_granted_def args)
qed

lemma net_fsd_granted:
  assumes "same_nocase ''FSD'' c"
  shows "harmless_or_granted w cid (c # args) (net_fsd cid args w)"
proof (cases "length args = 1 \<and> get_ups_ptr w (args ! 0) \<noteq> None \<and> authorised w cid ''FSD''")
  case True
  then obtain n i where n: "args = [n]" "get_ups_ptr w n = Some i" by (cases args) auto
  have "granted_effect w cid [c, n] (net_fsd cid args w)"
    by (rule ge_fsd [OF assms _ n(2)])
      (use True n in \<open>simp_all add: net_fsd_def authorised_def upd_ups_def ups_at_def\<close>)
  then show ?thesis by (simp add: harmless_or_granted_def n)
next
  case False
  then show ?thesis
    by (auto simp: harmless_or_granted_def net_fsd_def authorised_def split: option.split)
qed

lemma granted_cong:
  assumes "granted_effect w0 cid arg w'" and "firstups w0 = firstups w" and "to_driver w0 = to_driver w"
    and "accounts w0 = accounts w" and "c_username w0 cid = c_username w cid" and "c_password w0 cid = c_password w cid"
  shows "granted_effect w cid arg w'"
proof -
  have same: "get_ups_ptr w0 = get_ups_ptr w" "ups_at w0 = ups_at w" "authorised w0 cid = authorised w cid"
    "fresh_ups w0 = fresh_ups w" "may_set w0 cid = may_set w cid" "may_instcmd w0 cid = may_instcmd w cid"
    by ((rule ext)+, simp add: get_ups_ptr_def ups_at_def authorised_def fresh_ups_def may_set_def may_instcmd_def assms)+
  have "drives i l w0 v = drives i l w v" for i l v using assms by (simp add: drives_def same)
  then show ?thesis
    using assms(1) unfolding same assms(2,3) granted_effect.simps [of w0] granted_effect.simps [of w] by simp
qed

lemma may_connected: "may_set w cid n v x i \<Longrightarrow> ups_connected (ups_at w i)" "may_instcmd w cid n k i \<Longrightarrow> ups_connected (ups_at w i)"
  by (simp_all add: may_set_def may_instcmd_def fresh_ups_def)

lemma net_set_granted:
  assumes "same_nocase ''SET'' c"
  shows "harmless_or_granted w cid (c # args) (net_set cid args w)"
proof (cases "4 \<le> length args \<and> same_nocase (args ! 0) ''VAR''")
  case True
  then obtain v n var x rest where args: "args = v # n # var # x # rest"
    by (auto simp: numeral_eq_Suc Suc_le_length_iff)
  define w1 where "w1 = (if c_tracking w cid then snd (fresh_uuid w) else w)"
  define t where "t = (if c_tracking w cid then fst (fresh_uuid w) else [])"
  have E: "net_set cid args w = set_var cid n var x t w1"
    using True by (simp add: net_set_def args w1_def t_def case_prod_beta)
  have w1: "firstups w1 = firstups w" "to_driver w1 = to_driver w" "accounts w1 = accounts w"
    "c_username w1 cid = c_username w cid" "c_password w1 cid = c_password w cid"
    by (simp_all add: w1_def fresh_uuid_def c_username_def c_password_def client_at_def)
  show ?thesis
  proof (cases rule: set_var_cases [of cid n var x t w1])
    case (err e)
    then show ?thesis by (simp add: E harmless_or_granted_def w1)
  next
    case (ok i)
    have "granted_effect w1 cid (c # args) (net_set cid args w)"
      unfolding args
      by (rule ge_set [OF assms _ ok(1), where t = t])
        (use True in \<open>simp_all add: args E [unfolded args] ok(2) send_tracked_drives may_connected(1) [OF ok(1)]\<close>)
    then show ?thesis using granted_cong w1 by (simp add: harmless_or_granted_def)
  qed
next
  case False
  then show ?thesis
    by (auto simp: net_set_def harmless_or_granted_def Let_def tracking_enable_def tracking_disable_def
        upd_client_def case_prod_beta)
qed

lemma net_instcmd_granted:
  assumes "same_nocase ''INSTCMD'' c"
  shows "harmless_or_granted w cid (c # args) (net_instcmd cid args w)"
proof (cases "2 \<le> length args")
  case True
  then obtain n cmd rest where args: "args = n # cmd # rest"
    by (auto simp: numeral_eq_Suc Suc_le_length_iff)
  define w1 where "w1 = (if c_tracking w cid then snd (fresh_uuid w) else w)"
  define t where "t = (if c_tracking w cid then fst (fresh_uuid w) else [])"
  define val where "val = (if length args = 3 then Some (args ! 2) else None)"
  have E: "net_instcmd cid args w = send_instcmd cid n cmd val t w1"
    using True by (simp add: net_instcmd_def args w1_def t_def val_def case_prod_beta)
  have w1: "firstups w1 = firstups w" "to_driver w1 = to_driver w" "accounts w1 = accounts w"
    "c_username w1 cid = c_username w cid" "c_password w1 cid = c_password w cid"
    by (simp_all add: w1_def fresh_uuid_def c_username_def c_password_def client_at_def)
  show ?thesis
  proof (cases rule: send_instcmd_cases [of cid n cmd val t w1])
    case (err e)
    then show ?thesis by (simp add: E harmless_or_granted_def w1)
  next
    case (ok i)
    have "granted_effect w1 cid (c # args) (net_instcmd cid args w)"
      unfolding args
      by (rule ge_instcmd [OF assms ok(1), where t = t and val = val])
        (simp add: E [unfolded args] ok(2) send_tracked_drives may_connected(2) [OF ok(1)])
    then show ?thesis using granted_cong w1 by (simp add: harmless_or_granted_def)
  qed
qed (simp add: net_instcmd_def harmless_or_granted_def)

text \<open>
  Property C7: access control. A line of a client changes the UPS list, or sends something to a
  driver, only as one of the guarded effects: \<open>LOGIN\<close>, \<open>FSD\<close> and \<open>SET\<close> by a client
  whose user name and password belong to an account with that action, \<open>INSTCMD\<close> by one whose
  account has that instant command and to a UPS that supports it. The last two reach a driver
  only while it is connected and its data is fresh, \<open>SET\<close> only for a writable variable
  with a value that it may take.
\<close>

theorem effects_need_grant:
  "(firstups (client_line cid arg w) = firstups w \<and> to_driver (client_line cid arg w) = to_driver w)
    \<or> granted_effect w cid arg (client_line cid arg w)"
proof -
  let ?w0 = "upd_client cid (\<lambda>c. c\<lparr>cl_last_heard := wall w\<rparr>) w"
  let ?w' = "parse_net cid arg ?w0"
  have w0: "firstups ?w0 = firstups w" "to_driver ?w0 = to_driver w" "accounts ?w0 = accounts w"
    by (simp_all add: upd_client_def)
  have cr: "c_username ?w0 cid = c_username w cid" "c_password ?w0 cid = c_password w cid"
    by (cases "client_at w cid"; simp add: c_username_def c_password_def client_at_upd_client)+
  have "harmless_or_granted ?w0 cid arg ?w'"
  proof (cases "arg = [] \<or> find_cmd netcmds (arg ! 0) = None")
    case True
    then show ?thesis by (auto simp: parse_net_def harmless_or_granted_def)
  next
    case False
    then obtain c args cmd where arg: "arg = c # args" and cmd: "find_cmd netcmds c = Some cmd"
      by (cases arg) auto
    note name = netcmds_name [OF cmd]
    have "harmless_or_granted ?w0 cid (c # args) (netcmd_func cmd cid args ?w0)"
    proof (cases "cmd \<in> {LOGIN, FSD, SET, INSTCMD}")
      case True
      then show ?thesis
        using net_login_granted net_fsd_granted net_set_granted net_instcmd_granted name by auto
    next
      case False
      then show ?thesis by (rule inert_harmless [OF harmless.S_harmless])
    qed
    then show ?thesis
      by (simp add: arg parse_net_def cmd check_command_def) (simp add: harmless_or_granted_def)
  qed
  then show ?thesis
    using granted_cong [of ?w0 cid arg ?w' w] w0 cr by (auto simp: client_line_def harmless_or_granted_def)
qed

end
