(* ===== verification/LineRender.thy ===== *)
theory LineRender
  imports SocketLine
begin

text \<open>
  The lines that the two ends of the driver socket write: words separated by one blank, each
  either bare or escaped and quoted, as the format strings of \<open>dstate.c\<close>, \<open>netset.c\<close> and
  \<open>netinstcmd.c\<close> make them. The tokenizer reads such a line back.
\<close>

datatype piece = Bare cstring | Quoted cstring

fun piece_word :: "piece \<Rightarrow> cstring" where
  "piece_word (Bare w) = w"
| "piece_word (Quoted w) = w"

fun piece_text :: "piece \<Rightarrow> cstring" where
  "piece_text (Bare w) = w"
| "piece_text (Quoted w) = quoted w"

fun piece_ok :: "nat \<Rightarrow> piece \<Rightarrow> bool" where
  "piece_ok wl (Bare w) \<longleftrightarrow> list_all plain w \<and> w \<noteq> [] \<and> (wl = 0 \<or> length w \<le> wl)"
| "piece_ok wl (Quoted w) \<longleftrightarrow> list_all printable w \<and> (wl = 0 \<or> length w \<le> wl)"

fun render_pieces :: "piece list \<Rightarrow> cstring" where
  "render_pieces [] = []"
| "render_pieces [p] = piece_text p"
| "render_pieces (p # q # ps) = piece_text p @ [CHR 32] @ render_pieces (q # ps)"

definition pieces_ok :: "nat \<Rightarrow> nat \<Rightarrow> piece list \<Rightarrow> bool" where
  "pieces_ok al wl ps \<longleftrightarrow> list_all (piece_ok wl) ps \<and> (al = 0 \<or> length ps \<le> al)"

lemma piece_then_blank:
  assumes "piece_ok wl p" and "al = 0 \<or> length us < al"
  shows "lex_run al wl (piece_text p @ [CHR 32]) (STATE_FINDWORDSTART, [], us)
       = (STATE_FINDWORDSTART, [], us @ [piece_word p])"
proof -
  have "commit al (piece_word p) us = us @ [piece_word p]" using assms(2) by (auto simp: commit_def)
  then show ?thesis
    using assms(1)
    by (cases p) (simp_all add: lex_run_bare, simp add: lex_run_append lex_run_quoted lex_start_def)
qed

lemma piece_then_end:
  assumes "piece_ok wl p" and "al = 0 \<or> length us < al"
  shows "\<not> ended (lex_run al wl (piece_text p) (STATE_FINDWORDSTART, [], us))"
    and "lex_step al wl 10 (lex_run al wl (piece_text p) (STATE_FINDWORDSTART, [], us))
       = (STATE_ENDOFLINE, [], us @ [piece_word p])"
proof -
  have c: "commit al (piece_word p) us = us @ [piece_word p]" using assms(2) by (auto simp: commit_def)
  show "\<not> ended (lex_run al wl (piece_text p) (STATE_FINDWORDSTART, [], us))"
    using assms(1) by (cases p) (simp_all add: lex_run_plain lex_run_quoted ended_def)
  show "lex_step al wl 10 (lex_run al wl (piece_text p) (STATE_FINDWORDSTART, [], us))
       = (STATE_ENDOFLINE, [], us @ [piece_word p])"
    using assms(1) c by (cases p) (simp_all add: lex_run_plain lex_run_quoted lex_start_def)
qed

lemma render_pieces_run:
  assumes "list_all (piece_ok wl) ps" and "al = 0 \<or> length us + length ps \<le> al"
  shows "\<not> ended (lex_run al wl (render_pieces ps) (STATE_FINDWORDSTART, [], us)) \<and>
     lex_step al wl 10 (lex_run al wl (render_pieces ps) (STATE_FINDWORDSTART, [], us))
       = (STATE_ENDOFLINE, [], us @ map piece_word ps)"
  using assms
proof (induction ps arbitrary: us rule: render_pieces.induct)
  case 1
  then show ?case by (simp add: ended_def lex_start_def)
next
  case (2 p)
  then show ?case using piece_then_end [of wl p al us] by auto
next
  case (3 p q ps)
  have "lex_run al wl (piece_text p @ [CHR 32]) (STATE_FINDWORDSTART, [], us)
      = (STATE_FINDWORDSTART, [], us @ [piece_word p])"
    using 3(2,3) by (intro piece_then_blank) auto
  then have "lex_run al wl (render_pieces (p # q # ps)) (STATE_FINDWORDSTART, [], us)
      = lex_run al wl (render_pieces (q # ps)) (STATE_FINDWORDSTART, [], us @ [piece_word p])"
    by (simp add: lex_run_append)
  then show ?case using 3(1) [of "us @ [piece_word p]"] 3(2,3) by simp
qed

lemma line_words_pieces:
  "pieces_ok al wl ps \<Longrightarrow> line_words al wl (render_pieces ps) (map piece_word ps)"
  using render_pieces_run [of wl ps al "[]"] by (simp add: line_words_def pieces_ok_def)

text \<open>One complete line is taken as one message with these words.\<close>

lemma sock_loop_pieces:
  assumes "line_start ctx" and "pieces_ok (arg_limit ctx) (wordlen_limit ctx) ps"
  shows "\<exists>ctx1. sock_loop h (render_pieces ps @ [CHR 10]) (ctx, s) = (ctx1, h (map piece_word ps) s) \<and>
     line_start ctx1 \<and> arg_limit ctx1 = arg_limit ctx \<and> wordlen_limit ctx1 = wordlen_limit ctx"
  using sock_loop_line [OF assms(1) line_words_pieces [OF assms(2)]] .

lemma sock_loop_messages:
  assumes "line_start ctx" and "list_all (pieces_ok (arg_limit ctx) (wordlen_limit ctx)) ms"
  shows "\<exists>ctx1. sock_loop h (concat (map (\<lambda>ps. render_pieces ps @ [CHR 10]) ms)) (ctx, s)
       = (ctx1, foldl (\<lambda>s ps. h (map piece_word ps) s) s ms) \<and>
     line_start ctx1 \<and> arg_limit ctx1 = arg_limit ctx \<and> wordlen_limit ctx1 = wordlen_limit ctx"
  using assms
proof (induction ms arbitrary: ctx s)
  case (Cons ps ms)
  obtain ctx1 where c: "sock_loop h (render_pieces ps @ [CHR 10]) (ctx, s) = (ctx1, h (map piece_word ps) s)"
    "line_start ctx1" "arg_limit ctx1 = arg_limit ctx" "wordlen_limit ctx1 = wordlen_limit ctx"
    using sock_loop_pieces [OF Cons.prems(1), of ps h s] Cons.prems(2) by auto
  have ok: "sock_ok ctx" using Cons.prems(1) by (simp add: line_start_def)
  show ?case
    using sock_loop_append [OF ok, of h "render_pieces ps @ [CHR 10]" _ s] c
      Cons.IH [OF c(2), of "h (map piece_word ps) s"] Cons.prems(2) by simp
qed simp

end
