(* ===== verification/NetAnswers.thy ===== *)
theory NetAnswers
  imports NetAccess LineRender
begin

text \<open>
  What the answers say: the listing of a UPS agrees with the single queries, data that is not
  there or not fresh is never reported, and what \<open>SET\<close> and \<open>INSTCMD\<close> send is read back by
  the tokenizer at the driver's end.
\<close>

section \<open>Writes that succeed\<close>

definition clip :: "cstring \<Rightarrow> cstring" where
  "clip s = snprintf (NUT_NET_ANSWER_MAX + 1) s"

definition tell :: "nat \<Rightarrow> cstring list \<Rightarrow> world \<Rightarrow> world" where
  "tell cid ls w = w\<lparr>sent := sent w @ map (\<lambda>l. (cid, clip l)) ls\<rparr>"

definition writable :: "world \<Rightarrow> nat \<Rightarrow> bool" where
  "writable w cid \<longleftrightarrow> client_at w cid \<noteq> None \<and> client_writes w = []"

lemma sendback_tell: "writable w cid \<Longrightarrow> sendback cid l w = (True, tell cid [l] w)"
  by (auto simp: writable_def sendback_def take_client_write_def tell_def clip_def Let_def)

lemma tell_simps [simp]:
  "writable (tell cid ls w) c = writable w c" "firstups (tell cid ls w) = firstups w"
  "firstclient (tell cid ls w) = firstclient w" "tell cid ks (tell cid ls w) = tell cid (ls @ ks) w"
  "tell cid [] w = w" "sent (tell cid ls w) = sent w @ map (\<lambda>l. (cid, clip l)) ls"
  by (simp_all add: tell_def writable_def client_at_def)

lemma map_snd_tell: "map snd (sent (tell cid ls w)) = map snd (sent w) @ map clip ls"
  by simp

lemma reply_tell: "writable w cid \<Longrightarrow> reply cid l w = tell cid [l] w"
  by (simp add: reply_def sendback_tell)

lemma send_lines_tell: "writable w cid \<Longrightarrow> send_lines cid ls w = (True, tell cid ls w)"
  by (induction ls arbitrary: w) (simp_all add: sendback_tell)

lemma tree_dump_tell:
  "writable w cid \<Longrightarrow> tree_dump t cid n False fsd w =
     (True, tell cid (map (\<lambda>nd. var_line fsd n (st_var nd) (node_val nd)) (st_inorder t)) w)"
  by (induction t arbitrary: w) (simp_all add: sendback_tell)

lemma bracketed_tell:
  assumes "writable w cid" and "\<And>v. writable v cid \<Longrightarrow> body v = (True, tell cid ls v)"
  shows "bracketed cid what body w =
     tell cid ([line [''BEGIN LIST '', what]] @ ls @ [line [''END LIST '', what]]) w"
  using assms by (simp add: bracketed_def sendback_tell reply_tell)

lemma with_fresh_ups_ok: "fresh_ups w n i \<Longrightarrow> with_fresh_ups cid n f w = f i w"
  by (simp add: with_fresh_ups_def with_ups_def ups_available_def fresh_ups_def)

section \<open>LIST VAR and GET VAR\<close>

lemma get_var_of_node:
  assumes "fresh_ups w n i" and "st_tree_wf (ups_inforoot (ups_at w i))"
    and "node \<in> st_nodes (ups_inforoot (ups_at w i))" and "strncasecmp (st_var node) ''server.'' 7 \<noteq> 0"
  shows "get_var cid n (st_var node) w = reply cid (var_line (ups_fsd (ups_at w i)) n (st_var node) (node_val node)) w"
proof -
  have "state_tree_find (ups_inforoot (ups_at w i)) (st_var node) = Some node"
    using assms(2,3) by (intro find_mem) (simp_all add: st_tree_wf_def)
  then show ?thesis
    using assms(1,4) by (simp add: get_var_def with_fresh_ups_ok sstate_getinfo_def state_getinfo_def)
qed

text \<open>
  Property C9: \<open>LIST VAR\<close> is complete and agrees with the single queries. For a UPS with fresh
  data and a client that can be written to, the answer is \<open>BEGIN\<close>, one line per variable in
  ascending order of the names (each variable of the UPS exactly once), \<open>END\<close>; and the line
  of each variable is the one that \<open>GET VAR\<close> answers.
\<close>

theorem list_var_complete:
  assumes "fresh_ups w n i" and "writable w cid" and "st_tree_wf (ups_inforoot (ups_at w i))"
  defines "nodes \<equiv> st_inorder (ups_inforoot (ups_at w i))"
    and "show_var \<equiv> \<lambda>nd. var_line (ups_fsd (ups_at w i)) n (st_var nd) (node_val nd)"
  shows "list_var cid n w =
      tell cid ([line [''BEGIN LIST VAR '', n]] @ map show_var nodes @ [line [''END LIST VAR '', n]]) w
    \<and> sorted_wrt (<) (map st_key nodes) \<and> set nodes = st_nodes (ups_inforoot (ups_at w i))
    \<and> (\<forall>nd \<in> set nodes. strncasecmp (st_var nd) ''server.'' 7 \<noteq> 0 \<longrightarrow> get_var cid n (st_var nd) w = tell cid [show_var nd] w)"
proof -
  have "list_var cid n w = bracketed cid (''VAR '' @ n)
      (tree_dump (ups_inforoot (ups_at w i)) cid n False (ups_fsd (ups_at w i))) w"
    by (simp add: list_var_def with_fresh_ups_ok [OF assms(1)])
  also have "\<dots> = tell cid ([line [''BEGIN LIST '', ''VAR '' @ n]] @ map show_var nodes @ [line [''END LIST '', ''VAR '' @ n]]) w"
    unfolding nodes_def show_var_def by (rule bracketed_tell [OF assms(2)]) (rule tree_dump_tell)
  also have "\<dots> = tell cid ([line [''BEGIN LIST VAR '', n]] @ map show_var nodes @ [line [''END LIST VAR '', n]]) w"
    by (simp add: line_def)
  finally show ?thesis
    using assms(3) get_var_of_node [OF assms(1,3)] reply_tell [OF assms(2)]
    by (simp add: nodes_def show_var_def st_bst_sorted st_tree_wf_def)
qed

lemma served_fresh: "fresh_ups served_world ''myups'' 0"
  by code_simp

theorem list_var_complete_witness:
  "map snd (sent (list_var 4 ''myups'' served_world)) =
     [''BEGIN LIST VAR myups'' @ [CHR 10],
      ''VAR myups ups.status '' @ [CHR 34] @ ''WAIT'' @ [CHR 34, CHR 10],
      ''END LIST VAR myups'' @ [CHR 10]]"
proof -
  have at: "ups_at served_world 0 = live_ups"
    by (simp add: served_world_def client_connect_def sample_world_def ups_at_def)
  have wf: "st_tree_wf (ups_inforoot (ups_at served_world 0))"
    using live_ups_wf by (simp add: at ups_wf_def)
  have "writable served_world 4" by (simp add: writable_def del: not_None_eq)
  note listed = list_var_complete [OF served_fresh this wf]
  have "map clip
      ([line [''BEGIN LIST VAR '', ''myups'']] @
       map (\<lambda>nd. var_line (ups_fsd live_ups) ''myups'' (st_var nd) (node_val nd)) (st_inorder (ups_inforoot live_ups)) @
       [line [''END LIST VAR '', ''myups'']]) =
     [''BEGIN LIST VAR myups'' @ [CHR 10],
      ''VAR myups ups.status '' @ [CHR 34] @ ''WAIT'' @ [CHR 34, CHR 10],
      ''END LIST VAR myups'' @ [CHR 10]]"
    by code_simp
  moreover have "sent served_world = []" by (simp add: served_world_def client_connect_def sample_world_def)
  ultimately show ?thesis
    unfolding conjunct1 [OF listed] at map_snd_tell by (simp only: list.map append_Nil)
qed

section \<open>No data without a live driver\<close>



section \<open>What a driver is told\<close>

lemma drives_line:
  assumes "fresh_ups w n i" and "driver_writes w = []" and "writable w cid"
  shows "send_tracked cid i cmd [] failed w =
     tell cid [line [''OK'']] (w\<lparr>to_driver := to_driver w @ [(ups_name (ups_at w i), snprintfcat cmd SMALLBUF [CHR 10])]\<rparr>)"
proof -
  have "ups_sendline i l w = (True, w\<lparr>to_driver := to_driver w @ [(ups_name (ups_at w i), l)]\<rparr>)" for l
    using assms(1,2)
    by (simp add: ups_sendline_def take_driver_write_def sstate_sendline_def fresh_ups_def upd_ups_def
        ups_at_def Let_def)
  moreover have "writable (w\<lparr>to_driver := x\<rparr>) cid" for x using assms(3) by (simp add: writable_def client_at_def)
  ultimately show ?thesis by (simp add: send_tracked_def Let_def reply_tell)
qed

lemma enc_word_fits: "length (enc_full v) < SMALLBUF \<Longrightarrow> pconf_encode v [] SMALLBUF = enc_full v"
  by (rule pconf_encode_whole) (simp_all add: SMALLBUF_def)

lemma set_line_text:
  assumes "length var + length (enc_full v) \<le> 500"
  shows "snprintfcat (set_line var v) SMALLBUF [CHR 10] = render_pieces [Bare ''SET'', Bare var, Quoted v] @ [CHR 10]"
proof -
  have "pconf_encode v [] SMALLBUF = enc_full v" using assms by (intro enc_word_fits) (simp add: SMALLBUF_def)
  then have "set_line var v = ''SET '' @ var @ '' '' @ quoted v"
    using assms by (simp add: set_line_def SMALLBUF_def snprintf_fits quote_def quoted_def)
  then show ?thesis
    using assms by (simp add: snprintfcat_fits SMALLBUF_def quoted_def)
qed

text \<open>
  Property C8: a permitted \<open>SET\<close> reaches the driver. The client is answered \<open>OK\<close>, exactly one
  line is written to the driver of that UPS, and the tokenizer at the other end splits it into
  \<open>SET\<close>, the name and the value as the client gave it, quotes, backslashes and blanks
  included, as long as the line fits the buffer.
\<close>

theorem set_reaches_driver:
  assumes "may_set w cid n var v i" and "driver_writes w = []" and "writable w cid"
    and "list_all plain var" and "var \<noteq> []" and "list_all printable v"
    and "length var + length (enc_full v) \<le> 500"
  shows "\<exists>l. set_var cid n var v [] w =
       tell cid [line [''OK'']] (w\<lparr>to_driver := to_driver w @ [(ups_name (ups_at w i), l @ [CHR 10])]\<rparr>)
     \<and> line_words 32 512 l [''SET'', var, v]"
proof -
  let ?ps = "[Bare ''SET'', Bare var, Quoted v]"
  have "\<not> may_set w cid n var v j" if "j \<noteq> i" for j
    using assms(1) that by (auto simp: may_set_def fresh_ups_def)
  then have "set_var cid n var v [] w = send_tracked cid i (set_line var v) [] ''SET-FAILED'' w"
    using assms(1) by (cases rule: set_var_cases [of cid n var v "[]" w]) metis+
  also have "\<dots> = tell cid [line [''OK'']]
      (w\<lparr>to_driver := to_driver w @ [(ups_name (ups_at w i), render_pieces ?ps @ [CHR 10])]\<rparr>)"
    using drives_line [OF _ assms(2,3), of n i] assms(1) set_line_text [OF assms(7)] by (simp add: may_set_def)
  finally have sent: "set_var cid n var v [] w = tell cid [line [''OK'']]
      (w\<lparr>to_driver := to_driver w @ [(ups_name (ups_at w i), render_pieces ?ps @ [CHR 10])]\<rparr>)" .
  have "list_all plain ''SET''" by code_simp
  moreover have "length v \<le> 512" "length var \<le> 512" using assms(7) enc_full_length [of v] by auto
  ultimately have "pieces_ok 32 512 ?ps" using assms(4-6) by (simp add: pieces_ok_def)
  then have "line_words 32 512 (render_pieces ?ps) [''SET'', var, v]"
    using line_words_pieces [of 32 512 ?ps] by simp
  then show ?thesis using sent by blast
qed

definition delay_ups :: upstype where
  "delay_ups = live_ups\<lparr>ups_inforoot :=
     state_setflags (snd (state_setinfo Leaf ''outlet.delay'' ''5'' (clock 1))) ''outlet.delay'' [''RW''] (clock 1)\<rparr>"

theorem set_reaches_driver_witness:
  "\<exists>l. to_driver (set_var 4 ''myups'' ''outlet.delay'' ''1 0'' [] (bob_world\<lparr>firstups := [delay_ups]\<rparr>)) = [(''myups'', l @ [CHR 10])]
     \<and> line_words 32 512 l [''SET'', ''outlet.delay'', ''1 0'']"
proof -
  let ?w = "bob_world\<lparr>firstups := [delay_ups]\<rparr>"
  obtain c where c: "client_at bob_world 4 = Some c" "cl_username c = Some ''bob''" "cl_password c = Some ''x''"
    using bob_client by blast
  then have who: "c_username ?w 4 = Some ''bob''" "c_password ?w 4 = Some ''x''"
    by (simp_all add: c_username_def c_password_def client_at_def)
  have at: "firstups ?w = [delay_ups]" "ups_at ?w 0 = delay_ups" "accounts ?w = sample_accounts"
    by (simp_all add: ups_at_def bob_world_frame)
  have "ups_name delay_ups = ''myups''" "ups_connected delay_ups" "\<not> ups_stale delay_ups"
    by (simp_all add: delay_ups_def live_ups_def sstate_connect_def ups_new_def)
  then have fresh: "fresh_ups ?w ''myups'' 0" and name: "ups_name (ups_at ?w 0) = ''myups''"
    by (simp_all add: fresh_ups_def get_ups_ptr_def ups_at_def)
  have "map_option (\<lambda>n. (node_val n, st_flags n, st_aux n, st_enum_list n, st_range_list n))
      (state_tree_find (ups_inforoot delay_ups) ''outlet.delay'') = Some (''5'', 1, 0, [], [])" by code_simp
  then obtain nd where nd: "state_tree_find (ups_inforoot delay_ups) ''outlet.delay'' = Some nd"
    "node_val nd = ''5''" "st_flags nd = 1" "st_enum_list nd = []" "st_range_list nd = []"
    by auto
  have "user_checkaction sample_accounts (Some ''bob'') (Some ''x'') ''SET''" "has_flag 1 ST_FLAG_RW"
    "\<not> has_flag 1 ST_FLAG_STRING" by code_simp+
  moreover have "sstate_getinfo delay_ups ''outlet.delay'' = Some ''5''"
    "sstate_getflags delay_ups ''outlet.delay'' = 1"
    "sstate_getenumlist delay_ups ''outlet.delay'' = []" "sstate_getrangelist delay_ups ''outlet.delay'' = []"
    by (simp_all add: sstate_getinfo_def state_getinfo_def sstate_getflags_def state_getflags_def
        sstate_getenumlist_def state_getenumlist_def sstate_getrangelist_def state_getrangelist_def nd)
  moreover from calculation have "value_error delay_ups ''outlet.delay'' ''1 0'' = None"
    by (simp add: value_error_def Let_def)
  ultimately have may: "may_set ?w 4 ''myups'' ''outlet.delay'' ''1 0'' 0"
    using fresh unfolding may_set_def at who by (simp del: not_None_eq) 
  have "driver_writes bob_world = [] \<and> to_driver bob_world = []" by code_simp
  then have io: "driver_writes ?w = []" "client_writes ?w = []" "to_driver ?w = []"
    by (simp_all add: bob_world_frame)
  have wr: "writable ?w 4" using io c by (simp add: writable_def client_at_def)
  have chars: "list_all plain ''outlet.delay''" "list_all printable ''1 0''"
    "length ''outlet.delay'' + length (enc_full ''1 0'') \<le> 500" by code_simp+
  show ?thesis
    using set_reaches_driver [OF may io(1) wr chars(1) _ chars(2,3)] io(3) name
    by (force simp: tell_def)
qed

text \<open>
  The value of \<open>INSTCMD\<close> is escaped but not quoted, so a value that holds blanks
  reaches the driver as several words: what follows the first blank is taken for further
  arguments (for instance for a \<open>TRACKING\<close> identifier that the server never gave out).
\<close>

theorem instcmd_value_splits:
  assumes "list_all plain cmd" and "cmd \<noteq> []" and "list_all (\<lambda>v. list_all plain v \<and> v \<noteq> []) [v1, v2, v3]"
    and "length cmd + length v1 + length v2 + length v3 \<le> 490"
  shows "line_words 32 512 (instcmd_line cmd (Some (v1 @ '' '' @ v2 @ '' '' @ v3))) [''INSTCMD'', cmd, v1, v2, v3]"
proof -
  let ?ps = "[Bare ''INSTCMD'', Bare cmd, Bare v1, Bare v2, Bare v3]"
  have plain_enc: "list_all plain s \<Longrightarrow> enc_full s = s" for s
    by (induction s) (auto simp: enc_char_def plain_def code_of_def PCONF_ESCAPE_def)
  have app: "enc_full (s @ t) = enc_full s @ enc_full t" for s t by (induction s) simp_all
  have blank: "enc_full '' '' = '' ''" by code_simp
  have v: "list_all plain v1" "list_all plain v2" "list_all plain v3" using assms(3) by simp_all
  have "enc_full (v1 @ '' '' @ v2 @ '' '' @ v3) = v1 @ '' '' @ v2 @ '' '' @ v3"
    using v by (simp only: app blank plain_enc)
  then have "pconf_encode (v1 @ '' '' @ v2 @ '' '' @ v3) [] SMALLBUF = v1 @ '' '' @ v2 @ '' '' @ v3"
    using assms(4) enc_word_fits [of "v1 @ '' '' @ v2 @ '' '' @ v3"] by (simp add: SMALLBUF_def)
  then have "instcmd_line cmd (Some (v1 @ '' '' @ v2 @ '' '' @ v3)) = render_pieces ?ps"
    using assms(4) by (simp add: instcmd_line_def Let_def SMALLBUF_def snprintf_fits snprintfcat_fits)
  moreover have "list_all plain ''INSTCMD''" by code_simp
  then have "pieces_ok 32 512 ?ps" using assms by (simp add: pieces_ok_def)
  ultimately show ?thesis using line_words_pieces [of 32 512 ?ps] by simp
qed

theorem instcmd_value_splits_witness:
  "line_words 32 512 (instcmd_line ''load.off'' (Some ''5 TRACKING id'')) [''INSTCMD'', ''load.off'', ''5'', ''TRACKING'', ''id'']"
proof -
  have ok: "list_all plain ''load.off''" "list_all (\<lambda>v. list_all plain v \<and> v \<noteq> []) [''5'', ''TRACKING'', ''id'']" by code_simp+
  show ?thesis using instcmd_value_splits [OF ok(1) _ ok(2)] by simp
qed

end
