(* ===== verification/Dump.thy ===== *)
theory Dump
  imports Broadcast
begin

text \<open>
  What a connection gets from \<open>sock_arg\<close> of \<open>src/drivers/dstate.c\<close> while its writes succeed: the
  dump, in order, and the answers to the other requests.
\<close>

text \<open>A connection that is open, in a driver whose writes succeed.\<close>

definition calm :: "nat \<Rightarrow> dstate \<Rightarrow> bool" where
  "calm fd st \<longleftrightarrow> ds_writes st = [] \<and> ds_errno st \<noteq> E_notconn \<and>
     (case conn_at st fd of None \<Rightarrow> False | Some c \<Rightarrow> \<not> cn_closing c)"

definition written :: "nat \<Rightarrow> cstring list \<Rightarrow> dstate \<Rightarrow> dstate" where
  "written fd ls st = st\<lparr>wire := wire st @ map (\<lambda>l. (fd, snprintf ST_SOCK_BUF_LEN l)) ls\<rparr>"

lemma written_frame [simp]:
  "ds_writes (written fd ls st) = ds_writes st" "ds_errno (written fd ls st) = ds_errno st"
  "dtree_root (written fd ls st) = dtree_root st" "cmdhead (written fd ls st) = cmdhead st"
  "ds_stale (written fd ls st) = ds_stale st" "connhead (written fd ls st) = connhead st"
  "ds_pid (written fd ls st) = ds_pid st"
  by (simp_all add: written_def)

lemma written_calm [simp]: "calm fd (written fd' ls st) = calm fd st"
  by (simp add: calm_def conn_at_def)

lemma written_written [simp]: "written fd ls' (written fd ls st) = written fd (ls @ ls') st"
  by (simp add: written_def)

lemma written_Nil [simp]: "written fd [] st = st"
  by (simp add: written_def)

lemma calm_guard: "calm fd st \<Longrightarrow> closed_guard fd st body = body"
  by (auto simp: calm_def closed_guard_def split: option.splits)

lemma calm_errno: "calm fd st \<Longrightarrow> ds_errno st \<noteq> E_notconn"
  by (simp add: calm_def)

lemma send_to_one_calm:
  "calm fd st \<Longrightarrow> l \<noteq> [] \<Longrightarrow> send_to_one fd l st = Done (1, written fd [l] st)"
  by (auto simp: calm_def send_to_one_def do_write_def take_write_def written_def split: option.splits)

lemma send_each_calm:
  "calm fd st \<Longrightarrow> [] \<notin> set ls \<Longrightarrow> send_each fd ls st = Done (1, written fd ls st)"
  by (induction ls arbitrary: st) (auto simp: send_to_one_calm after_send_def calm_errno)

lemma node_lines_nonempty: "[] \<notin> set (node_lines n)"
  by (auto simp: node_lines_def setinfo_line_def)

lemma dump_node_calm:
  "calm fd st \<Longrightarrow> st_tree_dump_conn_one_node n fd st = Done (1, written fd (node_lines n) st)"
  by (simp add: st_tree_dump_conn_one_node_def calm_guard send_each_calm node_lines_nonempty)

definition tree_lines :: "st_tree \<Rightarrow> cstring list" where
  "tree_lines t = concat (map node_lines (st_inorder t))"

lemma tree_lines_simps [simp]:
  "tree_lines Leaf = []" "tree_lines (Node l n r) = tree_lines l @ node_lines n @ tree_lines r"
  by (simp_all add: tree_lines_def)

lemma dump_tree_calm:
  "calm fd st \<Longrightarrow> st_tree_dump_conn t fd st = Done (1, written fd (tree_lines t) st)"
proof (induction t arbitrary: st)
  case Leaf
  then show ?case by (simp add: calm_guard)
next
  case (Node l n r)
  have right: "(if r = Leaf then Done (1, s)
      else andthen (st_tree_dump_conn r fd s) (\<lambda>(ret, st3). if ds_errno st3 = E_notconn then Done (- 2, st3) else Done (ret, st3)))
      = Done (1, written fd (tree_lines r) s)" if "calm fd s" for s
    using that Node.IH(2) [OF that] by (simp add: calm_errno)
  have rest: "andthen (st_tree_dump_conn_one_node n fd s) (\<lambda>r2. after_send r2
      (\<lambda>st2. if r = Leaf then Done (1, st2)
        else andthen (st_tree_dump_conn r fd st2) (\<lambda>(ret, st3). if ds_errno st3 = E_notconn then Done (- 2, st3) else Done (ret, st3))))
      = Done (1, written fd (node_lines n @ tree_lines r) s)" if "calm fd s" for s
    using that right [of "written fd (node_lines n) s"] by (simp add: dump_node_calm after_send_def calm_errno)
  show ?case
    using Node.prems rest [OF Node.prems] rest [of "written fd (tree_lines l) st"] Node.IH(1) [OF Node.prems]
    by (simp add: calm_guard after_send_def calm_errno)
qed

definition cmd_lines :: "cstring list \<Rightarrow> cstring list" where
  "cmd_lines cs = map (\<lambda>c. ''ADDCMD '' @ c @ [CHR 10]) cs"

lemma dump_cmds_calm:
  "calm fd st \<Longrightarrow> cmd_dump_conn fd st = Done (1, written fd (cmd_lines (cmdhead st)) st)"
  by (simp add: cmd_dump_conn_def calm_guard send_each_calm cmd_lines_def image_iff)

section \<open>Requests\<close>

definition dump_answer :: "dstate \<Rightarrow> cstring list \<Rightarrow> cstring list" where
  "dump_answer st body =
     (if ds_stale st then [''DATASTALE'' @ [CHR 10]] else []) @ body
     @ (if ds_stale st then [] else [''DATAOK'' @ [CHR 10]]) @ [''DUMPDONE'' @ [CHR 10]]"

lemma arg_dump_calm:
  assumes "calm fd st" and body: "\<And>s. calm fd s \<Longrightarrow> dtree_root s = dtree_root st \<Longrightarrow> cmdhead s = cmdhead st \<Longrightarrow>
      dump_body fd arg s = Done (1, written fd ls s)"
  shows "arg_dump fd arg st = Done (1, written fd (dump_answer st ls) st)"
  using assms(1) by (cases "ds_stale st")
    (simp_all add: arg_dump_def Let_def send_to_one_calm sent_or_def finish_def calm_errno body dump_answer_def)

lemma dump_keywords:
  "\<not> same_nocase ''DUMPALL'' ''LOGOUT''" "\<not> same_nocase ''DUMPALL'' ''GETPID''"
  "\<not> same_nocase ''DUMPVALUE'' ''LOGOUT''" "\<not> same_nocase ''DUMPVALUE'' ''GETPID''"
  "\<not> same_nocase ''DUMPVALUE'' ''DUMPALL''" "\<not> same_nocase ''DUMPVALUE'' ''DUMPSTATUS''"
  "\<not> same_nocase ''DUMPSTATUS'' ''LOGOUT''" "\<not> same_nocase ''DUMPSTATUS'' ''GETPID''"
  "\<not> same_nocase ''DUMPSTATUS'' ''DUMPALL''"
  by code_simp+

lemma dumpall_calm:
  assumes "calm fd st"
  shows "sock_arg h fd [''DUMPALL''] st =
     Done (1, written fd (dump_answer st (tree_lines (dtree_root st) @ cmd_lines (cmdhead st))) st)"
proof -
  have "dump_body fd [''DUMPALL''] s = Done (1, written fd (tree_lines (dtree_root st) @ cmd_lines (cmdhead st)) s)"
    if "calm fd s" "dtree_root s = dtree_root st" "cmdhead s = cmdhead st" for s
    using that by (simp add: dump_body_def dump_tree_calm dump_cmds_calm sent_or_def calm_errno)
  from arg_dump_calm [OF assms this] show ?thesis
    unfolding sock_arg_def calm_guard [OF assms] Let_def
    by (simp only: nth_Cons_0 dump_keywords same_nocase_refl simp_thms if_False if_True list.size) simp
qed

lemma dumpvalue_calm:
  assumes "calm fd st"
  shows "sock_arg h fd [''DUMPVALUE'', v] st =
     Done (1, written fd (dump_answer st (case state_tree_find (dtree_root st) v of None \<Rightarrow> [] | Some n \<Rightarrow> node_lines n)) st)"
proof -
  have "dump_body fd [''DUMPVALUE'', v] s =
      Done (1, written fd (case state_tree_find (dtree_root st) v of None \<Rightarrow> [] | Some n \<Rightarrow> node_lines n) s)"
    if "calm fd s" "dtree_root s = dtree_root st" "cmdhead s = cmdhead st" for s
    using that by (auto simp: dump_body_def dump_node_calm sent_or_def calm_errno dump_keywords split: option.split)
  from arg_dump_calm [OF assms this] show ?thesis
    unfolding sock_arg_def calm_guard [OF assms] Let_def
    by (simp only: nth_Cons_0 dump_keywords same_nocase_refl simp_thms if_False if_True list.size) simp
qed

end
