(* ===== verification/Mirror.thy ===== *)
theory Mirror
  imports Dump Sstate LineRender
begin

text \<open>
  The two ends together: the lines a driver writes (\<open>src/drivers/dstate.c\<close>) as words, what the
  data server (\<open>src/server/sstate.c\<close>) makes of them, and the copy of the driver's state that
  results.
\<close>

section \<open>Escaped values\<close>

fun dec :: "cstring \<Rightarrow> cstring" where
  "dec [] = []"
| "dec [c] = [c]"
| "dec (c # d # cs) = (if c = CHR 92 then d # dec cs else c # dec (d # cs))"

lemma dec_enc_char: "dec (enc_char c @ s) = c # dec s"
  by (cases s) (auto simp: enc_char_def PCONF_ESCAPE_def)

lemma dec_enc_full [simp]: "dec (enc_full s) = s"
  by (induction s) (simp_all add: enc_full_def dec_enc_char)

text \<open>What a driver publishes: the encoding, possibly of a prefix, always short enough.\<close>

lemma published_value:
  assumes "e = pconf_encode r [] ST_MAX_VALUE_LEN"
  shows "e = enc_full (dec e)" and "pconf_encode (dec e) [] ST_MAX_VALUE_LEN = e"
    and "length e < ST_MAX_VALUE_LEN" and "length (dec e) < ST_MAX_VALUE_LEN"
    and "list_all printable r \<Longrightarrow> list_all printable (dec e)"
proof -
  have two: "2 \<le> ST_MAX_VALUE_LEN" by (simp add: ST_MAX_VALUE_LEN_def)
  have e: "e = pconf_encode_loop 255 [] r" using assms by (simp add: pconf_encode_def ST_MAX_VALUE_LEN_def)
  have "\<exists>k \<le> length r. pconf_encode_loop 255 [] r = enc_full (take k r) \<and> length (pconf_encode_loop 255 [] r) \<le> 255"
    using pconf_encode_loop_prefix [of 255 "[]" r] by auto
  then obtain k where k: "e = enc_full (take k r)" "length e < ST_MAX_VALUE_LEN"
    unfolding e by (auto simp: ST_MAX_VALUE_LEN_def)
  have d: "dec e = take k r" using k(1) by simp
  show "e = enc_full (dec e)" using k(1) d by simp
  then show "pconf_encode (dec e) [] ST_MAX_VALUE_LEN = e"
    using k(2) pconf_encode_whole [OF _ two, of "dec e" "[]"] by simp
  show "length e < ST_MAX_VALUE_LEN" by (rule k(2))
  then show "length (dec e) < ST_MAX_VALUE_LEN"
    using enc_full_length [of "dec e"] k(1) d by simp
  show "list_all printable r \<Longrightarrow> list_all printable (dec e)"
    unfolding d by (auto simp: list_all_iff dest: in_set_takeD)
qed

section \<open>Lines as words\<close>

datatype feed =
    Feed_info cstring cstring
  | Feed_enum cstring cstring
  | Feed_range cstring int int
  | Feed_aux cstring int
  | Feed_flags cstring "32 word"
  | Feed_cmd cstring
  | Feed_word cstring

definition flag_names :: "32 word \<Rightarrow> cstring list" where
  "flag_names fl =
     (if has_flag fl ST_FLAG_RW then [''RW''] else []) @ (if has_flag fl ST_FLAG_STRING then [''STRING''] else [])
     @ (if has_flag fl ST_FLAG_NUMBER then [''NUMBER''] else [])"

fun feed_pieces :: "feed \<Rightarrow> piece list" where
  "feed_pieces (Feed_info v x) = [Bare ''SETINFO'', Bare v, Quoted x]"
| "feed_pieces (Feed_enum v x) = [Bare ''ADDENUM'', Bare v, Quoted x]"
| "feed_pieces (Feed_range v lo hi) = [Bare ''ADDRANGE'', Bare v, Bare (int_dec lo), Bare (int_dec hi)]"
| "feed_pieces (Feed_aux v a) = [Bare ''SETAUX'', Bare v, Bare (int_dec a)]"
| "feed_pieces (Feed_flags v fl) = [Bare ''SETFLAGS'', Bare v] @ map Bare (flag_names fl)"
| "feed_pieces (Feed_cmd c) = [Bare ''ADDCMD'', Bare c]"
| "feed_pieces (Feed_word w) = [Bare w]"

definition feed_line :: "feed \<Rightarrow> cstring" where
  "feed_line f = render_pieces (feed_pieces f) @ [CHR 10]"

definition node_feeds :: "st_node \<Rightarrow> feed list" where
  "node_feeds n =
     [Feed_info (st_var n) (dec (node_val n))]
     @ map (\<lambda>e. Feed_enum (st_var n) (dec e)) (st_enum_list n)
     @ map (\<lambda>r. Feed_range (st_var n) (fst r) (snd r)) (st_range_list n)
     @ (if st_aux n \<noteq> 0 then [Feed_aux (st_var n) (st_aux n)] else [])
     @ (if st_flags n \<noteq> 0 then [Feed_flags (st_var n) (st_flags n)] else [])"

text \<open>What has to hold of a variable for its lines to fit the buffers and to be split at the right places.\<close>

definition name_ok :: "cstring \<Rightarrow> bool" where
  "name_ok v \<longleftrightarrow> list_all plain v \<and> v \<noteq> [] \<and> length v \<le> 200"

definition value_ok :: "cstring \<Rightarrow> bool" where
  "value_ok e \<longleftrightarrow> e = enc_full (dec e) \<and> length e < ST_MAX_VALUE_LEN \<and> list_all printable (dec e)"

definition int_ok :: "int \<Rightarrow> bool" where
  "int_ok i \<longleftrightarrow> INT_MIN \<le> i \<and> i \<le> INT_MAX"

definition node_sendable :: "st_node \<Rightarrow> bool" where
  "node_sendable n \<longleftrightarrow> name_ok (st_var n) \<and> value_ok (node_val n) \<and> list_all value_ok (st_enum_list n)
     \<and> list_all (\<lambda>r. int_ok (fst r) \<and> int_ok (snd r)) (st_range_list n)
     \<and> LONG_MIN \<le> st_aux n \<and> st_aux n \<le> LONG_MAX"

lemma nat_dec_length: "n < 10 ^ k \<Longrightarrow> 0 < k \<Longrightarrow> length (nat_dec n) \<le> k"
proof (induction n arbitrary: k rule: nat_dec.induct)
  case (1 n)
  show ?case
  proof (cases "n < 10")
    case True
    then show ?thesis using 1(3) by (subst nat_dec.simps) simp
  next
    case False
    then obtain j where j: "k = Suc j" "0 < j" using 1(2,3) by (cases k; cases "k - 1") auto
    then have "n div 10 < 10 ^ j" using 1(2) by (simp add: div_less_iff_less_mult mult.commute)
    then have "length (nat_dec (n div 10)) \<le> j" using 1(1) [OF False] j(2) by simp
    then show ?thesis using False j(1) by (subst nat_dec.simps) simp
  qed
qed

lemma int_dec_length:
  assumes "\<bar>i\<bar> < 10 ^ k" and "0 < k"
  shows "length (int_dec i) \<le> Suc k"
proof -
  have "nat \<bar>i\<bar> < 10 ^ k" using assms(1) by (simp add: nat_less_iff)
  from nat_dec_length [OF this assms(2)] show ?thesis by (auto simp: int_dec_def)
qed

lemma int_ok_length: "int_ok i \<Longrightarrow> length (int_dec i) \<le> 11"
  using int_dec_length [of i 10] by (auto simp: int_ok_def INT_MIN_def INT_MAX_def)

lemma long_length: "LONG_MIN \<le> i \<Longrightarrow> i \<le> LONG_MAX \<Longrightarrow> length (int_dec i) \<le> 20"
  using int_dec_length [of i 19] by (auto simp: LONG_MIN_def LONG_MAX_def)

lemma plain_digit: "d < 10 \<Longrightarrow> plain (digit_char d)"
  by (simp add: plain_def code_of_digit_char)

lemma nat_dec_plain: "list_all plain (nat_dec n)"
  by (induction n rule: nat_dec.induct) (subst nat_dec.simps, simp add: plain_digit)

lemma int_dec_plain [simp]: "list_all plain (int_dec i)" "int_dec i \<noteq> []"
proof -
  have "plain (CHR ''-'')" by code_simp
  then show "list_all plain (int_dec i)" by (simp add: int_dec_def nat_dec_plain)
  show "int_dec i \<noteq> []" by (simp add: int_dec_def nat_dec_nonempty)
qed

text \<open>The driver writes these lines, and none of them is cut.\<close>

lemma render_Cons: "ps \<noteq> [] \<Longrightarrow> render_pieces (p # ps) = piece_text p @ [CHR 32] @ render_pieces ps"
  by (cases ps) simp_all

lemma value_line:
  "value_ok e \<Longrightarrow> [CHR 34] @ e @ [CHR 34] = quoted (dec e)"
  by (simp add: value_ok_def quoted_def)

lemma flag_list_text:
  assumes "name_ok v"
  shows "flag_list v fl = render_pieces (map Bare (v # flag_names fl))"
proof -
  have len: "length v \<le> 200" using assms by (simp add: name_ok_def)
  have "snprintf SMALLBUF v = v" using len by (simp add: snprintf_fits SMALLBUF_def)
  then show ?thesis
    using len by (simp add: flag_list_def flag_names_def Let_def snprintfcat_fits SMALLBUF_def)
qed

lemma node_lines_feeds:
  assumes "node_sendable n"
  shows "node_lines n = map feed_line (node_feeds n)"
proof -
  have v: "name_ok (st_var n)" and x: "value_ok (node_val n)" and es: "list_all value_ok (st_enum_list n)"
    using assms by (simp_all add: node_sendable_def)
  have "setinfo_line (st_var n) (node_val n) = feed_line (Feed_info (st_var n) (dec (node_val n)))"
    using value_line [OF x] by (simp add: setinfo_line_def feed_line_def)
  moreover have "map (\<lambda>e. ''ADDENUM '' @ st_var n @ '' '' @ [CHR 34] @ e @ [CHR 34, CHR 10]) (st_enum_list n)
      = map feed_line (map (\<lambda>e. Feed_enum (st_var n) (dec e)) (st_enum_list n))"
    using es value_line by (auto simp: feed_line_def list_all_iff)
  moreover have "''SETFLAGS '' @ flag_list (st_var n) (st_flags n) @ [CHR 10] = feed_line (Feed_flags (st_var n) (st_flags n))"
    using flag_list_text [OF v] by (simp add: feed_line_def render_Cons)
  ultimately show ?thesis
    unfolding node_lines_def node_feeds_def by (simp add: feed_line_def)
qed

lemma keywords_plain:
  "list_all (list_all plain) [''SETINFO'', ''ADDENUM'', ''ADDRANGE'', ''SETAUX'', ''SETFLAGS'', ''ADDCMD'', ''RW'', ''STRING'', ''NUMBER'',
     ''DATAOK'', ''DATASTALE'', ''DUMPDONE'']"
  by code_simp

fun feed_ok :: "feed \<Rightarrow> bool" where
  "feed_ok (Feed_info v x) \<longleftrightarrow> name_ok v \<and> value_ok (enc_full x)"
| "feed_ok (Feed_enum v x) \<longleftrightarrow> name_ok v \<and> value_ok (enc_full x)"
| "feed_ok (Feed_range v lo hi) \<longleftrightarrow> name_ok v \<and> int_ok lo \<and> int_ok hi"
| "feed_ok (Feed_aux v a) \<longleftrightarrow> name_ok v \<and> LONG_MIN \<le> a \<and> a \<le> LONG_MAX"
| "feed_ok (Feed_flags v fl) \<longleftrightarrow> name_ok v"
| "feed_ok (Feed_cmd c) \<longleftrightarrow> name_ok c"
| "feed_ok (Feed_word w) \<longleftrightarrow> w \<in> {''DATAOK'', ''DATASTALE'', ''DUMPDONE''}"

lemma node_feeds_ok: "node_sendable n \<Longrightarrow> list_all feed_ok (node_feeds n)"
  by (auto simp: node_sendable_def node_feeds_def value_ok_def list_all_iff)

lemma flag_names_ok:
  "set (flag_names fl) \<subseteq> {''RW'', ''STRING'', ''NUMBER''}" "length (flag_names fl) \<le> 3"
  by (auto simp: flag_names_def)

lemma piece_int: "length (int_dec i) \<le> 20 \<Longrightarrow> piece_ok 512 (Bare (int_dec i))"
  by simp

lemma feed_pieces_ok:
  assumes "feed_ok f"
  shows "pieces_ok 32 512 (feed_pieces f)"
proof -
  note kw = keywords_plain [simplified]
  have name: "piece_ok 512 (Bare v)" if "name_ok v" for v using that by (simp add: name_ok_def)
  have quot: "piece_ok 512 (Quoted x)" if "value_ok (enc_full x)" for x
    using that enc_full_length [of x] by (simp add: value_ok_def ST_MAX_VALUE_LEN_def)
  have int: "piece_ok 512 (Bare (int_dec i))" if "int_ok i" for i
    using int_ok_length [OF that] by (intro piece_int) simp
  have flags: "list_all (piece_ok 512) (map Bare (flag_names fl))" for fl
    using flag_names_ok(1) [of fl] kw by (auto simp: list_all_iff)
  have long: "piece_ok 512 (Bare (int_dec a))" if "LONG_MIN \<le> a" "a \<le> LONG_MAX" for a
    using long_length [OF that] by (intro piece_int)
  have short: "length (flag_names fl) \<le> 30" for fl using flag_names_ok(2) [of fl] by simp
  show ?thesis
    using assms name quot int long flags short kw
    by (cases f) (auto simp: pieces_ok_def simp del: piece_ok.simps(2))
qed

lemma feed_line_fits:
  assumes "feed_ok f"
  shows "length (feed_line f) < ST_SOCK_BUF_LEN"
proof -
  note size = feed_line_def ST_SOCK_BUF_LEN_def
  have quot: "length (quoted x) \<le> 257" if "value_ok (enc_full x)" for x
    using that by (simp add: value_ok_def quoted_def ST_MAX_VALUE_LEN_def)
  show ?thesis
  proof (cases f)
    case (Feed_info v x)
    then show ?thesis using assms quot [of x] by (simp add: size name_ok_def)
  next
    case (Feed_enum v x)
    then show ?thesis using assms quot [of x] by (simp add: size name_ok_def)
  next
    case (Feed_range v lo hi)
    then show ?thesis using assms int_ok_length [of lo] int_ok_length [of hi] by (simp add: size name_ok_def)
  next
    case (Feed_aux v a)
    then show ?thesis using assms long_length [of a] by (simp add: size name_ok_def)
  next
    case (Feed_flags v fl)
    then show ?thesis using assms by (simp add: size name_ok_def flag_names_def)
  qed (use assms in \<open>auto simp: size name_ok_def\<close>)
qed

section \<open>What the server makes of them\<close>

text \<open>The part of the server's record of a UPS that lines of these kinds change.\<close>

type_synonym ups_view = "st_tree \<times> cstring list \<times> bool \<times> bool"

definition view :: "upstype \<Rightarrow> ups_view" where
  "view u = (ups_inforoot u, ups_cmdlist u, ups_data_ok u, ups_dumpdone u)"

fun feed_tree :: "timespec \<Rightarrow> feed \<Rightarrow> st_tree \<Rightarrow> st_tree" where
  "feed_tree clk (Feed_info v x) t = snd (state_setinfo t v x clk)"
| "feed_tree clk (Feed_enum v x) t = snd (state_addenum t v x clk)"
| "feed_tree clk (Feed_range v lo hi) t = snd (state_addrange t v lo hi clk)"
| "feed_tree clk (Feed_aux v a) t = snd (state_setaux t v (int_dec a) clk)"
| "feed_tree clk (Feed_flags v fl) t = (if flag_names fl = [] then t else state_setflags t v (flag_names fl) clk)"
| "feed_tree clk f t = t"

fun feed_view :: "timespec \<Rightarrow> feed \<Rightarrow> ups_view \<Rightarrow> ups_view" where
  "feed_view clk (Feed_cmd c) (t, cs, ok, done) = (t, snd (state_addcmd cs c), ok, done)"
| "feed_view clk (Feed_word w) (t, cs, ok, done) = (t, cs, if w = ''DATAOK'' then True else if w = ''DATASTALE'' then False else ok, done \<or> w = ''DUMPDONE'')"
| "feed_view clk f (t, cs, ok, done) = (feed_tree clk f t, cs, ok, done)"

definition feed_words :: "feed \<Rightarrow> cstring list" where
  "feed_words f = map piece_word (feed_pieces f)"

text \<open>None of the words written is one that \<open>parse_args\<close> compares with earlier.\<close>

lemma earlier_words:
  "list_all (\<lambda>b. \<not> same_nocase ''DUMPDONE'' b) [''PONG'']"
  "list_all (\<lambda>b. \<not> same_nocase ''DATASTALE'' b) [''PONG'', ''DUMPDONE'']"
  "list_all (\<lambda>b. \<not> same_nocase ''DATAOK'' b) [''PONG'', ''DUMPDONE'', ''DATASTALE'']"
  "list_all (\<lambda>b. \<not> same_nocase ''ADDCMD'' b) [''PONG'', ''DUMPDONE'', ''DATASTALE'', ''DATAOK'']"
  "list_all (\<lambda>b. \<not> same_nocase ''SETFLAGS'' b) [''PONG'', ''DUMPDONE'', ''DATASTALE'', ''DATAOK'', ''ADDCMD'', ''DELCMD'', ''DELINFO'']"
  "list_all (\<lambda>b. \<not> same_nocase ''SETINFO'' b) [''PONG'', ''DUMPDONE'', ''DATASTALE'', ''DATAOK'', ''ADDCMD'', ''DELCMD'', ''DELINFO'', ''SETFLAGS'']"
  "list_all (\<lambda>b. \<not> same_nocase ''ADDENUM'' b) [''PONG'', ''DUMPDONE'', ''DATASTALE'', ''DATAOK'', ''ADDCMD'', ''DELCMD'', ''DELINFO'', ''SETFLAGS'', ''SETINFO'']"
  "list_all (\<lambda>b. \<not> same_nocase ''SETAUX'' b) [''PONG'', ''DUMPDONE'', ''DATASTALE'', ''DATAOK'', ''ADDCMD'', ''DELCMD'', ''DELINFO'', ''SETFLAGS'', ''SETINFO'', ''ADDENUM'', ''DELENUM'']"
  "list_all (\<lambda>b. \<not> same_nocase ''ADDRANGE'' b) [''PONG'', ''DUMPDONE'', ''DATASTALE'', ''DATAOK'', ''ADDCMD'', ''DELCMD'', ''DELINFO'', ''SETFLAGS'', ''SETINFO'', ''ADDENUM'', ''DELENUM'', ''SETAUX'', ''TRACKING'']"
  by code_simp+

lemma feed_driver_line:
  assumes "feed_ok f"
  shows "view (fst (driver_line now clk (feed_words f) st)) = feed_view clk f (view (fst st))
     \<and> snd (driver_line now clk (feed_words f) st) = snd st"
proof -
  obtain u tr where st: "st = (u, tr)" by fastforce
  note sd = st driver_line_def parse_args_def view_def feed_words_def
  note sw = earlier_words [unfolded list.pred_inject]
  show ?thesis
  proof (cases f)
    case (Feed_info v x)
    then show ?thesis by (simp add: sd sw)
  next
    case (Feed_enum v x)
    then show ?thesis by (simp add: sd sw)
  next
    case (Feed_range v lo hi)
    then show ?thesis using assms by (simp add: sd sw int_ok_def atoi_int_dec)
  next
    case (Feed_aux v a)
    then show ?thesis by (simp add: sd sw)
  next
    case (Feed_flags v fl)
    then show ?thesis by (cases "flag_names fl") (simp_all add: sd sw comp_def)
  next
    case (Feed_cmd c)
    then show ?thesis by (simp add: sd sw)
  next
    case (Feed_word w)
    then consider "w = ''DATAOK''" | "w = ''DATASTALE''" | "w = ''DUMPDONE''" using assms by auto
    then show ?thesis by cases (simp_all add: Feed_word sd sw)
  qed
qed

lemma feeds_read:
  assumes "list_all feed_ok fs"
  shows "view (fst (foldl (\<lambda>s f. driver_line now clk (feed_words f) s) st fs)) = foldl (\<lambda>w f. feed_view clk f w) (view (fst st)) fs
     \<and> snd (foldl (\<lambda>s f. driver_line now clk (feed_words f) s) st fs) = snd st"
  using assms
proof (induction fs arbitrary: st)
  case (Cons f fs)
  then show ?case
    using feed_driver_line [of f now clk st] Cons.IH [of "driver_line now clk (feed_words f) st"] by simp
qed simp

lemma lines_read:
  assumes "line_start (ups_sock_ctx u)" and "arg_limit (ups_sock_ctx u) = 32" and "wordlen_limit (ups_sock_ctx u) = 512"
    and "ups_connected u" and "list_all feed_ok fs"
  shows "view (fst (sstate_readline (Read_bytes (concat (map feed_line fs))) now clk (u, tr))) = foldl (\<lambda>w f. feed_view clk f w) (view u) fs
     \<and> snd (sstate_readline (Read_bytes (concat (map feed_line fs))) now clk (u, tr)) = tr"
proof -
  have ok: "list_all (pieces_ok 32 512) (map feed_pieces fs)"
    using assms(5) feed_pieces_ok by (auto simp: list_all_iff)
  have lines: "concat (map feed_line fs) = concat (map (\<lambda>ps. render_pieces ps @ [CHR 10]) (map feed_pieces fs))"
    by (simp add: feed_line_def [abs_def] comp_def)
  obtain ctx where r: "sock_loop (driver_line now clk) (concat (map feed_line fs)) (ups_sock_ctx u, (u, tr))
      = (ctx, foldl (\<lambda>s ps. driver_line now clk (map piece_word ps) s) (u, tr) (map feed_pieces fs))"
    unfolding lines using sock_loop_messages [OF assms(1), of "map feed_pieces fs" "driver_line now clk" "(u, tr)"] ok assms(2,3) by auto
  have fold: "foldl (\<lambda>s ps. driver_line now clk (map piece_word ps) s) (u, tr) (map feed_pieces fs)
      = foldl (\<lambda>s f. driver_line now clk (feed_words f) s) (u, tr) fs"
    by (simp add: foldl_map feed_words_def)
  note F = feeds_read [OF assms(5), of now clk "(u, tr)"]
  show ?thesis
    using assms(4) r F fold by (auto simp: sstate_readline_def view_def split: prod.splits)
qed

end
