(* ===== verification/Resync.thy ===== *)
theory Resync
  imports Mirror
begin

text \<open>
  After a connection the data server asks for \<open>DUMPALL\<close>; this theory shows that the copy it
  builds from the answer is the driver's state.
\<close>

section \<open>One variable\<close>

definition visible_flags :: "32 word \<Rightarrow> 32 word" where
  "visible_flags fl = fl AND (ST_FLAG_RW OR ST_FLAG_STRING OR ST_FLAG_NUMBER)"

text \<open>The server's node agrees with the driver's in everything a client can ask for.\<close>

definition mirrors :: "st_node \<Rightarrow> st_node \<Rightarrow> bool" where
  "mirrors n m \<longleftrightarrow> node_val m = node_val n \<and> st_enum_list m = st_enum_list n \<and> st_range_list m = st_range_list n
     \<and> st_aux m = st_aux n \<and> st_flags m = visible_flags (st_flags n)"

lemma has_flag_bit:
  "has_flag fl ST_FLAG_RW = bit fl 0" "has_flag fl ST_FLAG_STRING = bit fl 1" "has_flag fl ST_FLAG_NUMBER = bit fl 2"
  using and_exp_eq_0_iff_not_bit [of fl 0] and_exp_eq_0_iff_not_bit [of fl 1] and_exp_eq_0_iff_not_bit [of fl 2]
  by (simp_all add: has_flag_def ST_FLAG_RW_def ST_FLAG_STRING_def ST_FLAG_NUMBER_def)

lemma parse_flag_names: "parse_flags (flag_names fl) 0 = visible_flags fl"
proof -
  have kw: "\<not> same_nocase ''STRING'' ''RW''" "\<not> same_nocase ''NUMBER'' ''RW''" "\<not> same_nocase ''NUMBER'' ''STRING''"
    by code_simp+
  have "visible_flags fl = (if bit fl 0 then ST_FLAG_RW else 0) OR (if bit fl 1 then ST_FLAG_STRING else 0)
      OR (if bit fl 2 then ST_FLAG_NUMBER else 0)"
    by (rule bit_word_eqI)
      (auto simp: visible_flags_def ST_FLAG_RW_def ST_FLAG_STRING_def ST_FLAG_NUMBER_def bit_simps numeral_eq_Suc less_Suc_eq)
  then show ?thesis by (simp add: flag_names_def has_flag_bit kw or.assoc)
qed

text \<open>A line about a known variable works on its node and on no other.\<close>

fun feed_node :: "timespec \<Rightarrow> feed \<Rightarrow> st_node \<Rightarrow> st_node" where
  "feed_node clk (Feed_enum v x) m =
     m\<lparr>st_lastset := clk, st_enum_list := snd (st_tree_enum_add (st_enum_list m) (pconf_encode x [] ST_MAX_VALUE_LEN))\<rparr>"
| "feed_node clk (Feed_range v lo hi) m =
     (if lo > hi then m else m\<lparr>st_lastset := clk, st_range_list := snd (st_tree_range_add (st_range_list m) lo hi)\<rparr>)"
| "feed_node clk (Feed_aux v a) m = m\<lparr>st_lastset := clk, st_aux := a\<rparr>"
| "feed_node clk (Feed_flags v fl) m =
     (if flag_names fl = [] then m else m\<lparr>st_lastset := clk, st_flags := visible_flags fl\<rparr>)"
| "feed_node clk f m = m"

fun attr_of :: "feed \<Rightarrow> cstring option" where
  "attr_of (Feed_enum v x) = Some v"
| "attr_of (Feed_range v lo hi) = Some v"
| "attr_of (Feed_aux v a) = (if LONG_MIN \<le> a \<and> a \<le> LONG_MAX then Some v else None)"
| "attr_of (Feed_flags v fl) = Some v"
| "attr_of f = None"

definition put_at :: "cstring \<Rightarrow> st_node \<Rightarrow> st_tree \<Rightarrow> st_tree \<Rightarrow> bool" where
  "put_at v m t t' \<longleftrightarrow> (\<forall>w. state_tree_find t' w = (if same_nocase v w then Some m else state_tree_find t w))"

lemma put_at_refl: "state_tree_find t v = Some m \<Longrightarrow> put_at v m t t"
  using find_nocase_cong [of v _ t] by (auto simp: put_at_def)

lemma put_at_trans: "put_at v m t t' \<Longrightarrow> put_at v m' t' t'' \<Longrightarrow> put_at v m' t t''"
  by (simp add: put_at_def)

lemma put_at_find: "put_at v m t t' \<Longrightarrow> state_tree_find t' v = Some m"
  by (simp add: put_at_def)

lemma modify_put_at:
  assumes "state_tree_find t v = Some m" and "\<And>n. st_var (g n) = st_var n"
  shows "put_at v (g m) t (st_tree_modify t v g)"
  using assms find_modify [of g t v] by (auto simp: put_at_def st_key_def)

lemma feed_tree_node:
  assumes "attr_of f = Some v" and "state_tree_find t v = Some m"
  shows "put_at v (feed_node clk f m) t (feed_tree clk f t)"
proof (cases f)
  case (Feed_enum u x)
  obtain r es where e: "st_tree_enum_add (st_enum_list m) (pconf_encode x [] ST_MAX_VALUE_LEN) = (r, es)" by fastforce
  show ?thesis
    using assms Feed_enum e modify_put_at [OF assms(2), of "\<lambda>n. (st_tree_node_refresh_timestamp clk n)\<lparr>st_enum_list := es\<rparr>"]
    by (simp add: state_addenum_def st_tree_node_refresh_timestamp_def)
next
  case (Feed_range u lo hi)
  obtain r rs where e: "st_tree_range_add (st_range_list m) lo hi = (r, rs)" by fastforce
  show ?thesis
    using assms Feed_range e put_at_refl [OF assms(2)]
      modify_put_at [OF assms(2), of "\<lambda>n. (st_tree_node_refresh_timestamp clk n)\<lparr>st_range_list := rs\<rparr>"]
    by (simp add: state_addrange_def st_tree_node_refresh_timestamp_def)
next
  case (Feed_aux u a)
  then have s: "strtol (int_dec a) 10 = (a, [], OK)" and u: "u = v"
    using assms(1) strtol_int_dec by (auto split: if_splits)
  have same: "m\<lparr>st_lastset := clk, st_aux := st_aux m\<rparr> = m\<lparr>st_lastset := clk\<rparr>" by (cases m) simp
  show ?thesis
  proof (cases "st_aux m = a")
    case True
    then show ?thesis
      using assms(2) Feed_aux u s same modify_put_at [OF assms(2), of "st_tree_node_refresh_timestamp clk"]
      by (auto simp: state_setaux_def st_tree_node_refresh_timestamp_def Let_def)
  next
    case False
    then show ?thesis
      using assms(2) Feed_aux u s modify_put_at [OF assms(2), of "\<lambda>n. (st_tree_node_refresh_timestamp clk n)\<lparr>st_aux := a\<rparr>"]
      by (simp add: state_setaux_def st_tree_node_refresh_timestamp_def Let_def)
  qed
next
  case (Feed_flags u fl)
  then show ?thesis
    using assms put_at_refl [OF assms(2)] parse_flag_names
      modify_put_at [OF assms(2), of "\<lambda>n. (st_tree_node_refresh_timestamp clk n)\<lparr>st_flags := visible_flags fl\<rparr>"]
    by (simp add: state_setflags_def st_tree_node_refresh_timestamp_def)
qed (use assms in simp_all)

lemma feed_trees_node:
  assumes "\<forall>f \<in> set fs. attr_of f = Some v" and "state_tree_find t v = Some m"
  shows "put_at v (foldl (\<lambda>m f. feed_node clk f m) m fs) t (foldl (\<lambda>t f. feed_tree clk f t) t fs)"
  using assms
proof (induction fs arbitrary: t m)
  case (Cons f fs)
  have p: "put_at v (feed_node clk f m) t (feed_tree clk f t)" using Cons.prems by (intro feed_tree_node) simp_all
  show ?case
    using put_at_trans [OF p Cons.IH [OF _ put_at_find [OF p]]] Cons.prems(1) by simp
qed (simp add: put_at_refl)

section \<open>All lines of a variable\<close>

text \<open>What the driver's own operations maintain: no value twice, no range that shares a bound with another.\<close>

definition ranges_ok :: "(int \<times> int) list \<Rightarrow> bool" where
  "ranges_ok rs \<longleftrightarrow> list_all (\<lambda>r. fst r \<le> snd r) rs \<and> distinct (map fst rs) \<and> distinct (map snd rs)"

definition node_ok :: "st_node \<Rightarrow> bool" where
  "node_ok n \<longleftrightarrow> node_sendable n \<and> distinct (st_enum_list n) \<and> ranges_ok (st_range_list n)"

lemma value_ok_encode: "value_ok e \<Longrightarrow> pconf_encode (dec e) [] ST_MAX_VALUE_LEN = e"
  using pconf_encode_whole [of "dec e" ST_MAX_VALUE_LEN "[]"] by (simp add: value_ok_def ST_MAX_VALUE_LEN_def)

lemma enum_add_spec: "st_tree_enum_add es e = (if e \<in> set es then (0, es) else (1, es @ [e]))"
  by (induction es) auto

lemma feed_enums:
  assumes "list_all value_ok es" and "distinct (st_enum_list m @ es)"
  shows "\<exists>c. foldl (\<lambda>m f. feed_node clk f m) m (map (\<lambda>e. Feed_enum v (dec e)) es)
     = m\<lparr>st_lastset := c, st_enum_list := st_enum_list m @ es\<rparr>"
  using assms
proof (induction es arbitrary: m)
  case Nil
  then show ?case by (intro exI [of _ "st_lastset m"]) simp
next
  case (Cons e es)
  then show ?case
    using Cons.IH [of "m\<lparr>st_lastset := clk, st_enum_list := st_enum_list m @ [e]\<rparr>"]
    by (simp add: enum_add_spec value_ok_encode)
qed

lemma feed_ranges:
  assumes "ranges_ok (st_range_list m @ rs)"
  shows "\<exists>c. foldl (\<lambda>m f. feed_node clk f m) m (map (\<lambda>r. Feed_range v (fst r) (snd r)) rs)
     = m\<lparr>st_lastset := c, st_range_list := st_range_list m @ rs\<rparr>"
  using assms
proof (induction rs arbitrary: m)
  case Nil
  then show ?case by (intro exI [of _ "st_lastset m"]) simp
next
  case (Cons r rs)
  have "\<not> (\<exists>q \<in> set (st_range_list m). fst q = fst r \<or> snd q = snd r)" "fst r \<le> snd r"
    using Cons.prems by (auto simp: ranges_ok_def image_iff)
  then show ?case
    using Cons.prems Cons.IH [of "m\<lparr>st_lastset := clk, st_range_list := st_range_list m @ [r]\<rparr>"]
    by (auto simp: range_add_spec)
qed

text \<open>A node without attributes, as on the server's side of a fresh connection.\<close>

definition bare :: "st_node \<Rightarrow> bool" where
  "bare m \<longleftrightarrow> node_wf m \<and> st_enum_list m = [] \<and> st_range_list m = [] \<and> st_aux m = 0 \<and> st_flags m = 0"

lemma info_node:
  assumes "value_ok e" and "case old of None \<Rightarrow> True | Some m \<Rightarrow> bare m"
  shows "bare (put_node v (dec e, clk) old) \<and> node_val (put_node v (dec e, clk) old) = e"
proof (cases old)
  case None
  then show ?thesis
    using new_node_wf [of v "dec e" clk] value_ok_encode [OF assms(1)] by (simp add: put_node_def bare_def node_wf_def)
next
  case (Some m)
  then have m: "bare m" using assms(2) by simp
  then have w: "node_wf (snd (set_node m (dec e) clk))" by (intro set_node_wf) (simp add: bare_def)
  have "\<not> has_flag 0 ST_FLAG_IMMUTABLE" by (simp add: has_flag_def)
  then show ?thesis
    using Some m w set_node_raw [of m "dec e" clk] value_ok_encode [OF assms(1)]
    by (simp add: put_node_def bare_def node_wf_def)
qed

lemma visible_zero: "flag_names fl = [] \<longleftrightarrow> visible_flags fl = 0"
proof
  assume "flag_names fl = []"
  then show "visible_flags fl = 0" using parse_flag_names [of fl] by simp
next
  assume "visible_flags fl = 0"
  then have "\<not> bit (visible_flags fl) 0" "\<not> bit (visible_flags fl) 1" "\<not> bit (visible_flags fl) 2" by simp_all
  then have "\<not> bit fl 0" "\<not> bit fl 1" "\<not> bit fl 2"
    by (simp_all add: visible_flags_def bit_simps ST_FLAG_RW_def ST_FLAG_STRING_def ST_FLAG_NUMBER_def)
  then show "flag_names fl = []" by (simp add: flag_names_def has_flag_bit)
qed

lemma node_fed:
  assumes "node_ok n" and "case state_tree_find t (st_var n) of None \<Rightarrow> True | Some m \<Rightarrow> bare m"
  shows "\<exists>m. mirrors n m \<and> put_at (st_var n) m t (foldl (\<lambda>t f. feed_tree clk f t) t (node_feeds n))"
proof -
  let ?v = "st_var n"
  have ok: "value_ok (node_val n)" "list_all value_ok (st_enum_list n)" "distinct (st_enum_list n)" "ranges_ok (st_range_list n)"
    "LONG_MIN \<le> st_aux n" "st_aux n \<le> LONG_MAX"
    using assms(1) by (simp_all add: node_ok_def node_sendable_def)
  define m0 where "m0 = put_node ?v (dec (node_val n), clk) (state_tree_find t ?v)"
  define t0 where "t0 = feed_tree clk (Feed_info ?v (dec (node_val n))) t"
  have m0: "bare m0" "node_val m0 = node_val n" using info_node [OF ok(1) assms(2)] by (simp_all add: m0_def)
  have p0: "put_at ?v m0 t t0" by (simp add: put_at_def t0_def m0_def find_setinfo)
  define fs where "fs = tl (node_feeds n)"
  have attrs: "\<forall>f \<in> set fs. attr_of f = Some ?v" using ok by (auto simp: fs_def node_feeds_def)
  have p1: "put_at ?v (foldl (\<lambda>m f. feed_node clk f m) m0 fs) t0 (foldl (\<lambda>t f. feed_tree clk f t) t0 fs)"
    by (rule feed_trees_node [OF attrs put_at_find [OF p0]])
  have split: "node_feeds n = Feed_info ?v (dec (node_val n)) # fs" by (simp add: fs_def node_feeds_def)
  obtain c where c: "foldl (\<lambda>m f. feed_node clk f m) m0 (map (\<lambda>e. Feed_enum ?v (dec e)) (st_enum_list n))
      = m0\<lparr>st_lastset := c, st_enum_list := st_enum_list n\<rparr>"
    using feed_enums [of "st_enum_list n" m0 clk ?v] ok m0 by (auto simp: bare_def)
  obtain d where d: "foldl (\<lambda>m f. feed_node clk f m) (m0\<lparr>st_lastset := c, st_enum_list := st_enum_list n\<rparr>)
       (map (\<lambda>r. Feed_range ?v (fst r) (snd r)) (st_range_list n))
      = m0\<lparr>st_enum_list := st_enum_list n, st_lastset := d, st_range_list := st_range_list n\<rparr>"
    using feed_ranges [of "m0\<lparr>st_lastset := c, st_enum_list := st_enum_list n\<rparr>" "st_range_list n" clk ?v] ok m0 by (auto simp: bare_def)
  have val: "node_val (m\<lparr>st_aux := a\<rparr>) = node_val m" "node_val (m\<lparr>st_lastset := x\<rparr>) = node_val m"
    "node_val (m\<lparr>st_flags := g\<rparr>) = node_val m" "node_val (m\<lparr>st_enum_list := es\<rparr>) = node_val m"
    "node_val (m\<lparr>st_range_list := rs\<rparr>) = node_val m" for m a x g es rs
    by (simp_all add: node_val_def split: val_ptr.splits)
  have zero: "visible_flags 0 = 0" by (simp add: visible_flags_def)
  have "mirrors n (foldl (\<lambda>m f. feed_node clk f m) m0 fs)"
    using m0 val visible_zero zero
    by (auto simp: fs_def node_feeds_def c d mirrors_def bare_def)
  then show ?thesis using put_at_trans [OF p0 p1] split by (auto simp: t0_def)
qed

section \<open>The whole dump\<close>

definition feed_all :: "timespec \<Rightarrow> feed list \<Rightarrow> st_tree \<Rightarrow> st_tree" where
  "feed_all clk fs t = foldl (\<lambda>t f. feed_tree clk f t) t fs"

lemma nodes_fed:
  assumes "\<forall>n \<in> set ns. node_ok n" and "sorted_wrt (<) (map st_key ns)"
    and "\<forall>n \<in> set ns. case state_tree_find t (st_var n) of None \<Rightarrow> True | Some m \<Rightarrow> bare m"
  shows "(\<forall>n \<in> set ns. \<exists>m. mirrors n m \<and> state_tree_find (feed_all clk (concat (map node_feeds ns)) t) (st_var n) = Some m)
     \<and> (\<forall>w. (\<forall>n \<in> set ns. \<not> same_nocase (st_var n) w) \<longrightarrow>
            state_tree_find (feed_all clk (concat (map node_feeds ns)) t) w = state_tree_find t w)"
  using assms
proof (induction ns arbitrary: t)
  case (Cons n ns)
  have other: "\<not> same_nocase (st_var n) (st_var k)" if "k \<in> set ns" for k
    using Cons.prems(2) that by (auto simp: same_nocase_iff st_key_def)
  obtain m where m: "mirrors n m" "put_at (st_var n) m t (feed_all clk (node_feeds n) t)"
    using node_fed [of n t clk] Cons.prems(1,3) by (auto simp: feed_all_def)
  let ?t = "feed_all clk (node_feeds n) t"
  have t: "state_tree_find ?t w = (if same_nocase (st_var n) w then Some m else state_tree_find t w)" for w
    using m(2) by (simp add: put_at_def)
  have split: "feed_all clk (concat (map node_feeds (n # ns))) t = feed_all clk (concat (map node_feeds ns)) ?t"
    by (simp add: feed_all_def)
  have "\<forall>k \<in> set ns. case state_tree_find ?t (st_var k) of None \<Rightarrow> True | Some m \<Rightarrow> bare m"
    using Cons.prems(3) other t by simp
  from Cons.IH [OF _ _ this] Cons.prems(1,2) have IH:
    "\<forall>k \<in> set ns. \<exists>m. mirrors k m \<and> state_tree_find (feed_all clk (concat (map node_feeds ns)) ?t) (st_var k) = Some m"
    "\<forall>w. (\<forall>k \<in> set ns. \<not> same_nocase (st_var k) w) \<longrightarrow> state_tree_find (feed_all clk (concat (map node_feeds ns)) ?t) w = state_tree_find ?t w"
    by simp_all
  have "\<forall>k \<in> set ns. \<not> same_nocase (st_var k) (st_var n)"
    using other by (metis same_nocase_sym)
  then have "state_tree_find (feed_all clk (concat (map node_feeds ns)) ?t) (st_var n) = Some m"
    using IH(2) t by simp
  then show ?case using IH m(1) t unfolding split by auto
qed (simp add: feed_all_def)

lemma addcmd_at_end: "\<forall>d \<in> set cs. fold_case d < fold_case c \<Longrightarrow> snd (state_addcmd cs c) = cs @ [c]"
  by (induction cs) (auto simp: strcasecmp_sign case_prod_beta dest: less_asym)

lemma cmds_fed: "cmd_sorted (bs @ cs) \<Longrightarrow> foldl (\<lambda>bs c. snd (state_addcmd bs c)) bs cs = bs @ cs"
proof (induction cs arbitrary: bs)
  case (Cons c cs)
  have "\<forall>d \<in> set bs. fold_case d < fold_case c" using Cons.prems by (simp add: cmd_sorted_def sorted_wrt_append)
  then show ?case using Cons addcmd_at_end by simp
qed simp

definition is_tree_feed :: "feed \<Rightarrow> bool" where
  "is_tree_feed f \<longleftrightarrow> (case f of Feed_cmd _ \<Rightarrow> False | Feed_word _ \<Rightarrow> False | _ \<Rightarrow> True)"

lemma tree_feeds_view:
  "list_all is_tree_feed fs \<Longrightarrow> foldl (\<lambda>w f. feed_view clk f w) (t, rest) fs = (feed_all clk fs t, rest)"
proof (induction fs arbitrary: t)
  case (Cons f fs)
  obtain cs ok dd where "rest = (cs, ok, dd)" by (cases rest) auto
  then show ?case using Cons by (cases f) (simp_all add: is_tree_feed_def feed_all_def)
qed (simp add: feed_all_def)

lemma cmd_feeds_view:
  "foldl (\<lambda>w f. feed_view clk f w) (t, bs, ok, dd) (map Feed_cmd cs) = (t, foldl (\<lambda>bs c. snd (state_addcmd bs c)) bs cs, ok, dd)"
  by (induction cs arbitrary: bs) simp_all

text \<open>Everything that \<open>DUMPALL\<close> makes a driver write, as words.\<close>

definition dump_feeds :: "dstate \<Rightarrow> feed list" where
  "dump_feeds st =
     (if ds_stale st then [Feed_word ''DATASTALE''] else []) @ concat (map node_feeds (st_inorder (dtree_root st)))
     @ map Feed_cmd (cmdhead st) @ (if ds_stale st then [] else [Feed_word ''DATAOK'']) @ [Feed_word ''DUMPDONE'']"

definition dumpable :: "dstate \<Rightarrow> bool" where
  "dumpable st \<longleftrightarrow> st_bst (dtree_root st) \<and> (\<forall>n \<in> st_nodes (dtree_root st). node_ok n)
     \<and> cmd_sorted (cmdhead st) \<and> list_all name_ok (cmdhead st)"

lemma dump_feeds_ok:
  assumes "dumpable st"
  shows "list_all feed_ok (dump_feeds st)"
proof -
  have "list_all feed_ok (node_feeds n)" if "n \<in> set (st_inorder (dtree_root st))" for n
    using assms that by (intro node_feeds_ok) (simp add: dumpable_def node_ok_def)
  then show ?thesis using assms by (auto simp: dump_feeds_def list_all_iff dumpable_def)
qed

lemma dump_lines_feeds:
  assumes "dumpable st"
  shows "dump_answer st (tree_lines (dtree_root st) @ cmd_lines (cmdhead st)) = map feed_line (dump_feeds st)"
proof -
  have "map node_lines (st_inorder (dtree_root st)) = map (map feed_line) (map node_feeds (st_inorder (dtree_root st)))"
    using assms node_lines_feeds by (auto simp: dumpable_def node_ok_def)
  then have "tree_lines (dtree_root st) = map feed_line (concat (map node_feeds (st_inorder (dtree_root st))))"
    by (simp only: tree_lines_def map_concat)
  moreover have "cmd_lines (cmdhead st) = map feed_line (map Feed_cmd (cmdhead st))"
    by (simp add: cmd_lines_def feed_line_def)
  ultimately show ?thesis by (simp add: dump_answer_def dump_feeds_def feed_line_def)
qed

lemma node_feeds_tree: "list_all is_tree_feed (node_feeds n)"
  by (auto simp: node_feeds_def is_tree_feed_def list_all_iff)

lemma dump_view:
  assumes "cmd_sorted (cmdhead st)"
  shows "foldl (\<lambda>w f. feed_view clk f w) (t, [], ok, dd) (dump_feeds st) =
     (feed_all clk (concat (map node_feeds (st_inorder (dtree_root st)))) t, cmdhead st, \<not> ds_stale st, True)"
proof -
  have tree: "list_all is_tree_feed (concat (map node_feeds (st_inorder (dtree_root st))))"
    using node_feeds_tree by (auto simp: list_all_iff)
  show ?thesis
    using cmds_fed [of "[]" "cmdhead st"] assms
    by (simp add: dump_feeds_def tree_feeds_view [OF tree] cmd_feeds_view)
qed

text \<open>
  Property C13: after a dump the server's copy is the driver's state. \<open>DUMPALL\<close> on a connection
  whose writes succeed writes some bytes; when the data server reads them into a fresh record
  of that UPS, every variable of the driver reads at the server exactly as at the driver, with
  the same enumerated values, ranges, auxiliary value and client-visible flags, no other
  variable is touched, the command lists are equal, and the server knows whether the data is
  stale and that the dump is complete.
\<close>

theorem dump_mirrors_driver:
  assumes "calm fd st" and "dumpable st"
    and "ups_connected ups" and "line_start (ups_sock_ctx ups)"
    and "arg_limit (ups_sock_ctx ups) = 32" and "wordlen_limit (ups_sock_ctx ups) = 512"
    and "\<forall>n \<in> st_nodes (ups_inforoot ups). bare n" and "ups_cmdlist ups = []"
  shows "\<exists>ls st' ups'. sock_arg h fd [''DUMPALL''] st = Done (1, st')
     \<and> wire st' = wire st @ map (\<lambda>l. (fd, l)) ls
     \<and> sstate_readline (Read_bytes (concat ls)) now clk (ups, tr) = (ups', tr)
     \<and> (\<forall>v. case dstate_tree_find st v of
              Some n \<Rightarrow> (\<exists>m. sstate_getnode ups' v = Some m \<and> mirrors n m)
            | None \<Rightarrow> sstate_getnode ups' v = sstate_getnode ups v)
     \<and> sstate_getcmdlist ups' = cmdhead st \<and> ups_data_ok ups' = (\<not> ds_stale st) \<and> ups_dumpdone ups'"
proof -
  let ?fs = "dump_feeds st" and ?ns = "st_inorder (dtree_root st)"
  let ?ls = "map feed_line ?fs"
  have "map (\<lambda>l. snprintf ST_SOCK_BUF_LEN l) ?ls = ?ls"
    using dump_feeds_ok [OF assms(2)] feed_line_fits by (simp add: list_all_iff snprintf_fits)
  then have sent: "sock_arg h fd [''DUMPALL''] st = Done (1, st\<lparr>wire := wire st @ map (\<lambda>l. (fd, l)) ?ls\<rparr>)"
    using dumpall_calm [OF assms(1), of h] dump_lines_feeds [OF assms(2)] by (simp add: written_def comp_def)
  define ups' where "ups' = fst (sstate_readline (Read_bytes (concat ?ls)) now clk (ups, tr))"
  note R = lines_read [OF assms(4-6,3) dump_feeds_ok [OF assms(2)], of now clk tr]
  have sorted: "cmd_sorted (cmdhead st)" and bst: "st_bst (dtree_root st)" using assms(2) by (simp_all add: dumpable_def)
  have v: "view ups' = (feed_all clk (concat (map node_feeds ?ns)) (ups_inforoot ups), cmdhead st, \<not> ds_stale st, True)"
    using R dump_view [OF sorted, of clk "ups_inforoot ups"] assms(8) by (simp add: ups'_def view_def)
  have "case state_tree_find (ups_inforoot ups) w of None \<Rightarrow> True | Some m \<Rightarrow> bare m" for w
    using find_SomeD assms(7) by (auto split: option.split)
  then have N: "\<forall>n \<in> set ?ns. \<exists>m. mirrors n m \<and> sstate_getnode ups' (st_var n) = Some m"
    "\<forall>w. (\<forall>n \<in> set ?ns. \<not> same_nocase (st_var n) w) \<longrightarrow> sstate_getnode ups' w = sstate_getnode ups w"
    using nodes_fed [of ?ns "ups_inforoot ups" clk] st_bst_sorted [OF bst] assms(2) v
    by (simp_all add: view_def sstate_getnode_def dumpable_def)
  have "case dstate_tree_find st w of Some n \<Rightarrow> (\<exists>m. sstate_getnode ups' w = Some m \<and> mirrors n m)
      | None \<Rightarrow> sstate_getnode ups' w = sstate_getnode ups w" for w
  proof (cases "dstate_tree_find st w")
    case None
    then show ?thesis using N(2) find_None_iff [OF bst, of w] by (simp add: dstate_tree_find_def)
  next
    case (Some n)
    then have n: "n \<in> set ?ns" "same_nocase (st_var n) w" using find_SomeD by (simp_all add: dstate_tree_find_def)
    then have "sstate_getnode ups' w = sstate_getnode ups' (st_var n)"
      unfolding sstate_getnode_def using find_nocase_cong by metis
    then show ?thesis using Some N(1) n(1) by auto
  qed
  moreover have "sstate_readline (Read_bytes (concat ?ls)) now clk (ups, tr) = (ups', tr)"
    using R by (simp add: ups'_def prod_eq_iff)
  ultimately show ?thesis
    using sent v by (intro exI [of _ ?ls] exI [of _ "st\<lparr>wire := wire st @ map (\<lambda>l. (fd, l)) ?ls\<rparr>"] exI [of _ ups'])
      (simp add: view_def sstate_getcmdlist_def)
qed

definition battery_driver :: dstate where
  "battery_driver =
     (demo_driver 0 [client_conn 4 False False] [])\<lparr>
        dtree_root := Node Leaf ((new_node ''battery.charge'' ''95 #'' (clock 1))
          \<lparr>st_flags := ST_FLAG_RW, st_enum_list := [''90'', ''95''], st_range_list := [(0, 100)]\<rparr>) Leaf,
        cmdhead := [''load.off'', ''load.on'']\<rparr>"

lemma battery_driver_dumpable: "dumpable battery_driver"
proof -
  let ?n = "(new_node ''battery.charge'' ''95 #'' (clock 1))\<lparr>st_flags := ST_FLAG_RW, st_enum_list := [''90'', ''95''], st_range_list := [(0, 100)]\<rparr>"
  have "name_ok ''battery.charge''" "name_ok ''load.off''" "name_ok ''load.on''"
    "value_ok (node_val ?n)" "value_ok ''90''" "value_ok ''95''" "cmd_sorted [''load.off'', ''load.on'']"
    by code_simp+
  then show ?thesis
    by (simp add: dumpable_def battery_driver_def node_ok_def node_sendable_def ranges_ok_def int_ok_def
        INT_MIN_def INT_MAX_def LONG_MIN_def LONG_MAX_def)
qed

theorem dump_mirrors_driver_witness:
  "\<exists>ls ups'. sstate_readline (Read_bytes (concat ls)) 9 (clock 9) (live_ups, tracking_on) = (ups', tracking_on)
     \<and> sstate_getinfo ups' ''Battery.Charge'' = Some (pconf_encode ''95 #'' [] ST_MAX_VALUE_LEN)
     \<and> sstate_getcmdlist ups' = [''load.off'', ''load.on''] \<and> ups_data_ok ups'"
proof -
  have calm: "calm 4 battery_driver"
    by (simp add: calm_def battery_driver_def demo_driver_def conn_at_def client_conn_def)
  have fresh: "\<forall>n \<in> st_nodes (ups_inforoot live_ups). bare n" "ups_cmdlist live_ups = []"
    using new_node_wf by (simp_all add: live_ups_def sstate_connect_def ups_new_def bare_def)
  have start: "line_start (ups_sock_ctx live_ups)" by simp
  have lim: "arg_limit (ups_sock_ctx live_ups) = 32" "wordlen_limit (ups_sock_ctx live_ups) = 512"
    by (simp_all add: pconf_init_def PCONF_DEFAULT_ARG_LIMIT_def PCONF_DEFAULT_WORDLEN_LIMIT_def)
  let ?h = "\<lparr>main_instcmd = \<lambda>a b c s. Done (1, s), upsh_instcmd = None, main_setvar = \<lambda>a b c s. Done (1, s), upsh_setvar = None\<rparr>"
  have find: "map_option node_val (dstate_tree_find battery_driver ''Battery.Charge'')
      = Some (pconf_encode ''95 #'' [] ST_MAX_VALUE_LEN)" "cmdhead battery_driver = [''load.off'', ''load.on'']" "\<not> ds_stale battery_driver"
    by code_simp+
  then obtain n where n: "dstate_tree_find battery_driver ''Battery.Charge'' = Some n"
    "node_val n = pconf_encode ''95 #'' [] ST_MAX_VALUE_LEN" by auto
  obtain ls ups' where r: "sstate_readline (Read_bytes (concat ls)) 9 (clock 9) (live_ups, tracking_on) = (ups', tracking_on)"
    "\<And>v. case dstate_tree_find battery_driver v of Some n \<Rightarrow> (\<exists>m. sstate_getnode ups' v = Some m \<and> mirrors n m)
            | None \<Rightarrow> sstate_getnode ups' v = sstate_getnode live_ups v"
    "sstate_getcmdlist ups' = cmdhead battery_driver" "ups_data_ok ups' = (\<not> ds_stale battery_driver)"
    using dump_mirrors_driver [OF calm battery_driver_dumpable live_ups_ctx(2) start lim fresh, of ?h 9 "clock 9" tracking_on] by blast
  obtain m where "sstate_getnode ups' ''Battery.Charge'' = Some m" "mirrors n m"
    using r(2) [of "''Battery.Charge''"] n(1) by auto
  then have "sstate_getinfo ups' ''Battery.Charge'' = Some (pconf_encode ''95 #'' [] ST_MAX_VALUE_LEN)"
    using n(2) by (simp add: sstate_getinfo_def state_getinfo_def sstate_getnode_def mirrors_def)
  then show ?thesis
    by (intro exI [of _ ls] exI [of _ ups'] conjI) (use r find in simp_all)
qed

end
