(* ===== verification/ReloadSpec.thy ===== *)
theory ReloadSpec
  imports UpsdSteps
begin

text \<open>
  A reload changes the list of devices to what \<open>ups.conf\<close> says and leaves alone what it does
  not mention: the data and the logins of the devices that stay.
\<close>

section \<open>The table of one reading\<close>

definition complete :: "ups_t \<Rightarrow> bool" where
  "complete t \<longleftrightarrow> ut_driver t \<noteq> None \<and> ut_port t \<noteq> None"

definition state_file :: "ups_t \<Rightarrow> cstring" where
  "state_file t = snprintf NUT_PATH_MAX ((case ut_driver t of Some dr \<Rightarrow> dr | None \<Rightarrow> []) @ ''-'' @ ut_upsname t)"

definition names :: "ups_t \<Rightarrow> upstype \<Rightarrow> bool" where
  "names t u \<longleftrightarrow> complete t \<and> same_nocase (ups_name u) (ut_upsname t)"

definition updated :: "ups_t \<Rightarrow> upstype \<Rightarrow> upstype" where
  "updated t u = (redefine (state_file t) u)\<lparr>ups_desc := ut_desc t, ups_retain := True\<rparr>"

definition created :: "ups_t \<Rightarrow> upstype \<Rightarrow> bool" where
  "created t u \<longleftrightarrow> ups_name u = ut_upsname t \<and> ups_fn u = state_file t \<and> ups_desc u = ut_desc t \<and> ups_retain u
     \<and> ups_numlogins u = 0"

lemma add_entry_incomplete: "\<not> complete t \<Longrightarrow> add_entry b junk conn t d = d"
  by (auto simp: add_entry_def complete_def split: option.split)

lemma add_entry_known:
  assumes "complete t" and "distinct (map (fold_case \<circ> ups_name) (firstups (srv d)))"
    and "u \<in> set (firstups (srv d))" and "names t u"
  shows "add_entry True junk conn t d =
     d\<lparr>srv := (srv d)\<lparr>firstups := map (\<lambda>v. if names t v then updated t v else v) (firstups (srv d))\<rparr>\<rparr>"
proof -
  obtain dr po where t: "ut_driver t = Some dr" "ut_port t = Some po" using assms(1) by (auto simp: complete_def)
  have same: "same_nocase (ups_name u) (ut_upsname t)" using assms(4) by (simp add: names_def)
  obtain i where i: "get_ups_ptr (srv d) (ut_upsname t) = Some i"
    using find_ups_mem [OF assms(3) same] by (auto simp: get_ups_ptr_def)
  then have il: "i < length (firstups (srv d))" "same_nocase (ups_name (firstups (srv d) ! i)) (ut_upsname t)"
    using find_ups_SomeD by (auto simp: get_ups_ptr_def)
  have only: "names t (firstups (srv d) ! j) \<longleftrightarrow> j = i" if "j < length (firstups (srv d))" for j
    using assms(1,2) il that by (simp add: names_def same_nocase_iff distinct_conv_nth) metis
  have "(firstups (srv d))[i := updated t (firstups (srv d) ! i)] = map (\<lambda>v. if names t v then updated t v else v) (firstups (srv d))"
    by (rule nth_equalityI) (auto simp: nth_list_update only)
  then show ?thesis
    using t i by (simp add: add_entry_def ups_update_def upd_ups_def updated_def state_file_def)
qed

lemma add_entry_new:
  assumes "complete t" and "\<forall>u \<in> set (firstups (srv d)). \<not> names t u"
  shows "\<exists>u. created t u \<and> add_entry True junk conn t d =
     d\<lparr>srv := (srv d)\<lparr>firstups := u # firstups (srv d)\<rparr>, num_ups := num_ups d + 1\<rparr>"
proof -
  obtain dr po where t: "ut_driver t = Some dr" "ut_port t = Some po" using assms(1) by (auto simp: complete_def)
  have no: "\<forall>u \<in> set (firstups (srv d)). \<not> same_nocase (ups_name u) (ut_upsname t)"
    using assms by (simp add: names_def)
  then have ptr: "get_ups_ptr (srv d) (ut_upsname t) = None"
    using find_ups_SomeD [of "firstups (srv d)" "ut_upsname t"] nth_mem by (cases "get_ups_ptr (srv d) (ut_upsname t)") (auto simp: get_ups_ptr_def)
  let ?n = "ups_new (ut_upsname t) (state_file t) (ut_desc t) junk"
  obtain ok u where c: "sstate_connect (conn (ut_upsname t)) (wall (srv d)) (clk (srv d)) ?n = (ok, u)" by fastforce
  have "ups_name u = ups_name ?n \<and> ups_fn u = ups_fn ?n \<and> ups_desc u = ups_desc ?n \<and> ups_retain u = ups_retain ?n \<and> ups_numlogins u = ups_numlogins ?n"
    using c by (auto simp: sstate_connect_def split: connect_result.splits if_splits)
  then have "created t (u\<lparr>ups_connected := ok, ups_last_heard := wall (srv d)\<rparr>)"
    by (simp add: created_def ups_new_def)
  then show ?thesis
    using t ptr no c by (intro exI [of _ "u\<lparr>ups_connected := ok, ups_last_heard := wall (srv d)\<rparr>"])
      (simp add: add_entry_def ups_create_def state_file_def)
qed

text \<open>The entry of the table that names a device.\<close>

fun entry_of :: "ups_t list \<Rightarrow> upstype \<Rightarrow> ups_t option" where
  "entry_of [] u = None"
| "entry_of (t # ts) u = (if names t u then Some t else entry_of ts u)"

definition settled :: "ups_t list \<Rightarrow> upstype \<Rightarrow> upstype" where
  "settled ts u = (case entry_of ts u of None \<Rightarrow> u | Some t \<Rightarrow> updated t u)"

lemma updated_frame [simp]:
  "ups_name (updated t u) = ups_name u" "ups_retain (updated t u)" "ups_desc (updated t u) = ut_desc t"
  "ups_fn (updated t u) = state_file t"
  by (simp_all add: updated_def redefine_def sstate_cmdfree_def sstate_infofree_def)

lemma entry_of_name: "ups_name u = ups_name v \<Longrightarrow> entry_of ts u = entry_of ts v"
  by (induction ts) (simp_all add: names_def)

lemma entry_of_SomeD: "entry_of ts u = Some t \<Longrightarrow> t \<in> set ts \<and> names t u"
  by (induction ts) (auto split: if_splits)

lemma entry_of_NoneD: "entry_of ts u = None \<Longrightarrow> t \<in> set ts \<Longrightarrow> \<not> names t u"
  by (induction ts) (auto split: if_splits)

text \<open>All entries: new devices in front, the known ones updated in place.\<close>

definition table_ok :: "ups_t list \<Rightarrow> bool" where
  "table_ok ts \<longleftrightarrow> distinct (map (fold_case \<circ> ut_upsname) ts)"

lemma bex_map: "(\<And>v. P (f v) = P v) \<Longrightarrow> (\<exists>u \<in> set (map f xs). P u) = (\<exists>u \<in> set xs. P u)"
  by (induction xs) simp_all

lemma entries_added:
  assumes "table_ok ts" and "distinct (map (fold_case \<circ> ups_name) (firstups (srv d)))"
  shows "\<exists>new k. foldl (\<lambda>s t. add_entry True junk conn t s) d ts =
       d\<lparr>srv := (srv d)\<lparr>firstups := new @ map (settled ts) (firstups (srv d))\<rparr>, num_ups := k\<rparr>
     \<and> (\<forall>u \<in> set new. \<exists>t \<in> set ts. complete t \<and> created t u)
     \<and> (\<forall>t \<in> set ts. complete t \<longrightarrow> (\<exists>u \<in> set (firstups (srv d)). names t u) \<or> (\<exists>u \<in> set new. created t u))"
  using assms
proof (induction ts arbitrary: d)
  case Nil
  then show ?case by (intro exI [of _ "[]"] exI [of _ "num_ups d"]) (simp add: settled_def)
next
  case (Cons t ts)
  have ok: "table_ok ts" using Cons.prems(1) by (simp add: table_ok_def)
  have apart: "\<not> (names t u \<and> names t' u)" if "t' \<in> set ts" for t' u
    using Cons.prems(1) that by (auto simp: table_ok_def names_def same_nocase_iff)
  have none: "entry_of ts u = None" if "names t u" for u
    using entry_of_SomeD [of ts u] apart that by (cases "entry_of ts u") auto
  consider (skip) "\<not> complete t" | (known) u where "complete t" "u \<in> set (firstups (srv d))" "names t u"
    | (new) "complete t" "\<forall>u \<in> set (firstups (srv d)). \<not> names t u" by blast
  then show ?case
  proof cases
    case skip
    then have "settled (t # ts) = settled ts" by (auto simp: settled_def names_def)
    then show ?thesis using Cons.IH [OF ok Cons.prems(2)] skip by (auto simp: add_entry_incomplete)
  next
    case known
    let ?d = "d\<lparr>srv := (srv d)\<lparr>firstups := map (\<lambda>v. if names t v then updated t v else v) (firstups (srv d))\<rparr>\<rparr>"
    have names: "map (fold_case \<circ> ups_name) (firstups (srv ?d)) = map (fold_case \<circ> ups_name) (firstups (srv d))" by simp
    have fu: "firstups (srv ?d) = map (\<lambda>v. if names t v then updated t v else v) (firstups (srv d))" by simp
    have same: "names t' (if names t v then updated t v else v) = names t' v" for t' v by (simp add: names_def)
    have "settled ts (if names t v then updated t v else v) = settled (t # ts) v" for v
      using none [of v] entry_of_name [of "updated t v" v ts] by (auto simp: settled_def)
    then have m: "map (settled ts) (firstups (srv ?d)) = map (settled (t # ts)) (firstups (srv d))" by simp
    have b: "(\<exists>u \<in> set (firstups (srv ?d)). names t' u) = (\<exists>u \<in> set (firstups (srv d)). names t' u)" for t'
      unfolding fu by (rule bex_map) (rule same)
    have a: "add_entry True junk conn t d = ?d" by (rule add_entry_known [OF known(1) Cons.prems(2) known(2,3)])
    from Cons.IH [of ?d, unfolded names, OF ok Cons.prems(2), unfolded b m] obtain ns k where IH:
      "foldl (\<lambda>s t. add_entry True junk conn t s) ?d ts =
         ?d\<lparr>srv := (srv ?d)\<lparr>firstups := ns @ map (settled (t # ts)) (firstups (srv d))\<rparr>, num_ups := k\<rparr>"
      "\<forall>u \<in> set ns. \<exists>t \<in> set ts. complete t \<and> created t u"
      "\<forall>t \<in> set ts. complete t \<longrightarrow> (\<exists>u \<in> set (firstups (srv d)). names t u) \<or> (\<exists>u \<in> set ns. created t u)" by blast
    show ?thesis
    proof (intro exI conjI)
      show "foldl (\<lambda>s t. add_entry True junk conn t s) d (t # ts) =
         d\<lparr>srv := (srv d)\<lparr>firstups := ns @ map (settled (t # ts)) (firstups (srv d))\<rparr>, num_ups := k\<rparr>"
        using IH(1) by (simp add: a del: map_eq_conv)
      show "\<forall>u \<in> set ns. \<exists>t \<in> set (t # ts). complete t \<and> created t u" using IH(2) by auto
      show "\<forall>t' \<in> set (t # ts). complete t' \<longrightarrow> (\<exists>u \<in> set (firstups (srv d)). names t' u) \<or> (\<exists>u \<in> set ns. created t' u)"
        using IH(3) known by auto
    qed
  next
    case new
    then obtain u where u: "created t u" "add_entry True junk conn t d =
        d\<lparr>srv := (srv d)\<lparr>firstups := u # firstups (srv d)\<rparr>, num_ups := num_ups d + 1\<rparr>"
      using add_entry_new by blast
    let ?d = "d\<lparr>srv := (srv d)\<lparr>firstups := u # firstups (srv d)\<rparr>, num_ups := num_ups d + 1\<rparr>"
    have nm: "ups_name u = ut_upsname t" using u(1) by (simp add: created_def)
    have tu: "names t u" using new(1) nm by (simp add: names_def)
    have "fold_case (ups_name u) \<notin> (fold_case \<circ> ups_name) ` set (firstups (srv d))"
      using new nm by (auto simp: names_def same_nocase_iff)
    then have "distinct (map (fold_case \<circ> ups_name) (firstups (srv ?d)))" using Cons.prems(2) by (simp add: comp_def)
    from Cons.IH [OF ok this] obtain k ns where IH:
      "foldl (\<lambda>s t. add_entry True junk conn t s) ?d ts =
         ?d\<lparr>srv := (srv ?d)\<lparr>firstups := ns @ map (settled ts) (firstups (srv ?d))\<rparr>, num_ups := k\<rparr>"
      "\<forall>u \<in> set ns. \<exists>t \<in> set ts. complete t \<and> created t u"
      "\<forall>t \<in> set ts. complete t \<longrightarrow> (\<exists>u \<in> set (firstups (srv ?d)). names t u) \<or> (\<exists>u \<in> set ns. created t u)" by blast
    have su: "settled ts u = u" using none [OF tu] by (simp add: settled_def)
    have "settled (t # ts) v = settled ts v" if "v \<in> set (firstups (srv d))" for v
      using new(2) that by (simp add: settled_def)
    then have "map (settled ts) (firstups (srv d)) = map (settled (t # ts)) (firstups (srv d))" by simp
    then have m: "map (settled ts) (firstups (srv d)) = map (settled (t # ts)) (firstups (srv d))" by simp
    show ?thesis
    proof (intro exI conjI)
      show "foldl (\<lambda>s t. add_entry True junk conn t s) d (t # ts) =
         d\<lparr>srv := (srv d)\<lparr>firstups := (ns @ [u]) @ map (settled (t # ts)) (firstups (srv d))\<rparr>, num_ups := k\<rparr>"
        using IH(1) by (simp add: u(2) su flip: m)
      show "\<forall>v \<in> set (ns @ [u]). \<exists>t \<in> set (t # ts). complete t \<and> created t v" using IH(2) u(1) new(1) by auto
      show "\<forall>t' \<in> set (t # ts). complete t' \<longrightarrow> (\<exists>v \<in> set (firstups (srv d)). names t' v) \<or> (\<exists>v \<in> set (ns @ [u]). created t' v)"
        using IH(3) u(1) apart tu by auto
    qed
  qed
qed

section \<open>The whole reload\<close>

lemma redefine_retain: "redefine fn (u\<lparr>ups_retain := b\<rparr>) = (redefine fn u)\<lparr>ups_retain := b\<rparr>"
  by (cases u) (simp add: redefine_def sstate_cmdfree_def sstate_infofree_def)

lemma updated_reset [simp]: "updated t (u\<lparr>ups_retain := b\<rparr>) = updated t u"
  by (cases "redefine (state_file t) u") (simp add: updated_def redefine_retain)

lemma names_reset [simp]: "names t (u\<lparr>ups_retain := b\<rparr>) = names t u"
  by (simp add: names_def)

lemma updated_same_file: "ups_fn u = state_file t \<Longrightarrow> updated t u = u\<lparr>ups_desc := ut_desc t, ups_retain := True\<rparr>"
  by (simp add: updated_def redefine_def)

lemma entry_of_is: "table_ok ts \<Longrightarrow> t \<in> set ts \<Longrightarrow> names t u \<Longrightarrow> entry_of ts u = Some t"
proof (induction ts)
  case (Cons a ts)
  have "fold_case (ut_upsname t) \<noteq> fold_case (ut_upsname a)" if "t \<in> set ts"
    using Cons.prems(1) that by (auto simp: table_ok_def image_iff)
  then have "\<not> names a u" if "t \<in> set ts"
    using Cons.prems(3) that by (auto simp: names_def same_nocase_iff)
  then show ?case using Cons by (auto simp: table_ok_def)
qed simp

text \<open>What the list of devices is after the table was added and the rest was deleted.\<close>

lemma retained_settled:
  assumes "\<forall>u \<in> set new. ups_retain u"
  shows "filter ups_retain (new @ map (settled ts) (map (\<lambda>u. u\<lparr>ups_retain := False\<rparr>) us))
       = new @ map (\<lambda>u. updated (the (entry_of ts u)) u) (filter (\<lambda>u. entry_of ts u \<noteq> None) us)"
proof -
  have e: "entry_of ts (u\<lparr>ups_retain := False\<rparr>) = entry_of ts u" for u by (rule entry_of_name) simp
  have "filter ups_retain (map (settled ts) (map (\<lambda>u. u\<lparr>ups_retain := False\<rparr>) us))
      = map (\<lambda>u. updated (the (entry_of ts u)) u) (filter (\<lambda>u. entry_of ts u \<noteq> None) us)"
    by (induction us) (auto simp: settled_def e split: option.split)
  moreover have "filter ups_retain new = new" using assms by (simp add: filter_id_conv)
  ultimately show ?thesis by simp
qed

lemma unretained_settled:
  assumes "\<forall>u \<in> set new. ups_retain u"
  shows "map ups_name (filter (\<lambda>u. \<not> ups_retain u) (new @ map (settled ts) (map (\<lambda>u. u\<lparr>ups_retain := False\<rparr>) us)))
       = map ups_name (filter (\<lambda>u. entry_of ts u = None) us)"
proof -
  have e: "entry_of ts (u\<lparr>ups_retain := False\<rparr>) = entry_of ts u" for u by (rule entry_of_name) simp
  have "map ups_name (filter (\<lambda>u. \<not> ups_retain u) (map (settled ts) (map (\<lambda>u. u\<lparr>ups_retain := False\<rparr>) us)))
      = map ups_name (filter (\<lambda>u. entry_of ts u = None) us)"
    by (induction us) (auto simp: settled_def e split: option.split)
  moreover have "filter (\<lambda>u. \<not> ups_retain u) new = []" using assms by (simp add: filter_empty_conv)
  ultimately show ?thesis by simp
qed

lemma entry_of_None_iff: "entry_of ts u = None \<longleftrightarrow> (\<forall>t \<in> set ts. \<not> names t u)"
  by (induction ts) auto

lemma load_upsdconf_reload: "\<exists>d'. load_upsdconf p junk fn file 2 d = Inr d'"
  by (simp add: load_upsdconf_def Let_def split: option.split sum.split prod.split)

lemma reload_runs:
  assumes "world_inv (srv d)" and "upstable d = []"
    and "re_upsd_check e = (0, True)" and "re_upsconf e = (0, f)" and "fst (re_upsdconf e) = 0" and "fst (re_users_check e) = 0"
    and "conf_words (re_junk e) (conf_file e ''ups.conf'') f = Some (Inr ls)"
    and "conf_lines ls None (on_srv reset_retain d) = Inr dl"
  shows "\<exists>d' d2. conf_reload e d = Inr d' \<and> settings_only (srv (upsconf_add True (re_junk e) (re_connect e) dl)) d2
     \<and> firstups (srv d') = firstups (delete_unretained d2) \<and> firstclient (srv d') = firstclient (delete_unretained d2)
     \<and> world_inv d2"
proof -
  have on0: "on_srv id x = x" for x by (simp add: on_srv_def)
  have c: "check_file (re_upsd_check e) d = (True, d)" using assms(3) by (simp add: check_file_def on0)
  have u: "load_upsconf (re_junk e) (conf_file e ''ups.conf'') (re_upsconf e) 2 (on_srv reset_retain d) = Inr dl"
    using assms(4,7,8) by (simp add: load_upsconf_def read_upsconf_def)
  let ?d2 = "upsconf_add True (re_junk e) (re_connect e) dl"
  obtain d3 where d3: "load_upsdconf (re_port e) (re_junk e) (conf_file e ''upsd.conf'') (re_upsdconf e) 2 ?d2 = Inr d3"
    using load_upsdconf_reload by blast
  have set3: "settings_only (srv ?d2) (srv d3)"
    using load_upsdconf_settings [OF d3] assms(5) by (simp add: on0)
  obtain b4 d4 where c4: "check_file (re_users_check e) (on_srv delete_unretained d3) = (b4, d4)" by fastforce
  then have d4: "d4 = on_srv delete_unretained d3" using assms(6) by (simp add: check_file_def on0 split: if_splits)
  let ?d' = "if b4 then reload_users e d4 else d4"
  have d': "conf_reload e d = Inr ?d'" using c u d3 c4 by (simp add: conf_reload_def split: bool.split)
  have "firstups (srv (reload_users e x)) = firstups (srv x)" "firstclient (srv (reload_users e x)) = firstclient (srv x)" for x
    by (simp_all add: reload_users_def split: option.split)
  then have "firstups (srv ?d') = firstups (delete_unretained (srv d3))" "firstclient (srv ?d') = firstclient (delete_unretained (srv d3))"
    by (simp_all add: d4 on_srv_def)
  moreover have "world_inv (srv dl)"
    using load_upsconf_inv [OF _ u] assms(1) by (simp add: on_srv_def reset_retain_inv)
  then have "world_inv (srv d3)" using settings_inv [OF set3] upsconf_add_inv by blast
  ultimately show ?thesis using set3 d' by blast
qed

text \<open>
  The test of \<open>upsd.conf\<close> that comes first does not protect the running server from an
  \<open>ups.conf\<close> that cannot be opened: the reload ends the process.
\<close>

lemma unreadable_upsconf_ends_server:
  assumes "re_upsd_check e = (0, True)" and "re_upsconf e = (0, f)"
    and "conf_words (re_junk e) (conf_file e ''ups.conf'') f = Some (Inl err)"
  shows "conf_reload e d = Inl Exit"
proof -
  have "check_file (re_upsd_check e) d = (True, d)" using assms(1) by (simp add: check_file_def on_srv_def)
  then show ?thesis using assms(2,3) by (simp add: conf_reload_def load_upsconf_def read_upsconf_def)
qed

text \<open>
  Property C33: a reload whose files can be read succeeds and makes the devices of the server exactly the
  entries of \<open>ups.conf\<close> with a driver and a port: every entry has its device, with the state file
  and the description of the entry, and every device has its entry. A device that keeps its state
  file is the same record with the new description: its data, its commands and its logins are
  kept. A client stays exactly when the device it is logged into does.
\<close>

theorem reload_devices:
  assumes "world_inv (srv d)" and "upstable d = []"
    and "re_upsd_check e = (0, True)" and "re_upsconf e = (0, f)" and "fst (re_upsdconf e) = 0" and "fst (re_users_check e) = 0"
    and "conf_words (re_junk e) (conf_file e ''ups.conf'') f = Some (Inr ls)"
    and "conf_lines ls None (on_srv reset_retain d) = Inr dl" and "table_ok (upstable dl)"
  shows "\<exists>d'. conf_reload e d = Inr d'
    \<and> (\<forall>t \<in> set (upstable dl). complete t \<longrightarrow>
            (\<exists>u \<in> set (firstups (srv d')). names t u \<and> ups_fn u = state_file t \<and> ups_desc u = ut_desc t))
    \<and> (\<forall>u \<in> set (firstups (srv d')). \<exists>t \<in> set (upstable dl). names t u)
    \<and> (\<forall>u \<in> set (firstups (srv d)). \<forall>t \<in> set (upstable dl). names t u \<longrightarrow> ups_fn u = state_file t \<longrightarrow>
            u\<lparr>ups_desc := ut_desc t, ups_retain := True\<rparr> \<in> set (firstups (srv d')))
    \<and> firstclient (srv d') = filter (\<lambda>c. \<forall>u \<in> set (firstups (srv d)). cl_loginups c = Some (ups_name u) \<longrightarrow>
            (\<exists>t \<in> set (upstable dl). names t u)) (firstclient (srv d))"
proof -
  let ?ts = "upstable dl" and ?us = "firstups (srv d)"
  have dl: "srv dl = reset_retain (srv d)" using conf_lines_srv [OF assms(8)] by (simp add: on_srv_def)
  have us: "firstups (srv dl) = map (\<lambda>u. u\<lparr>ups_retain := False\<rparr>) ?us" "firstclient (srv dl) = firstclient (srv d)"
    by (simp_all add: dl reset_retain_def)
  have dist: "distinct (map (fold_case \<circ> ups_name) (firstups (srv dl)))"
    using distinct_names [OF assms(1)] by (simp add: us comp_def)
  obtain d' d2 where run: "conf_reload e d = Inr d'" and d2: "settings_only (srv (upsconf_add True (re_junk e) (re_connect e) dl)) d2"
    "firstups (srv d') = firstups (delete_unretained d2)" "firstclient (srv d') = firstclient (delete_unretained d2)" "world_inv d2"
    using reload_runs [OF assms(1-8)] by blast
  obtain new k where add: "foldl (\<lambda>s t. add_entry True (re_junk e) (re_connect e) t s) dl ?ts =
       dl\<lparr>srv := (srv dl)\<lparr>firstups := new @ map (settled ?ts) (firstups (srv dl))\<rparr>, num_ups := k\<rparr>"
    and new: "\<forall>u \<in> set new. \<exists>t \<in> set ?ts. complete t \<and> created t u"
    and all: "\<forall>t \<in> set ?ts. complete t \<longrightarrow> (\<exists>u \<in> set (firstups (srv dl)). names t u) \<or> (\<exists>u \<in> set new. created t u)"
    using entries_added [OF assms(9) dist] by blast
  have f2: "firstups d2 = new @ map (settled ?ts) (map (\<lambda>u. u\<lparr>ups_retain := False\<rparr>) ?us)" "firstclient d2 = firstclient (srv d)"
    using d2(1) by (simp_all add: upsconf_add_def add settings_only_def us)
  have keep: "\<forall>u \<in> set new. ups_retain u" using new by (auto simp: created_def)
  have ups': "firstups (srv d') = new @ map (\<lambda>u. updated (the (entry_of ?ts u)) u) (filter (\<lambda>u. entry_of ?ts u \<noteq> None) ?us)"
    using delete_unretained_spec [OF d2(4)] retained_settled [OF keep] by (simp add: d2(2) f2 del: filter_append map_map)
  have gone: "not_retained d2 = map ups_name (filter (\<lambda>u. entry_of ?ts u = None) ?us)"
    unfolding not_retained_def f2 by (rule unretained_settled [OF keep])
  have stay: "updated t u \<in> set (firstups (srv d'))" if "t \<in> set ?ts" "u \<in> set ?us" "names t u" for t u
    using that entry_of_is [OF assms(9) that(1,3)] by (force simp: ups')
  show ?thesis
  proof (intro exI conjI ballI impI)
    show "conf_reload e d = Inr d'" by (rule run)
  next
    fix t assume t: "t \<in> set ?ts" "complete t"
    then consider u where "u \<in> set ?us" "names t u" | u where "u \<in> set new" "created t u"
      using all by (auto simp: us)
    then show "\<exists>u \<in> set (firstups (srv d')). names t u \<and> ups_fn u = state_file t \<and> ups_desc u = ut_desc t"
    proof cases
      case 1
      then show ?thesis using stay [OF t(1) 1] by (intro bexI [of _ "updated t u"]) (simp_all add: names_def)
    next
      case 2
      then show ?thesis using t by (intro bexI [of _ u]) (simp_all add: created_def names_def ups')
    qed
  next
    fix u assume "u \<in> set (firstups (srv d'))"
    then consider "u \<in> set new" | v where "v \<in> set ?us" "entry_of ?ts v \<noteq> None" "u = updated (the (entry_of ?ts v)) v"
      by (auto simp: ups')
    then show "\<exists>t \<in> set ?ts. names t u"
    proof cases
      case 1
      then obtain t where "t \<in> set ?ts" "complete t" "created t u" using new by blast
      then show ?thesis by (intro bexI [of _ t]) (simp_all add: created_def names_def)
    next
      case 2
      then show ?thesis using entry_of_SomeD [of ?ts v] by (auto simp: names_def)
    qed
  next
    fix u t assume "u \<in> set ?us" "t \<in> set ?ts" "names t u" "ups_fn u = state_file t"
    then show "u\<lparr>ups_desc := ut_desc t, ups_retain := True\<rparr> \<in> set (firstups (srv d'))"
      using stay updated_same_file by metis
  next
    let ?cs = "firstclient (srv d)"
    have "filter (\<lambda>c. \<forall>n \<in> set (not_retained d2). cl_loginups c \<noteq> Some n) ?cs =
        filter (\<lambda>c. \<forall>u \<in> set ?us. cl_loginups c = Some (ups_name u) \<longrightarrow> (\<exists>t \<in> set ?ts. names t u)) ?cs"
      by (intro filter_cong) (auto simp: gone entry_of_None_iff)
    then show "firstclient (srv d') = filter (\<lambda>c. \<forall>u \<in> set ?us. cl_loginups c = Some (ups_name u) \<longrightarrow>
            (\<exists>t \<in> set ?ts. names t u)) ?cs"
      by (simp add: delete_unretained_spec [OF d2(4)] d2(3) f2(2))
  qed
qed

definition sample_conf :: cstring where
  "sample_conf = ''[myups]'' @ [CHR 10] @ ''driver = usb'' @ [CHR 10] @ ''port = auto'' @ [CHR 10] @ ''desc = Rack'' @ [CHR 10]"

definition sample_daemon :: daemon where
  "sample_daemon = \<lparr>srv = sample_world\<lparr>firstups := [live_ups\<lparr>ups_fn := ''usb-myups''\<rparr>, ups_new ''old'' ''x-old'' None blank_ctx]\<rparr>,
     upstable = [], num_ups = 2, debug_level_global = - 1, debug_level_args = 0, debug_level = 0, allow_no_device = False,
     allow_not_all_listeners = False, statepath = '''', datapath = '''', env_statepath = None\<rparr>"

definition sample_env :: reload_env where
  "sample_env = \<lparr>re_port = ''3493'', re_junk = blank_ctx, re_path = ''/etc/nut'', re_upsd_check = (0, True),
     re_upsconf = (0, Inr sample_conf), re_upsdconf = (0, Inr (''MAXAGE 20'' @ [CHR 10])), re_users_check = (0, False),
     re_users = Inr '''', re_connect = (\<lambda>n. Connect_ok)\<rparr>"

theorem reload_devices_witness:
  "\<exists>d'. conf_reload sample_env sample_daemon = Inr d' \<and> (live_ups\<lparr>ups_fn := ''usb-myups'', ups_desc := Some ''Rack'', ups_retain := True\<rparr>) \<in> set (firstups (srv d'))"
proof -
  let ?ls = "[[''[myups]''], [''driver'', ''='', ''usb''], [''port'', ''='', ''auto''], [''desc'', ''='', ''Rack'']]"
  let ?t = "\<lparr>ut_upsname = ''myups'', ut_driver = Some ''usb'', ut_port = Some ''auto'', ut_desc = Some ''Rack''\<rparr>"
  let ?u = "live_ups\<lparr>ups_fn := ''usb-myups''\<rparr>"
  have ls: "conf_words (re_junk sample_env) (conf_file sample_env ''ups.conf'') (Inr sample_conf) = Some (Inr ?ls)"
    by code_simp
  obtain dl where dl: "conf_lines ?ls None (on_srv reset_retain sample_daemon) = Inr dl" "upstable dl = [?t]"
    by (simp add: conf_args_def do_upsconf_args_def ups_setting_def sample_daemon_def on_srv_def)
  have ok: "table_ok [?t]" by (simp add: table_ok_def)
  have "ups_wf (live_ups\<lparr>ups_fn := ''usb-myups''\<rparr>)" "ups_wf (ups_new ''old'' ''x-old'' None blank_ctx)"
    using live_ups_wf by (simp_all add: ups_wf_def ups_new_def)
  moreover have "ups_name live_ups = ''myups''" "ups_numlogins live_ups = 0"
    by (simp_all add: live_ups_def sstate_connect_def ups_new_def)
  ultimately have "fresh_world (srv sample_daemon)"
    using sample_world_fresh by (simp add: fresh_world_def sample_daemon_def sample_world_def ups_new_def fold_case_def tolower_def)
  then have inv: "world_inv (srv sample_daemon)" by (rule fresh_world_inv)
  have env: "upstable sample_daemon = []" "re_upsd_check sample_env = (0, True)" "re_upsconf sample_env = (0, Inr sample_conf)"
    "fst (re_upsdconf sample_env) = 0" "fst (re_users_check sample_env) = 0"
    by (simp_all add: sample_daemon_def sample_env_def)
  have "names ?t ?u \<and> ups_fn ?u = state_file ?t" by code_simp
  moreover have "?u \<in> set (firstups (srv sample_daemon))" by (simp add: sample_daemon_def)
  moreover note reload_devices [OF inv env ls dl(1), unfolded dl(2), OF ok]
  ultimately show ?thesis by fastforce
qed

end
