(* ===== verification/Format.thy ===== *)
theory Format
  imports Str
begin

text \<open>
  The check of formatting strings that are chosen at run time
  (\<open>minimize_formatting_string\<close>, \<open>validate_formatting_string\<close> and \<open>snprintf_dynamic\<close> of
  \<open>src/common/common.c\<close>), and what \<open>vsnprintf\<close> makes of a format whose arguments are
  strings.
\<close>

section \<open>The check\<close>

text \<open>
  The bare conversions of a format. The first argument tells whether a conversion is open,
  the second how many bytes are left in the buffer.
\<close>

fun minimize_loop :: "bool \<Rightarrow> nat \<Rightarrow> cstring \<Rightarrow> cstring" where
  "minimize_loop inEscape room [] = []"
| "minimize_loop inEscape room (c # p) =
     (if room = 0 then []
      else if c = CHR ''%'' then
        (case p of
           d # q \<Rightarrow> if d = CHR ''%'' then minimize_loop inEscape room q else c # minimize_loop True (room - 1) p
         | [] \<Rightarrow> [c])
      else if inEscape then
        (if c \<in> set ''lLhzjt*'' then c # minimize_loop True (room - 1) p
         else if c \<in> set ''di'' then CHR ''i'' # minimize_loop False (room - 1) p
         else if c \<in> set ''uoxX'' then CHR ''u'' # minimize_loop False (room - 1) p
         else if c \<in> set ''feEgGFaA'' then CHR ''f'' # minimize_loop False (room - 1) p
         else if c \<in> set ''cspn'' then c # minimize_loop False (room - 1) p
         else minimize_loop True room p)
      else minimize_loop False room p)"

definition minimize_formatting_string :: "nat \<Rightarrow> cstring \<Rightarrow> cstring" where
  "minimize_formatting_string buflen fmt = minimize_loop False buflen fmt"

text \<open>The end of the dynamic format that converts nothing is dropped.\<close>

definition strip_dangling :: "cstring \<Rightarrow> cstring" where
  "strip_dangling s = rev (dropWhile (\<lambda>c. c \<notin> set ''*iufcspn'') (rev s))"

definition validate_formatting_string :: "cstring \<Rightarrow> cstring \<Rightarrow> int" where
  "validate_formatting_string fmt_dynamic fmt_reference =
     (let bufD = minimize_formatting_string (length fmt_dynamic + 1) fmt_dynamic;
          bufR = minimize_formatting_string (length fmt_reference + 1) fmt_reference
      in if bufD = bufR then 0
         else let d = strip_dangling bufD in
           if take (length d) bufR = d then 1 else - 3)"

section \<open>Formats of strings\<close>

text \<open>
  One conversion after its \<open>%\<close>: flags, width, precision and \<open>s\<close>. The result is what is
  printed for an argument and the rest of the format; \<open>None\<close> for any other conversion.
\<close>

definition pad :: "bool \<Rightarrow> nat \<Rightarrow> cstring \<Rightarrow> cstring" where
  "pad left width s =
     (let blanks = replicate (width - length s) (CHR '' '') in if left then s @ blanks else blanks @ s)"

definition string_conversion :: "cstring \<Rightarrow> ((cstring \<Rightarrow> cstring) \<times> cstring) option" where
  "string_conversion p =
     (let flags = takeWhile (\<lambda>c. c = CHR ''-'') p; p1 = dropWhile (\<lambda>c. c = CHR ''-'') p;
          width = digits_value 10 (takeWhile isdigit p1); p2 = dropWhile isdigit p1
      in case p2 of
           c # p3 \<Rightarrow>
             if c = CHR ''s'' then Some (pad (flags \<noteq> []) width, p3)
             else if c = CHR ''.'' then
               (case dropWhile isdigit p3 of
                  d # p4 \<Rightarrow>
                    if d = CHR ''s''
                    then Some (pad (flags \<noteq> []) width \<circ> take (digits_value 10 (takeWhile isdigit p3)), p4)
                    else None
                | [] \<Rightarrow> None)
             else None
         | [] \<Rightarrow> None)"

lemma string_conversion_shrinks: "string_conversion p = Some (f, q) \<Longrightarrow> length q < length p"
proof -
  assume a: "string_conversion p = Some (f, q)"
  let ?p2 = "dropWhile isdigit (dropWhile (\<lambda>c. c = CHR ''-'') p)"
  have "length ?p2 \<le> length p" by (meson length_dropWhile_le order_trans)
  moreover have "length q < length ?p2"
    using a length_dropWhile_le [of isdigit "tl ?p2"]
    by (auto simp: string_conversion_def Let_def split: list.splits if_splits)
  ultimately show ?thesis by simp
qed

text \<open>The whole format on a list of arguments: \<open>None\<close> is undefined behaviour of the C code.\<close>

function (sequential) format_strings :: "cstring \<Rightarrow> cstring list \<Rightarrow> cstring option" where
  "format_strings [] args = Some []"
| "format_strings (c # p) args =
     (if c \<noteq> CHR ''%'' then map_option (\<lambda>s. c # s) (format_strings p args)
      else if p \<noteq> [] \<and> hd p = CHR ''%'' then map_option (\<lambda>s. c # s) (format_strings (tl p) args)
      else case string_conversion p of
        None \<Rightarrow> None
      | Some (f, q) \<Rightarrow>
          (case args of
             [] \<Rightarrow> None
           | a # as \<Rightarrow> map_option (\<lambda>s. f a @ s) (format_strings q as)))"
  by pat_completeness auto
termination
  by (relation "measure (\<lambda>(p, _). length p)") (auto dest: string_conversion_shrinks)

text \<open>\<open>snprintf_dynamic\<close>: \<open>Inl\<close> when the check fails, and then nothing is written.\<close>

definition snprintf_dynamic :: "nat \<Rightarrow> cstring \<Rightarrow> cstring \<Rightarrow> cstring list \<Rightarrow> unit + cstring option" where
  "snprintf_dynamic bufsize fmt_dynamic fmt_reference args =
     (if validate_formatting_string fmt_dynamic fmt_reference < 0 then Inl ()
      else Inr (map_option (snprintf bufsize) (format_strings fmt_dynamic args)))"


text \<open>\<open>None\<close> when the check fails or the format is undefined.\<close>

definition snprintfcat_dynamic :: "cstring \<Rightarrow> nat \<Rightarrow> cstring \<Rightarrow> cstring \<Rightarrow> cstring list \<Rightarrow> cstring option" where
  "snprintfcat_dynamic dst bufsize fmt_dynamic fmt_reference args =
     (if bufsize = 0 \<or> validate_formatting_string fmt_dynamic fmt_reference < 0 then None
      else map_option (snprintfcat dst bufsize) (format_strings fmt_dynamic args))"

end
