(* ===== verification/Upsclient.thy ===== *)
theory Upsclient
  imports Format Parseconf
begin

text \<open>
  The client library (\<open>src/clients/upsclient.c\<close>): one connection to the data server in a
  build without SSL, the queries \<open>GET\<close> and \<open>LIST\<close>, the login, and the names
  \<open>ups@host:port\<close>.

  What the coming reads and writes of the socket answer is part of the connection: \<open>inbox\<close>
  holds the outcomes of the reads, \<open>net_writes\<close> those of the writes (none left means
  success), \<open>outbox\<close> what was written. The magic number of the structure is taken to be
  right; timeouts are outcomes of reads and writes.
\<close>

section \<open>Errors\<close>

definition UPSCLI_ERR_NONE :: int where "UPSCLI_ERR_NONE = - 1"
definition UPSCLI_ERR_UNKNOWN :: int where "UPSCLI_ERR_UNKNOWN = 0"
definition UPSCLI_ERR_UNKNOWNUPS :: int where "UPSCLI_ERR_UNKNOWNUPS = 4"
definition UPSCLI_ERR_UNKCOMMAND :: int where "UPSCLI_ERR_UNKCOMMAND = 25"
definition UPSCLI_ERR_INVALIDARG :: int where "UPSCLI_ERR_INVALIDARG = 26"
definition UPSCLI_ERR_WRITE :: int where "UPSCLI_ERR_WRITE = 32"
definition UPSCLI_ERR_READ :: int where "UPSCLI_ERR_READ = 33"
definition UPSCLI_ERR_SRVDISC :: int where "UPSCLI_ERR_SRVDISC = 38"
definition UPSCLI_ERR_DRVNOTCONN :: int where "UPSCLI_ERR_DRVNOTCONN = 39"
definition UPSCLI_ERR_PARSE :: int where "UPSCLI_ERR_PARSE = 41"
definition UPSCLI_ERR_PROTOCOL :: int where "UPSCLI_ERR_PROTOCOL = 42"

definition UPSCLI_NETBUF_LEN :: nat where "UPSCLI_NETBUF_LEN = 512"

definition upsd_errlist :: "(int \<times> cstring) list" where
  "upsd_errlist =
     [(1, ''VAR-NOT-SUPPORTED''), (4, ''UNKNOWN-UPS''), (6, ''ACCESS-DENIED''), (7, ''PASSWORD-REQUIRED''),
      (8, ''PASSWORD-INCORRECT''), (9, ''MISSING-ARGUMENT''), (10, ''DATA-STALE''), (11, ''VAR-UNKNOWN''),
      (12, ''ALREADY-LOGGED-IN''), (13, ''ALREADY-SET-PASSWORD''), (14, ''UNKNOWN-TYPE''), (15, ''UNKNOWN-VAR''),
      (16, ''READONLY''), (17, ''TOO-LONG''), (18, ''INVALID-VALUE''), (19, ''SET-FAILED''), (20, ''UNKNOWN-INSTCMD''),
      (21, ''INSTCMD-FAILED''), (22, ''CMD-NOT-SUPPORTED''), (23, ''INVALID-USERNAME''), (24, ''ALREADY-SET-USERNAME''),
      (25, ''UNKNOWN-COMMAND''), (34, ''INVALID-PASSWORD''), (35, ''USERNAME-REQUIRED''), (39, ''DRIVER-NOT-CONNECTED'')]"

section \<open>The connection\<close>

datatype net_reading = Net_bytes cstring | Net_fail
datatype net_writing = Written | Write_down | Write_fail

record UPSCONN_t =
  fd_open :: bool
  upserror :: int
  readbuf :: cstring
  pc_ctx :: PCONF_CTX_t
  inbox :: "net_reading list"
  net_writes :: "net_writing list"
  outbox :: "cstring list"

text \<open>A read that returned no byte is the empty list; the error it leaves says why.\<close>

definition net_read :: "UPSCONN_t \<Rightarrow> cstring \<times> UPSCONN_t" where
  "net_read c =
     (case inbox c of
        [] \<Rightarrow> ([], c\<lparr>upserror := UPSCLI_ERR_SRVDISC\<rparr>)
      | Net_fail # r \<Rightarrow> ([], c\<lparr>inbox := r, upserror := UPSCLI_ERR_READ\<rparr>)
      | Net_bytes b # r \<Rightarrow>
          (b, if b = [] then c\<lparr>inbox := r, upserror := UPSCLI_ERR_SRVDISC\<rparr> else c\<lparr>inbox := r\<rparr>))"

definition net_write :: "cstring \<Rightarrow> UPSCONN_t \<Rightarrow> bool \<times> UPSCONN_t" where
  "net_write buf c =
     (case net_writes c of
        [] \<Rightarrow> (True, c\<lparr>outbox := outbox c @ [buf]\<rparr>)
      | Written # r \<Rightarrow> (True, c\<lparr>outbox := outbox c @ [buf], net_writes := r\<rparr>)
      | Write_down # r \<Rightarrow> (False, c\<lparr>net_writes := r, upserror := UPSCLI_ERR_SRVDISC\<rparr>)
      | Write_fail # r \<Rightarrow> (False, c\<lparr>net_writes := r, upserror := UPSCLI_ERR_WRITE\<rparr>))"

definition upscli_disconnect :: "UPSCONN_t \<Rightarrow> UPSCONN_t" where
  "upscli_disconnect c =
     (let c1 = c\<lparr>pc_ctx := pconf_finish (pc_ctx c)\<rparr> in
      if fd_open c1 then (snd (net_read (snd (net_write (''LOGOUT'' @ [CHR 10]) c1))))\<lparr>fd_open := False\<rparr>
      else c1)"

definition upscli_sendline :: "cstring \<Rightarrow> UPSCONN_t \<Rightarrow> int \<times> UPSCONN_t" where
  "upscli_sendline buf c =
     (if \<not> fd_open c then (- 1, c\<lparr>upserror := UPSCLI_ERR_DRVNOTCONN\<rparr>)
      else if buf = [] then (- 1, c\<lparr>upserror := UPSCLI_ERR_INVALIDARG\<rparr>)
      else case net_write buf c of
        (True, c1) \<Rightarrow> (0, c1)
      | (False, c1) \<Rightarrow> (- 1, upscli_disconnect c1))"

text \<open>One byte, with a read of the socket when the buffer is used up.\<close>

definition next_byte :: "UPSCONN_t \<Rightarrow> char option \<times> UPSCONN_t" where
  "next_byte c =
     (case readbuf c of
        ch # rest \<Rightarrow> (Some ch, c\<lparr>readbuf := rest\<rparr>)
      | [] \<Rightarrow>
          (case net_read c of
             ([], c1) \<Rightarrow> (None, upscli_disconnect c1)
           | (ch # rest, c1) \<Rightarrow> (Some ch, c1\<lparr>readbuf := rest\<rparr>)))"

primrec read_loop :: "nat \<Rightarrow> UPSCONN_t \<Rightarrow> cstring option \<times> UPSCONN_t" where
  "read_loop 0 c = (Some [], c)"
| "read_loop (Suc room) c =
     (case next_byte c of
        (None, c1) \<Rightarrow> (None, c1)
      | (Some ch, c1) \<Rightarrow>
          if ch = CHR 10 then (Some [], c1)
          else (case read_loop room c1 of (r, c2) \<Rightarrow> (map_option (\<lambda>l. ch # l) r, c2)))"

definition upscli_readline :: "UPSCONN_t \<Rightarrow> cstring option \<times> UPSCONN_t" where
  "upscli_readline c =
     (if \<not> fd_open c then (None, c\<lparr>upserror := UPSCLI_ERR_DRVNOTCONN\<rparr>)
      else read_loop (UPSCLI_NETBUF_LEN - 1) c)"

section \<open>Queries\<close>

definition starts_with :: "cstring \<Rightarrow> cstring \<Rightarrow> bool" where
  "starts_with s prefix \<longleftrightarrow> take (length prefix) s = prefix"

definition upscli_errcheck :: "cstring \<Rightarrow> UPSCONN_t \<Rightarrow> int \<times> UPSCONN_t" where
  "upscli_errcheck buf c =
     (if \<not> starts_with buf ''ERR'' then (0, c)
      else case find (\<lambda>e. starts_with (drop 4 buf) (snd e)) upsd_errlist of
        Some e \<Rightarrow> (- 1, c\<lparr>upserror := fst e\<rparr>)
      | None \<Rightarrow> (- 1, c\<lparr>upserror := UPSCLI_ERR_UNKNOWN\<rparr>))"

text \<open>An argument on the command line: in quotes when it has a blank.\<close>

definition arg_format :: "cstring \<Rightarrow> cstring" where
  "arg_format arg =
     (if CHR '' '' \<in> set arg then '' '' @ [CHR 34] @ ''%s'' @ [CHR 34] else '' %s'')"

definition build_cmd :: "cstring \<Rightarrow> cstring list \<Rightarrow> cstring" where
  "build_cmd cmdname arg =
     (let buf = foldl (\<lambda>buf a.
                  case snprintfcat_dynamic buf UPSCLI_NETBUF_LEN (arg_format a) ''%s''
                         [pconf_encode a [] UPSCLI_NETBUF_LEN] of
                    Some b \<Rightarrow> b
                  | None \<Rightarrow> buf) (snprintf UPSCLI_NETBUF_LEN cmdname) arg
      in buf @ snprintf (UPSCLI_NETBUF_LEN - length buf) [CHR 10])"

text \<open>
  \<open>a\<close> is the rest of \<open>arglist\<close> from where the comparison starts; the entries are not
  counted, so \<open>None\<close> is a read behind the end of the array.
\<close>

fun verify_resp :: "cstring list \<Rightarrow> cstring list \<Rightarrow> bool option" where
  "verify_resp [] a = Some True"
| "verify_resp (q # qs) [] = None"
| "verify_resp (q # qs) (x # xs) = (if same_nocase q x then verify_resp qs xs else Some False)"

text \<open>The answer as the caller finds it: the number of words, and the array.\<close>

type_synonym answer = "nat \<times> cstring list"

text \<open>Results: \<open>None\<close> for a read outside \<open>arglist\<close>, else the return value.\<close>

definition checked_line :: "UPSCONN_t \<Rightarrow> bool \<times> UPSCONN_t" where
  "checked_line c =
     (case upscli_readline c of
        (None, c1) \<Rightarrow> (False, c1)
      | (Some tmp, c1) \<Rightarrow>
          (case upscli_errcheck tmp c1 of
             (e, c2) \<Rightarrow>
               if e \<noteq> 0 then (False, c2)
               else (case pconf_line (pc_ctx c2) tmp of
                 (ret, ctx) \<Rightarrow>
                   if ret = 0 then (False, c2\<lparr>pc_ctx := ctx, upserror := UPSCLI_ERR_PARSE\<rparr>)
                   else (True, c2\<lparr>pc_ctx := ctx\<rparr>))))"

definition upscli_get :: "cstring list \<Rightarrow> UPSCONN_t \<Rightarrow> (int \<times> answer) option \<times> UPSCONN_t" where
  "upscli_get query c =
     (if query = [] then (Some (- 1, 0, []), c\<lparr>upserror := UPSCLI_ERR_INVALIDARG\<rparr>)
      else case upscli_sendline (build_cmd ''GET'' query) c of
        (ret, c1) \<Rightarrow>
          if ret \<noteq> 0 then (Some (- 1, 0, []), c1)
          else (case checked_line c1 of
            (False, c2) \<Rightarrow> (Some (- 1, 0, []), c2)
          | (True, c2) \<Rightarrow>
              if numargs (pc_ctx c2) < length query
              then (Some (- 1, 0, []), c2\<lparr>upserror := UPSCLI_ERR_PROTOCOL\<rparr>)
              else (case verify_resp query (arglist (pc_ctx c2)) of
                None \<Rightarrow> (None, c2)
              | Some False \<Rightarrow> (Some (- 1, 0, []), c2\<lparr>upserror := UPSCLI_ERR_PROTOCOL\<rparr>)
              | Some True \<Rightarrow> (Some (0, numargs (pc_ctx c2), arglist (pc_ctx c2)), c2))))"

definition upscli_list_start :: "cstring list \<Rightarrow> UPSCONN_t \<Rightarrow> int option \<times> UPSCONN_t" where
  "upscli_list_start query c =
     (if query = [] then (Some (- 1), c\<lparr>upserror := UPSCLI_ERR_INVALIDARG\<rparr>)
      else case upscli_sendline (build_cmd ''LIST'' query) c of
        (ret, c1) \<Rightarrow>
          if ret \<noteq> 0 then (Some (- 1), c1)
          else (case checked_line c1 of
            (False, c2) \<Rightarrow> (Some (- 1), c2)
          | (True, c2) \<Rightarrow>
              let a = arglist (pc_ctx c2); failed = (Some (- 1), c2\<lparr>upserror := UPSCLI_ERR_PROTOCOL\<rparr>) in
              if numargs (pc_ctx c2) < 2 then failed
              else if \<not> same_nocase (a ! 0) ''BEGIN'' \<or> \<not> same_nocase (a ! 1) ''LIST'' then failed
              else (case verify_resp query (drop 2 a) of
                None \<Rightarrow> (None, c2)
              | Some False \<Rightarrow> failed
              | Some True \<Rightarrow> (Some 0, c2))))"

definition upscli_list_next :: "cstring list \<Rightarrow> UPSCONN_t \<Rightarrow> (int \<times> answer) option \<times> UPSCONN_t" where
  "upscli_list_next query c =
     (case checked_line c of
        (False, c1) \<Rightarrow> (Some (- 1, 0, []), c1)
      | (True, c1) \<Rightarrow>
          let a = arglist (pc_ctx c1); n = numargs (pc_ctx c1) in
          if n < 1 then (Some (- 1, 0, []), c1\<lparr>upserror := UPSCLI_ERR_PROTOCOL\<rparr>)
          else if n \<ge> 2 \<and> a ! 0 = ''END'' \<and> a ! 1 = ''LIST'' then (Some (0, n, a), c1)
          else (case verify_resp query a of
            None \<Rightarrow> (None, c1)
          | Some False \<Rightarrow> (Some (- 1, n, a), c1\<lparr>upserror := UPSCLI_ERR_PROTOCOL\<rparr>)
          | Some True \<Rightarrow> (Some (1, n, a), c1)))"

section \<open>Login\<close>

text \<open>One line of the login and its answer; both strings given, nothing is asked at a terminal.\<close>

definition auth_step :: "cstring \<Rightarrow> UPSCONN_t \<Rightarrow> bool \<times> UPSCONN_t" where
  "auth_step l c =
     (case upscli_sendline (snprintf UPSCLI_NETBUF_LEN (l @ [CHR 10])) c of
        (ret, c1) \<Rightarrow>
          if ret < 0 then (False, c1)
          else (case upscli_readline c1 of
            (None, c2) \<Rightarrow> (False, c2)
          | (Some buf, c2) \<Rightarrow>
              (case upscli_errcheck buf c2 of
                 (e, c3) \<Rightarrow>
                   if e < 0 then (False, c3)
                   else if \<not> starts_with buf ''OK'' then (False, c3\<lparr>upserror := UPSCLI_ERR_PROTOCOL\<rparr>)
                   else (True, c3))))"

definition upscli_authenticate :: "cstring option \<Rightarrow> cstring option \<Rightarrow> UPSCONN_t \<Rightarrow> int \<times> UPSCONN_t" where
  "upscli_authenticate username password c =
     (case (username, password) of
        (Some user, Some pass) \<Rightarrow>
          (case auth_step (''USERNAME '' @ user) c of
             (False, c1) \<Rightarrow> (- 2, c1)
           | (True, c1) \<Rightarrow>
               (case auth_step (''PASSWORD '' @ pass) c1 of
                  (False, c2) \<Rightarrow> (- 2, c2)
                | (True, c2) \<Rightarrow> (0, c2)))
      | _ \<Rightarrow> (- 1, c))"

section \<open>Names of devices\<close>

text \<open>\<open>strtok_r\<close>: the token, if there is one, and what follows the delimiter behind it.\<close>

definition strtok_r :: "char \<Rightarrow> cstring \<Rightarrow> cstring option \<times> cstring" where
  "strtok_r d s =
     (let s1 = dropWhile (\<lambda>c. c = d) s in
      (if s1 = [] then None else Some (takeWhile (\<lambda>c. c \<noteq> d) s1), tl (dropWhile (\<lambda>c. c \<noteq> d) s1)))"

definition scan_port :: "cstring \<Rightarrow> cstring \<Rightarrow> (cstring \<times> int) option" where
  "scan_port hostname s =
     (let l = fst (strtol s 10) in if s = [] \<or> l < 1 \<or> l > 65535 then None else Some (hostname, l))"

text \<open>
  \<open>None\<close> is \<open>-1\<close>. Without brackets the port is read behind the first colon, of which
  \<open>strtok_r\<close> keeps the text up to the end of the token when the string begins with colons.
\<close>

definition upscli_splitaddr :: "int \<Rightarrow> cstring \<Rightarrow> (cstring \<times> int) option" where
  "upscli_splitaddr nut_port buf =
     (let tmp = snprintf SMALLBUF buf; colon = CHR '':'' in
      if tmp = [] then None
      else if hd tmp = CHR ''['' then
        (if CHR '']'' \<notin> set tmp then None
         else case strtok_r (CHR '']'') (tl tmp) of
           (None, rest) \<Rightarrow> None
         | (Some hostname, rest) \<Rightarrow>
             if rest = [] \<or> hd rest \<noteq> colon then Some (hostname, nut_port)
             else scan_port hostname (tl rest))
      else case strtok_r colon tmp of
        (None, rest) \<Rightarrow> None
      | (Some hostname, rest) \<Rightarrow>
          if colon \<notin> set tmp then Some (hostname, nut_port)
          else scan_port hostname
                 (if hd tmp = colon then tl (takeWhile (\<lambda>c. c = colon) tmp) @ hostname else rest))"

definition upscli_splitname :: "int \<Rightarrow> cstring \<Rightarrow> (cstring \<times> cstring \<times> int) option" where
  "upscli_splitname nut_port buf =
     (let tmp = snprintf SMALLBUF buf; sat = dropWhile (\<lambda>c. c \<noteq> CHR ''@'') tmp in
      if tmp = [] \<or> sat = tmp then None
      else case strtok_r (CHR ''@'') tmp of
        (None, rest) \<Rightarrow> None
      | (Some upsname, rest) \<Rightarrow>
          if sat = [] then (if CHR '':'' \<in> set tmp then None else Some (upsname, ''localhost'', nut_port))
          else if tl sat = [] then None
          else map_option (\<lambda>hp. (upsname, hp)) (upscli_splitaddr nut_port (tl sat)))"

end
