(* ===== verification/UpsclientSpec.thy ===== *)
theory UpsclientSpec
  imports Upsclient NetAnswers
begin

text \<open>
  What the client library promises: a line is read whatever the network does to it, commands
  arrive as the words they were built from, and the value that a program reads through
  \<open>upscli_get\<close> is the value of the variable in the data server.
\<close>

section \<open>Lines\<close>

text \<open>The bytes that the coming reads deliver.\<close>

definition chunks :: "cstring list \<Rightarrow> net_reading list" where
  "chunks bs = map Net_bytes bs"

definition stream :: "UPSCONN_t \<Rightarrow> cstring list \<Rightarrow> cstring \<Rightarrow> bool" where
  "stream c bs s \<longleftrightarrow> inbox c = chunks bs \<and> [] \<notin> set bs \<and> readbuf c @ concat bs = s"

text \<open>What a read of a line leaves untouched.\<close>

definition same_line :: "UPSCONN_t \<Rightarrow> UPSCONN_t \<Rightarrow> bool" where
  "same_line c c' \<longleftrightarrow> fd_open c' = fd_open c \<and> upserror c' = upserror c \<and> pc_ctx c' = pc_ctx c \<and>
     net_writes c' = net_writes c \<and> outbox c' = outbox c"

lemma same_line_refl [simp]: "same_line c c"
  by (simp add: same_line_def)

lemma same_line_trans: "same_line a b \<Longrightarrow> same_line b c \<Longrightarrow> same_line a c"
  by (simp add: same_line_def)

lemma next_byte_stream:
  assumes "stream c bs (ch # s)"
  shows "\<exists>c' bs'. next_byte c = (Some ch, c') \<and> stream c' bs' s \<and> same_line c c'"
proof (cases "readbuf c")
  case (Cons x xs)
  then show ?thesis
    using assms by (intro exI [of _ "c\<lparr>readbuf := xs\<rparr>"] exI [of _ bs]) (auto simp: next_byte_def stream_def same_line_def)
next
  case Nil
  then obtain x b bt where b: "bs = (x # b) # bt" using assms by (cases bs rule: list.exhaust; cases "hd bs") (auto simp: stream_def)
  then show ?thesis
    using assms Nil
    by (intro exI [of _ "c\<lparr>inbox := chunks bt, readbuf := b\<rparr>"] exI [of _ bt])
      (auto simp: next_byte_def net_read_def stream_def same_line_def chunks_def)
qed

lemma read_loop_stream:
  assumes "stream c bs (l @ [CHR 10] @ rest)" and "CHR 10 \<notin> set l" and "length l < room"
  shows "\<exists>c' bs'. read_loop room c = (Some l, c') \<and> stream c' bs' rest \<and> same_line c c'"
  using assms
proof (induction l arbitrary: c bs room)
  case Nil
  then obtain n where "room = Suc n" by (cases room) auto
  then show ?case using next_byte_stream [of c bs "CHR 10" rest] Nil.prems(1) by auto
next
  case (Cons ch l)
  then obtain n where n: "room = Suc n" by (cases room) auto
  obtain c1 bs1 where c1: "next_byte c = (Some ch, c1)" "stream c1 bs1 (l @ [CHR 10] @ rest)" "same_line c c1"
    using next_byte_stream [of c bs ch "l @ [CHR 10] @ rest"] Cons.prems(1) by auto
  obtain c2 bs2 where c2: "read_loop n c1 = (Some l, c2)" "stream c2 bs2 rest" "same_line c1 c2"
    using Cons.IH [OF c1(2), of n] Cons.prems(2,3) n by auto
  have "read_loop room c = (Some (ch # l), c2)" using c1(1) c2(1) Cons.prems(2) n by auto
  then show ?case using c1(3) c2 same_line_trans by blast
qed

text \<open>
  a line of the server, up to 510 bytes, is read as it was sent whatever the
  pieces it arrives in; the bytes behind it are kept for the next line, and nothing else of
  the connection changes.
\<close>

theorem readline_any_pieces:
  assumes "fd_open c" and "stream c bs (l @ [CHR 10] @ rest)" and "CHR 10 \<notin> set l" and "length l < 511"
  shows "\<exists>c' bs'. upscli_readline c = (Some l, c') \<and> stream c' bs' rest \<and> same_line c c'"
  using read_loop_stream [OF assms(2,3), of 511] assms(1,4) by (simp add: upscli_readline_def UPSCLI_NETBUF_LEN_def)

definition sample_conn :: "cstring list \<Rightarrow> UPSCONN_t" where
  "sample_conn bs = \<lparr>fd_open = True, upserror = 0, readbuf = [], pc_ctx = pconf_init blank_ctx, inbox = chunks bs,
     net_writes = [], outbox = []\<rparr>"

theorem readline_any_pieces_witness:
  "\<exists>c' bs'. upscli_readline (sample_conn [''O'', ''K'' @ [CHR 10] @ ''VA'', ''R'']) = (Some ''OK'', c') \<and> stream c' bs' ''VAR''"
proof -
  let ?c = "sample_conn [''O'', ''K'' @ [CHR 10] @ ''VA'', ''R'']"
  have "fd_open ?c" "stream ?c [''O'', ''K'' @ [CHR 10] @ ''VA'', ''R''] (''OK'' @ [CHR 10] @ ''VAR'')"
    by (simp_all add: sample_conn_def stream_def)
  then show ?thesis using readline_any_pieces [of ?c _ "''OK''" "''VAR''"] by (simp, blast)
qed

section \<open>Commands\<close>

lemma validate_string_formats:
  "validate_formatting_string ('' '' @ [CHR 34] @ ''%s'' @ [CHR 34]) ''%s'' = 0"
  "validate_formatting_string '' %s'' ''%s'' = 0"
  by code_simp+

lemma validate_arg_format: "validate_formatting_string (arg_format a) ''%s'' = 0"
  unfolding arg_format_def
  by (cases "CHR '' '' \<in> set a") (simp_all only: if_True if_False validate_string_formats)

lemma format_arg: "format_strings (arg_format a) [s] = Some (if CHR '' '' \<in> set a then '' '' @ quote s else '' '' @ s)"
  by (simp add: arg_format_def quote_def string_conversion_def pad_def Let_def isdigit_def code_of_def digits_value_def)

definition arg_piece :: "cstring \<Rightarrow> piece" where
  "arg_piece a = (if CHR '' '' \<in> set a then Quoted a else Bare a)"

text \<open>An argument that arrives: a bare word, or one with a blank.\<close>

definition sendable :: "cstring \<Rightarrow> bool" where
  "sendable a \<longleftrightarrow> length a \<le> 512 \<and> (if CHR '' '' \<in> set a then list_all printable a else list_all plain a \<and> a \<noteq> [])"

lemma sendable_piece: "sendable a \<Longrightarrow> piece_ok 512 (arg_piece a) \<and> piece_word (arg_piece a) = a"
  by (simp add: sendable_def arg_piece_def)

lemma enc_full_plain: "list_all plain a \<Longrightarrow> enc_full a = a"
  by (induction a) (auto simp: enc_char_def plain_def PCONF_ESCAPE_def code_of_def)

lemma piece_text_enc: "sendable a \<Longrightarrow> piece_text (arg_piece a) = (if CHR '' '' \<in> set a then quote (enc_full a) else enc_full a)"
  by (auto simp: sendable_def arg_piece_def quote_def quoted_def enc_full_plain)

definition cmd_text :: "cstring \<Rightarrow> cstring list \<Rightarrow> cstring" where
  "cmd_text cmd args = cmd @ concat (map (\<lambda>a. '' '' @ piece_text (arg_piece a)) args)"

lemma build_cmd_text:
  assumes "length (cmd_text cmd args) < 511" and "list_all sendable args"
  shows "build_cmd cmd args = cmd_text cmd args @ [CHR 10]"
proof -
  have step: "snprintfcat_dynamic buf 512 (arg_format a) ''%s'' [pconf_encode a [] 512] = Some (buf @ '' '' @ piece_text (arg_piece a))"
    if "sendable a" "length buf + length (piece_text (arg_piece a)) + 1 < 511" for buf a
  proof -
    have len: "length (enc_full a) < 512" using that by (auto simp: piece_text_enc quote_def split: if_splits)
    then have "pconf_encode a [] 512 = enc_full a" by (intro pconf_encode_whole) simp_all
    then show ?thesis
      using that by (auto simp: snprintfcat_dynamic_def validate_arg_format format_arg piece_text_enc snprintfcat_fits)
  qed
  have "foldl (\<lambda>buf a. case snprintfcat_dynamic buf 512 (arg_format a) ''%s'' [pconf_encode a [] 512] of Some b \<Rightarrow> b | None \<Rightarrow> buf) buf as
      = buf @ concat (map (\<lambda>a. '' '' @ piece_text (arg_piece a)) as)"
    if "length buf + length (concat (map (\<lambda>a. '' '' @ piece_text (arg_piece a)) as)) < 511" "list_all sendable as" for buf as
    using that
  proof (induction as arbitrary: buf)
    case (Cons a as)
    have "snprintfcat_dynamic buf 512 (arg_format a) ''%s'' [pconf_encode a [] 512] = Some (buf @ '' '' @ piece_text (arg_piece a))"
      using Cons.prems by (intro step) simp_all
    then show ?case using Cons.IH [of "buf @ '' '' @ piece_text (arg_piece a)"] Cons.prems by simp
  qed simp
  note loop = this
  have "length cmd < 511" using assms(1) by (simp add: cmd_text_def)
  then show ?thesis
    using loop [of "snprintf 512 cmd" args] assms
    by (simp add: build_cmd_def Let_def UPSCLI_NETBUF_LEN_def snprintf_fits cmd_text_def)
qed

lemma render_cons: "render_pieces (p # ps) = piece_text p @ concat (map (\<lambda>q. '' '' @ piece_text q) ps)"
  by (induction ps arbitrary: p) simp_all

lemma cmd_text_pieces: "cmd_text cmd args = render_pieces (Bare cmd # map arg_piece args)"
  by (simp add: cmd_text_def render_cons comp_def)

lemma build_cmd_words:
  assumes "length (cmd_text cmd args) < 511" and "list_all sendable args" and "sendable cmd" and "CHR '' '' \<notin> set cmd"
    and "length args < 32"
  shows "build_cmd cmd args = cmd_text cmd args @ [CHR 10] \<and> line_words 32 512 (cmd_text cmd args) (cmd # args)"
proof -
  have "pieces_ok 32 512 (Bare cmd # map arg_piece args)"
    using assms sendable_piece by (auto simp: pieces_ok_def list_all_iff sendable_def)
  moreover have "map (piece_word \<circ> arg_piece) args = args"
    using assms(2) sendable_piece by (induction args) auto
  ultimately show ?thesis
    using build_cmd_text [OF assms(1,2)] line_words_pieces [of 32 512 "Bare cmd # map arg_piece args"]
    by (simp add: cmd_text_pieces)
qed

section \<open>Answers\<close>

lemma pconf_line_args:
  assumes "pconf_wf ctx" and "wordbuf ctx = []"
  shows "fst (pconf_line ctx l) = 1 \<and> ctx_args (snd (pconf_line ctx l)) = lex_line (arg_limit ctx) (wordlen_limit ctx) l
    \<and> pconf_wf (snd (pconf_line ctx l)) \<and> wordbuf (snd (pconf_line ctx l)) = []"
proof -
  let ?c = "ctx\<lparr>numargs := 0, ctx_state := STATE_FINDWORDSTART\<rparr>"
  have "pconf_wf ?c" using assms(1) by (simp add: pconf_wf_def)
  then have "pconf_ready ?c" using assms(2) by (simp add: pconf_ready_def)
  moreover have "pconf_line ctx l = pconf_line ?c l"
    using assms(1) \<open>pconf_wf ?c\<close> by (simp add: pconf_line_def start_line_def)
  ultimately show ?thesis using pconf_line_gen [of ?c l] by simp
qed

lemma render_pieces_ends:
  assumes "list_all (piece_ok wl) ps" and "al = 0 \<or> length us + length ps \<le> al"
    and "lex_run al wl (render_pieces ps) (STATE_FINDWORDSTART, [], us) = (st, w, vs)"
  shows "st = STATE_FINDWORDSTART \<and> w = [] \<and> vs = us @ map piece_word ps
     \<or> st = STATE_COLLECT \<and> w \<noteq> [] \<and> commit al w vs = us @ map piece_word ps"
  using assms
proof (induction ps arbitrary: us rule: render_pieces.induct)
  case (2 p)
  then show ?case by (cases p) (auto simp: lex_run_plain lex_run_quoted commit_def)
next
  case (3 p q ps)
  have "lex_run al wl (piece_text p @ [CHR 32]) (STATE_FINDWORDSTART, [], us)
      = (STATE_FINDWORDSTART, [], us @ [piece_word p])"
    using 3(2,3) by (intro piece_then_blank) auto
  then show ?case using 3(1) [of "us @ [piece_word p]"] 3(2-4) by (simp add: lex_run_append)
qed simp

lemma lex_line_pieces:
  assumes "pieces_ok al wl ps"
  shows "lex_line al wl (render_pieces ps) = map piece_word ps"
proof -
  obtain st w vs where r: "lex_run al wl (render_pieces ps) (STATE_FINDWORDSTART, [], []) = (st, w, vs)"
    by (cases "lex_run al wl (render_pieces ps) (STATE_FINDWORDSTART, [], [])")
  then show ?thesis using render_pieces_ends [OF _ _ r] assms by (auto simp: lex_line_def pieces_ok_def)
qed

lemma verify_resp_prefix: "verify_resp q (q @ xs) = Some True"
  by (induction q) simp_all

definition ready :: "UPSCONN_t \<Rightarrow> bool" where
  "ready c \<longleftrightarrow> fd_open c \<and> net_writes c = [] \<and> pconf_wf (pc_ctx c) \<and> wordbuf (pc_ctx c) = []
     \<and> arg_limit (pc_ctx c) = 32 \<and> wordlen_limit (pc_ctx c) = 512"

lemma checked_line_words:
  assumes "ready c" and "stream c bs (a @ [CHR 10])" and "CHR 10 \<notin> set a" and "length a < 511"
    and "\<not> starts_with a ''ERR''" and "lex_line 32 512 a = ws"
  shows "\<exists>c'. checked_line c = (True, c') \<and> ctx_args (pc_ctx c') = ws \<and> numargs (pc_ctx c') = length ws
    \<and> outbox c' = outbox c"
proof -
  obtain c1 where c1: "upscli_readline c = (Some a, c1)" "same_line c c1"
    using readline_any_pieces [of c bs a "[]"] assms(1-4) by (auto simp: ready_def)
  then have wf: "pconf_wf (pc_ctx c1)" "wordbuf (pc_ctx c1) = []" "arg_limit (pc_ctx c1) = 32" "wordlen_limit (pc_ctx c1) = 512"
    using assms(1) by (simp_all add: ready_def same_line_def)
  obtain ret ctx where l: "pconf_line (pc_ctx c1) a = (ret, ctx)" by fastforce
  then have "ret = 1" "ctx_args ctx = ws" "pconf_wf ctx" using pconf_line_args [OF wf(1,2), of a] wf(3,4) assms(6) by simp_all
  then show ?thesis
    using c1 l assms(5) numargs_ctx_args [of ctx]
    by (simp add: checked_line_def upscli_errcheck_def same_line_def)
qed

lemma upscli_get_answer:
  assumes "ready c" and "stream c bs (a @ [CHR 10])" and "CHR 10 \<notin> set a" and "length a < 511"
    and "\<not> starts_with a ''ERR''" and "lex_line 32 512 a = q @ vs" and "q \<noteq> []"
  shows "\<exists>c' arr. upscli_get q c = (Some (0, length q + length vs, arr), c') \<and> take (length q + length vs) arr = q @ vs
    \<and> outbox c' = outbox c @ [build_cmd ''GET'' q]"
proof -
  let ?c1 = "c\<lparr>outbox := outbox c @ [build_cmd ''GET'' q]\<rparr>"
  have "build_cmd ''GET'' q \<noteq> []" by (simp add: build_cmd_def Let_def snprintf_def UPSCLI_NETBUF_LEN_def)
  then have s: "upscli_sendline (build_cmd ''GET'' q) c = (0, ?c1)"
    using assms(1) by (simp add: upscli_sendline_def net_write_def ready_def)
  have r1: "ready ?c1" "stream ?c1 bs (a @ [CHR 10])" using assms(1,2) by (simp_all add: ready_def stream_def)
  obtain c2 where c2: "checked_line ?c1 = (True, c2)" "ctx_args (pc_ctx c2) = q @ vs"
    "numargs (pc_ctx c2) = length (q @ vs)" "outbox c2 = outbox ?c1"
    using checked_line_words [OF r1 assms(3-6)] by blast
  have "arglist (pc_ctx c2) = q @ vs @ drop (length (q @ vs)) (arglist (pc_ctx c2))"
    using c2(2,3) append_take_drop_id [of "length (q @ vs)" "arglist (pc_ctx c2)"] by (simp add: ctx_args_def)
  then have "verify_resp q (arglist (pc_ctx c2)) = Some True"
    using verify_resp_prefix by metis
  then show ?thesis
    using s c2 assms(7) by (simp add: upscli_get_def ctx_args_def)
qed

section \<open>From the tree of the server to the program\<close>

lemma client_line_get:
  assumes "fresh_ups w n i" and "writable w cid" and "state_tree_find (ups_inforoot (ups_at w i)) v = Some nd"
    and "strncasecmp v ''server.'' 7 \<noteq> 0"
  shows "sent (client_line cid [''GET'', ''VAR'', n, v] w) = sent w @ [(cid, clip (var_line (ups_fsd (ups_at w i)) n v (node_val nd)))]"
proof -
  let ?w = "upd_client cid (\<lambda>c. c\<lparr>cl_last_heard := wall w\<rparr>) w"
  have cmd: "find_cmd netcmds ''GET'' = Some GET" by code_simp
  have "firstups ?w = firstups w" by (simp add: upd_client_def)
  then have f: "fresh_ups ?w n i" "ups_at ?w i = ups_at w i"
    using assms(1) by (simp_all add: fresh_ups_def get_ups_ptr_def ups_at_def)
  have wr: "writable ?w cid" using assms(2) by (auto simp: writable_def client_at_upd_client) (simp add: upd_client_def)
  have "\<not> same_nocase ''VAR'' ''TRACKING''" "\<not> same_nocase ''VAR'' ''NUMLOGINS''" "\<not> same_nocase ''VAR'' ''UPSDESC''" by code_simp+
  then have "net_get cid [''VAR'', n, v] ?w = get_var cid n v ?w" by (simp add: net_get_def Let_def)
  also have "\<dots> = tell cid [var_line (ups_fsd (ups_at w i)) n v (node_val nd)] ?w"
    using assms(3,4) f wr by (simp add: get_var_def with_fresh_ups_ok sstate_getinfo_def state_getinfo_def reply_tell)
  finally have "net_get cid [''VAR'', n, v] ?w = tell cid [var_line (ups_fsd (ups_at w i)) n v (node_val nd)] ?w" .
  moreover have "\<not> flag_user GET" by code_simp
  moreover have "sent ?w = sent w" by (simp add: upd_client_def)
  ultimately show ?thesis by (simp add: client_line_def parse_net_def cmd check_command_def)
qed

lemma var_line_pieces:
  assumes "\<not> (same_nocase v ''ups.status'' \<and> fsd)" and "pconf_encode x [] ST_MAX_VALUE_LEN = enc_full x"
  shows "var_line fsd n v (pconf_encode x [] ST_MAX_VALUE_LEN) = render_pieces [Bare ''VAR'', Bare n, Bare v, Quoted x] @ [CHR 10]"
  using assms by (auto simp: var_line_def line_def quote_def quoted_def)

lemma printable_no_newline: "list_all printable s \<Longrightarrow> CHR 10 \<notin> set (enc_full s)"
  by (induction s) (auto simp: enc_char_def printable_def code_of_def)

lemma plain_no_newline: "list_all plain s \<Longrightarrow> CHR 10 \<notin> set s"
  by (induction s) (auto simp: plain_def code_of_def)

text \<open>
  Property C18: end to end, a program that asks for a variable through \<open>upscli_get\<close> gets the
  value that the server has. The command it writes is split by the server into \<open>GET\<close>,
  \<open>VAR\<close>, the name of the UPS and that of the variable; the server answers that client with
  one line; and from this line, in whatever pieces it arrives, the library returns these
  three words and the raw value, quotes, blanks and backslashes included, as long as the
  line fits the buffers and no forced shutdown is put in front of the status.
\<close>

theorem client_reads_variable:
  assumes "fresh_ups w n i" and "writable w cid" and "st_tree_wf (ups_inforoot (ups_at w i))"
    and "state_tree_find (ups_inforoot (ups_at w i)) v = Some nd"
    and "strncasecmp v ''server.'' 7 \<noteq> 0" and "\<not> (same_nocase v ''ups.status'' \<and> ups_fsd (ups_at w i))"
    and "list_all (list_all plain) [n, v]" and "n \<noteq> []" and "v \<noteq> []" and "list_all printable (st_raw nd)"
    and "length (enc_full (st_raw nd)) < 256" and "length n + length v < 240"
    and "ready c"
  shows "\<exists>a. sent (client_line cid [''GET'', ''VAR'', n, v] w) = sent w @ [(cid, a)] \<and>
     (\<forall>bs. stream c bs a \<longrightarrow>
       (\<exists>l arr c'. upscli_get [''VAR'', n, v] c = (Some (0, 4, arr), c') \<and> take 4 arr = [''VAR'', n, v, st_raw nd] \<and>
          outbox c' = outbox c @ [l @ [CHR 10]] \<and> line_words 32 512 l [''GET'', ''VAR'', n, v]))"
proof -
  let ?q = "[''VAR'', n, v]" and ?ps = "[Bare ''VAR'', Bare n, Bare v, Quoted (st_raw nd)]"
  let ?a = "render_pieces ?ps"
  have "node_wf nd" using find_wf [OF assms(3,4)] .
  moreover have enc: "pconf_encode (st_raw nd) [] ST_MAX_VALUE_LEN = enc_full (st_raw nd)"
    using assms(11) by (intro pconf_encode_whole) (simp_all add: ST_MAX_VALUE_LEN_def)
  ultimately have val: "var_line (ups_fsd (ups_at w i)) n v (node_val nd) = ?a @ [CHR 10]"
    using var_line_pieces [OF assms(6) enc] by (simp add: node_wf_def)
  have len: "length ?a < 511" using assms(11,12) by (simp add: quoted_def)
  then have "clip (?a @ [CHR 10]) = ?a @ [CHR 10]"
    by (simp only: clip_def NUT_NET_ANSWER_MAX_def SMALLBUF_def snprintf_def) simp
  then have sent: "sent (client_line cid [''GET'', ''VAR'', n, v] w) = sent w @ [(cid, ?a @ [CHR 10])]"
    using client_line_get [OF assms(1,2,4,5)] val by simp
  have word: "list_all plain ''VAR''" "list_all plain ''GET''" by code_simp+
  have sizes: "length n \<le> 512" "length v \<le> 512" "length (st_raw nd) \<le> 512"
    using assms(11,12) enc_full_length [of "st_raw nd"] by simp_all
  have "CHR 10 \<notin> set ?a"
    using assms(7,10) printable_no_newline plain_no_newline by (simp add: quoted_def)
  moreover have "\<not> starts_with ?a ''ERR''" by (simp add: starts_with_def)
  moreover have "lex_line 32 512 ?a = ?q @ [st_raw nd]"
    using lex_line_pieces [of 32 512 ?ps] assms(7-10) word sizes by (simp add: pieces_ok_def)
  moreover have "CHR '' '' \<notin> set s" if "list_all plain s" for s using that by (induction s) (auto simp: plain_def code_of_def)
  then have "list_all sendable ?q" "sendable ''GET''" "CHR '' '' \<notin> set ''GET''"
    and text_is: "cmd_text ''GET'' ?q = ''GET VAR '' @ n @ '' '' @ v"
    using assms(7-9) word sizes by (auto simp: sendable_def cmd_text_def arg_piece_def)
  then have cmd: "build_cmd ''GET'' ?q = cmd_text ''GET'' ?q @ [CHR 10] \<and> line_words 32 512 (cmd_text ''GET'' ?q) (''GET'' # ?q)"
    using assms(12) by (intro build_cmd_words) simp_all
  ultimately have "\<exists>c' arr. upscli_get ?q c = (Some (0, 4, arr), c') \<and> take 4 arr = ?q @ [st_raw nd]
      \<and> outbox c' = outbox c @ [build_cmd ''GET'' ?q]" if "stream c bs (?a @ [CHR 10])" for bs
    using upscli_get_answer [OF assms(13) that _ len, of ?q "[st_raw nd]"] by (simp add: eval_nat_numeral)
  then have "\<exists>l arr c'. upscli_get ?q c = (Some (0, 4, arr), c') \<and> take 4 arr = [''VAR'', n, v, st_raw nd] \<and>
          outbox c' = outbox c @ [l @ [CHR 10]] \<and> line_words 32 512 l (''GET'' # ?q)" if "stream c bs (?a @ [CHR 10])" for bs
    using cmd that by (metis append_Cons append_Nil)
  then show ?thesis using sent by blast
qed

definition quoted_ups :: upstype where
  "quoted_ups = live_ups\<lparr>ups_inforoot := snd (state_setinfo Leaf ''ups.id'' (''a '' @ [CHR 34] @ ''b'') (clock 1))\<rparr>"

lemma two_pieces: "length t > 5 \<Longrightarrow> stream (sample_conn [take 5 t, drop 5 t]) [take 5 t, drop 5 t] t"
  by (auto simp: stream_def sample_conn_def)

theorem client_reads_variable_witness:
  "\<exists>a. sent (client_line 4 [''GET'', ''VAR'', ''myups'', ''ups.id''] (served_world\<lparr>firstups := [quoted_ups]\<rparr>)) = [(4, a)] \<and>
     (\<exists>arr c'. upscli_get [''VAR'', ''myups'', ''ups.id''] (sample_conn [take 5 a, drop 5 a]) = (Some (0, 4, arr), c') \<and>
        take 4 arr = [''VAR'', ''myups'', ''ups.id'', ''a '' @ [CHR 34] @ ''b''])"
proof -
  let ?w = "served_world\<lparr>firstups := [quoted_ups]\<rparr>"
  have tree: "ups_inforoot quoted_ups = Node Leaf (new_node ''ups.id'' (''a '' @ [CHR 34] @ ''b'') (clock 1)) Leaf"
    by (simp add: quoted_ups_def)
  let ?nd = "new_node ''ups.id'' (''a '' @ [CHR 34] @ ''b'') (clock 1)"
  have at: "ups_at ?w 0 = quoted_ups" by (simp add: ups_at_def)
  have fr: "ups_name quoted_ups = ''myups''" "ups_connected quoted_ups" "\<not> ups_stale quoted_ups" "\<not> ups_fsd quoted_ups"
    by (simp_all add: quoted_ups_def live_ups_def sstate_connect_def ups_new_def)
  then have fresh: "fresh_ups ?w ''myups'' 0" by (simp add: fresh_ups_def get_ups_ptr_def ups_at_def)
  have wr: "writable ?w 4" by (simp add: writable_def client_at_def served_world_def client_connect_def sample_world_def)
  have raw: "st_raw ?nd = ''a '' @ [CHR 34] @ ''b''" "st_var ?nd = ''ups.id''" by simp_all
  have fd: "state_tree_find (ups_inforoot (ups_at ?w 0)) ''ups.id'' = Some ?nd" by (simp add: at tree raw)
  have wf: "st_tree_wf (ups_inforoot (ups_at ?w 0))" using new_node_wf by (simp add: at tree st_tree_wf_def)
  have txt1: "strncasecmp ''ups.id'' ''server.'' 7 \<noteq> 0" "\<not> (same_nocase ''ups.id'' ''ups.status'' \<and> ups_fsd (ups_at ?w 0))"
    by (simp_all add: at fr, code_simp)
  have txt2: "list_all (list_all plain) [''myups'', ''ups.id'']" "list_all printable (''a '' @ [CHR 34] @ ''b'')"
    "length (enc_full (''a '' @ [CHR 34] @ ''b'')) < 256" by code_simp+
  have none: "sent ?w = []" by (simp add: served_world_def client_connect_def sample_world_def)
  have ok: "ready (sample_conn bs)" for bs
    by (simp add: ready_def sample_conn_def pconf_init_wf)
      (simp add: pconf_init_def PCONF_DEFAULT_ARG_LIMIT_def PCONF_DEFAULT_WORDLEN_LIMIT_def)
  let ?a = "clip (var_line False ''myups'' ''ups.id'' (node_val ?nd))" and ?q = "[''VAR'', ''myups'', ''ups.id'']"
  note reads = client_reads_variable [OF fresh wr wf fd txt1 txt2(1) _ _ _ _ _ ok, unfolded raw, OF _ _ txt2(2,3)]
  obtain a where a: "sent (client_line 4 (''GET'' # ?q) ?w) = [(4, a)]"
    "stream (sample_conn [take 5 ?a, drop 5 ?a]) bs a \<Longrightarrow>
      \<exists>arr c'. upscli_get ?q (sample_conn [take 5 ?a, drop 5 ?a]) = (Some (0, 4, arr), c') \<and> take 4 arr = ?q @ [''a '' @ [CHR 34] @ ''b'']" for bs
    using reads [of "[take 5 ?a, drop 5 ?a]"] none by (simp del: length_greater_0_conv) blast
  have "a = ?a" using client_line_get [OF fresh wr fd txt1(1)] a(1) by (simp add: at fr none)
  moreover have "stream (sample_conn [take 5 ?a, drop 5 ?a]) [take 5 ?a, drop 5 ?a] ?a"
    by (rule two_pieces) code_simp
  ultimately show ?thesis using a by fastforce
qed

text \<open>
  A short line of a list: the words of the question are compared with more words than the
  answer has, and the first such answer makes the comparison leave the array.
\<close>

lemma short_list_line_read_outside:
  "fst (upscli_list_next [''VAR'', ''ups''] (sample_conn [''VAR'' @ [CHR 10]])) = None"
  by code_simp

section \<open>Names of devices\<close>

lemma upto_char:
  "d \<notin> set t \<Longrightarrow> takeWhile (\<lambda>c. c \<noteq> d) (t @ d # r) = t" "d \<notin> set t \<Longrightarrow> dropWhile (\<lambda>c. c \<noteq> d) (t @ d # r) = d # r"
  "d \<notin> set t \<Longrightarrow> takeWhile (\<lambda>c. c \<noteq> d) t = t" "d \<notin> set t \<Longrightarrow> dropWhile (\<lambda>c. c \<noteq> d) t = []"
  by (induction t) auto

lemma no_leading: "t \<noteq> [] \<Longrightarrow> d \<notin> set t \<Longrightarrow> dropWhile (\<lambda>c. c = d) (t @ r) = t @ r"
  by (cases t) auto

lemma strtok_token:
  assumes "t \<noteq> []" and "d \<notin> set t"
  shows "strtok_r d (t @ d # r) = (Some t, r)" "strtok_r d t = (Some t, [])"
  using assms by (simp_all add: strtok_r_def Let_def upto_char no_leading no_leading [of t d "[]", simplified])

lemma scan_port_dec:
  assumes "1 \<le> p" and "p \<le> 65535"
  shows "scan_port h (int_dec p) = Some (h, p)"
proof -
  have "strtol (int_dec p) 10 = (p, [], OK)" using assms by (intro strtol_int_dec) (simp_all add: LONG_MIN_def LONG_MAX_def)
  moreover have "int_dec p \<noteq> []" using nat_dec_nonempty by (simp add: int_dec_def)
  ultimately show ?thesis using assms by (simp add: scan_port_def Let_def)
qed

text \<open>
  Round trip of the names of devices. A name, a host and a port written as
  \<open>ups@host:port\<close> are split back into exactly these, without a port the default is taken,
  and an IPv6 address in brackets keeps its colons.
\<close>

theorem splitname_roundtrip:
  assumes "n \<noteq> []" and "CHR ''@'' \<notin> set n" and "h \<noteq> []" and "CHR ''@'' \<notin> set h" and "CHR ''['' \<notin> set h" and "CHR '']'' \<notin> set h"
    and "1 \<le> p" and "p \<le> 65535" and "length n + length h + length (int_dec p) < 507"
  shows "(CHR '':'' \<notin> set h \<longrightarrow>
       upscli_splitname d (n @ ''@'' @ h @ '':'' @ int_dec p) = Some (n, h, p) \<and> upscli_splitname d (n @ ''@'' @ h) = Some (n, h, d))
     \<and> upscli_splitname d (n @ ''@['' @ h @ '']:'' @ int_dec p) = Some (n, h, p)
     \<and> upscli_splitname d (n @ ''@['' @ h @ '']'') = Some (n, h, d)"
proof -
  have name: "upscli_splitname d (n @ CHR ''@'' # r) = map_option (\<lambda>hp. (n, hp)) (upscli_splitaddr d r)"
    if "r \<noteq> []" "length n + length r < 511" for r
  proof -
    have "snprintf SMALLBUF (n @ CHR ''@'' # r) = n @ CHR ''@'' # r" using that by (intro snprintf_fits) (simp add: SMALLBUF_def)
    moreover have "dropWhile (\<lambda>c. c \<noteq> CHR ''@'') (n @ CHR ''@'' # r) = CHR ''@'' # r" by (rule upto_char(2) [OF assms(2)])
    moreover have "CHR ''@'' # r \<noteq> n @ CHR ''@'' # r" using assms(1) by simp
    ultimately show ?thesis using strtok_token(1) [OF assms(1,2)] that(1) by (simp add: upscli_splitname_def Let_def)
  qed
  have fits: "snprintf SMALLBUF r = r" if "length r < 512" for r using that by (intro snprintf_fits) (simp add: SMALLBUF_def)
  have hd: "hd (h @ r) \<noteq> CHR ''[''" "hd h \<in> set h" for r using assms(3,5) by (cases h; auto)+
  have port: "int_dec p \<noteq> []" using nat_dec_nonempty by (simp add: int_dec_def)
  have plain: "upscli_splitaddr d (h @ CHR '':'' # int_dec p) = Some (h, p)" "upscli_splitaddr d h = Some (h, d)" if "CHR '':'' \<notin> set h"
  proof -
    have "hd (h @ r) \<noteq> CHR '':''" for r using that assms(3) by (cases h) auto
    then show "upscli_splitaddr d (h @ CHR '':'' # int_dec p) = Some (h, p)"
      using strtok_token(1) [OF assms(3) that, of "int_dec p"] fits [of "h @ CHR '':'' # int_dec p"] assms(9) scan_port_dec [OF assms(7,8)] hd
      by (simp add: upscli_splitaddr_def Let_def)
    show "upscli_splitaddr d h = Some (h, d)"
      using strtok_token(2) [OF assms(3) that] fits [of h] assms(3,9) hd(1) [of "[]"] that
      by (simp add: upscli_splitaddr_def Let_def)
  qed
  have bracket: "upscli_splitaddr d (CHR ''['' # h @ CHR '']'' # r) =
      (if r = [] \<or> hd r \<noteq> CHR '':'' then Some (h, d) else scan_port h (tl r))" if "length h + length r < 510" for r
    using strtok_token(1) [OF assms(3,6), of r] fits [of "CHR ''['' # h @ CHR '']'' # r"] that
    by (simp add: upscli_splitaddr_def Let_def)
  have lens: "length n < 507" "length h < 507" using assms(9) by auto
  show ?thesis
  proof (intro conjI impI)
    assume c: "CHR '':'' \<notin> set h"
    show "upscli_splitname d (n @ ''@'' @ h @ '':'' @ int_dec p) = Some (n, h, p)"
      using name [of "h @ CHR '':'' # int_dec p"] plain(1) [OF c] assms(3,9) by simp
    show "upscli_splitname d (n @ ''@'' @ h) = Some (n, h, d)"
      using name [of h] plain(2) [OF c] assms(3,9) by simp
  next
    show "upscli_splitname d (n @ ''@['' @ h @ '']:'' @ int_dec p) = Some (n, h, p)"
      using name [of "CHR ''['' # h @ CHR '']'' # CHR '':'' # int_dec p"] bracket [of "CHR '':'' # int_dec p"]
        scan_port_dec [OF assms(7,8)] assms(9) by simp
    show "upscli_splitname d (n @ ''@['' @ h @ '']'') = Some (n, h, d)"
      using name [of "CHR ''['' # h @ CHR '']'' # []"] bracket [of "[]"] assms(9) by simp
  qed
qed

theorem splitname_roundtrip_witness:
  "upscli_splitname 3493 (''u'' @ ''@['' @ ''::1'' @ '']:'' @ int_dec 80) = Some (''u'', ''::1'', 80)"
proof -
  have "length ''u'' + length ''::1'' + length (int_dec 80) < 507" by code_simp
  moreover have "(1::int) \<le> 80" "(80::int) \<le> 65535" by simp_all
  moreover have "''u'' \<noteq> []" "CHR ''@'' \<notin> set ''u''" "''::1'' \<noteq> []" "CHR ''@'' \<notin> set ''::1''" "CHR ''['' \<notin> set ''::1''" "CHR '']'' \<notin> set ''::1''" by simp_all
  ultimately show ?thesis using splitname_roundtrip [of "''u''" "''::1''" 80 3493] by blast
qed

end
