(* ===== verification/Upsmon.thy ===== *)
theory Upsmon
  imports Upsclient ConfFile StateTree Tokens
begin

text \<open>
  The shutdown monitor (\<open>src/clients/upsmon.c\<close>): the state it keeps of every UPS, the
  notifications on changes of the state, the decision that a UPS is critical, the sum of
  the power values, and the forced shutdown.

  An operation on one UPS works on the pair of the structure and of the static variables
  of the program. The clocks are part of the static variables: one pass over a UPS sees one
  time. What the data server answers is part of each connection (see \<open>Upsclient\<close>), what
  \<open>upscli_connect\<close> answers is the list \<open>dials\<close>. Signals, logging and the Windows code are
  left out.
\<close>

section \<open>Flags\<close>

definition ST_ONLINE :: "32 word" where "ST_ONLINE = 1"
definition ST_ONBATT :: "32 word" where "ST_ONBATT = 2"
definition ST_LOWBATT :: "32 word" where "ST_LOWBATT = 4"
definition ST_FSD :: "32 word" where "ST_FSD = 8"
definition ST_PRIMARY :: "32 word" where "ST_PRIMARY = 16"
definition ST_LOGIN :: "32 word" where "ST_LOGIN = 32"
definition ST_CLICONNECTED :: "32 word" where "ST_CLICONNECTED = 64"
definition ST_CAL :: "32 word" where "ST_CAL = 128"
definition ST_OFF :: "32 word" where "ST_OFF = 256"
definition ST_BYPASS :: "32 word" where "ST_BYPASS = 512"
definition ST_ECO :: "32 word" where "ST_ECO = 1024"
definition ST_ALARM :: "32 word" where "ST_ALARM = 2048"
definition ST_OVER :: "32 word" where "ST_OVER = 8192"
definition ST_TRIM :: "32 word" where "ST_TRIM = 16384"
definition ST_BOOST :: "32 word" where "ST_BOOST = 32768"

unbundle bit_operations_syntax

definition setflag :: "32 word \<Rightarrow> 32 word \<Rightarrow> 32 word" where
  "setflag val flag = val OR flag"

definition clearflag :: "32 word \<Rightarrow> 32 word \<Rightarrow> 32 word" where
  "clearflag val flag = val XOR (val AND flag)"

definition flag_isset :: "32 word \<Rightarrow> 32 word \<Rightarrow> bool" where
  "flag_isset num flag \<longleftrightarrow> num AND flag = flag"


section \<open>State\<close>

text \<open>
  \<open>tokens_freed\<close> tells that the tree of tokens has a pointer to a node that was freed: what
  the program does with the tree from then on is undefined.
\<close>

record utype_t =
  conn :: UPSCONN_t
  sys :: cstring
  upsname :: "cstring option"
  hostname :: "cstring option"
  port :: int
  pv :: "32 word"
  un :: cstring
  pw :: cstring
  status :: "32 word"
  status_tokens :: st_tree
  tokens_freed :: bool
  retain :: bool
  commstate :: int
  linestate :: int
  offstate :: int
  bypassstate :: int
  ecostate :: int
  alarmstate :: int
  overstate :: int
  pollfail_log_throttle_state :: int
  pollfail_log_throttle_count :: int
  lastpoll :: int
  lastnoncrit :: int
  lastrbwarn :: int
  lastncwarn :: int
  lastfsdnotify :: int
  offsince :: int
  oblbsince :: int
  oversince :: int

record notify_t =
  nt_type :: nat
  nt_name :: cstring
  nt_msg :: "cstring option"
  nt_stockmsg :: cstring
  nt_flags :: "32 word"

text \<open>
  What a notification does: a line in the system log, a message to all users, a run of the
  configured command. The text is \<open>None\<close> when the buffer was never written.
\<close>

datatype notify_action =
    To_syslog "cstring option"
  | To_wall "cstring option"
  | To_command "cstring list" "cstring option" cstring "cstring option"

datatype event =
    Notice nat "cstring option" "notify_action list"
  | Wall cstring
  | Parent_called
  | Powerdownflag_written cstring
  | System_called "cstring option"

text \<open>The answers of \<open>upscli_connect\<close>: a connection, a failure with its error, or a refused setup.\<close>

datatype dial = Connected UPSCONN_t | Failed int | Certificate_missing

text \<open>The directives about SSL and users, which only parts outside the model read.\<close>

record authconf_t =
  run_as_user :: "cstring option"
  authconf_configured :: "cstring option"
  certpath :: "cstring option"
  certfile :: "cstring option"
  certident :: "cstring option"
  certpasswd :: "cstring option"
  certverify :: int
  forcessl :: int
  nut_debug_level_global :: int

record gstate =
  minsupplies :: "32 word"
  sleepval :: "32 word"
  totalpv :: "32 word"
  deadtime :: int
  pollfreq :: "32 word"
  pollfreqalert :: "32 word"
  pollfail_log_throttle_max :: int
  offdurationtime :: int
  oblbdurationtime :: int
  hostsync :: int
  rbwarntime :: int
  nocommwarntime :: int
  finaldelay :: "32 word"
  alarmcritical :: int
  overdurationtime :: int
  shutdownexitdelay :: int
  use_pipe :: bool
  powerdownflag :: "cstring option"
  shutdowncmd_concat :: "cstring option"
  notifycmd_argv :: "cstring list"
  notifylist :: "notify_t list"
  alarms_prev :: cstring
  ac_default :: authconf_t
  now :: int
  monotonic :: timespec
  dials :: "dial list"
  closed :: "UPSCONN_t list"
  events :: "event list"

type_synonym watch = "utype_t \<times> gstate"

definition on_ups :: "(utype_t \<Rightarrow> utype_t) \<Rightarrow> watch \<Rightarrow> watch" where
  "on_ups f x = (f (fst x), snd x)"

definition on_globals :: "(gstate \<Rightarrow> gstate) \<Rightarrow> watch \<Rightarrow> watch" where
  "on_globals f x = (fst x, f (snd x))"

definition with_flag :: "32 word \<Rightarrow> watch \<Rightarrow> watch" where
  "with_flag flag = on_ups (\<lambda>u. u\<lparr>status := setflag (status u) flag\<rparr>)"

definition without_flag :: "32 word \<Rightarrow> watch \<Rightarrow> watch" where
  "without_flag flag = on_ups (\<lambda>u. u\<lparr>status := clearflag (status u) flag\<rparr>)"

definition ups_flag :: "watch \<Rightarrow> 32 word \<Rightarrow> bool" where
  "ups_flag x flag \<longleftrightarrow> flag_isset (status (fst x)) flag"

section \<open>Notifications\<close>

definition NOTIFY_ONLINE :: nat where "NOTIFY_ONLINE = 0"
definition NOTIFY_ONBATT :: nat where "NOTIFY_ONBATT = 1"
definition NOTIFY_LOWBATT :: nat where "NOTIFY_LOWBATT = 2"
definition NOTIFY_FSD :: nat where "NOTIFY_FSD = 3"
definition NOTIFY_COMMOK :: nat where "NOTIFY_COMMOK = 4"
definition NOTIFY_COMMBAD :: nat where "NOTIFY_COMMBAD = 5"
definition NOTIFY_SHUTDOWN :: nat where "NOTIFY_SHUTDOWN = 6"
definition NOTIFY_REPLBATT :: nat where "NOTIFY_REPLBATT = 7"
definition NOTIFY_NOCOMM :: nat where "NOTIFY_NOCOMM = 8"
definition NOTIFY_NOPARENT :: nat where "NOTIFY_NOPARENT = 9"
definition NOTIFY_CAL :: nat where "NOTIFY_CAL = 10"
definition NOTIFY_NOTCAL :: nat where "NOTIFY_NOTCAL = 11"
definition NOTIFY_OFF :: nat where "NOTIFY_OFF = 12"
definition NOTIFY_NOTOFF :: nat where "NOTIFY_NOTOFF = 13"
definition NOTIFY_BYPASS :: nat where "NOTIFY_BYPASS = 14"
definition NOTIFY_NOTBYPASS :: nat where "NOTIFY_NOTBYPASS = 15"
definition NOTIFY_ECO :: nat where "NOTIFY_ECO = 16"
definition NOTIFY_NOTECO :: nat where "NOTIFY_NOTECO = 17"
definition NOTIFY_ALARM :: nat where "NOTIFY_ALARM = 18"
definition NOTIFY_NOTALARM :: nat where "NOTIFY_NOTALARM = 19"
definition NOTIFY_OVER :: nat where "NOTIFY_OVER = 20"
definition NOTIFY_NOTOVER :: nat where "NOTIFY_NOTOVER = 21"
definition NOTIFY_TRIM :: nat where "NOTIFY_TRIM = 22"
definition NOTIFY_NOTTRIM :: nat where "NOTIFY_NOTTRIM = 23"
definition NOTIFY_BOOST :: nat where "NOTIFY_BOOST = 24"
definition NOTIFY_NOTBOOST :: nat where "NOTIFY_NOTBOOST = 25"
definition NOTIFY_SHUTDOWN_HOSTSYNC :: nat where "NOTIFY_SHUTDOWN_HOSTSYNC = 26"
definition NOTIFY_SUSPEND_TIMEJUMP_UNEXPECTED :: nat where "NOTIFY_SUSPEND_TIMEJUMP_UNEXPECTED = 27"
definition NOTIFY_OTHER :: nat where "NOTIFY_OTHER = 28"
definition NOTIFY_NOTOTHER :: nat where "NOTIFY_NOTOTHER = 29"
definition NOTIFY_SUSPEND_STARTING :: nat where "NOTIFY_SUSPEND_STARTING = 30"
definition NOTIFY_SUSPEND_FINISHED :: nat where "NOTIFY_SUSPEND_FINISHED = 31"

definition NOTIFY_IGNORE :: "32 word" where "NOTIFY_IGNORE = 1"
definition NOTIFY_SYSLOG :: "32 word" where "NOTIFY_SYSLOG = 2"
definition NOTIFY_WALL :: "32 word" where "NOTIFY_WALL = 4"
definition NOTIFY_EXEC :: "32 word" where "NOTIFY_EXEC = 8"
definition NOTIFY_DEFAULT :: "32 word" where "NOTIFY_DEFAULT = 6"

definition stock :: "nat \<Rightarrow> cstring \<Rightarrow> cstring \<Rightarrow> notify_t" where
  "stock n name text_of = \<lparr>nt_type = n, nt_name = name, nt_msg = None, nt_stockmsg = text_of, nt_flags = NOTIFY_DEFAULT\<rparr>"

definition stock_notifylist :: "notify_t list" where
  "stock_notifylist =
     [stock NOTIFY_ONLINE ''ONLINE'' ''UPS %s on line power'',
      stock NOTIFY_ONBATT ''ONBATT'' ''UPS %s on battery'',
      stock NOTIFY_LOWBATT ''LOWBATT'' ''UPS %s battery is low'',
      stock NOTIFY_FSD ''FSD'' ''UPS %s: forced shutdown in progress'',
      stock NOTIFY_COMMOK ''COMMOK'' ''Communications with UPS %s established'',
      stock NOTIFY_COMMBAD ''COMMBAD'' ''Communications with UPS %s lost'',
      stock NOTIFY_SHUTDOWN ''SHUTDOWN'' ''Auto logout and shutdown proceeding'',
      stock NOTIFY_SHUTDOWN_HOSTSYNC ''SHUTDOWN_HOSTSYNC''
        ''Shutdown initiated; primary system is waiting for secondaries to log out or time out'',
      stock NOTIFY_REPLBATT ''REPLBATT'' ''UPS %s battery needs to be replaced'',
      stock NOTIFY_NOCOMM ''NOCOMM'' ''UPS %s is unavailable'',
      stock NOTIFY_NOPARENT ''NOPARENT'' ''upsmon parent process died - shutdown impossible'',
      stock NOTIFY_CAL ''CAL'' ''UPS %s: calibration in progress'',
      stock NOTIFY_NOTCAL ''NOTCAL'' ''UPS %s: calibration finished'',
      stock NOTIFY_OFF ''OFF'' ''UPS %s: administratively OFF or asleep'',
      stock NOTIFY_NOTOFF ''NOTOFF'' ''UPS %s: no longer administratively OFF or asleep'',
      stock NOTIFY_BYPASS ''BYPASS'' ''UPS %s: on bypass (powered, not protecting)'',
      stock NOTIFY_NOTBYPASS ''NOTBYPASS'' ''UPS %s: no longer on bypass'',
      stock NOTIFY_ECO ''ECO'' ''UPS %s: in ECO mode (as defined by vendor)'',
      stock NOTIFY_NOTECO ''NOTECO'' ''UPS %s: no longer in ECO mode'',
      stock NOTIFY_ALARM ''ALARM'' ''UPS %s: one or more active alarms: [%s]'',
      stock NOTIFY_NOTALARM ''NOTALARM'' ''UPS %s is no longer in an alarm state (no active alarms)'',
      stock NOTIFY_OVER ''OVER'' ''UPS %s: overloaded'',
      stock NOTIFY_NOTOVER ''NOTOVER'' ''UPS %s: no longer overloaded'',
      stock NOTIFY_TRIM ''TRIM'' ''UPS %s: trimming incoming voltage'',
      stock NOTIFY_NOTTRIM ''NOTTRIM'' ''UPS %s: no longer trimming incoming voltage'',
      stock NOTIFY_BOOST ''BOOST'' ''UPS %s: boosting incoming voltage'',
      stock NOTIFY_NOTBOOST ''NOTBOOST'' ''UPS %s: no longer boosting incoming voltage'',
      stock NOTIFY_OTHER ''OTHER'' ''UPS %s: has at least one unclassified status token: [%s]'',
      stock NOTIFY_NOTOTHER ''NOTOTHER'' ''UPS %s has no unclassified status tokens anymore'',
      stock NOTIFY_SUSPEND_TIMEJUMP_UNEXPECTED ''SUSPEND_TIMEJUMP_UNEXPECTED''
        ''Unexpected clock change by %s, treating as wake up from sleep'',
      stock NOTIFY_SUSPEND_STARTING ''SUSPEND_STARTING'' ''OS is entering sleep/suspend/hibernate mode'',
      stock NOTIFY_SUSPEND_FINISHED ''SUSPEND_FINISHED''
        ''OS just finished sleep/suspend/hibernate mode, de-activating obsolete UPS readings to avoid an unfortunate shutdown'']"

definition notify :: "cstring list \<Rightarrow> cstring option \<Rightarrow> 32 word \<Rightarrow> cstring \<Rightarrow> cstring option \<Rightarrow> notify_action list" where
  "notify argv notice flags ntype name =
     (if flag_isset flags NOTIFY_IGNORE then []
      else (if flag_isset flags NOTIFY_SYSLOG then [To_syslog notice] else [])
         @ (if flag_isset flags NOTIFY_WALL then [To_wall notice] else [])
         @ (if flag_isset flags NOTIFY_EXEC \<and> argv \<noteq> [] then [To_command argv notice ntype name] else []))"

text \<open>A check of the format that fails leaves the buffer as it was: uninitialised.\<close>

definition formatted :: "unit + cstring option \<Rightarrow> cstring option" where
  "formatted r = (case r of Inl e \<Rightarrow> None | Inr s \<Rightarrow> s)"

definition notify_text :: "cstring \<Rightarrow> cstring option \<Rightarrow> cstring option \<Rightarrow> cstring option" where
  "notify_text msgfmt name extra =
     (let n = (case name of Some s \<Rightarrow> s | None \<Rightarrow> ''''); e = (case extra of Some s \<Rightarrow> s | None \<Rightarrow> ''(null)'')
      in case strstr msgfmt ''%s'' of
        None \<Rightarrow> Some (snprintf SMALLBUF msgfmt)
      | Some s \<Rightarrow>
          if strstr (tl s) ''%s'' \<noteq> None
          then formatted (snprintf_dynamic SMALLBUF msgfmt ''%s%s'' [n, e])
          else formatted (snprintf_dynamic SMALLBUF msgfmt ''%s'' [n]))"

definition do_notify_name :: "cstring option \<Rightarrow> nat \<Rightarrow> cstring option \<Rightarrow> gstate \<Rightarrow> gstate" where
  "do_notify_name name ntype extra g =
     (case find (\<lambda>e. nt_type e = ntype) (notifylist g) of
        None \<Rightarrow> g
      | Some e \<Rightarrow>
          let msgfmt = (case nt_msg e of Some m \<Rightarrow> m | None \<Rightarrow> nt_stockmsg e);
              msg = notify_text msgfmt name extra
          in g\<lparr>events := events g @ [Notice ntype name (notify (notifycmd_argv g) msg (nt_flags e) (nt_name e) name)]\<rparr>)"

definition do_notify :: "nat \<Rightarrow> cstring option \<Rightarrow> watch \<Rightarrow> watch" where
  "do_notify ntype extra x = on_globals (do_notify_name (Some (sys (fst x))) ntype extra) x"

section \<open>Conversation with the data server\<close>

text \<open>
  What \<open>get_var\<close> finds: a value, a failure, or a word behind the end of the array of the
  answer, which the code reads when the answer has only as many words as the question.
\<close>

datatype var_result = Got cstring | No_var | Outside

definition get_query :: "cstring \<Rightarrow> cstring \<Rightarrow> cstring list" where
  "get_query name var =
     (if var = ''numlogins'' then [''NUMLOGINS'', name]
      else if var = ''status'' then [''VAR'', name, ''ups.status'']
      else if var = ''buzzword'' then [''VAR'', name, ''ups.mode.buzzwords'']
      else if var = ''X-buzzword'' then [''VAR'', name, ''experimental.ups.mode.buzzwords'']
      else if var = ''alarm'' then [''VAR'', name, ''ups.alarm'']
      else [])"

definition get_var :: "cstring \<Rightarrow> utype_t \<Rightarrow> var_result \<times> utype_t" where
  "get_var var u =
     (case upsname u of
        None \<Rightarrow> (No_var, u)
      | Some name \<Rightarrow>
          let query = get_query name var in
          if query = [] then (No_var, u)
          else (case upscli_get query (conn u) of
            (None, c) \<Rightarrow> (Outside, u\<lparr>conn := c\<rparr>)
          | (Some (ret, numa, answer), c) \<Rightarrow>
              (if ret < 0 \<or> numa < length query then No_var
               else if length query < length answer then Got (snprintf SMALLBUF (answer ! length query))
               else Outside,
               u\<lparr>conn := c\<rparr>)))"

text \<open>One line to the server and its answer; \<open>None\<close> when writing or reading fails.\<close>

definition ask :: "cstring \<Rightarrow> UPSCONN_t \<Rightarrow> cstring option \<times> UPSCONN_t" where
  "ask l c =
     (case upscli_sendline (snprintf SMALLBUF (l @ [CHR 10])) c of
        (ret, c1) \<Rightarrow> if ret < 0 then (None, c1) else upscli_readline c1)"

definition says_ok :: "cstring option \<Rightarrow> bool" where
  "says_ok answer = (case answer of None \<Rightarrow> False | Some buf \<Rightarrow> starts_with buf ''OK'')"

text \<open>The keyword of older servers is tried when the first was answered, but not with OK.\<close>

definition apply_for_primary :: "utype_t \<Rightarrow> bool \<times> utype_t" where
  "apply_for_primary u =
     (if \<not> flag_isset (status u) ST_PRIMARY then (True, u)
      else case upsname u of
        None \<Rightarrow> (False, u)
      | Some name \<Rightarrow>
          if name = [] then (False, u)
          else (case ask (''PRIMARY '' @ name) (conn u) of
            (None, c) \<Rightarrow> (False, u\<lparr>conn := c\<rparr>)
          | (Some buf, c) \<Rightarrow>
              if says_ok (Some buf) then (True, u\<lparr>conn := c\<rparr>)
              else (case ask (''MASTER '' @ name) c of
                (answer, c1) \<Rightarrow> (says_ok answer, u\<lparr>conn := c1\<rparr>))))"

definition do_upsd_auth :: "utype_t \<Rightarrow> bool \<times> utype_t" where
  "do_upsd_auth u =
     (case upscli_authenticate (Some (un u)) (Some (pw u)) (conn u) of
        (ret, c) \<Rightarrow>
          if ret < 0 then (False, u\<lparr>conn := c\<rparr>)
          else case upsname u of
            None \<Rightarrow> (False, u\<lparr>conn := c\<rparr>)
          | Some name \<Rightarrow>
              if name = [] then (False, u\<lparr>conn := c\<rparr>)
              else (case ask (''LOGIN '' @ name) c of
                (answer, c1) \<Rightarrow>
                  if says_ok answer
                  then apply_for_primary (u\<lparr>conn := c1, status := setflag (status u) ST_LOGIN\<rparr>)
                  else (False, u\<lparr>conn := c1\<rparr>)))"

section \<open>Changes of the state of a UPS\<close>

definition ups_is_alive :: "watch \<Rightarrow> watch" where
  "ups_is_alive x =
     (let x1 = on_ups (\<lambda>u. u\<lparr>lastpoll := now (snd x)\<rparr>) x in
      if commstate (fst x1) = 1 then x1
      else on_ups (\<lambda>u. u\<lparr>commstate := 1\<rparr>)
             (if commstate (fst x1) = 0 then do_notify NOTIFY_COMMOK None x1 else x1))"

definition ups_is_gone :: "watch \<Rightarrow> watch" where
  "ups_is_gone x =
     (let u = fst x; g = snd x in
      if commstate u \<noteq> 0 then do_notify NOTIFY_COMMBAD None (on_ups (\<lambda>u. u\<lparr>commstate := 0\<rparr>) x)
      else if now g - lastpoll u < nocommwarntime g then x
      else if now g - lastncwarn u > nocommwarntime g
        then on_ups (\<lambda>u. u\<lparr>lastncwarn := now g\<rparr>) (do_notify NOTIFY_NOCOMM None x)
      else x)"

text \<open>The frequency is relaxed unless \<^emph>\<open>all\<close> of the flags are set.\<close>

definition try_restore_pollfreq :: "watch \<Rightarrow> watch" where
  "try_restore_pollfreq x =
     (if \<not> ups_flag x (foldl setflag 0 [ST_ONBATT, ST_OFF, ST_BYPASS, ST_ALARM, ST_CAL, ST_OVER, ST_TRIM, ST_BOOST])
      then on_globals (\<lambda>g. g\<lparr>sleepval := pollfreq g\<rparr>) x else x)"

definition poll_often :: "watch \<Rightarrow> watch" where
  "poll_often = on_globals (\<lambda>g. g\<lparr>sleepval := pollfreqalert g\<rparr>)"

definition ups_is_off :: "watch \<Rightarrow> watch" where
  "ups_is_off x =
     (let u = fst x; g = snd x in
      if ups_flag x ST_OFF then
        (if offsince u < 1 then on_ups (\<lambda>u. u\<lparr>offsince := now g\<rparr>) x
         else if offdurationtime g > 0 \<and> now g - offsince u > offdurationtime g
           then on_ups (\<lambda>u. u\<lparr>offstate := 1\<rparr>) x
         else x)
      else with_flag ST_OFF (do_notify NOTIFY_OFF None
             (on_ups (\<lambda>u. u\<lparr>offsince := now g, offstate := (if offdurationtime g = 0 then 1 else offstate u)\<rparr>)
               (poll_often x))))"

text \<open>The end of a condition: a notification when the flag was set.\<close>

definition flag_gone :: "nat \<Rightarrow> 32 word \<Rightarrow> watch \<Rightarrow> watch" where
  "flag_gone ntype flag x =
     (if ups_flag x flag then try_restore_pollfreq (without_flag flag (do_notify ntype None x)) else x)"

definition ups_is_notoff :: "watch \<Rightarrow> watch" where
  "ups_is_notoff x = flag_gone NOTIFY_NOTOFF ST_OFF (on_ups (\<lambda>u. u\<lparr>offsince := 0, offstate := 0\<rparr>) x)"

definition ups_is_bypass :: "watch \<Rightarrow> watch" where
  "ups_is_bypass x =
     (if ups_flag x ST_BYPASS then x
      else with_flag ST_BYPASS (do_notify NOTIFY_BYPASS None (on_ups (\<lambda>u. u\<lparr>bypassstate := 1\<rparr>) (poll_often x))))"

definition ups_is_notbypass :: "watch \<Rightarrow> watch" where
  "ups_is_notbypass x = flag_gone NOTIFY_NOTBYPASS ST_BYPASS (on_ups (\<lambda>u. u\<lparr>bypassstate := 0\<rparr>) x)"

definition ups_is_eco :: "watch \<Rightarrow> watch" where
  "ups_is_eco x =
     (if ups_flag x ST_ECO then x
      else with_flag ST_ECO (do_notify NOTIFY_ECO None (on_ups (\<lambda>u. u\<lparr>ecostate := 1\<rparr>) x)))"

definition ups_is_noteco :: "watch \<Rightarrow> watch" where
  "ups_is_noteco x = flag_gone NOTIFY_NOTECO ST_ECO (on_ups (\<lambda>u. u\<lparr>ecostate := 0\<rparr>) x)"

text \<open>The text of the last alarm is one for all UPSes.\<close>

definition ups_is_alarm :: "watch \<Rightarrow> watch" where
  "ups_is_alarm x =
     (if ups_flag x ST_ALARM then
        (case get_var ''alarm'' (fst x) of
           (r, u) \<Rightarrow>
             let x1 = (u, snd x) in
             case r of
               Got alarms \<Rightarrow>
                 if alarms_prev (snd x) = alarms then x1
                 else do_notify NOTIFY_ALARM (Some alarms) (on_globals (\<lambda>g. g\<lparr>alarms_prev := alarms\<rparr>) x1)
             | _ \<Rightarrow> x1)
      else
        (let x1 = on_ups (\<lambda>u. u\<lparr>alarmstate := 1\<rparr>) (poll_often x) in
         case get_var ''alarm'' (fst x1) of
           (r, u) \<Rightarrow>
             let x2 = (u, snd x1); alarms = (case r of Got a \<Rightarrow> a | _ \<Rightarrow> '''') in
             with_flag ST_ALARM (on_globals (\<lambda>g. g\<lparr>alarms_prev := alarms\<rparr>)
               (do_notify NOTIFY_ALARM (Some (case r of Got a \<Rightarrow> a | _ \<Rightarrow> ''n/a'')) x2))))"

definition ups_is_notalarm :: "watch \<Rightarrow> watch" where
  "ups_is_notalarm x = flag_gone NOTIFY_NOTALARM ST_ALARM (on_ups (\<lambda>u. u\<lparr>alarmstate := 0\<rparr>) x)"

definition ups_on_batt :: "watch \<Rightarrow> watch" where
  "ups_on_batt x =
     (if ups_flag x ST_ONBATT then x
      else without_flag ST_ONLINE (with_flag ST_ONBATT (do_notify NOTIFY_ONBATT None
             (on_ups (\<lambda>u. u\<lparr>linestate := 0\<rparr>) (poll_often x)))))"

definition ups_on_line :: "watch \<Rightarrow> watch" where
  "ups_on_line x =
     (let x1 = try_restore_pollfreq x in
      if ups_flag x1 ST_ONLINE then x1
      else without_flag ST_ONBATT (with_flag ST_ONLINE (on_ups (\<lambda>u. u\<lparr>linestate := 1\<rparr>)
             (if linestate (fst x1) \<noteq> - 1 then do_notify NOTIFY_ONLINE None x1 else x1))))"

definition flag_first_seen :: "nat \<Rightarrow> 32 word \<Rightarrow> watch \<Rightarrow> watch" where
  "flag_first_seen ntype flag x =
     (if ups_flag x flag then x else with_flag flag (do_notify ntype None x))"

definition ups_low_batt :: "watch \<Rightarrow> watch" where
  "ups_low_batt = flag_first_seen NOTIFY_LOWBATT ST_LOWBATT"

definition upsreplbatt :: "watch \<Rightarrow> watch" where
  "upsreplbatt x =
     (if now (snd x) - lastrbwarn (fst x) > rbwarntime (snd x)
      then on_ups (\<lambda>u. u\<lparr>lastrbwarn := now (snd x)\<rparr>) (do_notify NOTIFY_REPLBATT None x) else x)"

definition ups_is_cal :: "watch \<Rightarrow> watch" where
  "ups_is_cal = flag_first_seen NOTIFY_CAL ST_CAL"

definition ups_is_notcal :: "watch \<Rightarrow> watch" where
  "ups_is_notcal = flag_gone NOTIFY_NOTCAL ST_CAL"

definition ups_is_over :: "watch \<Rightarrow> watch" where
  "ups_is_over x =
     (let g = snd x in
      if ups_flag x ST_OVER
      then (if oversince (fst x) < 1 then on_ups (\<lambda>u. u\<lparr>oversince := now g\<rparr>) x else x)
      else with_flag ST_OVER (do_notify NOTIFY_OVER None
             (on_ups (\<lambda>u. u\<lparr>oversince := now g, overstate := 1\<rparr>)
               (if overdurationtime g \<ge> 0 then poll_often x else x))))"

definition ups_is_notover :: "watch \<Rightarrow> watch" where
  "ups_is_notover x = flag_gone NOTIFY_NOTOVER ST_OVER (on_ups (\<lambda>u. u\<lparr>oversince := 0, overstate := 0\<rparr>) x)"

definition ups_is_trim :: "watch \<Rightarrow> watch" where
  "ups_is_trim = flag_first_seen NOTIFY_TRIM ST_TRIM"

definition ups_is_nottrim :: "watch \<Rightarrow> watch" where
  "ups_is_nottrim = flag_gone NOTIFY_NOTTRIM ST_TRIM"

definition ups_is_boost :: "watch \<Rightarrow> watch" where
  "ups_is_boost = flag_first_seen NOTIFY_BOOST ST_BOOST"

definition ups_is_notboost :: "watch \<Rightarrow> watch" where
  "ups_is_notboost = flag_gone NOTIFY_NOTBOOST ST_BOOST"

definition ups_fsd :: "watch \<Rightarrow> watch" where
  "ups_fsd x =
     (if ups_flag x ST_FSD then x
      else with_flag ST_FSD
             (if lastfsdnotify (fst x) = 0
              then do_notify NOTIFY_FSD None (on_ups (\<lambda>u. u\<lparr>lastfsdnotify := now (snd x)\<rparr>) x) else x))"

section \<open>The shutdown\<close>

record monitor =
  firstups :: "utype_t list"
  globals :: gstate

definition log_events :: "event list \<Rightarrow> gstate \<Rightarrow> gstate" where
  "log_events es g = g\<lparr>events := events g @ es\<rparr>"

definition set_pdflag :: "gstate \<Rightarrow> gstate" where
  "set_pdflag g = (case powerdownflag g of None \<Rightarrow> g | Some fn \<Rightarrow> log_events [Powerdownflag_written fn] g)"

text \<open>\<open>setfsd\<close> only reports; its messages to the log are left out.\<close>

definition setfsd :: "watch \<Rightarrow> watch" where
  "setfsd x =
     (case upsname (fst x) of
        None \<Rightarrow> x
      | Some name \<Rightarrow>
          (case ask (''FSD '' @ name) (conn (fst x)) of
            (answer, c) \<Rightarrow>
              let x1 = on_ups (\<lambda>u. u\<lparr>conn := c\<rparr>) x in
              if says_ok answer \<and> lastfsdnotify (fst x1) = 0
              then do_notify NOTIFY_FSD None (on_ups (\<lambda>u. u\<lparr>lastfsdnotify := now (snd x)\<rparr>) x1)
              else x1))"

text \<open>The login counts of the UPSes that are asked, and the largest of them.\<close>

fun max_logins :: "(utype_t \<Rightarrow> bool) \<Rightarrow> int \<Rightarrow> utype_t list \<Rightarrow> int \<times> utype_t list" where
  "max_logins asked m [] = (m, [])"
| "max_logins asked m (u # us) =
     (if asked u then
        (case get_var ''numlogins'' u of
           (r, u1) \<Rightarrow>
             case max_logins asked (case r of Got temp \<Rightarrow> max m (fst (strtol temp 10)) | _ \<Rightarrow> m) us of
               (m1, us1) \<Rightarrow> (m1, u1 # us1))
      else (case max_logins asked m us of (m1, us1) \<Rightarrow> (m1, u # us1)))"

text \<open>
  The wait for the secondaries: each round reads the clock, the times of the rounds are an
  argument. \<open>None\<close>: still waiting when the times are used up.
\<close>

fun sync_rounds :: "int \<Rightarrow> bool \<Rightarrow> int list \<Rightarrow> monitor \<Rightarrow> monitor option" where
  "sync_rounds start first [] m = None"
| "sync_rounds start first (t # ts) m =
     (case max_logins (\<lambda>u. flag_isset (status u) ST_PRIMARY) 0 (firstups m) of
        (maxlogins, us) \<Rightarrow>
          let m1 = m\<lparr>firstups := us\<rparr> in
          if maxlogins \<le> 1 then Some m1
          else if difftime t start > hostsync (globals m1) then Some m1
          else sync_rounds start False ts
                 (if first then m1\<lparr>globals := do_notify_name None NOTIFY_SHUTDOWN_HOSTSYNC None (globals m1)\<rparr> else m1))"

definition sync_secondaries :: "int list \<Rightarrow> monitor \<Rightarrow> monitor option" where
  "sync_secondaries ts m = sync_rounds (now (globals m)) True ts m"

text \<open>
  The end: the command is run by the privileged parent, or here. The wait of \<open>FINALDELAY\<close>
  seconds before it changes nothing.
\<close>

definition call_shutdown :: "gstate \<Rightarrow> gstate" where
  "call_shutdown g =
     (if use_pipe g then log_events [Parent_called] g
      else log_events [System_called (shutdowncmd_concat g)] (set_pdflag g))"

text \<open>
  Afterwards the process exits, or keeps its connections alive until a signal (the flag of a
  round) or the end of \<open>SHUTDOWNEXIT\<close>. The result is the state in which it exits, or goes on
  when the rounds are used up.
\<close>

fun keep_alive :: "int \<Rightarrow> (int \<times> bool) list \<Rightarrow> monitor \<Rightarrow> monitor" where
  "keep_alive start [] m = m"
| "keep_alive start ((t, exit_flag) # rs) m =
     (let m1 = m\<lparr>firstups := snd (max_logins (\<lambda>u. True) 0 (firstups m))\<rparr> in
      if shutdownexitdelay (globals m) > 0 \<and> difftime t start > shutdownexitdelay (globals m) then m1
      else if exit_flag then m1
      else keep_alive start rs m1)"

definition doshutdown :: "int \<Rightarrow> (int \<times> bool) list \<Rightarrow> monitor \<Rightarrow> monitor" where
  "doshutdown start rs m =
     (let g = log_events [Wall (''Executing automatic power-fail shutdown'' @ [CHR 10])] (globals m);
          g1 = call_shutdown (do_notify_name None NOTIFY_SHUTDOWN None g);
          m1 = m\<lparr>globals := g1\<rparr>
      in if shutdownexitdelay g1 = 0 then m1 else keep_alive start rs m1)"

text \<open>An operation on each UPS in turn, each seeing the static variables the last one left.\<close>

fun each_ups :: "(watch \<Rightarrow> watch) \<Rightarrow> utype_t list \<Rightarrow> gstate \<Rightarrow> utype_t list \<times> gstate" where
  "each_ups f [] g = ([], g)"
| "each_ups f (u # us) g =
     (case f (u, g) of (u1, g1) \<Rightarrow> case each_ups f us g1 of (us1, g2) \<Rightarrow> (u1 # us1, g2))"

text \<open>
  The times of the rest of the process: the rounds of the wait, the time when the shutdown
  command is called, and the rounds after it.
\<close>

record ending =
  sync_times :: "int list"
  call_time :: int
  alive_rounds :: "(int \<times> bool) list"

definition forceshutdown :: "ending \<Rightarrow> monitor \<Rightarrow> monitor option" where
  "forceshutdown e m =
     (case each_ups (\<lambda>x. if ups_flag x ST_PRIMARY then setfsd x else x) (firstups m) (globals m) of
        (us, g) \<Rightarrow>
          let m1 = m\<lparr>firstups := us, globals := g\<rparr>;
              finish = doshutdown (call_time e) (alive_rounds e)
          in if \<not> list_ex (\<lambda>u. flag_isset (status u) ST_PRIMARY) (firstups m) then Some (finish m1)
             else map_option finish (sync_secondaries (sync_times e) m1))"

section \<open>Critical UPSes\<close>

text \<open>The greatest common divisor by subtraction. Both start values are positive: \<open>POLLFREQALERT\<close> is only taken from an \<open>int\<close> that is not negative.\<close>

function gcd_loop :: "int \<Rightarrow> int \<Rightarrow> int" where
  "gcd_loop n1 n2 =
     (if n1 \<le> 0 \<or> n2 \<le> 0 \<or> n1 = n2 then n1
      else if n1 > n2 then gcd_loop (n1 - n2) n2
      else gcd_loop n1 (n2 - n1))"
  by pat_completeness auto
termination
  by (relation "measure (\<lambda>(a, b). nat (a + b))") auto

declare gcd_loop.simps [simp del]

definition as_int :: "32 word \<Rightarrow> int" where
  "as_int w = sint w"

definition oblb_sleepval :: "gstate \<Rightarrow> 32 word" where
  "oblb_sleepval g =
     (let n = gcd_loop (if pollfreqalert g > 0 then as_int (pollfreqalert g) else 1)
                       (if oblbdurationtime g > 0 then oblbdurationtime g else 1)
      in of_int (if n > 0 then n else 1))"

text \<open>The conditions under which a UPS that does not answer counts as dead.\<close>

definition assumed_dead :: "watch \<Rightarrow> bool" where
  "assumed_dead x =
     (let u = fst x; g = snd x in
      if (overstate u = 1 \<or> ups_flag x ST_OVER) \<and> overdurationtime g \<ge> 0 \<and>
         \<not> (now g > 0 \<and> now g - oversince u < overdurationtime g) then True
      else if (alarmstate u = 1 \<or> ups_flag x ST_ALARM) \<and> alarmcritical g = 1 then True
      else if ups_flag x ST_CAL then True
      else if bypassstate u = 1 \<or> ups_flag x ST_BYPASS then True
      else offstate u = 1 \<or> (offdurationtime g \<ge> 0 \<and> ups_flag x ST_OFF))"

definition is_ups_critical :: "watch \<Rightarrow> bool \<times> watch" where
  "is_ups_critical x =
     (let u = fst x; g = snd x in
      if ups_flag x ST_FSD then (True, x)
      else if commstate u = 0 \<and> assumed_dead x then (True, x)
      else if ups_flag x ST_OFF \<and> offdurationtime g \<ge> 0 \<and> offstate u = 1 then (True, x)
      else if \<not> ups_flag x ST_ONBATT \<or> \<not> ups_flag x ST_LOWBATT then
        (False,
         if oblbsince u > 0
         then on_globals (\<lambda>g. g\<lparr>sleepval := (if ups_flag x ST_ONBATT then pollfreqalert g else pollfreq g)\<rparr>)
                (on_ups (\<lambda>u. u\<lparr>oblbsince := 0\<rparr>) x)
         else x)
      else if ups_flag x ST_CAL then (False, x)
      else if oblbdurationtime g > 0 \<and> oblbsince u < 1 \<and> now g > 0 then
        (False, on_globals (\<lambda>g. g\<lparr>sleepval := oblb_sleepval g\<rparr>) (on_ups (\<lambda>u. u\<lparr>oblbsince := now g\<rparr>) x))
      else if oblbdurationtime g > 0 \<and> now g > 0 \<and> now g - oblbsince u < oblbdurationtime g then (False, x)
      else if ups_flag x ST_PRIMARY then (True, x)
      else (now g - lastnoncrit u > hostsync g, x))"

text \<open>A UPS that was last on battery and has been silent for too long counts as low.\<close>

definition promote_dead :: "watch \<Rightarrow> watch" where
  "promote_dead x =
     (if now (snd x) - lastpoll (fst x) > deadtime (snd x) \<and> ups_flag x ST_ONBATT
      then with_flag ST_LOWBATT x else x)"

fun recalc_loop :: "utype_t list \<Rightarrow> gstate \<Rightarrow> 32 word \<Rightarrow> utype_t list \<times> gstate \<times> 32 word" where
  "recalc_loop [] g val_ol = ([], g, val_ol)"
| "recalc_loop (u # us) g val_ol =
     (case is_ups_critical (promote_dead (u, g)) of
        (critical, u1, g1) \<Rightarrow>
          case recalc_loop us g1 (if critical then val_ol else val_ol + pv u1) of
            (us1, g2, v) \<Rightarrow> (u1 # us1, g2, v))"

text \<open>\<open>Inl\<close>: the forced shutdown was started, from which the program does not return.\<close>

definition recalc :: "ending \<Rightarrow> monitor \<Rightarrow> monitor option + monitor" where
  "recalc e m =
     (case recalc_loop (firstups m) (globals m) 0 of
        (us, g, val_ol) \<Rightarrow>
          let m1 = m\<lparr>firstups := us, globals := g\<rparr> in
          if val_ol < minsupplies g then Inl (forceshutdown e m1) else Inr m1)"

definition drop_connection :: "utype_t \<Rightarrow> utype_t" where
  "drop_connection u =
     u\<lparr>commstate := 0, pollfail_log_throttle_count := - 1, pollfail_log_throttle_state := UPSCLI_ERR_NONE,
       status := clearflag (clearflag (status u) ST_LOGIN) ST_CLICONNECTED, conn := upscli_disconnect (conn u)\<rparr>"

section \<open>Configuration\<close>

definition managerial :: "cstring \<Rightarrow> bool option" where
  "managerial opt =
     (if same_nocase opt ''primary'' \<or> same_nocase opt ''master'' then Some True
      else if same_nocase opt ''secondary'' \<or> same_nocase opt ''slave'' then Some False
      else None)"

text \<open>A new user name or password: a device that is not logged in tries again.\<close>

definition retry_login :: "utype_t \<Rightarrow> utype_t" where
  "retry_login u = (if \<not> flag_isset (status u) ST_LOGIN then drop_connection u else u)"

definition redefine_ups :: "32 word \<Rightarrow> cstring \<Rightarrow> cstring \<Rightarrow> cstring \<Rightarrow> watch \<Rightarrow> watch" where
  "redefine_ups pv' un' pw' opt x =
     (let u = (fst x)\<lparr>retain := True, pv := pv'\<rparr>; g = (snd x)\<lparr>totalpv := totalpv (snd x) + pv u\<rparr>;
          u1 = (if un u \<noteq> un' then retry_login (u\<lparr>un := un'\<rparr>) else u);
          u2 = (if pw u1 \<noteq> pw' then retry_login (u1\<lparr>pw := pw'\<rparr>) else u1)
      in (if managerial opt = Some True \<and> \<not> flag_isset (status u2) ST_PRIMARY
          then drop_connection (u2\<lparr>status := setflag (status u2) ST_PRIMARY\<rparr>)
          else if managerial opt = Some False \<and> flag_isset (status u2) ST_PRIMARY
          then u2\<lparr>status := clearflag (status u2) ST_PRIMARY\<rparr>
          else u2, g))"

text \<open>A structure that no connection was made with.\<close>

definition no_conn :: "int \<Rightarrow> UPSCONN_t" where
  "no_conn err = \<lparr>fd_open = False, upserror = err, readbuf = [], pc_ctx = blank_ctx, inbox = [], net_writes = [], outbox = []\<rparr>"

definition NUT_PORT :: int where "NUT_PORT = 3493"

definition new_ups :: "cstring \<Rightarrow> 32 word \<Rightarrow> cstring \<Rightarrow> cstring \<Rightarrow> cstring \<Rightarrow> utype_t" where
  "new_ups name pv' un' pw' opt =
     (let parts = upscli_splitname NUT_PORT name in
      \<lparr>conn = no_conn 0, sys = name, upsname = map_option fst parts, hostname = map_option (fst \<circ> snd) parts,
       port = (case parts of None \<Rightarrow> 0 | Some (n, h, p) \<Rightarrow> p), pv = pv', un = un', pw = pw',
       status = (if managerial opt = Some True then setflag 0 ST_PRIMARY else 0), status_tokens = Leaf, tokens_freed = False,
       retain = True, commstate = - 1, linestate = - 1, offstate = - 1, bypassstate = - 1, ecostate = - 1,
       alarmstate = - 1, overstate = - 1, pollfail_log_throttle_state = UPSCLI_ERR_NONE,
       pollfail_log_throttle_count = - 1, lastpoll = 0, lastnoncrit = 0, lastrbwarn = 0, lastncwarn = 0,
       lastfsdnotify = 0, offsince = 0, oblbsince = 0, oversince = 0\<rparr>)"

text \<open>The first device of that name is redefined; a new one is put at the end.\<close>

fun add_or_redefine :: "(watch \<Rightarrow> watch) \<Rightarrow> cstring \<Rightarrow> utype_t \<Rightarrow> utype_t list \<Rightarrow> gstate \<Rightarrow> utype_t list \<times> gstate" where
  "add_or_redefine again name fresh [] g = ([fresh], g\<lparr>totalpv := totalpv g + pv fresh\<rparr>)"
| "add_or_redefine again name fresh (u # us) g =
     (if sys u = name then (case again (u, g) of (u1, g1) \<Rightarrow> (u1 # us, g1))
      else (case add_or_redefine again name fresh us g of (us1, g1) \<Rightarrow> (u # us1, g1)))"

definition addups :: "bool \<Rightarrow> cstring \<Rightarrow> cstring \<Rightarrow> cstring \<Rightarrow> cstring \<Rightarrow> cstring \<Rightarrow> monitor \<Rightarrow> monitor" where
  "addups reloading name pvs un' pw' opt m =
     (let lpv = fst (strtol pvs 10) in
      if lpv < 0 \<or> lpv > UINT_MAX then m
      else case add_or_redefine (if reloading then redefine_ups (of_int lpv) un' pw' opt else id) name
                  (new_ups name (of_int lpv) un' pw' opt) (firstups m) (globals m) of
        (us, g) \<Rightarrow> m\<lparr>firstups := us, globals := g\<rparr>)"

text \<open>The first entry of the list with that name, in any spelling.\<close>

fun at_notify :: "cstring \<Rightarrow> (notify_t \<Rightarrow> notify_t) \<Rightarrow> notify_t list \<Rightarrow> notify_t list" where
  "at_notify name f [] = []"
| "at_notify name f (e # es) = (if same_nocase (nt_name e) name then f e # es else e # at_notify name f es)"

definition set_notifymsg :: "cstring \<Rightarrow> cstring \<Rightarrow> gstate \<Rightarrow> gstate" where
  "set_notifymsg name msg g = g\<lparr>notifylist := at_notify name (\<lambda>e. e\<lparr>nt_msg := Some msg\<rparr>) (notifylist g)\<rparr>"

text \<open>The parts of the flags between the plus signs.\<close>

fun plus_parts :: "cstring \<Rightarrow> cstring list" where
  "plus_parts [] = [[]]"
| "plus_parts (c # cs) =
     (if c = CHR ''+'' then [] # plus_parts cs
      else case plus_parts cs of [] \<Rightarrow> [[c]] | w # ws \<Rightarrow> (c # w) # ws)"

definition notify_flag :: "cstring \<Rightarrow> 32 word" where
  "notify_flag w =
     (if w = ''SYSLOG'' then NOTIFY_SYSLOG else if w = ''WALL'' then NOTIFY_WALL
      else if w = ''EXEC'' then NOTIFY_EXEC else if w = ''IGNORE'' then NOTIFY_IGNORE else 0)"

definition set_notifyflag :: "cstring \<Rightarrow> cstring \<Rightarrow> gstate \<Rightarrow> gstate" where
  "set_notifyflag ntype flags g =
     g\<lparr>notifylist := at_notify ntype
         (\<lambda>e. e\<lparr>nt_flags := foldl (\<lambda>f w. setflag f (notify_flag w)) 0 (plus_parts flags)\<rparr>) (notifylist g)\<rparr>"

text \<open>\<open>SHUTDOWNCMD\<close>: the first word as it is, the others in quotes.\<close>

fun cat_quoted :: "nat \<Rightarrow> cstring \<Rightarrow> cstring list \<Rightarrow> cstring" where
  "cat_quoted n buf [] = buf"
| "cat_quoted n buf (a # as) =
     cat_quoted n (snprintfcat buf n ([CHR 39] @ a @ [CHR 39] @ (if as = [] then [] else '' ''))) as"

definition shutdown_concat :: "cstring list \<Rightarrow> cstring" where
  "shutdown_concat args =
     (let n = sum_list (map (\<lambda>a. length a + 3) args) + 1 in
      cat_quoted n (snprintf n (hd args @ (if tl args = [] then [] else '' ''))) (tl args))"

definition set_unsigned :: "cstring \<Rightarrow> (32 word \<Rightarrow> gstate \<Rightarrow> gstate) \<Rightarrow> gstate \<Rightarrow> gstate" where
  "set_unsigned arg f g = (if atoi arg < 0 then g else f (of_int (atoi arg)) g)"

text \<open>
  The directives that set one variable. \<open>None\<close>: not one of them. Messages to the log, and the
  warning of \<open>checkmode\<close> that the privileged parent does not hear of a reload, are left out.
\<close>

definition simple_directive :: "cstring list \<Rightarrow> gstate \<Rightarrow> gstate option" where
  "simple_directive arg g =
     (let a0 = arg ! 0; a1 = arg ! 1 in
      if a0 = ''NOTIFYCMD'' then Some (g\<lparr>notifycmd_argv := tl arg\<rparr>)
      else if a0 = ''SHUTDOWNCMD'' then Some (g\<lparr>shutdowncmd_concat := Some (shutdown_concat (tl arg))\<rparr>)
      else if a0 = ''SHUTDOWNEXIT'' then
        Some (g\<lparr>shutdownexitdelay :=
          (if same_nocase a1 ''on'' \<or> same_nocase a1 ''yes'' \<or> same_nocase a1 ''true'' then 0
           else if same_nocase a1 ''off'' \<or> same_nocase a1 ''no'' \<or> same_nocase a1 ''false'' then - 1
           else case str_to_int a1 10 of Inr v \<Rightarrow> v | Inl e \<Rightarrow> 0)\<rparr>)
      else if a0 = ''POWERDOWNFLAG'' then Some (g\<lparr>powerdownflag := Some a1\<rparr>)
      else if a0 = ''POLLFREQ'' then Some (set_unsigned a1 (\<lambda>v g. g\<lparr>pollfreq := v\<rparr>) g)
      else if a0 = ''POLLFREQALERT'' then Some (set_unsigned a1 (\<lambda>v g. g\<lparr>pollfreqalert := v\<rparr>) g)
      else if a0 = ''POLLFAIL_LOG_THROTTLE_MAX'' then
        Some (if atoi a1 < 0 \<or> atoi a1 = INT_MAX then g else g\<lparr>pollfail_log_throttle_max := atoi a1\<rparr>)
      else if a0 = ''OFFDURATION'' then Some (g\<lparr>offdurationtime := atoi a1\<rparr>)
      else if a0 = ''OVERDURATION'' then Some (g\<lparr>overdurationtime := atoi a1\<rparr>)
      else if a0 = ''OBLBDURATION'' then Some (g\<lparr>oblbdurationtime := (if atoi a1 < 1 then 0 else atoi a1)\<rparr>)
      else if a0 = ''HOSTSYNC'' then Some (g\<lparr>hostsync := atoi a1\<rparr>)
      else if a0 = ''DEADTIME'' then Some (g\<lparr>deadtime := atoi a1\<rparr>)
      else if a0 = ''MINSUPPLIES'' then Some (set_unsigned a1 (\<lambda>v g. g\<lparr>minsupplies := v\<rparr>) g)
      else if a0 = ''RBWARNTIME'' then Some (g\<lparr>rbwarntime := atoi a1\<rparr>)
      else if a0 = ''NOCOMMWARNTIME'' then Some (g\<lparr>nocommwarntime := atoi a1\<rparr>)
      else if a0 = ''FINALDELAY'' then Some (set_unsigned a1 (\<lambda>v g. g\<lparr>finaldelay := v\<rparr>) g)
      else if a0 = ''RUN_AS_USER'' then Some (g\<lparr>ac_default := (ac_default g)\<lparr>run_as_user := Some a1\<rparr>\<rparr>)
      else if a0 = ''AUTHCONF'' then Some (g\<lparr>ac_default := (ac_default g)\<lparr>authconf_configured := Some a1\<rparr>\<rparr>)
      else if a0 = ''CERTPATH'' then Some (g\<lparr>ac_default := (ac_default g)\<lparr>certpath := Some a1\<rparr>\<rparr>)
      else if a0 = ''CERTFILE'' then Some (g\<lparr>ac_default := (ac_default g)\<lparr>certfile := Some a1\<rparr>\<rparr>)
      else if a0 = ''CERTVERIFY'' then Some (g\<lparr>ac_default := (ac_default g)\<lparr>certverify := atoi a1\<rparr>\<rparr>)
      else if a0 = ''FORCESSL'' then Some (g\<lparr>ac_default := (ac_default g)\<lparr>forcessl := atoi a1\<rparr>\<rparr>)
      else if a0 = ''ALARMCRITICAL'' then Some (g\<lparr>alarmcritical := atoi a1\<rparr>)
      else if same_nocase a0 ''DEBUG_MIN'' then
        Some (case str_to_int a1 10 of
                Inr v \<Rightarrow> if v \<ge> 0 then g\<lparr>ac_default := (ac_default g)\<lparr>nut_debug_level_global := v\<rparr>\<rparr> else g
              | Inl e \<Rightarrow> g)
      else None)"

text \<open>
  One line: whether the directive was used, and the new state; \<open>None\<close> is the fatal end of the
  program. The SSL rules of single hosts (\<open>CERTHOST\<close>) are only recognised.
\<close>

definition parse_conf_arg :: "bool \<Rightarrow> cstring list \<Rightarrow> monitor \<Rightarrow> (bool \<times> monitor) option" where
  "parse_conf_arg reloading arg m =
     (if length arg < 2 then Some (False, m)
      else case simple_directive arg (globals m) of
        Some g \<Rightarrow> Some (True, m\<lparr>globals := g\<rparr>)
      | None \<Rightarrow>
          if length arg < 3 then Some (False, m)
          else if arg ! 0 = ''NOTIFYMSG'' then Some (True, m\<lparr>globals := set_notifymsg (arg ! 1) (arg ! 2) (globals m)\<rparr>)
          else if arg ! 0 = ''NOTIFYFLAG'' then Some (True, m\<lparr>globals := set_notifyflag (arg ! 1) (arg ! 2) (globals m)\<rparr>)
          else if arg ! 0 = ''CERTIDENT'' then
            Some (True, m\<lparr>globals := (globals m)\<lparr>ac_default := (ac_default (globals m))\<lparr>certident := Some (arg ! 1), certpasswd := Some (arg ! 2)\<rparr>\<rparr>\<rparr>)
          else if length arg < 5 then Some (False, m)
          else if arg ! 0 = ''CERTHOST'' then Some (True, m)
          else if arg ! 0 = ''MONITOR'' then
            (if length arg = 5 then None
             else Some (True, addups reloading (arg ! 1) (arg ! 2) (arg ! 3) (arg ! 4) (arg ! 5) m))
          else Some (False, m))"

fun conf_directives :: "bool \<Rightarrow> cstring list list \<Rightarrow> monitor \<Rightarrow> monitor option" where
  "conf_directives reloading [] m = Some m"
| "conf_directives reloading (l # ls) m =
     (if l = [] then conf_directives reloading ls m
      else case parse_conf_arg reloading l m of
        None \<Rightarrow> None
      | Some (used, m1) \<Rightarrow> conf_directives reloading ls m1)"

text \<open>\<open>loadconfig\<close>: \<open>junk\<close> is the uninitialised context, \<open>file\<close> the outcome of opening the file.\<close>

definition forget_throttling :: "monitor \<Rightarrow> monitor" where
  "forget_throttling m =
     (if pollfail_log_throttle_max (globals m) \<ge> 0
      then m\<lparr>globals := (globals m)\<lparr>pollfail_log_throttle_max := - 1\<rparr>,
             firstups := map (\<lambda>u. u\<lparr>pollfail_log_throttle_count := - 1, pollfail_log_throttle_state := UPSCLI_ERR_NONE\<rparr>) (firstups m)\<rparr>
      else m)"

definition loadconfig :: "PCONF_CTX_t \<Rightarrow> cstring \<Rightarrow> cstring + cstring \<Rightarrow> bool \<Rightarrow> monitor \<Rightarrow> monitor option" where
  "loadconfig junk fn file reloading m =
     (case conf_words junk fn file of
        None \<Rightarrow> None
      | Some (Inl err) \<Rightarrow> if reloading then Some m else None
      | Some (Inr ls) \<Rightarrow>
          conf_directives reloading ls
            (if reloading
             then forget_throttling
                    (m\<lparr>globals := (globals m)\<lparr>ac_default := (ac_default (globals m))\<lparr>nut_debug_level_global := - 1\<rparr>\<rparr>\<rparr>)
             else m))"

text \<open>
  A reload deletes the devices that the file does not name any more; their connections are
  closed, which is all that stays of them.
\<close>

fun delete_devices :: "utype_t list \<Rightarrow> gstate \<Rightarrow> utype_t list \<times> gstate" where
  "delete_devices [] g = ([], g)"
| "delete_devices (u # us) g =
     (if retain u then (case delete_devices us g of (us1, g1) \<Rightarrow> (u # us1, g1))
      else delete_devices us (g\<lparr>closed := closed g @ [conn (drop_connection u)]\<rparr>))"

definition reload_conf :: "PCONF_CTX_t \<Rightarrow> cstring \<Rightarrow> bool \<Rightarrow> cstring + cstring \<Rightarrow> monitor \<Rightarrow> monitor option" where
  "reload_conf junk fn readable file m =
     (if \<not> readable then Some m
      else case loadconfig junk fn file True
                  (m\<lparr>firstups := map (\<lambda>u. u\<lparr>retain := False\<rparr>) (firstups m), globals := (globals m)\<lparr>totalpv := 0\<rparr>\<rparr>) of
        None \<Rightarrow> None
      | Some m1 \<Rightarrow>
          case delete_devices (firstups m1) (globals m1) of
            (us, g) \<Rightarrow> if totalpv g < minsupplies g then None else Some (m1\<lparr>firstups := us, globals := g\<rparr>))"

section \<open>Polling\<close>

definition update_crittimer :: "watch \<Rightarrow> watch" where
  "update_crittimer x =
     (if \<not> ups_flag x ST_ONBATT \<or> \<not> ups_flag x ST_LOWBATT \<or> ups_flag x ST_CAL
      then on_ups (\<lambda>u. u\<lparr>lastnoncrit := now (snd x)\<rparr>) x else x)"

text \<open>No answer left counts as a failure.\<close>

definition upscli_connect :: "gstate \<Rightarrow> dial \<times> gstate" where
  "upscli_connect g =
     (case dials g of [] \<Rightarrow> (Failed UPSCLI_ERR_UNKNOWN, g) | d # ds \<Rightarrow> (d, g\<lparr>dials := ds\<rparr>))"

definition try_connect :: "watch \<Rightarrow> bool \<times> watch" where
  "try_connect x =
     (let x1 = without_flag ST_CLICONNECTED x in
      case upscli_connect (snd x1) of
        (d, g) \<Rightarrow>
          let x2 = (fst x1, g) in
          case d of
            Certificate_missing \<Rightarrow> (False, on_ups drop_connection (ups_is_gone x2))
          | Failed err \<Rightarrow> (False, ups_is_gone (on_ups (\<lambda>u. u\<lparr>conn := no_conn err\<rparr>) x2))
          | Connected c \<Rightarrow>
              (case do_upsd_auth (fst (with_flag ST_CLICONNECTED (on_ups (\<lambda>u. u\<lparr>conn := c\<rparr>) x2))) of
                 (good, u) \<Rightarrow> (good, (u, g))))"

text \<open>The words of \<open>ups.status\<close> that have a meaning, and what they do.\<close>

definition status_word :: "cstring \<Rightarrow> (watch \<Rightarrow> watch) option" where
  "status_word w =
     (if same_nocase w ''OL'' then Some ups_on_line
      else if same_nocase w ''OB'' then Some ups_on_batt
      else if same_nocase w ''LB'' then Some ups_low_batt
      else if same_nocase w ''RB'' then Some upsreplbatt
      else if same_nocase w ''CAL'' then Some ups_is_cal
      else if same_nocase w ''OFF'' then Some ups_is_off
      else if same_nocase w ''BYPASS'' then Some ups_is_bypass
      else if same_nocase w ''ECO'' then Some ups_is_eco
      else if same_nocase w ''ALARM'' then Some ups_is_alarm
      else if same_nocase w ''OVER'' then Some ups_is_over
      else if same_nocase w ''TRIM'' then Some ups_is_trim
      else if same_nocase w ''BOOST'' then Some ups_is_boost
      else if same_nocase w ''FSD'' then Some ups_fsd
      else if same_nocase w ''HB'' \<or> same_nocase w ''CHRG'' \<or> same_nocase w ''DISCHRG'' then Some id
      else None)"

text \<open>What the words leave: the state, the unknown words, the number of changes among these.\<close>

type_synonym word_state = "watch \<times> cstring \<times> nat"

definition parse_word :: "cstring \<Rightarrow> word_state \<Rightarrow> word_state" where
  "parse_word w s =
     (case s of (x, other_stat_words, changed) \<Rightarrow>
        (case (case status_word w of
                 Some f \<Rightarrow> (f x, other_stat_words, changed)
               | None \<Rightarrow>
                   let t = status_tokens (fst x) in
                   (on_ups (\<lambda>u. u\<lparr>status_tokens := snd (state_setinfo t w ''1'' (monotonic (snd x)))\<rparr>) x,
                    snprintfcat other_stat_words SMALLBUF ((if other_stat_words = [] then [] else '' '') @ w),
                    if state_tree_find t w = None then changed + 1 else changed)) of
           (x1, o1, c1) \<Rightarrow> (update_crittimer x1, o1, c1)))"

text \<open>
  The sweep over the tokens that were not seen: from the leftmost node along the right
  children. A root without a left child is replaced by its right child, which loses its own
  left subtree. Any other node is freed while its parent still points at it.
\<close>

fun leftmost :: "st_tree \<Rightarrow> st_tree" where
  "leftmost Leaf = Leaf"
| "leftmost (Node Leaf n r) = Node Leaf n r"
| "leftmost (Node l n r) = leftmost l"

fun right_spine :: "st_tree \<Rightarrow> st_node list" where
  "right_spine Leaf = []"
| "right_spine (Node l n r) = n # right_spine r"

definition stale_token :: "timespec \<Rightarrow> st_node \<Rightarrow> bool" where
  "stale_token st_start n \<longleftrightarrow> st_tree_node_compare_timestamp (Some n) (Some st_start) < 0"

fun drop_roots :: "timespec \<Rightarrow> st_tree \<Rightarrow> st_tree" where
  "drop_roots st_start Leaf = Leaf"
| "drop_roots st_start (Node l n r) =
     (if stale_token st_start n
      then (case drop_roots st_start r of Leaf \<Rightarrow> Leaf | Node l1 n1 r1 \<Rightarrow> Node Leaf n1 r1)
      else Node l n r)"

definition sweep_tokens :: "timespec \<Rightarrow> st_tree \<Rightarrow> nat \<times> st_tree \<times> bool" where
  "sweep_tokens st_start t =
     (let t1 = (if leftmost t = t then drop_roots st_start t else t) in
      (length (filter (stale_token st_start) (right_spine (leftmost t))), t1,
       list_ex (stale_token st_start) (right_spine (leftmost t1))))"

text \<open>As written: true for every text, since no text has all four.\<close>

definition eco_buzzword :: "cstring \<Rightarrow> bool" where
  "eco_buzzword b \<longleftrightarrow>
     b \<noteq> [] \<and> (strstr b '':ECO'' = None \<or> strstr b '':ESS'' = None \<or> strstr b '':HE'' = None \<or> strstr b '':SMART'' = None)"

definition unless_in :: "cstring \<Rightarrow> cstring \<Rightarrow> (watch \<Rightarrow> watch) \<Rightarrow> watch \<Rightarrow> watch" where
  "unless_in word stat f x = (if strstr stat word = None then f x else x)"

definition gone_words :: "cstring \<Rightarrow> bool \<Rightarrow> watch \<Rightarrow> watch" where
  "gone_words stat eco x =
     (let x1 = unless_in ''LB'' stat (without_flag ST_LOWBATT) x;
          x2 = unless_in ''FSD'' stat (\<lambda>x. on_ups (\<lambda>u. u\<lparr>lastfsdnotify := 0\<rparr>) (without_flag ST_FSD x)) x1;
          x3 = unless_in ''CAL'' stat ups_is_notcal x2;
          x4 = unless_in ''OFF'' stat ups_is_notoff x3;
          x5 = unless_in ''BYPASS'' stat ups_is_notbypass x4;
          x6 = unless_in ''ALARM'' stat ups_is_notalarm x5;
          x7 = unless_in ''OVER'' stat ups_is_notover x6;
          x8 = unless_in ''TRIM'' stat ups_is_nottrim x7;
          x9 = unless_in ''BOOST'' stat ups_is_notboost x8
      in if strstr stat ''ECO'' = None \<and> \<not> eco then ups_is_noteco x9
         else if eco then ups_is_eco x9 else x9)"

definition finish_words :: "timespec \<Rightarrow> word_state \<Rightarrow> watch" where
  "finish_words st_start s =
     (case s of (x, other_stat_words, changed) \<Rightarrow>
        (case sweep_tokens st_start (status_tokens (fst x)) of
           (gone, t, freed) \<Rightarrow>
             let x1 = on_ups (\<lambda>u. u\<lparr>status_tokens := t, tokens_freed := tokens_freed u \<or> freed\<rparr>) x in
             if changed + gone = 0 then x1
             else if other_stat_words \<noteq> [] then do_notify NOTIFY_OTHER (Some other_stat_words) x1
             else on_ups (\<lambda>u. u\<lparr>status_tokens := Leaf\<rparr>) (do_notify NOTIFY_NOTOTHER None x1)))"

definition parse_status :: "cstring \<Rightarrow> cstring \<Rightarrow> cstring \<Rightarrow> watch \<Rightarrow> watch" where
  "parse_status stat buzzword buzzwordX x =
     (if stat = [] then ups_is_gone x
      else
        (let x1 = gone_words stat (eco_buzzword buzzword \<or> eco_buzzword buzzwordX) (ups_is_alive x) in
         finish_words (monotonic (snd x1)) (fold parse_word (split_blank stat) (x1, [], 0))))"

text \<open>Whether a failure is logged, and what the throttling keeps of it.\<close>

definition throttle :: "int \<Rightarrow> int \<Rightarrow> utype_t \<Rightarrow> bool \<times> utype_t" where
  "throttle limit err u =
     (if limit < 0 then (True, u)
      else if pollfail_log_throttle_state u = err then
        (if limit = 0 then (False, u)
         else if pollfail_log_throttle_count u \<ge> limit - 1 then (True, u\<lparr>pollfail_log_throttle_count := 0\<rparr>)
         else (False, u\<lparr>pollfail_log_throttle_count := pollfail_log_throttle_count u + 1\<rparr>))
      else (True, u\<lparr>pollfail_log_throttle_state := err, pollfail_log_throttle_count := 0\<rparr>))"

definition value_of :: "var_result \<Rightarrow> cstring" where
  "value_of r = (case r of Got s \<Rightarrow> s | _ \<Rightarrow> [])"

definition got_value :: "var_result \<Rightarrow> bool" where
  "got_value r = (case r of Got s \<Rightarrow> True | _ \<Rightarrow> False)"

definition poll_connected :: "watch \<Rightarrow> watch" where
  "poll_connected x =
     (case get_var ''status'' (fst x) of
        (stat, u1) \<Rightarrow>
          case get_var ''buzzword'' u1 of
            (buzz, u2) \<Rightarrow>
              case get_var ''X-buzzword'' u2 of
                (buzzX, u3) \<Rightarrow>
                  if got_value stat \<or> got_value buzz \<or> got_value buzzX
                  then parse_status (value_of stat) (value_of buzz) (value_of buzzX)
                         (u3\<lparr>pollfail_log_throttle_state := UPSCLI_ERR_NONE, pollfail_log_throttle_count := - 1\<rparr>, snd x)
                  else
                    (let x1 = ups_is_gone
                                (snd (throttle (pollfail_log_throttle_max (snd x)) (upserror (conn u3)) u3), snd x)
                     in if \<not> fd_open (conn (fst x1)) then on_ups drop_connection x1 else x1))"

definition pollups :: "watch \<Rightarrow> watch" where
  "pollups x =
     (if ups_flag x ST_CLICONNECTED then poll_connected x
      else case try_connect x of (good, x1) \<Rightarrow> if good then poll_connected x1 else x1)"

section \<open>The power down flag\<close>

definition SDMAGIC :: cstring where "SDMAGIC = ''upsmon-shutdown-file''"

text \<open>
  The file is \<open>None\<close> when it cannot be opened; \<open>junk\<close> is what the buffer held before, which is
  what is compared when the file is empty.
\<close>

definition pdflag_status :: "cstring \<Rightarrow> cstring option \<Rightarrow> cstring option \<Rightarrow> int" where
  "pdflag_status junk flagname file =
     (case (flagname, file) of
        (Some fn, Some bytes) \<Rightarrow>
          if starts_with (if bytes = [] then junk else takeWhile (\<lambda>c. c \<noteq> CHR 10) bytes) SDMAGIC then 1 else - 1
      | _ \<Rightarrow> 0)"

text \<open>What is left of the flag name and of the file.\<close>

definition clear_pdflag :: "cstring \<Rightarrow> cstring option \<Rightarrow> cstring option \<Rightarrow> cstring option \<times> cstring option" where
  "clear_pdflag junk flagname file =
     (let ret = pdflag_status junk flagname file in
      if ret = - 1 then (None, file) else if ret = 1 then (flagname, None) else (flagname, file))"

definition check_pdflag :: "cstring \<Rightarrow> cstring option \<Rightarrow> cstring option \<Rightarrow> int" where
  "check_pdflag junk flagname file = (if pdflag_status junk flagname file = 1 then 0 else 1)"

section \<open>The main loop\<close>

text \<open>
  One cycle on a system without notification of sleep. Its inputs: the clocks, the signals
  for a forced shutdown and for a reload, the files of a reload, the times of a shutdown, and
  how long the cycle slept: the microseconds and their text.
\<close>

record cycle =
  cy_now :: int
  cy_monotonic :: timespec
  cy_userfsd :: bool
  cy_reload :: bool
  cy_readable :: bool
  cy_file :: "cstring + cstring"
  cy_ending :: ending
  cy_slept :: int
  cy_slept_text :: cstring

datatype running = Running monitor bool | Shut_down "monitor option" | Fatal

text \<open>After a jump of the clock the state of all devices is forgotten, and the file is read again.\<close>

definition wake_up :: "monitor \<Rightarrow> monitor" where
  "wake_up m = m\<lparr>firstups := map (\<lambda>u. u\<lparr>status := 0, lastpoll := now (globals m)\<rparr>) (firstups m)\<rparr>"

definition reload_or_not :: "PCONF_CTX_t \<Rightarrow> cstring \<Rightarrow> cycle \<Rightarrow> bool \<Rightarrow> monitor \<Rightarrow> monitor option" where
  "reload_or_not junk fn cy due m = (if due then reload_conf junk fn (cy_readable cy) (cy_file cy) m else Some m)"

definition poll_and_decide :: "cycle \<Rightarrow> monitor \<Rightarrow> running" where
  "poll_and_decide cy m =
     (case each_ups pollups (firstups m) (globals m) of
        (us, g) \<Rightarrow>
          case recalc (cy_ending cy) (m\<lparr>firstups := us, globals := g\<rparr>) of
            Inl r \<Rightarrow> Shut_down r
          | Inr m1 \<Rightarrow>
              let s = uint (sleepval (globals m1) + 5) in
              if cy_slept cy > s * 1000000 \<or> cy_slept cy < 0
              then Running (m1\<lparr>globals := do_notify_name None NOTIFY_SUSPEND_TIMEJUMP_UNEXPECTED (Some (cy_slept_text cy)) (globals m1)\<rparr>) True
              else Running m1 False)"

definition main_cycle :: "PCONF_CTX_t \<Rightarrow> cstring \<Rightarrow> cycle \<Rightarrow> monitor \<times> bool \<Rightarrow> running" where
  "main_cycle junk fn cy mw =
     (let m = (fst mw)\<lparr>globals := (globals (fst mw))\<lparr>now := cy_now cy, monotonic := cy_monotonic cy\<rparr>\<rparr> in
      if cy_userfsd cy then Shut_down (forceshutdown (cy_ending cy) m)
      else case reload_or_not junk fn cy (cy_reload cy) m of
        None \<Rightarrow> Fatal
      | Some m1 \<Rightarrow>
          (case reload_or_not junk fn cy (snd mw) (if snd mw then wake_up m1 else m1) of
             None \<Rightarrow> Fatal
           | Some m2 \<Rightarrow> poll_and_decide cy m2))"

end
