(* ===== verification/UpsmonStatus.thy ===== *)
theory UpsmonStatus
  imports Upsmon
begin

text \<open>
  The state that the shutdown monitor keeps of a UPS: its flags follow the words of the
  status, a change is announced once, and what the flags imply of each other.
\<close>

section \<open>Flags\<close>

definition one_bit :: "32 word \<Rightarrow> bool" where
  "one_bit f \<longleftrightarrow> (\<exists>n < 32. f = 2 ^ n)"

unbundle bit_operations_syntax

lemma flag_isset_bit:
  assumes "n < 32"
  shows "flag_isset w (2 ^ n) \<longleftrightarrow> bit w n"
proof -
  have "bit (w AND 2 ^ n) m \<longleftrightarrow> bit w n \<and> m = n" for m using assms by (auto simp: bit_and_iff bit_exp_iff possible_bit_def)
  moreover have "bit ((2 ^ n) :: 32 word) m \<longleftrightarrow> m = n" for m using assms by (auto simp: bit_exp_iff possible_bit_def)
  moreover have "w AND 2 ^ n = 2 ^ n \<longleftrightarrow> (\<forall>m. bit (w AND 2 ^ n) m \<longleftrightarrow> bit ((2 ^ n) :: 32 word) m)"
    by (auto intro: bit_word_eqI)
  ultimately show ?thesis by (auto simp: flag_isset_def)
qed

lemma flag_set_iff:
  assumes "one_bit f" and "one_bit f'"
  shows "flag_isset (setflag w f) f' \<longleftrightarrow> f' = f \<or> flag_isset w f'"
    and "flag_isset (clearflag w f) f' \<longleftrightarrow> f' \<noteq> f \<and> flag_isset w f'"
proof -
  obtain n n' where n: "n < 32" "f = 2 ^ n" "n' < 32" "f' = 2 ^ n'" using assms by (auto simp: one_bit_def)
  have b: "bit f m \<longleftrightarrow> m = n" for m using n by (auto simp: bit_exp_iff possible_bit_def)
  have b': "bit f' m \<longleftrightarrow> m = n'" for m using n by (auto simp: bit_exp_iff possible_bit_def)
  have "f' = f \<longleftrightarrow> n' = n"
  proof
    assume "f' = f"
    then show "n' = n" using b [of n] b' [of n] by simp
  qed (use n in simp)
  then show "flag_isset (setflag w f) f' \<longleftrightarrow> f' = f \<or> flag_isset w f'"
      "flag_isset (clearflag w f) f' \<longleftrightarrow> f' \<noteq> f \<and> flag_isset w f'"
    using n(1,3) unfolding n(4) by (auto simp: flag_isset_bit setflag_def clearflag_def bit_or_iff bit_xor_iff bit_and_iff b)
qed


lemmas ST_defs = ST_ONLINE_def ST_ONBATT_def ST_LOWBATT_def ST_FSD_def ST_PRIMARY_def ST_LOGIN_def ST_CLICONNECTED_def
  ST_CAL_def ST_OFF_def ST_BYPASS_def ST_ECO_def ST_ALARM_def ST_OVER_def ST_TRIM_def ST_BOOST_def

definition all_flags :: "32 word list" where
  "all_flags = [ST_ONLINE, ST_ONBATT, ST_LOWBATT, ST_FSD, ST_PRIMARY, ST_LOGIN, ST_CLICONNECTED, ST_CAL, ST_OFF, ST_BYPASS,
     ST_ECO, ST_ALARM, ST_OVER, ST_TRIM, ST_BOOST]"

lemma distinct_flags: "distinct all_flags"
  by (simp add: all_flags_def ST_defs)

lemma distinct_flags_rev: "distinct (rev all_flags)"
  using distinct_flags by simp

lemmas flag_neqs [simp] = distinct_flags [unfolded all_flags_def, simplified] distinct_flags_rev [unfolded all_flags_def, simplified]

lemma all_flags_one_bit: "f \<in> set all_flags \<Longrightarrow> one_bit f"
proof -
  have "list_all (\<lambda>f. list_ex (\<lambda>n. f = (2 :: 32 word) ^ n) [0..<32]) all_flags"
    by code_simp
  then show "f \<in> set all_flags \<Longrightarrow> one_bit f" by (fastforce simp: list_all_iff list_ex_iff one_bit_def)
qed

lemma flags_one_bit [simp]:
  "one_bit ST_ONLINE" "one_bit ST_ONBATT" "one_bit ST_LOWBATT" "one_bit ST_FSD" "one_bit ST_PRIMARY" "one_bit ST_LOGIN"
  "one_bit ST_CLICONNECTED" "one_bit ST_CAL" "one_bit ST_OFF" "one_bit ST_BYPASS" "one_bit ST_ECO" "one_bit ST_ALARM"
  "one_bit ST_OVER" "one_bit ST_TRIM" "one_bit ST_BOOST"
  by (auto intro!: all_flags_one_bit simp: all_flags_def)

lemma flag_isset_0 [simp]: "one_bit f \<Longrightarrow> \<not> flag_isset 0 f"
  by (auto simp: one_bit_def flag_isset_bit)

lemmas [simp] = flag_set_iff

section \<open>A sample\<close>

definition sample_globals :: gstate where
  "sample_globals =
     \<lparr>minsupplies = 1, sleepval = 5, totalpv = 1, deadtime = 15, pollfreq = 5, pollfreqalert = 5, pollfail_log_throttle_max = - 1,
      offdurationtime = 30, oblbdurationtime = 0, hostsync = 15, rbwarntime = 43200, nocommwarntime = 300, finaldelay = 5,
      alarmcritical = 1, overdurationtime = - 1, shutdownexitdelay = 0, use_pipe = True, powerdownflag = None,
      shutdowncmd_concat = Some ''poweroff'', notifycmd_argv = [], notifylist = stock_notifylist, alarms_prev = [],
      ac_default = \<lparr>run_as_user = None, authconf_configured = None, certpath = None, certfile = None, certident = None,
        certpasswd = None, certverify = 0, forcessl = 0, nut_debug_level_global = - 1\<rparr>,
      now = 1000, monotonic = \<lparr>tv_sec = 1, tv_nsec = 0\<rparr>, dials = [], closed = [], events = []\<rparr>"

definition sample_ups :: utype_t where
  "sample_ups = new_ups ''ups@localhost'' 1 ''monuser'' ''secret'' ''primary''"

section \<open>What the operations change\<close>

lemma ups_flag_changes [simp]:
  "one_bit f \<Longrightarrow> one_bit F \<Longrightarrow> ups_flag (with_flag f x) F \<longleftrightarrow> F = f \<or> ups_flag x F"
  "one_bit f \<Longrightarrow> one_bit F \<Longrightarrow> ups_flag (without_flag f x) F \<longleftrightarrow> F \<noteq> f \<and> ups_flag x F"
  "ups_flag (on_globals h x) F = ups_flag x F"
  "ups_flag (do_notify n e x) F = ups_flag x F"
  by (auto simp: ups_flag_def with_flag_def without_flag_def on_ups_def on_globals_def do_notify_def)

lemma ups_flag_on_ups [simp]: "status (h (fst x)) = status (fst x) \<Longrightarrow> ups_flag (on_ups h x) F = ups_flag x F"
  by (simp add: ups_flag_def on_ups_def)

lemma ups_flag_pair [simp]: "ups_flag (u, g) F = flag_isset (status u) F"
  by (simp add: ups_flag_def)

lemma fst_changes [simp]:
  "fst (on_ups h x) = h (fst x)" "fst (on_globals k x) = fst x" "fst (do_notify n e x) = fst x"
  "fst (poll_often x) = fst x" "fst (try_restore_pollfreq x) = fst x"
  "snd (on_ups h x) = snd x" "snd (on_globals k x) = k (snd x)"
  "snd (with_flag f x) = snd x" "snd (without_flag f x) = snd x"
  by (simp_all add: on_ups_def on_globals_def do_notify_def poll_often_def try_restore_pollfreq_def with_flag_def without_flag_def)

lemma get_var_conn: "get_var v u = (r, u') \<Longrightarrow> u' = u\<lparr>conn := conn u'\<rparr>"
  by (auto simp: get_var_def Let_def split: option.splits if_splits prod.splits)

lemma get_var_status [simp]: "status (snd (get_var v u)) = status u"
  using get_var_conn [of v u] by (cases "get_var v u") (metis snd_conv utype_t.select_convs(9) utype_t.surjective utype_t.update_convs(1))

lemma poll_flags [simp]: "ups_flag (poll_often x) F = ups_flag x F" "ups_flag (try_restore_pollfreq x) F = ups_flag x F"
  by (simp_all add: poll_often_def try_restore_pollfreq_def)

lemma flag_first_seen_flags [simp]:
  "one_bit f \<Longrightarrow> one_bit F \<Longrightarrow> ups_flag (flag_first_seen n f x) F \<longleftrightarrow> F = f \<or> ups_flag x F"
  by (auto simp: flag_first_seen_def)

lemma flag_gone_flags [simp]:
  "one_bit f \<Longrightarrow> one_bit F \<Longrightarrow> ups_flag (flag_gone n f x) F \<longleftrightarrow> F \<noteq> f \<and> ups_flag x F"
  by (auto simp: flag_gone_def)

text \<open>The flag that each kind of operation sets or clears; it leaves the others alone.\<close>

lemma seen_flags [simp]:
  assumes "one_bit F"
  shows "ups_flag (ups_is_off x) F \<longleftrightarrow> F = ST_OFF \<or> ups_flag x F"
    "ups_flag (ups_is_bypass x) F \<longleftrightarrow> F = ST_BYPASS \<or> ups_flag x F"
    "ups_flag (ups_is_eco x) F \<longleftrightarrow> F = ST_ECO \<or> ups_flag x F"
    "ups_flag (ups_low_batt x) F \<longleftrightarrow> F = ST_LOWBATT \<or> ups_flag x F"
    "ups_flag (ups_is_cal x) F \<longleftrightarrow> F = ST_CAL \<or> ups_flag x F"
    "ups_flag (ups_is_over x) F \<longleftrightarrow> F = ST_OVER \<or> ups_flag x F"
    "ups_flag (ups_is_trim x) F \<longleftrightarrow> F = ST_TRIM \<or> ups_flag x F"
    "ups_flag (ups_is_boost x) F \<longleftrightarrow> F = ST_BOOST \<or> ups_flag x F"
    "ups_flag (ups_fsd x) F \<longleftrightarrow> F = ST_FSD \<or> ups_flag x F"
    "ups_flag (upsreplbatt x) F \<longleftrightarrow> ups_flag x F"
    "ups_flag (ups_is_alive x) F \<longleftrightarrow> ups_flag x F"
    "ups_flag (ups_is_gone x) F \<longleftrightarrow> ups_flag x F"
  using assms
  by (auto simp: ups_is_off_def ups_is_bypass_def ups_is_eco_def ups_low_batt_def ups_is_cal_def ups_is_over_def
      ups_is_trim_def ups_is_boost_def ups_fsd_def upsreplbatt_def ups_is_alive_def ups_is_gone_def Let_def)

lemma alarm_flags [simp]:
  assumes "one_bit F"
  shows "ups_flag (ups_is_alarm x) F \<longleftrightarrow> F = ST_ALARM \<or> ups_flag x F"
  using assms by (auto simp: ups_is_alarm_def Let_def case_prod_beta ups_flag_def [of x] split: var_result.splits)

lemma gone_flags [simp]:
  assumes "one_bit F"
  shows "ups_flag (ups_is_notoff x) F \<longleftrightarrow> F \<noteq> ST_OFF \<and> ups_flag x F"
    "ups_flag (ups_is_notbypass x) F \<longleftrightarrow> F \<noteq> ST_BYPASS \<and> ups_flag x F"
    "ups_flag (ups_is_noteco x) F \<longleftrightarrow> F \<noteq> ST_ECO \<and> ups_flag x F"
    "ups_flag (ups_is_notalarm x) F \<longleftrightarrow> F \<noteq> ST_ALARM \<and> ups_flag x F"
    "ups_flag (ups_is_notcal x) F \<longleftrightarrow> F \<noteq> ST_CAL \<and> ups_flag x F"
    "ups_flag (ups_is_notover x) F \<longleftrightarrow> F \<noteq> ST_OVER \<and> ups_flag x F"
    "ups_flag (ups_is_nottrim x) F \<longleftrightarrow> F \<noteq> ST_TRIM \<and> ups_flag x F"
    "ups_flag (ups_is_notboost x) F \<longleftrightarrow> F \<noteq> ST_BOOST \<and> ups_flag x F"
  using assms
  by (simp_all add: ups_is_notoff_def ups_is_notbypass_def ups_is_noteco_def ups_is_notalarm_def ups_is_notcal_def
      ups_is_notover_def ups_is_nottrim_def ups_is_notboost_def)

lemma line_flags [simp]:
  assumes "one_bit F"
  shows "ups_flag (ups_on_line x) F \<longleftrightarrow> (if ups_flag x ST_ONLINE then ups_flag x F else F = ST_ONLINE \<or> F \<noteq> ST_ONBATT \<and> ups_flag x F)"
    "ups_flag (ups_on_batt x) F \<longleftrightarrow> (if ups_flag x ST_ONBATT then ups_flag x F else F = ST_ONBATT \<or> F \<noteq> ST_ONLINE \<and> ups_flag x F)"
  using assms by (auto simp: ups_on_line_def ups_on_batt_def Let_def)

section \<open>The flags after a poll\<close>

text \<open>The words that set a flag, and clear it when they are not in the status.\<close>

definition word_flags :: "(cstring \<times> 32 word) list" where
  "word_flags =
     [(''LB'', ST_LOWBATT), (''FSD'', ST_FSD), (''CAL'', ST_CAL), (''OFF'', ST_OFF), (''BYPASS'', ST_BYPASS),
      (''ALARM'', ST_ALARM), (''OVER'', ST_OVER), (''TRIM'', ST_TRIM), (''BOOST'', ST_BOOST)]"

lemma keyword_codes:
  "fold_case ''OL'' = [111, 108]" "fold_case ''OB'' = [111, 98]" "fold_case ''LB'' = [108, 98]" "fold_case ''RB'' = [114, 98]"
  "fold_case ''CAL'' = [99, 97, 108]" "fold_case ''OFF'' = [111, 102, 102]" "fold_case ''BYPASS'' = [98, 121, 112, 97, 115, 115]"
  "fold_case ''ECO'' = [101, 99, 111]" "fold_case ''ALARM'' = [97, 108, 97, 114, 109]" "fold_case ''OVER'' = [111, 118, 101, 114]"
  "fold_case ''TRIM'' = [116, 114, 105, 109]" "fold_case ''BOOST'' = [98, 111, 111, 115, 116]" "fold_case ''FSD'' = [102, 115, 100]"
  "fold_case ''HB'' = [104, 98]" "fold_case ''CHRG'' = [99, 104, 114, 103]" "fold_case ''DISCHRG'' = [100, 105, 115, 99, 104, 114, 103]"
  by code_simp+

definition unknown_word :: "cstring \<Rightarrow> word_state \<Rightarrow> word_state" where
  "unknown_word w s =
     (case s of (x, other_stat_words, changed) \<Rightarrow>
        let t = status_tokens (fst x) in
        (on_ups (\<lambda>u. u\<lparr>status_tokens := snd (state_setinfo t w ''1'' (monotonic (snd x)))\<rparr>) x,
         snprintfcat other_stat_words SMALLBUF ((if other_stat_words = [] then [] else '' '') @ w),
         if state_tree_find t w = None then changed + 1 else changed))"

lemma parse_word_fst:
  "fst (parse_word w s) = update_crittimer (case status_word w of Some f \<Rightarrow> f (fst s) | None \<Rightarrow> fst (unknown_word w s))"
  by (simp add: parse_word_def unknown_word_def Let_def case_prod_beta split: option.split)

lemma update_crittimer_flags [simp]: "ups_flag (update_crittimer x) F = ups_flag x F"
  by (simp add: update_crittimer_def)

lemma unknown_word_flags [simp]: "ups_flag (fst (unknown_word w s)) F = ups_flag (fst s) F"
  by (simp add: unknown_word_def Let_def case_prod_beta)

definition status_table :: "(cstring \<times> (watch \<Rightarrow> watch)) list" where
  "status_table =
     [(''OL'', ups_on_line), (''OB'', ups_on_batt), (''LB'', ups_low_batt), (''RB'', upsreplbatt), (''CAL'', ups_is_cal),
      (''OFF'', ups_is_off), (''BYPASS'', ups_is_bypass), (''ECO'', ups_is_eco), (''ALARM'', ups_is_alarm),
      (''OVER'', ups_is_over), (''TRIM'', ups_is_trim), (''BOOST'', ups_is_boost), (''FSD'', ups_fsd),
      (''HB'', id), (''CHRG'', id), (''DISCHRG'', id)]"

lemma status_word_find: "status_word w = map_option snd (find (\<lambda>(k, f). same_nocase w k) status_table)"
  by (simp add: status_word_def status_table_def)

lemma find_assoc:
  "map_option snd (find (\<lambda>(k, f). P k) xs) = Some f \<Longrightarrow> \<exists>k. (k, f) \<in> set xs \<and> P k"
  "map_option snd (find (\<lambda>(k, f). P k) xs) = None \<Longrightarrow> (k, f) \<in> set xs \<Longrightarrow> \<not> P k"
  by (induction xs) (auto split: if_splits)

lemma status_word_Some: "status_word w = Some f \<Longrightarrow> \<exists>k. (k, f) \<in> set status_table \<and> same_nocase w k"
  unfolding status_word_find by (rule find_assoc(1))

lemma status_word_None: "status_word w = None \<Longrightarrow> (k, f) \<in> set status_table \<Longrightarrow> \<not> same_nocase w k"
  unfolding status_word_find by (rule find_assoc(2))

lemma same_nocase_via: "same_nocase w k \<Longrightarrow> same_nocase w n = same_nocase k n"
  by (auto simp: same_nocase_iff)

lemma table_flags:
  assumes "(k, f) \<in> set status_table" and "(n, F) \<in> set word_flags"
  shows "ups_flag (f x) F \<longleftrightarrow> same_nocase k n \<or> ups_flag x F"
proof -
  let ?R = "\<lambda>k f. list_all (\<lambda>(n, F). ups_flag (f x) F \<longleftrightarrow> same_nocase k n \<or> ups_flag x F) word_flags"
  have "?R ''OL'' ups_on_line"
    "?R ''OB'' ups_on_batt"
    "?R ''LB'' ups_low_batt"
    "?R ''RB'' upsreplbatt"
    "?R ''CAL'' ups_is_cal"
    "?R ''OFF'' ups_is_off"
    "?R ''BYPASS'' ups_is_bypass"
    "?R ''ECO'' ups_is_eco"
    "?R ''ALARM'' ups_is_alarm"
    "?R ''OVER'' ups_is_over"
    "?R ''TRIM'' ups_is_trim"
    "?R ''BOOST'' ups_is_boost"
    "?R ''FSD'' ups_fsd"
    "?R ''HB'' id"
    "?R ''CHRG'' id"
    "?R ''DISCHRG'' id"
    by (simp_all add: word_flags_def same_nocase_iff keyword_codes)
  then have "list_all (\<lambda>(k, f). ?R k f) status_table"
    by (simp only: status_table_def list.pred_inject prod.case simp_thms)
  then show ?thesis using assms unfolding list_all_iff by blast
qed

lemma table_other:
  assumes "(k, f) \<in> set status_table" and "one_bit F" and "F \<notin> snd ` set word_flags \<union> {ST_ONLINE, ST_ONBATT, ST_ECO}"
  shows "ups_flag (f x) F = ups_flag x F"
proof -
  have "list_all (\<lambda>(k, f). ups_flag (f x) F = ups_flag x F) status_table"
    using assms(2,3) by (simp add: status_table_def word_flags_def)
  then show ?thesis using assms(1) unfolding list_all_iff by blast
qed

lemma word_flags_table:
  assumes "(n, F) \<in> set word_flags"
  shows "\<exists>f. (n, f) \<in> set status_table"
proof -
  have "set (map fst word_flags) \<subseteq> set (map fst status_table)"
    by (simp add: word_flags_def status_table_def)
  then have "n \<in> fst ` set status_table" using assms by (force simp: subset_iff)
  then show ?thesis by force
qed

lemma parse_word_flag:
  assumes "(n, F) \<in> set word_flags"
  shows "ups_flag (fst (parse_word w s)) F \<longleftrightarrow> same_nocase w n \<or> ups_flag (fst s) F"
proof (cases "status_word w")
  case None
  then have "\<not> same_nocase w n" using word_flags_table [OF assms] status_word_None by blast
  then show ?thesis by (simp add: parse_word_fst None)
next
  case (Some f)
  then obtain k where k: "(k, f) \<in> set status_table" "same_nocase w k" using status_word_Some by blast
  then show ?thesis by (simp add: parse_word_fst Some table_flags [OF k(1) assms] same_nocase_via [OF k(2)])
qed

lemma parse_words_flag:
  assumes "(n, F) \<in> set word_flags"
  shows "ups_flag (fst (fold parse_word ws s)) F \<longleftrightarrow> (\<exists>w\<in>set ws. same_nocase w n) \<or> ups_flag (fst s) F"
  by (induction ws arbitrary: s) (auto simp: parse_word_flag [OF assms])

lemma parse_words_other:
  assumes "one_bit F" and "F \<notin> snd ` set word_flags \<union> {ST_ONLINE, ST_ONBATT, ST_ECO}"
  shows "ups_flag (fst (fold parse_word ws s)) F = ups_flag (fst s) F"
proof (induction ws arbitrary: s)
  case (Cons w ws)
  have "ups_flag (fst (parse_word w s)) F = ups_flag (fst s) F"
  proof (cases "status_word w")
    case (Some f)
    then obtain k where k: "(k, f) \<in> set status_table" using status_word_Some by blast
    show ?thesis by (simp add: parse_word_fst Some table_other [OF k assms])
  qed (simp add: parse_word_fst)
  then show ?case by (simp add: Cons)
qed simp

lemma finish_words_flags [simp]: "ups_flag (finish_words t s) F = ups_flag (fst s) F"
  by (simp add: finish_words_def Let_def case_prod_beta)

lemma unless_in_other: "(\<And>y. ups_flag (f y) F = ups_flag y F) \<Longrightarrow> ups_flag (unless_in word stat f x) F = ups_flag x F"
  by (simp add: unless_in_def)

lemma unless_in_hit:
  "(\<And>y. \<not> ups_flag (f y) F) \<Longrightarrow> ups_flag (unless_in word stat f x) F \<longleftrightarrow> strstr stat word \<noteq> None \<and> ups_flag x F"
  by (auto simp: unless_in_def)

lemma gone_words_flag:
  assumes "(n, F) \<in> set word_flags"
  shows "ups_flag (gone_words stat eco x) F \<longleftrightarrow> strstr stat n \<noteq> None \<and> ups_flag x F"
proof -
  have "list_all (\<lambda>(n, F). ups_flag (gone_words stat eco x) F \<longleftrightarrow> strstr stat n \<noteq> None \<and> ups_flag x F) word_flags"
    by (simp add: word_flags_def gone_words_def Let_def unless_in_other unless_in_hit)
  then show ?thesis using assms by (auto simp: list_all_iff)
qed

lemma gone_words_other:
  "one_bit F \<Longrightarrow> F \<notin> snd ` set word_flags \<union> {ST_ONLINE, ST_ONBATT, ST_ECO} \<Longrightarrow>
     ups_flag (gone_words stat eco x) F = ups_flag x F"
  by (simp add: word_flags_def gone_words_def Let_def unless_in_other)

text \<open>Which of \<open>OL\<close> and \<open>OB\<close> comes last decides between line and battery.\<close>

definition line_word :: "cstring \<Rightarrow> bool option \<Rightarrow> bool option" where
  "line_word w l = (if same_nocase w ''OL'' then Some True else if same_nocase w ''OB'' then Some False else l)"

definition line_flags :: "bool option \<Rightarrow> watch \<Rightarrow> watch \<Rightarrow> bool" where
  "line_flags l x y \<longleftrightarrow>
     (case l of
        None \<Rightarrow> ups_flag y ST_ONLINE = ups_flag x ST_ONLINE \<and> ups_flag y ST_ONBATT = ups_flag x ST_ONBATT
      | Some b \<Rightarrow> ups_flag y ST_ONLINE = b \<and> ups_flag y ST_ONBATT = (\<not> b))"

definition one_source :: "watch \<Rightarrow> bool" where
  "one_source x \<longleftrightarrow> \<not> (ups_flag x ST_ONLINE \<and> ups_flag x ST_ONBATT)"

lemma table_line:
  assumes "(k, f) \<in> set status_table" and "one_source x"
  shows "line_flags (line_word k None) x (f x)"
proof -
  have "list_all (\<lambda>(k, f). line_flags (line_word k None) x (f x)) status_table"
    using assms(2) by (simp add: status_table_def line_flags_def line_word_def same_nocase_iff keyword_codes one_source_def)
  then show ?thesis using assms(1) unfolding list_all_iff by blast
qed

lemma line_word_via: "same_nocase w k \<Longrightarrow> line_word w l = line_word k l"
  by (simp add: line_word_def same_nocase_via [of w k])

lemma parse_word_line:
  assumes "one_source (fst s)"
  shows "line_flags (line_word w None) (fst s) (fst (parse_word w s))"
proof (cases "status_word w")
  case None
  have "(''OL'', ups_on_line) \<in> set status_table" "(''OB'', ups_on_batt) \<in> set status_table"
    by (simp_all add: status_table_def)
  then have "line_word w None = None" using status_word_None [OF None] by (simp add: line_word_def)
  then show ?thesis by (simp add: parse_word_fst None line_flags_def)
next
  case (Some f)
  then obtain k where k: "(k, f) \<in> set status_table" "same_nocase w k" using status_word_Some by blast
  have "line_flags (line_word k None) (fst s) (f (fst s))" by (rule table_line [OF k(1) assms])
  then show ?thesis by (simp add: parse_word_fst Some line_word_via [OF k(2)] line_flags_def split: option.splits)
qed

lemma line_flags_one_source: "one_source x \<Longrightarrow> line_flags l x y \<Longrightarrow> one_source y"
  by (auto simp: line_flags_def one_source_def split: option.splits)

lemma line_word_step: "line_word w l = (case line_word w None of None \<Rightarrow> l | Some b \<Rightarrow> Some b)"
  by (simp add: line_word_def)

lemma parse_words_line:
  "one_source x \<Longrightarrow> one_source (fst s) \<Longrightarrow> line_flags l x (fst s) \<Longrightarrow>
     line_flags (fold line_word ws l) x (fst (fold parse_word ws s))"
proof (induction ws arbitrary: l s)
  case (Cons w ws)
  have step: "line_flags (line_word w None) (fst s) (fst (parse_word w s))" by (rule parse_word_line [OF Cons.prems(2)])
  then have "line_flags (line_word w l) x (fst (parse_word w s))"
    using Cons.prems(3) by (auto simp: line_word_step [of w l] line_flags_def split: option.splits)
  then show ?case using Cons.IH [OF Cons.prems(1) line_flags_one_source [OF Cons.prems(2) step]] by simp
qed simp

lemma gone_words_line:
  "ups_flag (gone_words stat eco x) ST_ONLINE = ups_flag x ST_ONLINE"
  "ups_flag (gone_words stat eco x) ST_ONBATT = ups_flag x ST_ONBATT"
  by (simp_all add: gone_words_def Let_def unless_in_other)

lemma parse_status_start:
  "stat \<noteq> [] \<Longrightarrow> ups_flag (parse_status stat b bX x) F =
     ups_flag (fst (fold parse_word (split_blank stat)
       (gone_words stat (eco_buzzword b \<or> eco_buzzword bX) (ups_is_alive x), [], 0))) F"
  by (simp add: parse_status_def Let_def)

lemma word_flags_one_bit [simp]: "(n, F) \<in> set word_flags \<Longrightarrow> one_bit F"
  by (auto simp: word_flags_def)

lemma parse_status_flag:
  assumes "stat \<noteq> []" and "(n, F) \<in> set word_flags"
  shows "ups_flag (parse_status stat b bX x) F \<longleftrightarrow>
    (\<exists>w \<in> set (split_blank stat). same_nocase w n) \<or> strstr stat n \<noteq> None \<and> ups_flag x F"
  using assms by (simp add: parse_status_start parse_words_flag gone_words_flag)

lemma parse_status_other:
  assumes "stat \<noteq> []" and "F \<in> {ST_PRIMARY, ST_LOGIN, ST_CLICONNECTED}"
  shows "ups_flag (parse_status stat b bX x) F = ups_flag x F"
proof -
  have "one_bit F" "F \<notin> snd ` set word_flags \<union> {ST_ONLINE, ST_ONBATT, ST_ECO}" using assms(2) by (auto simp: word_flags_def)
  then show ?thesis using assms(1) by (simp add: parse_status_start parse_words_other gone_words_other)
qed

lemma parse_status_line:
  assumes "stat \<noteq> []" and "one_source x"
  shows "line_flags (fold line_word (split_blank stat) None) x (parse_status stat b bX x)"
proof -
  let ?x = "gone_words stat (eco_buzzword b \<or> eco_buzzword bX) (ups_is_alive x)"
  have "one_source ?x" using assms(2) by (simp add: one_source_def gone_words_line)
  then have "line_flags (fold line_word (split_blank stat) None) x (fst (fold parse_word (split_blank stat) (?x, [], 0)))"
    by (intro parse_words_line assms(2)) (simp_all add: line_flags_def gone_words_line)
  then show ?thesis using assms(1) by (simp add: line_flags_def parse_status_start split: option.splits)
qed

text \<open>
  Property C30: the flags follow the status. After a poll that brought a status, the flag of
  each condition is set exactly when its word, in any spelling, is among the words of the
  status, or when its name occurs inside another word and the flag was set before. The flags
  of the connection and the role stay. The last of the words \<open>OL\<close> and \<open>OB\<close> decides between
  line and battery, and never are both flags set.
\<close>

theorem status_flags_follow:
  assumes "stat \<noteq> []" and "one_source x"
  shows "(\<forall>(n, F) \<in> set word_flags.
       ups_flag (parse_status stat b bX x) F \<longleftrightarrow>
         (\<exists>w \<in> set (split_blank stat). same_nocase w n) \<or> strstr stat n \<noteq> None \<and> ups_flag x F)
     \<and> (\<forall>F \<in> {ST_PRIMARY, ST_LOGIN, ST_CLICONNECTED}. ups_flag (parse_status stat b bX x) F = ups_flag x F)
     \<and> line_flags (fold line_word (split_blank stat) None) x (parse_status stat b bX x)
     \<and> one_source (parse_status stat b bX x)"
  using parse_status_flag [OF assms(1)] parse_status_other [OF assms(1)] parse_status_line [OF assms]
    line_flags_one_source [OF assms(2) parse_status_line [OF assms]]
  by blast

theorem status_flags_follow_witness:
  "\<exists>y. y = parse_status ''OB LB'' '''' '''' (sample_ups, sample_globals) \<and>
     (ups_flag y ST_LOWBATT, ups_flag y ST_FSD, ups_flag y ST_ONLINE, ups_flag y ST_ONBATT) = (True, False, False, True)"
proof -
  have "one_source (sample_ups, sample_globals)" by (simp add: one_source_def sample_ups_def new_ups_def Let_def)
  moreover have "split_blank ''OB LB'' = [''OB'', ''LB'']" by code_simp
  moreover have "strstr ''OB LB'' ''FSD'' = None" by code_simp
  ultimately show ?thesis
    using status_flags_follow [of "''OB LB''" "(sample_ups, sample_globals)" "''''" "''''"]
    by (simp add: word_flags_def same_nocase_iff keyword_codes line_flags_def line_word_def)
qed

section \<open>A change is announced once\<close>

lemma strstr_self: "strstr (t @ r) t \<noteq> None"
proof (cases "t @ r")
  case (Cons a l)
  then have "take (length t) (a # l) = t" by (metis append_eq_conv_conj)
  then show ?thesis by (simp add: Cons)
qed simp

lemma strstr_skip: "strstr s t \<noteq> None \<Longrightarrow> strstr (c # s) t \<noteq> None"
  by simp

lemma split_blank_first: "\<exists>r. s = hd (split_blank s) @ r"
proof (induction s)
  case (Cons c s)
  then show ?case by (cases "split_blank s") auto
qed simp

lemma status_words_nonempty [simp]: "split_blank s \<noteq> []"
  by (induction s) (auto split: list.split)

lemma word_occurs: "w \<in> set (split_blank s) \<Longrightarrow> strstr s w \<noteq> None"
proof (induction s arbitrary: w)
  case (Cons c s)
  obtain v vs where v: "split_blank s = v # vs" by (cases "split_blank s") auto
  then obtain r where r: "s = v @ r" using split_blank_first [of s] by auto
  show ?case
  proof (cases "c = CHR 32")
    case True
    then have "w = [] \<or> w \<in> set (split_blank s)" using Cons.prems by simp
    then show ?thesis using Cons.IH [of w] strstr_skip [of s w c] strstr_self [of "[]" "c # s"] by auto
  next
    case False
    then have "w = c # v \<or> w \<in> set vs" using Cons.prems v by auto
    then show ?thesis
    proof
      assume "w = c # v"
      then show ?thesis using strstr_self [of "c # v" r] r by (simp del: strstr.simps)
    qed (use Cons.IH v in \<open>simp del: strstr.simps add: strstr_skip\<close>)
  qed
qed simp

text \<open>
  The words that are announced when they appear, in the spelling of the drivers, and \<open>RB\<close>, of which
  the monitor reminds. Not among them: \<open>ALARM\<close>, whose text is asked for at every poll, and words
  that the monitor does not know.
\<close>

definition steady_words :: "cstring list" where
  "steady_words = [''OL'', ''OB'', ''LB'', ''CAL'', ''OFF'', ''BYPASS'', ''OVER'', ''TRIM'', ''BOOST'', ''FSD'', ''HB'', ''CHRG'', ''DISCHRG'', ''RB'', ''ECO'']"

lemma steady_spelling:
  assumes "w \<in> set steady_words" and "n \<in> set steady_words \<union> fst ` set word_flags" and "same_nocase w n"
  shows "w = n"
proof -
  let ?names = "''ALARM'' # steady_words"
  have "distinct (map fold_case ?names)" by (simp add: steady_words_def keyword_codes)
  then have "inj_on fold_case (set ?names)" by (simp only: distinct_map)
  moreover have "set (map fst word_flags) \<subseteq> set ?names" by (simp add: word_flags_def steady_words_def)
  then have "n \<in> set ?names" using assms(2) by auto
  moreover have "w \<in> set ?names" using assms(1) by simp
  ultimately show ?thesis using assms(3) by (simp only: same_nocase_iff inj_on_eq_iff)
qed

text \<open>No flag, token or sign of life changes, nor what a notification depends on.\<close>

definition same_watch :: "watch \<Rightarrow> watch \<Rightarrow> bool" where
  "same_watch x y \<longleftrightarrow> (\<forall>F. one_bit F \<longrightarrow> ups_flag y F = ups_flag x F) \<and>
     status_tokens (fst y) = status_tokens (fst x) \<and> commstate (fst y) = commstate (fst x) \<and> sys (fst y) = sys (fst x) \<and>
     now (snd y) = now (snd x) \<and> rbwarntime (snd y) = rbwarntime (snd x) \<and> notifylist (snd y) = notifylist (snd x) \<and>
     notifycmd_argv (snd y) = notifycmd_argv (snd x)"

text \<open>The reminder that the battery has to be replaced, and when it is due.\<close>

definition reminder :: "watch \<Rightarrow> event list" where
  "reminder x =
     (case find (\<lambda>e. nt_type e = NOTIFY_REPLBATT) (notifylist (snd x)) of
        None \<Rightarrow> []
      | Some e \<Rightarrow>
          [Notice NOTIFY_REPLBATT (Some (sys (fst x)))
             (notify (notifycmd_argv (snd x))
                (notify_text (case nt_msg e of Some m \<Rightarrow> m | None \<Rightarrow> nt_stockmsg e) (Some (sys (fst x))) None)
                (nt_flags e) (nt_name e) (Some (sys (fst x))))])"

definition reminder_due :: "watch \<Rightarrow> bool" where
  "reminder_due x \<longleftrightarrow> now (snd x) - lastrbwarn (fst x) > rbwarntime (snd x)"

definition reminded :: "bool \<Rightarrow> watch \<Rightarrow> watch \<Rightarrow> bool" where
  "reminded b x y \<longleftrightarrow> same_watch x y \<and>
     (if b \<and> reminder_due x
      then events (snd y) = events (snd x) @ reminder x \<and> lastrbwarn (fst y) = now (snd x)
      else events (snd y) = events (snd x) \<and> lastrbwarn (fst y) = lastrbwarn (fst x))"

text \<open>Nothing is announced.\<close>

definition same_view :: "watch \<Rightarrow> watch \<Rightarrow> bool" where
  "same_view x y \<longleftrightarrow> same_watch x y \<and> events (snd y) = events (snd x) \<and> lastrbwarn (fst y) = lastrbwarn (fst x)"

lemmas view_defs = same_view_def same_watch_def

lemma same_view_refl [simp]: "same_view x x"
  by (simp add: view_defs)

lemma same_view_trans: "same_view x y \<Longrightarrow> same_view y z \<Longrightarrow> same_view x z"
  by (simp add: view_defs)

lemma reminded_quiet: "same_view x y \<Longrightarrow> reminded False x y"
  by (simp add: reminded_def same_view_def)

lemma same_watch_reminder: "same_watch x y \<Longrightarrow> reminder y = reminder x"
  unfolding same_watch_def reminder_def by (elim conjE) (simp only:)

lemma reminded_trans:
  assumes "reminded a x y" and "reminded b y z" and "0 \<le> rbwarntime (snd x)"
  shows "reminded (a \<or> b) x z"
proof -
  have xy: "same_watch x y" and yz: "same_watch y z" using assms(1,2) by (simp_all add: reminded_def)
  then have xz: "same_watch x z" by (simp add: same_watch_def)
  have same: "now (snd y) = now (snd x)" "rbwarntime (snd y) = rbwarntime (snd x)" "reminder y = reminder x"
    using xy same_watch_reminder [OF xy] by (simp_all add: same_watch_def)
  show ?thesis
  proof (cases "a \<and> reminder_due x")
    case True
    then have "\<not> reminder_due y" using assms(1,3) same by (simp add: reminded_def reminder_due_def)
    then show ?thesis using True assms(1,2) xz by (simp add: reminded_def)
  next
    case False
    then have "reminder_due y = reminder_due x" using assms(1) same by (simp add: reminded_def reminder_due_def)
    then show ?thesis using False assms(1,2) xz same by (auto simp: reminded_def)
  qed
qed

lemma same_view_reminded: "same_view x y \<Longrightarrow> reminded b y z \<Longrightarrow> reminded b x z"
  using same_watch_reminder [of x y] by (simp add: reminded_def reminder_due_def same_view_def same_watch_def split: if_splits)

lemma reminded_same_view: "reminded b x y \<Longrightarrow> same_view y z \<Longrightarrow> reminded b x z"
  by (simp add: reminded_def same_view_def same_watch_def split: if_splits)

lemma upsreplbatt_reminded: "reminded True x (upsreplbatt x)"
proof -
  have "\<forall>F. ups_flag (upsreplbatt x) F = ups_flag x F"
    by (simp add: upsreplbatt_def ups_flag_def do_notify_def)
  then show ?thesis
    by (auto simp: reminded_def same_watch_def reminder_due_def reminder_def upsreplbatt_def do_notify_def do_notify_name_def Let_def
        split: option.split)
qed

lemma poll_frame [simp]:
  "events (snd (poll_often x)) = events (snd x)" "events (snd (try_restore_pollfreq x)) = events (snd x)"
  "now (snd (try_restore_pollfreq x)) = now (snd x)" "rbwarntime (snd (try_restore_pollfreq x)) = rbwarntime (snd x)"
  "rbwarntime (snd (poll_often x)) = rbwarntime (snd x)" "notifylist (snd (try_restore_pollfreq x)) = notifylist (snd x)"
  "notifycmd_argv (snd (try_restore_pollfreq x)) = notifycmd_argv (snd x)"
  by (simp_all add: poll_often_def try_restore_pollfreq_def)

lemma do_notify_rbwarntime [simp]: "rbwarntime (snd (do_notify n e x)) = rbwarntime (snd x)"
  by (simp add: do_notify_def do_notify_name_def Let_def split: option.split)

lemma flag_frame [simp]:
  "status_tokens (fst (with_flag f x)) = status_tokens (fst x)" "commstate (fst (with_flag f x)) = commstate (fst x)"
  "status_tokens (fst (without_flag f x)) = status_tokens (fst x)" "commstate (fst (without_flag f x)) = commstate (fst x)"
  by (simp_all add: with_flag_def without_flag_def)

lemma flag_globals [simp]: "snd (with_flag f x) = snd x" "snd (without_flag f x) = snd x"
  "lastrbwarn (fst (with_flag f x)) = lastrbwarn (fst x)" "lastrbwarn (fst (without_flag f x)) = lastrbwarn (fst x)"
  "sys (fst (with_flag f x)) = sys (fst x)" "sys (fst (without_flag f x)) = sys (fst x)"
  by (simp_all add: with_flag_def without_flag_def)

lemma flag_gone_quiet: "\<not> ups_flag x F \<Longrightarrow> flag_gone n F x = x"
  by (simp add: flag_gone_def)

lemma gone_quiet:
  "\<not> ups_flag x ST_OFF \<Longrightarrow> same_view x (ups_is_notoff x)" "\<not> ups_flag x ST_BYPASS \<Longrightarrow> same_view x (ups_is_notbypass x)"
  "\<not> ups_flag x ST_ECO \<Longrightarrow> same_view x (ups_is_noteco x)" "\<not> ups_flag x ST_ALARM \<Longrightarrow> same_view x (ups_is_notalarm x)"
  "\<not> ups_flag x ST_CAL \<Longrightarrow> same_view x (ups_is_notcal x)" "\<not> ups_flag x ST_OVER \<Longrightarrow> same_view x (ups_is_notover x)"
  "\<not> ups_flag x ST_TRIM \<Longrightarrow> same_view x (ups_is_nottrim x)" "\<not> ups_flag x ST_BOOST \<Longrightarrow> same_view x (ups_is_notboost x)"
  "\<not> ups_flag x ST_LOWBATT \<Longrightarrow> same_view x (without_flag ST_LOWBATT x)"
  "\<not> ups_flag x ST_FSD \<Longrightarrow> same_view x (on_ups (\<lambda>u. u\<lparr>lastfsdnotify := 0\<rparr>) (without_flag ST_FSD x))"
  by (auto simp: view_defs ups_is_notoff_def ups_is_notbypass_def ups_is_noteco_def ups_is_notalarm_def ups_is_notcal_def
      ups_is_notover_def ups_is_nottrim_def ups_is_notboost_def flag_gone_quiet)

text \<open>
  The state that a status of steady words leads to, and in which it stays; \<open>eco\<close> tells whether
  a buzzword stands for the economy mode.
\<close>

definition settled :: "cstring \<Rightarrow> bool \<Rightarrow> watch \<Rightarrow> bool" where
  "settled stat eco x \<longleftrightarrow>
     (\<forall>(n, F) \<in> set word_flags. (n \<in> set (split_blank stat) \<longrightarrow> ups_flag x F) \<and> (strstr stat n = None \<longrightarrow> \<not> ups_flag x F)) \<and>
     (''OL'' \<in> set (split_blank stat) \<longrightarrow> ups_flag x ST_ONLINE) \<and> (''OB'' \<in> set (split_blank stat) \<longrightarrow> ups_flag x ST_ONBATT) \<and>
     (eco \<or> ''ECO'' \<in> set (split_blank stat) \<longrightarrow> ups_flag x ST_ECO) \<and> (\<not> eco \<and> strstr stat ''ECO'' = None \<longrightarrow> \<not> ups_flag x ST_ECO) \<and>
     commstate (fst x) = 1 \<and> status_tokens (fst x) = Leaf"

lemma settled_watch: "settled stat eco x \<Longrightarrow> same_watch x y \<Longrightarrow> settled stat eco y"
  unfolding settled_def same_watch_def by (auto split: prod.splits)

lemma settled_view: "settled stat eco x \<Longrightarrow> same_view x y \<Longrightarrow> settled stat eco y"
  using settled_watch by (simp add: same_view_def)

lemma settled_flag:
  "settled stat eco x \<Longrightarrow> (n, F) \<in> set word_flags \<Longrightarrow>
     (n \<in> set (split_blank stat) \<longrightarrow> ups_flag x F) \<and> (strstr stat n = None \<longrightarrow> \<not> ups_flag x F)"
  unfolding settled_def by blast

lemma unless_in_quiet:
  assumes "settled stat eco x" and "same_view x y" and "(n, F) \<in> set word_flags"
    and "\<And>z. \<not> ups_flag z F \<Longrightarrow> same_view z (f z)"
  shows "same_view x (unless_in n stat f y)"
proof (cases "strstr stat n = None")
  case True
  then have "\<not> ups_flag y F" using settled_flag [OF settled_view [OF assms(1,2)] assms(3)] by simp
  then show ?thesis using True assms(4) same_view_trans [OF assms(2)] by (simp add: unless_in_def)
qed (use assms(2) in \<open>auto simp: unless_in_def\<close>)

lemma gone_words_quiet:
  assumes "settled stat eco x"
  shows "same_view x (gone_words stat eco x)"
proof -
  note step = unless_in_quiet [OF assms(1)]
  let ?y = "unless_in ''BOOST'' stat ups_is_notboost (unless_in ''TRIM'' stat ups_is_nottrim (unless_in ''OVER'' stat ups_is_notover
        (unless_in ''ALARM'' stat ups_is_notalarm (unless_in ''BYPASS'' stat ups_is_notbypass (unless_in ''OFF'' stat ups_is_notoff
          (unless_in ''CAL'' stat ups_is_notcal
            (unless_in ''FSD'' stat (\<lambda>x. on_ups (\<lambda>u. u\<lparr>lastfsdnotify := 0\<rparr>) (without_flag ST_FSD x))
              (unless_in ''LB'' stat (without_flag ST_LOWBATT) x))))))))"
  have y: "same_view x ?y"
    by (intro step gone_quiet same_view_refl) (simp_all add: word_flags_def)
  have "same_view ?y (ups_is_noteco ?y)" if "\<not> eco" "strstr stat ''ECO'' = None"
    using settled_view [OF assms y] that by (intro gone_quiet) (simp add: settled_def)
  moreover have "same_view ?y (ups_is_eco ?y)" if eco
    using settled_view [OF assms y] that by (simp add: settled_def ups_is_eco_def)
  moreover have "gone_words stat eco x = (if strstr stat ''ECO'' = None \<and> \<not> eco then ups_is_noteco ?y else if eco then ups_is_eco ?y else ?y)"
    by (simp add: gone_words_def Let_def)
  ultimately show ?thesis using y same_view_trans [OF y] by auto
qed

definition steady_op :: "cstring \<Rightarrow> watch \<Rightarrow> watch" where
  "steady_op w =
     (if w = ''OL'' then ups_on_line else if w = ''OB'' then ups_on_batt else if w = ''LB'' then ups_low_batt
      else if w = ''CAL'' then ups_is_cal else if w = ''OFF'' then ups_is_off else if w = ''BYPASS'' then ups_is_bypass
      else if w = ''OVER'' then ups_is_over else if w = ''TRIM'' then ups_is_trim else if w = ''BOOST'' then ups_is_boost
      else if w = ''FSD'' then ups_fsd else if w = ''RB'' then upsreplbatt else if w = ''ECO'' then ups_is_eco else id)"

lemma steady_word_op: "w \<in> set steady_words \<Longrightarrow> status_word w = Some (steady_op w)"
proof -
  have "list_all (\<lambda>w. status_word w = Some (steady_op w)) steady_words"
    by (simp add: steady_words_def status_word_def steady_op_def same_nocase_iff keyword_codes)
  then show "w \<in> set steady_words \<Longrightarrow> ?thesis" unfolding list_all_iff by blast
qed

lemma seen_quiet:
  "ups_flag x ST_ONLINE \<Longrightarrow> same_view x (ups_on_line x)" "ups_flag x ST_ONBATT \<Longrightarrow> same_view x (ups_on_batt x)"
  "ups_flag x ST_LOWBATT \<Longrightarrow> same_view x (ups_low_batt x)" "ups_flag x ST_CAL \<Longrightarrow> same_view x (ups_is_cal x)"
  "ups_flag x ST_OFF \<Longrightarrow> same_view x (ups_is_off x)" "ups_flag x ST_BYPASS \<Longrightarrow> same_view x (ups_is_bypass x)"
  "ups_flag x ST_OVER \<Longrightarrow> same_view x (ups_is_over x)" "ups_flag x ST_TRIM \<Longrightarrow> same_view x (ups_is_trim x)"
  "ups_flag x ST_BOOST \<Longrightarrow> same_view x (ups_is_boost x)" "ups_flag x ST_FSD \<Longrightarrow> same_view x (ups_fsd x)"
  "ups_flag x ST_ECO \<Longrightarrow> same_view x (ups_is_eco x)"
  by (simp_all add: view_defs ups_on_line_def ups_on_batt_def ups_low_batt_def ups_is_cal_def ups_is_off_def
      ups_is_bypass_def ups_is_over_def ups_is_trim_def ups_is_boost_def ups_fsd_def ups_is_eco_def flag_first_seen_def Let_def)

lemma update_crittimer_view: "same_view x (update_crittimer x)"
  by (simp add: view_defs update_crittimer_def)

lemma parse_word_reminded:
  assumes "settled stat eco (fst s)" and "w \<in> set (split_blank stat)" and "w \<in> set steady_words"
  shows "reminded (w = ''RB'') (fst s) (fst (parse_word w s)) \<and> snd (parse_word w s) = snd s"
proof -
  have f: "status_word w = Some (steady_op w)" by (rule steady_word_op [OF assms(3)])
  have flags: "ups_flag (fst s) F" if "(w, F) \<in> set word_flags" for F using settled_flag [OF assms(1) that] assms(2) by blast
  have "reminded (w = ''RB'') (fst s) (steady_op w (fst s))"
  proof (cases "w = ''RB''")
    case True
    then show ?thesis using upsreplbatt_reminded [of "fst s"] by (simp add: steady_op_def)
  next
    case False
    have "same_view (fst s) (steady_op w (fst s))"
    proof (cases "w \<in> {''OL'', ''OB'', ''ECO''}")
      case True
      have flag: "''OL'' \<in> set (split_blank stat) \<longrightarrow> ups_flag (fst s) ST_ONLINE" "''OB'' \<in> set (split_blank stat) \<longrightarrow> ups_flag (fst s) ST_ONBATT"
        "''ECO'' \<in> set (split_blank stat) \<longrightarrow> ups_flag (fst s) ST_ECO" using assms(1) unfolding settled_def by blast+
      from True consider "w = ''OL''" | "w = ''OB''" | "w = ''ECO''" by blast
      then show ?thesis using flag assms(2) by cases (simp_all add: steady_op_def seen_quiet)
    next
      case other: False
      show ?thesis
        using other False flags seen_quiet [of "fst s"]
        by (simp add: word_flags_def steady_op_def split: if_splits)
    qed
    then show ?thesis using reminded_quiet False by simp
  qed
  then show ?thesis
    using reminded_same_view update_crittimer_view by (auto simp: parse_word_def f case_prod_beta)
qed

lemma parse_words_reminded:
  "set ws \<subseteq> set (split_blank stat) \<inter> set steady_words \<Longrightarrow> settled stat eco (fst s) \<Longrightarrow> 0 \<le> rbwarntime (snd (fst s)) \<Longrightarrow>
     reminded (''RB'' \<in> set ws) (fst s) (fst (fold parse_word ws s)) \<and> snd (fold parse_word ws s) = snd s"
proof (induction ws arbitrary: s)
  case (Cons w ws)
  then have w: "reminded (w = ''RB'') (fst s) (fst (parse_word w s))" "snd (parse_word w s) = snd s"
    using parse_word_reminded [of stat eco s w] by auto
  then have same: "same_watch (fst s) (fst (parse_word w s))" by (simp add: reminded_def)
  have "settled stat eco (fst (parse_word w s))" using settled_watch Cons.prems(2) same by blast
  moreover have "0 \<le> rbwarntime (snd (fst (parse_word w s)))" using same Cons.prems(3) by (simp add: same_watch_def)
  ultimately have "reminded (''RB'' \<in> set ws) (fst (parse_word w s)) (fst (fold parse_word ws (parse_word w s)))"
      "snd (fold parse_word ws (parse_word w s)) = snd (parse_word w s)"
    using Cons.IH [of "parse_word w s"] Cons.prems(1) by auto
  then show ?case using reminded_trans [OF w(1) _ Cons.prems(3)] w(2) by (auto simp: eq_commute)
qed (simp add: reminded_quiet)

lemma parse_status_reminded:
  assumes "settled stat (eco_buzzword b \<or> eco_buzzword bX) x" and "stat \<noteq> []" and "set (split_blank stat) \<subseteq> set steady_words"
    and "0 \<le> rbwarntime (snd x)"
  shows "reminded (''RB'' \<in> set (split_blank stat)) x (parse_status stat b bX x)"
proof -
  let ?eco = "eco_buzzword b \<or> eco_buzzword bX"
  have "same_view x (ups_is_alive x)" using assms(1) by (simp add: settled_def view_defs ups_is_alive_def)
  then have a: "settled stat ?eco (ups_is_alive x)" "same_view x (ups_is_alive x)" using settled_view assms(1) by blast+
  let ?x = "gone_words stat ?eco (ups_is_alive x)"
  have g: "same_view x ?x" using gone_words_quiet [OF a(1)] same_view_trans a(2) by blast
  then have wait: "0 \<le> rbwarntime (snd ?x)" using assms(4) by (simp add: view_defs)
  obtain y o' c where y: "fold parse_word (split_blank stat) (?x, [], 0) = (y, o', c)" by (cases "fold parse_word (split_blank stat) (?x, [], 0)")
  then have "reminded (''RB'' \<in> set (split_blank stat)) ?x y" "o' = []" "c = 0"
    using parse_words_reminded [of "split_blank stat" stat ?eco "(?x, [], 0)"] settled_view [OF assms(1) g] assms(3) wait by auto
  then have v: "reminded (''RB'' \<in> set (split_blank stat)) x y" using same_view_reminded g by blast
  then have "status_tokens (fst y) = Leaf" using assms(1) by (simp add: settled_def reminded_def same_watch_def)
  then have "same_view y (finish_words t (y, [], 0))" for t
    by (simp add: finish_words_def sweep_tokens_def view_defs)
  then show ?thesis
    using y \<open>o' = []\<close> \<open>c = 0\<close> assms(2) reminded_same_view [OF v] by (simp add: parse_status_def Let_def)
qed

text \<open>What no operation on a known word touches.\<close>

definition same_life :: "watch \<Rightarrow> watch \<Rightarrow> bool" where
  "same_life x y \<longleftrightarrow> commstate (fst y) = commstate (fst x) \<and> status_tokens (fst y) = status_tokens (fst x) \<and>
     rbwarntime (snd y) = rbwarntime (snd x)"

lemma same_life_refl [simp]: "same_life x x"
  by (simp add: same_life_def)

lemma same_life_trans: "same_life x y \<Longrightarrow> same_life y z \<Longrightarrow> same_life x z"
  by (simp add: same_life_def)

lemma gone_life:
  "same_life x (ups_is_notoff x)" "same_life x (ups_is_notbypass x)" "same_life x (ups_is_noteco x)"
  "same_life x (ups_is_notalarm x)" "same_life x (ups_is_notcal x)" "same_life x (ups_is_notover x)"
  "same_life x (ups_is_nottrim x)" "same_life x (ups_is_notboost x)" "same_life x (without_flag F x)"
  "same_life x (on_ups (\<lambda>u. u\<lparr>lastfsdnotify := 0\<rparr>) (without_flag F x))" "same_life x (ups_is_eco x)"
  by (simp_all add: same_life_def ups_is_notoff_def ups_is_notbypass_def ups_is_noteco_def ups_is_notalarm_def ups_is_notcal_def
      ups_is_notover_def ups_is_nottrim_def ups_is_notboost_def ups_is_eco_def flag_gone_def)

lemma unless_in_life: "same_life x y \<Longrightarrow> (\<And>z. same_life z (f z)) \<Longrightarrow> same_life x (unless_in n stat f y)"
  by (simp add: unless_in_def same_life_def)

lemma gone_words_life: "same_life x (gone_words stat eco x)"
proof -
  have eco: "same_life x (ups_is_noteco y)" "same_life x (ups_is_eco y)" if "same_life x y" for y
    using gone_life(3,11) same_life_trans that by blast+
  show ?thesis unfolding gone_words_def Let_def
    by (cases "strstr stat ''ECO'' = None \<and> \<not> eco"; cases eco; simp only: simp_thms if_True if_False)
      (intro eco unless_in_life gone_life same_life_refl)+
qed

lemma gone_words_eco:
  "eco \<Longrightarrow> ups_flag (gone_words stat eco x) ST_ECO" "\<not> eco \<Longrightarrow> strstr stat ''ECO'' = None \<Longrightarrow> \<not> ups_flag (gone_words stat eco x) ST_ECO"
  by (auto simp: gone_words_def Let_def ups_is_eco_def)

lemma seen_life:
  "same_life x (ups_on_line x)" "same_life x (ups_on_batt x)" "same_life x (ups_low_batt x)" "same_life x (ups_is_cal x)"
  "same_life x (ups_is_off x)" "same_life x (ups_is_bypass x)" "same_life x (ups_is_over x)" "same_life x (ups_is_trim x)"
  "same_life x (ups_is_boost x)" "same_life x (ups_fsd x)" "same_life x (upsreplbatt x)"
  by (simp_all add: same_life_def ups_on_line_def ups_on_batt_def ups_low_batt_def ups_is_cal_def ups_is_off_def
      ups_is_bypass_def ups_is_over_def ups_is_trim_def ups_is_boost_def ups_fsd_def upsreplbatt_def flag_first_seen_def Let_def)

lemma steady_eco:
  "w \<noteq> ''ECO'' \<Longrightarrow> ups_flag (steady_op w x) ST_ECO = ups_flag x ST_ECO" "ups_flag (steady_op ''ECO'' x) ST_ECO"
  by (auto simp: steady_op_def ups_is_eco_def)

lemma parse_word_steady:
  assumes "w \<in> set steady_words"
  shows "same_life (fst s) (fst (parse_word w s)) \<and> snd (parse_word w s) = snd s \<and>
    ups_flag (fst (parse_word w s)) ST_ECO = (w = ''ECO'' \<or> ups_flag (fst s) ST_ECO)"
proof -
  have f: "status_word w = Some (steady_op w)" by (rule steady_word_op [OF assms])
  have "same_life (fst s) (steady_op w (fst s))"
    using seen_life [of "fst s"] gone_life(11) [of "fst s"] by (simp add: steady_op_def)
  moreover have "ups_flag (steady_op w (fst s)) ST_ECO = (w = ''ECO'' \<or> ups_flag (fst s) ST_ECO)"
    using steady_eco by (cases "w = ''ECO''") auto
  moreover have "same_life x (update_crittimer x)" for x by (simp add: same_life_def update_crittimer_def)
  ultimately show ?thesis by (simp add: parse_word_def f case_prod_beta same_life_def)
qed

lemma parse_words_steady:
  "set ws \<subseteq> set steady_words \<Longrightarrow>
     same_life (fst s) (fst (fold parse_word ws s)) \<and> snd (fold parse_word ws s) = snd s \<and>
     ups_flag (fst (fold parse_word ws s)) ST_ECO = (''ECO'' \<in> set ws \<or> ups_flag (fst s) ST_ECO)"
proof (induction ws arbitrary: s)
  case (Cons w ws)
  then show ?case using parse_word_steady [of w s] Cons.IH [of "parse_word w s"] by (auto simp: same_life_def)
qed simp

lemma line_of_words:
  assumes "set ws \<subseteq> set steady_words"
  shows "''OB'' \<notin> set ws \<Longrightarrow> ''OL'' \<in> set ws \<or> l = Some True \<Longrightarrow> fold line_word ws l = Some True"
    "''OL'' \<notin> set ws \<Longrightarrow> ''OB'' \<in> set ws \<or> l = Some False \<Longrightarrow> fold line_word ws l = Some False"
proof -
  have spell: "same_nocase w ''OL'' \<longleftrightarrow> w = ''OL''" "same_nocase w ''OB'' \<longleftrightarrow> w = ''OB''" if "w \<in> set steady_words" for w
  proof -
    have "''OL'' \<in> set steady_words" "''OB'' \<in> set steady_words" by (simp_all add: steady_words_def)
    then show "same_nocase w ''OL'' \<longleftrightarrow> w = ''OL''" "same_nocase w ''OB'' \<longleftrightarrow> w = ''OB''"
      using steady_spelling [OF that] same_nocase_refl by blast+
  qed
  show "''OB'' \<notin> set ws \<Longrightarrow> ''OL'' \<in> set ws \<or> l = Some True \<Longrightarrow> fold line_word ws l = Some True"
    using assms by (induction ws arbitrary: l) (auto simp: line_word_def spell)
  show "''OL'' \<notin> set ws \<Longrightarrow> ''OB'' \<in> set ws \<or> l = Some False \<Longrightarrow> fold line_word ws l = Some False"
    using assms by (induction ws arbitrary: l) (auto simp: line_word_def spell)
qed

lemma first_poll_settles:
  assumes "stat \<noteq> []" and "set (split_blank stat) \<subseteq> set steady_words"
    and "\<not> (''OL'' \<in> set (split_blank stat) \<and> ''OB'' \<in> set (split_blank stat))"
    and "one_source x" and "status_tokens (fst x) = Leaf"
  shows "settled stat (eco_buzzword b \<or> eco_buzzword bX) (parse_status stat b bX x) \<and>
    rbwarntime (snd (parse_status stat b bX x)) = rbwarntime (snd x)"
proof -
  let ?eco = "eco_buzzword b \<or> eco_buzzword bX" and ?ws = "split_blank stat"
  let ?y = "parse_status stat b bX x" and ?x = "gone_words stat ?eco (ups_is_alive x)"
  have flags: "(n \<in> set ?ws \<longrightarrow> ups_flag ?y F) \<and> (strstr stat n = None \<longrightarrow> \<not> ups_flag ?y F)" if nF: "(n, F) \<in> set word_flags" for n F
  proof -
    have "n \<in> fst ` set word_flags" using nF by force
    then have "strstr stat n \<noteq> None" if "w \<in> set ?ws" "same_nocase w n" for w
      using steady_spelling [of w n] that assms(2) word_occurs [of w stat] by auto
    then show ?thesis using parse_status_flag [OF assms(1) nF, of b bX x] same_nocase_refl by blast
  qed
  have line: "line_flags (fold line_word ?ws None) x ?y" by (rule parse_status_line [OF assms(1,4)])
  have ol: "(''OL'' \<in> set ?ws \<longrightarrow> ups_flag ?y ST_ONLINE) \<and> (''OB'' \<in> set ?ws \<longrightarrow> ups_flag ?y ST_ONBATT)"
    using line_of_words [OF assms(2), of None] assms(3) line by (auto simp: line_flags_def)
  obtain y o' c where y: "fold parse_word ?ws (?x, [], 0) = (y, o', c)" by (cases "fold parse_word ?ws (?x, [], 0)")
  have y': "same_life ?x y" "o' = []" "c = 0" "ups_flag y ST_ECO = (''ECO'' \<in> set ?ws \<or> ups_flag ?x ST_ECO)"
    using parse_words_steady [OF assms(2), of "(?x, [], 0)"] y by auto
  have "same_life (ups_is_alive x) y" using same_life_trans gone_words_life y'(1) by blast
  then have life: "status_tokens (fst y) = Leaf" "commstate (fst y) = 1" "rbwarntime (snd y) = rbwarntime (snd x)"
    using assms(5) by (auto simp: same_life_def ups_is_alive_def Let_def)
  then have "commstate (fst ?y) = 1 \<and> status_tokens (fst ?y) = Leaf \<and> rbwarntime (snd ?y) = rbwarntime (snd x)"
    using y y' assms(1) by (simp add: parse_status_def Let_def finish_words_def sweep_tokens_def)
  moreover have "ups_flag ?y ST_ECO = (''ECO'' \<in> set ?ws \<or> ups_flag ?x ST_ECO)"
    using parse_status_start [OF assms(1), of b bX x ST_ECO] y y'(4) by simp
  then have "(?eco \<or> ''ECO'' \<in> set ?ws \<longrightarrow> ups_flag ?y ST_ECO) \<and> (\<not> ?eco \<and> strstr stat ''ECO'' = None \<longrightarrow> \<not> ups_flag ?y ST_ECO)"
    using gone_words_eco [of ?eco stat "ups_is_alive x"] word_occurs [of "''ECO''" stat] by auto
  ultimately show ?thesis using flags ol unfolding settled_def by blast
qed

text \<open>Time passes between two polls: the clocks move on, and the connection has new answers.\<close>

definition later :: "int \<Rightarrow> timespec \<Rightarrow> UPSCONN_t \<Rightarrow> watch \<Rightarrow> watch" where
  "later t s c x = on_globals (\<lambda>g. g\<lparr>now := t, monotonic := s\<rparr>) (on_ups (\<lambda>u. u\<lparr>conn := c\<rparr>) x)"

definition poll_again :: "cstring \<Rightarrow> cstring \<Rightarrow> cstring \<Rightarrow> (int \<times> timespec \<times> UPSCONN_t) list \<Rightarrow> watch \<Rightarrow> watch" where
  "poll_again stat b bX rounds x = fold (\<lambda>(t, s, c) y. parse_status stat b bX (later t s c y)) rounds x"

text \<open>How many reminders polls at these times bring, the last one having been at \<open>prev\<close>.\<close>

fun reminders :: "int \<Rightarrow> int \<Rightarrow> int list \<Rightarrow> nat" where
  "reminders wait prev [] = 0"
| "reminders wait prev (t # ts) = (if t - prev > wait then Suc (reminders wait t ts) else reminders wait prev ts)"

lemma later_frame:
  "settled stat eco x \<Longrightarrow> settled stat eco (later t s c x)" "reminder (later t s c x) = reminder x"
  "events (snd (later t s c x)) = events (snd x)" "rbwarntime (snd (later t s c x)) = rbwarntime (snd x)"
  "lastrbwarn (fst (later t s c x)) = lastrbwarn (fst x)" "now (snd (later t s c x)) = t"
proof -
  show "reminder (later t s c x) = reminder x" by (simp add: later_def reminder_def cong: option.case_cong)
  show "settled stat eco x \<Longrightarrow> settled stat eco (later t s c x)" by (simp add: settled_def later_def ups_flag_def)
qed (simp_all add: later_def)

lemma poll_again_reminds:
  assumes "stat \<noteq> []" and "set (split_blank stat) \<subseteq> set steady_words"
  shows "settled stat (eco_buzzword b \<or> eco_buzzword bX) x \<Longrightarrow> 0 \<le> rbwarntime (snd x) \<Longrightarrow>
     events (snd (poll_again stat b bX rounds x)) = events (snd x) @
       (if ''RB'' \<in> set (split_blank stat)
        then concat (replicate (reminders (rbwarntime (snd x)) (lastrbwarn (fst x)) (map fst rounds)) (reminder x)) else [])"
proof (induction rounds arbitrary: x)
  case (Cons r rounds)
  obtain t s c where r: "r = (t, s, c)" by (cases r) auto
  let ?x = "later t s c x" and ?rb = "''RB'' \<in> set (split_blank stat)"
  let ?y = "parse_status stat b bX ?x"
  have y: "reminded ?rb ?x ?y"
    by (rule parse_status_reminded [OF later_frame(1) [OF Cons.prems(1)] assms]) (simp add: later_frame Cons.prems(2))
  then have w: "same_watch ?x ?y" by (simp add: reminded_def)
  have set_y: "settled stat (eco_buzzword b \<or> eco_buzzword bX) ?y" by (rule settled_watch [OF later_frame(1) [OF Cons.prems(1)] w])
  have same: "rbwarntime (snd ?y) = rbwarntime (snd x)" "reminder ?y = reminder x"
    using w same_watch_reminder [OF w] by (simp_all add: same_watch_def later_frame)
  have due: "reminder_due ?x \<longleftrightarrow> t - lastrbwarn (fst x) > rbwarntime (snd x)" by (simp add: reminder_due_def later_frame)
  have IH: "events (snd (poll_again stat b bX rounds ?y)) = events (snd ?y) @
       (if ?rb then concat (replicate (reminders (rbwarntime (snd x)) (lastrbwarn (fst ?y)) (map fst rounds)) (reminder x)) else [])"
    using Cons.IH [OF set_y] Cons.prems(2) by (simp add: same)
  have E: "poll_again stat b bX (r # rounds) x = poll_again stat b bX rounds ?y" by (simp add: poll_again_def r)
  show ?case
    using y unfolding E IH by (auto simp: reminded_def due later_frame r split: if_splits)
qed (simp add: poll_again_def)

text \<open>
  Property C32: a change is announced once, and only the replacement of the battery is repeated. As
  long as a UPS reports the same words, known to the monitor and in the spelling of the drivers, not
  both line and battery and not \<open>ALARM\<close>, and the same buzzwords, the polls after the first one add
  nothing to the list of notifications, however many they are and however much time passes between
  them, except that with \<open>RB\<close> among the words each poll more than \<open>RBWARNTIME\<close> seconds after the last
  reminder adds one more reminder. (Left out: the text of an alarm is asked for at every poll and
  announced when it changes; a word the monitor does not know is announced as such.)
\<close>

theorem steady_status_silent:
  assumes "stat \<noteq> []" and "set (split_blank stat) \<subseteq> set steady_words"
    and "\<not> (''OL'' \<in> set (split_blank stat) \<and> ''OB'' \<in> set (split_blank stat))"
    and "one_source x" and "status_tokens (fst x) = Leaf" and "0 \<le> rbwarntime (snd x)"
  shows "events (snd (poll_again stat b bX rounds (parse_status stat b bX x))) = events (snd (parse_status stat b bX x)) @
    (if ''RB'' \<in> set (split_blank stat)
     then concat (replicate
       (reminders (rbwarntime (snd x)) (lastrbwarn (fst (parse_status stat b bX x))) (map fst rounds))
       (reminder (parse_status stat b bX x)))
     else [])"
  using first_poll_settles [OF assms(1-5), of b bX] poll_again_reminds [OF assms(1,2), of b bX "parse_status stat b bX x" rounds] assms(6)
  by simp

text \<open>With a waiting time of 43200 seconds, the second poll is too early for a reminder, the third is not.\<close>

theorem steady_status_silent_witness:
  "\<exists>y n. y = parse_status ''OL RB'' [] [] (sample_ups, sample_globals\<lparr>rbwarntime := 43200, now := 100000\<rparr>) \<and>
     events (snd (poll_again ''OL RB'' [] [] [(100030, \<lparr>tv_sec = 5, tv_nsec = 0\<rparr>, no_conn 0), (150000, \<lparr>tv_sec = 6, tv_nsec = 0\<rparr>, no_conn 1)] y))
       = events (snd y) @ [n]"
proof -
  let ?x = "(sample_ups, sample_globals\<lparr>rbwarntime := 43200, now := 100000\<rparr>)"
  let ?y = "parse_status ''OL RB'' [] [] ?x"
  have words: "split_blank ''OL RB'' = [''OL'', ''RB'']" by code_simp
  then have ws: "set (split_blank ''OL RB'') \<subseteq> set steady_words" "\<not> (''OL'' \<in> set (split_blank ''OL RB'') \<and> ''OB'' \<in> set (split_blank ''OL RB''))"
    by (simp_all add: steady_words_def)
  have x: "one_source ?x" "status_tokens (fst ?x) = Leaf" "0 \<le> rbwarntime (snd ?x)"
    by (simp_all add: one_source_def sample_ups_def new_ups_def Let_def)
  have asked: "lastrbwarn (fst ?y) = 100000" by code_simp
  obtain n where n: "reminder ?y = [n]"
  proof -
    have "map_option nt_type (find (\<lambda>e. nt_type e = NOTIFY_REPLBATT) (notifylist (snd ?y))) = Some NOTIFY_REPLBATT"
      by code_simp
    then obtain e where "find (\<lambda>e. nt_type e = NOTIFY_REPLBATT) (notifylist (snd ?y)) = Some e" by blast
    then show thesis using that by (simp add: reminder_def)
  qed
  show ?thesis
    using steady_status_silent [OF _ ws x, of "[]" "[]" "[(100030, \<lparr>tv_sec = 5, tv_nsec = 0\<rparr>, no_conn 0), (150000, \<lparr>tv_sec = 6, tv_nsec = 0\<rparr>, no_conn 1)]"]
    by (auto simp: words asked n)
qed

text \<open>The text of the alarm is kept once for all devices: two devices with different texts notify at every poll.\<close>

lemma alarm_text_shared:
  assumes "ups_flag (u, g) ST_ALARM" and "get_var ''alarm'' u = (Got a, u')" and "alarms_prev g \<noteq> a"
    and "find (\<lambda>e. nt_type e = NOTIFY_ALARM) (notifylist g) = Some e"
  shows "length (events (snd (ups_is_alarm (u, g)))) = Suc (length (events g)) \<and> alarms_prev (snd (ups_is_alarm (u, g))) = a"
  using assms by (simp add: ups_is_alarm_def do_notify_def do_notify_name_def Let_def)

section \<open>Well-formed devices\<close>

text \<open>
  What the flags imply. A login needs a connection; the state of line, bypass, mode, alarm
  and overload, which outlives a lost connection, agrees with the flags.
\<close>

definition utype_wf :: "utype_t \<Rightarrow> bool" where
  "utype_wf u \<longleftrightarrow>
     \<not> (flag_isset (status u) ST_ONLINE \<and> flag_isset (status u) ST_ONBATT) \<and>
     (flag_isset (status u) ST_LOGIN \<longrightarrow> flag_isset (status u) ST_CLICONNECTED) \<and>
     (flag_isset (status u) ST_ONLINE \<longrightarrow> linestate u = 1) \<and> (flag_isset (status u) ST_ONBATT \<longrightarrow> linestate u = 0) \<and>
     (flag_isset (status u) ST_BYPASS \<longrightarrow> bypassstate u = 1) \<and> (flag_isset (status u) ST_ECO \<longrightarrow> ecostate u = 1) \<and>
     (flag_isset (status u) ST_ALARM \<longrightarrow> alarmstate u = 1) \<and> (flag_isset (status u) ST_OVER \<longrightarrow> overstate u = 1)"

definition keeps_wf :: "(watch \<Rightarrow> watch) \<Rightarrow> bool" where
  "keeps_wf f \<longleftrightarrow> (\<forall>x. utype_wf (fst x) \<longrightarrow> utype_wf (fst (f x)) \<and> sys (fst (f x)) = sys (fst x))"

lemma keeps_wfD: "keeps_wf f \<Longrightarrow> utype_wf (fst x) \<Longrightarrow> utype_wf (fst (f x)) \<and> sys (fst (f x)) = sys (fst x)"
  unfolding keeps_wf_def by blast

lemma keeps_wf_id [simp]: "keeps_wf id" "keeps_wf (\<lambda>x. x)"
  by (simp_all add: keeps_wf_def)

lemma fst_flags: "fst (with_flag f x) = (fst x)\<lparr>status := setflag (status (fst x)) f\<rparr>"
  "fst (without_flag f x) = (fst x)\<lparr>status := clearflag (status (fst x)) f\<rparr>"
  by (simp_all add: with_flag_def without_flag_def)

lemma flag_gone_fst: "fst (flag_gone n F x) = (if ups_flag x F then (fst x)\<lparr>status := clearflag (status (fst x)) F\<rparr> else fst x)"
  by (simp add: flag_gone_def fst_flags)

lemma flag_first_seen_fst: "fst (flag_first_seen n F x) = (if ups_flag x F then fst x else (fst x)\<lparr>status := setflag (status (fst x)) F\<rparr>)"
  by (simp add: flag_first_seen_def fst_flags)

lemmas wf_defs = keeps_wf_def utype_wf_def fst_flags flag_gone_fst flag_first_seen_fst ups_flag_def

lemma gone_keeps_wf:
  "keeps_wf ups_is_notoff" "keeps_wf ups_is_notbypass" "keeps_wf ups_is_noteco" "keeps_wf ups_is_notalarm"
  "keeps_wf ups_is_notcal" "keeps_wf ups_is_notover" "keeps_wf ups_is_nottrim" "keeps_wf ups_is_notboost"
  "keeps_wf (without_flag ST_LOWBATT)" "keeps_wf (without_flag ST_FSD)"
  "keeps_wf (\<lambda>x. on_ups (\<lambda>u. u\<lparr>lastfsdnotify := 0\<rparr>) (without_flag ST_FSD x))"
  by (simp_all add: wf_defs ups_is_notoff_def ups_is_notbypass_def ups_is_noteco_def ups_is_notalarm_def ups_is_notcal_def
      ups_is_notover_def ups_is_nottrim_def ups_is_notboost_def)

lemma seen_keeps_wf:
  "keeps_wf ups_on_line" "keeps_wf ups_on_batt" "keeps_wf ups_low_batt" "keeps_wf upsreplbatt" "keeps_wf ups_is_cal"
  "keeps_wf ups_is_off" "keeps_wf ups_is_bypass" "keeps_wf ups_is_eco" "keeps_wf ups_is_over" "keeps_wf ups_is_trim"
  "keeps_wf ups_is_boost" "keeps_wf ups_fsd" "keeps_wf ups_is_alive" "keeps_wf ups_is_gone" "keeps_wf update_crittimer"
  by (simp add: wf_defs ups_on_line_def ups_on_batt_def ups_low_batt_def upsreplbatt_def ups_is_cal_def ups_is_off_def
      ups_is_bypass_def ups_is_eco_def ups_is_over_def ups_is_trim_def ups_is_boost_def ups_fsd_def ups_is_alive_def ups_is_gone_def
      update_crittimer_def Let_def; blast?)+

lemma get_var_keeps: "get_var v u = (r, u') \<Longrightarrow> utype_wf u' = utype_wf u \<and> sys u' = sys u \<and> status u' = status u"
  by (drule get_var_conn, erule ssubst) (simp add: utype_wf_def)

lemma alarm_keeps_wf: "keeps_wf ups_is_alarm"
  unfolding keeps_wf_def
proof (intro allI impI)
  fix x :: watch
  assume wf: "utype_wf (fst x)"
  let ?u = "(fst x)\<lparr>alarmstate := 1\<rparr>"
  obtain r u where g: "get_var ''alarm'' (fst x) = (r, u)" by fastforce
  obtain r1 u1 where g1: "get_var ''alarm'' ?u = (r1, u1)" by fastforce
  have "utype_wf u \<and> sys u = sys (fst x)" using get_var_keeps [OF g] wf by simp
  moreover have "alarmstate u1 = 1" using get_var_conn [OF g1] by (metis utype_t.select_convs(18) utype_t.surjective utype_t.update_convs(1,18))
  moreover have "utype_wf u1 \<and> sys u1 = sys (fst x)" using get_var_keeps [OF g1] wf by (simp add: utype_wf_def)
  ultimately show "utype_wf (fst (ups_is_alarm x)) \<and> sys (fst (ups_is_alarm x)) = sys (fst x)"
    using g g1 by (auto simp: ups_is_alarm_def Let_def fst_flags utype_wf_def split: var_result.split)
qed

lemma keeps_wf_comp: "keeps_wf g \<Longrightarrow> keeps_wf f \<Longrightarrow> keeps_wf (g \<circ> f)"
  unfolding keeps_wf_def comp_def by metis

lemma keeps_wf_unless: "keeps_wf f \<Longrightarrow> keeps_wf (unless_in n stat f)"
  by (simp add: keeps_wf_def unless_in_def)

lemma gone_words_keeps_wf: "keeps_wf (gone_words stat eco)"
proof -
  let ?eco = "\<lambda>x. if strstr stat ''ECO'' = None \<and> \<not> eco then ups_is_noteco x else if eco then ups_is_eco x else x"
  have "gone_words stat eco = ?eco \<circ> unless_in ''BOOST'' stat ups_is_notboost \<circ> unless_in ''TRIM'' stat ups_is_nottrim \<circ>
      unless_in ''OVER'' stat ups_is_notover \<circ> unless_in ''ALARM'' stat ups_is_notalarm \<circ> unless_in ''BYPASS'' stat ups_is_notbypass \<circ>
      unless_in ''OFF'' stat ups_is_notoff \<circ> unless_in ''CAL'' stat ups_is_notcal \<circ>
      unless_in ''FSD'' stat (\<lambda>x. on_ups (\<lambda>u. u\<lparr>lastfsdnotify := 0\<rparr>) (without_flag ST_FSD x)) \<circ>
      unless_in ''LB'' stat (without_flag ST_LOWBATT)"
    by (rule ext) (simp only: gone_words_def Let_def comp_def)
  moreover have "keeps_wf ?eco" using gone_keeps_wf(3) seen_keeps_wf(8) by (simp add: keeps_wf_def)
  ultimately show ?thesis
    by (simp only:) (intro keeps_wf_comp keeps_wf_unless gone_keeps_wf; assumption?)
qed

lemma table_keeps_wf:
  assumes "(k, f) \<in> set status_table"
  shows "keeps_wf f"
proof -
  have "list_all (\<lambda>(k, f). keeps_wf f) status_table" by (simp add: status_table_def seen_keeps_wf alarm_keeps_wf)
  then show ?thesis using assms unfolding list_all_iff by blast
qed

lemma parse_words_keep_wf:
  "utype_wf (fst (fst s)) \<Longrightarrow> utype_wf (fst (fst (fold parse_word ws s))) \<and> sys (fst (fst (fold parse_word ws s))) = sys (fst (fst s))"
proof (induction ws arbitrary: s)
  case (Cons w ws)
  have "utype_wf (fst (fst (parse_word w s))) \<and> sys (fst (fst (parse_word w s))) = sys (fst (fst s))"
  proof (cases "status_word w")
    case None
    have "utype_wf (fst (fst (unknown_word w s))) \<and> sys (fst (fst (unknown_word w s))) = sys (fst (fst s))"
      using Cons.prems by (simp add: unknown_word_def utype_wf_def Let_def case_prod_beta)
    then show ?thesis using keeps_wfD [OF seen_keeps_wf(15), of "fst (unknown_word w s)"] by (simp add: parse_word_fst None)
  next
    case (Some f)
    then obtain k where "(k, f) \<in> set status_table" using status_word_Some by blast
    then have "keeps_wf f" by (rule table_keeps_wf)
    then show ?thesis
      using keeps_wfD [of f "fst s"] keeps_wfD [OF seen_keeps_wf(15), of "f (fst s)"] Cons.prems by (simp add: parse_word_fst Some)
  qed
  then show ?case using Cons.IH [of "parse_word w s"] by simp
qed simp

lemma parse_status_keeps_wf: "keeps_wf (parse_status stat b bX)"
  unfolding keeps_wf_def
proof (intro allI impI)
  fix x :: watch
  assume wf: "utype_wf (fst x)"
  let ?x = "gone_words stat (eco_buzzword b \<or> eco_buzzword bX) (ups_is_alive x)"
  have "utype_wf (fst ?x) \<and> sys (fst ?x) = sys (fst x)"
    using keeps_wfD [OF seen_keeps_wf(13) wf] keeps_wfD [OF gone_words_keeps_wf] by metis
  then have "utype_wf (fst (fst (fold parse_word ws (?x, [], 0)))) \<and> sys (fst (fst (fold parse_word ws (?x, [], 0)))) = sys (fst x)" for ws
    using parse_words_keep_wf [of "(?x, [], 0)" ws] by simp
  moreover have "utype_wf (fst (finish_words t s)) = utype_wf (fst (fst s)) \<and> sys (fst (finish_words t s)) = sys (fst (fst s))" for t s
    by (simp add: finish_words_def utype_wf_def Let_def case_prod_beta)
  ultimately show "utype_wf (fst (parse_status stat b bX x)) \<and> sys (fst (parse_status stat b bX x)) = sys (fst x)"
    using keeps_wfD [OF seen_keeps_wf(14) wf] by (simp add: parse_status_def Let_def)
qed

lemma drop_connection_keeps: "utype_wf u \<Longrightarrow> utype_wf (drop_connection u) \<and> sys (drop_connection u) = sys u"
  by (simp add: utype_wf_def drop_connection_def)

lemma poll_connected_keeps_wf: "keeps_wf poll_connected"
  unfolding keeps_wf_def
proof (intro allI impI)
  fix x :: watch
  assume wf: "utype_wf (fst x)"
  obtain s u1 where s: "get_var ''status'' (fst x) = (s, u1)" by fastforce
  obtain b u2 where b: "get_var ''buzzword'' u1 = (b, u2)" by fastforce
  obtain X u3 where X: "get_var ''X-buzzword'' u2 = (X, u3)" by fastforce
  have u3: "utype_wf u3 \<and> sys u3 = sys (fst x)"
    using get_var_keeps [OF s] get_var_keeps [OF b] get_var_keeps [OF X] wf by simp
  let ?u = "u3\<lparr>pollfail_log_throttle_state := UPSCLI_ERR_NONE, pollfail_log_throttle_count := - 1\<rparr>"
  have "utype_wf ?u \<and> sys ?u = sys (fst x)" using u3 by (simp add: utype_wf_def)
  then have "utype_wf (fst (parse_status p q r (?u, snd x))) \<and> sys (fst (parse_status p q r (?u, snd x))) = sys (fst x)" for p q r
    using keeps_wfD [OF parse_status_keeps_wf, of "(?u, snd x)"] by simp
  moreover
  let ?v = "snd (throttle (pollfail_log_throttle_max (snd x)) (upserror (conn u3)) u3)"
  have "utype_wf ?v \<and> sys ?v = sys (fst x)" using u3 by (simp add: throttle_def utype_wf_def)
  then have "utype_wf (fst (ups_is_gone (?v, snd x))) \<and> sys (fst (ups_is_gone (?v, snd x))) = sys (fst x)"
    using keeps_wfD [OF seen_keeps_wf(14), of "(?v, snd x)"] by simp
  ultimately show "utype_wf (fst (poll_connected x)) \<and> sys (fst (poll_connected x)) = sys (fst x)"
    using s b X drop_connection_keeps by (simp add: poll_connected_def Let_def)
qed

lemma apply_for_primary_keeps: "\<exists>c. snd (apply_for_primary u) = u\<lparr>conn := c\<rparr>"
proof -
  have "\<exists>c. u = u\<lparr>conn := c\<rparr>" by (intro exI [of _ "conn u"]) simp
  then show ?thesis by (simp add: apply_for_primary_def case_prod_beta split: option.split) blast
qed

lemma do_upsd_auth_keeps:
  assumes "do_upsd_auth u = (r, u')" and "utype_wf u" and "flag_isset (status u) ST_CLICONNECTED"
  shows "utype_wf u' \<and> sys u' = sys u"
proof -
  let ?s = "setflag (status u) ST_LOGIN"
  have "\<exists>d. snd (apply_for_primary (u\<lparr>conn := c, status := ?s\<rparr>)) = u\<lparr>status := ?s, conn := d\<rparr>" for c
    using apply_for_primary_keeps [of "u\<lparr>conn := c, status := ?s\<rparr>"] by simp
  moreover define P where "P v \<longleftrightarrow> (\<exists>c. v = u\<lparr>conn := c\<rparr> \<or> v = u\<lparr>status := ?s, conn := c\<rparr>)" for v
  ultimately have P: "P (snd (apply_for_primary (u\<lparr>conn := c, status := ?s\<rparr>)))" "P (u\<lparr>conn := c\<rparr>)" for c by blast+
  have "P (snd (do_upsd_auth u))" by (simp add: do_upsd_auth_def case_prod_beta P split: option.split)
  then have "\<exists>c. snd (do_upsd_auth u) = u\<lparr>conn := c\<rparr> \<or> snd (do_upsd_auth u) = u\<lparr>status := ?s, conn := c\<rparr>"
    by (simp only: P_def)
  then obtain c where c: "u' = u\<lparr>conn := c\<rparr> \<or> u' = u\<lparr>status := ?s, conn := c\<rparr>" using assms(1) by auto
  have "utype_wf (u\<lparr>conn := c\<rparr>)" using assms(2) by (simp add: utype_wf_def)
  moreover have "utype_wf (u\<lparr>status := ?s, conn := c\<rparr>)" using assms(2,3) by (simp add: utype_wf_def)
  ultimately show ?thesis using c by auto
qed

lemma try_connect_keeps_wf:
  assumes "utype_wf (fst x)" and "\<not> ups_flag x ST_CLICONNECTED"
  shows "utype_wf (fst (snd (try_connect x))) \<and> sys (fst (snd (try_connect x))) = sys (fst x)"
proof -
  let ?x = "without_flag ST_CLICONNECTED x"
  have x: "utype_wf (fst ?x)" "sys (fst ?x) = sys (fst x)" using assms by (auto simp: utype_wf_def fst_flags ups_flag_def)
  obtain d g where d: "upscli_connect (snd ?x) = (d, g)" by fastforce
  show ?thesis
  proof (cases d)
    case (Connected c)
    let ?u = "fst (with_flag ST_CLICONNECTED (on_ups (\<lambda>u. u\<lparr>conn := c\<rparr>) (fst ?x, g)))"
    obtain r u where u: "do_upsd_auth ?u = (r, u)" by fastforce
    have "utype_wf ?u \<and> flag_isset (status ?u) ST_CLICONNECTED \<and> sys ?u = sys (fst x)" using x by (simp add: utype_wf_def fst_flags)
    then show ?thesis using do_upsd_auth_keeps [OF u] d Connected u by (simp add: try_connect_def Let_def)
  next
    case (Failed err)
    have "utype_wf ((fst ?x)\<lparr>conn := no_conn err\<rparr>)" using x by (simp add: utype_wf_def)
    then show ?thesis
      using keeps_wfD [OF seen_keeps_wf(14), of "on_ups (\<lambda>u. u\<lparr>conn := no_conn err\<rparr>) (fst ?x, g)"] x d Failed
      by (simp add: try_connect_def Let_def)
  next
    case Certificate_missing
    then show ?thesis
      using keeps_wfD [OF seen_keeps_wf(14), of "(fst ?x, g)"] drop_connection_keeps x d by (simp add: try_connect_def Let_def)
  qed
qed

lemma pollups_keeps_wf: "keeps_wf pollups"
  unfolding keeps_wf_def
proof (intro allI impI)
  fix x :: watch
  assume wf: "utype_wf (fst x)"
  show "utype_wf (fst (pollups x)) \<and> sys (fst (pollups x)) = sys (fst x)"
  proof (cases "ups_flag x ST_CLICONNECTED")
    case True
    then show ?thesis using keeps_wfD [OF poll_connected_keeps_wf wf] by (simp add: pollups_def)
  next
    case False
    obtain good x1 where t: "try_connect x = (good, x1)" by (cases "try_connect x")
    then have "utype_wf (fst x1)" "sys (fst x1) = sys (fst x)" using try_connect_keeps_wf [OF wf False] by simp_all
    then show ?thesis using keeps_wfD [OF poll_connected_keeps_wf, of x1] t False by (simp add: pollups_def)
  qed
qed

text \<open>The whole list: every device well formed, no name twice.\<close>

definition list_wf :: "utype_t list \<Rightarrow> bool" where
  "list_wf us \<longleftrightarrow> list_all utype_wf us \<and> distinct (map sys us)"

lemma each_ups_keeps_wf:
  assumes "keeps_wf f"
  shows "each_ups f us g = (us', g') \<Longrightarrow> list_all utype_wf us \<Longrightarrow> list_all utype_wf us' \<and> map sys us' = map sys us"
proof (induction us arbitrary: g us' g')
  case (Cons u us)
  obtain u1 g1 where u1: "f (u, g) = (u1, g1)" by fastforce
  obtain us1 g2 where r: "each_ups f us g1 = (us1, g2)" by fastforce
  have "utype_wf u1 \<and> sys u1 = sys u" using keeps_wfD [OF assms, of "(u, g)"] u1 Cons.prems(2) by simp
  then show ?case using Cons.IH [OF r] Cons.prems u1 r by auto
qed simp

lemma critical_keeps_wf: "utype_wf u \<Longrightarrow> is_ups_critical (promote_dead (u, g)) = (c, u', g') \<Longrightarrow> utype_wf u' \<and> sys u' = sys u"
proof -
  assume wf: "utype_wf u" and c: "is_ups_critical (promote_dead (u, g)) = (c, u', g')"
  have p: "utype_wf (fst (promote_dead (u, g))) \<and> sys (fst (promote_dead (u, g))) = sys u"
    using wf by (auto simp: promote_dead_def utype_wf_def fst_flags)
  have "utype_wf (v\<lparr>oblbsince := t\<rparr>) = utype_wf v" for v t by (simp add: utype_wf_def)
  then have "utype_wf (fst (snd (is_ups_critical x))) = utype_wf (fst x)" for x
    by (simp add: is_ups_critical_def Let_def)
  moreover have "sys (fst (snd (is_ups_critical x))) = sys (fst x)" for x
    by (simp add: is_ups_critical_def Let_def)
  moreover have "u' = fst (snd (is_ups_critical (promote_dead (u, g))))" using c by simp
  ultimately show "utype_wf u' \<and> sys u' = sys u" using p by simp
qed

lemma recalc_loop_keeps_wf:
  "recalc_loop us g v = (us', g', v') \<Longrightarrow> list_all utype_wf us \<Longrightarrow> list_all utype_wf us' \<and> map sys us' = map sys us"
proof (induction us arbitrary: g v us' g' v')
  case (Cons u us)
  obtain c u1 g1 where s: "is_ups_critical (promote_dead (u, g)) = (c, u1, g1)" by (cases "is_ups_critical (promote_dead (u, g))") auto
  obtain us1 g2 v1 where r: "recalc_loop us g1 (if c then v else v + pv u1) = (us1, g2, v1)"
    by (cases "recalc_loop us g1 (if c then v else v + pv u1)") auto
  show ?case using Cons.IH [OF r] critical_keeps_wf [OF _ s] Cons.prems s r by auto
qed simp

lemma retry_login_keeps: "utype_wf u \<Longrightarrow> utype_wf (retry_login u) \<and> sys (retry_login u) = sys u"
  by (simp add: retry_login_def drop_connection_keeps)

lemma redefine_keeps_wf: "keeps_wf (redefine_ups p n w opt)"
  unfolding keeps_wf_def
proof (intro allI impI)
  fix x :: watch
  assume wf: "utype_wf (fst x)"
  define u where "u = (fst x)\<lparr>retain := True, pv := p\<rparr>"
  define u1 where "u1 = (if un u \<noteq> n then retry_login (u\<lparr>un := n\<rparr>) else u)"
  define u2 where "u2 = (if pw u1 \<noteq> w then retry_login (u1\<lparr>pw := w\<rparr>) else u1)"
  have "utype_wf u \<and> sys u = sys (fst x)" "utype_wf (u\<lparr>un := n\<rparr>) = utype_wf u" using wf by (simp_all add: u_def utype_wf_def)
  then have u1: "utype_wf u1 \<and> sys u1 = sys (fst x)" using retry_login_keeps [of "u\<lparr>un := n\<rparr>"] by (simp add: u1_def)
  moreover have "utype_wf (u1\<lparr>pw := w\<rparr>) = utype_wf u1" by (simp add: utype_wf_def)
  ultimately have u2: "utype_wf u2 \<and> sys u2 = sys (fst x)" using retry_login_keeps [of "u1\<lparr>pw := w\<rparr>"] by (simp add: u2_def)
  then have "utype_wf (u2\<lparr>status := setflag (status u2) ST_PRIMARY\<rparr>)" "utype_wf (u2\<lparr>status := clearflag (status u2) ST_PRIMARY\<rparr>)"
    by (simp_all add: utype_wf_def)
  then have "utype_wf (drop_connection (u2\<lparr>status := setflag (status u2) ST_PRIMARY\<rparr>))"
      "sys (drop_connection (u2\<lparr>status := setflag (status u2) ST_PRIMARY\<rparr>)) = sys (fst x)"
    using drop_connection_keeps u2 by auto
  moreover have "fst (redefine_ups p n w opt x) =
      (if managerial opt = Some True \<and> \<not> flag_isset (status u2) ST_PRIMARY
       then drop_connection (u2\<lparr>status := setflag (status u2) ST_PRIMARY\<rparr>)
       else if managerial opt = Some False \<and> flag_isset (status u2) ST_PRIMARY
       then u2\<lparr>status := clearflag (status u2) ST_PRIMARY\<rparr> else u2)"
    by (simp only: redefine_ups_def Let_def u_def u1_def u2_def fst_conv)
  ultimately show "utype_wf (fst (redefine_ups p n w opt x)) \<and> sys (fst (redefine_ups p n w opt x)) = sys (fst x)"
    using u2 \<open>utype_wf (u2\<lparr>status := clearflag (status u2) ST_PRIMARY\<rparr>)\<close> by simp
qed

lemma new_ups_wf: "utype_wf (new_ups name p n w opt) \<and> sys (new_ups name p n w opt) = name"
  by (simp add: new_ups_def utype_wf_def Let_def)

lemma add_or_redefine_wf:
  assumes "keeps_wf again" and "utype_wf fresh" and "sys fresh = name"
  shows "add_or_redefine again name fresh us g = (us', g') \<Longrightarrow> list_all utype_wf us \<Longrightarrow>
    list_all utype_wf us' \<and> map sys us' = map sys us @ (if name \<in> set (map sys us) then [] else [name])"
proof (induction us arbitrary: g us' g')
  case (Cons u us)
  show ?case
  proof (cases "sys u = name")
    case True
    obtain u1 g1 where "again (u, g) = (u1, g1)" by fastforce
    then show ?thesis using keeps_wfD [OF assms(1), of "(u, g)"] Cons.prems True by auto
  next
    case False
    obtain us1 g1 where r: "add_or_redefine again name fresh us g = (us1, g1)" by fastforce
    show ?thesis using Cons.IH [OF r] Cons.prems False r by auto
  qed
qed (use assms(2,3) in auto)

lemma addups_wf: "list_wf (firstups m) \<Longrightarrow> list_wf (firstups (addups reloading name pvs n w opt m))"
proof -
  assume wf: "list_wf (firstups m)"
  let ?p = "of_int (fst (strtol pvs 10)) :: 32 word"
  let ?again = "if reloading then redefine_ups ?p n w opt else id"
  obtain us g where a: "add_or_redefine ?again name (new_ups name ?p n w opt) (firstups m) (globals m) = (us, g)" by fastforce
  have "keeps_wf ?again" by (simp add: redefine_keeps_wf)
  then have "list_wf us" using add_or_redefine_wf [OF _ _ _ a] new_ups_wf [of name ?p n w opt] wf by (auto simp: list_wf_def)
  then show ?thesis using wf a by (simp add: addups_def Let_def)
qed

lemma parse_conf_arg_wf: "parse_conf_arg reloading arg m = Some (used, m') \<Longrightarrow> list_wf (firstups m) \<Longrightarrow> list_wf (firstups m')"
  using addups_wf by (auto simp: parse_conf_arg_def split: if_splits option.splits)

lemma conf_directives_wf: "conf_directives reloading ls m = Some m' \<Longrightarrow> list_wf (firstups m) \<Longrightarrow> list_wf (firstups m')"
proof (induction ls arbitrary: m)
  case (Cons l ls)
  then show ?case using parse_conf_arg_wf by (fastforce split: if_splits option.splits prod.splits)
qed simp

lemma list_wf_map:
  assumes "\<And>u. utype_wf u \<Longrightarrow> utype_wf (f u) \<and> sys (f u) = sys u"
  shows "list_wf us \<Longrightarrow> list_wf (map f us)"
proof -
  assume wf: "list_wf us"
  then have "map sys (map f us) = map sys us" using assms by (auto simp: list_wf_def list_all_iff)
  moreover have "list_all utype_wf (map f us)" using wf assms by (auto simp: list_wf_def list_all_iff)
  ultimately show "list_wf (map f us)" using wf by (simp only: list_wf_def)
qed

lemma loadconfig_wf:
  assumes "loadconfig junk fn file reloading m = Some m'" and "list_wf (firstups m)"
  shows "list_wf (firstups m')"
proof -
  have "utype_wf (u\<lparr>pollfail_log_throttle_count := a, pollfail_log_throttle_state := b\<rparr>) = utype_wf u" for u a b by (simp add: utype_wf_def)
  then have "list_wf (firstups (forget_throttling (m\<lparr>globals := g\<rparr>)))" for g
    using list_wf_map assms(2) by (simp add: forget_throttling_def)
  then show ?thesis
    using assms conf_directives_wf by (fastforce simp: loadconfig_def split: option.splits sum.splits if_splits)
qed

lemma delete_devices_spec: "fst (delete_devices us g) = filter retain us"
  by (induction us arbitrary: g) (auto simp: case_prod_beta)

lemma reload_conf_wf:
  assumes "reload_conf junk fn readable file m = Some m'" and "list_wf (firstups m)"
  shows "list_wf (firstups m')"
proof (cases readable)
  case True
  let ?m = "m\<lparr>firstups := map (\<lambda>u. u\<lparr>retain := False\<rparr>) (firstups m), globals := (globals m)\<lparr>totalpv := 0\<rparr>\<rparr>"
  obtain m1 where m1: "loadconfig junk fn file True ?m = Some m1"
    using assms(1) True by (auto simp: reload_conf_def split: option.splits)
  have "utype_wf (u\<lparr>retain := False\<rparr>) = utype_wf u" for u by (simp add: utype_wf_def)
  then have "list_wf (firstups ?m)" using list_wf_map [OF _ assms(2), of "\<lambda>u. u\<lparr>retain := False\<rparr>"] by simp
  then have "list_wf (firstups m1)" by (rule loadconfig_wf [OF m1])
  then have "list_wf (filter retain (firstups m1))" by (auto simp: list_wf_def list_all_iff distinct_map_filter)
  moreover have "firstups m' = filter retain (firstups m1)"
    using assms(1) True m1 delete_devices_spec [of "firstups m1" "globals m1"]
    by (auto simp: reload_conf_def case_prod_beta split: if_splits)
  ultimately show ?thesis by simp
qed (use assms in \<open>simp add: reload_conf_def\<close>)

lemma poll_and_decide_wf:
  assumes "poll_and_decide cy m = Running m' w" and "list_wf (firstups m)"
  shows "list_wf (firstups m')"
proof -
  obtain us g where p: "each_ups pollups (firstups m) (globals m) = (us, g)" by fastforce
  obtain us1 g1 v where r: "recalc_loop us g 0 = (us1, g1, v)" by (cases "recalc_loop us g 0") auto
  have "list_wf us1"
    using each_ups_keeps_wf [OF pollups_keeps_wf p] recalc_loop_keeps_wf [OF r] assms(2) by (simp add: list_wf_def)
  moreover have "firstups m' = us1"
    using assms(1) p r by (auto simp: poll_and_decide_def recalc_def Let_def split: if_splits)
  ultimately show ?thesis by simp
qed

inductive monitor_reaches :: "monitor \<times> bool \<Rightarrow> bool" where
  loaded: "loadconfig junk fn file False \<lparr>firstups = [], globals = g\<rparr> = Some m \<Longrightarrow> monitor_reaches (m, False)"
| cycled: "monitor_reaches mw \<Longrightarrow> main_cycle junk fn cy mw = Running m w \<Longrightarrow> monitor_reaches (m, w)"

text \<open>
  Property C31: in every state that the monitor reaches from any configuration file, through
  any number of cycles with polls of any outcome, reloads and jumps of the clock, each device
  is listed once, is never both on line and on battery, is logged in only over a connection,
  and the state that outlives a lost connection agrees with its flags.
\<close>

theorem monitor_reaches_wf:
  assumes "monitor_reaches mw"
  shows "list_all utype_wf (firstups (fst mw)) \<and> distinct (map sys (firstups (fst mw)))"
proof -
  from assms have "list_wf (firstups (fst mw))"
  proof (induction rule: monitor_reaches.induct)
    case (loaded junk fn src g m)
    then show ?case using loadconfig_wf [OF loaded] by (simp add: list_wf_def)
  next
    case (cycled mw junk fn cy m w)
    let ?m = "(fst mw)\<lparr>globals := (globals (fst mw))\<lparr>now := cy_now cy, monotonic := cy_monotonic cy\<rparr>\<rparr>"
    have reload: "list_wf (firstups b)" if "reload_or_not junk fn cy due a = Some b" "list_wf (firstups a)" for due a b
      using that reload_conf_wf by (auto simp: reload_or_not_def split: if_splits)
    have wake: "list_wf (firstups (wake_up a))" if "list_wf (firstups a)" for a
      using that by (auto simp: wake_up_def list_wf_def list_all_iff utype_wf_def comp_def)
    obtain m1 m2 where "reload_or_not junk fn cy (cy_reload cy) ?m = Some m1"
      "reload_or_not junk fn cy (snd mw) (if snd mw then wake_up m1 else m1) = Some m2" "poll_and_decide cy m2 = Running m w"
      using cycled.hyps(2) by (auto simp: main_cycle_def Let_def split: if_splits option.splits)
    moreover from this have "list_wf (firstups m1)" using reload [of "cy_reload cy" ?m m1] cycled.IH by simp
    ultimately have "list_wf (firstups m2)" using reload wake by (metis (full_types))
    then show ?case using poll_and_decide_wf \<open>poll_and_decide cy m2 = Running m w\<close> by simp
  qed
  then show ?thesis by (simp add: list_wf_def)
qed

lemma sample_words:
  "conf_words blank_ctx ''upsmon.conf'' (Inr (''MONITOR u@h 1 a b primary'' @ [CHR 10])) =
     Some (Inr [[''MONITOR'', ''u@h'', ''1'', ''a'', ''b'', ''primary'']])"
  by code_simp

lemma strtol_one: "fst (strtol ''1'' 10) = 1"
  by code_simp

theorem monitor_reaches_wf_witness:
  "\<exists>m. monitor_reaches (m, False) \<and> map sys (firstups m) = [''u@h''] \<and>
     list_all utype_wf (firstups m) \<and> distinct (map sys (firstups m))"
proof -
  let ?m = "\<lparr>firstups = [], globals = sample_globals\<rparr>"
  let ?g = "sample_globals\<lparr>totalpv := totalpv sample_globals + 1\<rparr>"
  let ?m1 = "\<lparr>firstups = [new_ups ''u@h'' 1 ''a'' ''b'' ''primary''], globals = ?g\<rparr>"
  have add: "addups False ''u@h'' ''1'' ''a'' ''b'' ''primary'' ?m = ?m1"
    by (simp add: addups_def Let_def new_ups_def strtol_one UINT_MAX_def)
  have "simple_directive [''MONITOR'', ''u@h'', ''1'', ''a'', ''b'', ''primary''] sample_globals = None"
    by (simp add: simple_directive_def Let_def same_nocase_iff) code_simp
  then have "parse_conf_arg False [''MONITOR'', ''u@h'', ''1'', ''a'', ''b'', ''primary''] ?m = Some (True, ?m1)"
    by (simp add: parse_conf_arg_def add)
  then have "loadconfig blank_ctx ''upsmon.conf'' (Inr (''MONITOR u@h 1 a b primary'' @ [CHR 10])) False ?m = Some ?m1"
    by (simp only: loadconfig_def sample_words) simp
  from monitor_reaches.loaded [OF this] have reached: "monitor_reaches (?m1, False)" .
  have "list_all utype_wf (firstups (fst (?m1, False))) \<and> distinct (map sys (firstups (fst (?m1, False))))"
    by (rule monitor_reaches_wf [OF reached])
  then show ?thesis using reached by (intro exI [of _ ?m1]) (simp add: new_ups_def Let_def)
qed

end
