(* ===== verification/UpsmonSpec.thy ===== *)
theory UpsmonSpec
  imports UpsclientSpec UpsmonStatus
begin

text \<open>
  What the shutdown monitor decides: the forced shutdown starts exactly when the power values
  of the UPSes that are not critical are too small, the data servers are told before the
  shutdown command is called, and a low battery that a server reports leads to it.
\<close>

section \<open>The decision\<close>

text \<open>
  When a UPS does not count as a power supply, by the settings \<open>g\<close>: the conditions of the
  documentation, for a clock that is set.
\<close>

definition was_on :: "utype_t \<Rightarrow> 32 word \<Rightarrow> bool" where
  "was_on u F \<longleftrightarrow> flag_isset (status u) F"

definition lost_and_dead :: "gstate \<Rightarrow> utype_t \<Rightarrow> bool" where
  "lost_and_dead g u \<longleftrightarrow> commstate u = 0 \<and>
     ((overstate u = 1 \<or> was_on u ST_OVER) \<and> 0 \<le> overdurationtime g \<and> now g - oversince u \<ge> overdurationtime g \<or>
      (alarmstate u = 1 \<or> was_on u ST_ALARM) \<and> alarmcritical g = 1 \<or>
      was_on u ST_CAL \<or> bypassstate u = 1 \<or> was_on u ST_BYPASS \<or>
      offstate u = 1 \<or> was_on u ST_OFF \<and> 0 \<le> offdurationtime g)"

definition low_battery :: "gstate \<Rightarrow> utype_t \<Rightarrow> bool" where
  "low_battery g u \<longleftrightarrow> was_on u ST_ONBATT \<and> (was_on u ST_LOWBATT \<or> now g - lastpoll u > deadtime g) \<and> \<not> was_on u ST_CAL"

definition waited_enough :: "gstate \<Rightarrow> utype_t \<Rightarrow> bool" where
  "waited_enough g u \<longleftrightarrow>
     (oblbdurationtime g \<le> 0 \<or> oblbsince u \<ge> 1 \<and> now g - oblbsince u \<ge> oblbdurationtime g) \<and>
     (was_on u ST_PRIMARY \<or> now g - lastnoncrit u > hostsync g)"

definition critical :: "gstate \<Rightarrow> utype_t \<Rightarrow> bool" where
  "critical g u \<longleftrightarrow>
     was_on u ST_FSD \<or> lost_and_dead g u \<or>
     was_on u ST_OFF \<and> 0 \<le> offdurationtime g \<and> offstate u = 1 \<or>
     low_battery g u \<and> waited_enough g u"

lemma promote_dead_simps [simp]:
  "snd (promote_dead x) = snd x"
  "pv (fst (promote_dead x)) = pv (fst x)" "commstate (fst (promote_dead x)) = commstate (fst x)"
  "overstate (fst (promote_dead x)) = overstate (fst x)" "alarmstate (fst (promote_dead x)) = alarmstate (fst x)"
  "bypassstate (fst (promote_dead x)) = bypassstate (fst x)" "offstate (fst (promote_dead x)) = offstate (fst x)"
  "oversince (fst (promote_dead x)) = oversince (fst x)" "oblbsince (fst (promote_dead x)) = oblbsince (fst x)"
  "lastnoncrit (fst (promote_dead x)) = lastnoncrit (fst x)" "lastpoll (fst (promote_dead x)) = lastpoll (fst x)"
  "upsname (fst (promote_dead x)) = upsname (fst x)" "conn (fst (promote_dead x)) = conn (fst x)"
  by (simp_all add: promote_dead_def with_flag_def)

lemma promote_dead_flags [simp]:
  "one_bit F \<Longrightarrow> ups_flag (promote_dead x) F \<longleftrightarrow>
     ups_flag x F \<or> F = ST_LOWBATT \<and> now (snd x) - lastpoll (fst x) > deadtime (snd x) \<and> ups_flag x ST_ONBATT"
  by (auto simp: promote_dead_def)

text \<open>The decision changes no setting but the frequency of polling, and no flag.\<close>

definition only_sleepval :: "gstate \<Rightarrow> gstate \<Rightarrow> bool" where
  "only_sleepval g g' \<longleftrightarrow> g' = g\<lparr>sleepval := sleepval g'\<rparr>"

lemma only_sleepval_refl [simp]: "only_sleepval g g" "only_sleepval g (g\<lparr>sleepval := v\<rparr>)"
  by (simp_all add: only_sleepval_def)

lemma only_sleepval_trans: "only_sleepval g g1 \<Longrightarrow> only_sleepval g1 g2 \<Longrightarrow> only_sleepval g g2"
  unfolding only_sleepval_def by (metis gstate.surjective gstate.update_convs(2))

lemma only_sleepval_keeps:
  "only_sleepval g g' \<Longrightarrow> now g' = now g \<and> minsupplies g' = minsupplies g \<and> events g' = events g"
  unfolding only_sleepval_def by (erule ssubst) simp

lemma critical_settings: "only_sleepval g g' \<Longrightarrow> critical g' u = critical g u"
  unfolding only_sleepval_def
  by (erule ssubst) (simp add: critical_def lost_and_dead_def low_battery_def waited_enough_def)

lemma assumed_dead_iff:
  assumes "now g > 0"
  shows "commstate u = 0 \<and> assumed_dead (promote_dead (u, g)) \<longleftrightarrow> lost_and_dead g u"
  using assms by (auto simp: assumed_dead_def Let_def lost_and_dead_def was_on_def)

lemma critical_branches:
  "fst (is_ups_critical x) \<longleftrightarrow>
     ups_flag x ST_FSD \<or> commstate (fst x) = 0 \<and> assumed_dead x \<or>
     ups_flag x ST_OFF \<and> 0 \<le> offdurationtime (snd x) \<and> offstate (fst x) = 1 \<or>
     (ups_flag x ST_ONBATT \<and> ups_flag x ST_LOWBATT \<and> \<not> ups_flag x ST_CAL) \<and>
     \<not> (oblbdurationtime (snd x) > 0 \<and> oblbsince (fst x) < 1 \<and> now (snd x) > 0) \<and>
     \<not> (oblbdurationtime (snd x) > 0 \<and> now (snd x) > 0 \<and> now (snd x) - oblbsince (fst x) < oblbdurationtime (snd x)) \<and>
     (ups_flag x ST_PRIMARY \<or> now (snd x) - lastnoncrit (fst x) > hostsync (snd x))"
  unfolding is_ups_critical_def Let_def if_distrib [of fst] fst_conv by (simp only: if_bool_eq_disj) blast

lemma critical_iff:
  assumes "now g > 0"
  shows "fst (is_ups_critical (promote_dead (u, g))) = critical g u"
proof -
  have "low_battery g u \<longleftrightarrow> ups_flag (promote_dead (u, g)) ST_ONBATT \<and> ups_flag (promote_dead (u, g)) ST_LOWBATT \<and>
      \<not> ups_flag (promote_dead (u, g)) ST_CAL"
    by (auto simp: low_battery_def was_on_def)
  moreover have "waited_enough g u \<longleftrightarrow> \<not> (oblbdurationtime g > 0 \<and> oblbsince u < 1 \<and> now g > 0) \<and>
      \<not> (oblbdurationtime g > 0 \<and> now g > 0 \<and> now g - oblbsince u < oblbdurationtime g) \<and>
      (ups_flag (promote_dead (u, g)) ST_PRIMARY \<or> now g - lastnoncrit u > hostsync g)"
    using assms by (auto simp: waited_enough_def was_on_def)
  moreover note assumed_dead_iff [OF assms, of u]
  ultimately show ?thesis
    by (simp only: critical_branches critical_def promote_dead_simps fst_conv snd_conv) (simp add: was_on_def)
qed

lemma is_ups_critical_spec:
  assumes "now g > 0" and "is_ups_critical (promote_dead (u, g)) = (c, u', g')"
  shows "c = critical g u \<and> only_sleepval g g' \<and> pv u' = pv u \<and> conn u' = conn u \<and> upsname u' = upsname u
    \<and> status u' = status (fst (promote_dead (u, g)))"
proof -
  let ?r = "is_ups_critical (promote_dead (u, g))"
  have "only_sleepval g (snd (snd ?r)) \<and> pv (fst (snd ?r)) = pv u \<and> conn (fst (snd ?r)) = conn u \<and>
      upsname (fst (snd ?r)) = upsname u \<and> status (fst (snd ?r)) = status (fst (promote_dead (u, g)))"
    by (simp add: is_ups_critical_def Let_def)
  then show ?thesis using critical_iff [OF assms(1), of u] assms(2) by simp
qed

definition healthy_power :: "gstate \<Rightarrow> utype_t list \<Rightarrow> 32 word" where
  "healthy_power g us = sum_list (map pv (filter (\<lambda>u. \<not> critical g u) us))"

lemma healthy_power_settings: "only_sleepval g g' \<Longrightarrow> healthy_power g' us = healthy_power g us"
  by (simp add: healthy_power_def critical_settings)

text \<open>What the decision leaves of a UPS.\<close>

definition judged :: "gstate \<Rightarrow> utype_t \<Rightarrow> utype_t \<Rightarrow> bool" where
  "judged g u u' \<longleftrightarrow> pv u' = pv u \<and> conn u' = conn u \<and> upsname u' = upsname u \<and>
     status u' = (if was_on u ST_ONBATT \<and> now g - lastpoll u > deadtime g then setflag (status u) ST_LOWBATT else status u)"

lemma promoted_status:
  "status (fst (promote_dead (u, g))) =
     (if was_on u ST_ONBATT \<and> now g - lastpoll u > deadtime g then setflag (status u) ST_LOWBATT else status u)"
  by (simp add: promote_dead_def with_flag_def was_on_def)

lemma judged_settings: "only_sleepval g g' \<Longrightarrow> judged g' = judged g"
  unfolding only_sleepval_def by (intro ext, erule ssubst) (simp add: judged_def)

lemma recalc_loop_spec:
  "now g > 0 \<Longrightarrow> recalc_loop us g v = (us', g', v') \<Longrightarrow>
     only_sleepval g g' \<and> v' = v + healthy_power g us \<and> list_all2 (judged g) us us'"
proof (induction us arbitrary: g v us' g' v')
  case (Cons u us)
  obtain c u1 g1 where s: "is_ups_critical (promote_dead (u, g)) = (c, u1, g1)" by (cases "is_ups_critical (promote_dead (u, g))") auto
  note spec = is_ups_critical_spec [OF Cons.prems(1) s]
  let ?v = "if c then v else v + pv u1"
  obtain us1 g2 v1 where l: "recalc_loop us g1 ?v = (us1, g2, v1)" by (cases "recalc_loop us g1 ?v") auto
  have "now g1 > 0" using spec Cons.prems(1) only_sleepval_keeps [of g g1] by simp
  then have ih: "only_sleepval g1 g2" "v1 = ?v + healthy_power g1 us" "list_all2 (judged g1) us us1"
    using Cons.IH [OF _ l] by auto
  have "us' = u1 # us1" "g' = g2" "v' = v1" using Cons.prems(2) s l by auto
  moreover have "v1 = v + healthy_power g (u # us)"
    using ih(2) spec healthy_power_settings [of g g1 us] by (simp add: healthy_power_def)
  moreover have "judged g u u1" using spec by (simp add: judged_def promoted_status)
  moreover have "list_all2 (judged g) us us1" using ih(3) spec judged_settings [of g g1] by simp
  ultimately show ?case using spec ih(1) only_sleepval_trans by (metis list.rel_intros(2))
qed (simp add: healthy_power_def)

text \<open>
  Property C19: the forced shutdown starts exactly when the power values of the UPSes that are
  not critical add up to less than \<open>MINSUPPLIES\<close>. Critical is a UPS that reports a forced
  shutdown, one that was lost in a dangerous state, one that is switched off for too long,
  and one on battery that is low, or silent for too long, and not calibrating, once the
  delays of the configuration have passed. Otherwise the program goes on, with no change but
  the mark of a low battery on silent UPSes.
\<close>

theorem recalc_decides:
  assumes "now (globals m) > 0"
  shows "if healthy_power (globals m) (firstups m) < minsupplies (globals m)
    then \<exists>us g. list_all2 (judged (globals m)) (firstups m) us \<and> only_sleepval (globals m) g \<and>
           recalc e m = Inl (forceshutdown e (m\<lparr>firstups := us, globals := g\<rparr>))
    else \<exists>us g. list_all2 (judged (globals m)) (firstups m) us \<and> only_sleepval (globals m) g \<and>
           recalc e m = Inr (m\<lparr>firstups := us, globals := g\<rparr>)"
proof -
  obtain us g v where l: "recalc_loop (firstups m) (globals m) 0 = (us, g, v)" by (cases "recalc_loop (firstups m) (globals m) 0") auto
  note s = recalc_loop_spec [OF assms l]
  have "minsupplies g = minsupplies (globals m)"
    using s only_sleepval_keeps by blast
  then show ?thesis using s l by (auto simp: recalc_def Let_def)
qed

section \<open>The forced shutdown\<close>

text \<open>What is written to a connection stays written.\<close>

definition sent_more :: "UPSCONN_t \<Rightarrow> UPSCONN_t \<Rightarrow> bool" where
  "sent_more c c' \<longleftrightarrow> (\<exists>l. outbox c' = outbox c @ l)"

lemma sent_more_refl [simp]: "sent_more c c"
  by (simp add: sent_more_def)

lemma sent_more_trans: "sent_more a b \<Longrightarrow> sent_more b c \<Longrightarrow> sent_more a c"
  by (auto simp: sent_more_def)

lemma sent_more_outbox [simp]:
  "outbox c' = outbox c \<Longrightarrow> sent_more c c'" "outbox c' = outbox c @ l \<Longrightarrow> sent_more c c'"
  by (simp_all add: sent_more_def)

lemma sent_more_in: "sent_more c c' \<Longrightarrow> l \<in> set (outbox c) \<Longrightarrow> l \<in> set (outbox c')"
  by (auto simp: sent_more_def)

lemma net_read_outbox [simp]: "outbox (snd (net_read c)) = outbox c"
  by (simp add: net_read_def split: list.split net_reading.split)

lemma net_write_more: "sent_more c (snd (Upsclient.net_write b c))"
  by (simp add: Upsclient.net_write_def split: list.split net_writing.split)

lemma disconnect_more: "sent_more c (upscli_disconnect c)"
  using net_write_more [of "c\<lparr>pc_ctx := pconf_finish (pc_ctx c)\<rparr>" "''LOGOUT'' @ [CHR 10]"]
  by (auto simp: upscli_disconnect_def Let_def sent_more_def)

lemma sendline_more: "sent_more c (snd (upscli_sendline b c))"
  using net_write_more [of c b] disconnect_more sent_more_trans
  by (fastforce simp: upscli_sendline_def case_prod_beta split: bool.split)

lemma next_byte_more: "sent_more c (snd (next_byte c))"
  using net_read_outbox [of c] disconnect_more [of "snd (net_read c)"]
  by (cases "net_read c") (auto simp: next_byte_def sent_more_def split: list.split)

lemma read_loop_more: "sent_more c (snd (Upsclient.read_loop room c))"
proof (induction room arbitrary: c)
  case (Suc room)
  show ?case using next_byte_more [of c] Suc.IH [of "snd (next_byte c)"] sent_more_trans
    by (cases "next_byte c") (auto simp: case_prod_beta split: option.split)
qed simp

lemma readline_more: "sent_more c (snd (upscli_readline c))"
  using read_loop_more by (auto simp: upscli_readline_def)

lemma ask_more: "sent_more c (snd (ask l c))"
  using sendline_more [of c "snprintf SMALLBUF (l @ [CHR 10])"] readline_more sent_more_trans
  by (fastforce simp: ask_def case_prod_beta)

lemma errcheck_outbox [simp]: "outbox (snd (upscli_errcheck l c)) = outbox c"
  by (simp add: upscli_errcheck_def split: option.split)

lemma checked_line_more: "sent_more c (snd (checked_line c))"
proof -
  obtain r c1 where l: "upscli_readline c = (r, c1)" by fastforce
  then have c1: "sent_more c c1" using readline_more [of c] by simp
  show ?thesis
  proof (cases r)
    case (Some t)
    obtain e c2 where c2: "upscli_errcheck t c1 = (e, c2)" by fastforce
    then have "outbox c2 = outbox c1" using errcheck_outbox [of t c1] by simp
    then show ?thesis using l c1 c2 Some by (simp add: checked_line_def sent_more_def case_prod_beta)
  qed (use l c1 in \<open>simp add: checked_line_def\<close>)
qed

lemma upscli_get_more: "sent_more c (snd (upscli_get q c))"
proof (cases "q = []")
  case False
  obtain ret c1 where s: "upscli_sendline (build_cmd ''GET'' q) c = (ret, c1)" by fastforce
  then have c1: "sent_more c c1" using sendline_more [of c "build_cmd ''GET'' q"] by simp
  obtain good c2 where l: "checked_line c1 = (good, c2)" by fastforce
  then have c2: "sent_more c c2" using checked_line_more [of c1] c1 sent_more_trans by fastforce
  have "sent_more c (c2\<lparr>upserror := e\<rparr>)" for e using c2 by (simp add: sent_more_def)
  then show ?thesis using False s l c1 c2 by (simp add: upscli_get_def split: bool.split option.split)
qed (simp add: upscli_get_def)

text \<open>What talking to the server leaves of a UPS.\<close>

definition talked :: "utype_t \<Rightarrow> utype_t \<Rightarrow> bool" where
  "talked u u' \<longleftrightarrow> sent_more (conn u) (conn u') \<and> status u' = status u \<and> upsname u' = upsname u"

lemma talked_refl [simp]: "talked u u"
  by (simp add: talked_def)

lemma talked_trans: "talked a b \<Longrightarrow> talked b c \<Longrightarrow> talked a c"
  using sent_more_trans by (auto simp: talked_def)

lemma talked_all_refl [simp]: "list_all2 talked us us"
  by (simp add: list.rel_refl)

lemma talked_all_trans: "list_all2 talked a b \<Longrightarrow> list_all2 talked b c \<Longrightarrow> list_all2 talked a c"
  by (erule (1) list_all2_trans [rotated]) (rule talked_trans)

lemma get_var_talked: "talked u (snd (get_var v u))"
proof -
  have "sent_more (conn u) c" if "upscli_get q (conn u) = (r, c)" for q r c
    using upscli_get_more [of "conn u" q] that by simp
  then show ?thesis
    by (auto simp: get_var_def talked_def Let_def split: option.split prod.split)
qed

lemma max_logins_talked: "list_all2 talked us (snd (max_logins asked m us))"
proof (induction us arbitrary: m)
  case (Cons u us)
  show ?case using Cons get_var_talked [of u "''numlogins''"] by (simp add: case_prod_beta)
qed simp

text \<open>The calls of the shutdown command, by the parent or directly.\<close>

definition is_call :: "event \<Rightarrow> bool" where
  "is_call e = (case e of Parent_called \<Rightarrow> True | System_called c \<Rightarrow> True | _ \<Rightarrow> False)"

definition calls :: "gstate \<Rightarrow> event list" where
  "calls g = filter is_call (events g)"

definition only_notices :: "gstate \<Rightarrow> gstate \<Rightarrow> bool" where
  "only_notices g g' \<longleftrightarrow> (\<exists>es. g' = g\<lparr>events := es\<rparr> \<and> filter is_call es = calls g)"

lemma only_notices_refl [simp]: "only_notices g g"
  by (auto simp: only_notices_def calls_def intro: exI [of _ "events g"])

lemma only_notices_trans: "only_notices a b \<Longrightarrow> only_notices b c \<Longrightarrow> only_notices a c"
  by (auto simp: only_notices_def calls_def)

lemma do_notify_name_notices [simp]: "only_notices g (do_notify_name n k x g)"
  by (cases "find (\<lambda>e. nt_type e = k) (notifylist g)")
    (auto simp: do_notify_name_def only_notices_def calls_def is_call_def Let_def intro: exI [of _ "events g"])

lemma only_notices_keeps:
  "only_notices g g' \<Longrightarrow> use_pipe g' = use_pipe g \<and> shutdowncmd_concat g' = shutdowncmd_concat g \<and> hostsync g' = hostsync g \<and>
     now g' = now g \<and> shutdownexitdelay g' = shutdownexitdelay g \<and> powerdownflag g' = powerdownflag g \<and> calls g' = calls g"
  by (auto simp: only_notices_def calls_def)

definition fsd_line :: "cstring \<Rightarrow> cstring" where
  "fsd_line name = snprintf SMALLBUF (''FSD '' @ name @ [CHR 10])"

definition can_send :: "utype_t \<Rightarrow> bool" where
  "can_send u \<longleftrightarrow> fd_open (conn u) \<and> net_writes (conn u) = []"

lemma ask_sends:
  assumes "fd_open c" and "net_writes c = []"
  shows "snprintf SMALLBUF (l @ [CHR 10]) \<in> set (outbox (snd (ask l c)))"
proof -
  let ?b = "snprintf SMALLBUF (l @ [CHR 10])" and ?c = "c\<lparr>outbox := outbox c @ [snprintf SMALLBUF (l @ [CHR 10])]\<rparr>"
  have "?b \<noteq> []" by (cases l) (simp_all add: snprintf_def SMALLBUF_def)
  then have "ask l c = upscli_readline ?c"
    using assms by (simp add: ask_def upscli_sendline_def Upsclient.net_write_def)
  then show ?thesis using sent_more_in [OF readline_more [of ?c], of ?b] by simp
qed

lemma setfsd_spec:
  assumes "setfsd (u, g) = (u', g')"
  shows "talked u u' \<and> only_notices g g' \<and> (\<forall>n. upsname u = Some n \<and> can_send u \<longrightarrow> fsd_line n \<in> set (outbox (conn u')))"
proof (cases "upsname u")
  case None
  then show ?thesis using assms by (simp add: setfsd_def)
next
  case (Some n)
  obtain r c where a: "ask (''FSD '' @ n) (conn u) = (r, c)" by fastforce
  have "sent_more (conn u) c" "can_send u \<Longrightarrow> fsd_line n \<in> set (outbox c)"
    using ask_more [of "conn u" "''FSD '' @ n"] ask_sends [of "conn u" "''FSD '' @ n"] a
    by (simp_all add: can_send_def fsd_line_def)
  moreover have "conn u' = c \<and> status u' = status u \<and> upsname u' = upsname u \<and> only_notices g g'"
    using assms Some a by (auto simp: setfsd_def Let_def do_notify_def on_ups_def on_globals_def split: if_splits)
  ultimately show ?thesis using Some by (simp add: talked_def)
qed

abbreviation is_primary :: "utype_t \<Rightarrow> bool" where
  "is_primary u \<equiv> flag_isset (status u) ST_PRIMARY"

definition told :: "utype_t \<Rightarrow> utype_t \<Rightarrow> bool" where
  "told u u' \<longleftrightarrow> talked u u' \<and> (\<forall>n. is_primary u \<and> upsname u = Some n \<and> can_send u \<longrightarrow> fsd_line n \<in> set (outbox (conn u')))"

lemma told_talked: "told u v \<Longrightarrow> talked v w \<Longrightarrow> told u w"
  unfolding told_def by (metis sent_more_in talked_def talked_trans)

lemma told_all_talked: "list_all2 told a b \<Longrightarrow> list_all2 talked b c \<Longrightarrow> list_all2 told a c"
  by (erule (1) list_all2_trans [rotated]) (rule told_talked)

lemma each_setfsd:
  "each_ups (\<lambda>x. if ups_flag x ST_PRIMARY then setfsd x else x) us g = (us', g') \<Longrightarrow>
     list_all2 told us us' \<and> only_notices g g'"
proof (induction us arbitrary: g us' g')
  case (Cons u us)
  obtain u1 g1 where u1: "(if ups_flag (u, g) ST_PRIMARY then setfsd (u, g) else (u, g)) = (u1, g1)" by fastforce
  obtain us1 g2 where r: "each_ups (\<lambda>x. if ups_flag x ST_PRIMARY then setfsd x else x) us g1 = (us1, g2)" by fastforce
  have "told u u1 \<and> only_notices g g1" using u1 setfsd_spec [of u g u1 g1] by (auto simp: told_def split: if_splits)
  moreover have "us' = u1 # us1" "g' = g2" using Cons.prems u1 r by simp_all
  ultimately show ?case using Cons.IH [OF r] only_notices_trans by (metis list.rel_intros(2))
qed simp

lemma sync_rounds_spec:
  "sync_rounds start first ts m = Some m' \<Longrightarrow>
     list_all2 talked (firstups m) (firstups m') \<and> only_notices (globals m) (globals m')"
proof (induction start first ts m rule: sync_rounds.induct)
  case (2 start first t ts m)
  obtain k us where k: "max_logins is_primary 0 (firstups m) = (k, us)" by fastforce
  then have us: "list_all2 talked (firstups m) us" using max_logins_talked [of "firstups m" is_primary 0] by simp
  let ?m = "m\<lparr>firstups := us\<rparr>"
  let ?n = "if first then ?m\<lparr>globals := do_notify_name None NOTIFY_SHUTDOWN_HOSTSYNC None (globals m)\<rparr> else ?m"
  show ?case
  proof (cases "k \<le> 1 \<or> difftime t start > hostsync (globals m)")
    case True
    then have "m' = ?m" using "2.prems" by (cases "k \<le> 1") (simp_all add: k)
    then show ?thesis using us by simp
  next
    case False
    then have "sync_rounds start False ts ?n = Some m'" using "2.prems" by (cases first) (simp_all add: k)
    then have n: "list_all2 talked (firstups ?n) (firstups m')" "only_notices (globals ?n) (globals m')"
      using "2.IH" [OF k [symmetric] refl] False by (cases first; simp)+
    have "firstups ?n = us" "only_notices (globals m) (globals ?n)" by simp_all
    then have "list_all2 talked us (firstups m')" "only_notices (globals m) (globals m')"
      using n only_notices_trans [of "globals m" "globals ?n"] by simp_all
    then show ?thesis using talked_all_trans [OF us] by blast
  qed
qed simp


lemma sync_rounds_ends:
  "t \<in> set ts \<Longrightarrow> difftime t start > hostsync (globals m) \<Longrightarrow> \<exists>m'. sync_rounds start first ts m = Some m'"
proof (induction start first ts m rule: sync_rounds.induct)
  case (2 start first s ts m)
  obtain k us where k: "max_logins is_primary 0 (firstups m) = (k, us)" by fastforce
  show ?case
  proof (cases "k \<le> 1 \<or> difftime s start > hostsync (globals m)")
    case False
    then have "t \<in> set ts" using "2.prems" by auto
    then show ?thesis
      using "2.IH" [OF k [symmetric] refl] False "2.prems"(2) only_notices_keeps [OF do_notify_name_notices, of None NOTIFY_SHUTDOWN_HOSTSYNC None "globals m"]
      by (cases first) (simp_all add: k)
  next
    case True
    then show ?thesis by (cases "k \<le> 1") (simp_all add: k)
  qed
qed simp

lemma keep_alive_keeps: "globals (keep_alive start rs m) = globals m \<and> list_all2 talked (firstups m) (firstups (keep_alive start rs m))"
proof (induction start rs m rule: keep_alive.induct)
  case (2 start t exit_flag rs m)
  have "list_all2 talked (firstups m) (snd (max_logins (\<lambda>u. True) 0 (firstups m)))" by (rule max_logins_talked)
  then show ?case using "2.IH" talked_all_trans by (auto simp: Let_def)
qed simp

definition the_call :: "gstate \<Rightarrow> event" where
  "the_call g = (if use_pipe g then Parent_called else System_called (shutdowncmd_concat g))"

lemma doshutdown_spec:
  "calls (globals (doshutdown t rs m)) = calls (globals m) @ [the_call (globals m)] \<and>
   list_all2 talked (firstups m) (firstups (doshutdown t rs m))"
proof -
  let ?g = "do_notify_name None NOTIFY_SHUTDOWN None (log_events [Wall (''Executing automatic power-fail shutdown'' @ [CHR 10])] (globals m))"
  have "calls (log_events [Wall x] g) = calls g" for x g by (simp add: calls_def log_events_def is_call_def)
  then have "calls ?g = calls (globals m)" "the_call ?g = the_call (globals m)"
    using only_notices_keeps [OF do_notify_name_notices [of "log_events [Wall (''Executing automatic power-fail shutdown'' @ [CHR 10])] (globals m)" None NOTIFY_SHUTDOWN None]]
    by (simp_all add: the_call_def log_events_def)
  moreover have "calls (call_shutdown g) = calls g @ [the_call g]" for g
    by (simp add: call_shutdown_def log_events_def calls_def is_call_def the_call_def set_pdflag_def split: option.split)
  ultimately have "calls (call_shutdown ?g) = calls (globals m) @ [the_call (globals m)]" by simp
  then show ?thesis
    using keep_alive_keeps [of t rs "m\<lparr>globals := call_shutdown ?g\<rparr>"] by (simp add: doshutdown_def Let_def)
qed

text \<open>
  Property C20: a forced shutdown comes to its end once the clock passes \<open>HOSTSYNC\<close>, whatever
  the servers and the secondaries do. Before the shutdown command is called, the line
  \<open>FSD\<close> has been written to the server of every UPS this host is the primary of, and
  the command is called exactly once.
\<close>

theorem forced_shutdown_tells_then_calls:
  assumes "t \<in> set (sync_times e)" and "difftime t (now (globals m)) > hostsync (globals m)"
  shows "\<exists>m1 m'. forceshutdown e m = Some m' \<and> m' = doshutdown (call_time e) (alive_rounds e) m1
    \<and> list_all2 told (firstups m) (firstups m1) \<and> calls (globals m1) = calls (globals m)
    \<and> list_all2 told (firstups m) (firstups m')
    \<and> calls (globals m') = calls (globals m) @ [if use_pipe (globals m) then Parent_called else System_called (shutdowncmd_concat (globals m))]"
proof -
  obtain us g where f: "each_ups (\<lambda>x. if ups_flag x ST_PRIMARY then setfsd x else x) (firstups m) (globals m) = (us, g)" by fastforce
  let ?m = "m\<lparr>firstups := us, globals := g\<rparr>"
  have us: "list_all2 told (firstups m) us" "only_notices (globals m) g" using each_setfsd [OF f] by auto
  have "\<exists>m1. forceshutdown e m = Some (doshutdown (call_time e) (alive_rounds e) m1) \<and>
      list_all2 talked us (firstups m1) \<and> only_notices g (globals m1)"
  proof (cases "list_ex is_primary (firstups m)")
    case True
    obtain m1 where m1: "sync_secondaries (sync_times e) ?m = Some m1"
      using sync_rounds_ends [OF assms(1), of ?m "now g"] assms(2) only_notices_keeps [OF us(2)] by (auto simp: sync_secondaries_def)
    then show ?thesis using f True sync_rounds_spec [of "now g" True "sync_times e" ?m m1]
      by (auto simp: forceshutdown_def Let_def sync_secondaries_def)
  next
    case False
    then show ?thesis using f by (intro exI [of _ ?m]) (simp add: forceshutdown_def Let_def)
  qed
  then obtain m1 where m1: "forceshutdown e m = Some (doshutdown (call_time e) (alive_rounds e) m1)"
    "list_all2 talked us (firstups m1)" "only_notices g (globals m1)" by blast
  let ?m' = "doshutdown (call_time e) (alive_rounds e) m1"
  have keep: "only_notices (globals m) (globals m1)" by (rule only_notices_trans [OF us(2) m1(3)])
  have "list_all2 told (firstups m) (firstups m1)" by (rule told_all_talked [OF us(1) m1(2)])
  moreover from this have "list_all2 told (firstups m) (firstups ?m')"
    using doshutdown_spec told_all_talked by blast
  moreover have "calls (globals m1) = calls (globals m)" "the_call (globals m1) = the_call (globals m)"
    using only_notices_keeps [OF keep] by (simp_all add: the_call_def)
  ultimately show ?thesis using m1(1) doshutdown_spec [of "call_time e" "alive_rounds e" m1] by (auto simp: the_call_def)
qed

text \<open>One connected device on battery, which is low.\<close>

definition sample_monitor :: monitor where
  "sample_monitor =
     \<lparr>firstups = [sample_ups\<lparr>status := setflag (setflag (status sample_ups) ST_ONBATT) ST_LOWBATT, commstate := 1, lastpoll := 998,
         conn := (no_conn 0)\<lparr>fd_open := True\<rparr>\<rparr>],
      globals = sample_globals\<rparr>"

definition sample_ending :: ending where
  "sample_ending = \<lparr>sync_times = [1001, 1100], call_time = 1105, alive_rounds = [(1110, True)]\<rparr>"

lemma sample_critical: "healthy_power (globals sample_monitor) (firstups sample_monitor) = 0"
  by (simp add: healthy_power_def critical_def low_battery_def waited_enough_def was_on_def sample_monitor_def
      sample_globals_def sample_ups_def new_ups_def Let_def managerial_def same_nocase_iff)

theorem recalc_decides_witness:
  "\<exists>us g. recalc sample_ending sample_monitor = Inl (forceshutdown sample_ending (sample_monitor\<lparr>firstups := us, globals := g\<rparr>))
     \<and> list_all2 (judged (globals sample_monitor)) (firstups sample_monitor) us"
proof -
  have "now (globals sample_monitor) > 0" "minsupplies (globals sample_monitor) = 1"
    by (simp_all add: sample_monitor_def sample_globals_def)
  then show ?thesis using recalc_decides [of sample_monitor sample_ending] sample_critical by auto
qed

lemma sample_name: "map_option fst (upscli_splitname NUT_PORT ''ups@localhost'') = Some ''ups''"
  by code_simp

theorem forced_shutdown_tells_then_calls_witness:
  "\<exists>(u :: utype_t) (m1 :: monitor) m'. forceshutdown sample_ending sample_monitor = Some m' \<and> firstups m1 = [u]
     \<and> fsd_line ''ups'' \<in> set (outbox (conn u)) \<and> calls (globals m1) = [] \<and> calls (globals m') = [Parent_called]"
proof -
  have late: "1100 \<in> set (sync_times sample_ending)" "difftime 1100 (now (globals sample_monitor)) > hostsync (globals sample_monitor)"
    and call: "calls (globals sample_monitor) = []" "use_pipe (globals sample_monitor)"
    by (simp_all add: sample_ending_def sample_monitor_def sample_globals_def difftime_def calls_def)
  from forced_shutdown_tells_then_calls [OF late] obtain m1 m' :: monitor where m: "forceshutdown sample_ending sample_monitor = Some m'"
    "list_all2 told (firstups sample_monitor) (firstups m1)" "calls (globals m1) = []" "calls (globals m') = [Parent_called]"
    unfolding call(1) eqTrueI [OF call(2)] if_True append_Nil by blast
  let ?u = "hd (firstups sample_monitor)"
  have u: "is_primary ?u" "upsname ?u = Some ''ups''" "can_send ?u"
    by (simp_all add: sample_monitor_def sample_ups_def new_ups_def Let_def sample_name can_send_def no_conn_def
        managerial_def same_nocase_iff)
  have "firstups sample_monitor = [?u]" by (simp add: sample_monitor_def)
  then obtain v :: utype_t where "firstups m1 = [v]" "told ?u v" using m(2) by (metis list_all2_Cons1 list_all2_Nil)
  then have "fsd_line ''ups'' \<in> set (outbox (conn v))" using u unfolding told_def by blast
  then show ?thesis using m \<open>firstups m1 = [v]\<close> by blast
qed

end
