(* ===== verification/Upssched.thy ===== *)
theory Upssched
  imports ConfFile Str
begin

text \<open>
  The timers of the scheduler (\<open>src/clients/upssched.c\<close>): the daemon with its queue of timers
  and its connections, and the short process that \<open>upsmon\<close> runs for each notification, which
  turns the rules of \<open>upssched.conf\<close> into commands for the daemon.

  The clock is part of the state of the daemon. What a connection delivers and whether a write
  to it succeeds are part of the connection. \<open>execs\<close> logs the runs of the command script,
  \<open>requests\<close> the words of each command that was read,
  \<open>replies\<close> what was written to each connection. \<open>tainted\<close> tells that memory was used that was
  freed, or that is behind the end of an array: from then on the behaviour of the program is
  undefined, the model goes on as if the memory had kept its contents.
\<close>

section \<open>The daemon: its state\<close>

text \<open>The lists of labels are arrays, \<open>NULL\<close> when empty.\<close>

record ttype_t =
  tm_name :: cstring
  etime :: int
  upsnames :: "cstring list"
  notifytypes :: "cstring list"
  notifymsgs :: "cstring list"

text \<open>One \<open>read\<close> of one byte: a byte, nothing yet, nothing with or without signs of a closed peer, an error.\<close>

datatype byte_read = Read_byte char | Read_again | Read_zero bool | Read_error

record conn_t =
  us_fd :: nat
  us_ctx :: PCONF_CTX_t
  us_input :: "byte_read list"
  us_writes :: "bool list"

text \<open>The variables for the script: \<open>UPSNAME\<close>, \<open>NOTIFYTYPE\<close>, \<open>NOTIFYMSG\<close>.\<close>

type_synonym script_env = "cstring option \<times> cstring option \<times> cstring option"

record sched =
  thead :: "ttype_t list"
  connhead :: "conn_t list"
  emptyctr :: nat
  cmdscript_argv :: "cstring list"
  time_now :: int
  execs :: "(cstring list \<times> script_env) list"
  replies :: "(nat \<times> cstring) list"
  requests :: "cstring list list"
  tainted :: bool
  exited :: bool

definition EMPTY_WAIT :: nat where "EMPTY_WAIT = 15"
definition US_SOCK_BUF_LEN :: nat where "US_SOCK_BUF_LEN = 256"
definition US_MAX_READ :: nat where "US_MAX_READ = 128"
definition MAX_TRIES :: nat where "MAX_TRIES = 30"
definition LARGEBUF :: nat where "LARGEBUF = 1024"

definition taint :: "bool \<Rightarrow> sched \<Rightarrow> sched" where
  "taint b d = d\<lparr>tainted := tainted d \<or> b\<rparr>"

section \<open>Running the script\<close>

definition exec_cmd :: "cstring \<Rightarrow> script_env \<Rightarrow> sched \<Rightarrow> sched" where
  "exec_cmd cmd env d =
     (if cmdscript_argv d = [] then d else d\<lparr>execs := execs d @ [(cmdscript_argv d @ [cmd], env)]\<rparr>)"

text \<open>
  \<open>collect_string\<close> joins the labels in a buffer that grows. Its state: the text up to the
  first NUL byte, the place of the next write, the size of the buffer, the number of labels.
  The room for a write is one byte less than the test for overflow assumes.
\<close>

function room :: "nat \<Rightarrow> nat \<Rightarrow> nat" where
  "room need bufsize = (if need < bufsize then bufsize else room need (bufsize + LARGEBUF))"
  by pat_completeness auto
termination
  by (relation "measure (\<lambda>(need, b). need + 1 - b)") (auto simp: LARGEBUF_def)

declare room.simps [simp del]

definition collect_one :: "cstring \<Rightarrow> cstring \<Rightarrow> cstring \<times> nat \<times> nat \<times> nat \<Rightarrow> cstring \<times> nat \<times> nat \<times> nat" where
  "collect_one sep s st =
     (case st of (buf, prevlen, bufsize, count) \<Rightarrow>
        let text_s = (if count = 0 then [] else sep) @ s;
            size = room (length text_s + prevlen) bufsize
        in (if length buf = prevlen then buf @ snprintf (size - prevlen - 1) text_s else buf,
            prevlen + length text_s, size, count + 1))"

definition collect_string :: "cstring list \<Rightarrow> cstring \<Rightarrow> cstring option" where
  "collect_string arr sep =
     (if arr = [] \<or> hd arr = [] then None
      else Some (fst (fold (collect_one sep) (takeWhile (\<lambda>s. s \<noteq> []) arr) ([], 0, SMALLBUF, 0))))"

definition exec_cmd_timer :: "ttype_t \<Rightarrow> sched \<Rightarrow> sched" where
  "exec_cmd_timer t d =
     (if tm_name t = [] then d
      else exec_cmd (tm_name t)
             (collect_string (upsnames t) '','', collect_string (notifytypes t) '','',
              collect_string (notifymsgs t) [CHR ''.'', CHR 9]) d)"

section \<open>The queue\<close>

fun check_each :: "ttype_t list \<Rightarrow> sched \<Rightarrow> ttype_t list \<times> sched" where
  "check_each [] d = ([], d)"
| "check_each (t # ts) d =
     (if time_now d \<ge> etime t then check_each ts (exec_cmd_timer t d)
      else (case check_each ts d of (us, d1) \<Rightarrow> (t # us, d1)))"

definition checktimers :: "sched \<Rightarrow> sched" where
  "checktimers d =
     (if thead d = [] then
        (let d1 = d\<lparr>emptyctr := emptyctr d + 1\<rparr> in
         if emptyctr d1 < EMPTY_WAIT then d1 else d1\<lparr>exited := True\<rparr>)
      else (case check_each (thead d) (d\<lparr>emptyctr := 0\<rparr>) of (ts, d1) \<Rightarrow> d1\<lparr>thead := ts\<rparr>))"

text \<open>
  A further label for a shared timer. The array is reallocated with as many bytes as it should
  have entries: the entry is stored behind its end.
\<close>

definition add_label :: "cstring \<Rightarrow> cstring list \<Rightarrow> cstring list" where
  "add_label s ls = (if s = [] \<or> s \<in> set ls then ls else ls @ [s])"

definition label_overflows :: "cstring \<Rightarrow> cstring list \<Rightarrow> bool" where
  "label_overflows s ls \<longleftrightarrow> s \<noteq> [] \<and> ls \<noteq> [] \<and> s \<notin> set ls"

definition share :: "cstring \<Rightarrow> cstring \<Rightarrow> cstring \<Rightarrow> ttype_t \<Rightarrow> ttype_t" where
  "share ntype un msg t =
     t\<lparr>notifytypes := add_label ntype (notifytypes t), notifymsgs := add_label msg (notifymsgs t),
       upsnames := add_label un (upsnames t)\<rparr>"

definition share_overflows :: "cstring \<Rightarrow> cstring \<Rightarrow> cstring \<Rightarrow> ttype_t \<Rightarrow> bool" where
  "share_overflows ntype un msg t \<longleftrightarrow>
     label_overflows ntype (notifytypes t) \<or> label_overflows msg (notifymsgs t) \<or> label_overflows un (upsnames t)"

fun share_first :: "(ttype_t \<Rightarrow> ttype_t) \<Rightarrow> cstring \<Rightarrow> ttype_t list \<Rightarrow> ttype_t list" where
  "share_first f name [] = []"
| "share_first f name (t # ts) = (if tm_name t = name then f t # ts else t # share_first f name ts)"

definition new_timer :: "cstring \<Rightarrow> int \<Rightarrow> cstring \<Rightarrow> cstring \<Rightarrow> cstring \<Rightarrow> ttype_t" where
  "new_timer name when ntype un msg =
     \<lparr>tm_name = name, etime = when, upsnames = add_label un [], notifytypes = add_label ntype [], notifymsgs = add_label msg []\<rparr>"

text \<open>The sum with the clock is one of signed integers: behind \<open>LONG_MAX\<close> it is undefined.\<close>

definition start_timer :: "cstring \<Rightarrow> cstring \<Rightarrow> cstring \<Rightarrow> cstring \<Rightarrow> cstring \<Rightarrow> bool \<Rightarrow> sched \<Rightarrow> sched" where
  "start_timer name ofsstr ntype un msg shared_timer d =
     (let ofs = fst (strtol ofsstr 10) in
      if ofs < 0 then d
      else case (if shared_timer then find (\<lambda>t. tm_name t = name) (thead d) else None) of
        Some t \<Rightarrow> taint (share_overflows ntype un msg t) (d\<lparr>thead := share_first (share ntype un msg) name (thead d)\<rparr>)
      | None \<Rightarrow> taint (time_now d + ofs > LONG_MAX)
                 (d\<lparr>thead := thead d @ [new_timer name (time_now d + ofs) ntype un msg]\<rparr>))"

text \<open>A constraint of the caller that is not given is \<open>None\<close>.\<close>

definition no_text :: "cstring option \<Rightarrow> bool" where
  "no_text s \<longleftrightarrow> s = None \<or> s = Some []"

definition label_matches :: "cstring option \<Rightarrow> cstring list \<Rightarrow> bool" where
  "label_matches s ls \<longleftrightarrow> (case s of None \<Rightarrow> True | Some w \<Rightarrow> w \<in> set ls)"

definition cancels :: "cstring \<Rightarrow> cstring option \<Rightarrow> cstring option \<Rightarrow> bool \<Rightarrow> ttype_t \<Rightarrow> bool" where
  "cancels name ntype un do_cancel_matched t \<longleftrightarrow>
     tm_name t = name \<and>
     (\<not> do_cancel_matched \<or> no_text ntype \<and> no_text un \<or>
      label_matches ntype (notifytypes t) \<and> label_matches un (upsnames t))"

text \<open>The loop goes on from a timer that it has just freed.\<close>

definition cancel_timer ::
  "cstring \<Rightarrow> cstring option \<Rightarrow> cstring option \<Rightarrow> cstring option \<Rightarrow> bool \<Rightarrow> sched \<Rightarrow> sched" where
  "cancel_timer name cname ntype un do_cancel_matched d =
     (let hit = cancels name ntype un do_cancel_matched in
      if list_ex hit (thead d) then taint True (d\<lparr>thead := filter (\<lambda>t. \<not> hit t) (thead d)\<rparr>)
      else if no_text cname then d
      else exec_cmd (the cname) (None, None, None) d)"

section \<open>Connections\<close>

definition find_conn :: "nat \<Rightarrow> sched \<Rightarrow> conn_t option" where
  "find_conn fd d = find (\<lambda>c. us_fd c = fd) (connhead d)"

definition upd_conn :: "nat \<Rightarrow> (conn_t \<Rightarrow> conn_t) \<Rightarrow> sched \<Rightarrow> sched" where
  "upd_conn fd f d = d\<lparr>connhead := map (\<lambda>c. if us_fd c = fd then f c else c) (connhead d)\<rparr>"

definition conn_del :: "nat \<Rightarrow> sched \<Rightarrow> sched" where
  "conn_del fd d = d\<lparr>connhead := filter (\<lambda>c. us_fd c \<noteq> fd) (connhead d)\<rparr>"

text \<open>A write that fails frees the connection; to write again then uses freed memory.\<close>

definition send_to_one :: "nat \<Rightarrow> cstring \<Rightarrow> sched \<Rightarrow> sched" where
  "send_to_one fd msg d =
     (case find_conn fd d of
        None \<Rightarrow> taint True d
      | Some c \<Rightarrow>
          let ok = (us_writes c = [] \<or> hd (us_writes c));
              d1 = upd_conn fd (\<lambda>c. c\<lparr>us_writes := tl (us_writes c)\<rparr>) d
          in if ok then d1\<lparr>replies := replies d1 @ [(fd, snprintf US_SOCK_BUF_LEN msg)]\<rparr> else conn_del fd d1)"

text \<open>The connection that a client opens, with what it will send.\<close>

definition conn_add :: "PCONF_CTX_t \<Rightarrow> nat \<times> byte_read list \<times> bool list \<Rightarrow> sched \<Rightarrow> sched" where
  "conn_add junk peer d =
     (case peer of (fd, input, writes) \<Rightarrow>
        d\<lparr>connhead := connhead d @ [\<lparr>us_fd = fd, us_ctx = pconf_init junk, us_input = input, us_writes = writes\<rparr>]\<rparr>)"

text \<open>A whole number in the format \<open>%g\<close>: six digits, an exponent from a million on.\<close>

definition exp_dec :: "nat \<Rightarrow> cstring" where
  "exp_dec e = (if e < 10 then ''0'' else []) @ nat_dec e"

definition round_even :: "nat \<Rightarrow> nat \<Rightarrow> nat" where
  "round_even n k = (let q = n div k; r = n mod k in if 2 * r > k \<or> 2 * r = k \<and> odd q then q + 1 else q)"

definition fmt_g_nat :: "nat \<Rightarrow> cstring" where
  "fmt_g_nat n =
     (if n < 10 ^ 6 then nat_dec n
      else let e = length (nat_dec n) - 1; m0 = round_even n (10 ^ (e - 5));
               m = (if m0 = 10 ^ 6 then 10 ^ 5 else m0); e1 = (if m0 = 10 ^ 6 then e + 1 else e);
               ds = nat_dec m; frac = rev (dropWhile (\<lambda>c. c = CHR ''0'') (rev (tl ds)))
           in [hd ds] @ (if frac = [] then [] else CHR ''.'' # frac) @ ''e+'' @ exp_dec e1)"

definition fmt_g :: "int \<Rightarrow> cstring" where
  "fmt_g i = (if i < 0 then CHR ''-'' # fmt_g_nat (nat (- i)) else fmt_g_nat (nat i))"

definition shown_labels :: "cstring list \<Rightarrow> cstring \<Rightarrow> cstring" where
  "shown_labels ls sep =
     (case collect_string ls sep of Some s \<Rightarrow> if s = [] then [CHR 34, CHR 34] else s | None \<Rightarrow> [CHR 34, CHR 34])"

definition list_timer :: "nat \<Rightarrow> ttype_t \<Rightarrow> sched \<Rightarrow> sched" where
  "list_timer fd t d =
     (let d1 = send_to_one fd (tm_name t @ [CHR 9] @ int_dec (etime t) @ [CHR 9] @ fmt_g (difftime (etime t) (time_now d)) @ [CHR 9]) d;
          d2 = send_to_one fd (shown_labels (notifytypes t) '','' @ [CHR 9]) d1;
          d3 = send_to_one fd (shown_labels (upsnames t) '','' @ [CHR 9]) d2
      in send_to_one fd (shown_labels (notifymsgs t) [CHR ''.'', CHR 9] @ [CHR 10]) d3)"

definition list_timers :: "nat \<Rightarrow> sched \<Rightarrow> sched" where
  "list_timers fd d =
     (let d1 = fold (list_timer fd) (thead d) (send_to_one fd (''BEGIN LIST TIMERS'' @ [CHR 10]) d);
          d2 = send_to_one fd (''END LIST TIMERS'' @ [CHR 10]) d1
      in send_to_one fd (''OK'' @ [CHR 10]) d2)"

section \<open>Commands\<close>

definition say_ok :: "nat \<Rightarrow> sched \<Rightarrow> bool \<times> sched" where
  "say_ok fd d = (True, send_to_one fd (''OK'' @ [CHR 10]) d)"

text \<open>A cancellation without a name reads behind the words of the line.\<close>

definition cancel_arg :: "nat \<Rightarrow> bool \<Rightarrow> cstring list \<Rightarrow> sched \<Rightarrow> sched" where
  "cancel_arg fd do_cancel_matched arg d =
     (if length arg < 2 then taint True d
      else if length arg < 3 then cancel_timer (arg ! 1) None None None do_cancel_matched d
      else if length arg < 6 then cancel_timer (arg ! 1) (Some (arg ! 2)) None None do_cancel_matched d
      else cancel_timer (arg ! 1) (Some (arg ! 2)) (Some (arg ! 3)) (Some (arg ! 4)) do_cancel_matched d)"

definition sock_arg :: "nat \<Rightarrow> cstring list \<Rightarrow> sched \<Rightarrow> bool \<times> sched" where
  "sock_arg fd arg d =
     (if length arg < 1 then (False, d)
      else if arg ! 0 = ''LIST-TIMERS'' then (True, list_timers fd d)
      else if arg ! 0 = ''CANCEL'' \<or> arg ! 0 = ''CANCEL-MATCHED''
        then say_ok fd (cancel_arg fd (arg ! 0 = ''CANCEL-MATCHED'') arg d)
      else if length arg < 6 then (False, d)
      else if arg ! 0 = ''START'' then say_ok fd (start_timer (arg ! 1) (arg ! 2) (arg ! 3) (arg ! 4) (arg ! 5) False d)
      else if arg ! 0 = ''START-SHARED'' then say_ok fd (start_timer (arg ! 1) (arg ! 2) (arg ! 3) (arg ! 4) (arg ! 5) True d)
      else (False, d))"

text \<open>At most \<open>US_MAX_READ\<close> bytes, and one command. Without a further outcome nothing has arrived yet.\<close>

fun read_loop :: "nat \<Rightarrow> nat \<Rightarrow> sched \<Rightarrow> int \<times> sched" where
  "read_loop 0 fd d = (0, d)"
| "read_loop (Suc n) fd d =
     (case find_conn fd d of
        None \<Rightarrow> (0, d)
      | Some c \<Rightarrow>
          case us_input c of
            [] \<Rightarrow> (0, d)
          | r # rs \<Rightarrow>
              let d1 = upd_conn fd (\<lambda>c. c\<lparr>us_input := rs\<rparr>) d in
              case r of
                Read_again \<Rightarrow> (0, d1)
              | Read_error \<Rightarrow> (- 1, d1)
              | Read_zero closed \<Rightarrow> if closed \<or> n = 0 then (- 1, d1) else read_loop n fd d1
              | Read_byte ch \<Rightarrow>
                  (case pconf_char (us_ctx c) ch of
                     (ret, ctx) \<Rightarrow>
                       let d2 = upd_conn fd (\<lambda>c. c\<lparr>us_ctx := ctx\<rparr>) d1 in
                       if ret = 0 then read_loop n fd d2
                       else if ret = - 1 then (0, d2)
                       else case sock_arg fd (ctx_args ctx) (d2\<lparr>requests := requests d2 @ [ctx_args ctx]\<rparr>) of
                         (used, d3) \<Rightarrow> (1, if used then d3 else send_to_one fd (''ERR UNKNOWN'' @ [CHR 10]) d3)))"

definition sock_read :: "nat \<Rightarrow> sched \<Rightarrow> int \<times> sched" where
  "sock_read fd d = read_loop US_MAX_READ fd d"

section \<open>The loop of the daemon\<close>

text \<open>One round: the time, a new connection, and which connections are ready.\<close>

record round_in =
  rd_now :: int
  rd_peer :: "(nat \<times> byte_read list \<times> bool list) option"
  rd_ready :: "nat list"

definition serve_conn :: "round_in \<Rightarrow> nat \<Rightarrow> sched \<Rightarrow> sched" where
  "serve_conn r fd d =
     (if fd \<in> set (rd_ready r)
      then (case sock_read fd d of (ret, d1) \<Rightarrow> if ret < 0 then conn_del fd d1 else d1) else d)"

definition daemon_round :: "PCONF_CTX_t \<Rightarrow> round_in \<Rightarrow> sched \<Rightarrow> sched" where
  "daemon_round junk r d =
     (if exited d then d
      else let d0 = d\<lparr>time_now := rd_now r\<rparr>;
               d1 = (case rd_peer r of None \<Rightarrow> d0 | Some p \<Rightarrow> conn_add junk p d0)
           in checktimers (fold (serve_conn r) (map us_fd (connhead d1)) d1))"

section \<open>The caller\<close>

text \<open>
  What a try to reach the daemon meets: a daemon, with the outcome of the exchange (a write
  that fails, or the bytes of the answer), no daemon and a free lock, or a lock that is held.
\<close>

datatype exchange = Write_fails | Answer cstring

datatype contact = Daemon_there exchange | Lock_free | Lock_held

datatype parent = Reached exchange | Parent_started | Parent_unnecessary | Parent_failed

record caller =
  ups_name :: cstring
  notify_type :: cstring
  notify_msg :: "cstring option"
  contacts :: "contact list"
  transmitted :: "cstring list"
  at_argv :: "cstring list"
  at_execs :: "cstring list list"
  pipefn :: "cstring option"
  lockfn :: "cstring option"

fun check_parent :: "nat \<Rightarrow> cstring \<Rightarrow> cstring option \<Rightarrow> contact list \<Rightarrow> parent \<times> contact list" where
  "check_parent 0 cmd arg2 cs = (Parent_failed, cs)"
| "check_parent (Suc n) cmd arg2 [] = (Parent_failed, [])"
| "check_parent (Suc n) cmd arg2 (c # cs) =
     (case c of
        Daemon_there e \<Rightarrow> (Reached e, cs)
      | _ \<Rightarrow>
          if cmd = ''CANCEL'' \<and> arg2 = None then (Parent_unnecessary, cs)
          else if c = Lock_free then (Parent_started, cs)
          else check_parent n cmd arg2 cs)"

definition request :: "caller \<Rightarrow> cstring \<Rightarrow> cstring \<Rightarrow> cstring option \<Rightarrow> cstring" where
  "request a cmd arg1 arg2 =
     (let enc = (\<lambda>s. [CHR 34] @ pconf_encode s [] (LARGEBUF + 8) @ [CHR 34]);
          opt = (\<lambda>s. case s of None \<Rightarrow> [CHR 34, CHR 34] | Some w \<Rightarrow> enc w);
          b0 = snprintf LARGEBUF (cmd @ '' '' @ enc arg1);
          b1 = snprintfcat b0 LARGEBUF ('' '' @ opt arg2);
          b2 = snprintfcat b1 LARGEBUF ('' '' @ enc (notify_type a));
          b3 = snprintfcat b2 LARGEBUF ('' '' @ enc (ups_name a));
          b4 = snprintfcat b3 LARGEBUF ('' '' @ opt (notify_msg a))
      in snprintf (LARGEBUF + 8) (b4 @ [CHR 10]))"

text \<open>\<open>None\<close>: the process ends with a fatal error.\<close>

fun send_tries :: "nat \<Rightarrow> cstring \<Rightarrow> cstring option \<Rightarrow> cstring \<Rightarrow> caller \<Rightarrow> caller option" where
  "send_tries 0 cmd arg2 line a = None"
| "send_tries (Suc n) cmd arg2 line a =
     (case check_parent MAX_TRIES cmd arg2 (contacts a) of
        (p, cs) \<Rightarrow>
          let a1 = a\<lparr>contacts := cs\<rparr> in
          case p of
            Parent_failed \<Rightarrow> None
          | Parent_started \<Rightarrow> send_tries n cmd arg2 line a1
          | Parent_unnecessary \<Rightarrow> Some a1
          | Reached Write_fails \<Rightarrow> send_tries n cmd arg2 line a1
          | Reached (Answer buf) \<Rightarrow>
              let a2 = a1\<lparr>transmitted := transmitted a1 @ [line]\<rparr> in
              if take 2 buf = ''OK'' then Some a2 else send_tries n cmd arg2 line a2)"

definition sendcmd :: "cstring \<Rightarrow> cstring \<Rightarrow> cstring option \<Rightarrow> caller \<Rightarrow> caller option" where
  "sendcmd cmd arg1 arg2 a = send_tries MAX_TRIES cmd arg2 (request a cmd arg1 arg2) a"

definition parse_at :: "cstring \<Rightarrow> cstring \<Rightarrow> cstring \<Rightarrow> cstring \<Rightarrow> cstring option \<Rightarrow> caller \<Rightarrow> caller option" where
  "parse_at ntype un cmd ca1 ca2 a =
     (if at_argv a = [] \<or> pipefn a = None \<or> lockfn a = None then None
      else if ups_name a \<noteq> un \<and> un \<noteq> ''*'' then Some a
      else if \<not> same_nocase (notify_type a) ntype then Some a
      else if cmd = ''START-TIMER'' then sendcmd ''START'' ca1 ca2 a
      else if cmd = ''START-TIMER-SHARED'' then sendcmd ''START-SHARED'' ca1 ca2 a
      else if cmd = ''CANCEL-TIMER'' then sendcmd ''CANCEL'' ca1 ca2 a
      else if cmd = ''EXECUTE'' then
        Some (if ca1 = [] then a else a\<lparr>at_execs := at_execs a @ [at_argv a @ [ca1]]\<rparr>)
      else Some a)"

text \<open>Whether the line was understood. \<open>DEBUG_MIN\<close> only changes the verbosity.\<close>

definition conf_arg :: "cstring list \<Rightarrow> caller \<Rightarrow> (bool \<times> caller) option" where
  "conf_arg arg a =
     (if length arg < 2 then Some (False, a)
      else if arg ! 0 = ''CMDSCRIPT'' then Some (True, a\<lparr>at_argv := tl arg\<rparr>)
      else if arg ! 0 = ''DEBUG_MIN'' then Some (True, a)
      else if arg ! 0 = ''PIPEFN'' then Some (True, a\<lparr>pipefn := Some (arg ! 1)\<rparr>)
      else if arg ! 0 = ''LOCKFN'' then Some (True, a\<lparr>lockfn := Some (arg ! 1)\<rparr>)
      else if length arg < 5 then Some (False, a)
      else if arg ! 0 = ''AT'' then
        map_option (Pair True) (parse_at (arg ! 1) (arg ! 2) (arg ! 3) (arg ! 4) (if length arg > 5 then Some (arg ! 5) else None) a)
      else Some (False, a))"

fun conf_lines :: "cstring list list \<Rightarrow> caller \<Rightarrow> caller option" where
  "conf_lines [] a = Some a"
| "conf_lines (l # ls) a =
     (if l = [] then conf_lines ls a
      else case conf_arg l a of None \<Rightarrow> None | Some (used, a1) \<Rightarrow> conf_lines ls a1)"

definition checkconf :: "PCONF_CTX_t \<Rightarrow> cstring \<Rightarrow> cstring + cstring \<Rightarrow> caller \<Rightarrow> caller option" where
  "checkconf junk fn file a =
     (case conf_words junk fn file of Some (Inr ls) \<Rightarrow> conf_lines ls a | _ \<Rightarrow> None)"

end
