(* ===== verification/UpsschedSpec.thy ===== *)
theory UpsschedSpec
  imports Upssched LineRender
begin

text \<open>
  What the timers of the scheduler promise: a rule of the configuration reaches the queue of
  the daemon with its words intact, a timer that nobody cancels runs its command at the first
  check at or after its time, once, and a cancellation removes the timers of that name only.
\<close>

section \<open>The check of the queue\<close>

definition due :: "int \<Rightarrow> ttype_t \<Rightarrow> bool" where
  "due t u \<longleftrightarrow> t \<ge> etime u"

definition script_run :: "cstring list \<Rightarrow> ttype_t \<Rightarrow> cstring list \<times> script_env" where
  "script_run argv t =
     (argv @ [tm_name t],
      (collect_string (upsnames t) '','', collect_string (notifytypes t) '','', collect_string (notifymsgs t) [CHR ''.'', CHR 9]))"

definition runs_of :: "cstring list \<Rightarrow> ttype_t list \<Rightarrow> (cstring list \<times> script_env) list" where
  "runs_of argv ts = (if argv = [] then [] else map (script_run argv) (filter (\<lambda>t. tm_name t \<noteq> []) ts))"

lemma exec_cmd_timer_run: "exec_cmd_timer t d = d\<lparr>execs := execs d @ runs_of (cmdscript_argv d) [t]\<rparr>"
  by (simp add: exec_cmd_timer_def exec_cmd_def runs_of_def script_run_def)

lemma runs_of_Cons: "runs_of argv (t # ts) = runs_of argv [t] @ runs_of argv ts"
  by (simp add: runs_of_def)

lemma runs_of_Nil [simp]: "runs_of argv [] = []"
  by (simp add: runs_of_def)

lemma check_each_spec:
  "check_each ts d =
     (filter (\<lambda>t. \<not> due (time_now d) t) ts, d\<lparr>execs := execs d @ runs_of (cmdscript_argv d) (filter (due (time_now d)) ts)\<rparr>)"
proof (induction ts arbitrary: d)
  case (Cons t ts)
  show ?case
  proof (cases "due (time_now d) t")
    case True
    then show ?thesis
      using Cons.IH [of "exec_cmd_timer t d"]
      by (simp add: due_def [symmetric] exec_cmd_timer_run runs_of_Cons [of _ t "filter _ ts"])
  qed (simp add: due_def [symmetric] Cons.IH [of d])
qed simp

text \<open>
  A check of a queue that is not empty runs the script exactly for the timers
  whose time has come, in the order of the queue, each with its name and its labels, and
  leaves exactly the others in the queue.
\<close>

theorem checktimers_runs_due:
  assumes "thead d \<noteq> []"
  shows "checktimers d = d\<lparr>emptyctr := 0, thead := filter (\<lambda>t. time_now d < etime t) (thead d),
    execs := execs d @ runs_of (cmdscript_argv d) (filter (\<lambda>t. etime t \<le> time_now d) (thead d))\<rparr>"
proof -
  have "due t = (\<lambda>u. etime u \<le> t)" for t by (simp add: due_def fun_eq_iff)
  then show ?thesis using assms by (simp add: checktimers_def check_each_spec not_le)
qed

lemma checktimers_step:
  "thead d \<noteq> [] \<Longrightarrow> thead (checktimers d) = filter (\<lambda>t. \<not> due (time_now d) t) (thead d) \<and>
     execs (checktimers d) = execs d @ runs_of (cmdscript_argv d) (filter (due (time_now d)) (thead d)) \<and>
     exited (checktimers d) = exited d \<and> cmdscript_argv (checktimers d) = cmdscript_argv d \<and>
     requests (checktimers d) = requests d"
  by (simp add: checktimers_def check_each_spec)

section \<open>Commands and rounds\<close>

text \<open>Writing to a connection changes nothing of the queue.\<close>

definition same_queue :: "sched \<Rightarrow> sched \<Rightarrow> bool" where
  "same_queue d e \<longleftrightarrow> thead e = thead d \<and> execs e = execs d \<and> emptyctr e = emptyctr d \<and>
     cmdscript_argv e = cmdscript_argv d \<and> time_now e = time_now d \<and> exited e = exited d \<and> requests e = requests d"

lemma same_queue_refl [simp]: "same_queue d d"
  by (simp add: same_queue_def)

lemma same_queue_trans: "same_queue a b \<Longrightarrow> same_queue b c \<Longrightarrow> same_queue a c"
  by (simp add: same_queue_def)

lemma same_queue_ops [simp]:
  "same_queue d (upd_conn fd f d)" "same_queue d (conn_del fd d)" "same_queue d (taint b d)" "same_queue d (conn_add junk p d)"
  by (simp_all add: same_queue_def upd_conn_def conn_del_def taint_def conn_add_def split: prod.split)

lemma send_to_one_queue [simp]: "same_queue d (send_to_one fd msg d)"
  by (simp add: send_to_one_def same_queue_def taint_def conn_del_def upd_conn_def Let_def split: option.split)

lemma list_timers_queue: "same_queue d (list_timers fd d)"
proof -
  have each: "same_queue e (list_timer fd t e)" for t e
    unfolding list_timer_def Let_def by (intro same_queue_trans [OF _ send_to_one_queue] send_to_one_queue)
  have "same_queue e (fold (list_timer fd) ts e)" for ts e
    using each same_queue_trans by (induction ts arbitrary: e) (auto, blast)
  then show ?thesis
    unfolding list_timers_def Let_def
    by (intro same_queue_trans [OF _ send_to_one_queue]) (use same_queue_trans send_to_one_queue in blast)
qed

text \<open>A command that names a timer to cancel.\<close>

definition cancels_name :: "cstring \<Rightarrow> cstring list \<Rightarrow> bool" where
  "cancels_name n arg \<longleftrightarrow> length arg \<ge> 2 \<and> (arg ! 0 = ''CANCEL'' \<or> arg ! 0 = ''CANCEL-MATCHED'') \<and> arg ! 1 = n"

text \<open>What a command may do to the queue while it does not cancel that name.\<close>

definition pending :: "cstring \<Rightarrow> int \<Rightarrow> sched \<Rightarrow> bool" where
  "pending n t d \<longleftrightarrow> (\<exists>u \<in> set (thead d). tm_name u = n \<and> etime u = t)"

definition moved_on :: "cstring list list \<Rightarrow> sched \<Rightarrow> sched \<Rightarrow> bool" where
  "moved_on ws d e \<longleftrightarrow> requests e = requests d @ ws \<and> time_now e = time_now d \<and> exited e = exited d \<and>
     cmdscript_argv e = cmdscript_argv d \<and> (\<exists>xs. execs e = execs d @ xs) \<and>
     (\<forall>n t. pending n t d \<and> list_all (\<lambda>w. \<not> cancels_name n w) ws \<longrightarrow> pending n t e)"

lemma moved_on_trans: "moved_on a d e \<Longrightarrow> moved_on b e f \<Longrightarrow> moved_on (a @ b) d f"
  unfolding moved_on_def by auto

lemma same_queue_moved: "same_queue d e \<Longrightarrow> moved_on [] d e"
  by (auto simp: same_queue_def moved_on_def pending_def)

lemma share_first_pending:
  "\<forall>t. tm_name (f t) = tm_name t \<and> etime (f t) = etime t \<Longrightarrow>
     map (\<lambda>u. (tm_name u, etime u)) (share_first f n ts) = map (\<lambda>u. (tm_name u, etime u)) ts"
  by (induction ts) auto

lemma pending_map: "pending n t d \<longleftrightarrow> (n, t) \<in> set (map (\<lambda>u. (tm_name u, etime u)) (thead d))"
  by (auto simp: pending_def)

lemma start_timer_moved: "moved_on [] d (start_timer name ofs ntype un msg shared d)"
proof -
  have "\<forall>t. tm_name (share ntype un msg t) = tm_name t \<and> etime (share ntype un msg t) = etime t" by (simp add: share_def)
  from share_first_pending [OF this] show ?thesis
    by (auto simp: start_timer_def Let_def moved_on_def pending_map taint_def simp del: set_map split: option.split)
qed

lemma cancel_timer_moved:
  "requests (cancel_timer n c ty un m d) = requests d \<and> time_now (cancel_timer n c ty un m d) = time_now d \<and>
   exited (cancel_timer n c ty un m d) = exited d \<and> cmdscript_argv (cancel_timer n c ty un m d) = cmdscript_argv d \<and>
   (\<exists>xs. execs (cancel_timer n c ty un m d) = execs d @ xs) \<and>
   (\<forall>n' t. pending n' t d \<and> n' \<noteq> n \<longrightarrow> pending n' t (cancel_timer n c ty un m d))"
  by (auto simp: cancel_timer_def Let_def taint_def exec_cmd_def pending_def cancels_def)

lemma moved_on_refl [simp]: "moved_on [] d d"
  by (simp add: same_queue_moved)

lemma pending_logged [simp]: "pending n t (d\<lparr>requests := x\<rparr>) = pending n t d" "pending n t (d\<lparr>time_now := y\<rparr>) = pending n t d"
  by (simp_all add: pending_def)

lemma logged_moved: "moved_on [arg] d (d\<lparr>requests := requests d @ [arg]\<rparr>)"
  by (simp add: moved_on_def pending_def)

lemma cancel_arg_moved:
  assumes "arg ! 0 = ''CANCEL'' \<or> arg ! 0 = ''CANCEL-MATCHED''"
  shows "moved_on [arg] d (cancel_arg fd m arg (d\<lparr>requests := requests d @ [arg]\<rparr>))"
proof (cases "length arg < 2")
  case True
  then show ?thesis by (simp add: cancel_arg_def moved_on_def taint_def pending_def)
next
  case False
  then have "cancels_name (arg ! 1) arg" using assms by (simp add: cancels_name_def)
  moreover have "moved_on [arg] d (cancel_timer (arg ! 1) c ty un m (d\<lparr>requests := requests d @ [arg]\<rparr>))"
    if "cancels_name (arg ! 1) arg" for c ty un
  proof -
    have "n' \<noteq> arg ! 1" if "\<not> cancels_name n' arg" for n' using that \<open>cancels_name (arg ! 1) arg\<close> by auto
    then show ?thesis
      using cancel_timer_moved [of "arg ! 1" c ty un m "d\<lparr>requests := requests d @ [arg]\<rparr>"]
      unfolding moved_on_def by simp
  qed
  ultimately show ?thesis using False by (simp add: cancel_arg_def)
qed

lemma say_ok_moved: "moved_on ws d e \<Longrightarrow> moved_on ws d (snd (say_ok fd e))"
  using moved_on_trans [of ws d e "[]"] same_queue_moved [OF send_to_one_queue] by (simp add: say_ok_def)

lemma sock_arg_moved: "moved_on [arg] d (snd (sock_arg fd arg (d\<lparr>requests := requests d @ [arg]\<rparr>)))"
proof -
  note l = logged_moved [of arg d]
  have start: "moved_on [arg] d (start_timer a b c f g sh (d\<lparr>requests := requests d @ [arg]\<rparr>))" for a b c f g sh
    using moved_on_trans [OF l start_timer_moved] by simp
  have list: "moved_on [arg] d (list_timers fd (d\<lparr>requests := requests d @ [arg]\<rparr>))"
    using moved_on_trans [OF l same_queue_moved [OF list_timers_queue]] by simp
  show ?thesis
    using l logged_moved [of "[]" d] start list say_ok_moved cancel_arg_moved
    by (simp add: sock_arg_def)
qed

lemma read_loop_moved: "\<exists>ws. moved_on ws d (snd (read_loop n fd d))"
proof (induction n arbitrary: d)
  case 0
  show ?case by (intro exI [of _ "[]"]) simp
next
  case (Suc n)
  show ?case
  proof (cases "\<exists>c r rs. find_conn fd d = Some c \<and> us_input c = r # rs")
    case True
    then obtain c r rs where c: "find_conn fd d = Some c" "us_input c = r # rs" by blast
    let ?d1 = "upd_conn fd (\<lambda>c. c\<lparr>us_input := rs\<rparr>) d"
    have d1: "moved_on [] d ?d1" by (simp add: same_queue_moved)
    have rest: "\<exists>ws. moved_on ws d (snd (read_loop n fd e))" if "moved_on [] d e" for e
      using Suc.IH [of e] moved_on_trans [OF that] by auto
    show ?thesis
    proof (cases r)
      case (Read_byte ch)
      obtain ret ctx where p: "pconf_char (us_ctx c) ch = (ret, ctx)" by fastforce
      let ?d2 = "upd_conn fd (\<lambda>c. c\<lparr>us_ctx := ctx\<rparr>) ?d1"
      have d2: "moved_on [] d ?d2" using moved_on_trans [OF d1 same_queue_moved [OF same_queue_ops(1)]] by simp
      obtain used d3 where a: "sock_arg fd (ctx_args ctx) (?d2\<lparr>requests := requests ?d2 @ [ctx_args ctx]\<rparr>) = (used, d3)" by fastforce
      have d3: "moved_on [ctx_args ctx] d d3"
        using moved_on_trans [OF d2 sock_arg_moved [of "ctx_args ctx" ?d2 fd]] a by simp
      let ?d4 = "if used then d3 else send_to_one fd (''ERR UNKNOWN'' @ [CHR 10]) d3"
      have d4: "moved_on [ctx_args ctx] d ?d4"
        using d3 moved_on_trans [OF d3 same_queue_moved [OF send_to_one_queue]] by simp
      have "snd (read_loop (Suc n) fd d) = snd (read_loop n fd ?d2) \<or> snd (read_loop (Suc n) fd d) = ?d2 \<or>
          snd (read_loop (Suc n) fd d) = ?d4"
        using c p a Read_byte by (simp add: Let_def)
      then show ?thesis using d2 d4 rest [OF d2] by (elim disjE) (simp_all only:, blast+)
    qed (use c d1 rest [OF d1] in \<open>auto simp: Let_def\<close>)
  next
    case False
    then have "snd (read_loop (Suc n) fd d) = d"
      by (cases "find_conn fd d") (auto split: list.split)
    then show ?thesis by (intro exI [of _ "[]"]) simp
  qed
qed

lemma serve_conn_moved: "\<exists>ws. moved_on ws d (serve_conn r fd d)"
proof -
  obtain ws where ws: "moved_on ws d (snd (sock_read fd d))" using read_loop_moved [of d US_MAX_READ fd] by (auto simp: sock_read_def)
  have "moved_on ws d (conn_del fd (snd (sock_read fd d)))"
    using moved_on_trans [OF ws same_queue_moved [OF same_queue_ops(2)]] by simp
  then show ?thesis
    using ws exI [of "\<lambda>ws. moved_on ws d d" "[]"] unfolding serve_conn_def by (simp add: case_prod_beta) blast
qed

lemma serve_all_moved: "\<exists>ws. moved_on ws d (fold (serve_conn r) fds d)"
proof (induction fds arbitrary: d)
  case Nil
  show ?case by (intro exI [of _ "[]"]) simp
next
  case (Cons fd fds)
  show ?case using serve_conn_moved [of d r fd] Cons.IH [of "serve_conn r fd d"] moved_on_trans by fastforce
qed

text \<open>Before its check of the queue, a round is a sequence of commands at its time.\<close>

lemma daemon_round_commands:
  assumes "\<not> exited d"
  shows "\<exists>ws e. moved_on ws (d\<lparr>time_now := rd_now r\<rparr>) e \<and> daemon_round junk r d = checktimers e"
proof -
  define d0 where "d0 = d\<lparr>time_now := rd_now r\<rparr>"
  define d1 where "d1 = (case rd_peer r of None \<Rightarrow> d0 | Some p \<Rightarrow> conn_add junk p d0)"
  have "moved_on [] d0 d1" by (simp add: d1_def same_queue_moved split: option.split)
  moreover obtain ws where "moved_on ws d1 (fold (serve_conn r) (map us_fd (connhead d1)) d1)"
    using serve_all_moved by blast
  ultimately have "moved_on ws d0 (fold (serve_conn r) (map us_fd (connhead d1)) d1)"
    using moved_on_trans by fastforce
  moreover have "daemon_round junk r d = checktimers (fold (serve_conn r) (map us_fd (connhead d1)) d1)"
    using assms by (simp add: daemon_round_def d1_def Let_def flip: d0_def)
  ultimately show ?thesis unfolding d0_def by blast
qed

section \<open>Timers run when their time has come\<close>

text \<open>The commands of a list of rounds, none of which cancels the name.\<close>

definition uncancelled :: "cstring \<Rightarrow> sched \<Rightarrow> sched \<Rightarrow> bool" where
  "uncancelled n d e \<longleftrightarrow> (\<exists>ws. requests e = requests d @ ws \<and> list_all (\<lambda>w. \<not> cancels_name n w) ws)"

definition ran_script :: "cstring \<Rightarrow> sched \<Rightarrow> sched \<Rightarrow> bool" where
  "ran_script n d e \<longleftrightarrow> (\<exists>xs env. execs e = execs d @ xs \<and> (cmdscript_argv d @ [n], env) \<in> set xs)"

lemma daemon_round_timer:
  assumes "pending n t d" and "\<not> exited d" and "uncancelled n d (daemon_round junk r d)"
    and "n \<noteq> []" and "cmdscript_argv d \<noteq> []"
  shows "(if rd_now r < t then pending n t (daemon_round junk r d) else ran_script n d (daemon_round junk r d)) \<and>
    list_all (\<lambda>u. rd_now r < etime u) (thead (daemon_round junk r d)) \<and>
    cmdscript_argv (daemon_round junk r d) = cmdscript_argv d \<and> \<not> exited (daemon_round junk r d)"
proof -
  obtain ws e where e: "moved_on ws (d\<lparr>time_now := rd_now r\<rparr>) e" "daemon_round junk r d = checktimers e"
    using daemon_round_commands [OF assms(2)] by blast
  have req: "requests e = requests d @ ws" "time_now e = rd_now r" "exited e = exited d" "cmdscript_argv e = cmdscript_argv d"
    and ex: "\<exists>xs. execs e = execs d @ xs"
    and keep: "pending n t d \<Longrightarrow> list_all (\<lambda>w. \<not> cancels_name n w) ws \<Longrightarrow> pending n t e"
    using e(1) by (auto simp: moved_on_def pending_def)
  have "requests (checktimers e) = requests e" by (simp add: checktimers_def Let_def check_each_spec)
  then have "list_all (\<lambda>w. \<not> cancels_name n w) ws" using assms(3) e(2) req(1) by (simp add: uncancelled_def)
  then have "pending n t e" using keep assms(1) by simp
  then obtain u where u: "u \<in> set (thead e)" "tm_name u = n" "etime u = t" by (auto simp: pending_def)
  then have "thead e \<noteq> []" by auto
  note step = checktimers_step [OF this]
  have "pending n t (checktimers e)" if "rd_now r < t"
    using u that step req(2) by (auto simp: pending_def due_def)
  moreover have "ran_script n d (checktimers e)" if "\<not> rd_now r < t"
  proof -
    have "u \<in> set (filter (due (time_now e)) (thead e))" using u that req(2) by (simp add: due_def)
    then have run: "script_run (cmdscript_argv e) u \<in> set (runs_of (cmdscript_argv e) (filter (due (time_now e)) (thead e)))"
      using assms(4,5) u(2) req(4) by (auto simp: runs_of_def)
    obtain env where env: "script_run (cmdscript_argv e) u = (cmdscript_argv d @ [n], env)"
      using u(2) req(4) by (simp add: script_run_def)
    obtain xs where "execs e = execs d @ xs" using ex by blast
    then have "execs (checktimers e) = execs d @ xs @ runs_of (cmdscript_argv e) (filter (due (time_now e)) (thead e))"
      using step by simp
    then show ?thesis using run env unfolding ran_script_def
      by (intro exI [of _ "xs @ runs_of (cmdscript_argv e) (filter (due (time_now e)) (thead e))"] exI [of _ env]) simp
  qed
  moreover have "list_all (\<lambda>u. rd_now r < etime u) (thead (checktimers e))"
    using step req(2) by (auto simp: list_all_iff due_def)
  ultimately show ?thesis using e(2) step req(3,4) assms(2) by (simp split: if_splits)
qed


definition grows :: "sched \<Rightarrow> sched \<Rightarrow> bool" where
  "grows d e \<longleftrightarrow> (\<exists>ws. requests e = requests d @ ws)"

lemma round_grows: "grows d (daemon_round junk r d)"
proof (cases "exited d")
  case False
  obtain ws e where "moved_on ws (d\<lparr>time_now := rd_now r\<rparr>) e" "daemon_round junk r d = checktimers e"
    using daemon_round_commands [OF False] by blast
  moreover have "requests (checktimers e) = requests e" by (simp add: checktimers_def Let_def check_each_spec)
  ultimately show ?thesis by (auto simp: moved_on_def grows_def)
qed (simp add: daemon_round_def grows_def)

lemma rounds_grow: "grows d (fold (daemon_round junk) rs d)"
proof (induction rs arbitrary: d)
  case (Cons r rs)
  show ?case using round_grows [of d junk r] Cons.IH [of "daemon_round junk r d"] by (auto simp: grows_def)
qed (simp add: grows_def)

lemma uncancelled_parts: "grows d e \<Longrightarrow> grows e f \<Longrightarrow> uncancelled n d f \<Longrightarrow> uncancelled n d e \<and> uncancelled n e f"
  by (auto simp: grows_def uncancelled_def)

text \<open>Once undefined, always undefined.\<close>

definition taint_kept :: "sched \<Rightarrow> sched \<Rightarrow> bool" where
  "taint_kept d e \<longleftrightarrow> (tainted d \<longrightarrow> tainted e)"

lemma taint_kept_refl [simp]: "taint_kept d d"
  by (simp add: taint_kept_def)

lemma taint_kept_trans: "taint_kept d e \<Longrightarrow> taint_kept e f \<Longrightarrow> taint_kept d f"
  by (simp add: taint_kept_def)

lemma taint_kept_simple [simp]:
  "taint_kept d (taint b e) \<longleftrightarrow> \<not> tainted d \<or> tainted e \<or> b" "taint_kept d (upd_conn fd f d)" "taint_kept d (conn_del fd d)"
  "taint_kept d (conn_add junk p d)" "taint_kept d (exec_cmd c env d)" "taint_kept d (exec_cmd_timer t d)"
  by (auto simp: taint_kept_def taint_def upd_conn_def conn_del_def conn_add_def exec_cmd_def exec_cmd_timer_def split: prod.split)

lemma send_to_one_taint: "taint_kept d (send_to_one fd msg d)"
  by (auto simp: taint_kept_def send_to_one_def taint_def upd_conn_def conn_del_def Let_def split: option.split)

lemma list_timers_taint: "taint_kept d (list_timers fd d)"
proof -
  have one: "taint_kept d (list_timer fd t d)" for t d
    unfolding list_timer_def Let_def by (intro taint_kept_trans [OF _ send_to_one_taint] taint_kept_refl)
  have "taint_kept d (fold (list_timer fd) ts d)" for ts d
    by (induction ts arbitrary: d) (use one taint_kept_trans in \<open>simp_all, blast\<close>)
  then show ?thesis
    unfolding list_timers_def Let_def
    by (intro taint_kept_trans [OF _ send_to_one_taint]) (blast intro: taint_kept_trans [OF send_to_one_taint])
qed

lemma timers_taint: "taint_kept d (start_timer n s ty un m sh d)" "taint_kept d (cancel_timer k c cty cun mt d)"
proof -
  show "taint_kept d (start_timer n s ty un m sh d)"
    by (auto simp: start_timer_def Let_def taint_def taint_kept_def split: option.split)
  show "taint_kept d (cancel_timer k c cty cun mt d)"
    by (auto simp: cancel_timer_def Let_def taint_def taint_kept_def exec_cmd_def)
qed

lemma sock_arg_taint: "taint_kept d (snd (sock_arg fd arg d))"
proof -
  have cancel: "taint_kept d (cancel_arg fd m arg d)" for m
    by (simp add: cancel_arg_def timers_taint taint_kept_def taint_def) (use timers_taint(2) in \<open>auto simp: taint_kept_def\<close>)
  have ok: "taint_kept d (snd (say_ok fd e))" if "taint_kept d e" for e
    using taint_kept_trans [OF that send_to_one_taint] by (simp add: say_ok_def)
  show ?thesis
    by (simp add: sock_arg_def list_timers_taint ok cancel timers_taint(1))
qed

lemma read_loop_taint: "taint_kept d (snd (read_loop n fd d))"
proof (induction n arbitrary: d)
  case (Suc n)
  show ?case
  proof (cases "\<exists>c r rs. find_conn fd d = Some c \<and> us_input c = r # rs")
    case True
    then obtain c r rs where c: "find_conn fd d = Some c" "us_input c = r # rs" by blast
    let ?d1 = "upd_conn fd (\<lambda>c. c\<lparr>us_input := rs\<rparr>) d"
    have rest: "taint_kept d (snd (read_loop n fd e))" if "taint_kept d e" for e
      using taint_kept_trans [OF that Suc.IH] .
    have d1: "taint_kept d ?d1" by simp
    show ?thesis
    proof (cases r)
      case (Read_byte ch)
      obtain ret ctx where p: "pconf_char (us_ctx c) ch = (ret, ctx)" by fastforce
      let ?d2 = "upd_conn fd (\<lambda>c. c\<lparr>us_ctx := ctx\<rparr>) ?d1"
      let ?e = "?d2\<lparr>requests := requests ?d2 @ [ctx_args ctx]\<rparr>"
      have d2: "taint_kept d ?d2" by (simp add: taint_kept_def upd_conn_def)
      then have "taint_kept d ?e" by (simp add: taint_kept_def)
      obtain used d3 where a: "sock_arg fd (ctx_args ctx) ?e = (used, d3)" by fastforce
      have d3: "taint_kept d d3" using taint_kept_trans [OF \<open>taint_kept d ?e\<close> sock_arg_taint] a by (metis snd_conv)
      let ?d4 = "if used then d3 else send_to_one fd (''ERR UNKNOWN'' @ [CHR 10]) d3"
      have d4: "taint_kept d ?d4" using d3 taint_kept_trans [OF d3 send_to_one_taint] by simp
      have "snd (read_loop (Suc n) fd d) = snd (read_loop n fd ?d2) \<or> snd (read_loop (Suc n) fd d) = ?d2 \<or>
          snd (read_loop (Suc n) fd d) = ?d4"
        using c p a Read_byte by (simp add: Let_def)
      then show ?thesis using d2 d4 rest [OF d2] by (elim disjE) (simp_all only:)
    qed (use c d1 rest [OF d1] in \<open>auto simp: Let_def\<close>)
  next
    case False
    then have "snd (read_loop (Suc n) fd d) = d"
      by (cases "find_conn fd d") (auto split: list.split)
    then show ?thesis by simp
  qed
qed simp

lemma serve_taint: "taint_kept d (fold (serve_conn r) fds d)"
proof (induction fds arbitrary: d)
  case (Cons fd fds)
  have read: "taint_kept d (snd (sock_read fd d))" by (simp add: sock_read_def read_loop_taint)
  have "taint_kept d (serve_conn r fd d)"
    using read taint_kept_trans [OF read taint_kept_simple(3)] by (simp add: serve_conn_def case_prod_beta)
  then show ?case using Cons.IH taint_kept_trans by simp
qed simp

lemma check_each_taint: "tainted (snd (check_each ts d)) = tainted d"
  by (induction ts d rule: check_each.induct)
    (auto simp: exec_cmd_timer_def exec_cmd_def split: prod.split)

lemma taint_stays: "tainted d \<Longrightarrow> tainted (daemon_round junk r d)"
proof (cases "exited d")
  case False
  assume t: "tainted d"
  define d0 where "d0 = d\<lparr>time_now := rd_now r\<rparr>"
  define d1 where "d1 = (case rd_peer r of None \<Rightarrow> d0 | Some p \<Rightarrow> conn_add junk p d0)"
  have "tainted d1" using t by (simp add: d1_def d0_def conn_add_def split: option.split prod.split)
  then have e: "tainted (fold (serve_conn r) (map us_fd (connhead d1)) d1)" using serve_taint taint_kept_def by blast
  have "tainted x \<Longrightarrow> tainted (checktimers x)" for x
    using check_each_taint [of "thead x" "x\<lparr>emptyctr := 0\<rparr>"] by (simp add: checktimers_def Let_def case_prod_beta)
  then show ?thesis
    using e False by (simp add: daemon_round_def Let_def flip: d0_def d1_def)
qed (simp add: daemon_round_def)

lemma taint_stays_rounds: "tainted d \<Longrightarrow> tainted (fold (daemon_round junk) rs d)"
  by (induction rs arbitrary: d) (simp_all add: taint_stays)


lemma timer_survives:
  assumes "pending n t d" and "\<not> exited d" and "n \<noteq> []" and "cmdscript_argv d \<noteq> []"
    and "list_all (\<lambda>r. rd_now r < t) rs" and "t \<le> rd_now r"
    and "uncancelled n d (daemon_round junk r (fold (daemon_round junk) rs d))"
  shows "pending n t (fold (daemon_round junk) rs d) \<and>
    ran_script n (fold (daemon_round junk) rs d) (daemon_round junk r (fold (daemon_round junk) rs d)) \<and>
    list_all (\<lambda>u. rd_now r < etime u) (thead (daemon_round junk r (fold (daemon_round junk) rs d))) \<and>
    \<not> exited (daemon_round junk r (fold (daemon_round junk) rs d))"
  using assms
proof (induction rs arbitrary: d)
  case Nil
  then show ?case using daemon_round_timer [of n t d junk r] by simp
next
  case (Cons r0 rs)
  let ?d1 = "daemon_round junk r0 d" and ?last = "daemon_round junk r (fold (daemon_round junk) (r0 # rs) d)"
  have "grows ?d1 ?last"
    using rounds_grow [of ?d1 junk "rs @ [r]"] by simp
  then have u: "uncancelled n d ?d1" "uncancelled n ?d1 ?last"
    using uncancelled_parts [OF round_grows] Cons.prems(7) by blast+
  have "pending n t ?d1" "\<not> exited ?d1" "cmdscript_argv ?d1 \<noteq> []"
    using daemon_round_timer [OF Cons.prems(1,2) u(1) Cons.prems(3,4)] Cons.prems(4,5) by simp_all
  then show ?case using Cons.IH [of ?d1] Cons.prems u(2) by simp
qed

text \<open>
  Property C39: however many clients come and go, whatever other timers there are, and whatever
  is sent as long as it does not make the daemon use memory that is not its own: a timer whose name
  nobody cancels is still in the queue after every round before its time, the daemon does not
  exit, and in the first round at or after its time the script is run with its name. No round
  leaves a timer in the queue whose time has come. What is excluded, and leaves \<open>tainted\<close> set
  for good: a cancellation that finds a timer, of whatever name (it reads the timer that it has freed),
  a cancellation without a name, a second label for a shared timer (stored behind the end of its
  array), a time behind \<open>LONG_MAX\<close>, and a further write to a connection whose write failed.
\<close>

theorem timer_runs_when_due:
  assumes "pending n t d" and "\<not> exited d" and "n \<noteq> []" and "cmdscript_argv d \<noteq> []"
    and "list_all (\<lambda>r. rd_now r < t) rs" and "t \<le> rd_now r"
    and "uncancelled n d (daemon_round junk r (fold (daemon_round junk) rs d))"
    and "\<not> tainted (daemon_round junk r (fold (daemon_round junk) rs d))"
  shows "pending n t (fold (daemon_round junk) rs d) \<and>
    ran_script n (fold (daemon_round junk) rs d) (daemon_round junk r (fold (daemon_round junk) rs d)) \<and>
    list_all (\<lambda>u. rd_now r < etime u) (thead (daemon_round junk r (fold (daemon_round junk) rs d))) \<and>
    \<not> exited (daemon_round junk r (fold (daemon_round junk) rs d)) \<and>
    (\<forall>k. \<not> tainted (fold (daemon_round junk) (take k rs) d))"
proof -
  have "\<not> tainted (fold (daemon_round junk) (take k rs) d)" for k
  proof
    assume "tainted (fold (daemon_round junk) (take k rs) d)"
    then have "tainted (fold (daemon_round junk) (drop k rs) (fold (daemon_round junk) (take k rs) d))" by (rule taint_stays_rounds)
    then have "tainted (fold (daemon_round junk) rs d)" by (metis append_take_drop_id comp_apply fold_append)
    then show False using assms(8) taint_stays by blast
  qed
  then show ?thesis using timer_survives [OF assms(1-7)] by blast
qed

section \<open>From the rule to the queue\<close>

text \<open>The bytes that a connection delivers, in pieces of any size.\<close>

fun bytes_of :: "byte_read list \<Rightarrow> cstring" where
  "bytes_of [] = []"
| "bytes_of (Read_byte c # rs) = c # bytes_of rs"
| "bytes_of (r # rs) = bytes_of rs"

definition alive_input :: "byte_read list \<Rightarrow> bool" where
  "alive_input rs \<longleftrightarrow> list_all (\<lambda>r. r = Read_again \<or> (\<exists>c. r = Read_byte c)) rs \<and> rs \<noteq> [] \<and> last rs = Read_byte (CHR 10)"

definition put :: "nat \<Rightarrow> PCONF_CTX_t \<Rightarrow> byte_read list \<Rightarrow> sched \<Rightarrow> sched" where
  "put fd ctx inp d = upd_conn fd (\<lambda>c. c\<lparr>us_ctx := ctx, us_input := inp\<rparr>) d"

definition coming :: "PCONF_CTX_t \<Rightarrow> byte_read list \<Rightarrow> cstring list \<Rightarrow> bool" where
  "coming ctx inp ws \<longleftrightarrow> sock_ok ctx \<and> alive_input inp \<and>
     (\<exists>l m. bytes_of inp = l @ [CHR 10] \<and>
        m = lex_run (arg_limit ctx) (wordlen_limit ctx) l (lex_of (resumed ctx)) \<and> \<not> ended m \<and>
        lex_step (arg_limit ctx) (wordlen_limit ctx) 10 m = (STATE_ENDOFLINE, [], ws))"

lemma find_conn_upd: "find_conn fd d = Some c \<Longrightarrow> \<forall>c. us_fd (f c) = us_fd c \<Longrightarrow> find_conn fd (upd_conn fd f d) = Some (f c)"
proof -
  assume f: "\<forall>c. us_fd (f c) = us_fd c"
  have "find (\<lambda>c. us_fd c = fd) cs = Some c \<Longrightarrow> find (\<lambda>c. us_fd c = fd) (map (\<lambda>c. if us_fd c = fd then f c else c) cs) = Some (f c)" for cs
    using f by (induction cs) (auto split: if_splits)
  then show "find_conn fd d = Some c \<Longrightarrow> find_conn fd (upd_conn fd f d) = Some (f c)"
    by (simp add: find_conn_def upd_conn_def)
qed

lemma find_put: "find_conn fd d = Some c \<Longrightarrow> find_conn fd (put fd ctx inp d) = Some (c\<lparr>us_ctx := ctx, us_input := inp\<rparr>)"
  by (simp add: put_def find_conn_upd)

lemma upd_conn_twice: "\<forall>c. us_fd (f c) = us_fd c \<Longrightarrow> upd_conn fd g (upd_conn fd f d) = upd_conn fd (g \<circ> f) d"
  by (auto simp: upd_conn_def)

lemma ctx_after_input: "c\<lparr>us_input := i, us_ctx := x\<rparr> = c\<lparr>us_ctx := x, us_input := i\<rparr>"
  by (cases c) simp

lemma put_steps [simp]:
  "upd_conn fd (\<lambda>c. c\<lparr>us_input := i\<rparr>) (put fd ctx inp d) = put fd ctx i d"
  "upd_conn fd (\<lambda>c. c\<lparr>us_ctx := x\<rparr>) (put fd ctx inp d) = put fd x inp d"
  by (simp_all add: put_def upd_conn_twice comp_def ctx_after_input)

lemma alive_Cons:
  "alive_input (r # rs) \<Longrightarrow> (r = Read_again \<or> (\<exists>c. r = Read_byte c)) \<and> (rs = [] \<longrightarrow> r = Read_byte (CHR 10)) \<and> (rs \<noteq> [] \<longrightarrow> alive_input rs)"
  by (auto simp: alive_input_def)

lemma bytes_alive: "alive_input rs \<Longrightarrow> \<exists>l. bytes_of rs = l @ [CHR 10]"
proof (induction rs)
  case Nil
  then show ?case by (simp add: alive_input_def)
next
  case (Cons r rs)
  then show ?case using alive_Cons [OF Cons.prems] by (cases "rs = []") (auto simp: append_eq_Cons_conv)
qed

text \<open>A byte before the end of the line is taken; the byte at the end completes the words.\<close>

lemma coming_byte:
  assumes "coming ctx (Read_byte ch # rs) ws"
  shows "\<exists>ctx1. (rs \<noteq> [] \<and> pconf_char ctx ch = (0, ctx1) \<and> coming ctx1 rs ws) \<or>
     (rs = [] \<and> pconf_char ctx ch = (1, ctx1) \<and> ctx_args ctx1 = ws)"
proof -
  obtain l m where l: "bytes_of (Read_byte ch # rs) = l @ [CHR 10]"
    "m = lex_run (arg_limit ctx) (wordlen_limit ctx) l (lex_of (resumed ctx))" "\<not> ended m"
    "lex_step (arg_limit ctx) (wordlen_limit ctx) 10 m = (STATE_ENDOFLINE, [], ws)"
    and ok: "sock_ok ctx" and al: "alive_input (Read_byte ch # rs)"
    using assms unfolding coming_def by blast
  obtain ctx1 where c: "pconf_char ctx ch = (if ctx_state ctx1 = STATE_ENDOFLINE then 1 else 0, ctx1)" "sock_ok ctx1"
    "arg_limit ctx1 = arg_limit ctx" "wordlen_limit ctx1 = wordlen_limit ctx"
    "lex_of ctx1 = lex_step (arg_limit ctx) (wordlen_limit ctx) (schar ch) (lex_of (resumed ctx))"
    using pconf_char_step [OF ok] by blast
  show ?thesis
  proof (cases "rs = []")
    case True
    then have "l = []" "ch = CHR 10" using l(1) by auto
    then have "lex_of ctx1 = (STATE_ENDOFLINE, [], ws)" using l(2,4) c(5) by simp
    then show ?thesis using c(1) True by (auto simp: lex_of_def)
  next
    case False
    then have rs: "alive_input rs" using alive_Cons [OF al] by simp
    obtain k where k: "bytes_of rs = k @ [CHR 10]" using bytes_alive [OF rs] by blast
    then have lk: "l = ch # k" using l(1) by simp
    then have m: "m = lex_run (arg_limit ctx) (wordlen_limit ctx) k (lex_of ctx1)" using l(2) c(5) by simp
    then have live: "\<not> ended (lex_of ctx1)" using l(3) by auto
    then have "ctx_state ctx1 \<noteq> STATE_ENDOFLINE" "resumed ctx1 = ctx1"
      by (auto simp: ended_def lex_of_def resumed_def at_line_end_ended)
    then show ?thesis
      using c False rs k m l(3,4) by (intro exI [of _ ctx1]) (simp add: coming_def)
  qed
qed

definition answered :: "nat \<Rightarrow> cstring list \<Rightarrow> sched \<Rightarrow> sched" where
  "answered fd ws d =
     (case sock_arg fd ws (d\<lparr>requests := requests d @ [ws]\<rparr>) of
        (used, d3) \<Rightarrow> if used then d3 else send_to_one fd (''ERR UNKNOWN'' @ [CHR 10]) d3)"

lemma read_coming:
  assumes "find_conn fd d = Some c"
  shows "coming ctx inp ws \<Longrightarrow>
    (\<exists>ctx' inp'. read_loop n fd (put fd ctx inp d) = (0, put fd ctx' inp' d) \<and> coming ctx' inp' ws \<and>
       length inp' \<le> length inp \<and> (0 < n \<longrightarrow> length inp' < length inp)) \<or>
    (\<exists>ctx'. read_loop n fd (put fd ctx inp d) = (1, answered fd ws (put fd ctx' [] d)))"
proof (induction n arbitrary: ctx inp)
  case (Suc n)
  then obtain r rs where inp: "inp = r # rs" by (cases inp) (auto simp: coming_def alive_input_def)
  note f = find_put [OF assms, of ctx inp]
  have al: "alive_input (r # rs)" using Suc.prems inp by (simp add: coming_def)
  consider (again) "r = Read_again" | (byte) ch where "r = Read_byte ch" using alive_Cons [OF al] by blast
  then show ?case
  proof cases
    case again
    then have "rs \<noteq> []" "alive_input rs" using alive_Cons [OF al] by auto
    then have "coming ctx rs ws" using Suc.prems inp again by (simp add: coming_def)
    moreover have "read_loop (Suc n) fd (put fd ctx inp d) = (0, put fd ctx rs d)" using f inp again by (simp add: Let_def)
    ultimately show ?thesis
      by (intro disjI1 exI [of _ ctx] exI [of _ rs]) (simp del: read_loop.simps add: inp)
  next
    case byte
    from coming_byte [OF Suc.prems [unfolded inp byte]] obtain ctx1 where
      "(rs \<noteq> [] \<and> pconf_char ctx ch = (0, ctx1) \<and> coming ctx1 rs ws) \<or>
       (rs = [] \<and> pconf_char ctx ch = (1, ctx1) \<and> ctx_args ctx1 = ws)" by blast
    then show ?thesis
    proof (elim disjE conjE)
      assume c: "pconf_char ctx ch = (0, ctx1)" "coming ctx1 rs ws"
      have "read_loop (Suc n) fd (put fd ctx inp d) = read_loop n fd (put fd ctx1 rs d)"
        using f inp byte c(1) by (simp add: Let_def)
      then show ?thesis using Suc.IH [OF c(2)]
        by (elim disjE exE conjE) (fastforce simp del: read_loop.simps simp add: inp)+
    next
      assume c: "rs = []" "pconf_char ctx ch = (1, ctx1)" "ctx_args ctx1 = ws"
      have "read_loop (Suc n) fd (put fd ctx inp d) = (1, answered fd ws (put fd ctx1 [] d))"
        using f inp byte c by (simp add: Let_def answered_def case_prod_beta)
      then show ?thesis by blast
    qed
  qed
qed auto

text \<open>Repeated reads hand the line over once, when its last byte is there.\<close>

definition reads :: "nat \<Rightarrow> nat \<Rightarrow> sched \<Rightarrow> sched" where
  "reads n fd d = ((\<lambda>d. snd (sock_read fd d)) ^^ n) d"

lemma reads_Suc: "reads (Suc n) fd d = reads n fd (snd (sock_read fd d))"
  by (simp add: reads_def funpow_Suc_right del: funpow.simps)

lemma reads_coming:
  assumes "find_conn fd d = Some c"
  shows "coming ctx inp ws \<Longrightarrow> \<exists>k ctx'. k \<le> length inp \<and> reads k fd (put fd ctx inp d) = answered fd ws (put fd ctx' [] d)"
proof (induction "length inp" arbitrary: ctx inp rule: less_induct)
  case less
  have "0 < US_MAX_READ" by (simp add: US_MAX_READ_def)
  from read_coming [OF assms less.prems, of US_MAX_READ] show ?case
  proof (elim disjE exE conjE)
    fix ctx' inp'
    assume r: "read_loop US_MAX_READ fd (put fd ctx inp d) = (0, put fd ctx' inp' d)" "coming ctx' inp' ws"
      "length inp' \<le> length inp" "0 < US_MAX_READ \<longrightarrow> length inp' < length inp"
    then obtain k x where k: "k \<le> length inp'" "reads k fd (put fd ctx' inp' d) = answered fd ws (put fd x [] d)"
      using less.hyps [OF _ r(2)] \<open>0 < US_MAX_READ\<close> by blast
    then have "reads (Suc k) fd (put fd ctx inp d) = answered fd ws (put fd x [] d)"
      by (simp add: reads_Suc sock_read_def r(1))
    then show ?thesis using k(1) r(4) \<open>0 < US_MAX_READ\<close> by (intro exI [of _ "Suc k"]) auto
  next
    fix ctx'
    assume r: "read_loop US_MAX_READ fd (put fd ctx inp d) = (1, answered fd ws (put fd ctx' [] d))"
    have "reads 1 fd (put fd ctx inp d) = answered fd ws (put fd ctx' [] d)" by (simp add: reads_def sock_read_def r)
    moreover have "1 \<le> length inp" using less.prems by (cases inp) (auto simp: coming_def alive_input_def)
    ultimately show ?thesis by blast
  qed
qed

text \<open>The text of a request, and its words at the daemon.\<close>

definition request_pieces :: "caller \<Rightarrow> cstring \<Rightarrow> cstring \<Rightarrow> cstring option \<Rightarrow> piece list" where
  "request_pieces a cmd arg1 arg2 =
     [Bare cmd, Quoted arg1, Quoted (case arg2 of None \<Rightarrow> [] | Some w \<Rightarrow> w), Quoted (notify_type a), Quoted (ups_name a),
      Quoted (case notify_msg a of None \<Rightarrow> [] | Some w \<Rightarrow> w)]"

lemma request_text:
  assumes "length (render_pieces (request_pieces a cmd arg1 arg2)) + 1 < LARGEBUF"
  shows "request a cmd arg1 arg2 = render_pieces (request_pieces a cmd arg1 arg2) @ [CHR 10]"
proof -
  have enc: "length (enc_full s) < LARGEBUF \<Longrightarrow> pconf_encode s [] (LARGEBUF + 8) = enc_full s" for s
    by (rule pconf_encode_whole) (simp_all add: LARGEBUF_def)
  show ?thesis
    using assms
    by (cases arg2; cases "notify_msg a")
      (simp_all add: request_def request_pieces_def Let_def quoted_def enc snprintf_fits snprintfcat_fits)
qed

lemma answered_start:
  "answered fd [''START'', n, ofs, ty, un, msg] d =
     send_to_one fd (''OK'' @ [CHR 10])
       (start_timer n ofs ty un msg False (d\<lparr>requests := requests d @ [[''START'', n, ofs, ty, un, msg]]\<rparr>))"
  by (simp add: answered_def sock_arg_def say_ok_def)

lemma start_timer_thead:
  "0 \<le> fst (strtol ofs 10) \<Longrightarrow>
     thead (start_timer n ofs ty un msg False d) = thead d @ [new_timer n (time_now d + fst (strtol ofs 10)) ty un msg]"
  by (simp add: start_timer_def Let_def taint_def)

lemma conn_add_put:
  "find_conn fd d = None \<Longrightarrow> conn_add junk (fd, inp, wr) d = put fd (pconf_init junk) inp (conn_add junk (fd, [], wr) d)"
proof -
  assume "find_conn fd d = None"
  then have "us_fd c \<noteq> fd" if "c \<in> set (connhead d)" for c using that by (auto simp: find_conn_def find_None_iff)
  then have "map (\<lambda>c. if us_fd c = fd then c\<lparr>us_ctx := x, us_input := inp\<rparr> else c) (connhead d) = connhead d" for x
    by (intro map_idI) simp
  then show ?thesis by (simp add: conn_add_def put_def upd_conn_def)
qed

lemma find_in_append: "find P (xs @ ys) = (case find P xs of None \<Rightarrow> find P ys | Some x \<Rightarrow> Some x)"
  by (induction xs) auto

lemma conn_add_find: "find_conn fd d = None \<Longrightarrow> \<exists>c. find_conn fd (conn_add junk (fd, inp, wr) d) = Some c"
  by (simp add: conn_add_def find_conn_def find_in_append split: option.split)

lemma line_coming:
  assumes "pieces_ok PCONF_DEFAULT_ARG_LIMIT PCONF_DEFAULT_WORDLEN_LIMIT ps"
    and "alive_input inp" and "bytes_of inp = render_pieces ps @ [CHR 10]"
  shows "coming (pconf_init junk) inp (map piece_word ps)"
proof -
  let ?c = "pconf_init junk"
  have lim: "arg_limit ?c = PCONF_DEFAULT_ARG_LIMIT" "wordlen_limit ?c = PCONF_DEFAULT_WORDLEN_LIMIT"
    by (simp_all add: pconf_init_def)
  have "lex_of (resumed ?c) = (STATE_FINDWORDSTART, [], [])" using pconf_init_line_start by (simp add: line_start_def)
  then show ?thesis
    using line_words_pieces [OF assms(1)] assms(2,3) by (simp add: coming_def lim line_words_def Let_def)
qed

text \<open>
  Property C40: a rule \<open>AT ... START-TIMER\<close> that matches the notification sends one line,
  and the daemon that receives the line on a new connection, in pieces of any size, appends
  to its queue exactly the timer of the rule: its name, its interval from the clock of the
  daemon, and the notification as its labels, whatever characters these contain.
\<close>

theorem rule_starts_timer:
  assumes "at_argv a \<noteq> []" and "pipefn a \<noteq> None" and "lockfn a \<noteq> None"
    and "un = ups_name a \<or> un = ''*''" and "same_nocase (notify_type a) ntype"
    and "contacts a = Daemon_there (Answer ok) # cs" and "take 2 ok = ''OK''"
    and "list_all (piece_ok PCONF_DEFAULT_WORDLEN_LIMIT) (request_pieces a ''START'' name (Some ofs))"
    and "length (render_pieces (request_pieces a ''START'' name (Some ofs))) + 1 < LARGEBUF"
    and "0 \<le> fst (strtol ofs 10)" and "find_conn fd d = None"
    and "line = render_pieces (request_pieces a ''START'' name (Some ofs)) @ [CHR 10]"
  shows "parse_at ntype un ''START-TIMER'' name (Some ofs) a = Some (a\<lparr>contacts := cs, transmitted := transmitted a @ [line]\<rparr>) \<and>
    (\<forall>inp. alive_input inp \<and> bytes_of inp = line \<longrightarrow>
       (\<exists>k \<le> length inp. thead (reads k fd (conn_add junk (fd, inp, wr) d)) =
          thead d @ [new_timer name (time_now d + fst (strtol ofs 10)) (notify_type a) (ups_name a)
            (case notify_msg a of None \<Rightarrow> [] | Some w \<Rightarrow> w)]))"
proof -
  let ?ps = "request_pieces a ''START'' name (Some ofs)" and ?msg = "case notify_msg a of None \<Rightarrow> [] | Some w \<Rightarrow> w"
  let ?line = "render_pieces ?ps @ [CHR 10]"
  have ok: "pieces_ok PCONF_DEFAULT_ARG_LIMIT PCONF_DEFAULT_WORDLEN_LIMIT ?ps"
    using assms(8) by (simp add: pieces_ok_def request_pieces_def PCONF_DEFAULT_ARG_LIMIT_def)
  have words: "map piece_word ?ps = [''START'', name, ofs, notify_type a, ups_name a, ?msg]" by (simp add: request_pieces_def)
  obtain n where n: "MAX_TRIES = Suc n" by (cases MAX_TRIES) (auto simp: MAX_TRIES_def)
  have "sendcmd ''START'' name (Some ofs) a = Some (a\<lparr>contacts := cs, transmitted := transmitted a @ [?line]\<rparr>)"
    using assms(6,7) by (simp add: sendcmd_def request_text [OF assms(9)] n)
  then have "parse_at ntype un ''START-TIMER'' name (Some ofs) a = Some (a\<lparr>contacts := cs, transmitted := transmitted a @ [?line]\<rparr>)"
    using assms(1-5) by (auto simp: parse_at_def)
  moreover have "\<exists>k \<le> length inp. thead (reads k fd (conn_add junk (fd, inp, wr) d)) =
      thead d @ [new_timer name (time_now d + fst (strtol ofs 10)) (notify_type a) (ups_name a) ?msg]"
    if inp: "alive_input inp" "bytes_of inp = ?line" for inp
  proof -
    let ?d = "conn_add junk (fd, [], wr) d"
    obtain c where "find_conn fd ?d = Some c" using conn_add_find [OF assms(11)] by blast
    from reads_coming [OF this line_coming [OF ok inp]] obtain k x where
      "k \<le> length inp" "reads k fd (put fd (pconf_init junk) inp ?d) = answered fd (map piece_word ?ps) (put fd x [] ?d)"
      by blast
    moreover have "thead (answered fd (map piece_word ?ps) (put fd x [] ?d)) =
        thead d @ [new_timer name (time_now d + fst (strtol ofs 10)) (notify_type a) (ups_name a) ?msg]"
      using send_to_one_queue [of _ fd] start_timer_thead [OF assms(10)]
      unfolding words answered_start same_queue_def by (simp add: put_def upd_conn_def conn_add_def)
    ultimately show ?thesis using conn_add_put [OF assms(11)] by metis
  qed
  ultimately show ?thesis unfolding assms(12) by simp
qed

lemma bytes_whole: "bytes_of (map Read_byte l) = l" "alive_input (map Read_byte (l @ [CHR 10]))"
  by (induction l) (auto simp: alive_input_def list_all_iff)

section \<open>A sample\<close>

definition sample_caller :: caller where
  "sample_caller =
     \<lparr>ups_name = ''ups@localhost'', notify_type = ''ONBATT'', notify_msg = Some ''on battery'',
      contacts = [Daemon_there (Answer (''OK'' @ [CHR 10]))], transmitted = [], at_argv = [''/bin/upssched-cmd''], at_execs = [],
      pipefn = Some ''upssched.pipe'', lockfn = Some ''upssched.lock''\<rparr>"

definition idle_daemon :: sched where
  "idle_daemon =
     \<lparr>thead = [], connhead = [], emptyctr = 0, cmdscript_argv = [''/bin/upssched-cmd''], time_now = 1000, execs = [],
      replies = [], requests = [], tainted = False, exited = False\<rparr>"

definition waiting_daemon :: sched where
  "waiting_daemon = idle_daemon\<lparr>thead := [new_timer ''onbatt'' 1030 ''ONBATT'' ''ups@localhost'' []]\<rparr>"

theorem checktimers_runs_due_witness:
  "checktimers (waiting_daemon\<lparr>time_now := 1030\<rparr>) =
     waiting_daemon\<lparr>time_now := 1030, thead := [],
       execs := [([''/bin/upssched-cmd'', ''onbatt''], Some ''ups@localhost'', Some ''ONBATT'', None)]\<rparr>"
proof -
  have "collect_string [''ups@localhost''] '','' = Some ''ups@localhost''" "collect_string [''ONBATT''] '','' = Some ''ONBATT''"
    by code_simp+
  moreover have "thead (waiting_daemon\<lparr>time_now := 1030\<rparr>) \<noteq> []" by (simp add: waiting_daemon_def)
  ultimately show ?thesis
    using checktimers_runs_due [of "waiting_daemon\<lparr>time_now := 1030\<rparr>"]
    by (simp add: waiting_daemon_def idle_daemon_def new_timer_def add_label_def runs_of_def script_run_def collect_string_def)
qed

definition quiet_round :: "int \<Rightarrow> round_in" where
  "quiet_round t = \<lparr>rd_now = t, rd_peer = None, rd_ready = []\<rparr>"

lemma quiet_rounds_requests: "connhead d = [] \<Longrightarrow> requests (daemon_round junk (quiet_round t) d) = requests d \<and> connhead (daemon_round junk (quiet_round t) d) = []"
  by (simp add: daemon_round_def quiet_round_def Let_def checktimers_def check_each_spec)

theorem timer_runs_when_due_witness: "let d = fold (daemon_round blank_ctx) [quiet_round 1001, quiet_round 1029] waiting_daemon in
     pending ''onbatt'' 1030 d \<and> ran_script ''onbatt'' d (daemon_round blank_ctx (quiet_round 1030) d)"
proof -
  let ?d = "fold (daemon_round blank_ctx) [quiet_round 1001, quiet_round 1029] waiting_daemon"
  have w: "pending ''onbatt'' 1030 waiting_daemon" "\<not> exited waiting_daemon" "cmdscript_argv waiting_daemon \<noteq> []"
    "list_all (\<lambda>r. rd_now r < 1030) [quiet_round 1001, quiet_round 1029]" "1030 \<le> rd_now (quiet_round 1030)"
    by (simp_all add: waiting_daemon_def idle_daemon_def new_timer_def pending_def quiet_round_def)
  have "connhead waiting_daemon = []" by (simp add: waiting_daemon_def idle_daemon_def)
  then have "requests (daemon_round blank_ctx (quiet_round 1030) ?d) = requests waiting_daemon"
    using quiet_rounds_requests by simp
  then have "uncancelled ''onbatt'' waiting_daemon (daemon_round blank_ctx (quiet_round 1030) ?d)"
    by (simp add: uncancelled_def)
  moreover have "\<not> tainted (daemon_round blank_ctx (quiet_round 1030) ?d)" by code_simp
  ultimately show ?thesis using timer_runs_when_due [OF w(1,2) _ w(3-5)] by (simp add: Let_def)
qed

theorem rule_starts_timer_witness:
  "\<exists>line a'. parse_at ''ONBATT'' ''*'' ''START-TIMER'' ''onbatt'' (Some ''30'') sample_caller = Some a' \<and> transmitted a' = [line] \<and>
     last line = CHR 10 \<and> (\<exists>k. thead (reads k 7 (conn_add blank_ctx (7, map Read_byte line, []) idle_daemon)) =
        [new_timer ''onbatt'' 1030 ''ONBATT'' ''ups@localhost'' ''on battery''])"
proof -
  let ?a = sample_caller and ?ps = "request_pieces sample_caller ''START'' ''onbatt'' (Some ''30'')"
  have a: "at_argv ?a \<noteq> []" "pipefn ?a \<noteq> None" "lockfn ?a \<noteq> None" "''*'' = ups_name ?a \<or> ''*'' = ''*''"
    "same_nocase (notify_type ?a) ''ONBATT''" "contacts ?a = Daemon_there (Answer (''OK'' @ [CHR 10])) # []"
    "take 2 (''OK'' @ [CHR 10]) = ''OK''"
    by (simp_all add: sample_caller_def)
  have ok: "list_all (piece_ok PCONF_DEFAULT_WORDLEN_LIMIT) ?ps" "length (render_pieces ?ps) + 1 < LARGEBUF"
    by code_simp+
  have thirty: "fst (strtol ''30'' 10) = 30" by code_simp
  then have start: "0 \<le> fst (strtol ''30'' 10)" by simp
  have free: "find_conn 7 idle_daemon = None" by (simp add: find_conn_def idle_daemon_def)
  let ?line = "render_pieces ?ps @ [CHR 10]"
  have rule: "parse_at ''ONBATT'' ''*'' ''START-TIMER'' ''onbatt'' (Some ''30'') ?a = Some (?a\<lparr>contacts := [], transmitted := transmitted ?a @ [?line]\<rparr>)"
    and start: "\<forall>inp. alive_input inp \<and> bytes_of inp = ?line \<longrightarrow>
      (\<exists>k \<le> length inp. thead (reads k 7 (conn_add blank_ctx (7, inp, []) idle_daemon)) =
        thead idle_daemon @ [new_timer ''onbatt'' (time_now idle_daemon + fst (strtol ''30'' 10)) (notify_type ?a) (ups_name ?a)
          (case notify_msg ?a of None \<Rightarrow> [] | Some w \<Rightarrow> w)])"
    using rule_starts_timer [OF a ok start free refl, of blank_ctx "[]"] by blast+
  have "alive_input (map Read_byte ?line) \<and> bytes_of (map Read_byte ?line) = ?line" using bytes_whole by blast
  with start obtain k where "thead (reads k 7 (conn_add blank_ctx (7, map Read_byte ?line, []) idle_daemon)) =
      [new_timer ''onbatt'' 1030 ''ONBATT'' ''ups@localhost'' ''on battery'']"
    unfolding thirty by (auto simp: sample_caller_def idle_daemon_def)
  then show ?thesis using rule
    by (intro exI [of _ ?line] exI [of _ "?a\<lparr>contacts := [], transmitted := transmitted ?a @ [?line]\<rparr>"])
      (auto simp: sample_caller_def)
qed

section \<open>Where the program uses memory that is not its own\<close>

text \<open>A cancellation removes every timer of the name and no other; it then reads a timer it has freed.\<close>

lemma cancel_reads_freed:
  "thead (cancel_timer n c ty un False d) = filter (\<lambda>t. tm_name t \<noteq> n) (thead d) \<and>
   (tainted (cancel_timer n c ty un False d) \<longleftrightarrow> tainted d \<or> (\<exists>t \<in> set (thead d). tm_name t = n))"
proof -
  have "cancels n ty un False = (\<lambda>t. tm_name t = n)" by (simp add: cancels_def fun_eq_iff)
  then show ?thesis
    by (auto simp: cancel_timer_def Let_def taint_def exec_cmd_def list_ex_iff filter_id_conv intro: sym)
qed

lemma second_label_overflows:
  "tainted (start_timer ''gone'' ''10'' ''COMMBAD'' ''b@h'' '''' True
     (start_timer ''gone'' ''10'' ''COMMBAD'' ''a@h'' '''' True idle_daemon))"
  by code_simp

text \<open>The documented command \<open>CANCEL-TIMER-MATCHED\<close> is taken for an invalid one.\<close>

lemma matched_cancel_ignored:
  "at_argv a \<noteq> [] \<Longrightarrow> pipefn a \<noteq> None \<Longrightarrow> lockfn a \<noteq> None \<Longrightarrow> parse_at ntype un ''CANCEL-TIMER-MATCHED'' ca1 ca2 a = Some a"
  by (simp add: parse_at_def)

text \<open>Labels whose joined length just fills the buffer lose their last character and all that follows.\<close>

lemma joined_labels_cut:
  "collect_string [replicate 511 (CHR ''a''), ''b''] '','' = Some (replicate 510 (CHR ''a''))"
proof -
  have "room 511 SMALLBUF = 512" "room 513 512 = 1536"
    by (simp_all add: room.simps SMALLBUF_def LARGEBUF_def)
  then show ?thesis
    by (simp add: collect_string_def collect_one_def Let_def snprintf_def SMALLBUF_def hd_replicate min_def)
qed

end
