(* ===== verification/Spec2Isabelle.thy ===== *)
theory Spec2Isabelle
  imports HidPath HidLibSpec UsbHidPass StateTreeSpec StrSpec ConfFile Users Desc Tracking Sstate UpsdSteps NetAnswers Resync StatusSpec ReloadSpec UpsmonSpec UpsschedSpec
begin

text \<open>
  A model of the core of Network UPS Tools: what its daemons, its drivers' common part and its
  client library compute between the bytes they read and the bytes they write.

  THE PROGRAM. A driver talks to one UPS and keeps its variables in a tree; \<open>src/drivers/dstate.c\<close>
  serves that tree on a local socket. The data server \<open>upsd\<close> (\<open>src/server\<close>) holds one
  connection per driver, mirrors the tree (\<open>sstate.c\<close>) and answers the network protocol
  (\<open>net*.c\<close>) to its clients. Programs reach it through the client library
  (\<open>src/clients/upsclient.c\<close>); the shutdown monitor \<open>upsmon\<close> polls through it every UPS it is
  told of, decides when power is too low and shuts the system down; what it notifies goes to
  \<open>upssched\<close>, whose daemon runs commands after a delay. All of them read configuration files
  and socket lines with one tokenizer, \<open>src/common/parseconf.c\<close>, keep variables with
  \<open>src/common/state.c\<close>, and share the helpers of \<open>str.c\<close>, \<open>strjson.c\<close> and \<open>common.c\<close>.

  THE THEORIES, in the order of the calls.
  \<^item> \<open>NutPrelude\<close>: C strings as lists of characters, comparison without regard to case,
    the interfaces of three-way comparisons and of stores with keys. \<open>CLib\<close>: numbers as
    \<open>strtol\<close> and \<open>atoi\<close> read them, \<open>snprintf\<close> with its cut, clocks.
  \<^item> \<open>Parseconf\<close>, \<open>ParseconfSpec\<close>: the tokenizer with its buffers and limits; the
    machine refines a lexer without buffers, all ways of feeding agree, and what
    \<open>pconf_encode\<close> writes is read back.
  \<^item> \<open>StateTree\<close>, \<open>StateTreeSpec\<close>: variables with flags, enumerations, ranges and time
    stamps in a search tree, commands in a sorted list; the tree is a finite map up to case.
  \<^item> \<open>Str\<close>, \<open>StrSpec\<close>, \<open>Tokens\<close>: trimming, checked numbers, LISTEN addresses, JSON
    strings, lists of tokens such as a UPS status.
  \<^item> \<open>ConfFile\<close>, \<open>SocketLine\<close>: the two loops in which files and sockets are read.
  \<^item> \<open>Users\<close>, \<open>Desc\<close>, \<open>Tracking\<close>, \<open>Sstate\<close>: accounts (\<open>user.c\<close>), descriptions
    (\<open>desc.c\<close>), the status of commands under way (\<open>upsd.c\<close>), the connection to a driver
    and the copy of its data (\<open>sstate.c\<close>, \<open>upstype.h\<close>).
  \<^item> \<open>Upsd\<close>, \<open>NetCmds\<close>, \<open>Conf\<close>: the record \<open>world\<close> holds the static variables of
    \<open>upsd.c\<close> and \<open>conf.c\<close> (clients, devices, accounts, tracking, settings, and the bytes sent to
    every client and driver); one definition per handler of the table \<open>netcmds\<close>; the
    files \<open>upsd.conf\<close> and \<open>ups.conf\<close> and their reload.
  \<^item> \<open>NetEffects\<close>, \<open>NetSpec\<close>, \<open>NetAccess\<close>: what a handler may do, as a contract that is
    met once per primitive and instantiated with several relations; access control.
    \<open>NetAnswers\<close>: what the answers say. \<open>UpsdInv\<close>, \<open>UpsdSteps\<close>, \<open>ConfInv\<close>, \<open>ReloadSpec\<close>: the
    server as a step relation over arbitrary events and its invariant; reload.
  \<^item> \<open>Dstate\<close>, \<open>DriverStatus\<close>: the driver's side. \<open>DriverTree\<close>: the interface of what
    the calls of a driver and the polls of its socket keep of its tree, met by well-formedness
    and by the value of a variable that is immutable. \<open>Broadcast\<close>, \<open>Dump\<close>, \<open>LineRender\<close>,
    \<open>Mirror\<close>, \<open>Resync\<close>: the two ends of the socket together, up to the theorem that the
    server's copy after a dump is the driver's tree. \<open>StatusSpec\<close>: what a driver publishes
    as \<open>ups.status\<close>.
  \<^item> \<open>Format\<close>, \<open>Upsclient\<close>, \<open>UpsclientSpec\<close>: the check of formatting strings chosen at
    run time and the client library; a value that a program reads is the server's.
  \<^item> \<open>Upsmon\<close>, \<open>UpsmonStatus\<close>, \<open>UpsmonSpec\<close>: the monitor. The record \<open>utype_t\<close> is the
    state of one UPS, \<open>gstate\<close> the static variables, \<open>monitor\<close> both; flags follow the words of
    the status, the decision to shut down is the comparison of power values, servers are
    told before the command is called.
  \<^item> \<open>Upssched\<close>, \<open>UpsschedSpec\<close>: timers, from the rule in the file to the command.
  \<^item> \<open>HidParser\<close>, \<open>HidSafe\<close>, \<open>HidSpec\<close>, \<open>HidDescribe\<close>, \<open>HidValue\<close>: the parser of the report
    descriptor of a USB device (\<open>src/drivers/hidparser.c\<close>), one definition per kind of item, where
    an access outside of an array is the value \<open>None\<close>: no descriptor of at most 834 bytes
    leads to one, a described field is found where it lies, and the bits of a field are read and written.
    \<open>HidLib\<close>, \<open>HidLibSpec\<close>, \<open>HidPath\<close>: access to items (\<open>src/drivers/libhid.c\<close>) through
    the buffer of reports, with its invariant over all reads, writes and events, and the names of
    paths.
  \<^item> \<open>UsbHid\<close>, \<open>UsbHidSpec\<close>, \<open>UsbHidPass\<close>: the status of the USB HID driver
    (\<open>src/drivers/usbhid-ups.c\<close>): the record \<open>hid_state\<close> holds the bits remembered from the
    reports and the times of delays next to the common part of a driver; which words and
    alarms are made of them, in one pass and over several; resting on \<open>DriverPass\<close>, the changes of
    variables by a driver with settled connections.

  HOW C IS READ. A struct is a record, a linked list a list in the order of its pointers, a
  static variable a field of the record of its component. Strings end before their first
  null byte by construction. Integers of C are words or integers with their wrap-around
  where the code relies on it or can reach it (\<open>size_t\<close> in \<open>pconf_encode\<close>, \<open>int\<close> in
  \<open>atoi\<close>, flags of \<open>upsmon\<close>), and integers elsewhere. Buffers with a limit keep it:
  \<open>snprintf\<close> cuts, \<open>sendback\<close> cuts at 512, words of the tokenizer at its limits. A program that
  exits is a branch of the result, never an undefined value.

  PARAMETERS AND BOUNDS. Outcomes of system calls are arguments: results of \<open>read\<close>,
  \<open>write\<close>, \<open>connect\<close>, of opening files, of \<open>select\<close> and \<open>poll\<close>, clocks and \<open>rand\<close>. A statement over
  all of them holds for every behaviour of the system. Numbers with a fraction occur only
  through comparisons, which are arguments as well. Loops over input are recursion on the input.
  Three loops have explicit fuel: \<open>conf_loop\<close>, for which a theorem of that theory shows that the
  length of the file is enough; the broadcast of a driver, which calls itself when a write
  fails and for which \<open>Broadcast\<close> shows that the depth 3 of \<open>BROADCAST_DEPTH\<close> is enough;
  and the search of \<open>upssched\<close> for its daemon, which the code itself limits to
  \<open>MAX_TRIES\<close>. The loops of the HID parser are partial functions, which a theorem shows to end. The waiting loops of a shutdown are recursion on the list of clock readings.

  NOT MODELLED. The roughly 150 device drivers with their vendor protocols, apart from what
  they share and the part of \<open>usbhid-ups.c\<close> named above (of the USB HID drivers the conversion to
  physical values, in floating point, the texts that a device stores, the tables of vendors, the
  walk over items, commands and reconnection); the CGI programs (presentation); the scanner and other tools (probing through
  libraries loaded at run time); the C++ libraries; SSL (the model is a build without it, as
  the code allows); Windows; processes, signals, locks and permissions of files; the
  privileged parent of \<open>upsmon\<close>, \<open>wall\<close> and the announcement of sleep by the system; the creation of
  sockets and the display of timers by \<open>upssched\<close>; log messages. These either compute
  nothing that another part relies on or consist of calls to the system.

  WHERE THE CODE DIFFERS from what it means to do, a theorem shows the behaviour as it is
  (the connection that a nested broadcast frees in \<open>Broadcast\<close>, the buffer of one byte in
  \<open>ParseconfSpec\<close>); the hypotheses of the other theorems exclude exactly those inputs.
\<close>

end
